(* ===== verification/Py_Prelude.thy ===== *)
theory Py_Prelude
  imports Main "HOL-Library.Char_ord" "HOL-Library.List_Lexorder" "HOL-Library.Word"
    "HOL-Library.Code_Target_Numeral"
begin

text \<open>
  Shared vocabulary of the development: computations that read and write a state and may
  raise (an exception keeps the state reached so far, as in Python), a small Hoare calculus
  for them, batches of a list, stable sorting, and finite updates of association lists.

  \<open>string\<close> stands for a Python \<open>str\<close> whose code points are below 256: a \<open>char\<close> is the
  code point. \<open>bytes\<close> are lists of 8-bit words.
\<close>

named_theorems prog_simps \<open>evaluation of state-and-exception programs\<close>
named_theorems hoare_rules \<open>introduction rules of the Hoare calculus\<close>

type_synonym bytes = "8 word list"

section \<open>Results that may be an error\<close>

fun bindE :: "'e + 'a \<Rightarrow> ('a \<Rightarrow> 'e + 'b) \<Rightarrow> 'e + 'b" where
  "bindE (Inl e) f = Inl e"
| "bindE (Inr a) f = f a"

definition guardE :: "bool \<Rightarrow> 'e \<Rightarrow> 'e + unit" where
  "guardE b e = (if b then Inr () else Inl e)"

fun foldE :: "('x \<Rightarrow> 'v \<Rightarrow> 'e + 'v) \<Rightarrow> 'x list \<Rightarrow> 'v \<Rightarrow> 'e + 'v" where
  "foldE f [] v = Inr v"
| "foldE f (x # xs) v = bindE (f x v) (foldE f xs)"

fun mapE :: "('x \<Rightarrow> 'e + 'y) \<Rightarrow> 'x list \<Rightarrow> 'e + 'y list" where
  "mapE f [] = Inr []"
| "mapE f (x # xs) = bindE (f x) (\<lambda>y. bindE (mapE f xs) (\<lambda>ys. Inr (y # ys)))"

lemma bindE_Inr [simp]: "bindE r f = Inr b \<longleftrightarrow> (\<exists>a. r = Inr a \<and> f a = Inr b)"
  by (cases r) auto

lemma guardE_Inr [simp]: "guardE b e = Inr u \<longleftrightarrow> b"
  by (simp add: guardE_def)

lemma foldE_invariant:
  assumes "foldE f xs v = Inr w" and "I v"
    and "\<And>x u u'. x \<in> set xs \<Longrightarrow> I u \<Longrightarrow> f x u = Inr u' \<Longrightarrow> I u'"
  shows "I w"
  using assms
proof (induction xs arbitrary: v)
  case Nil
  then show ?case by simp
next
  case (Cons x xs)
  from Cons.prems(1) obtain u where u: "f x v = Inr u" "foldE f xs u = Inr w" by auto
  have "I u" using Cons.prems(3) [of x v u] Cons.prems(2) u(1) by simp
  with u(2) show ?case using Cons.prems(3) by (intro Cons.IH [of u]) auto
qed

lemma mapE_Inr_length: "mapE f xs = Inr ys \<Longrightarrow> length ys = length xs"
  by (induction xs arbitrary: ys) auto

section \<open>Programs with state and exceptions\<close>

type_synonym ('s, 'e, 'a) prog = "'s \<Rightarrow> ('e + 'a) \<times> 's"

definition retP :: "'a \<Rightarrow> ('s, 'e, 'a) prog" where
  "retP a = (\<lambda>s. (Inr a, s))"

definition raiseP :: "'e \<Rightarrow> ('s, 'e, 'a) prog" where
  "raiseP e = (\<lambda>s. (Inl e, s))"

definition getP :: "('s \<Rightarrow> 'a) \<Rightarrow> ('s, 'e, 'a) prog" where
  "getP f = (\<lambda>s. (Inr (f s), s))"

definition modP :: "('s \<Rightarrow> 's) \<Rightarrow> ('s, 'e, unit) prog" where
  "modP f = (\<lambda>s. (Inr (), f s))"

definition bindP :: "('s, 'e, 'a) prog \<Rightarrow> ('a \<Rightarrow> ('s, 'e, 'b) prog) \<Rightarrow> ('s, 'e, 'b) prog" where
  "bindP m f = (\<lambda>s. case m s of (Inl e, t) \<Rightarrow> (Inl e, t) | (Inr a, t) \<Rightarrow> f a t)"

definition thenP :: "('s, 'e, 'a) prog \<Rightarrow> ('s, 'e, 'b) prog \<Rightarrow> ('s, 'e, 'b) prog" where
  "thenP m n = bindP m (\<lambda>_. n)"

text \<open>\<open>try: m except E as e: h e\<close>\<close>

definition tryP :: "('s, 'e, 'a) prog \<Rightarrow> ('e \<Rightarrow> ('s, 'e, 'a) prog) \<Rightarrow> ('s, 'e, 'a) prog" where
  "tryP m h = (\<lambda>s. case m s of (Inl e, t) \<Rightarrow> h e t | (Inr a, t) \<Rightarrow> (Inr a, t))"

text \<open>\<open>for x in xs: f x\<close>\<close>

fun forP :: "'x list \<Rightarrow> ('x \<Rightarrow> ('s, 'e, unit) prog) \<Rightarrow> ('s, 'e, unit) prog" where
  "forP [] f = retP ()"
| "forP (x # xs) f = thenP (f x) (forP xs f)"

text \<open>\<open>[f x for x in xs]\<close>\<close>

fun mapP :: "('x \<Rightarrow> ('s, 'e, 'a) prog) \<Rightarrow> 'x list \<Rightarrow> ('s, 'e, 'a list) prog" where
  "mapP f [] = retP []"
| "mapP f (x # xs) = bindP (f x) (\<lambda>y. bindP (mapP f xs) (\<lambda>ys. retP (y # ys)))"

text \<open>A loop that threads a local variable through its iterations.\<close>

fun foldP :: "('x \<Rightarrow> 'v \<Rightarrow> ('s, 'e, 'v) prog) \<Rightarrow> 'x list \<Rightarrow> 'v \<Rightarrow> ('s, 'e, 'v) prog" where
  "foldP f [] v = retP v"
| "foldP f (x # xs) v = bindP (f x v) (foldP f xs)"

definition liftP :: "'e + 'a \<Rightarrow> ('s, 'e, 'a) prog" where
  "liftP r = (\<lambda>s. (r, s))"

lemma prog_eval [prog_simps, simp]:
  "retP a s = (Inr a, s)"
  "raiseP e s = (Inl e, s)"
  "getP f s = (Inr (f s), s)"
  "modP h s = (Inr (), h s)"
  "liftP r s = (r, s)"
  by (simp_all add: retP_def raiseP_def getP_def modP_def liftP_def)

lemma bindP_eval [prog_simps]:
  "bindP m f s = (case m s of (Inl e, t) \<Rightarrow> (Inl e, t) | (Inr a, t) \<Rightarrow> f a t)"
  by (simp add: bindP_def)

lemma thenP_eval [prog_simps]:
  "thenP m n s = (case m s of (Inl e, t) \<Rightarrow> (Inl e, t) | (Inr a, t) \<Rightarrow> n t)"
  by (simp add: thenP_def bindP_def)

lemma tryP_eval [prog_simps]:
  "tryP m h s = (case m s of (Inl e, t) \<Rightarrow> h e t | (Inr a, t) \<Rightarrow> (Inr a, t))"
  by (simp add: tryP_def)

lemma bindP_cong:
  "(\<And>a u. m s = (Inr a, u) \<Longrightarrow> f a u = g a u) \<Longrightarrow> bindP m f s = bindP m g s"
  by (auto simp: bindP_def split: prod.splits sum.splits)

lemma bindP_Inr:
  "bindP m f s = (Inr b, t) \<longleftrightarrow> (\<exists>a u. m s = (Inr a, u) \<and> f a u = (Inr b, t))"
  by (auto simp: bindP_eval split: prod.splits sum.splits)

lemma thenP_Inr:
  "thenP m n s = (Inr b, t) \<longleftrightarrow> (\<exists>a u. m s = (Inr a, u) \<and> n u = (Inr b, t))"
  by (auto simp: thenP_def bindP_Inr)

text \<open>A handler that always raises again.\<close>

lemma then_raise_not_Inr: "thenP m (raiseP e) s \<noteq> (Inr a, t)"
  by (auto simp: thenP_eval split: prod.splits sum.splits)

lemma tryP_reraise:
  assumes "tryP m h s = (Inr a, t)" and "\<And>e u. h e u \<noteq> (Inr a, t)"
  shows "m s = (Inr a, t)"
  using assms by (auto simp: tryP_eval split: prod.splits sum.splits)

section \<open>A Hoare calculus\<close>

text \<open>
  \<open>hoare P m Q E\<close>: started in a state that satisfies \<open>P\<close>, the program \<open>m\<close> either returns a
  value and a state related by \<open>Q\<close>, or raises an exception and leaves a state related by \<open>E\<close>.
\<close>

definition hoare ::
  "('s \<Rightarrow> bool) \<Rightarrow> ('s, 'e, 'a) prog \<Rightarrow> ('a \<Rightarrow> 's \<Rightarrow> bool) \<Rightarrow> ('e \<Rightarrow> 's \<Rightarrow> bool) \<Rightarrow> bool" where
  "hoare P m Q E \<longleftrightarrow>
     (\<forall>s. P s \<longrightarrow> (case m s of (Inl e, t) \<Rightarrow> E e t | (Inr a, t) \<Rightarrow> Q a t))"

lemma hoareI:
  assumes "\<And>s a t. P s \<Longrightarrow> m s = (Inr a, t) \<Longrightarrow> Q a t"
    and "\<And>s e t. P s \<Longrightarrow> m s = (Inl e, t) \<Longrightarrow> E e t"
  shows "hoare P m Q E"
  using assms by (auto simp: hoare_def split: prod.splits sum.splits)

lemma hoare_retD: "hoare P m Q E \<Longrightarrow> P s \<Longrightarrow> m s = (Inr a, t) \<Longrightarrow> Q a t"
  by (force simp: hoare_def)

lemma hoare_raiseD: "hoare P m Q E \<Longrightarrow> P s \<Longrightarrow> m s = (Inl e, t) \<Longrightarrow> E e t"
  by (force simp: hoare_def)

lemma hoare_ret [hoare_rules]: "(\<And>s. P s \<Longrightarrow> Q a s) \<Longrightarrow> hoare P (retP a) Q E"
  by (simp add: hoare_def)

lemma hoare_raise [hoare_rules]: "(\<And>s. P s \<Longrightarrow> E e s) \<Longrightarrow> hoare P (raiseP e) Q E"
  by (simp add: hoare_def)

lemma hoare_get [hoare_rules]: "(\<And>s. P s \<Longrightarrow> Q (f s) s) \<Longrightarrow> hoare P (getP f) Q E"
  by (simp add: hoare_def)

lemma hoare_mod [hoare_rules]: "(\<And>s. P s \<Longrightarrow> Q () (f s)) \<Longrightarrow> hoare P (modP f) Q E"
  by (simp add: hoare_def)

lemma hoare_bind:
  assumes "hoare P m R E" and "\<And>a. hoare (R a) (f a) Q E"
  shows "hoare P (bindP m f) Q E"
proof (rule hoareI)
  fix s b t
  assume s: "P s" and run: "bindP m f s = (Inr b, t)"
  from run obtain a u where m: "m s = (Inr a, u)" and f: "f a u = (Inr b, t)"
    by (auto simp: bindP_eval split: prod.splits sum.splits)
  from assms(1) s m have "R a u" by (rule hoare_retD)
  from assms(2) this f show "Q b t" by (rule hoare_retD)
next
  fix s e t
  assume s: "P s" and run: "bindP m f s = (Inl e, t)"
  show "E e t"
  proof (cases "m s")
    case (Pair r u)
    show ?thesis
    proof (cases r)
      case (Inl e')
      with run Pair have "m s = (Inl e, t)" by (simp add: bindP_eval)
      with assms(1) s show ?thesis by (rule hoare_raiseD)
    next
      case (Inr a)
      with run Pair have f: "f a u = (Inl e, t)" by (simp add: bindP_eval)
      from assms(1) s have "R a u" using Pair Inr by (auto intro: hoare_retD)
      with assms(2) show ?thesis using f by (rule hoare_raiseD)
    qed
  qed
qed

lemma hoare_then:
  assumes "hoare P m (\<lambda>_. R) E" and "hoare R n Q E"
  shows "hoare P (thenP m n) Q E"
  unfolding thenP_def using assms by (rule hoare_bind)

lemma hoare_try:
  assumes "hoare P m Q R" and "\<And>e. hoare (R e) (h e) Q E"
  shows "hoare P (tryP m h) Q E"
  unfolding hoare_def
proof (intro allI impI)
  fix s
  assume s: "P s"
  show "case tryP m h s of (Inl e, t) \<Rightarrow> E e t | (Inr a, t) \<Rightarrow> Q a t"
  proof (cases "m s")
    case (Pair r u)
    show ?thesis
    proof (cases r)
      case (Inl e')
      from assms(1) s have "R e' u" using Pair Inl by (auto intro: hoare_raiseD)
      with assms(2) [of e'] Pair Inl show ?thesis by (simp add: hoare_def tryP_eval)
    next
      case (Inr a)
      from assms(1) s have "Q a u" using Pair Inr by (auto intro: hoare_retD)
      with Pair Inr show ?thesis by (simp add: tryP_eval)
    qed
  qed
qed

lemma hoare_if [hoare_rules]:
  "(b \<Longrightarrow> hoare P m Q E) \<Longrightarrow> (\<not> b \<Longrightarrow> hoare P n Q E) \<Longrightarrow> hoare P (if b then m else n) Q E"
  by simp

lemma hoare_conseq:
  assumes "hoare P' m Q' E'" and "\<And>s. P s \<Longrightarrow> P' s"
    and "\<And>a s. Q' a s \<Longrightarrow> Q a s" and "\<And>e s. E' e s \<Longrightarrow> E e s"
  shows "hoare P m Q E"
  using assms unfolding hoare_def by (fastforce split: prod.splits sum.splits)

lemma hoare_for:
  assumes "\<And>x. x \<in> set xs \<Longrightarrow> hoare I (f x) (\<lambda>_. I) E"
  shows "hoare I (forP xs f) (\<lambda>_. I) E"
  using assms
proof (induction xs)
  case Nil
  then show ?case by (simp add: hoare_def)
next
  case (Cons x xs)
  have "hoare I (f x) (\<lambda>_. I) E" and "hoare I (forP xs f) (\<lambda>_. I) E"
    using Cons by auto
  then show ?case by (auto intro: hoare_then)
qed

lemma hoare_fold:
  assumes "\<And>x v. x \<in> set xs \<Longrightarrow> hoare (I v) (f x v) I E"
  shows "hoare (I v) (foldP f xs v) I E"
  using assms
proof (induction xs arbitrary: v)
  case Nil
  then show ?case by (simp add: hoare_def)
next
  case (Cons x xs)
  have "hoare (I v) (f x v) I E" and "\<And>w. hoare (I w) (foldP f xs w) I E"
    using Cons by auto
  then show ?case by (auto intro: hoare_bind)
qed

text \<open>A loop whose invariant knows which part of the list has been handled.\<close>

lemma hoare_for_prefix:
  assumes "\<And>done x rest. xs = done @ x # rest \<Longrightarrow>
             hoare (I done) (f x) (\<lambda>_. I (done @ [x])) E"
  shows "hoare (I []) (forP xs f) (\<lambda>_. I xs) E"
proof -
  have "xs = done @ rest \<Longrightarrow> hoare (I done) (forP rest f) (\<lambda>_. I xs) E" for "done" rest
  proof (induction rest arbitrary: "done")
    case Nil
    then show ?case by (simp add: hoare_def)
  next
    case (Cons x rest)
    have "hoare (I done) (f x) (\<lambda>_. I (done @ [x])) E"
      using assms Cons.prems by blast
    moreover have "hoare (I (done @ [x])) (forP rest f) (\<lambda>_. I xs) E"
      using Cons.prems by (intro Cons.IH) simp
    ultimately show ?case by (auto intro: hoare_then)
  qed
  from this [of "[]" xs] show ?thesis by simp
qed

text \<open>The same for a loop that threads a value.\<close>

lemma hoare_fold_prefix:
  assumes "\<And>done x rest v. xs = done @ x # rest \<Longrightarrow> hoare (I done v) (f x v) (I (done @ [x])) E"
  shows "hoare (I [] v) (foldP f xs v) (I xs) E"
proof -
  have "xs = done @ rest \<Longrightarrow> hoare (I done v) (foldP f rest v) (I xs) E" for "done" rest v
  proof (induction rest arbitrary: "done" v)
    case Nil
    then show ?case by (simp add: hoare_def)
  next
    case (Cons x rest)
    have "hoare (I done v) (f x v) (I (done @ [x])) E" using assms Cons.prems by blast
    moreover have "hoare (I (done @ [x]) u) (foldP f rest u) (I xs) E" for u
      using Cons.prems by (intro Cons.IH) simp
    ultimately show ?case by (auto intro: hoare_bind)
  qed
  from this [of "[]" xs v] show ?thesis by simp
qed

section \<open>Programs that keep an invariant\<close>

text \<open>\<open>keeps I m\<close>: the invariant survives the program, whether it returns or raises.\<close>

named_theorems keeps_rules \<open>rules for invariants of programs\<close>

definition keeps :: "('s \<Rightarrow> bool) \<Rightarrow> ('s, 'e, 'a) prog \<Rightarrow> bool" where
  "keeps I m \<longleftrightarrow> hoare I m (\<lambda>_. I) (\<lambda>_. I)"

lemma keepsI: "(\<And>s r t. I s \<Longrightarrow> m s = (r, t) \<Longrightarrow> I t) \<Longrightarrow> keeps I m"
  by (auto simp: keeps_def hoare_def split: prod.splits sum.splits)

lemma keepsD: "keeps I m \<Longrightarrow> I s \<Longrightarrow> m s = (r, t) \<Longrightarrow> I t"
  by (cases r) (auto simp: keeps_def dest: hoare_retD hoare_raiseD)

lemma keeps_basic [keeps_rules]:
  "keeps I (retP a)" "keeps I (raiseP e)" "keeps I (getP f)" "keeps I (liftP r)"
  by (auto intro!: keepsI)

lemma keeps_bind [keeps_rules]: "keeps I m \<Longrightarrow> (\<And>a. keeps I (f a)) \<Longrightarrow> keeps I (bindP m f)"
  unfolding keeps_def by (rule hoare_bind)

lemma keeps_bind_value:
  assumes "hoare I m (\<lambda>a s. I s \<and> p a) (\<lambda>_. I)" and "\<And>a. p a \<Longrightarrow> keeps I (f a)"
  shows "keeps I (bindP m f)"
  unfolding keeps_def
proof (rule hoare_bind)
  show "hoare I m (\<lambda>a s. I s \<and> p a) (\<lambda>_. I)" by (rule assms(1))
  show "hoare (\<lambda>s. I s \<and> p a) (f a) (\<lambda>_. I) (\<lambda>_. I)" for a
    using assms(2) [of a] by (auto simp: keeps_def hoare_def)
qed

lemma keeps_then [keeps_rules]: "keeps I m \<Longrightarrow> keeps I n \<Longrightarrow> keeps I (thenP m n)"
  by (simp add: thenP_def keeps_bind)

lemma keeps_try [keeps_rules]: "keeps I m \<Longrightarrow> (\<And>e. keeps I (h e)) \<Longrightarrow> keeps I (tryP m h)"
  unfolding keeps_def by (rule hoare_try)

lemma keeps_if [keeps_rules]: "(b \<Longrightarrow> keeps I m) \<Longrightarrow> (\<not> b \<Longrightarrow> keeps I n) \<Longrightarrow> keeps I (if b then m else n)"
  by simp

lemma keeps_for [keeps_rules]: "(\<And>x. x \<in> set xs \<Longrightarrow> keeps I (f x)) \<Longrightarrow> keeps I (forP xs f)"
  unfolding keeps_def by (rule hoare_for)

lemma keeps_fold [keeps_rules]: "(\<And>x v. x \<in> set xs \<Longrightarrow> keeps I (f x v)) \<Longrightarrow> keeps I (foldP f xs v)"
  unfolding keeps_def using hoare_fold [of xs "\<lambda>_. I" f "\<lambda>_. I" v] by simp

lemma keeps_map [keeps_rules]: "(\<And>x. keeps I (f x)) \<Longrightarrow> keeps I (mapP f xs)"
  by (induction xs) (auto intro!: keeps_rules)

text \<open>A fold whose accumulator satisfies a property that depends on no state.\<close>

lemma fold_value:
  assumes "p v" and "\<And>x u. x \<in> set xs \<Longrightarrow> p u \<Longrightarrow> hoare I (f x u) (\<lambda>a s. I s \<and> p a) (\<lambda>_. I)"
  shows "hoare I (foldP f xs v) (\<lambda>a s. I s \<and> p a) (\<lambda>_. I)"
proof -
  have "hoare (\<lambda>s. I s \<and> p u) (f x u) (\<lambda>a s. I s \<and> p a) (\<lambda>_. I)" if "x \<in> set xs" for x u
    using assms(2) [OF that, of u] by (auto simp: hoare_def)
  then have "hoare (\<lambda>s. I s \<and> p v) (foldP f xs v) (\<lambda>a s. I s \<and> p a) (\<lambda>_. I)" for v
    by (rule hoare_fold [where I = "\<lambda>u s. I s \<and> p u"])
  with assms(1) show ?thesis by (auto simp: hoare_def)
qed

lemma hoare_pure_pre: "(p \<Longrightarrow> hoare P m Q E) \<Longrightarrow> hoare (\<lambda>s. P s \<and> p) m Q E"
  by (auto simp: hoare_def)

lemma bind_value:
  assumes "hoare I m (\<lambda>a s. I s \<and> p a) (\<lambda>_. I)" and "\<And>a. p a \<Longrightarrow> hoare I (f a) Q (\<lambda>_. I)"
  shows "hoare I (bindP m f) Q (\<lambda>_. I)"
proof (rule hoare_bind [OF assms(1)])
  show "hoare (\<lambda>s. I s \<and> p a) (f a) Q (\<lambda>_. I)" for a
    by (rule hoare_pure_pre [OF assms(2)])
qed

text \<open>A fold fails when one of its steps cannot return.\<close>

lemma fold_fails:
  assumes "x \<in> set xs" and "\<And>v. hoare I (f x v) (\<lambda>_ _. False) (\<lambda>_. I)"
    and "\<And>y v. y \<in> set xs \<Longrightarrow> keeps I (f y v)"
  shows "hoare I (foldP f xs v) (\<lambda>_ _. False) (\<lambda>_. I)"
  using assms(1,3)
proof (induction xs arbitrary: v)
  case Nil
  then show ?case by simp
next
  case (Cons y ys)
  show ?case
  proof (cases "y = x")
    case True
    then have "hoare I (bindP (f x v) (foldP f ys)) (\<lambda>_ _. False) (\<lambda>_. I)"
      by (intro hoare_bind [OF assms(2)]) (simp add: hoare_def)
    with True show ?thesis by simp
  next
    case False
    then have "hoare I (foldP f ys u) (\<lambda>_ _. False) (\<lambda>_. I)" for u
      using Cons.prems by (intro Cons.IH) auto
    moreover have "hoare I (f y v) (\<lambda>_. I) (\<lambda>_. I)" using Cons.prems by (simp add: keeps_def)
    ultimately show ?thesis by (auto intro: hoare_bind)
  qed
qed

section \<open>Programs that only look\<close>

text \<open>
  \<open>quiet v m\<close>: the program leaves the view \<open>v\<close> of the state alone. \<open>reads v m f\<close>: it also returns,
  if it returns, the value that \<open>f\<close> takes from the view.
\<close>

definition quiet :: "('s \<Rightarrow> 'v) \<Rightarrow> ('s, 'e, 'a) prog \<Rightarrow> bool" where
  "quiet view m \<longleftrightarrow> (\<forall>s r t. m s = (r, t) \<longrightarrow> view t = view s)"

definition reads :: "('s \<Rightarrow> 'v) \<Rightarrow> ('s, 'e, 'a) prog \<Rightarrow> ('v \<Rightarrow> 'a) \<Rightarrow> bool" where
  "reads view m f \<longleftrightarrow> (\<forall>s r t. m s = (r, t) \<longrightarrow> view t = view s \<and> (\<forall>a. r = Inr a \<longrightarrow> a = f (view s)))"

lemma quietD: "quiet view m \<Longrightarrow> m s = (r, t) \<Longrightarrow> view t = view s"
  by (auto simp: quiet_def)

lemma reads_quiet: "reads view m f \<Longrightarrow> quiet view m"
  by (auto simp: reads_def quiet_def)

lemma readsD: "reads view m f \<Longrightarrow> m s = (Inr a, t) \<Longrightarrow> view t = view s \<and> a = f (view s)"
  by (auto simp: reads_def)

lemma quiet_keeps: "quiet view m \<Longrightarrow> keeps (\<lambda>s. J (view s)) m"
  by (auto intro!: keepsI dest: quietD)

lemma quietI: "(\<And>s r t. m s = (r, t) \<Longrightarrow> view t = view s) \<Longrightarrow> quiet view m"
  by (auto simp: quiet_def)

lemma readsI:
  "(\<And>s r t. m s = (r, t) \<Longrightarrow> view t = view s \<and> (\<forall>a. r = Inr a \<longrightarrow> a = f (view s))) \<Longrightarrow> reads view m f"
  by (auto simp: reads_def)

named_theorems quiet_rules \<open>rules for programs that leave a view alone\<close>

lemma quiet_iff_keeps: "quiet view m \<longleftrightarrow> (\<forall>v. keeps (\<lambda>s. view s = v) m)"
  by (auto simp: quiet_def intro: keepsI dest: keepsD)

lemma quiet_basic [quiet_rules]:
  "quiet view (retP a)" "quiet view (raiseP e)" "quiet view (getP f)" "quiet view (liftP r)"
  by (simp_all add: quiet_iff_keeps keeps_basic)

lemma quiet_bind [quiet_rules]: "quiet view m \<Longrightarrow> (\<And>a. quiet view (f a)) \<Longrightarrow> quiet view (bindP m f)"
  by (simp add: quiet_iff_keeps keeps_bind)

lemma quiet_then [quiet_rules]: "quiet view m \<Longrightarrow> quiet view n \<Longrightarrow> quiet view (thenP m n)"
  by (simp add: quiet_iff_keeps keeps_then)

lemma quiet_try [quiet_rules]: "quiet view m \<Longrightarrow> (\<And>e. quiet view (h e)) \<Longrightarrow> quiet view (tryP m h)"
  by (simp add: quiet_iff_keeps keeps_try)

lemma quiet_if [quiet_rules]: "(b \<Longrightarrow> quiet view m) \<Longrightarrow> (\<not> b \<Longrightarrow> quiet view n) \<Longrightarrow> quiet view (if b then m else n)"
  by simp

lemma quiet_for [quiet_rules]: "(\<And>x. quiet view (f x)) \<Longrightarrow> quiet view (forP xs f)"
  by (simp add: quiet_iff_keeps keeps_for)

lemma quiet_fold [quiet_rules]: "(\<And>x v. quiet view (f x v)) \<Longrightarrow> quiet view (foldP f xs v)"
  by (simp add: quiet_iff_keeps keeps_fold)

lemma quiet_map [quiet_rules]: "(\<And>x. quiet view (f x)) \<Longrightarrow> quiet view (mapP f xs)"
  by (simp add: quiet_iff_keeps keeps_map)

text \<open>Rules for the case distinctions of programs.\<close>

lemma quiet_option [quiet_rules]:
  "quiet view m \<Longrightarrow> (\<And>x. quiet view (f x)) \<Longrightarrow> quiet view (case a of None \<Rightarrow> m | Some x \<Rightarrow> f x)"
  by (cases a) auto

lemma quiet_prod [quiet_rules]: "(\<And>x y. quiet view (f x y)) \<Longrightarrow> quiet view (case p of (x, y) \<Rightarrow> f x y)"
  by (cases p) auto

lemma quiet_let [quiet_rules]: "quiet view (f a) \<Longrightarrow> quiet view (let x = a in f x)"
  by simp

end
