(* ===== verification/Py_Text.thy ===== *)
theory Py_Text
  imports Py_Prelude
begin

text \<open>
  The string methods, list operations and integer conversions of Python that the services
  use: \<open>rstrip\<close>, \<open>strip\<close>, \<open>split\<close>, \<open>replace\<close> of one character, \<open>ljust\<close>, \<open>rjust\<close>, \<open>lower\<close>,
  \<open>str\<close> and \<open>int\<close> of integers, slices of a list in batches, and the first maximum of a
  list. Each definition states the result for code points below 256.
\<close>

section \<open>Batches: \<open>xs[i : i + n] for i in range(0, len(xs), n)\<close>\<close>

function chunks :: "nat \<Rightarrow> 'a list \<Rightarrow> 'a list list" where
  "chunks n xs = (if n = 0 \<or> xs = [] then [] else take n xs # chunks n (drop n xs))"
  by pat_completeness auto
termination
  by (relation "measure (\<lambda>(n, xs). length xs)") auto

declare chunks.simps [simp del]

lemma chunks_Nil [simp]: "chunks n [] = []"
  by (simp add: chunks.simps)

lemma chunks_step: "0 < n \<Longrightarrow> xs \<noteq> [] \<Longrightarrow> chunks n xs = take n xs # chunks n (drop n xs)"
  by (simp add: chunks.simps [of n xs])

lemma concat_chunks [simp]: "0 < n \<Longrightarrow> concat (chunks n xs) = xs"
proof (induction n xs rule: chunks.induct)
  case (1 n xs)
  then show ?case by (cases "xs = []") (simp_all add: chunks_step)
qed

lemma chunks_bounds: "c \<in> set (chunks n xs) \<Longrightarrow> c \<noteq> [] \<and> length c \<le> n"
proof (induction n xs rule: chunks.induct)
  case (1 n xs)
  then show ?case
    by (cases "n = 0 \<or> xs = []") (auto simp: chunks.simps [of n xs])
qed

lemma chunks_subset: "0 < n \<Longrightarrow> c \<in> set (chunks n xs) \<Longrightarrow> set c \<subseteq> set xs"
  by (metis concat_chunks set_concat UN_upper)

lemma chunks_exact:
  "0 < n \<Longrightarrow> length xs mod n = 0 \<Longrightarrow> c \<in> set (chunks n xs) \<Longrightarrow> length c = n"
proof (induction n xs rule: chunks.induct)
  case (1 n xs)
  show ?case
  proof (cases "xs = []")
    case True
    with 1 show ?thesis by simp
  next
    case False
    then have len: "n \<le> length xs" using 1(2,3)
      by (metis length_0_conv linorder_not_less mod_less)
    then have "length (drop n xs) mod n = 0" using 1(2,3)
      by (simp add: le_mod_geq)
    with 1 False len show ?thesis by (auto simp: chunks_step)
  qed
qed

lemma length_chunks_exact: "0 < n \<Longrightarrow> length xs = k * n \<Longrightarrow> length (chunks n xs) = k"
proof (induction k arbitrary: xs)
  case 0
  then show ?case by simp
next
  case (Suc k)
  then have "xs \<noteq> []" by auto
  with Suc.prems Suc.IH [of "drop n xs"] show ?case by (simp add: chunks_step)
qed

lemma chunks_concat_exact:
  "0 < n \<Longrightarrow> \<forall>x \<in> set xss. length x = n \<Longrightarrow> chunks n (concat xss) = xss"
proof (induction xss)
  case Nil
  then show ?case by simp
next
  case (Cons x xss)
  then have "x @ concat xss \<noteq> []" by auto
  with Cons show ?case by (simp add: chunks_step)
qed

lemma chunks_nth: "0 < n \<Longrightarrow> i < length (chunks n xs) \<Longrightarrow> chunks n xs ! i = take n (drop (i * n) xs)"
proof (induction i arbitrary: xs)
  case 0
  then show ?case by (cases "xs = []") (simp_all add: chunks_step)
next
  case (Suc i)
  then have "xs \<noteq> []" by auto
  with Suc show ?case by (simp add: chunks_step add.commute)
qed

section \<open>White space and stripping\<close>

definition py_isspace :: "char \<Rightarrow> bool" where
  "py_isspace c \<longleftrightarrow> (let n = of_char c :: nat in
     9 \<le> n \<and> n \<le> 13 \<or> 28 \<le> n \<and> n \<le> 32 \<or> n = 133 \<or> n = 160)"

definition lstrip_by :: "(char \<Rightarrow> bool) \<Rightarrow> string \<Rightarrow> string" where
  "lstrip_by p s = dropWhile p s"

definition rstrip_by :: "(char \<Rightarrow> bool) \<Rightarrow> string \<Rightarrow> string" where
  "rstrip_by p s = rev (dropWhile p (rev s))"

definition rstrip_sp :: "string \<Rightarrow> string" where
  "rstrip_sp s = rstrip_by (\<lambda>c. c = CHR '' '') s"

definition py_strip :: "string \<Rightarrow> string" where
  "py_strip s = rstrip_by py_isspace (lstrip_by py_isspace s)"

lemma rstrip_by_append_pad:
  "\<forall>c \<in> set t. p c \<Longrightarrow> rstrip_by p (s @ t) = rstrip_by p s"
  unfolding rstrip_by_def rev_append by (subst dropWhile_append2) auto

lemma rstrip_sp_pad [simp]: "rstrip_sp (s @ replicate n (CHR '' '')) = rstrip_sp s"
  by (simp add: rstrip_sp_def rstrip_by_append_pad)

lemma rstrip_by_idem [simp]: "rstrip_by p (rstrip_by p s) = rstrip_by p s"
  by (simp add: rstrip_by_def)

lemma rstrip_sp_idem [simp]: "rstrip_sp (rstrip_sp s) = rstrip_sp s"
  by (simp add: rstrip_sp_def)

lemma rstrip_by_decomp: "\<exists>t. s = rstrip_by p s @ t \<and> (\<forall>c \<in> set t. p c)"
proof -
  have "s = rev (dropWhile p (rev s)) @ rev (takeWhile p (rev s))"
    by (metis rev_append rev_rev_ident takeWhile_dropWhile_id)
  moreover have "\<forall>c \<in> set (rev (takeWhile p (rev s))). p c"
    by (auto dest: set_takeWhileD)
  ultimately show ?thesis unfolding rstrip_by_def by blast
qed

lemma rstrip_sp_decomp: "\<exists>n. s = rstrip_sp s @ replicate n (CHR '' '')"
proof -
  obtain t where t: "s = rstrip_sp s @ t" "\<forall>c \<in> set t. c = CHR '' ''"
    using rstrip_by_decomp [of s "\<lambda>c. c = CHR '' ''"] unfolding rstrip_sp_def by blast
  then have "t = replicate (length t) (CHR '' '')" by (simp add: replicate_length_same)
  with t(1) show ?thesis by metis
qed

section \<open>Splitting, joining, replacing\<close>

fun split_by :: "(char \<Rightarrow> bool) \<Rightarrow> string \<Rightarrow> string list" where
  "split_by p [] = [[]]"
| "split_by p (c # s) =
     (if p c then [] # split_by p s
      else (case split_by p s of [] \<Rightarrow> [[c]] | w # ws \<Rightarrow> (c # w) # ws))"

text \<open>\<open>s.split()\<close>: the maximal runs of characters that are not white space.\<close>

definition py_split :: "string \<Rightarrow> string list" where
  "py_split s = filter (\<lambda>w. w \<noteq> []) (split_by py_isspace s)"

fun py_join :: "'a list \<Rightarrow> 'a list list \<Rightarrow> 'a list" where
  "py_join sep [] = []"
| "py_join sep [x] = x"
| "py_join sep (x # y # ys) = x @ sep @ py_join sep (y # ys)"

text \<open>\<open>s.replace(c, r)\<close> for a single character \<open>c\<close>.\<close>

definition replace_char :: "char \<Rightarrow> string \<Rightarrow> string \<Rightarrow> string" where
  "replace_char c r s = concat (map (\<lambda>x. if x = c then r else [x]) s)"

definition py_startswith :: "string \<Rightarrow> string \<Rightarrow> bool" where
  "py_startswith p s \<longleftrightarrow> take (length p) s = p"

definition ljust :: "nat \<Rightarrow> 'a \<Rightarrow> 'a list \<Rightarrow> 'a list" where
  "ljust n c s = s @ replicate (n - length s) c"

definition rjust :: "nat \<Rightarrow> 'a \<Rightarrow> 'a list \<Rightarrow> 'a list" where
  "rjust n c s = replicate (n - length s) c @ s"

lemma length_ljust: "length (ljust n c s) = max n (length s)"
  by (simp add: ljust_def)

lemma length_rjust: "length (rjust n c s) = max n (length s)"
  by (simp add: rjust_def)

lemma rstrip_sp_ljust [simp]: "rstrip_sp (ljust n (CHR '' '') s) = rstrip_sp s"
  by (simp add: ljust_def)

lemma split_by_not_Nil [simp]: "split_by p s \<noteq> []"
  by (induction s) (auto split: list.splits)

text \<open>\<open>s.splitlines()\<close>: the line breaks below code point 256, CR LF counting as one.\<close>

definition is_linebreak :: "char \<Rightarrow> bool" where
  "is_linebreak c \<longleftrightarrow> (let n = of_char c :: nat in
     10 \<le> n \<and> n \<le> 13 \<or> 28 \<le> n \<and> n \<le> 30 \<or> n = 133)"

fun lines_acc :: "string \<Rightarrow> string \<Rightarrow> string list" where
  "lines_acc cur [] = (if cur = [] then [] else [rev cur])"
| "lines_acc cur (c # s) =
     (if c = CHR 0x0D \<and> s \<noteq> [] \<and> hd s = CHR 0x0A then rev cur # lines_acc [] (tl s)
      else if is_linebreak c then rev cur # lines_acc [] s
      else lines_acc (c # cur) s)"

definition py_splitlines :: "string \<Rightarrow> string list" where
  "py_splitlines s = lines_acc [] s"

text \<open>\<open>lower()\<close>: A to Z and the Latin-1 capitals, except the multiplication sign.\<close>

definition lower_char :: "char \<Rightarrow> char" where
  "lower_char c = (let n = of_char c :: nat in
     if 65 \<le> n \<and> n \<le> 90 \<or> 192 \<le> n \<and> n \<le> 222 \<and> n \<noteq> 215 then char_of (n + 32) else c)"

definition py_lower :: "string \<Rightarrow> string" where
  "py_lower s = map lower_char s"

text \<open>\<open>upper()\<close> on ASCII text: every use in the code is on text its regular expressions
  restrict to ASCII.\<close>

definition upper_char :: "char \<Rightarrow> char" where
  "upper_char c = (let n = of_char c :: nat in
     if 97 \<le> n \<and> n \<le> 122 then char_of (n - 32) else c)"

definition ascii_upper :: "string \<Rightarrow> string" where
  "ascii_upper s = map upper_char s"

section \<open>Integers and text\<close>

definition digit_char :: "nat \<Rightarrow> char" where
  "digit_char d = char_of (48 + d)"

definition is_digit :: "char \<Rightarrow> bool" where
  "is_digit c \<longleftrightarrow> (let n = of_char c :: nat in 48 \<le> n \<and> n \<le> 57)"

text \<open>\<open>s.isdigit()\<close>: the superscripts one, two and three count, too.\<close>

definition py_isdigit :: "string \<Rightarrow> bool" where
  "py_isdigit s \<longleftrightarrow> s \<noteq> [] \<and>
     list_all (\<lambda>c. is_digit c \<or> (of_char c :: nat) \<in> {178, 179, 185}) s"

definition digit_val :: "char \<Rightarrow> nat" where
  "digit_val c = of_char c - 48"

fun str_nat :: "nat \<Rightarrow> string" where
  "str_nat n = (if n < 10 then [digit_char n] else str_nat (n div 10) @ [digit_char (n mod 10)])"

declare str_nat.simps [simp del]

definition str_int :: "int \<Rightarrow> string" where
  "str_int i = (if i < 0 then CHR ''-'' # str_nat (nat (- i)) else str_nat (nat i))"

definition nat_of_digits :: "string \<Rightarrow> nat" where
  "nat_of_digits s = foldl (\<lambda>n c. 10 * n + digit_val c) 0 s"

text \<open>
  \<open>int(text)\<close>: surrounding white space, one sign, decimal digits with single underscores
  between them; anything else raises \<open>ValueError\<close> (None).
\<close>

fun int_body :: "bool \<Rightarrow> nat \<Rightarrow> string \<Rightarrow> nat option" where
  "int_body d n [] = (if d then Some n else None)"
| "int_body d n (c # s) =
     (if is_digit c then int_body True (10 * n + digit_val c) s
      else if c = CHR ''_'' \<and> d \<and> s \<noteq> [] then int_body False n s
      else None)"

definition py_int :: "string \<Rightarrow> int option" where
  "py_int s = (case py_strip s of
       [] \<Rightarrow> None
     | c # t \<Rightarrow>
         if c = CHR ''-'' then map_option (\<lambda>n. - int n) (int_body False 0 t)
         else if c = CHR ''+'' then map_option int (int_body False 0 t)
         else map_option int (int_body False 0 (c # t)))"

lemma of_char_digit: "d < 10 \<Longrightarrow> (of_char (digit_char d) :: nat) = 48 + d"
  by (simp add: digit_char_def)

lemma is_digit_digit_char [simp]: "d < 10 \<Longrightarrow> is_digit (digit_char d)"
  by (simp add: is_digit_def of_char_digit)

lemma digit_val_digit_char [simp]: "d < 10 \<Longrightarrow> digit_val (digit_char d) = d"
  by (simp add: digit_val_def of_char_digit)

lemma str_nat_digits: "\<forall>c \<in> set (str_nat n). is_digit c"
proof (induction n rule: str_nat.induct)
  case (1 n)
  then show ?case by (subst str_nat.simps) auto
qed

lemma str_nat_not_Nil [simp]: "str_nat n \<noteq> []"
  by (subst str_nat.simps) simp

lemma nat_of_digits_snoc: "nat_of_digits (s @ [c]) = 10 * nat_of_digits s + digit_val c"
  by (simp add: nat_of_digits_def)

lemma nat_of_digits_str_nat [simp]: "nat_of_digits (str_nat n) = n"
proof (induction n rule: str_nat.induct)
  case (1 n)
  show ?case
  proof (cases "n < 10")
    case True
    then show ?thesis by (simp add: str_nat.simps [of n] nat_of_digits_def)
  next
    case False
    with 1 show ?thesis by (simp add: str_nat.simps [of n] nat_of_digits_snoc)
  qed
qed

lemma int_body_digits:
  "\<forall>c \<in> set s. is_digit c \<Longrightarrow> d \<or> s \<noteq> [] \<Longrightarrow>
   int_body d n s = Some (foldl (\<lambda>n c. 10 * n + digit_val c) n s)"
  by (induction s arbitrary: d n) auto

lemma is_digit_not_space: "is_digit c \<Longrightarrow> \<not> py_isspace c"
  by (auto simp: is_digit_def py_isspace_def Let_def)

lemma py_strip_id:
  assumes "s \<noteq> []" "\<not> py_isspace (hd s)" "\<not> py_isspace (last s)"
  shows "py_strip s = s"
proof -
  from assms(1,2) have "dropWhile py_isspace s = s" by (cases s) auto
  moreover from assms(1,3) have "dropWhile py_isspace (rev s) = rev s"
    by (cases s rule: rev_cases) auto
  ultimately show ?thesis by (simp add: py_strip_def lstrip_by_def rstrip_by_def)
qed

lemma py_int_digits:
  assumes "s \<noteq> []" "\<forall>c \<in> set s. is_digit c"
  shows "py_int s = Some (int (nat_of_digits s))"
proof -
  from assms have strip: "py_strip s = s"
    by (intro py_strip_id) (auto simp: is_digit_not_space)
  from assms obtain c t where s: "s = c # t" by (cases s) auto
  with assms have "is_digit c" by simp
  then have "c \<noteq> CHR ''-''" "c \<noteq> CHR ''+''" by (auto simp: is_digit_def)
  with assms strip s int_body_digits [of s False 0] show ?thesis
    by (simp add: py_int_def nat_of_digits_def)
qed

lemma py_int_str_int: "py_int (str_int i) = Some i"
proof (cases "i < 0")
  case True
  have strip: "py_strip (CHR ''-'' # str_nat n) = CHR ''-'' # str_nat n" for n
    using str_nat_digits [of n] is_digit_not_space
    by (intro py_strip_id) (auto simp: py_isspace_def)
  from True strip int_body_digits [of "str_nat (nat (- i))" False 0]
  show ?thesis
    using nat_of_digits_str_nat [of "nat (- i)", unfolded nat_of_digits_def]
    by (simp add: py_int_def str_int_def str_nat_digits)
next
  case False
  then show ?thesis by (simp add: str_int_def py_int_digits str_nat_digits)
qed

text \<open>Hexadecimal text of bytes: \<open>raw.hex()\<close> and its upper case.\<close>

definition hex_digit :: "nat \<Rightarrow> char" where
  "hex_digit d = (if d < 10 then char_of (48 + d) else char_of (87 + d))"

definition hex_byte :: "8 word \<Rightarrow> string" where
  "hex_byte b = [hex_digit (unat b div 16), hex_digit (unat b mod 16)]"

definition py_hex :: "bytes \<Rightarrow> string" where
  "py_hex bs = concat (map hex_byte bs)"

definition py_HEX :: "bytes \<Rightarrow> string" where
  "py_HEX bs = ascii_upper (py_hex bs)"

text \<open>\<open>repr\<close> of a text without quotes, back slashes and unprintable characters.\<close>

definition py_quote :: "string \<Rightarrow> string" where
  "py_quote s = CHR 0x27 # s @ [CHR 0x27]"

section \<open>First maximum: \<open>max(xs, key=k, default=None)\<close>\<close>

fun max_by :: "('a \<Rightarrow> 'k :: linorder) \<Rightarrow> 'a list \<Rightarrow> 'a option" where
  "max_by k [] = None"
| "max_by k (x # xs) =
     (case max_by k xs of None \<Rightarrow> Some x | Some y \<Rightarrow> if k x < k y then Some y else Some x)"

lemma max_by_None [simp]: "max_by k xs = None \<longleftrightarrow> xs = []"
  by (cases xs) (auto split: option.splits)

lemma max_by_Some: "max_by k xs = Some m \<Longrightarrow> m \<in> set xs \<and> (\<forall>x \<in> set xs. k x \<le> k m)"
proof (induction xs arbitrary: m)
  case Nil
  then show ?case by simp
next
  case (Cons x xs)
  show ?case
  proof (cases "max_by k xs")
    case None
    with Cons.prems show ?thesis by simp
  next
    case (Some y)
    with Cons.IH have y: "y \<in> set xs" "\<forall>z \<in> set xs. k z \<le> k y" by auto
    with Cons.prems Some show ?thesis by (auto split: if_splits)
  qed
qed

end
