(* ===== verification/Ldm_Errors.thy ===== *)
theory Ldm_Errors
  imports Py_Text
begin

text \<open>
  The exceptions of the migration job (\<open>migration/job/ldm/errors.py\<close>) with their exit codes.
  \<open>PyError\<close> stands for every exception that is not an \<open>LdmError\<close>; its text names the
  Python class. The message of a configuration error is its fixed text, without the values
  the f-string interpolates; messages that become data (rejects, audit rows) are exact.
\<close>

type_synonym counts = "(string \<times> int) list"

datatype ldm_error =
    LdmError string
  | ConfigError string
  | ForeignRunError string
  | UnloadError string
  | ReconcileError string "(string \<times> counts) list"
  | PurgeGuardError string
  | SourceError "int option" "string option" string "bool option"
  | TargetError "string option" "int option" string
  | PyError string

definition EXIT_OK :: int where "EXIT_OK = 0"
definition EXIT_UNEXPECTED :: int where "EXIT_UNEXPECTED = 1"
definition EXIT_RECONCILE :: int where "EXIT_RECONCILE = 2"
definition EXIT_PURGE_GUARD :: int where "EXIT_PURGE_GUARD = 3"
definition EXIT_CONFIG :: int where "EXIT_CONFIG = 4"

fun exit_code :: "ldm_error \<Rightarrow> int" where
  "exit_code (ConfigError _) = EXIT_CONFIG"
| "exit_code (ForeignRunError _) = EXIT_CONFIG"
| "exit_code (ReconcileError _ _) = EXIT_RECONCILE"
| "exit_code (PurgeGuardError _) = EXIT_PURGE_GUARD"
| "exit_code _ = EXIT_UNEXPECTED"

fun is_ldm_error :: "ldm_error \<Rightarrow> bool" where
  "is_ldm_error (PyError _) = False"
| "is_ldm_error _ = True"

fun is_config_error :: "ldm_error \<Rightarrow> bool" where
  "is_config_error (ConfigError _) = True"
| "is_config_error (ForeignRunError _) = True"
| "is_config_error _ = False"

fun error_tables :: "ldm_error \<Rightarrow> (string \<times> counts) list" where
  "error_tables (ReconcileError _ t) = t"
| "error_tables _ = []"

text \<open>\<open>str(e)\<close>.\<close>

definition int_or :: "string \<Rightarrow> int option \<Rightarrow> string" where
  "int_or d x = (case x of None \<Rightarrow> d | Some i \<Rightarrow> str_int i)"

definition text_or :: "string \<Rightarrow> string option \<Rightarrow> string" where
  "text_or d x = (case x of None \<Rightarrow> d | Some s \<Rightarrow> if s = [] then d else s)"

fun error_text :: "ldm_error \<Rightarrow> string" where
  "error_text (SourceError c s t _) =
     ''SQLCODE='' @ int_or ''?'' c @ '' SQLSTATE='' @ text_or ''?????'' s @ '': '' @ t"
| "error_text (TargetError s n t) =
     ''SQLSTATE='' @ text_or ''?????'' s @ '' native='' @ int_or ''None'' n @ '': '' @ t"
| "error_text (LdmError t) = t"
| "error_text (ConfigError t) = t"
| "error_text (ForeignRunError t) = t"
| "error_text (UnloadError t) = t"
| "error_text (ReconcileError t _) = t"
| "error_text (PurgeGuardError t) = t"
| "error_text (PyError t) = t"

lemma exit_code_range: "exit_code e \<in> {1, 2, 3, 4}"
  by (cases e) (simp_all add: EXIT_CONFIG_def EXIT_RECONCILE_def EXIT_PURGE_GUARD_def EXIT_UNEXPECTED_def)

lemma config_error_exit: "is_config_error e \<Longrightarrow> exit_code e = EXIT_CONFIG"
  by (cases e) simp_all

end
