(* ===== verification/Py_Regex.thy ===== *)
theory Py_Regex
  imports Py_Text
begin

text \<open>
  Python's \<open>re.match\<close> for the constructs the code's patterns use: character classes,
  sequence, alternative, greedy and lazy repetition, named or numbered groups and \<open>$\<close>.
  \<open>rm r s\<close> lists the matches of \<open>r\<close> at the start of \<open>s\<close> in the order the backtracking
  matcher tries them, each with its captures (the latest first) and the rest of the text;
  \<open>re_match\<close> takes the first.
\<close>

datatype re =
    Eps
  | Cls "char \<Rightarrow> bool"
  | Seq re re
  | Alt re re
  | Star re
  | LazyStar re
  | Grp string re
  | EndZ

type_synonym captures = "(string \<times> string) list"

function rm :: "re \<Rightarrow> string \<Rightarrow> (captures \<times> string) list" where
  "rm Eps s = [([], s)]"
| "rm (Cls p) s = (case s of [] \<Rightarrow> [] | c # t \<Rightarrow> if p c then [([], t)] else [])"
| "rm (Seq a b) s = concat (map (\<lambda>(c, t). map (\<lambda>(d, u). (d @ c, u)) (rm b t)) (rm a s))"
| "rm (Alt a b) s = rm a s @ rm b s"
| "rm (Star a) s =
     concat (map (\<lambda>(c, t). if length t < length s
                   then map (\<lambda>(d, u). (d @ c, u)) (rm (Star a) t) else []) (rm a s)) @ [([], s)]"
| "rm (LazyStar a) s =
     ([], s) # concat (map (\<lambda>(c, t). if length t < length s
                   then map (\<lambda>(d, u). (d @ c, u)) (rm (LazyStar a) t) else []) (rm a s))"
| "rm (Grp n a) s = map (\<lambda>(c, t). ((n, take (length s - length t) s) # c, t)) (rm a s)"
| "rm EndZ s = (if s = [] \<or> s = [CHR 0x0A] then [([], s)] else [])"
  by pat_completeness auto
termination
  by (relation "measures [\<lambda>(r, s). size r, \<lambda>(r, s). length s]") auto

text \<open>The equations of the repetitions unfold without end under the simplifier.\<close>

declare rm.simps(5,6) [simp del]

definition re_match :: "re \<Rightarrow> string \<Rightarrow> captures option" where
  "re_match r s = (case rm r s of [] \<Rightarrow> None | (c, _) # _ \<Rightarrow> Some c)"

definition group :: "captures \<Rightarrow> string \<Rightarrow> string option" where
  "group c n = map_of c n"

definition Plus :: "re \<Rightarrow> re" where
  "Plus r = Seq r (Star r)"

definition LazyPlus :: "re \<Rightarrow> re" where
  "LazyPlus r = Seq r (LazyStar r)"

definition Opt :: "re \<Rightarrow> re" where
  "Opt r = Alt r Eps"

fun Rep :: "nat \<Rightarrow> re \<Rightarrow> re" where
  "Rep 0 r = Eps"
| "Rep (Suc n) r = Seq r (Rep n r)"

fun RepUpTo :: "nat \<Rightarrow> re \<Rightarrow> re" where
  "RepUpTo 0 r = Eps"
| "RepUpTo (Suc n) r = Opt (Seq r (RepUpTo n r))"

fun Lit :: "string \<Rightarrow> re" where
  "Lit [] = Eps"
| "Lit (c # s) = Seq (Cls (\<lambda>x. x = c)) (Lit s)"

text \<open>A literal under \<open>re.IGNORECASE\<close>.\<close>

fun LitI :: "string \<Rightarrow> re" where
  "LitI [] = Eps"
| "LitI (c # s) = Seq (Cls (\<lambda>x. upper_char x = upper_char c)) (LitI s)"

fun Alts :: "re list \<Rightarrow> re" where
  "Alts [] = Cls (\<lambda>_. False)"
| "Alts [r] = r"
| "Alts (r # r' # rs) = Alt r (Alts (r' # rs))"

fun Seqs :: "re list \<Rightarrow> re" where
  "Seqs [] = Eps"
| "Seqs [r] = r"
| "Seqs (r # r' # rs) = Seq r (Seqs (r' # rs))"

definition Digit :: re where
  "Digit = Cls is_digit"

definition Space :: re where
  "Space = Cls py_isspace"

definition is_upper :: "char \<Rightarrow> bool" where
  "is_upper c \<longleftrightarrow> (let n = of_char c :: nat in 65 \<le> n \<and> n \<le> 90)"

definition is_lower :: "char \<Rightarrow> bool" where
  "is_lower c \<longleftrightarrow> (let n = of_char c :: nat in 97 \<le> n \<and> n \<le> 122)"

section \<open>What the matcher consumes\<close>

text \<open>Every match splits the text: what is left is a suffix.\<close>

lemma rm_suffix: "(c, t) \<in> set (rm r s) \<Longrightarrow> \<exists>u. s = u @ t"
proof (induction r s arbitrary: c t rule: rm.induct)
  case (3 a b s)
  then obtain c1 t1 d where 1: "(c1, t1) \<in> set (rm a s)" and 2: "(d, t) \<in> set (rm b t1)"
    by auto
  from "3.IH"(1) [OF 1] obtain u1 where u1: "s = u1 @ t1" by blast
  from "3.IH"(2) [OF 1 refl 2] obtain u2 where "t1 = u2 @ t" by blast
  with u1 have "s = (u1 @ u2) @ t" by simp
  then show ?case by blast
next
  case (5 a s)
  show ?case
  proof (cases "(c, t) = ([], s)")
    case True
    then show ?thesis by simp
  next
    case False
    with "5.prems" obtain c1 t1 d where 1: "(c1, t1) \<in> set (rm a s)"
      and l: "length t1 < length s" and 2: "(d, t) \<in> set (rm (Star a) t1)"
      by (auto simp: rm.simps(5) [of a s] split: if_splits)
    from "5.IH"(1) [OF 1] obtain u1 where u1: "s = u1 @ t1" by blast
    from "5.IH"(2) [OF 1 refl l 2] obtain u2 where "t1 = u2 @ t" by blast
    with u1 have "s = (u1 @ u2) @ t" by simp
    then show ?thesis by blast
  qed
next
  case (6 a s)
  show ?case
  proof (cases "(c, t) = ([], s)")
    case True
    then show ?thesis by simp
  next
    case False
    with "6.prems" obtain c1 t1 d where 1: "(c1, t1) \<in> set (rm a s)"
      and l: "length t1 < length s" and 2: "(d, t) \<in> set (rm (LazyStar a) t1)"
      by (auto simp: rm.simps(6) [of a s] split: if_splits)
    from "6.IH"(1) [OF 1] obtain u1 where u1: "s = u1 @ t1" by blast
    from "6.IH"(2) [OF 1 refl l 2] obtain u2 where "t1 = u2 @ t" by blast
    with u1 have "s = (u1 @ u2) @ t" by simp
    then show ?thesis by blast
  qed
qed (auto split: list.splits if_splits)

lemma rm_Rep_Cls:
  "rm (Rep n (Cls p)) s =
     (if n \<le> length s \<and> (\<forall>c \<in> set (take n s). p c) then [([], drop n s)] else [])"
  by (induction n arbitrary: s) (auto split: list.splits)

lemma rm_Grp_Rep_Cls:
  "rm (Grp g (Rep n (Cls p))) s =
     (if n \<le> length s \<and> (\<forall>c \<in> set (take n s). p c) then [([(g, take n s)], drop n s)] else [])"
  by (auto simp: rm_Rep_Cls)

lemma rm_Lit:
  "rm (Lit w) s = (if take (length w) s = w then [([], drop (length w) s)] else [])"
  by (induction w arbitrary: s) (auto split: list.splits)

end
