(* ===== verification/Ldm_Config.thy ===== *)
theory Ldm_Config
  imports Ldm_Errors Py_Regex
begin

text \<open>
  Manifest and overlay (\<open>migration/job/ldm/config.py\<close>): the configuration records the stages
  read, the deep merge of overlay over base, and the checks of \<open>load_manifest\<close>. YAML reading
  and the pydantic validation are parameters; what they deliver is checked as the code does.
\<close>

section \<open>Tokens\<close>

definition lower_alnum :: "char \<Rightarrow> bool" where
  "lower_alnum c \<longleftrightarrow> is_lower c \<or> is_digit c"

text \<open>\<open>^[a-z][a-z0-9]{1,11}-(before|after)$\<close> and \<open>^[a-z0-9][a-z0-9-]{2,62}$\<close>\<close>

definition TOKEN_RE :: re where
  "TOKEN_RE = Seqs [Cls is_lower, Cls lower_alnum, RepUpTo 10 (Cls lower_alnum), Lit ''-'',
                    Grp ''1'' (Alt (Lit ''before'') (Lit ''after'')), EndZ]"

definition RUN_ID_RE :: re where
  "RUN_ID_RE = Seqs [Cls lower_alnum, Rep 2 (Cls (\<lambda>c. lower_alnum c \<or> c = CHR ''-'')),
                     RepUpTo 60 (Cls (\<lambda>c. lower_alnum c \<or> c = CHR ''-'')), EndZ]"

text \<open>\<open>s.rsplit("-", 1)\<close> on a text that has a dash.\<close>

definition rsplit_dash :: "string \<Rightarrow> string \<times> string" where
  "rsplit_dash s = (rev (drop 1 (dropWhile (\<lambda>c. c \<noteq> CHR ''-'') (rev s))),
                    rev (takeWhile (\<lambda>c. c \<noteq> CHR ''-'') (rev s)))"

definition validate_token :: "string \<Rightarrow> ldm_error + (string \<times> string)" where
  "validate_token token =
     (if re_match TOKEN_RE token = None then Inl (ConfigError ''namespace token does not match'')
      else Inr (rsplit_dash token))"

definition validate_run_id :: "string \<Rightarrow> ldm_error + string" where
  "validate_run_id run_id =
     (if re_match RUN_ID_RE run_id = None then Inl (ConfigError ''run id does not match'')
      else Inr run_id)"

section \<open>Records of the merged manifest\<close>

record type_override =
  ov_target_type :: "string option"
  ov_trim :: "string option"
  ov_encoding :: "string option"
  ov_format :: "string option"
  ov_value_map :: "(string \<times> string) list option"

definition no_override :: type_override where
  "no_override = \<lparr>ov_target_type = None, ov_trim = None, ov_encoding = None, ov_format = None,
                  ov_value_map = None\<rparr>"

record parent_ref =
  pr_table :: string
  pr_columns :: "string list"
  pr_references :: "string list"

record selection =
  sel_all :: "bool option"
  sel_retention_classes :: "string option"
  sel_class_column :: "string option"
  sel_last_access_column :: "string option"
  sel_last_access_before :: "string option"
  sel_parent :: "parent_ref option"

definition sel_is_all :: "selection \<Rightarrow> bool" where
  "sel_is_all s \<longleftrightarrow> sel_all s = Some True"

text \<open>Truth of an optional text: present and not empty.\<close>

definition truthy :: "'a list option \<Rightarrow> bool" where
  "truthy x \<longleftrightarrow> (case x of None \<Rightarrow> False | Some s \<Rightarrow> s \<noteq> [])"

definition selection_check :: "selection \<Rightarrow> ldm_error + unit" where
  "selection_check s =
     (if sel_is_all s then Inr ()
      else guardE (truthy (sel_retention_classes s) \<and> truthy (sel_class_column s) \<and>
                   truthy (sel_last_access_column s) \<and> truthy (sel_last_access_before s))
             (ConfigError ''selection must be all or the four predicate fields''))"

record class_resolution =
  cr_lookup_table :: string
  cr_lookup_key :: string
  cr_successor_column :: string

record class_totals =
  ct_class_column :: string
  ct_sum_columns :: "string list"
  ct_resolution :: "class_resolution option"

datatype role = DataTable | ReferenceTable

record table_config =
  tc_name :: string
  tc_schema :: string
  tc_role :: role
  tc_order :: int
  tc_copybook :: string
  tc_record_length :: nat
  tc_field_map :: "(string \<times> string) list"
  tc_key_columns :: "string list"
  tc_hash_columns :: "string list"
  tc_selection :: selection
  tc_class_totals :: "class_totals option"
  tc_type_overrides :: "(string \<times> type_override) list"

definition tc_columns :: "table_config \<Rightarrow> string list" where
  "tc_columns t = map snd (tc_field_map t)"

definition tc_qualified_name :: "table_config \<Rightarrow> string" where
  "tc_qualified_name t = tc_schema t @ ''.'' @ tc_name t"

record batch_config =
  extract_range_rows :: nat
  load_batch_rows :: nat
  validate_batch_rows :: nat
  purge_batch_rows :: nat
  purge_retry_attempts :: nat

text \<open>\<open>Field(gt=0)\<close> on the four batch sizes.\<close>

definition batch_valid :: "batch_config \<Rightarrow> bool" where
  "batch_valid b \<longleftrightarrow> 0 < extract_range_rows b \<and> 0 < load_batch_rows b \<and>
     0 < validate_batch_rows b \<and> 0 < purge_batch_rows b"

datatype provider = PostgreSQL | AzureSQL

datatype load_engine = SerialEngine | SparkEngine

record target_env =
  te_host :: "string option"
  te_port :: "string option"
  te_server :: "string option"
  te_auth_mode :: "string option"
  te_managed_identity :: "string option"

definition target_check :: "provider \<Rightarrow> target_env \<Rightarrow> ldm_error + unit" where
  "target_check p ce =
     (if p = PostgreSQL \<and> \<not> (truthy (te_host ce) \<and> truthy (te_port ce))
        then Inl (ConfigError ''target.provider postgresql requires connection_env.host and connection_env.port'')
      else if p = AzureSQL \<and> \<not> (truthy (te_server ce) \<and> truthy (te_auth_mode ce) \<and> truthy (te_managed_identity ce))
        then Inl (ConfigError ''target.provider azuresql requires connection_env.server, auth_mode and managed_identity_client_id'')
      else Inr ())"

record manifest =
  m_schema_version :: int
  m_run_token :: string
  m_text_encoding :: string
  m_unload_command :: "string list"
  m_blob_prefix :: string
  m_provider :: provider
  m_target_env :: target_env
  m_batch :: batch_config
  m_selection_sets :: "(string \<times> string list) list"
  m_tables :: "table_config list"
  m_namespace :: string
  m_migrate :: bool
  m_azure :: bool
  m_purge :: bool
  m_run_job_in_azure :: bool
  m_load_engine :: load_engine
  m_records_per_slice :: nat

definition m_tables_in_order :: "manifest \<Rightarrow> table_config list" where
  "m_tables_in_order m = sort_key tc_order (m_tables m)"

definition m_table :: "manifest \<Rightarrow> string \<Rightarrow> ldm_error + table_config" where
  "m_table m n = (case find (\<lambda>t. tc_name t = n) (m_tables m) of
       Some t \<Rightarrow> Inr t | None \<Rightarrow> Inl (ConfigError ''unknown table''))"

definition m_data_tables :: "manifest \<Rightarrow> table_config list" where
  "m_data_tables m = filter (\<lambda>t. tc_role t = DataTable) (m_tables_in_order m)"

section \<open>Deep merge\<close>

datatype yaml = YNull | YBool bool | YInt int | YStr string | YList "yaml list" | YMap "(string \<times> yaml) list"

text \<open>\<open>out[k] = v\<close> on a dict: replace in place or append.\<close>

fun dict_set :: "'k \<Rightarrow> 'v \<Rightarrow> ('k \<times> 'v) list \<Rightarrow> ('k \<times> 'v) list" where
  "dict_set k v [] = [(k, v)]"
| "dict_set k v ((k', v') # d) = (if k = k' then (k, v) # d else (k', v') # dict_set k v d)"

function deep_merge :: "(string \<times> yaml) list \<Rightarrow> (string \<times> yaml) list \<Rightarrow> (string \<times> yaml) list" where
  "deep_merge base [] = base"
| "deep_merge base ((k, v) # overlay) =
     deep_merge
       (case (v, map_of base k) of
          (YMap o', Some (YMap b')) \<Rightarrow> dict_set k (YMap (deep_merge b' o')) base
        | _ \<Rightarrow> dict_set k v base)
       overlay"
  by pat_completeness auto
termination
  by (relation "measure (\<lambda>(b, ov). size_list (size_prod (\<lambda>_. 0) size) ov)") auto

section \<open>Checks on the merged manifest\<close>

definition check_column_references :: "table_config \<Rightarrow> ldm_error + unit" where
  "check_column_references t =
     (let cols = tc_columns t; sel = tc_selection t;
          opt = (\<lambda>x. case x of None \<Rightarrow> [] | Some c \<Rightarrow> if c = [] then [] else [c]);
          sel_cols = opt (sel_class_column sel) @ opt (sel_last_access_column sel) @
            (case sel_parent sel of None \<Rightarrow> [] | Some p \<Rightarrow> pr_columns p);
          ct_cols = (case tc_class_totals t of None \<Rightarrow> [] | Some ct \<Rightarrow> ct_class_column ct # ct_sum_columns ct);
          referenced = tc_key_columns t @ tc_hash_columns t @ map fst (tc_type_overrides t) @ sel_cols @ ct_cols
      in bindE (selection_check sel) (\<lambda>_.
         bindE (guardE (list_all (\<lambda>c. c \<in> set cols) referenced)
                  (ConfigError ''table names a column which is not a value of field_map'')) (\<lambda>_.
         guardE (distinct (tc_key_columns t) \<and> tc_key_columns t \<noteq> [])
           (ConfigError ''key_columns must be a non-empty list of distinct columns''))))"

definition check_table :: "manifest \<Rightarrow> table_config \<Rightarrow> ldm_error + unit" where
  "check_table m t =
     (let names = map tc_name (m_tables m); sel = tc_selection t in
      bindE (check_column_references t) (\<lambda>_.
      bindE (guardE (sel_is_all sel \<or>
                (case sel_retention_classes sel of None \<Rightarrow> False
                 | Some r \<Rightarrow> r \<in> fst ` set (m_selection_sets m)))
              (ConfigError ''selection.retention_classes is not a selection_sets entry'')) (\<lambda>_.
      bindE (guardE (case sel_parent sel of None \<Rightarrow> True | Some p \<Rightarrow> pr_table p \<in> set names)
              (ConfigError ''selection.parent.table is unknown'')) (\<lambda>_.
      guardE (case tc_class_totals t of None \<Rightarrow> True
              | Some ct \<Rightarrow> (case ct_resolution ct of None \<Rightarrow> True | Some r \<Rightarrow> cr_lookup_table r \<in> set names))
        (ConfigError ''class_totals lookup_table is unknown'')))))"

definition check_manifest :: "string \<Rightarrow> manifest \<Rightarrow> ldm_error + unit" where
  "check_manifest run m =
     bindE (guardE (m_run_token m = run) (ConfigError ''run_token != RUN part of namespace'')) (\<lambda>_.
     bindE (guardE (m_migrate m) (ConfigError ''overlay has migrate: false'')) (\<lambda>_.
     bindE (guardE (m_provider m = AzureSQL \<longrightarrow> m_azure m)
              (ConfigError ''target.provider azuresql requires azure: true'')) (\<lambda>_.
     bindE (guardE (m_run_job_in_azure m \<longrightarrow> m_azure m)
              (ConfigError ''execution.run_job_in_azure requires azure: true'')) (\<lambda>_.
     bindE (target_check (m_provider m) (m_target_env m)) (\<lambda>_.
     bindE (guardE (distinct (map tc_order (m_tables m)))
              (ConfigError ''tables[].order values must be unique'')) (\<lambda>_.
     bindE (guardE (distinct (map tc_name (m_tables m)))
              (ConfigError ''tables[].name values must be unique'')) (\<lambda>_.
     foldE (\<lambda>t _. check_table m t) (m_tables m) ())))))))"

definition OVERLAY_ONLY_KEYS :: "string list" where
  "OVERLAY_ONLY_KEYS = [''purge'', ''migrate'', ''azure'', ''execution'']"

definition BASE_TOP_LEVEL_KEYS :: "string list" where
  "BASE_TOP_LEVEL_KEYS = [''schema_version'', ''run_token'', ''source'', ''target'', ''staging'', ''batch'',
                          ''selection_sets'', ''report'', ''tables'']"

definition OVERLAY_TOP_LEVEL_KEYS :: "string list" where
  "OVERLAY_TOP_LEVEL_KEYS = [''namespace'', ''extends'', ''migrate'', ''azure'', ''purge'', ''execution'',
                             ''batch'', ''run_token'', ''source'', ''target'', ''staging'']"

text \<open>
  \<open>load_manifest\<close>: \<open>base\<close> and \<open>overlay\<close> are the YAML maps of the two files (None: the overlay
  file does not exist), \<open>extends_base\<close> whether a relative path resolves to the base manifest,
  and \<open>validate\<close> the pydantic validation of the merged map.
\<close>

definition load_manifest ::
  "(string \<times> yaml) list \<Rightarrow> (string \<times> yaml) list option \<Rightarrow> (yaml \<Rightarrow> bool) \<Rightarrow>
   ((string \<times> yaml) list \<Rightarrow> manifest option) \<Rightarrow> string \<Rightarrow> ldm_error + manifest" where
  "load_manifest base overlay extends_base validate namespace =
     bindE (validate_token namespace) (\<lambda>(run, _).
     bindE (guardE (\<not> list_ex (\<lambda>k. k \<in> set OVERLAY_ONLY_KEYS) (map fst base))
              (ConfigError ''base manifest contains overlay-only key(s)'')) (\<lambda>_.
     bindE (guardE (list_all (\<lambda>k. k \<in> set BASE_TOP_LEVEL_KEYS) (map fst base))
              (ConfigError ''base manifest has unknown top-level key(s)'')) (\<lambda>_.
     case overlay of None \<Rightarrow> Inl (ConfigError ''overlay missing'') | Some ov \<Rightarrow>
     bindE (guardE (list_all (\<lambda>k. k \<in> set OVERLAY_TOP_LEVEL_KEYS) (map fst ov))
              (ConfigError ''overlay has unknown top-level key(s)'')) (\<lambda>_.
     bindE (guardE (list_all (\<lambda>k. map_of ov k \<noteq> None)
                [''namespace'', ''extends'', ''migrate'', ''azure'', ''purge''])
              (ConfigError ''overlay is missing a required key'')) (\<lambda>_.
     bindE (guardE (map_of ov ''namespace'' = Some (YStr namespace))
              (ConfigError ''overlay.namespace != --namespace'')) (\<lambda>_.
     bindE (guardE (case map_of ov ''extends'' of None \<Rightarrow> False | Some e \<Rightarrow> extends_base e)
              (ConfigError ''overlay.extends does not resolve to the base manifest'')) (\<lambda>_.
     case validate (deep_merge base ov) of None \<Rightarrow> Inl (ConfigError ''manifest invalid'') | Some m \<Rightarrow>
     bindE (check_manifest run m) (\<lambda>_. Inr m))))))))"

section \<open>Facts\<close>

lemma map_of_dict_set [simp]: "map_of (dict_set k v d) k' = (if k' = k then Some v else map_of d k')"
  by (induction d) auto

lemma dict_set_keys: "fst ` set (dict_set k v d) = insert k (fst ` set d)"
proof (induction d)
  case (Cons p d)
  then show ?case by (cases p) (simp add: insert_commute insert_absorb2)
qed simp

lemma deep_merge_keys: "fst ` set (deep_merge base ov) = fst ` set base \<union> fst ` set ov"
proof (induction ov arbitrary: base)
  case Nil
  then show ?case by simp
next
  case (Cons p ov)
  obtain k v where p: "p = (k, v)" by (cases p)
  show ?case unfolding p deep_merge.simps Cons.IH
    by (auto simp: dict_set_keys split: yaml.splits option.splits)
qed

lemma deep_merge_other: "k \<notin> fst ` set ov \<Longrightarrow> map_of (deep_merge base ov) k = map_of base k"
proof (induction ov arbitrary: base)
  case Nil
  then show ?case by simp
next
  case (Cons p ov)
  obtain k' v where p: "p = (k', v)" by (cases p)
  from Cons.prems p have "k \<noteq> k'" "k \<notin> fst ` set ov" by auto
  with Cons.IH show ?case unfolding p deep_merge.simps
    by (auto split: yaml.splits option.splits)
qed

lemma check_table_columns:
  assumes "check_table m t = Inr u"
  shows "set (tc_key_columns t) \<union> set (tc_hash_columns t) \<subseteq> set (tc_columns t)"
  using assms by (auto simp: check_table_def check_column_references_def Let_def list_all_iff)

lemma foldE_unit_all: "foldE (\<lambda>t _. f t) ts v = Inr u \<Longrightarrow> t \<in> set ts \<Longrightarrow> \<exists>w. f t = Inr w"
  by (induction ts arbitrary: v) auto

end
