(* ===== verification/Ldm_Copybook.thy ===== *)
theory Ldm_Copybook
  imports Ldm_Errors Py_Regex
begin

text \<open>
  The COBOL copybook parser (\<open>migration/job/ldm/copybook.py\<close>): elementary PIC items become
  byte slices of a fixed-width record. Main fact: the slices of a parsed copybook tile the
  record, in order and without gaps.
\<close>

datatype usage = Display | Comp | Comp3

record cb_field =
  f_name :: string
  f_pic :: string
  f_usage :: usage
  f_offset :: nat
  f_length :: nat
  f_is_numeric :: bool
  f_signed :: bool
  f_digits :: nat
  f_scale :: nat

definition f_filler :: "cb_field \<Rightarrow> bool" where
  "f_filler f \<longleftrightarrow> ascii_upper (f_name f) = ''FILLER''"

definition f_pic_key :: "cb_field \<Rightarrow> string" where
  "f_pic_key f = f_pic f @ (case f_usage f of Display \<Rightarrow> [] | Comp \<Rightarrow> '' COMP'' | Comp3 \<Rightarrow> '' COMP-3'')"

definition f_slice :: "cb_field \<Rightarrow> bytes \<Rightarrow> bytes" where
  "f_slice f rec = take (f_length f) (drop (f_offset f) rec)"

record copybook =
  cb_name :: string
  cb_fields :: "cb_field list"
  cb_record_length :: nat

definition cb_field_named :: "copybook \<Rightarrow> string \<Rightarrow> ldm_error + cb_field" where
  "cb_field_named cb n = (case find (\<lambda>f. f_name f = n) (cb_fields cb) of
       Some f \<Rightarrow> Inr f
     | None \<Rightarrow> Inl (ConfigError ''copybook: no field named''))"

section \<open>The patterns\<close>

definition name_char :: "char \<Rightarrow> bool" where
  "name_char c \<longleftrightarrow> is_upper (upper_char c) \<or> is_digit c \<or> c = CHR ''-''"

definition pic_char :: "char \<Rightarrow> bool" where
  "pic_char c \<longleftrightarrow> upper_char c \<in> {CHR ''S'', CHR ''X'', CHR ''9'', CHR ''V'', CHR ''('', CHR '')''} \<or> is_digit c"

definition ITEM_RE :: re where
  "ITEM_RE = Seqs [
     Star Space, Grp ''level'' (Rep 2 Digit), Plus Space, Grp ''name'' (Plus (Cls name_char)),
     Opt (Seqs [Plus Space, LitI ''PIC'', Opt (LitI ''TURE''), Plus Space,
                Opt (Seq (LitI ''IS'') (Plus Space)), Grp ''pic'' (Plus (Cls pic_char))]),
     Opt (Seqs [Plus Space, Opt (Seqs [LitI ''USAGE'', Plus Space, Opt (Seq (LitI ''IS'') (Plus Space))]),
                Grp ''usage'' (Alts [
                  Seqs [LitI ''COMP'', Opt (LitI ''UTATIONAL''),
                        Opt (Seq (Lit ''-'') (Cls (\<lambda>c. c = CHR ''3'' \<or> c = CHR ''5'')))],
                  LitI ''BINARY'', LitI ''PACKED-DECIMAL''])]),
     Star Space, Lit ''.'', Star Space, EndZ]"

definition PIC_X_RE :: re where
  "PIC_X_RE = Seqs [Lit ''X'', Opt (Seqs [Lit ''('', Grp ''1'' (Plus Digit), Lit '')'']), EndZ]"

definition PIC_9_RE :: re where
  "PIC_9_RE = Seqs [
     Opt (Grp ''1'' (Lit ''S'')), Lit ''9'', Opt (Seqs [Lit ''('', Grp ''2'' (Plus Digit), Lit '')'']),
     Opt (Seqs [Lit ''V9'', Opt (Seqs [Lit ''('', Grp ''3'' (Plus Digit), Lit '')''])]), EndZ]"

section \<open>Usage and layout of an item\<close>

definition normalize_usage :: "string option \<Rightarrow> ldm_error + usage" where
  "normalize_usage raw = (case raw of
       None \<Rightarrow> Inr Display
     | Some r \<Rightarrow>
         let u = ascii_upper r in
         if u \<in> {''COMP'', ''COMPUTATIONAL'', ''COMP-5'', ''COMPUTATIONAL-5'', ''BINARY''} then Inr Comp
         else if u \<in> {''COMP-3'', ''COMPUTATIONAL-3'', ''PACKED-DECIMAL''} then Inr Comp3
         else Inl (ConfigError ''unsupported USAGE''))"

text \<open>\<open>int(m.group(g) or 1)\<close>\<close>

definition group_count :: "captures \<Rightarrow> string \<Rightarrow> nat" where
  "group_count m g = (case group m g of None \<Rightarrow> 1 | Some t \<Rightarrow> nat_of_digits t)"

text \<open>The numeric part of \<open>_pic_layout\<close>: length in bytes from digits and usage.\<close>

definition numeric_length :: "usage \<Rightarrow> nat \<Rightarrow> ldm_error + nat" where
  "numeric_length u digits = (case u of
       Comp \<Rightarrow> if digits \<le> 4 then Inr 2 else if digits \<le> 9 then Inr 4 else if digits \<le> 18 then Inr 8
              else Inl (ConfigError ''PIC COMP exceeds 18 digits'')
     | Comp3 \<Rightarrow> Inr ((digits + 2) div 2)
     | Display \<Rightarrow> Inr digits)"

definition pic_layout :: "string \<Rightarrow> usage \<Rightarrow> ldm_error + (nat \<times> bool \<times> bool \<times> nat \<times> nat)" where
  "pic_layout pic u = (case re_match PIC_X_RE pic of
       Some m \<Rightarrow>
         if u \<noteq> Display then Inl (ConfigError ''PIC cannot have this usage'')
         else Inr (group_count m ''1'', False, False, 0, 0)
     | None \<Rightarrow> (case re_match PIC_9_RE pic of
           None \<Rightarrow> Inl (ConfigError ''unsupported PIC clause'')
         | Some m \<Rightarrow>
             let signed = (group m ''1'' \<noteq> None);
                 scale = (if CHR ''V'' \<in> set pic then group_count m ''3'' else 0);
                 digits = group_count m ''2'' + scale
             in bindE (numeric_length u digits) (\<lambda>len. Inr (len, True, signed, digits, scale))))"

section \<open>Lines and statements\<close>

definition source_line :: "string \<Rightarrow> string option" where
  "source_line line =
     (if 7 \<le> length line \<and> line ! 6 \<in> {CHR ''*'', CHR ''/''} then None
      else if py_startswith ''*'' (py_strip line) then None
      else let l = (if 72 < length line \<and> py_isdigit (py_strip (take 6 line))
                    then take (72 - 6) (drop 6 line) else line)
           in if py_strip l = [] then None else Some l)"

definition iter_source_lines :: "string \<Rightarrow> string list" where
  "iter_source_lines text = List.map_filter source_line (py_splitlines text)"

text \<open>\<open>needle in text\<close>\<close>

fun py_contains :: "string \<Rightarrow> string \<Rightarrow> bool" where
  "py_contains w [] = (w = [])"
| "py_contains w (c # s) = (py_startswith w (c # s) \<or> py_contains w s)"

definition py_endswith :: "string \<Rightarrow> string \<Rightarrow> bool" where
  "py_endswith w s \<longleftrightarrow> length w \<le> length s \<and> drop (length s - length w) s = w"

text \<open>One complete statement: a group item adds nothing, an elementary item adds a field.\<close>

definition parse_stmt :: "string \<Rightarrow> cb_field list \<times> nat \<Rightarrow> ldm_error + (cb_field list \<times> nat)" where
  "parse_stmt stmt st = (case re_match ITEM_RE stmt of
       None \<Rightarrow> Inl (ConfigError ''copybook: cannot parse'')
     | Some m \<Rightarrow>
         let level = (case group m ''level'' of None \<Rightarrow> 0 | Some t \<Rightarrow> nat_of_digits t) in
         (case group m ''pic'' of
            None \<Rightarrow>
              if level \<in> {1, 66, 77, 88} \<or> group m ''usage'' = None then Inr st
              else Inl (ConfigError ''copybook: item has USAGE without PIC'')
          | Some pic \<Rightarrow>
              if py_contains ''OCCURS'' (ascii_upper stmt) then Inl (ConfigError ''copybook: OCCURS is not supported'')
              else bindE (normalize_usage (group m ''usage'')) (\<lambda>u.
                   bindE (pic_layout (ascii_upper pic) u) (\<lambda>(len, num, signed, digits, scale).
                     case st of (fs, off) \<Rightarrow>
                       Inr (fs @ [\<lparr>f_name = (case group m ''name'' of None \<Rightarrow> [] | Some t \<Rightarrow> ascii_upper t),
                                       f_pic = ascii_upper pic, f_usage = u, f_offset = off, f_length = len,
                                       f_is_numeric = num, f_signed = signed, f_digits = digits,
                                       f_scale = scale\<rparr>], off + len)))))"

text \<open>One source line: lines are joined until a statement ends with a period.\<close>

definition parse_line ::
  "string \<Rightarrow> string \<times> cb_field list \<times> nat \<Rightarrow> ldm_error + (string \<times> cb_field list \<times> nat)" where
  "parse_line line st = (case st of (buf, st') \<Rightarrow>
     let b = py_strip (buf @ '' '' @ py_strip line) in
     if \<not> py_endswith ''.'' b then Inr (b, st')
     else bindE (parse_stmt b st') (\<lambda>st''. Inr ([], st'')))"

definition parse_copybook :: "string \<Rightarrow> string option \<Rightarrow> nat option \<Rightarrow> ldm_error + copybook" where
  "parse_copybook name content expected = (case content of
       None \<Rightarrow> Inl (ConfigError ''copybook not found'')
     | Some text \<Rightarrow>
         bindE (foldE parse_line (iter_source_lines text) ([], [], 0)) (\<lambda>(buf, fs, off).
           if buf \<noteq> [] then Inl (ConfigError ''copybook: unterminated statement'')
           else if fs = [] then Inl (ConfigError ''copybook: no elementary items'')
           else if expected \<noteq> None \<and> Some off \<noteq> expected
             then Inl (ConfigError ''copybook: elementary items total differs from record_length'')
           else Inr \<lparr>cb_name = name, cb_fields = fs, cb_record_length = off\<rparr>))"

section \<open>The fields tile the record\<close>

fun tiles :: "nat \<Rightarrow> cb_field list \<Rightarrow> nat \<Rightarrow> bool" where
  "tiles off [] end = (off = end)"
| "tiles off (f # fs) end = (f_offset f = off \<and> tiles (off + f_length f) fs end)"

lemma tiles_append:
  "tiles a (xs @ ys) c \<longleftrightarrow> (\<exists>b. tiles a xs b \<and> tiles b ys c)"
  by (induction xs arbitrary: a) auto

lemma tiles_le: "tiles a fs b \<Longrightarrow> a \<le> b"
proof (induction fs arbitrary: a)
  case Nil
  then show ?case by simp
next
  case (Cons f fs)
  then have "a + f_length f \<le> b" by simp
  then show ?case by simp
qed

lemma tiles_sum: "tiles a fs b \<Longrightarrow> b = a + sum_list (map f_length fs)"
proof (induction fs arbitrary: a)
  case Nil
  then show ?case by simp
next
  case (Cons f fs)
  from Cons.prems have "tiles (a + f_length f) fs b" by simp
  from Cons.IH [OF this] show ?case by simp
qed

lemma tiles_bounds: "tiles a fs b \<Longrightarrow> f \<in> set fs \<Longrightarrow> a \<le> f_offset f \<and> f_offset f + f_length f \<le> b"
proof (induction fs arbitrary: a)
  case Nil
  then show ?case by simp
next
  case (Cons g fs)
  from Cons.prems have t: "f_offset g = a" "tiles (a + f_length g) fs b" by auto
  show ?case
  proof (cases "f = g")
    case True
    with t tiles_le [OF t(2)] show ?thesis by simp
  next
    case False
    with Cons.prems Cons.IH [OF t(2)] show ?thesis by auto
  qed
qed

lemma tiles_concat:
  "tiles a fs b \<Longrightarrow> b \<le> length rec \<Longrightarrow>
   concat (map (\<lambda>f. f_slice f rec) fs) = take (b - a) (drop a rec)"
proof (induction fs arbitrary: a)
  case Nil
  then show ?case by simp
next
  case (Cons f fs)
  then have t: "f_offset f = a" "tiles (a + f_length f) fs b" by auto
  have "a + f_length f \<le> b" using tiles_le [OF t(2)] .
  moreover have "concat (map (\<lambda>f. f_slice f rec) fs) = take (b - (a + f_length f)) (drop (a + f_length f) rec)"
    using Cons.IH [OF t(2) Cons.prems(2)] .
  moreover have "take (b - a) (drop a rec) =
      take (f_length f) (drop a rec) @ take (b - (a + f_length f)) (drop (a + f_length f) rec)"
    if "a + f_length f \<le> b"
  proof -
    from that have "b - a = f_length f + (b - (a + f_length f))" by simp
    then show ?thesis by (metis add.commute drop_drop take_add)
  qed
  ultimately show ?case using t(1) by (simp add: f_slice_def)
qed

lemma parse_stmt_tiles:
  "parse_stmt stmt (fs, off) = Inr (fs', off') \<Longrightarrow> tiles 0 fs off \<Longrightarrow> tiles 0 fs' off'"
  by (auto simp: parse_stmt_def tiles_append Let_def split: option.splits if_splits)

lemma parse_line_tiles:
  "parse_line l (buf, fs, off) = Inr (buf', fs', off') \<Longrightarrow> tiles 0 fs off \<Longrightarrow>
   tiles 0 fs' off'"
  by (auto simp: parse_line_def Let_def split: if_splits intro: parse_stmt_tiles)

lemma parse_copybook_tiles:
  assumes "parse_copybook name content expected = Inr cb"
  shows "tiles 0 (cb_fields cb) (cb_record_length cb)"
proof -
  from assms obtain src buf fs off where
    run: "foldE parse_line (iter_source_lines src) ([], [], 0) = Inr (buf, fs, off)"
    and cb: "cb = \<lparr>cb_name = name, cb_fields = fs, cb_record_length = off\<rparr>"
    by (auto simp: parse_copybook_def split: option.splits if_splits)
  have "(\<lambda>(buf, fs, off). tiles 0 fs off) (buf, fs, off)"
    by (rule foldE_invariant [OF run]) (auto dest: parse_line_tiles)
  with cb show ?thesis by simp
qed

text \<open>The slices of a parsed copybook, concatenated, are the whole record.\<close>

theorem copybook_slices_partition:
  assumes "parse_copybook name content expected = Inr cb" and "length rec = cb_record_length cb"
  shows "concat (map (\<lambda>f. f_slice f rec) (cb_fields cb)) = rec"
  using tiles_concat [OF parse_copybook_tiles [OF assms(1)], of rec] assms(2) by simp

section \<open>Witnesses\<close>

definition example_source_text :: string where
  "example_source_text = ''       01  CUST-REC.'' @ [CHR 0x0A] @ ''           05  CUST-ID  PIC X(4).'' @ [CHR 0x0A] @
     ''           05  CUST-BAL PIC S9(3)V9(2)'' @ [CHR 0x0A] @ ''               USAGE COMP-3.'' @ [CHR 0x0A]"

definition example_copybook :: copybook where
  "example_copybook = \<lparr>cb_name = ''CUST.cpy'', cb_fields = [
     \<lparr>f_name = ''CUST-ID'', f_pic = ''X(4)'', f_usage = Display, f_offset = 0, f_length = 4,
       f_is_numeric = False, f_signed = False, f_digits = 0, f_scale = 0\<rparr>,
     \<lparr>f_name = ''CUST-BAL'', f_pic = ''S9(3)V9(2)'', f_usage = Comp3, f_offset = 4, f_length = 3,
       f_is_numeric = True, f_signed = True, f_digits = 5, f_scale = 2\<rparr>],
     cb_record_length = 7\<rparr>"

lemma parse_example: "parse_copybook ''CUST.cpy'' (Some example_source_text) (Some 7) = Inr example_copybook"
  by code_simp

theorem copybook_slices_partition_witness:
  "concat (map (\<lambda>f. f_slice f [1, 2, 3, 4, 5, 6, 7]) (cb_fields example_copybook)) = [1, 2, 3, 4, 5, 6, 7]"
  by (rule copybook_slices_partition [OF parse_example]) (simp add: example_copybook_def)

end
