(* ===== verification/Ldm_Typemap.thy ===== *)
theory Ldm_Typemap
  imports Ldm_Config Ldm_Copybook
begin

text \<open>
  The type map (\<open>migration/job/ldm/typemap.py\<close>): declared source types inferred from the PIC
  clauses, target types from the rules, manifest overrides, and the column specifications the
  conversion uses. The patterns of the inference rules are regular expressions of the YAML
  file; a rule of the model holds the expression itself.
\<close>

datatype kind = KChar | KInt | KDecimal | KTimestamp12 | KDate8 | KBinary

datatype dialect = ToAzureSQL | ToPostgreSQL

record type_rule =
  tr_source :: string
  tr_target :: string
  tr_kind :: kind

datatype inference = FromTemplate re string | ByDigits re "(nat \<times> string) list"

record typemap =
  tm_rules :: "type_rule list"
  tm_inference :: "inference list"
  tm_target :: dialect

section \<open>Type texts\<close>

record parsed_type =
  pt_base :: string
  pt_args :: "string list"
  pt_bit_data :: bool

definition TYPE_RE :: re where
  "TYPE_RE = Seqs [
     Grp ''base'' (LazyPlus (Cls (\<lambda>c. is_upper c \<or> is_digit c \<or> c = CHR ''_'' \<or> c = CHR '' ''))),
     Opt (Seqs [Lit ''('',
       Grp ''args'' (Plus (Cls (\<lambda>c. is_digit c \<or> is_upper c \<or> is_lower c \<or> c \<in> set ''{}_, ''))), Lit '')'']),
     Opt (Grp ''suffix'' (Lit '' FOR BIT DATA'')), EndZ]"

definition parse_type :: "string \<Rightarrow> ldm_error + parsed_type" where
  "parse_type txt = (case re_match TYPE_RE (ascii_upper (py_strip txt)) of
       None \<Rightarrow> Inl (ConfigError ''cannot parse type'')
     | Some m \<Rightarrow> Inr \<lparr>
         pt_base = py_strip (case group m ''base'' of None \<Rightarrow> [] | Some b \<Rightarrow> b),
         pt_args = map py_strip (filter (\<lambda>a. py_strip a \<noteq> [])
           (split_by (\<lambda>c. c = CHR '','') (case group m ''args'' of None \<Rightarrow> [] | Some a \<Rightarrow> a))),
         pt_bit_data = (group m ''suffix'' \<noteq> None)\<rparr>)"

text \<open>\<open>int(self.args[i]) if len(self.args) > i else 0\<close>; the arguments have no sign.\<close>

definition pt_int :: "nat \<Rightarrow> parsed_type \<Rightarrow> ldm_error + nat" where
  "pt_int i p = (if i < length (pt_args p)
     then (case py_int (pt_args p ! i) of Some n \<Rightarrow> Inr (nat n) | None \<Rightarrow> Inl (PyError ''ValueError''))
     else Inr 0)"

definition pt_precision :: "parsed_type \<Rightarrow> ldm_error + nat" where
  "pt_precision p = pt_int 0 p"

definition pt_scale :: "parsed_type \<Rightarrow> ldm_error + nat" where
  "pt_scale p = pt_int 1 p"

definition pt_length :: "parsed_type \<Rightarrow> ldm_error + nat" where
  "pt_length p = pt_int 0 p"

definition PG_SPELLING :: "(string \<times> string) list" where
  "PG_SPELLING = [
     (''NCHAR'', ''CHAR''), (''NVARCHAR'', ''VARCHAR''), (''DECIMAL'', ''NUMERIC''), (''INT'', ''INTEGER''),
     (''TINYINT'', ''SMALLINT''), (''DATETIME2'', ''TIMESTAMP''), (''VARBINARY'', ''BYTEA''),
     (''BINARY'', ''BYTEA'')]"

definition tm_char_type :: "typemap \<Rightarrow> string" where
  "tm_char_type tm = (if tm_target tm = ToPostgreSQL then ''CHAR'' else ''NCHAR'')"

definition spell_target_type :: "typemap \<Rightarrow> parsed_type \<Rightarrow> string" where
  "spell_target_type tm p =
     (let base = (if tm_target tm = ToPostgreSQL
                  then (case map_of PG_SPELLING (pt_base p) of Some b \<Rightarrow> b | None \<Rightarrow> pt_base p)
                  else pt_base p)
      in if tm_target tm = ToPostgreSQL \<and> base = ''BYTEA'' then base
         else if pt_args p \<noteq> [] then base @ ''('' @ py_join '','' (pt_args p) @ '')'' else base)"

text \<open>
  \<open>template.format(**subs)\<close> for templates whose fields are plain names: a name without a
  value raises \<open>KeyError\<close>, an unbalanced brace \<open>ValueError\<close>.
\<close>

fun format_from :: "string option \<Rightarrow> (string \<times> string) list \<Rightarrow> string \<Rightarrow> ldm_error + string" where
  "format_from (Some acc) subs [] = Inl (PyError ''ValueError'')"
| "format_from (Some acc) subs (c # s) =
     (if c = CHR ''}'' then (case map_of subs (rev acc) of
           None \<Rightarrow> Inl (PyError ''KeyError'')
         | Some v \<Rightarrow> bindE (format_from None subs s) (\<lambda>t. Inr (v @ t)))
      else format_from (Some (c # acc)) subs s)"
| "format_from None subs [] = Inr []"
| "format_from None subs (c # s) =
     (if c = CHR ''{'' then format_from (Some []) subs s
      else if c = CHR ''}'' then Inl (PyError ''ValueError'')
      else bindE (format_from None subs s) (\<lambda>t. Inr (c # t)))"

definition format_named :: "(string \<times> string) list \<Rightarrow> string \<Rightarrow> ldm_error + string" where
  "format_named subs t = format_from None subs t"

section \<open>Inference and mapping\<close>

definition group_digits :: "captures \<Rightarrow> string \<Rightarrow> nat" where
  "group_digits m g = (case group m g of None \<Rightarrow> 0 | Some t \<Rightarrow> nat_of_digits t)"

fun infer_rules :: "inference list \<Rightarrow> string \<Rightarrow> ldm_error + string" where
  "infer_rules [] key = Inl (ConfigError ''type map cannot infer a source type'')"
| "infer_rules (ByDigits re table # rules) key = (case re_match re key of
       None \<Rightarrow> infer_rules rules key
     | Some m \<Rightarrow> (case find (\<lambda>(limit, _). group_digits m ''n'' \<le> limit) (sort_key fst table) of
           Some (_, t) \<Rightarrow> Inr t
         | None \<Rightarrow> Inl (ConfigError ''no source type for these digits'')))"
| "infer_rules (FromTemplate re src # rules) key = (case re_match re key of
       None \<Rightarrow> infer_rules rules key
     | Some m \<Rightarrow>
         let ps = (if group m ''p'' \<noteq> None \<and> group m ''s'' \<noteq> None
                   then [(''ps'', str_nat (group_digits m ''p'' + group_digits m ''s''))] else [])
         in format_named (ps @ m) src)"

definition infer_source_type :: "typemap \<Rightarrow> cb_field \<Rightarrow> ldm_error + string" where
  "infer_source_type tm f = infer_rules (tm_inference tm) (f_pic_key f)"

definition is_hole :: "string \<Rightarrow> bool" where
  "is_hole a \<longleftrightarrow> py_startswith ''{'' a \<and> py_endswith ''}'' a"

text \<open>The arguments of a rule against those of a type: None when a literal differs.\<close>

fun match_args :: "string list \<Rightarrow> string list \<Rightarrow> (string \<times> string) list option" where
  "match_args (p # ps) (a # as) = (case match_args ps as of
       None \<Rightarrow> None
     | Some subs \<Rightarrow> if is_hole p then Some (subs @ [(py_lower (take (length p - 2) (drop 1 p)), a)])
                   else if p = a then Some subs else None)"
| "match_args _ _ = Some []"

fun map_rules :: "type_rule list \<Rightarrow> parsed_type \<Rightarrow> ldm_error + (string \<times> kind)" where
  "map_rules [] p = Inl (ConfigError ''type map has no rule for source type'')"
| "map_rules (r # rs) p = bindE (parse_type (tr_source r)) (\<lambda>pat.
     if pt_base pat \<noteq> pt_base p \<or> pt_bit_data pat \<noteq> pt_bit_data p \<or>
        length (pt_args pat) \<noteq> length (pt_args p) then map_rules rs p
     else (case match_args (pt_args pat) (pt_args p) of
         None \<Rightarrow> map_rules rs p
       | Some subs \<Rightarrow> bindE (format_named subs (tr_target r)) (\<lambda>t. Inr (t, tr_kind r))))"

definition map_source_type :: "typemap \<Rightarrow> string \<Rightarrow> ldm_error + (string \<times> kind)" where
  "map_source_type tm source_type = bindE (parse_type source_type) (map_rules (tm_rules tm))"

section \<open>Loading a type map\<close>

definition kind_of_text :: "string \<Rightarrow> kind option" where
  "kind_of_text k = map_of [(''char'', KChar), (''int'', KInt), (''decimal'', KDecimal),
     (''timestamp12'', KTimestamp12), (''date8'', KDate8), (''binary'', KBinary)] k"

definition dialect_of_text :: "string \<Rightarrow> dialect option" where
  "dialect_of_text t = map_of [(''azuresql'', ToAzureSQL), (''postgresql'', ToPostgreSQL)] t"

text \<open>
  A rule of the YAML list is a map of texts; an inference rule has its compiled \<open>pic\<close>
  pattern, if any, its \<open>source\<close> and its \<open>source_by_digits\<close>.
\<close>

record raw_inference =
  ri_pic :: "re option"
  ri_source :: "string option"
  ri_by_digits :: "(nat \<times> string) list option"

definition load_rule :: "(string \<times> string) list \<Rightarrow> ldm_error + type_rule" where
  "load_rule r = (case (map_of r ''source'', map_of r ''target'', map_of r ''kind'') of
       (Some s, Some t, Some k) \<Rightarrow> (case kind_of_text k of
           Some kd \<Rightarrow> Inr \<lparr>tr_source = s, tr_target = t, tr_kind = kd\<rparr>
         | None \<Rightarrow> Inl (ConfigError ''type map: unknown kind''))
     | _ \<Rightarrow> Inl (ConfigError ''type map: bad rule''))"

definition load_inference :: "raw_inference \<Rightarrow> ldm_error + inference" where
  "load_inference r = (case (ri_pic r, ri_by_digits r, ri_source r) of
       (Some re, Some table, _) \<Rightarrow> Inr (ByDigits re table)
     | (Some re, None, Some src) \<Rightarrow> Inr (FromTemplate re src)
     | _ \<Rightarrow> Inl (ConfigError ''type map: bad copybook_inference rule''))"

definition load_typemap ::
  "((string \<times> string) list) list option \<Rightarrow> raw_inference list \<Rightarrow> string option \<Rightarrow> ldm_error + typemap" where
  "load_typemap types infer target = (case types of
       None \<Rightarrow> Inl (ConfigError ''type map must have a types list'')
     | Some ts \<Rightarrow>
         bindE (mapE load_rule ts) (\<lambda>rules.
         bindE (mapE load_inference infer) (\<lambda>infs.
         case dialect_of_text (case target of None \<Rightarrow> ''azuresql'' | Some t \<Rightarrow> if t = [] then ''azuresql'' else t) of
           None \<Rightarrow> Inl (ConfigError ''type map: unknown target'')
         | Some d \<Rightarrow> Inr \<lparr>tm_rules = rules, tm_inference = infs, tm_target = d\<rparr>)))"

section \<open>Column specifications\<close>

record column_spec =
  cs_name :: string
  cs_field :: cb_field
  cs_source_type :: string
  cs_target_type :: string
  cs_kind :: kind
  cs_is_key :: bool
  cs_encoding :: string
  cs_trim :: bool
  cs_date_format :: "string option"
  cs_value_map :: "(string \<times> string) list"
  cs_target_precision :: nat
  cs_target_scale :: nat
  cs_target_length :: nat

definition target_columns :: "column_spec \<Rightarrow> string list" where
  "target_columns s = (if cs_kind s = KTimestamp12 then [cs_name s, cs_name s @ ''_NANOS_TAIL''] else [cs_name s])"

definition override_kind :: "string \<Rightarrow> kind option" where
  "override_kind base =
     (if base \<in> {''NCHAR'', ''NVARCHAR'', ''CHAR'', ''VARCHAR'', ''CHARACTER'', ''CHARACTER VARYING'', ''TEXT''} then Some KChar
      else if base \<in> {''DECIMAL'', ''NUMERIC''} then Some KDecimal
      else if base \<in> {''SMALLINT'', ''INT'', ''INTEGER'', ''BIGINT'', ''TINYINT''} then Some KInt
      else if base = ''DATE'' then Some KDate8
      else if base \<in> {''DATETIME2'', ''TIMESTAMP''} then Some KTimestamp12
      else if base \<in> {''VARBINARY'', ''BINARY'', ''BYTEA''} then Some KBinary
      else None)"

definition apply_override ::
  "kind \<Rightarrow> string \<Rightarrow> type_override \<Rightarrow> typemap \<Rightarrow> ldm_error + (string \<times> kind)" where
  "apply_override k target ov tm = (case ov_target_type ov of
       None \<Rightarrow> Inr (target, k)
     | Some t \<Rightarrow> bindE (parse_type t) (\<lambda>new. case override_kind (pt_base new) of
           Some k' \<Rightarrow> Inr (spell_target_type tm new, k')
         | None \<Rightarrow> Inl (ConfigError ''unsupported target_type override'')))"

text \<open>The source type of a column and its target before the override: lines 214 to 222.\<close>

definition mapped_type :: "typemap \<Rightarrow> type_override \<Rightarrow> cb_field \<Rightarrow> ldm_error + (string \<times> string \<times> kind)" where
  "mapped_type tm ov f =
     bindE (infer_source_type tm f) (\<lambda>inferred.
     bindE (if truthy (ov_encoding ov)
            then bindE (parse_type inferred) (\<lambda>p.
              Inr (if pt_base p = ''CHAR'' then inferred @ '' FOR BIT DATA'' else inferred))
            else Inr inferred) (\<lambda>src.
     bindE (map_source_type tm src) (\<lambda>(target, k).
     if k = KBinary \<and> truthy (ov_encoding ov)
     then bindE (parse_type src) (\<lambda>p. bindE (pt_length p) (\<lambda>n.
       Inr (src, tm_char_type tm @ ''('' @ str_nat n @ '')'', KChar)))
     else Inr (src, target, k))))"

definition check_format :: "type_override \<Rightarrow> kind \<Rightarrow> cb_field \<Rightarrow> ldm_error + unit" where
  "check_format ov k f =
     (if truthy (ov_format ov)
      then if ov_format ov \<noteq> Some ''YYYYMMDD'' then Inl (ConfigError ''unsupported format'')
           else if k \<noteq> KDate8 then Inl (ConfigError ''format YYYYMMDD requires target_type DATE'')
           else Inr ()
      else if k = KDate8 \<and> f_length f \<noteq> 8
        then Inl (ConfigError ''DATE target requires an 8-byte CHAR field or format YYYYMMDD'')
      else Inr ())"

definition check_decimal :: "kind \<Rightarrow> parsed_type \<Rightarrow> cb_field \<Rightarrow> ldm_error + unit" where
  "check_decimal k p f =
     (if k \<noteq> KDecimal then Inr ()
      else bindE (pt_precision p) (\<lambda>prec.
        if 38 < prec then Inl (ConfigError ''target exceeds DECIMAL(38)'')
        else bindE (pt_scale p) (\<lambda>sc.
          if f_scale f \<noteq> sc then Inl (ConfigError ''copybook scale differs from target scale'') else Inr ())))"

definition trims :: "type_override \<Rightarrow> kind \<Rightarrow> parsed_type \<Rightarrow> bool" where
  "trims ov k p \<longleftrightarrow> ov_trim ov \<noteq> Some ''none'' \<and>
     (ov_trim ov = Some ''right'' \<or>
      k = KChar \<and> pt_base p \<in> {''NVARCHAR'', ''VARCHAR'', ''TEXT''} \<and> ov_trim ov = None)"

definition override_of :: "table_config \<Rightarrow> string \<Rightarrow> type_override" where
  "override_of t col = (case map_of (tc_type_overrides t) col of Some ov \<Rightarrow> ov | None \<Rightarrow> no_override)"

definition column_spec_of ::
  "table_config \<Rightarrow> copybook \<Rightarrow> typemap \<Rightarrow> string \<Rightarrow> string \<times> string \<Rightarrow> ldm_error + column_spec" where
  "column_spec_of t cb tm text_encoding entry = (case entry of (cob_name, col) \<Rightarrow>
     let ov = override_of t col in
     bindE (cb_field_named cb cob_name) (\<lambda>f.
     bindE (mapped_type tm ov f) (\<lambda>(src, target0, k0).
     bindE (apply_override k0 target0 ov tm) (\<lambda>(target, k).
     bindE (check_format ov k f) (\<lambda>_.
     bindE (parse_type target) (\<lambda>p.
     bindE (check_decimal k p f) (\<lambda>_.
     bindE (pt_precision p) (\<lambda>prec.
     bindE (pt_scale p) (\<lambda>sc.
     bindE (pt_length p) (\<lambda>len.
       Inr \<lparr>cs_name = col, cs_field = f, cs_source_type = src, cs_target_type = target, cs_kind = k,
            cs_is_key = (col \<in> set (tc_key_columns t)),
            cs_encoding = (if truthy (ov_encoding ov) then the (ov_encoding ov) else text_encoding),
            cs_trim = trims ov k p, cs_date_format = ov_format ov,
            cs_value_map = (case ov_value_map ov of None \<Rightarrow> [] | Some v \<Rightarrow> v),
            cs_target_precision = prec, cs_target_scale = sc, cs_target_length = len\<rparr>))))))))))"

definition build_column_specs ::
  "table_config \<Rightarrow> copybook \<Rightarrow> typemap \<Rightarrow> string \<Rightarrow> ldm_error + column_spec list" where
  "build_column_specs t cb tm text_encoding =
     (if list_ex (\<lambda>f. \<not> f_filler f \<and> f_name f \<notin> fst ` set (tc_field_map t)) (cb_fields cb)
      then Inl (ConfigError ''copybook fields without field_map entry'')
      else mapE (column_spec_of t cb tm text_encoding) (tc_field_map t))"

section \<open>Facts\<close>

lemma cb_field_named_member: "cb_field_named cb n = Inr f \<Longrightarrow> f \<in> set (cb_fields cb) \<and> f_name f = n"
  by (auto simp: cb_field_named_def find_Some_iff split: option.splits)

lemma column_spec_of_name: "column_spec_of t cb tm enc e = Inr s \<Longrightarrow> cs_name s = snd e"
  by (cases e) (auto simp: column_spec_of_def Let_def)

lemma column_spec_of_field:
  "column_spec_of t cb tm enc e = Inr s \<Longrightarrow> cs_field s \<in> set (cb_fields cb) \<and> f_name (cs_field s) = fst e"
  by (cases e) (auto simp: column_spec_of_def Let_def dest: cb_field_named_member)

lemma column_spec_of_decimal:
  "column_spec_of t cb tm enc e = Inr s \<Longrightarrow> cs_kind s = KDecimal \<Longrightarrow>
   cs_target_precision s \<le> 38 \<and> cs_target_scale s = f_scale (cs_field s)"
  by (cases e) (auto simp: column_spec_of_def check_decimal_def Let_def split: if_splits)

lemma column_spec_of_date8:
  "column_spec_of t cb tm enc e = Inr s \<Longrightarrow> cs_kind s = KDate8 \<Longrightarrow>
   f_length (cs_field s) = 8 \<or> cs_date_format s = Some ''YYYYMMDD''"
  by (cases e) (auto simp: column_spec_of_def check_format_def truthy_def Let_def split: if_splits option.splits)

lemma column_spec_of_format:
  "column_spec_of t cb tm enc e = Inr s \<Longrightarrow> truthy (cs_date_format s) \<Longrightarrow>
   cs_date_format s = Some ''YYYYMMDD'' \<and> cs_kind s = KDate8"
  by (cases e) (auto simp: column_spec_of_def check_format_def Let_def split: if_splits)

lemma column_spec_of_target:
  "column_spec_of t cb tm enc e = Inr s \<Longrightarrow> cs_is_key s = (cs_name s \<in> set (tc_key_columns t)) \<and>
   (\<exists>p. parse_type (cs_target_type s) = Inr p \<and> pt_precision p = Inr (cs_target_precision s) \<and>
      pt_scale p = Inr (cs_target_scale s) \<and> pt_length p = Inr (cs_target_length s))"
  by (cases e) (auto simp: column_spec_of_def Let_def)

lemma mapE_Inr_all2: "mapE f xs = Inr ys \<longleftrightarrow> list_all2 (\<lambda>x y. f x = Inr y) xs ys"
  by (induction xs arbitrary: ys) (auto simp: list_all2_Cons1)

lemma mapE_member: "mapE f xs = Inr ys \<Longrightarrow> y \<in> set ys \<Longrightarrow> \<exists>x \<in> set xs. f x = Inr y"
  unfolding mapE_Inr_all2 list_all2_conv_all_nth by (metis in_set_conv_nth)

lemma build_specs_inr:
  "build_column_specs t cb tm enc = Inr specs \<Longrightarrow> mapE (column_spec_of t cb tm enc) (tc_field_map t) = Inr specs"
  by (simp add: build_column_specs_def split: if_splits)

lemma build_specs_names:
  assumes "build_column_specs t cb tm enc = Inr specs"
  shows "map cs_name specs = tc_columns t"
proof -
  have "list_all2 (\<lambda>e s. column_spec_of t cb tm enc e = Inr s) (tc_field_map t) specs"
    using build_specs_inr [OF assms] by (simp add: mapE_Inr_all2)
  then have "list_all2 (\<lambda>e s. cs_name s = snd e) (tc_field_map t) specs"
    by (rule list_all2_mono) (rule column_spec_of_name)
  then show ?thesis by (simp add: tc_columns_def list_all2_conv_all_nth list_eq_iff_nth_eq)
qed

lemma build_specs_cover:
  assumes "build_column_specs t cb tm enc = Inr specs" and f: "f \<in> set (cb_fields cb)" "\<not> f_filler f"
  shows "\<exists>s \<in> set specs. f_name (cs_field s) = f_name f"
proof -
  note m = build_specs_inr [OF assms(1)]
  from f assms have "f_name f \<in> fst ` set (tc_field_map t)"
    by (auto simp: build_column_specs_def list_ex_iff split: if_splits)
  then obtain i where i: "i < length (tc_field_map t)" "fst (tc_field_map t ! i) = f_name f"
    by (auto simp: in_set_conv_nth)
  from m have l: "length specs = length (tc_field_map t)" by (rule mapE_Inr_length)
  from m i have "column_spec_of t cb tm enc (tc_field_map t ! i) = Inr (specs ! i)"
    by (simp add: mapE_Inr_all2 list_all2_conv_all_nth)
  with i l show ?thesis by (metis column_spec_of_field nth_mem)
qed

lemma build_specs_each:
  assumes "build_column_specs t cb tm enc = Inr specs" and "s \<in> set specs"
  shows "cs_field s \<in> set (cb_fields cb)" and "(f_name (cs_field s), cs_name s) \<in> set (tc_field_map t)"
    and "cs_is_key s = (cs_name s \<in> set (tc_key_columns t))"
    and "\<exists>p. parse_type (cs_target_type s) = Inr p \<and> pt_precision p = Inr (cs_target_precision s) \<and>
      pt_scale p = Inr (cs_target_scale s) \<and> pt_length p = Inr (cs_target_length s)"
    and "cs_kind s = KDecimal \<Longrightarrow> cs_target_precision s \<le> 38 \<and> cs_target_scale s = f_scale (cs_field s)"
    and "cs_kind s = KDate8 \<Longrightarrow> f_length (cs_field s) = 8 \<or> cs_date_format s = Some ''YYYYMMDD''"
    and "truthy (cs_date_format s) \<Longrightarrow> cs_date_format s = Some ''YYYYMMDD'' \<and> cs_kind s = KDate8"
proof -
  from mapE_member [OF build_specs_inr [OF assms(1)] assms(2)] obtain e where
    e: "e \<in> set (tc_field_map t)" "column_spec_of t cb tm enc e = Inr s" by blast
  note of_e = column_spec_of_field [OF e(2)] column_spec_of_name [OF e(2)] column_spec_of_target [OF e(2)]
    column_spec_of_decimal [OF e(2)] column_spec_of_date8 [OF e(2)] column_spec_of_format [OF e(2)]
  then show "cs_field s \<in> set (cb_fields cb)" and "cs_is_key s = (cs_name s \<in> set (tc_key_columns t))"
    and "\<exists>p. parse_type (cs_target_type s) = Inr p \<and> pt_precision p = Inr (cs_target_precision s) \<and>
      pt_scale p = Inr (cs_target_scale s) \<and> pt_length p = Inr (cs_target_length s)"
    and "cs_kind s = KDecimal \<Longrightarrow> cs_target_precision s \<le> 38 \<and> cs_target_scale s = f_scale (cs_field s)"
    and "cs_kind s = KDate8 \<Longrightarrow> f_length (cs_field s) = 8 \<or> cs_date_format s = Some ''YYYYMMDD''"
    and "truthy (cs_date_format s) \<Longrightarrow> cs_date_format s = Some ''YYYYMMDD'' \<and> cs_kind s = KDate8" by blast+
  have "e = (f_name (cs_field s), cs_name s)" using of_e(1,2) by (cases e) simp
  with e(1) show "(f_name (cs_field s), cs_name s) \<in> set (tc_field_map t)" by simp
qed


section \<open>Witness\<close>

text \<open>A table with a four-byte key and a packed balance, mapped by two rules for PostgreSQL.\<close>

definition example_id :: column_spec where
  "example_id = \<lparr>cs_name = ''ID'', cs_field = hd (cb_fields example_copybook),
     cs_source_type = ''CHAR(4)'', cs_target_type = ''CHAR(4)'', cs_kind = KChar, cs_is_key = True,
     cs_encoding = ''ascii'', cs_trim = False, cs_date_format = None, cs_value_map = [],
     cs_target_precision = 4, cs_target_scale = 0, cs_target_length = 4\<rparr>"

definition example_balance :: column_spec where
  "example_balance = \<lparr>cs_name = ''BAL'', cs_field = last (cb_fields example_copybook),
     cs_source_type = ''DECIMAL(5,2)'', cs_target_type = ''NUMERIC(5,2)'', cs_kind = KDecimal, cs_is_key = False,
     cs_encoding = ''ascii'', cs_trim = False, cs_date_format = None, cs_value_map = [],
     cs_target_precision = 5, cs_target_scale = 2, cs_target_length = 5\<rparr>"

definition example_config :: table_config where
  "example_config = \<lparr>tc_name = ''CUST'', tc_schema = ''S'', tc_role = DataTable, tc_order = 1, tc_copybook = ''CUST.cpy'',
     tc_record_length = 7, tc_field_map = [(''CUST-ID'', ''ID''), (''CUST-BAL'', ''BAL'')], tc_key_columns = [''ID''],
     tc_hash_columns = [''ID'', ''BAL''],
     tc_selection = \<lparr>sel_all = Some True, sel_retention_classes = None, sel_class_column = None,
       sel_last_access_column = None, sel_last_access_before = None, sel_parent = None\<rparr>,
     tc_class_totals = None, tc_type_overrides = []\<rparr>"

definition example_typemap :: typemap where
  "example_typemap = \<lparr>
     tm_rules = [\<lparr>tr_source = ''CHAR({n})'', tr_target = ''CHAR({n})'', tr_kind = KChar\<rparr>,
       \<lparr>tr_source = ''DECIMAL({p},{s})'', tr_target = ''NUMERIC({p},{s})'', tr_kind = KDecimal\<rparr>],
     tm_inference = [
       FromTemplate (Seqs [Lit ''X('', Grp ''n'' (Plus Digit), Lit '')'', EndZ]) ''CHAR({n})'',
       FromTemplate (Seqs [Lit ''S9('', Grp ''p'' (Plus Digit), Lit '')V9('', Grp ''s'' (Plus Digit), Lit '') COMP-3'', EndZ])
         ''DECIMAL({ps},{s})''],
     tm_target = ToPostgreSQL\<rparr>"

lemma example_specs:
  "build_column_specs example_config example_copybook example_typemap ''ascii'' = Inr [example_id, example_balance]"
  by code_simp


end
