(* ===== verification/Ldm_Decimal.thy ===== *)
theory Ldm_Decimal
  imports Py_Text
begin

text \<open>
  The values of Python's \<open>decimal.Decimal\<close> the migration job handles: a finite number is a
  sign, a coefficient and an exponent, as \<open>Decimal.as_tuple\<close> shows them. The context
  precision is the 64 digits that \<open>ldm/__init__.py\<close> sets.
\<close>

datatype decimal = Dec (dneg: bool) (dcoeff: nat) (dexp: int) | DInf bool | DNaN

definition DECIMAL_PRECISION :: nat where
  "DECIMAL_PRECISION = 64"

text \<open>\<open>len(d.as_tuple().digits)\<close>: zero has one digit.\<close>

definition ndigits :: "nat \<Rightarrow> nat" where
  "ndigits n = length (str_nat n)"

definition is_finite :: "decimal \<Rightarrow> bool" where
  "is_finite d = (case d of Dec _ _ _ \<Rightarrow> True | _ \<Rightarrow> False)"

text \<open>The numeric value, as a numerator over a power of ten.\<close>

definition dec_lt_zero :: "decimal \<Rightarrow> bool" where
  "dec_lt_zero d = (case d of Dec n c _ \<Rightarrow> n \<and> c \<noteq> 0 | DInf n \<Rightarrow> n | DNaN \<Rightarrow> False)"

definition dec_abs :: "decimal \<Rightarrow> decimal" where
  "dec_abs d = (case d of Dec _ c e \<Rightarrow> Dec False c e | DInf _ \<Rightarrow> DInf False | DNaN \<Rightarrow> DNaN)"

text \<open>\<open>ROUND_HALF_EVEN\<close> division by a power of ten.\<close>

definition half_even :: "nat \<Rightarrow> nat \<Rightarrow> nat" where
  "half_even c m = (let q = c div m; r = c mod m in
     if 2 * r < m then q else if m < 2 * r then Suc q else if even q then q else Suc q)"

text \<open>\<open>d.quantize(Decimal(1).scaleb(-s))\<close>: None is \<open>InvalidOperation\<close>.\<close>

definition quantize :: "decimal \<Rightarrow> nat \<Rightarrow> decimal option" where
  "quantize d s = (case d of
       Dec n c e \<Rightarrow>
         let c' = (if - int s \<le> e then c * 10 ^ nat (e + int s) else half_even c (10 ^ nat (- int s - e)))
         in if ndigits c' \<le> DECIMAL_PRECISION then Some (Dec n c' (- int s)) else None
     | DInf _ \<Rightarrow> None
     | DNaN \<Rightarrow> Some DNaN)"

text \<open>\<open>Decimal.__eq__\<close> and exact addition of finite values.\<close>

definition dec_eq :: "decimal \<Rightarrow> decimal \<Rightarrow> bool" where
  "dec_eq a b = (case (a, b) of
       (Dec n c e, Dec n' c' e') \<Rightarrow>
         let m = min e e'; x = c * 10 ^ nat (e - m); y = c' * 10 ^ nat (e' - m)
         in x = y \<and> (x = 0 \<or> n = n')
     | (DInf n, DInf n') \<Rightarrow> n = n'
     | _ \<Rightarrow> False)"

definition signed_at :: "bool \<Rightarrow> nat \<Rightarrow> int \<Rightarrow> int \<Rightarrow> int" where
  "signed_at n c e m = (if n then - 1 else 1) * int (c * 10 ^ nat (e - m))"

text \<open>
  \<open>a + b\<close> for values whose exact sum has at most 64 digits (None where the context would
  round or an operand is not finite).
\<close>

definition dec_add :: "decimal \<Rightarrow> decimal \<Rightarrow> decimal option" where
  "dec_add a b = (case (a, b) of
       (Dec n c e, Dec n' c' e') \<Rightarrow>
         let m = min e e'; z = signed_at n c e m + signed_at n' c' e' m
         in if ndigits (nat \<bar>z\<bar>) \<le> DECIMAL_PRECISION
            then Some (Dec (z < 0 \<or> z = 0 \<and> n \<and> n') (nat \<bar>z\<bar>) m) else None
     | _ \<Rightarrow> None)"

text \<open>\<open>format(d, 'f')\<close> of a value with an exponent at most zero.\<close>

definition fixed_digits :: "nat \<Rightarrow> nat \<Rightarrow> string" where
  "fixed_digits c s = rjust (Suc s) (CHR ''0'') (str_nat c)"

definition format_f :: "decimal \<Rightarrow> string" where
  "format_f d = (case d of
       Dec n c e \<Rightarrow> (if n then ''-'' else []) @
         (if 0 \<le> e then str_nat (c * 10 ^ nat e)
          else let s = nat (- e); w = fixed_digits c s
               in take (length w - s) w @ ''.'' @ drop (length w - s) w)
     | DInf n \<Rightarrow> (if n then ''-'' else []) @ ''Infinity''
     | DNaN \<Rightarrow> ''NaN'')"

section \<open>Reading text: \<open>Decimal(s)\<close>\<close>

text \<open>
  Surrounding white space and underscores are removed; then an optional sign and a number
  with an optional point and exponent, or an infinity or a NaN. None is \<open>InvalidOperation\<close>.
\<close>

definition split_at_char :: "(char \<Rightarrow> bool) \<Rightarrow> string \<Rightarrow> string \<times> string option" where
  "split_at_char p s = (takeWhile (\<lambda>c. \<not> p c) s,
     (case dropWhile (\<lambda>c. \<not> p c) s of [] \<Rightarrow> None | _ # t \<Rightarrow> Some t))"

definition exp_of_text :: "string option \<Rightarrow> int option" where
  "exp_of_text x = (case x of
       None \<Rightarrow> Some 0
     | Some [] \<Rightarrow> None
     | Some (c # t) \<Rightarrow>
         if c = CHR ''-'' then (if t \<noteq> [] \<and> list_all is_digit t then Some (- int (nat_of_digits t)) else None)
         else if c = CHR ''+'' then (if t \<noteq> [] \<and> list_all is_digit t then Some (int (nat_of_digits t)) else None)
         else if list_all is_digit (c # t) then Some (int (nat_of_digits (c # t))) else None)"

definition unsigned_decimal :: "bool \<Rightarrow> string \<Rightarrow> decimal option" where
  "unsigned_decimal neg s =
     (if py_lower s = ''inf'' \<or> py_lower s = ''infinity'' then Some (DInf neg)
      else if py_lower (take 3 s) = ''nan'' \<and> list_all is_digit (drop 3 s) then Some DNaN
      else if py_lower (take 4 s) = ''snan'' \<and> list_all is_digit (drop 4 s) then Some DNaN
      else let (mant, ex) = split_at_char (\<lambda>c. c = CHR ''e'' \<or> c = CHR ''E'') s;
               (ip, fp) = split_at_char (\<lambda>c. c = CHR ''.'') mant;
               f = (case fp of None \<Rightarrow> [] | Some f \<Rightarrow> f)
           in if (ip \<noteq> [] \<or> f \<noteq> []) \<and> list_all is_digit (ip @ f)
              then map_option (\<lambda>x. Dec neg (nat_of_digits (ip @ f)) (x - int (length f))) (exp_of_text ex)
              else None)"

definition decimal_of_text :: "string \<Rightarrow> decimal option" where
  "decimal_of_text s = (case filter (\<lambda>c. c \<noteq> CHR ''_'') (py_strip s) of
       [] \<Rightarrow> None
     | c # t \<Rightarrow>
         if c = CHR ''-'' then unsigned_decimal True t
         else if c = CHR ''+'' then unsigned_decimal False t
         else unsigned_decimal False (c # t))"

section \<open>Facts\<close>

lemma ndigits_le: "c < 10 ^ k \<Longrightarrow> 0 < k \<Longrightarrow> ndigits c \<le> k"
proof (induction k arbitrary: c)
  case 0
  then show ?case by simp
next
  case (Suc k)
  show ?case
  proof (cases "c < 10")
    case True
    then show ?thesis by (simp add: ndigits_def str_nat.simps [of c])
  next
    case False
    then have "0 < k" using Suc.prems by (cases k) auto
    moreover from Suc.prems have "c div 10 < 10 ^ k" by (simp add: less_mult_imp_div_less mult.commute)
    ultimately have "ndigits (c div 10) \<le> k" using Suc.IH by blast
    with False show ?thesis by (simp add: ndigits_def str_nat.simps [of c])
  qed
qed

lemma ndigits_bound: "c < 10 ^ ndigits c"
proof (induction c rule: str_nat.induct)
  case (1 c)
  show ?case
  proof (cases "c < 10")
    case True
    then show ?thesis by (simp add: ndigits_def str_nat.simps [of c])
  next
    case False
    with 1 have "c div 10 < 10 ^ ndigits (c div 10)" by simp
    then have "c < 10 * 10 ^ ndigits (c div 10)"
      by (metis div_less_iff_less_mult mult.commute zero_less_numeral)
    with False show ?thesis by (simp add: ndigits_def str_nat.simps [of c])
  qed
qed

lemma ndigits_le_iff: "0 < k \<Longrightarrow> ndigits c \<le> k \<longleftrightarrow> c < 10 ^ k"
proof
  assume "ndigits c \<le> k"
  then have "(10::nat) ^ ndigits c \<le> 10 ^ k" by (simp add: power_increasing)
  then show "c < 10 ^ k" using ndigits_bound [of c] by linarith
qed (rule ndigits_le)

lemma quantize_exact [simp]:
  "ndigits c \<le> DECIMAL_PRECISION \<Longrightarrow> quantize (Dec n c (- int s)) s = Some (Dec n c (- int s))"
  by (simp add: quantize_def)

lemma dec_eq_refl [simp]: "is_finite d \<Longrightarrow> dec_eq d d"
  by (cases d) (simp_all add: is_finite_def dec_eq_def)

end
