(* ===== verification/Py_Date.thy ===== *)
theory Py_Date
  imports Py_Text
begin

text \<open>
  \<open>datetime.date\<close> of the Gregorian calendar, years 1 to 9999: construction with its range
  check, order, the previous day, and the ISO and compact texts.
\<close>

datatype date = Date (d_year: nat) (d_month: nat) (d_day: nat)

definition is_leap :: "nat \<Rightarrow> bool" where
  "is_leap y \<longleftrightarrow> y mod 4 = 0 \<and> (y mod 100 \<noteq> 0 \<or> y mod 400 = 0)"

definition days_in_month :: "nat \<Rightarrow> nat \<Rightarrow> nat" where
  "days_in_month y m =
     (if m = 2 then if is_leap y then 29 else 28 else if m \<in> {4, 6, 9, 11} then 30 else 31)"

text \<open>\<open>date(y, m, d)\<close>: None is \<open>ValueError\<close>.\<close>

definition mk_date :: "nat \<Rightarrow> nat \<Rightarrow> nat \<Rightarrow> date option" where
  "mk_date y m d =
     (if 1 \<le> y \<and> y \<le> 9999 \<and> 1 \<le> m \<and> m \<le> 12 \<and> 1 \<le> d \<and> d \<le> days_in_month y m
      then Some (Date y m d) else None)"

definition valid_date :: "date \<Rightarrow> bool" where
  "valid_date d \<longleftrightarrow> mk_date (d_year d) (d_month d) (d_day d) = Some d"

definition date_key :: "date \<Rightarrow> nat \<times> nat \<times> nat" where
  "date_key d = (d_year d, d_month d, d_day d)"

instantiation date :: linorder
begin

definition less_eq_date :: "date \<Rightarrow> date \<Rightarrow> bool" where
  "less_eq_date a b \<longleftrightarrow> d_year a < d_year b \<or> d_year a = d_year b \<and>
     (d_month a < d_month b \<or> d_month a = d_month b \<and> d_day a \<le> d_day b)"

definition less_date :: "date \<Rightarrow> date \<Rightarrow> bool" where
  "less_date a b \<longleftrightarrow> d_year a < d_year b \<or> d_year a = d_year b \<and>
     (d_month a < d_month b \<or> d_month a = d_month b \<and> d_day a < d_day b)"

instance
proof
  fix x y :: date
  show "x < y \<longleftrightarrow> x \<le> y \<and> \<not> y \<le> x" by (auto simp: less_eq_date_def less_date_def)
  show "x \<le> x" by (simp add: less_eq_date_def)
  show "x \<le> y \<Longrightarrow> y \<le> x \<Longrightarrow> x = y" by (cases x; cases y) (auto simp: less_eq_date_def)
  show "x \<le> y \<or> y \<le> x" by (auto simp: less_eq_date_def)
next
  fix x y z :: date
  show "x \<le> y \<Longrightarrow> y \<le> z \<Longrightarrow> x \<le> z" by (auto simp: less_eq_date_def)
qed

end

text \<open>\<open>d - timedelta(days=1)\<close>: None is \<open>OverflowError\<close>.\<close>

definition pred_day :: "date \<Rightarrow> date option" where
  "pred_day d = (case d of Date y m k \<Rightarrow>
     if 1 < k then Some (Date y m (k - 1))
     else if 1 < m then Some (Date y (m - 1) (days_in_month y (m - 1)))
     else if 1 < y then Some (Date (y - 1) 12 31) else None)"

text \<open>Decimal text padded with zeros, \<open>date.isoformat\<close> and \<open>strftime("%Y%m%d")\<close>.\<close>

definition pad_nat :: "nat \<Rightarrow> nat \<Rightarrow> string" where
  "pad_nat k n = rjust k (CHR ''0'') (str_nat n)"

definition isoformat :: "date \<Rightarrow> string" where
  "isoformat d = pad_nat 4 (d_year d) @ ''-'' @ pad_nat 2 (d_month d) @ ''-'' @ pad_nat 2 (d_day d)"

definition compact_date :: "date \<Rightarrow> string" where
  "compact_date d = pad_nat 4 (d_year d) @ pad_nat 2 (d_month d) @ pad_nat 2 (d_day d)"

section \<open>Facts\<close>

lemma mk_date_Some: "mk_date y m d = Some t \<Longrightarrow> t = Date y m d \<and> valid_date t"
  by (auto simp: mk_date_def valid_date_def split: if_splits)

lemma days_in_month_pos: "28 \<le> days_in_month y m"
  by (simp add: days_in_month_def)

lemma valid_date_iff:
  "valid_date (Date y m d) \<longleftrightarrow>
     1 \<le> y \<and> y \<le> 9999 \<and> 1 \<le> m \<and> m \<le> 12 \<and> 1 \<le> d \<and> d \<le> days_in_month y m"
  by (auto simp: valid_date_def mk_date_def)

lemma december [simp]: "days_in_month y 12 = 31"
  by (simp add: days_in_month_def)

lemma pred_day_valid:
  assumes "valid_date d" and "pred_day d = Some e"
  shows "valid_date e"
proof (cases d)
  case (Date y m k)
  have "1 \<le> days_in_month y (m - 1)" using days_in_month_pos [of y "m - 1"] by linarith
  with assms show ?thesis unfolding Date
    by (auto simp: valid_date_iff pred_day_def split: if_splits)
qed

lemma pred_day_less: "pred_day d = Some e \<Longrightarrow> e < d"
  by (cases d) (auto simp: pred_day_def less_date_def split: if_splits)

text \<open>No calendar day lies strictly between a day and its predecessor.\<close>

lemma pred_day_greatest:
  assumes "valid_date d" "valid_date t" "pred_day d = Some e" "t < d"
  shows "t \<le> e"
proof -
  obtain y m k y' m' k' where dt: "d = Date y m k" "t = Date y' m' k'"
    by (cases d; cases t) blast
  have last: "k' \<le> days_in_month y' m'" "m' \<le> 12" "1 \<le> k'" "1 \<le> m'" "1 \<le> k" "1 \<le> m"
    using assms(1,2) by (simp_all add: dt valid_date_iff)
  have early: "y' < y \<or> y' = y \<and> (m' < m \<or> m' = m \<and> k' < k)"
    using assms(4) by (simp add: dt less_date_def)
  show ?thesis
  proof (cases "1 < k")
    case True
    with assms(3) early show ?thesis by (auto simp: dt pred_day_def less_eq_date_def)
  next
    case k: False
    show ?thesis
    proof (cases "1 < m")
      case True
      have "m' < m - 1 \<or> m' = m - 1" if "m' < m" using that by linarith
      with True k assms(3) early last show ?thesis
        by (auto simp: dt pred_day_def less_eq_date_def)
    next
      case False
      have "y' < y - 1 \<or> y' = y - 1" if "y' < y" using that by linarith
      moreover have "k' \<le> 31" using last(1) by (simp add: days_in_month_def split: if_splits)
      ultimately show ?thesis using False k assms(3) early last
        by (auto simp: dt pred_day_def less_eq_date_def split: if_splits)
    qed
  qed
qed

text \<open>A number with at most \<open>k\<close> digits is read back from its zero-padded text.\<close>

lemma nat_of_digits_zeros: "nat_of_digits (replicate n (CHR ''0'') @ s) = nat_of_digits s"
  by (induction n) (simp_all add: nat_of_digits_def digit_val_def)

lemma nat_of_digits_pad_nat [simp]: "nat_of_digits (pad_nat k n) = n"
  by (simp add: pad_nat_def rjust_def nat_of_digits_zeros)

lemma pad_nat_digits: "\<forall>c \<in> set (pad_nat k n). is_digit c"
  using str_nat_digits [of n] by (auto simp: pad_nat_def rjust_def is_digit_def)

text \<open>Conversely, \<open>k\<close> digits are the padded text of their value.\<close>

lemma str_nat_snoc: "0 < n \<Longrightarrow> d < 10 \<Longrightarrow> str_nat (10 * n + d) = str_nat n @ [digit_char d]"
  by (subst str_nat.simps) simp

lemma digit_char_val [simp]: "is_digit c \<Longrightarrow> digit_char (digit_val c) = c"
  by (auto simp: is_digit_def digit_char_def digit_val_def Let_def)

lemma digit_val_less: "is_digit c \<Longrightarrow> digit_val c < 10"
  by (auto simp: is_digit_def digit_val_def Let_def)

lemma digit_char_zero: "digit_char 0 = CHR ''0''"
  by (simp add: digit_char_def, code_simp)

lemma pad_nat_of_digits:
  "\<forall>c \<in> set s. is_digit c \<Longrightarrow> s \<noteq> [] \<Longrightarrow> pad_nat (length s) (nat_of_digits s) = s"
proof (induction s rule: rev_induct)
  case Nil
  then show ?case by simp
next
  case (snoc c s)
  then have c: "is_digit c" "digit_val c < 10" by (simp_all add: digit_val_less)
  show ?case
  proof (cases "s = []")
    case True
    with c show ?thesis by (simp add: pad_nat_def nat_of_digits_def str_nat.simps [of "digit_val c"] rjust_def)
  next
    case False
    with snoc have IH: "pad_nat (length s) (nat_of_digits s) = s" by simp
    show ?thesis
    proof (cases "nat_of_digits s = 0")
      case True
      with IH have s: "s = replicate (length s - 1) (CHR ''0'') @ ''0''"
        by (simp add: pad_nat_def rjust_def str_nat.simps [of 0] digit_char_zero)
      have "length s = Suc (length s - 1)" using False by (cases s) auto
      then have "replicate (length s) (CHR ''0'') = s" using s
        by (metis replicate_Suc replicate_append_same)
      with True c show ?thesis
        by (simp add: nat_of_digits_snoc pad_nat_def rjust_def str_nat.simps [of "digit_val c"])
    next
      case nz: False
      with IH c show ?thesis
        by (simp add: nat_of_digits_snoc pad_nat_def rjust_def str_nat_snoc)
    qed
  qed
qed

end
