(* ===== verification/Ldm_Numeric.thy ===== *)
theory Ldm_Numeric
  imports Ldm_Decimal Py_Date
begin

text \<open>
  Numeric storage of the copybook: big-endian two's complement (COMP) and packed decimal
  (COMP-3), from \<open>int.from_bytes\<close>, \<open>int.to_bytes\<close>, \<open>unpack_comp3\<close> and \<open>pack_comp3\<close> of
  \<open>migration/job/ldm/convert.py\<close>. Main facts: both directions of both round trips.
\<close>

datatype py_exc = ValueError string | IndexError | InvalidOperation | OverflowError

section \<open>COMP: two's complement\<close>

fun bytes_of_nat :: "nat \<Rightarrow> nat \<Rightarrow> bytes" where
  "bytes_of_nat 0 n = []"
| "bytes_of_nat (Suc k) n = bytes_of_nat k (n div 256) @ [word_of_nat n]"

definition nat_of_bytes :: "bytes \<Rightarrow> nat" where
  "nat_of_bytes bs = foldl (\<lambda>n b. 256 * n + unat b) 0 bs"

text \<open>\<open>int.from_bytes(raw, "big", signed=True)\<close>\<close>

definition int_from_bytes :: "bytes \<Rightarrow> int" where
  "int_from_bytes bs = (let n = int (nat_of_bytes bs) in
     if bs \<noteq> [] \<and> 128 \<le> unat (hd bs) then n - 256 ^ length bs else n)"

text \<open>\<open>i.to_bytes(k, "big", signed=True)\<close>\<close>

definition int_to_bytes :: "int \<Rightarrow> nat \<Rightarrow> py_exc + bytes" where
  "int_to_bytes i k =
     (if k = 0 then if i = 0 \<or> i = - 1 then Inr [] else Inl OverflowError
      else if - (2 ^ (8 * k - 1)) \<le> i \<and> i < 2 ^ (8 * k - 1)
        then Inr (bytes_of_nat k (nat (i mod 256 ^ k)))
      else Inl OverflowError)"

lemma length_bytes_of_nat [simp]: "length (bytes_of_nat k n) = k"
  by (induction k arbitrary: n) auto

lemma nat_of_bytes_snoc: "nat_of_bytes (bs @ [b]) = 256 * nat_of_bytes bs + unat b"
  by (simp add: nat_of_bytes_def)

lemma nat_of_bytes_Nil [simp]: "nat_of_bytes [] = 0"
  by (simp add: nat_of_bytes_def)

lemma unat_byte_bound: "unat (b :: 8 word) < 256"
  using unsigned_less [of b, where 'a = nat] by simp

lemma nat_of_bytes_of_nat: "nat_of_bytes (bytes_of_nat k n) = n mod 256 ^ k"
proof (induction k arbitrary: n)
  case 0
  then show ?case by simp
next
  case (Suc k)
  have "n mod 256 ^ Suc k = 256 * (n div 256 mod 256 ^ k) + n mod 256"
    using mod_mult2_eq [of n 256 "256 ^ k"] by simp
  then show ?case by (simp add: nat_of_bytes_snoc Suc.IH unsigned_of_nat take_bit_eq_mod)
qed

lemma bytes_of_nat_of_bytes [simp]: "bytes_of_nat (length bs) (nat_of_bytes bs) = bs"
proof (induction bs rule: rev_induct)
  case Nil
  then show ?case by simp
next
  case (snoc b bs)
  have "(256 * nat_of_bytes bs + unat b) div 256 = nat_of_bytes bs"
    using unat_byte_bound [of b] by simp
  moreover have "word_of_nat (256 * nat_of_bytes bs + unat b) = b"
  proof (rule word_unat_eq_iff [THEN iffD2])
    show "unat (word_of_nat (256 * nat_of_bytes bs + unat b) :: 8 word) = unat b"
      using unat_byte_bound [of b] by (simp only: unsigned_of_nat) (simp add: take_bit_eq_mod)
  qed
  ultimately show ?case using snoc by (simp add: nat_of_bytes_snoc)
qed

lemma nat_of_bytes_less: "nat_of_bytes bs < 256 ^ length bs"
proof (induction bs rule: rev_induct)
  case Nil
  then show ?case by simp
next
  case (snoc b bs)
  then show ?case using unat_byte_bound [of b] by (simp add: nat_of_bytes_snoc)
qed

lemma nat_of_bytes_Cons: "nat_of_bytes (b # bs) = unat b * 256 ^ length bs + nat_of_bytes bs"
proof (induction bs rule: rev_induct)
  case Nil
  then show ?case by (simp add: nat_of_bytes_def)
next
  case (snoc c bs)
  then show ?case using nat_of_bytes_snoc [of "b # bs" c] nat_of_bytes_snoc [of bs c] by simp
qed

text \<open>The leading bit decides the sign.\<close>

lemma leading_bit:
  assumes "bs \<noteq> []"
  shows "128 \<le> unat (hd bs) \<longleftrightarrow> 256 ^ length bs \<le> 2 * nat_of_bytes bs"
proof -
  from assms obtain b r where bs: "bs = b # r" by (cases bs) auto
  have r: "nat_of_bytes r < 256 ^ length r" by (rule nat_of_bytes_less)
  have "128 * 256 ^ length r \<le> unat b * 256 ^ length r + nat_of_bytes r" if "128 \<le> unat b"
    using that by (simp add: trans_le_add1)
  moreover have "unat b * 256 ^ length r + nat_of_bytes r < 128 * 256 ^ length r" if "unat b < 128"
  proof -
    have "unat b * 256 ^ length r + nat_of_bytes r < (unat b + 1) * 256 ^ length r"
      using r by (simp add: algebra_simps)
    also have "\<dots> \<le> 128 * 256 ^ length r" using that by (intro mult_right_mono) auto
    finally show ?thesis .
  qed
  ultimately show ?thesis
    by (cases "128 \<le> unat b") (simp_all add: bs nat_of_bytes_Cons not_le)
qed

lemma half_power: "0 < k \<Longrightarrow> 2 * (2 :: int) ^ (8 * k - 1) = 256 ^ k"
proof -
  assume "0 < k"
  then have "Suc (8 * k - 1) = 8 * k" by simp
  then have "2 * (2 :: int) ^ (8 * k - 1) = 2 ^ (8 * k)" by (metis power_Suc)
  then show ?thesis by (simp add: power_mult)
qed

lemma int_to_from_bytes:
  assumes "int_to_bytes i k = Inr bs" and "0 < k"
  shows "length bs = k \<and> int_from_bytes bs = i"
proof -
  define N where "N = (256 :: int) ^ k"
  have N: "0 < N" by (simp add: N_def)
  from assms have r: "- N \<le> 2 * i" "2 * i < N" and bs: "bs = bytes_of_nat k (nat (i mod N))"
    using half_power [OF assms(2)] by (auto simp: int_to_bytes_def N_def split: if_splits)
  have n: "nat_of_bytes bs = nat (i mod N)"
    using N by (simp add: bs nat_of_bytes_of_nat N_def nat_mod_distrib nat_power_eq flip: nat_mod_distrib)
  have len: "length bs = k" "bs \<noteq> []" using assms(2) by (auto simp: bs simp flip: length_greater_0_conv)
  have m: "i mod N = (if i < 0 then i + N else i)"
  proof (cases "i < 0")
    case True
    have "(i + N) mod N = i + N" using True r N by (intro mod_pos_pos_trivial) auto
    with True show ?thesis by simp
  next
    case False
    with r show ?thesis by (simp add: mod_pos_pos_trivial)
  qed
  have "128 \<le> unat (hd bs) \<longleftrightarrow> N \<le> 2 * int (nat_of_bytes bs)"
    unfolding leading_bit [OF len(2)] len(1) N_def
    by (metis (mono_tags, opaque_lifting) of_nat_le_iff of_nat_mult of_nat_numeral of_nat_power)
  moreover have "int (nat_of_bytes bs) = i mod N" using N by (simp add: n)
  ultimately show ?thesis using m r len by (auto simp: int_from_bytes_def Let_def N_def)
qed

lemma int_from_to_bytes:
  assumes "bs \<noteq> []"
  shows "int_to_bytes (int_from_bytes bs) (length bs) = Inr bs"
proof -
  define k N where "k = length bs" and "N = (256 :: int) ^ k"
  have k: "0 < k" using assms by (simp add: k_def)
  have n: "int (nat_of_bytes bs) < N" "0 \<le> int (nat_of_bytes bs)"
    using nat_of_bytes_less [of bs] unfolding N_def k_def
    by (metis of_nat_less_iff of_nat_numeral of_nat_power) simp
  have lead: "128 \<le> unat (hd bs) \<longleftrightarrow> N \<le> 2 * int (nat_of_bytes bs)"
    unfolding leading_bit [OF assms] N_def k_def
    by (metis (mono_tags, opaque_lifting) of_nat_le_iff of_nat_mult of_nat_numeral of_nat_power)
  have i: "int_from_bytes bs = (if N \<le> 2 * int (nat_of_bytes bs) then int (nat_of_bytes bs) - N else int (nat_of_bytes bs))"
    using lead assms by (simp add: int_from_bytes_def Let_def N_def k_def)
  have "int_from_bytes bs mod N = int (nat_of_bytes bs)"
  proof -
    have "(int (nat_of_bytes bs) - N) mod N = int (nat_of_bytes bs)" using n
      by (metis minus_mod_self2 mod_pos_pos_trivial)
    with i n show ?thesis by (simp add: mod_pos_pos_trivial)
  qed
  moreover have "- N \<le> 2 * int_from_bytes bs" "2 * int_from_bytes bs < N" using i n by auto
  ultimately show ?thesis using half_power [OF k] k bytes_of_nat_of_bytes [of bs]
    by (simp add: int_to_bytes_def N_def k_def)
qed

section \<open>COMP-3: packed decimal\<close>

definition nibbles :: "bytes \<Rightarrow> nat list" where
  "nibbles raw = concat (map (\<lambda>b. [unat b div 16, unat b mod 16]) raw)"

text \<open>The digits before the last \<open>scale\<close> are the integer part: the exponent is \<open>- scale\<close>
  unless there are fewer digits.\<close>

definition unpack_comp3 :: "bytes \<Rightarrow> nat \<Rightarrow> py_exc + decimal" where
  "unpack_comp3 raw scale =
     (if raw = [] then Inl IndexError
      else let ns = nibbles raw; digits = butlast ns; sign = last ns in
        if list_ex (\<lambda>d. 9 < d) digits
          then Inl (ValueError (''invalid packed decimal digit in X'' @ py_quote (py_HEX raw)))
        else if sign \<in> {12, 15, 10, 14}
          then Inr (Dec False (nat_of_digits (map digit_char digits)) (- int (min scale (length digits))))
        else if sign \<in> {13, 11}
          then Inr (Dec True (nat_of_digits (map digit_char digits)) (- int (min scale (length digits))))
        else Inl (ValueError (''invalid packed decimal sign nibble X'' @ py_quote (ascii_upper [hex_digit sign]) @
                              '' in X'' @ py_quote (py_HEX raw))))"

text \<open>Nibbles taken two at a time.\<close>

fun bytes_of_nibbles :: "nat list \<Rightarrow> bytes" where
  "bytes_of_nibbles (h # l # ns) = word_of_nat (16 * h + l) # bytes_of_nibbles ns"
| "bytes_of_nibbles _ = []"

definition comp3_digits :: "decimal \<Rightarrow> string" where
  "comp3_digits q = filter (\<lambda>c. c \<noteq> CHR ''.'') (format_f (dec_abs q))"

definition pack_comp3 :: "decimal \<Rightarrow> nat \<Rightarrow> nat \<Rightarrow> py_exc + bytes" where
  "pack_comp3 value len scale = (case quantize value scale of
       None \<Rightarrow> Inl InvalidOperation
     | Some q \<Rightarrow>
         let digits = comp3_digits q; total = 2 * int len - 1 in
         if total < int (length digits) \<or> \<not> is_finite q
           then Inl (ValueError ''value does not fit in packed decimal'')
         else Inr (bytes_of_nibbles (map digit_val (rjust (nat total) (CHR ''0'') digits) @
                                     [if dec_lt_zero q then 13 else 12])))"

lemma nibbles_length [simp]: "length (nibbles raw) = 2 * length raw"
  by (induction raw) (auto simp: nibbles_def)

lemma nibbles_less: "d \<in> set (nibbles raw) \<Longrightarrow> d < 16"
  using unat_byte_bound by (auto simp: nibbles_def less_mult_imp_div_less)

lemma nibbles_bytes_of_nibbles:
  "even (length ns) \<Longrightarrow> \<forall>d \<in> set ns. d < 16 \<Longrightarrow> nibbles (bytes_of_nibbles ns) = ns"
proof (induction ns rule: bytes_of_nibbles.induct)
  case (1 h l ns)
  have "unat (word_of_nat (16 * h + l) :: 8 word) = 16 * h + l"
    using 1(3) by (simp only: unsigned_of_nat) (simp add: take_bit_eq_mod)
  with 1 show ?case by (simp add: nibbles_def)
qed (simp_all add: nibbles_def)

lemma bytes_of_nibbles_nibbles: "bytes_of_nibbles (nibbles raw) = raw"
proof (induction raw)
  case Nil
  then show ?case by (simp add: nibbles_def)
next
  case (Cons b raw)
  have "16 * (unat b div 16) + unat b mod 16 = unat b" by simp
  then have "word_of_nat (16 * (unat b div 16) + unat b mod 16) = (word_of_nat (unat b) :: 8 word)"
    by (simp only:)
  then have "word_of_nat (16 * (unat b div 16) + unat b mod 16) = b" by simp
  with Cons show ?case by (simp add: nibbles_def)
qed

lemma length_bytes_of_nibbles: "length (bytes_of_nibbles ns) = length ns div 2"
  by (induction ns rule: bytes_of_nibbles.induct) auto

text \<open>The digits of a fixed-point value: its coefficient, at least one digit before the point.\<close>

lemma fixed_digits_is_digit: "c \<in> set (fixed_digits n s) \<Longrightarrow> is_digit c"
  using str_nat_digits [of n] by (auto simp: fixed_digits_def rjust_def is_digit_def)

lemma is_digit_not_point: "is_digit c \<Longrightarrow> c \<noteq> CHR ''.''"
  by (auto simp: is_digit_def)

lemma comp3_digits_Dec: "comp3_digits (Dec n c (- int s)) = fixed_digits c s"
proof (cases "s = 0")
  case True
  then show ?thesis
    using str_nat_digits [of c] str_nat_not_Nil [of c]
    by (auto simp: comp3_digits_def dec_abs_def format_f_def fixed_digits_def rjust_def is_digit_not_point
        Suc_le_eq simp del: str_nat_not_Nil intro!: filter_True)
next
  case False
  define w where "w = fixed_digits c s"
  have "\<forall>x \<in> set w. x \<noteq> CHR ''.''"
    by (auto simp: w_def dest: fixed_digits_is_digit is_digit_not_point)
  then have "filter (\<lambda>c. c \<noteq> CHR ''.'') (take k w) = take k w"
    and "filter (\<lambda>c. c \<noteq> CHR ''.'') (drop k w) = drop k w" for k
    by (auto intro!: filter_True dest: in_set_takeD in_set_dropD)
  with False show ?thesis
    by (simp add: comp3_digits_def dec_abs_def format_f_def Let_def w_def [symmetric])
qed

lemma nat_of_digits_fixed [simp]: "nat_of_digits (fixed_digits c s) = c"
proof -
  have "nat_of_digits (replicate n (CHR ''0'') @ t) = nat_of_digits t" for n t
    by (induction n) (simp_all add: nat_of_digits_def digit_val_def)
  then show ?thesis by (simp add: fixed_digits_def rjust_def)
qed

lemma length_fixed_digits: "length (fixed_digits c s) = max (Suc s) (ndigits c)"
  by (simp add: fixed_digits_def length_rjust ndigits_def)

lemma rjust_rjust: "rjust n c (rjust m c s) = rjust (max n m) c s"
  by (auto simp: rjust_def max_def simp flip: replicate_add append_assoc intro!: arg_cong2 [of _ _ _ _ replicate])

lemma rjust_fixed_digits: "Suc s \<le> n \<Longrightarrow> rjust n (CHR ''0'') (fixed_digits c s) = pad_nat n c"
  by (simp add: fixed_digits_def rjust_rjust pad_nat_def max_absorb1)

lemma map_digit_val_less: "\<forall>c \<in> set s. is_digit c \<Longrightarrow> d \<in> set (map digit_val s) \<Longrightarrow> d < 10"
  by (auto simp: digit_val_less)

lemma map_digit_char_val: "\<forall>c \<in> set s. is_digit c \<Longrightarrow> map digit_char (map digit_val s) = s"
  by (induction s) auto

lemma map_digit_val_char: "\<forall>d \<in> set ds. d < 10 \<Longrightarrow> map digit_val (map digit_char ds) = ds"
  by (induction ds) auto

lemma quantize_Some_Dec:
  "quantize v s = Some q \<Longrightarrow> is_finite q \<Longrightarrow> \<exists>n c. q = Dec n c (- int s) \<and> ndigits c \<le> DECIMAL_PRECISION"
  by (auto simp: quantize_def is_finite_def Let_def split: decimal.splits if_splits)

lemma comp3_packed_value:
  assumes "pack_comp3 v len scale = Inr raw"
  shows "\<exists>n c. quantize v scale = Some (Dec n c (- int scale)) \<and> length raw = len \<and>
           unpack_comp3 raw scale = Inr (Dec (n \<and> c \<noteq> 0) c (- int scale))"
proof -
  from assms obtain q where q: "quantize v scale = Some q" "is_finite q"
    by (auto simp: pack_comp3_def Let_def split: option.splits if_splits)
  then obtain n c where qd: "q = Dec n c (- int scale)" using quantize_Some_Dec by blast
  define total where "total = 2 * len - 1"
  define ds where "ds = pad_nat total c"
  have fits: "int (length (fixed_digits c scale)) \<le> 2 * int len - 1"
    and raw: "raw = bytes_of_nibbles (map digit_val (rjust (nat (2 * int len - 1)) (CHR ''0'') (fixed_digits c scale)) @
                                      [if n \<and> c \<noteq> 0 then 13 else 12])"
    using assms q qd by (auto simp: pack_comp3_def Let_def comp3_digits_Dec dec_lt_zero_def split: if_splits)
  have sc: "Suc scale \<le> total" and dl: "ndigits c \<le> total" and len: "0 < len"
    using fits by (auto simp: total_def length_fixed_digits)
  have tot: "nat (2 * int len - 1) = total" using len by (simp add: total_def)
  have ds: "\<forall>c \<in> set ds. is_digit c" "length ds = total"
    using dl pad_nat_digits by (auto simp: ds_def pad_nat_def length_rjust ndigits_def)
  let ?ns = "map digit_val ds @ [if n \<and> c \<noteq> 0 then 13 else 12]"
  have raw': "raw = bytes_of_nibbles ?ns" using raw sc by (simp add: tot rjust_fixed_digits ds_def)
  have ns: "nibbles raw = ?ns" unfolding raw'
  proof (rule nibbles_bytes_of_nibbles)
    show "even (length ?ns)" using ds len by (simp add: total_def)
    show "\<forall>d \<in> set ?ns. d < 16" using map_digit_val_less [OF ds(1)] by fastforce
  qed
  have l: "length raw = len" unfolding raw' using ds len by (simp add: length_bytes_of_nibbles total_def)
  have no: "\<not> list_ex (\<lambda>d. 9 < d) (map digit_val ds)"
    using map_digit_val_less [OF ds(1)] by (fastforce simp: list_ex_iff)
  have bl: "butlast (nibbles raw) = map digit_val ds" and la: "last (nibbles raw) = (if n \<and> c \<noteq> 0 then 13 else 12)"
    by (simp_all only: ns butlast_snoc last_snoc)
  have val: "nat_of_digits (map digit_char (map digit_val ds)) = c"
    by (simp only: map_digit_char_val [OF ds(1)]) (simp add: ds_def)
  have mn: "min scale (length (map digit_val ds)) = scale" using ds sc by simp
  have "raw \<noteq> []" using l len by auto
  then have "unpack_comp3 raw scale = Inr (Dec (n \<and> c \<noteq> 0) c (- int scale))"
    unfolding unpack_comp3_def Let_def bl la val mn using no by (simp add: list_ex_iff)
  with q qd l show ?thesis by auto
qed

text \<open>C23. A value that packs is read back: the same number of bytes as the field, the quantized
  value, and zero without a sign.\<close>

theorem unpack_pack_comp3:
  assumes "pack_comp3 v len scale = Inr raw"
  shows "\<exists>n c. quantize v scale = Some (Dec n c (- int scale)) \<and> length raw = len \<and>
           unpack_comp3 raw scale = Inr (Dec (n \<and> c \<noteq> 0) c (- int scale))"
  using assms by (rule comp3_packed_value)

lemma comp3_repacked:
  assumes "unpack_comp3 raw scale = Inr d" and "last (nibbles raw) \<in> {12, 13}"
    and "scale < 2 * length raw - 1" and "2 * length raw - 1 \<le> DECIMAL_PRECISION"
    and "dcoeff d \<noteq> 0 \<or> \<not> dneg d"
  shows "pack_comp3 d (length raw) scale = Inr raw"
proof -
  define ns where "ns = nibbles raw"
  define ds where "ds = map digit_char (butlast ns)"
  have raw: "raw \<noteq> []" and lt: "\<forall>d \<in> set (butlast ns). d < 10"
    using assms(1) by (auto simp: unpack_comp3_def ns_def Let_def list_ex_iff split: if_splits)
  then have dg: "\<forall>c \<in> set ds. is_digit c" by (auto simp: ds_def)
  have len: "length ds = 2 * length raw - 1" by (simp add: ds_def ns_def)
  then have ne: "ds \<noteq> []" using raw by (cases raw) auto
  have sc: "min scale (length ds) = scale" "Suc scale \<le> length ds" using assms(3) len by auto
  have d: "d = Dec (last ns = 13) (nat_of_digits ds) (- int scale)"
    using assms(1,2) raw sc(1)
    by (auto simp: unpack_comp3_def ns_def [symmetric] Let_def ds_def split: if_splits)
  define c where "c = nat_of_digits ds"
  have pad: "pad_nat (length ds) c = ds" using pad_nat_of_digits [OF dg ne] by (simp add: c_def)
  have nd: "ndigits c \<le> length ds"
  proof -
    have "length (pad_nat (length ds) c) = max (length ds) (ndigits c)"
      by (simp add: pad_nat_def length_rjust ndigits_def)
    with pad show ?thesis by simp
  qed
  have q: "quantize d scale = Some d" using nd assms(4) len by (simp add: d c_def [symmetric])
  have neg: "dec_lt_zero d = (last ns = 13)" using assms(5) by (auto simp: d dec_lt_zero_def)
  have sign: "(if last ns = 13 then 13 else 12) = last ns" using assms(2) by (auto simp: ns_def)
  have vals: "map digit_val ds = butlast ns" using lt by (simp add: ds_def map_digit_val_char del: map_map)
  have all: "butlast ns @ [last ns] = ns"
    using raw by (intro append_butlast_last_id) (cases raw, auto simp: ns_def nibbles_def)
  have tot: "nat (2 * int (length raw) - 1) = length ds" using raw len by (cases raw) auto
  have "comp3_digits d = fixed_digits c scale" by (simp add: d c_def comp3_digits_Dec)
  moreover have "int (length (fixed_digits c scale)) \<le> 2 * int (length raw) - 1"
    using nd sc(2) len raw by (cases raw) (auto simp: length_fixed_digits)
  moreover have "is_finite d" by (simp add: d is_finite_def)
  ultimately show ?thesis
    using q neg sign vals all sc(2) pad bytes_of_nibbles_nibbles [of raw]
    by (simp add: pack_comp3_def Let_def tot rjust_fixed_digits ns_def)
qed

text \<open>A packed field with a canonical sign nibble and a coefficient within the precision is
  rebuilt byte for byte from its value, negative zero excepted.\<close>

theorem pack_unpack_comp3:
  assumes "unpack_comp3 raw scale = Inr d" and "last (nibbles raw) \<in> {12, 13}"
    and "scale < 2 * length raw - 1" and "2 * length raw - 1 \<le> DECIMAL_PRECISION"
    and "dcoeff d \<noteq> 0 \<or> \<not> dneg d"
  shows "pack_comp3 d (length raw) scale = Inr raw"
  using assms by (rule comp3_repacked)

section \<open>Witnesses\<close>

text \<open>\<open>-123.45\<close> in three bytes: the digits 12345 and the sign nibble D.\<close>

theorem unpack_pack_comp3_witness:
  "\<exists>n c. quantize (Dec True 12345 (- 2)) 2 = Some (Dec n c (- 2)) \<and> unpack_comp3 [0x12, 0x34, 0x5D] 2 = Inr (Dec (n \<and> c \<noteq> 0) c (- 2))"
proof -
  have "pack_comp3 (Dec True 12345 (- 2)) 3 2 = Inr [0x12, 0x34, 0x5D]" by code_simp
  from unpack_pack_comp3 [OF this] show ?thesis by auto
qed

theorem pack_unpack_comp3_witness: "pack_comp3 (Dec True 12345 (- 2)) 3 2 = Inr [0x12, 0x34, 0x5D]"
proof -
  have "unpack_comp3 [0x12, 0x34, 0x5D] 2 = Inr (Dec True 12345 (- 2))" by code_simp
  moreover have "last (nibbles [0x12, 0x34, 0x5D]) \<in> {12, 13}" by code_simp
  ultimately show ?thesis
    using pack_unpack_comp3 [of "[0x12, 0x34, 0x5D]" 2 "Dec True 12345 (- 2)"] by (simp add: DECIMAL_PRECISION_def numeral_3_eq_3)
qed

end
