(* ===== verification/Py_Codec.thy ===== *)
theory Py_Codec
  imports Py_Text
begin

text \<open>
  \<open>codecs.decode(raw, name, "strict")\<close> and \<open>codecs.encode\<close> for the encodings of the manifest:
  \<open>ascii\<close>, \<open>latin-1\<close> and the EBCDIC code page \<open>cp037\<close>, a permutation of the 256 code points.
  A decoding error reports the offset of the first byte without a mapping.
\<close>

record codec =
  dec_byte :: "8 word \<Rightarrow> char option"
  enc_char :: "char \<Rightarrow> 8 word option"

definition cp037_table :: "nat list" where
  "cp037_table = [
     0, 1, 2, 3, 156, 9, 134, 127, 151, 141, 142, 11, 12, 13, 14, 15,
     16, 17, 18, 19, 157, 133, 8, 135, 24, 25, 146, 143, 28, 29, 30, 31,
     128, 129, 130, 131, 132, 10, 23, 27, 136, 137, 138, 139, 140, 5, 6, 7,
     144, 145, 22, 147, 148, 149, 150, 4, 152, 153, 154, 155, 20, 21, 158, 26,
     32, 160, 226, 228, 224, 225, 227, 229, 231, 241, 162, 46, 60, 40, 43, 124,
     38, 233, 234, 235, 232, 237, 238, 239, 236, 223, 33, 36, 42, 41, 59, 172,
     45, 47, 194, 196, 192, 193, 195, 197, 199, 209, 166, 44, 37, 95, 62, 63,
     248, 201, 202, 203, 200, 205, 206, 207, 204, 96, 58, 35, 64, 39, 61, 34,
     216, 97, 98, 99, 100, 101, 102, 103, 104, 105, 171, 187, 240, 253, 254, 177,
     176, 106, 107, 108, 109, 110, 111, 112, 113, 114, 170, 186, 230, 184, 198, 164,
     181, 126, 115, 116, 117, 118, 119, 120, 121, 122, 161, 191, 208, 221, 222, 174,
     94, 163, 165, 183, 169, 167, 182, 188, 189, 190, 91, 93, 175, 168, 180, 215,
     123, 65, 66, 67, 68, 69, 70, 71, 72, 73, 173, 244, 246, 242, 243, 245,
     125, 74, 75, 76, 77, 78, 79, 80, 81, 82, 185, 251, 252, 249, 250, 255,
     92, 247, 83, 84, 85, 86, 87, 88, 89, 90, 178, 212, 214, 210, 211, 213,
     48, 49, 50, 51, 52, 53, 54, 55, 56, 57, 179, 219, 220, 217, 218, 159]"

definition byte_of_char :: "char \<Rightarrow> 8 word" where
  "byte_of_char c = word_of_nat (of_char c)"

definition char_of_byte :: "8 word \<Rightarrow> char" where
  "char_of_byte b = char_of (unat b)"

definition latin1 :: codec where
  "latin1 = \<lparr>dec_byte = (\<lambda>b. Some (char_of_byte b)), enc_char = (\<lambda>c. Some (byte_of_char c))\<rparr>"

definition ascii :: codec where
  "ascii = \<lparr>dec_byte = (\<lambda>b. if unat b < 128 then Some (char_of_byte b) else None),
            enc_char = (\<lambda>c. if (of_char c :: nat) < 128 then Some (byte_of_char c) else None)\<rparr>"

definition cp037 :: codec where
  "cp037 = \<lparr>dec_byte = (\<lambda>b. Some (char_of (cp037_table ! unat b))),
            enc_char = (\<lambda>c. map_option word_of_nat (find (\<lambda>i. cp037_table ! i = of_char c) [0..<256]))\<rparr>"

definition codec_of :: "string \<Rightarrow> codec option" where
  "codec_of name = (let n = py_lower name in
     if n = ''ascii'' then Some ascii else if n = ''latin-1'' then Some latin1
     else if n = ''cp037'' then Some cp037 else None)"

fun decode_from :: "codec \<Rightarrow> nat \<Rightarrow> bytes \<Rightarrow> nat + string" where
  "decode_from cd i [] = Inr []"
| "decode_from cd i (b # bs) = (case dec_byte cd b of
      None \<Rightarrow> Inl i
    | Some c \<Rightarrow> (case decode_from cd (Suc i) bs of Inl j \<Rightarrow> Inl j | Inr s \<Rightarrow> Inr (c # s)))"

definition decode :: "codec \<Rightarrow> bytes \<Rightarrow> nat + string" where
  "decode cd bs = decode_from cd 0 bs"

fun encode :: "codec \<Rightarrow> string \<Rightarrow> bytes option" where
  "encode cd [] = Some []"
| "encode cd (c # s) = (case enc_char cd c of
      None \<Rightarrow> None
    | Some b \<Rightarrow> (case encode cd s of None \<Rightarrow> None | Some bs \<Rightarrow> Some (b # bs)))"

section \<open>What a codec promises\<close>

locale char_codec =
  fixes cd :: codec
  assumes dec_enc: "enc_char cd c = Some b \<Longrightarrow> dec_byte cd b = Some c"
    and enc_dec: "dec_byte cd b = Some c \<Longrightarrow> enc_char cd c = Some b"
begin

lemma decode_from_encode: "encode cd s = Some bs \<Longrightarrow> decode_from cd i bs = Inr s"
  by (induction s arbitrary: bs i) (auto split: option.splits dest: dec_enc)

lemma decode_encode: "encode cd s = Some bs \<Longrightarrow> decode cd bs = Inr s"
  by (simp add: decode_def decode_from_encode)

lemma encode_decode_from: "decode_from cd i bs = Inr s \<Longrightarrow> encode cd s = Some bs"
  by (induction bs arbitrary: s i) (auto split: option.splits sum.splits dest: enc_dec)

lemma encode_decode: "decode cd bs = Inr s \<Longrightarrow> encode cd s = Some bs"
  by (simp add: decode_def encode_decode_from)

end

lemma decode_from_length: "decode_from cd i bs = Inr s \<Longrightarrow> length s = length bs"
  by (induction bs arbitrary: s i) (auto split: option.splits sum.splits)

lemma decode_length: "decode cd bs = Inr s \<Longrightarrow> length s = length bs"
  by (auto simp: decode_def dest: decode_from_length)

lemma decode_from_error: "decode_from cd i bs = Inl j \<Longrightarrow>
  i \<le> j \<and> j < i + length bs \<and> dec_byte cd (bs ! (j - i)) = None"
proof (induction bs arbitrary: i)
  case Nil
  then show ?case by simp
next
  case (Cons b bs)
  show ?case
  proof (cases "dec_byte cd b")
    case None
    with Cons.prems show ?thesis by simp
  next
    case (Some c)
    with Cons.prems have "decode_from cd (Suc i) bs = Inl j" by (simp split: sum.splits)
    from Cons.IH [OF this] show ?thesis by (auto simp: nth_Cons' Suc_diff_Suc)
  qed
qed

lemma unat_byte_less [simp]: "unat (b :: 8 word) < 256"
  using unsigned_less [of b, where 'a = nat] by simp

lemma byte_char_byte [simp]: "byte_of_char (char_of_byte b) = b"
  by (simp add: byte_of_char_def char_of_byte_def)

lemma char_byte_char [simp]: "char_of_byte (byte_of_char c) = c"
proof -
  have "(of_char c :: nat) < 256" by simp
  then have "unat (word_of_nat (of_char c) :: 8 word) = of_char c"
    by (simp add: unsigned_of_nat take_bit_eq_mod)
  then show ?thesis by (simp add: byte_of_char_def char_of_byte_def)
qed

lemma of_char_less [simp]: "(of_char (c :: char) :: nat) < 256"
  by simp

section \<open>The three code pages are codecs\<close>

lemma cp037_distinct: "distinct cp037_table"
  by (simp add: cp037_table_def)

lemma cp037_length: "length cp037_table = 256"
  by (simp add: cp037_table_def)

lemma cp037_points: "list_all (\<lambda>i. i < 256) cp037_table"
  by (simp add: cp037_table_def)

lemma cp037_less: "i < 256 \<Longrightarrow> cp037_table ! i < 256"
  using cp037_points cp037_length by (simp add: list_all_length)

interpretation latin1: char_codec latin1
  by unfold_locales (auto simp: latin1_def)

interpretation ascii: char_codec ascii
  by unfold_locales (auto simp: ascii_def char_of_byte_def byte_of_char_def unsigned_of_nat
      take_bit_eq_mod split: if_splits)

interpretation cp037: char_codec cp037
proof unfold_locales
  fix c b
  assume "enc_char cp037 c = Some b"
  then obtain i where f: "find (\<lambda>i. cp037_table ! i = of_char c) [0..<256] = Some i"
    and b: "b = word_of_nat i" by (auto simp: cp037_def)
  from f have i: "i < 256" "cp037_table ! i = of_char c" by (auto simp: find_Some_iff)
  with b have "unat b = i" by (simp add: unsigned_of_nat take_bit_eq_mod)
  with i show "dec_byte cp037 b = Some c" by (simp add: cp037_def)
next
  fix c b
  assume "dec_byte cp037 b = Some c"
  then have "c = char_of (cp037_table ! unat b)" by (simp add: cp037_def)
  then have c: "cp037_table ! unat b = of_char c" using cp037_less [of "unat b"] by simp
  have "find (\<lambda>i. cp037_table ! i = of_char c) [0..<256] = Some (unat b)"
  proof -
    have "cp037_table ! j \<noteq> of_char c" if "j < unat b" for j
    proof -
      have "j < 256" using that unat_byte_less [of b] by linarith
      then have "j < length cp037_table" "unat b < length cp037_table"
        using cp037_length by simp_all
      from nth_eq_iff_index_eq [OF cp037_distinct this]
      have "cp037_table ! j \<noteq> cp037_table ! unat b" using that by simp
      with c show ?thesis by simp
    qed
    then have "\<forall>j < unat b. cp037_table ! ([0..<256] ! j) \<noteq> of_char c"
      using unat_byte_less [of b] by (metis add_0 less_trans nth_upt)
    with c show ?thesis unfolding find_Some_iff by (intro exI [of _ "unat b"]) auto
  qed
  then show "enc_char cp037 c = Some b" by (simp add: cp037_def)
qed

lemma codec_of_char_codec: "codec_of name = Some cd \<Longrightarrow> char_codec cd"
  using latin1.char_codec_axioms ascii.char_codec_axioms cp037.char_codec_axioms
  by (auto simp: codec_of_def Let_def split: if_splits)

end
