(* ===== verification/Ldm_Convert.thy ===== *)
theory Ldm_Convert
  imports Ldm_Typemap Ldm_Numeric Py_Codec
begin

text \<open>
  Conversion of one fixed-width record (\<open>migration/job/ldm/convert.py\<close>): field by field, the
  first field that cannot be converted rejects the record with a rule, a message and an
  SQLSTATE; and the writer of such records.
\<close>

section \<open>Texts of Python values\<close>

text \<open>\<open>repr\<close> of a text: quotes, escapes of unprintable characters.\<close>

definition repr_char :: "char \<Rightarrow> char \<Rightarrow> string" where
  "repr_char q c = (let n = of_char c :: nat in
     if c = q \<or> c = CHR 0x5C then [CHR 0x5C, c]
     else if n = 9 then [CHR 0x5C, CHR ''t'']
     else if n = 10 then [CHR 0x5C, CHR ''n'']
     else if n = 13 then [CHR 0x5C, CHR ''r'']
     else if 32 \<le> n \<and> n \<le> 126 \<or> 161 \<le> n \<and> n \<noteq> 173 then [c]
     else [CHR 0x5C, CHR ''x'', hex_digit (n div 16), hex_digit (n mod 16)])"

definition py_repr :: "string \<Rightarrow> string" where
  "py_repr s = (let q = (if CHR 0x27 \<in> set s \<and> CHR 0x22 \<notin> set s then CHR 0x22 else CHR 0x27)
     in q # concat (map (repr_char q) s) @ [q])"

text \<open>\<open>str\<close> of a decimal: scientific notation outside of the plain range.\<close>

definition signed_exp :: "int \<Rightarrow> string" where
  "signed_exp e = ''E'' @ (if e < 0 then ''-'' else ''+'') @ str_nat (nat \<bar>e\<bar>)"

definition dec_str :: "decimal \<Rightarrow> string" where
  "dec_str d = (case d of
       DInf n \<Rightarrow> (if n then ''-'' else []) @ ''Infinity''
     | DNaN \<Rightarrow> ''NaN''
     | Dec n c e \<Rightarrow>
         let w = str_nat c; left = e + int (length w);
             dot = (if e \<le> 0 \<and> - 6 < left then left else 1);
             mant = (if dot \<le> 0 then ''0.'' @ replicate (nat (- dot)) (CHR ''0'') @ w
                     else if int (length w) \<le> dot then w @ replicate (nat dot - length w) (CHR ''0'')
                     else take (nat dot) w @ ''.'' @ drop (nat dot) w)
         in (if n then ''-'' else []) @ mant @ (if left = dot then [] else signed_exp (left - dot)))"

section \<open>TIMESTAMP(12)\<close>

record timestamp12 =
  ts_text :: string
  ts_date :: date
  ts_hour :: nat
  ts_minute :: nat
  ts_second :: nat
  ts_micro :: nat
  ts_nanos_tail :: nat

definition TS12_RE :: re where
  "TS12_RE = Seqs [
     Grp ''1'' (Rep 4 Digit), Lit ''-'', Grp ''2'' (Rep 2 Digit), Lit ''-'', Grp ''3'' (Rep 2 Digit), Lit ''-'',
     Grp ''4'' (Rep 2 Digit), Lit ''.'', Grp ''5'' (Rep 2 Digit), Lit ''.'', Grp ''6'' (Rep 2 Digit), Lit ''.'',
     Grp ''7'' (Rep 12 Digit), EndZ]"

definition DATE8_RE :: re where
  "DATE8_RE = Seqs [Grp ''1'' (Rep 4 Digit), Grp ''2'' (Rep 2 Digit), Grp ''3'' (Rep 2 Digit), EndZ]"

definition group_nat :: "captures \<Rightarrow> string \<Rightarrow> nat" where
  "group_nat m g = (case group m g of None \<Rightarrow> 0 | Some t \<Rightarrow> nat_of_digits t)"

text \<open>None is \<open>ValueError\<close>: not a literal, or not a calendar time.\<close>

definition ts12_parse :: "string \<Rightarrow> timestamp12 option" where
  "ts12_parse txt = (case re_match TS12_RE txt of
       None \<Rightarrow> None
     | Some m \<Rightarrow>
         let frac = (case group m ''7'' of None \<Rightarrow> [] | Some f \<Rightarrow> f) in
         (case mk_date (group_nat m ''1'') (group_nat m ''2'') (group_nat m ''3'') of
            None \<Rightarrow> None
          | Some d \<Rightarrow>
              if group_nat m ''4'' < 24 \<and> group_nat m ''5'' < 60 \<and> group_nat m ''6'' < 60
              then Some \<lparr>ts_text = txt, ts_date = d, ts_hour = group_nat m ''4'',
                         ts_minute = group_nat m ''5'', ts_second = group_nat m ''6'',
                         ts_micro = nat_of_digits (take 6 frac),
                         ts_nanos_tail = nat_of_digits (drop 7 frac)\<rparr>
              else None))"

definition py_slice :: "nat \<Rightarrow> nat \<Rightarrow> 'a list \<Rightarrow> 'a list" where
  "py_slice i j s = take (j - i) (drop i s)"

definition ts_fraction7 :: "timestamp12 \<Rightarrow> string" where
  "ts_fraction7 t = py_slice 20 27 (ts_text t)"

definition datetime2_literal :: "timestamp12 \<Rightarrow> string" where
  "datetime2_literal ts = (let t = ts_text ts in
     py_slice 0 10 t @ '' '' @ py_slice 11 13 t @ '':'' @ py_slice 14 16 t @ '':'' @ py_slice 17 19 t @ ''.'' @
     ts_fraction7 ts)"

text \<open>\<open>s.split(c, 1)\<close> into the text before and after the first \<open>c\<close>.\<close>

definition split_once :: "char \<Rightarrow> string \<Rightarrow> string \<times> string option" where
  "split_once c s = split_at_char (\<lambda>x. x = c) s"

text \<open>\<open>format(i, "05d")\<close>\<close>

definition format_05d :: "int \<Rightarrow> string" where
  "format_05d i = (if i < 0 then CHR ''-'' # rjust 4 (CHR ''0'') (str_nat (nat (- i)))
                   else rjust 5 (CHR ''0'') (str_nat (nat i)))"

definition ts12_from_target :: "string \<Rightarrow> int \<Rightarrow> timestamp12 option" where
  "ts12_from_target dt2 tail =
     (let d = take 10 dt2; t = drop 11 dt2 in
      case split_once (CHR '':'') t of
        (hh, None) \<Rightarrow> None
      | (hh, Some rest0) \<Rightarrow> (case split_once (CHR '':'') rest0 of
            (mm, None) \<Rightarrow> None
          | (mm, Some rest) \<Rightarrow>
              let (ss, fr) = split_once (CHR ''.'') rest;
                  frac = take 7 ((case fr of None \<Rightarrow> [] | Some f \<Rightarrow> f) @ ''0000000'')
              in ts12_parse (d @ ''-'' @ hh @ ''.'' @ mm @ ''.'' @ ss @ ''.'' @ frac @ format_05d tail)))"

section \<open>Values and outcomes\<close>

datatype val =
    VNull
  | VText string
  | VInt int
  | VDec decimal
  | VBytes bytes
  | VTs timestamp12
  | VDate date
  | VDatetime date nat nat nat nat

record field_error =
  fe_column :: string
  fe_rule :: string
  fe_error :: string
  fe_bytes :: bytes
  fe_sqlstate :: "string option"
  fe_native_error :: "int option"

record converted =
  cv_source_key :: string
  cv_raw :: bytes
  cv_values :: "(string \<times> val) list"
  cv_source_text :: "(string \<times> val) list"
  cv_error :: "field_error option"

definition cv_ok :: "converted \<Rightarrow> bool" where
  "cv_ok r \<longleftrightarrow> cv_error r = None"

text \<open>\<open>target_row\<close>: a timestamp also gives its tail column.\<close>

definition target_row :: "converted \<Rightarrow> (string \<times> val) list" where
  "target_row r = foldl (\<lambda>out (col, v). case v of
       VTs t \<Rightarrow> dict_set (col @ ''_NANOS_TAIL'') (VInt (int (ts_nanos_tail t))) (dict_set col v out)
     | _ \<Rightarrow> dict_set col v out) [] (cv_values r)"

text \<open>What stops the conversion of a field: a reject, or an exception that is not caught.\<close>

datatype stop = Reject string string "string option" | Crash ldm_error

section \<open>Fields\<close>

datatype decode_result = Decoded string | Undecodable nat | UnknownCodec

definition decode_text :: "bytes \<Rightarrow> string \<Rightarrow> decode_result" where
  "decode_text raw enc = (case codec_of enc of
       None \<Rightarrow> UnknownCodec
     | Some cd \<Rightarrow> (case decode cd raw of Inl i \<Rightarrow> Undecodable i | Inr t \<Rightarrow> Decoded t))"

definition is_control :: "char \<Rightarrow> bool" where
  "is_control c \<longleftrightarrow> (let o' = of_char c :: nat in o' < 32 \<or> 127 \<le> o' \<and> o' \<le> 159)"

definition control_byte :: "string \<Rightarrow> bytes \<Rightarrow> (nat \<times> 8 word) option" where
  "control_byte txt raw = map_option (\<lambda>i. (i, if i < length raw then raw ! i else byte_of_char (txt ! i)))
     (find (\<lambda>i. is_control (txt ! i)) [0..<length txt])"

definition decimal_fits :: "decimal \<Rightarrow> nat \<Rightarrow> nat \<Rightarrow> bool" where
  "decimal_fits d precision scale = (case d of
       Dec _ c e \<Rightarrow> int (ndigits c) + e \<le> int precision - int scale
     | _ \<Rightarrow> False)"

definition unmappable :: "string \<Rightarrow> 8 word \<Rightarrow> nat \<Rightarrow> stop" where
  "unmappable label b i = Reject ''CCSID_UNMAPPABLE''
     (label @ '' byte X'' @ py_quote (ascii_upper (hex_byte b)) @ '' at offset '' @ str_nat i @
      '' has no UTF-8 mapping'') None"

definition hex_literal :: "bytes \<Rightarrow> string" where
  "hex_literal raw = ''X'' @ py_quote (py_HEX raw)"

definition apply_value_map :: "column_spec \<Rightarrow> string \<Rightarrow> string" where
  "apply_value_map spec v = (case map_of (cs_value_map spec) (rstrip_sp v) of
       None \<Rightarrow> v
     | Some mapped \<Rightarrow> if cs_trim spec then mapped else ljust (length v) (CHR '' '') mapped)"

definition convert_char :: "bytes \<Rightarrow> column_spec \<Rightarrow> string \<Rightarrow> stop + (val \<times> val)" where
  "convert_char raw spec txt = (case control_byte txt raw of
       Some (off, b) \<Rightarrow>
         Inl (unmappable (if py_lower (cs_encoding spec) = ''cp037'' then ''CCSID037'' else cs_encoding spec) b off)
     | None \<Rightarrow>
         let value = apply_value_map spec (if cs_trim spec then rstrip_sp txt else txt) in
         if cs_target_length spec \<noteq> 0 \<and> cs_target_length spec < length value
         then Inl (Reject ''STRING_TRUNCATION''
                (''value of length '' @ str_nat (length value) @ '' exceeds '' @ cs_target_type spec) (Some ''22001''))
         else Inr (VText value, VText txt))"

text \<open>The text of the \<open>ValueError\<close> of \<open>date(y, m, d)\<close>.\<close>

definition date_error :: "nat \<Rightarrow> nat \<Rightarrow> nat \<Rightarrow> string" where
  "date_error y m d =
     (if y < 1 \<or> 9999 < y then ''year '' @ str_nat y @ '' is out of range''
      else if m < 1 \<or> 12 < m then ''month must be in 1..12''
      else ''day is out of range for month'')"

definition convert_date8 :: "bytes \<Rightarrow> string \<Rightarrow> stop + (val \<times> val)" where
  "convert_date8 raw txt = (case re_match DATE8_RE txt of
       None \<Rightarrow> Inl (Reject ''DATE_INVALID''
         (''DATE text '' @ hex_literal raw @
          '' rejected by target: Conversion failed when converting date and/or time from character string.'')
         (Some ''22007''))
     | Some m \<Rightarrow>
         let y = group_nat m ''1''; mo = group_nat m ''2''; d = group_nat m ''3'' in
         (case mk_date y mo d of
            Some dt \<Rightarrow> Inr (VDate dt, VText txt)
          | None \<Rightarrow> Inl (Reject ''DATE_INVALID''
              (''DATE text '' @ py_repr txt @ '' is not a calendar date: '' @ date_error y mo d) (Some ''22007''))))"

definition convert_ts12 :: "bytes \<Rightarrow> string \<Rightarrow> stop + (val \<times> val)" where
  "convert_ts12 raw txt = (case ts12_parse txt of
       Some t \<Rightarrow> Inr (VTs t, VText txt)
     | None \<Rightarrow> Inl (Reject ''TIMESTAMP_INVALID''
         (''TIMESTAMP(12) text '' @ hex_literal raw @ '' is invalid'') (Some ''22007'')))"

definition convert_text_field :: "bytes \<Rightarrow> column_spec \<Rightarrow> stop + (val \<times> val)" where
  "convert_text_field raw spec = (case decode_text raw (cs_encoding spec) of
       UnknownCodec \<Rightarrow> Inl (Crash (PyError ''LookupError''))
     | Undecodable i \<Rightarrow> Inl (unmappable (cs_encoding spec) (raw ! i) i)
     | Decoded txt \<Rightarrow>
         if cs_kind spec = KChar then convert_char raw spec txt
         else if cs_kind spec = KDate8 then convert_date8 raw txt
         else convert_ts12 raw txt)"

text \<open>\<open>int(d)\<close> of a finite decimal: the fraction is dropped.\<close>

definition int_of_decimal :: "decimal \<Rightarrow> int" where
  "int_of_decimal d = (case d of
       Dec n c e \<Rightarrow> (if n then - 1 else 1) * int (if 0 \<le> e then c * 10 ^ nat e else c div 10 ^ nat (- e))
     | _ \<Rightarrow> 0)"

definition display_invalid :: "bytes \<Rightarrow> stop" where
  "display_invalid raw = Reject ''NUMERIC_INVALID''
     (''display numeric '' @ hex_literal raw @ '' is invalid'') (Some ''22018'')"

definition packed_stop :: "py_exc \<Rightarrow> stop" where
  "packed_stop e = (case e of
       ValueError t \<Rightarrow> Reject ''PACKED_INVALID'' t (Some ''22018'')
     | IndexError \<Rightarrow> Crash (PyError ''IndexError'')
     | InvalidOperation \<Rightarrow> Crash (PyError ''InvalidOperation'')
     | OverflowError \<Rightarrow> Crash (PyError ''OverflowError''))"

fun map_left :: "('e \<Rightarrow> 'f) \<Rightarrow> 'e + 'a \<Rightarrow> 'f + 'a" where
  "map_left f (Inl e) = Inl (f e)"
| "map_left f (Inr a) = Inr a"

definition read_int :: "bytes \<Rightarrow> column_spec \<Rightarrow> stop + int" where
  "read_int raw spec = (case f_usage (cs_field spec) of
       Comp \<Rightarrow> Inr (int_from_bytes raw)
     | Display \<Rightarrow> (case decode_text raw (cs_encoding spec) of
           UnknownCodec \<Rightarrow> Inl (Crash (PyError ''LookupError''))
         | Undecodable _ \<Rightarrow> Inl (display_invalid raw)
         | Decoded t \<Rightarrow> (case py_int t of Some i \<Rightarrow> Inr i | None \<Rightarrow> Inl (display_invalid raw)))
     | Comp3 \<Rightarrow> bindE (map_left packed_stop (unpack_comp3 raw 0)) (\<lambda>d. Inr (int_of_decimal d)))"

definition int_bits :: "string \<Rightarrow> nat" where
  "int_bits target_type =
     (case map_of [(''SMALLINT'', 15), (''INT'', 31), (''INTEGER'', 31), (''BIGINT'', 63), (''TINYINT'', 8)]
             (takeWhile (\<lambda>c. c \<noteq> CHR ''('') target_type) of
        Some b \<Rightarrow> b | None \<Rightarrow> 63)"

definition convert_int :: "bytes \<Rightarrow> column_spec \<Rightarrow> stop + (val \<times> val)" where
  "convert_int raw spec = bindE (read_int raw spec) (\<lambda>value.
     let bits = int_bits (cs_target_type spec) in
     if - (2 ^ bits) \<le> value \<and> value < 2 ^ bits then Inr (VInt value, VInt value)
     else Inl (Reject ''INTEGER_OVERFLOW''
            (''value '' @ str_int value @ '' exceeds '' @ cs_target_type spec) (Some ''22003'')))"

text \<open>\<open>s[:i]\<close> and \<open>s[i:]\<close> with a possibly negative \<open>i\<close>.\<close>

definition py_index :: "int \<Rightarrow> 'a list \<Rightarrow> nat" where
  "py_index i s = (if 0 \<le> i then nat i else nat (int (length s) + i))"

definition read_decimal :: "bytes \<Rightarrow> column_spec \<Rightarrow> stop + decimal" where
  "read_decimal raw spec = (let f = cs_field spec in case f_usage f of
       Comp3 \<Rightarrow> map_left packed_stop (unpack_comp3 raw (f_scale f))
     | Display \<Rightarrow> (case decode_text raw (cs_encoding spec) of
           UnknownCodec \<Rightarrow> Inl (Crash (PyError ''LookupError''))
         | Undecodable _ \<Rightarrow> Inl (display_invalid raw)
         | Decoded s \<Rightarrow>
             let i = py_index (int (length s) - int (f_scale f)) s in
             (case decimal_of_text (if f_scale f \<noteq> 0 then take i s @ ''.'' @ drop i s else s) of
                Some d \<Rightarrow> Inr d | None \<Rightarrow> Inl (display_invalid raw)))
     | Comp \<Rightarrow> let i = int_from_bytes raw in Inr (Dec (i < 0) (nat \<bar>i\<bar>) (- int (f_scale f))))"

definition convert_decimal :: "bytes \<Rightarrow> column_spec \<Rightarrow> stop + (val \<times> val)" where
  "convert_decimal raw spec = bindE (read_decimal raw spec) (\<lambda>d.
     if decimal_fits d (cs_target_precision spec) (cs_target_scale spec) then Inr (VDec d, VDec d)
     else Inl (Reject ''DECIMAL_OVERFLOW''
            (''value '' @ dec_str d @ '' exceeds '' @ cs_target_type spec) (Some ''22003'')))"

definition convert_field :: "bytes \<Rightarrow> column_spec \<Rightarrow> stop + (val \<times> val)" where
  "convert_field raw spec = (case cs_kind spec of
       KBinary \<Rightarrow> Inr (VBytes raw, VBytes raw)
     | KInt \<Rightarrow> convert_int raw spec
     | KDecimal \<Rightarrow> convert_decimal raw spec
     | _ \<Rightarrow> convert_text_field raw spec)"

section \<open>Records\<close>

definition spec_slice :: "column_spec \<Rightarrow> bytes \<Rightarrow> bytes" where
  "spec_slice spec rec = f_slice (cs_field spec) rec"

definition source_key_of :: "bytes \<Rightarrow> column_spec list \<Rightarrow> ldm_error + string" where
  "source_key_of rec specs =
     bindE (mapE (\<lambda>s. case decode_text (spec_slice s rec) (cs_encoding s) of
                Decoded t \<Rightarrow> Inr t
              | Undecodable _ \<Rightarrow> Inl (PyError ''UnicodeDecodeError'')
              | UnknownCodec \<Rightarrow> Inl (PyError ''LookupError''))
             (filter cs_is_key specs))
       (\<lambda>parts. Inr (py_join ''|'' parts))"

fun convert_fields :: "column_spec list \<Rightarrow> converted \<Rightarrow> ldm_error + converted" where
  "convert_fields [] r = Inr r"
| "convert_fields (spec # specs) r =
     (let raw = spec_slice spec (cv_raw r) in
      case convert_field raw spec of
        Inl (Crash e) \<Rightarrow> Inl e
      | Inl (Reject rule msg state) \<Rightarrow>
          Inr (r\<lparr>cv_error := Some \<lparr>fe_column = cs_name spec, fe_rule = rule, fe_error = msg, fe_bytes = raw,
                                   fe_sqlstate = state, fe_native_error = None\<rparr>\<rparr>)
      | Inr (value, txt) \<Rightarrow>
          convert_fields specs (r\<lparr>cv_values := dict_set (cs_name spec) value (cv_values r),
                                  cv_source_text := dict_set (cs_name spec) txt (cv_source_text r)\<rparr>))"

definition convert_record :: "bytes \<Rightarrow> column_spec list \<Rightarrow> ldm_error + converted" where
  "convert_record rec specs = bindE (source_key_of rec specs) (\<lambda>key.
     convert_fields specs \<lparr>cv_source_key = key, cv_raw = rec, cv_values = [], cv_source_text = [],
                           cv_error = None\<rparr>)"

section \<open>Writing a record\<close>

text \<open>\<open>int(v or 0)\<close> and \<open>Decimal(v or 0)\<close>.\<close>

definition val_int :: "val \<Rightarrow> ldm_error + int" where
  "val_int v = (case v of
       VNull \<Rightarrow> Inr 0
     | VInt i \<Rightarrow> Inr i
     | VDec d \<Rightarrow> (case d of
           Dec _ _ _ \<Rightarrow> Inr (int_of_decimal d)
         | DInf _ \<Rightarrow> Inl (PyError ''OverflowError'')
         | DNaN \<Rightarrow> Inl (PyError ''ValueError''))
     | VText t \<Rightarrow> if t = [] then Inr 0
         else (case py_int t of Some i \<Rightarrow> Inr i | None \<Rightarrow> Inl (PyError ''ValueError''))
     | VBytes b \<Rightarrow> if b = [] then Inr 0 else Inl (PyError ''TypeError'')
     | _ \<Rightarrow> Inl (PyError ''TypeError''))"

definition val_decimal :: "val \<Rightarrow> ldm_error + decimal" where
  "val_decimal v = (case v of
       VNull \<Rightarrow> Inr (Dec False 0 0)
     | VInt i \<Rightarrow> Inr (Dec (i < 0) (nat \<bar>i\<bar>) 0)
     | VDec d \<Rightarrow> Inr (case d of Dec _ 0 _ \<Rightarrow> Dec False 0 0 | _ \<Rightarrow> d)
     | VText t \<Rightarrow> if t = [] then Inr (Dec False 0 0)
         else (case decimal_of_text t of Some d \<Rightarrow> Inr d | None \<Rightarrow> Inl (PyError ''InvalidOperation''))
     | VBytes b \<Rightarrow> if b = [] then Inr (Dec False 0 0) else Inl (PyError ''TypeError'')
     | _ \<Rightarrow> Inl (PyError ''TypeError''))"

text \<open>\<open>str(dt)\<close> of a \<open>datetime\<close>: the microseconds are left out when zero.\<close>

definition datetime_str :: "date \<Rightarrow> nat \<Rightarrow> nat \<Rightarrow> nat \<Rightarrow> nat \<Rightarrow> string" where
  "datetime_str d h mi s us =
     isoformat d @ '' '' @ pad_nat 2 h @ '':'' @ pad_nat 2 mi @ '':'' @ pad_nat 2 s @
     (if us = 0 then [] else ''.'' @ pad_nat 6 us)"

text \<open>The text of a value: \<open>v.text\<close> of a timestamp, nothing of None, else \<open>str(v)\<close>.\<close>

definition val_text :: "val \<Rightarrow> string" where
  "val_text v = (case v of
       VNull \<Rightarrow> []
     | VText t \<Rightarrow> t
     | VInt i \<Rightarrow> str_int i
     | VDec d \<Rightarrow> dec_str d
     | VTs t \<Rightarrow> ts_text t
     | VDate d \<Rightarrow> isoformat d
     | VDatetime d h mi s us \<Rightarrow> datetime_str d h mi s us
     | VBytes b \<Rightarrow> [])"

definition encode_text :: "string \<Rightarrow> string \<Rightarrow> ldm_error + bytes" where
  "encode_text enc t = (case codec_of enc of
       None \<Rightarrow> Inl (PyError ''LookupError'')
     | Some cd \<Rightarrow> (case encode cd t of None \<Rightarrow> Inl (PyError ''UnicodeEncodeError'') | Some b \<Rightarrow> Inr b))"

definition py_error :: "py_exc \<Rightarrow> ldm_error" where
  "py_error e = (case e of
       ValueError t \<Rightarrow> PyError ''ValueError''
     | IndexError \<Rightarrow> PyError ''IndexError''
     | InvalidOperation \<Rightarrow> PyError ''InvalidOperation''
     | OverflowError \<Rightarrow> PyError ''OverflowError'')"

definition encode_numeric :: "val \<Rightarrow> column_spec \<Rightarrow> ldm_error + bytes" where
  "encode_numeric v spec = (let f = cs_field spec in case f_usage f of
       Comp \<Rightarrow> bindE (val_int v) (\<lambda>i. map_left py_error (int_to_bytes i (f_length f)))
     | Comp3 \<Rightarrow> bindE (val_decimal v) (\<lambda>d. map_left py_error (pack_comp3 d (f_length f) (f_scale f)))
     | Display \<Rightarrow> bindE (val_decimal v) (\<lambda>d.
         bindE (if f_scale f = 0 then Inr d
                else (case quantize d (f_scale f) of Some q \<Rightarrow> Inr q | None \<Rightarrow> Inl (PyError ''InvalidOperation''))) (\<lambda>q.
         encode_text (cs_encoding spec) (rjust (f_length f) (CHR ''0'') (comp3_digits q)))))"

definition encode_field :: "val \<Rightarrow> column_spec \<Rightarrow> ldm_error + bytes" where
  "encode_field v spec = (let f = cs_field spec in
     bindE (case v of
              VBytes b \<Rightarrow> Inr (ljust (f_length f) (if py_lower (cs_encoding spec) = ''cp037'' then 64 else 32) b)
            | _ \<Rightarrow> if f_is_numeric f then encode_numeric v spec
                   else encode_text (cs_encoding spec) (ljust (f_length f) (CHR '' '') (val_text v)))
       (\<lambda>b. if length b \<noteq> f_length f then Inl (PyError ''ValueError'') else Inr b))"

text \<open>\<open>out[i : i + len(b)] = b\<close> on a bytearray.\<close>

definition splice :: "nat \<Rightarrow> bytes \<Rightarrow> bytes \<Rightarrow> bytes" where
  "splice i b out = take i out @ b @ drop (i + length b) out"

definition encode_record :: "(string \<times> val) list \<Rightarrow> column_spec list \<Rightarrow> nat \<Rightarrow> ldm_error + bytes" where
  "encode_record values specs record_length =
     foldE (\<lambda>spec out.
         bindE (encode_field (case map_of values (cs_name spec) of None \<Rightarrow> VNull | Some v \<Rightarrow> v) spec)
           (\<lambda>b. Inr (splice (f_offset (cs_field spec)) b out)))
       specs (replicate record_length 32)"

end
