(* ===== verification/Ldm_Convert_Facts.thy ===== *)
theory Ldm_Convert_Facts
  imports Ldm_Convert
begin

text \<open>
  What conversion guarantees: it stops at the first field that fails, what it accepts fits
  the target column, timestamps survive the trip through the target, and a written record
  is read back.
\<close>

section \<open>The first failing field\<close>

lemma map_fst_dict_set: "k \<notin> fst ` set d \<Longrightarrow> map fst (dict_set k v d) = map fst d @ [k]"
  by (induction d) auto

definition conversion_stopped :: "column_spec \<Rightarrow> converted \<Rightarrow> bool" where
  "conversion_stopped s r \<longleftrightarrow> (\<exists>e. cv_error r = Some e \<and> fe_column e = cs_name s \<and>
     fe_bytes e = spec_slice s (cv_raw r) \<and>
     convert_field (spec_slice s (cv_raw r)) s = Inl (Reject (fe_rule e) (fe_error e) (fe_sqlstate e)))"

definition field_converted :: "column_spec \<Rightarrow> converted \<Rightarrow> bool" where
  "field_converted s r \<longleftrightarrow> (\<exists>v t. convert_field (spec_slice s (cv_raw r)) s = Inr (v, t) \<and>
     map_of (cv_values r) (cs_name s) = Some v \<and> map_of (cv_source_text r) (cs_name s) = Some t)"

lemma convert_fields_run:
  assumes "convert_fields specs r0 = Inr r" and "cv_error r0 = None"
    and "distinct (map cs_name specs)" and "fst ` set (cv_values r0) \<inter> cs_name ` set specs = {}"
  shows "cv_raw r = cv_raw r0 \<and>
    (\<forall>k. k \<notin> cs_name ` set specs \<longrightarrow> map_of (cv_values r) k = map_of (cv_values r0) k \<and>
          map_of (cv_source_text r) k = map_of (cv_source_text r0) k) \<and>
    (\<exists>pre post. specs = pre @ post \<and> (\<forall>s \<in> set pre. field_converted s r) \<and>
       map fst (cv_values r) = map fst (cv_values r0) @ map cs_name pre \<and>
       (case post of [] \<Rightarrow> cv_error r = None | s # _ \<Rightarrow> conversion_stopped s r))"
  using assms
proof (induction specs arbitrary: r0)
  case Nil
  then show ?case by simp
next
  case (Cons s specs)
  show ?case
  proof (cases "convert_field (spec_slice s (cv_raw r0)) s")
    case (Inl st)
    show ?thesis
    proof (cases st)
      case (Reject rule msg state)
      let ?e = "\<lparr>fe_column = cs_name s, fe_rule = rule, fe_error = msg, fe_bytes = spec_slice s (cv_raw r0),
                 fe_sqlstate = state, fe_native_error = None\<rparr>"
      have r: "r = r0\<lparr>cv_error := Some ?e\<rparr>" using Cons.prems(1) Inl Reject by (simp add: Let_def)
      then have "conversion_stopped s r" using Inl Reject by (simp add: conversion_stopped_def)
      then show ?thesis by (intro conjI exI [of _ "[]"] exI [of _ "s # specs"]) (simp_all add: r)
    next
      case (Crash e)
      with Cons.prems(1) Inl show ?thesis by (simp add: Let_def)
    qed
  next
    case (Inr vt)
    obtain v t where vt: "vt = (v, t)" by (cases vt)
    define r1 where "r1 = r0\<lparr>cv_values := dict_set (cs_name s) v (cv_values r0),
                             cv_source_text := dict_set (cs_name s) t (cv_source_text r0)\<rparr>"
    have run: "convert_fields specs r1 = Inr r" using Cons.prems(1) Inr vt by (simp add: Let_def r1_def)
    have keys: "map fst (cv_values r1) = map fst (cv_values r0) @ [cs_name s]"
      using Cons.prems(4) by (simp add: r1_def map_fst_dict_set)
    then have dom: "fst ` set (cv_values r1) = insert (cs_name s) (fst ` set (cv_values r0))"
      by (metis list.set(2) list.simps(15) list.set_map set_append Un_insert_right Un_empty_right empty_set)
    from Cons.IH [OF run] have IH: "cv_raw r = cv_raw r1"
      "\<forall>k. k \<notin> cs_name ` set specs \<longrightarrow> map_of (cv_values r) k = map_of (cv_values r1) k \<and>
          map_of (cv_source_text r) k = map_of (cv_source_text r1) k"
      "\<exists>pre post. specs = pre @ post \<and> (\<forall>s \<in> set pre. field_converted s r) \<and>
         map fst (cv_values r) = map fst (cv_values r1) @ map cs_name pre \<and>
         (case post of [] \<Rightarrow> cv_error r = None | s # _ \<Rightarrow> conversion_stopped s r)"
      using Cons.prems dom by (auto simp: r1_def)
    from IH(3) obtain pre post where split: "specs = pre @ post" "\<forall>s \<in> set pre. field_converted s r"
      "map fst (cv_values r) = map fst (cv_values r1) @ map cs_name pre"
      "case post of [] \<Rightarrow> cv_error r = None | s # _ \<Rightarrow> conversion_stopped s r" by blast
    have "map_of (cv_values r) (cs_name s) = Some v" "map_of (cv_source_text r) (cs_name s) = Some t"
      using IH(2) Cons.prems(3) by (auto simp: r1_def)
    moreover have "cv_raw r = cv_raw r0" using IH(1) by (simp add: r1_def)
    ultimately have conv: "field_converted s r" using Inr vt by (simp add: field_converted_def)
    have "\<forall>k. k \<notin> cs_name ` set (s # specs) \<longrightarrow> map_of (cv_values r) k = map_of (cv_values r0) k \<and>
          map_of (cv_source_text r) k = map_of (cv_source_text r0) k"
      using IH(2) by (auto simp: r1_def)
    moreover have "\<exists>pre post. s # specs = pre @ post \<and> (\<forall>s \<in> set pre. field_converted s r) \<and>
         map fst (cv_values r) = map fst (cv_values r0) @ map cs_name pre \<and>
         (case post of [] \<Rightarrow> cv_error r = None | s # _ \<Rightarrow> conversion_stopped s r)"
      using split conv keys by (intro exI [of _ "s # pre"] exI [of _ post]) simp
    ultimately show ?thesis using IH(1) by (simp add: r1_def)
  qed
qed

lemma convert_record_prefix:
  assumes "convert_record rec specs = Inr r" and "distinct (map cs_name specs)"
  shows "\<exists>pre post. specs = pre @ post \<and> map fst (cv_values r) = map cs_name pre \<and>
    (\<forall>s \<in> set pre. field_converted s r) \<and> cv_raw r = rec \<and>
    (case post of [] \<Rightarrow> cv_ok r | s # _ \<Rightarrow> conversion_stopped s r)"
proof -
  from assms(1) obtain key where
    run: "convert_fields specs \<lparr>cv_source_key = key, cv_raw = rec, cv_values = [], cv_source_text = [], cv_error = None\<rparr> = Inr r"
    by (auto simp: convert_record_def)
  from convert_fields_run [OF run] assms(2) obtain pre post where
    "cv_raw r = rec" "specs = pre @ post" "\<forall>s \<in> set pre. field_converted s r"
    "map fst (cv_values r) = map cs_name pre"
    "case post of [] \<Rightarrow> cv_error r = None | s # _ \<Rightarrow> conversion_stopped s r" by auto
  then show ?thesis unfolding cv_ok_def by blast
qed

text \<open>A converted record has the values of a prefix of its columns, in their order, and an
  error exactly when a column is left: the error is the reject of the first column that does
  not convert, with its name and its bytes, and nothing after it is looked at.\<close>

theorem convert_record_first_error:
  assumes "convert_record rec specs = Inr r" and "distinct (map cs_name specs)"
  shows "\<exists>pre post. specs = pre @ post \<and> map fst (cv_values r) = map cs_name pre \<and>
    (\<forall>s \<in> set pre. field_converted s r) \<and> cv_raw r = rec \<and>
    (case post of [] \<Rightarrow> cv_ok r | s # _ \<Rightarrow> conversion_stopped s r)"
  using assms by (rule convert_record_prefix)

section \<open>What is accepted fits the target\<close>

text \<open>The contract of a target column on the values it is given.\<close>

definition val_fits :: "column_spec \<Rightarrow> val \<Rightarrow> bool" where
  "val_fits spec v = (case (cs_kind spec, v) of
       (KChar, VText t) \<Rightarrow> cs_target_length spec = 0 \<or> length t \<le> cs_target_length spec
     | (KInt, VInt i) \<Rightarrow> - (2 ^ int_bits (cs_target_type spec)) \<le> i \<and> i < 2 ^ int_bits (cs_target_type spec)
     | (KDecimal, VDec d) \<Rightarrow> decimal_fits d (cs_target_precision spec) (cs_target_scale spec)
     | (KDate8, VDate d) \<Rightarrow> valid_date d
     | (KTimestamp12, VTs t) \<Rightarrow> valid_date (ts_date t) \<and> ts_hour t < 24 \<and> ts_minute t < 60 \<and> ts_second t < 60
     | (KBinary, VBytes b) \<Rightarrow> True
     | _ \<Rightarrow> False)"

lemma ts12_parse_valid:
  "ts12_parse txt = Some t \<Longrightarrow>
   ts_text t = txt \<and> valid_date (ts_date t) \<and> ts_hour t < 24 \<and> ts_minute t < 60 \<and> ts_second t < 60"
  by (auto simp: ts12_parse_def Let_def dest: mk_date_Some split: option.splits if_splits)

lemma convert_char_fits:
  "convert_char raw spec txt = Inr (v, t) \<Longrightarrow> cs_kind spec = KChar \<Longrightarrow> val_fits spec v"
  by (auto simp: convert_char_def val_fits_def Let_def split: option.splits if_splits)

lemma convert_date8_fits:
  "convert_date8 raw txt = Inr (v, t) \<Longrightarrow> cs_kind spec = KDate8 \<Longrightarrow> val_fits spec v"
  by (auto simp: convert_date8_def val_fits_def Let_def dest: mk_date_Some split: option.splits)

lemma convert_ts12_fits:
  "convert_ts12 raw txt = Inr (v, t) \<Longrightarrow> cs_kind spec = KTimestamp12 \<Longrightarrow> val_fits spec v"
  by (auto simp: convert_ts12_def val_fits_def dest: ts12_parse_valid split: option.splits)

lemma convert_text_fits:
  "convert_text_field raw spec = Inr (v, t) \<Longrightarrow> cs_kind spec \<in> {KChar, KDate8, KTimestamp12} \<Longrightarrow>
   val_fits spec v"
  using convert_char_fits convert_date8_fits convert_ts12_fits
  by (auto simp: convert_text_field_def split: decode_result.splits)

lemma convert_int_fits: "convert_int raw spec = Inr (v, t) \<Longrightarrow> cs_kind spec = KInt \<Longrightarrow> val_fits spec v"
  by (auto simp: convert_int_def val_fits_def Let_def split: if_splits)

lemma convert_decimal_fits:
  "convert_decimal raw spec = Inr (v, t) \<Longrightarrow> cs_kind spec = KDecimal \<Longrightarrow> val_fits spec v"
  by (auto simp: convert_decimal_def val_fits_def split: if_splits)

lemma convert_field_fits:
  assumes "convert_field raw spec = Inr (v, t)"
  shows "val_fits spec v"
proof (cases "cs_kind spec")
  case KBinary
  with assms have "v = VBytes raw" by (simp add: convert_field_def)
  with KBinary show ?thesis by (simp add: val_fits_def)
next
  case KInt
  with assms show ?thesis using convert_int_fits by (simp add: convert_field_def)
next
  case KDecimal
  with assms show ?thesis using convert_decimal_fits by (simp add: convert_field_def)
qed (use assms convert_text_fits in \<open>simp_all add: convert_field_def\<close>)


text \<open>A decimal at the scale of its column is accepted exactly when its digits fit the precision.\<close>

lemma decimal_fits_coefficient:
  "0 < p \<Longrightarrow> decimal_fits (Dec n c (- int s)) p s \<longleftrightarrow> c < 10 ^ p"
  by (simp add: decimal_fits_def ndigits_le_iff [symmetric])

section \<open>Timestamps\<close>

text \<open>A group of digits and a literal, on a text that is split at their end.\<close>

lemma rm_digits:
  "length a = n \<Longrightarrow> \<forall>c \<in> set a. is_digit c \<Longrightarrow>
   rm (Seq (Grp g (Rep n Digit)) r) (a @ b) = map (\<lambda>(d, u). (d @ [(g, a)], u)) (rm r b)"
  by (simp add: Digit_def rm_Rep_Cls)

lemma rm_lit: "rm (Seq (Lit w) r) (w @ b) = rm r b"
  by (simp add: rm_Lit split_beta)

definition digits_of :: "nat \<Rightarrow> string \<Rightarrow> bool" where
  "digits_of n s \<longleftrightarrow> length s = n \<and> (\<forall>c \<in> set s. is_digit c)"

lemma rm_lit1: "rm (Seq (Lit [c]) r) (c # b) = rm r b"
  using rm_lit [of "[c]" r b] by simp

lemma rm_digits_split:
  assumes "rm (Seq (Grp g (Rep n Digit)) r) s \<noteq> []"
  shows "\<exists>a b. s = a @ b \<and> length a = n \<and> (\<forall>c \<in> set a. is_digit c) \<and> rm r b \<noteq> []"
proof (intro exI conjI)
  show "s = take n s @ drop n s" by simp
  from assms show "length (take n s) = n" "\<forall>c \<in> set (take n s). is_digit c" "rm r (drop n s) \<noteq> []"
    by (auto simp: Digit_def rm_Rep_Cls split: if_splits)
qed

lemma rm_lit_split:
  assumes "rm (Seq (Lit w) r) s \<noteq> []"
  shows "\<exists>b. s = w @ b \<and> rm r b \<noteq> []"
proof (intro exI conjI)
  from assms have w: "take (length w) s = w" and r: "rm r (drop (length w) s) \<noteq> []"
    by (auto simp: rm_Lit split: if_splits)
  from w show "s = w @ drop (length w) s" by (metis append_take_drop_id)
  from r show "rm r (drop (length w) s) \<noteq> []" .
qed

lemma rm_digits_lit_split:
  "rm (Seq (Grp g (Rep n Digit)) (Seq (Lit w) r)) s \<noteq> [] \<Longrightarrow>
   \<exists>a b. s = a @ w @ b \<and> digits_of n a \<and> rm r b \<noteq> []"
  unfolding digits_of_def by (drule rm_digits_split) (metis rm_lit_split)

lemma rm_end_split: "rm EndZ s \<noteq> [] \<Longrightarrow> s = [] \<or> s = [CHR 0x0A]"
  by (auto split: if_splits)

definition ts_literal :: "string \<Rightarrow> string \<Rightarrow> string \<Rightarrow> string \<Rightarrow> string \<Rightarrow> string \<Rightarrow> string \<Rightarrow> string" where
  "ts_literal y mo d h mi s f = y @ ''-'' @ mo @ ''-'' @ d @ ''-'' @ h @ ''.'' @ mi @ ''.'' @ s @ ''.'' @ f"

definition ts_digits :: "string \<Rightarrow> string \<Rightarrow> string \<Rightarrow> string \<Rightarrow> string \<Rightarrow> string \<Rightarrow> string \<Rightarrow> bool" where
  "ts_digits y mo d h mi s f \<longleftrightarrow> digits_of 4 y \<and> digits_of 2 mo \<and> digits_of 2 d \<and> digits_of 2 h \<and>
     digits_of 2 mi \<and> digits_of 2 s \<and> digits_of 12 f"

lemma ts12_match:
  assumes "re_match TS12_RE txt \<noteq> None"
  shows "\<exists>y mo d h mi s f nl. txt = ts_literal y mo d h mi s f @ nl \<and> ts_digits y mo d h mi s f \<and>
           (nl = [] \<or> nl = [CHR 0x0A])"
proof -
  have m: "rm TS12_RE txt \<noteq> []" using assms by (auto simp: re_match_def)
  note m = m [unfolded TS12_RE_def Seqs.simps]
  from rm_digits_lit_split [OF m] obtain y b1 where 1: "txt = y @ ''-'' @ b1" "digits_of 4 y"
    and m: "rm (Seqs [Grp ''2'' (Rep 2 Digit), Lit ''-'', Grp ''3'' (Rep 2 Digit), Lit ''-'',
     Grp ''4'' (Rep 2 Digit), Lit ''.'', Grp ''5'' (Rep 2 Digit), Lit ''.'', Grp ''6'' (Rep 2 Digit), Lit ''.'',
     Grp ''7'' (Rep 12 Digit), EndZ]) b1 \<noteq> []" unfolding Seqs.simps by blast
  from rm_digits_lit_split [OF m [unfolded Seqs.simps]] obtain mo b2 where 2: "b1 = mo @ ''-'' @ b2" "digits_of 2 mo"
    and m: "rm (Seqs [Grp ''3'' (Rep 2 Digit), Lit ''-'',
     Grp ''4'' (Rep 2 Digit), Lit ''.'', Grp ''5'' (Rep 2 Digit), Lit ''.'', Grp ''6'' (Rep 2 Digit), Lit ''.'',
     Grp ''7'' (Rep 12 Digit), EndZ]) b2 \<noteq> []" unfolding Seqs.simps by blast
  from rm_digits_lit_split [OF m [unfolded Seqs.simps]] obtain d b3 where 3: "b2 = d @ ''-'' @ b3" "digits_of 2 d"
    and m: "rm (Seqs [Grp ''4'' (Rep 2 Digit), Lit ''.'', Grp ''5'' (Rep 2 Digit), Lit ''.'', Grp ''6'' (Rep 2 Digit), Lit ''.'',
     Grp ''7'' (Rep 12 Digit), EndZ]) b3 \<noteq> []" unfolding Seqs.simps by blast
  from rm_digits_lit_split [OF m [unfolded Seqs.simps]] obtain h b4 where 4: "b3 = h @ ''.'' @ b4" "digits_of 2 h"
    and m: "rm (Seqs [Grp ''5'' (Rep 2 Digit), Lit ''.'', Grp ''6'' (Rep 2 Digit), Lit ''.'',
     Grp ''7'' (Rep 12 Digit), EndZ]) b4 \<noteq> []" unfolding Seqs.simps by blast
  from rm_digits_lit_split [OF m [unfolded Seqs.simps]] obtain mi b5 where 5: "b4 = mi @ ''.'' @ b5" "digits_of 2 mi"
    and m: "rm (Seqs [Grp ''6'' (Rep 2 Digit), Lit ''.'', Grp ''7'' (Rep 12 Digit), EndZ]) b5 \<noteq> []"
    unfolding Seqs.simps by blast
  from rm_digits_lit_split [OF m [unfolded Seqs.simps]] obtain s b6 where 6: "b5 = s @ ''.'' @ b6" "digits_of 2 s"
    and m: "rm (Seq (Grp ''7'' (Rep 12 Digit)) EndZ) b6 \<noteq> []" by blast
  from rm_digits_split [OF m] obtain f b7 where 7: "b6 = f @ b7" "digits_of 12 f" "rm EndZ b7 \<noteq> []"
    unfolding digits_of_def by blast
  have "b7 = [] \<or> b7 = [CHR 0x0A]" using 7(3) by (rule rm_end_split)
  moreover have "txt = ts_literal y mo d h mi s f @ b7" by (simp add: ts_literal_def 1(1) 2(1) 3(1) 4(1) 5(1) 6(1) 7(1))
  moreover have "ts_digits y mo d h mi s f" using 1 2 3 4 5 6 7 by (simp add: ts_digits_def)
  ultimately show ?thesis by blast
qed

text \<open>The parser on such a text.\<close>

lemma re_match_ts_literal:
  assumes "ts_digits y mo d h mi s f" and "nl = [] \<or> nl = [CHR 0x0A]"
  shows "re_match TS12_RE (ts_literal y mo d h mi s f @ nl) =
    Some [(''7'', f), (''6'', s), (''5'', mi), (''4'', h), (''3'', d), (''2'', mo), (''1'', y)]"
proof -
  have "rm EndZ nl = [([], nl)]" using assms(2) by auto
  moreover have "rm (Seq (Grp ''7'' (Rep 12 Digit)) EndZ) (f @ nl) = map (\<lambda>(d, u). (d @ [(''7'', f)], u)) (rm EndZ nl)"
    using assms(1) by (intro rm_digits) (simp_all add: ts_digits_def digits_of_def)
  ultimately show ?thesis
    using assms(1) unfolding re_match_def TS12_RE_def Seqs.simps ts_literal_def ts_digits_def digits_of_def
    by (simp add: rm_digits rm_lit1 del: rm.simps Lit.simps Rep.simps)
qed

lemma split_once_digits:
  "\<forall>x \<in> set a. is_digit x \<Longrightarrow> \<not> is_digit c \<Longrightarrow> split_once c (a @ c # b) = (a, Some b)"
proof -
  assume a: "\<forall>x \<in> set a. is_digit x" and c: "\<not> is_digit c"
  then have "\<forall>x \<in> set a. x \<noteq> c" by auto
  then have "takeWhile (\<lambda>x. x \<noteq> c) (a @ c # b) = a" "dropWhile (\<lambda>x. x \<noteq> c) (a @ c # b) = c # b"
    by (simp_all add: takeWhile_append2 dropWhile_append2)
  then show ?thesis by (simp add: split_once_def split_at_char_def)
qed

lemma separators_not_digits [simp]: "\<not> is_digit CHR '':''" "\<not> is_digit CHR ''.''" "\<not> is_digit CHR ''-''"
  by (simp_all add: is_digit_def)

lemma format_05d_digits:
  assumes "digits_of 5 s"
  shows "format_05d (int (nat_of_digits s)) = s"
proof -
  from assms have "s \<noteq> []" by (auto simp: digits_of_def)
  with assms show ?thesis
    using pad_nat_of_digits [of s] by (simp add: digits_of_def format_05d_def pad_nat_def)
qed

lemma from_target_literal:
  assumes "ts_digits y mo d h mi s f" and "ts_text t = ts_literal y mo d h mi s f"
    and "ts_nanos_tail t = nat_of_digits (drop 7 f)"
  shows "ts12_from_target (datetime2_literal t) (int (ts_nanos_tail t)) = ts12_parse (ts_text t)"
proof -
  have dg: "digits_of 4 y" "digits_of 2 mo" "digits_of 2 d" "digits_of 2 h" "digits_of 2 mi" "digits_of 2 s" "digits_of 12 f"
    using assms(1) by (auto simp: ts_digits_def)
  then have len: "length y = 4" "length mo = 2" "length d = 2" "length h = 2" "length mi = 2" "length s = 2" "length f = 12"
    by (auto simp: digits_of_def)
  have f5: "digits_of 5 (drop 7 f)" using dg(7) by (auto simp: digits_of_def dest: in_set_dropD)
  have lit: "datetime2_literal t = y @ ''-'' @ mo @ ''-'' @ d @ '' '' @ h @ CHR '':'' # mi @ CHR '':'' # s @ CHR ''.'' # take 7 f"
    by (simp add: datetime2_literal_def ts_fraction7_def assms(2) ts_literal_def py_slice_def len Let_def)
  have "split_once (CHR '':'') (h @ CHR '':'' # mi @ CHR '':'' # s @ CHR ''.'' # take 7 f) = (h, Some (mi @ CHR '':'' # s @ CHR ''.'' # take 7 f))"
    using dg by (intro split_once_digits) (auto simp: digits_of_def)
  moreover have "split_once (CHR '':'') (mi @ CHR '':'' # s @ CHR ''.'' # take 7 f) = (mi, Some (s @ CHR ''.'' # take 7 f))"
    using dg by (intro split_once_digits) (auto simp: digits_of_def)
  moreover have "split_once (CHR ''.'') (s @ CHR ''.'' # take 7 f) = (s, Some (take 7 f))"
    using dg by (intro split_once_digits) (auto simp: digits_of_def)
  moreover have "take 10 (datetime2_literal t) = y @ ''-'' @ mo @ ''-'' @ d"
    "drop 11 (datetime2_literal t) = h @ CHR '':'' # mi @ CHR '':'' # s @ CHR ''.'' # take 7 f"
    by (simp_all add: lit len)
  moreover have "take 7 f @ format_05d (int (nat_of_digits (drop 7 f))) = f"
    by (simp add: format_05d_digits [OF f5])
  ultimately show ?thesis
    unfolding ts12_from_target_def assms(2,3) by (simp add: ts_literal_def len del: append_take_drop_id)
qed

text \<open>A TIMESTAMP(12) text is rebuilt from what the target stores: the seven fraction digits
  of its DATETIME2(7) literal and the five of the tail column.\<close>

theorem ts12_target_roundtrip:
  assumes "ts12_parse txt = Some t" and "length txt = 32"
  shows "ts12_from_target (datetime2_literal t) (int (ts_nanos_tail t)) = Some t \<and> ts_text t = txt"
proof -
  have "re_match TS12_RE txt \<noteq> None"
    using assms(1) by (cases "re_match TS12_RE txt") (simp_all add: ts12_parse_def)
  from ts12_match [OF this] obtain y mo d h mi s f nl where
    m: "txt = ts_literal y mo d h mi s f @ nl" "ts_digits y mo d h mi s f" "nl = [] \<or> nl = [CHR 0x0A]" by blast
  have "length (ts_literal y mo d h mi s f) = 32"
    using m(2) by (simp add: ts_literal_def ts_digits_def digits_of_def)
  with assms(2) m(1) have nl: "nl = []" by simp
  have "t = ts_text_update (\<lambda>_. txt) t" "ts_nanos_tail t = nat_of_digits (drop 7 f)"
    using assms(1) re_match_ts_literal [OF m(2), of "[]"] m(1) nl
    by (auto simp: ts12_parse_def group_def Let_def split: option.splits if_splits)
  moreover from this(1) have "ts_text t = txt" by (metis timestamp12.select_convs(1) timestamp12.surjective timestamp12.update_convs(1))
  ultimately show ?thesis using from_target_literal [OF m(2)] m(1) nl assms(1) by simp
qed

section \<open>Writing and reading back\<close>

definition fields_disjoint :: "cb_field \<Rightarrow> cb_field \<Rightarrow> bool" where
  "fields_disjoint f g \<longleftrightarrow> f_offset f + f_length f \<le> f_offset g \<or> f_offset g + f_length g \<le> f_offset f"

lemma splice_length [simp]: "i + length b \<le> length out \<Longrightarrow> length (splice i b out) = length out"
  by (simp add: splice_def)

lemma splice_same: "i + length b \<le> length out \<Longrightarrow> take (length b) (drop i (splice i b out)) = b"
  by (simp add: splice_def)

lemma splice_other:
  assumes "i + length b \<le> length out" and "i + length b \<le> j \<or> j + n \<le> i"
  shows "take n (drop j (splice i b out)) = take n (drop j out)"
proof (cases "j + n \<le> i")
  case True
  then have "take n (drop j (splice i b out)) = take n (drop j (take i out))"
    using assms(1) by (simp add: splice_def)
  with True show ?thesis by (simp add: drop_take take_take)
next
  case False
  with assms(2) have j: "i + length b \<le> j" by simp
  then have "drop j (splice i b out) = drop (j - (i + length b)) (drop (i + length b) out)"
    using assms(1) by (simp add: splice_def)
  also have "\<dots> = drop j out" using j by simp
  finally show ?thesis by simp
qed

lemma encode_field_length: "encode_field v s = Inr b \<Longrightarrow> length b = f_length (cs_field s)"
  by (auto simp: encode_field_def Let_def split: if_splits)

definition value_of :: "(string \<times> val) list \<Rightarrow> column_spec \<Rightarrow> val" where
  "value_of vals s = (case map_of vals (cs_name s) of None \<Rightarrow> VNull | Some v \<Rightarrow> v)"

lemma encode_fold:
  assumes "foldE (\<lambda>spec out. bindE (encode_field (case map_of vals (cs_name spec) of None \<Rightarrow> VNull | Some v \<Rightarrow> v) spec)
             (\<lambda>b. Inr (splice (f_offset (cs_field spec)) b out))) specs out = Inr rec"
    and "sorted_wrt (\<lambda>a b. fields_disjoint (cs_field a) (cs_field b)) specs"
    and "\<forall>s \<in> set specs. f_offset (cs_field s) + f_length (cs_field s) \<le> length out"
  shows "length rec = length out \<and>
    (\<forall>f. (\<forall>s \<in> set specs. fields_disjoint (cs_field s) f) \<longrightarrow> f_slice f rec = f_slice f out) \<and>
    (\<forall>s \<in> set specs. encode_field (value_of vals s) s = Inr (spec_slice s rec))"
  using assms
proof (induction specs arbitrary: out)
  case Nil
  then show ?case by simp
next
  case (Cons s specs)
  from Cons.prems(1) obtain b where b: "encode_field (value_of vals s) s = Inr b"
    and run: "foldE (\<lambda>spec out. bindE (encode_field (case map_of vals (cs_name spec) of None \<Rightarrow> VNull | Some v \<Rightarrow> v) spec)
             (\<lambda>b. Inr (splice (f_offset (cs_field spec)) b out))) specs (splice (f_offset (cs_field s)) b out) = Inr rec"
    by (auto simp: value_of_def)
  let ?out = "splice (f_offset (cs_field s)) b out"
  have lb: "length b = f_length (cs_field s)" using b by (rule encode_field_length)
  have room: "f_offset (cs_field s) + length b \<le> length out" using Cons.prems(3) lb by simp
  have IH: "length rec = length ?out"
    "\<forall>f. (\<forall>s \<in> set specs. fields_disjoint (cs_field s) f) \<longrightarrow> f_slice f rec = f_slice f ?out"
    "\<forall>s \<in> set specs. encode_field (value_of vals s) s = Inr (spec_slice s rec)"
    using Cons.IH [OF run] Cons.prems room by auto
  have "f_slice (cs_field s) rec = f_slice (cs_field s) ?out"
    using IH(2) Cons.prems(2) by (auto simp: fields_disjoint_def)
  also have "\<dots> = b" using splice_same [OF room] lb by (simp add: f_slice_def)
  finally have "encode_field (value_of vals s) s = Inr (spec_slice s rec)" using b by (simp add: spec_slice_def)
  moreover have "f_slice f rec = f_slice f out" if "\<forall>t \<in> set (s # specs). fields_disjoint (cs_field t) f" for f
  proof -
    have "f_slice f ?out = f_slice f out" unfolding f_slice_def
      using that lb by (intro splice_other [OF room]) (simp add: fields_disjoint_def)
    with that IH(2) show ?thesis by simp
  qed
  ultimately show ?case using IH room by simp
qed

text \<open>A written record has the declared length, and every column whose bytes no other column
  shares is found in its slice as it was encoded.\<close>

theorem encode_record_slices:
  assumes "encode_record vals specs n = Inr rec"
    and "sorted_wrt (\<lambda>a b. fields_disjoint (cs_field a) (cs_field b)) specs"
    and "\<forall>s \<in> set specs. f_offset (cs_field s) + f_length (cs_field s) \<le> n"
  shows "length rec = n \<and> (\<forall>s \<in> set specs. encode_field (value_of vals s) s = Inr (spec_slice s rec))"
  using encode_fold [of vals specs "replicate n 32" rec] assms by (simp add: encode_record_def)

section \<open>One field, written and read\<close>

lemma encode_decode_text:
  assumes "encode_text enc t = Inr b"
  shows "decode_text b enc = Decoded t"
proof -
  from assms obtain cd where cd: "codec_of enc = Some cd" "encode cd t = Some b"
    by (auto simp: encode_text_def split: option.splits)
  have "decode cd b = Inr t" by (rule char_codec.decode_encode [OF codec_of_char_codec [OF cd(1)] cd(2)])
  with cd(1) show ?thesis by (simp add: decode_text_def)
qed

lemma encode_field_char:
  assumes "encode_field (VText t) s = Inr b" and "cs_kind s = KChar" and "\<not> f_is_numeric (cs_field s)"
    and "cs_value_map s = []" and "list_all (\<lambda>c. \<not> is_control c) t"
    and "cs_target_length s = 0 \<or> f_length (cs_field s) \<le> cs_target_length s"
  shows "convert_field b s = Inr (VText (if cs_trim s then rstrip_sp t else ljust (f_length (cs_field s)) (CHR '' '') t),
                                  VText (ljust (f_length (cs_field s)) (CHR '' '') t))"
proof -
  let ?t = "ljust (f_length (cs_field s)) (CHR '' '') t"
  have "encode_text (cs_encoding s) ?t = Inr b"
    using assms(1,3) by (auto simp: encode_field_def val_text_def Let_def split: if_splits)
  then have d: "decode_text b (cs_encoding s) = Decoded ?t" by (rule encode_decode_text)
  then have "length ?t = length b"
    by (auto simp: decode_text_def dest: decode_length split: option.splits sum.splits)
  then have len: "length ?t = f_length (cs_field s)" using encode_field_length [OF assms(1)] by simp
  have "\<not> is_control (CHR '' '')" by (simp add: is_control_def)
  then have "list_all (\<lambda>c. \<not> is_control c) ?t" using assms(5) by (auto simp: ljust_def list_all_iff)
  then have "find (\<lambda>i. is_control (?t ! i)) [0..<length ?t] = None"
    by (auto simp: find_None_iff list_all_length)
  then have ctl: "control_byte ?t b = None" by (simp add: control_byte_def)
  have short: "length (rstrip_sp t) \<le> length ?t"
    using rstrip_sp_decomp [of t] by (metis length_ljust length_append le_add1 max.coboundedI2)
  show ?thesis using d ctl len short assms(2,4,6)
    by (auto simp: convert_field_def convert_text_field_def convert_char_def apply_value_map_def Let_def not_less)
qed

lemma map_left_Inr [simp]: "map_left f r = Inr a \<longleftrightarrow> r = Inr a"
  by (cases r) auto

lemma encode_field_comp:
  assumes "encode_field (VInt i) s = Inr b" and "cs_kind s = KInt" and "f_is_numeric (cs_field s)"
    and "f_usage (cs_field s) = Comp" and "0 < f_length (cs_field s)"
    and "- (2 ^ int_bits (cs_target_type s)) \<le> i" "i < 2 ^ int_bits (cs_target_type s)"
  shows "convert_field b s = Inr (VInt i, VInt i)"
proof -
  from assms have "int_to_bytes i (f_length (cs_field s)) = Inr b"
    by (auto simp: encode_field_def encode_numeric_def val_int_def Let_def split: if_splits)
  then have "int_from_bytes b = i" using int_to_from_bytes assms(5) by blast
  with assms show ?thesis by (simp add: convert_field_def convert_int_def read_int_def Let_def)
qed

lemma encode_field_comp3:
  assumes "encode_field (VDec d) s = Inr b" and "cs_kind s = KDecimal" and "f_is_numeric (cs_field s)"
    and "f_usage (cs_field s) = Comp3" and "val_decimal (VDec d) = Inr v"
  shows "\<exists>n c. quantize v (f_scale (cs_field s)) = Some (Dec n c (- int (f_scale (cs_field s)))) \<and>
    (let q = Dec (n \<and> c \<noteq> 0) c (- int (f_scale (cs_field s))) in
     decimal_fits q (cs_target_precision s) (cs_target_scale s) \<longrightarrow> convert_field b s = Inr (VDec q, VDec q))"
proof -
  from assms have "pack_comp3 v (f_length (cs_field s)) (f_scale (cs_field s)) = Inr b"
    by (auto simp: encode_field_def encode_numeric_def Let_def split: if_splits)
  from comp3_packed_value [OF this] assms(2,4) show ?thesis
    by (auto simp: convert_field_def convert_decimal_def read_decimal_def Let_def)
qed

text \<open>Reading inverts writing: a text without control characters comes back padded to its
  field, or trimmed when the column trims; an integer in a binary field comes back unchanged.\<close>

theorem field_roundtrip:
  assumes "encode_field v s = Inr b" and "cs_value_map s = []" and "0 < f_length (cs_field s)"
    and "cs_target_length s = 0 \<or> f_length (cs_field s) \<le> cs_target_length s"
    and "case v of
        VText t \<Rightarrow> cs_kind s = KChar \<and> \<not> f_is_numeric (cs_field s) \<and> list_all (\<lambda>c. \<not> is_control c) t
      | VInt i \<Rightarrow> cs_kind s = KInt \<and> f_is_numeric (cs_field s) \<and> f_usage (cs_field s) = Comp \<and>
                  - (2 ^ int_bits (cs_target_type s)) \<le> i \<and> i < 2 ^ int_bits (cs_target_type s)
      | _ \<Rightarrow> False"
  shows "convert_field b s = (case v of
        VText t \<Rightarrow> let p = ljust (f_length (cs_field s)) (CHR '' '') t in
          Inr (VText (if cs_trim s then rstrip_sp t else p), VText p)
      | _ \<Rightarrow> Inr (v, v))"
proof (cases v)
  case (VText t)
  with assms show ?thesis using encode_field_char [of t s b] by (simp add: Let_def)
next
  case (VInt i)
  with assms show ?thesis using encode_field_comp [of i s b] by simp
qed (use assms(5) in simp_all)

text \<open>A zoned (DISPLAY) field has no place for the sign: a negative decimal is written as its
  absolute value, so writing is not inverted by reading.\<close>

theorem display_sign_lost:
  "f_usage (cs_field s) = Display \<and> f_is_numeric (cs_field s) \<longrightarrow>
   encode_field (VDec (Dec True c e)) s = encode_field (VDec (Dec False c e)) s"
proof -
  have q: "quantize (Dec True x e) k = map_option (\<lambda>d. Dec True (dcoeff d) (dexp d)) (quantize (Dec False x e) k)" for x k
    by (simp add: quantize_def Let_def)
  have a: "comp3_digits (Dec True x y) = comp3_digits (Dec False x y)" for x y
    by (simp add: comp3_digits_def dec_abs_def)
  have f: "quantize (Dec False c e) k = Some d \<Longrightarrow> \<exists>x y. d = Dec False x y" for k d
    by (auto simp: quantize_def Let_def split: if_splits)
  have d: "encode_numeric (VDec (Dec True c e)) s = encode_numeric (VDec (Dec False c e)) s" if "f_usage (cs_field s) = Display"
  proof (cases "c = 0")
    case True
    with that show ?thesis by (simp add: encode_numeric_def val_decimal_def Let_def)
  next
    case False
    then obtain c' where c: "c = Suc c'" by (cases c) auto
    show ?thesis
      using that f [of "f_scale (cs_field s)"]
      by (cases "quantize (Dec False c e) (f_scale (cs_field s))")
        (auto simp: encode_numeric_def val_decimal_def Let_def q a c)
  qed
  then show ?thesis by (simp add: encode_field_def Let_def)
qed

section \<open>Witnesses\<close>

text \<open>A good record of the example table, and one whose packed balance has the sign nibble 9.\<close>

definition example_record :: bytes where
  "example_record = [0x41, 0x31, 0x20, 0x20, 0x12, 0x34, 0x5D]"

definition bad_record :: bytes where
  "bad_record = [0x41, 0x31, 0x20, 0x20, 0x12, 0x34, 0x59]"

definition example_converted :: converted where
  "example_converted = \<lparr>cv_source_key = ''A1  '', cv_raw = example_record,
     cv_values = [(''ID'', VText ''A1  ''), (''BAL'', VDec (Dec True 12345 (- 2)))],
     cv_source_text = [(''ID'', VText ''A1  ''), (''BAL'', VDec (Dec True 12345 (- 2)))], cv_error = None\<rparr>"

lemma convert_example: "convert_record example_record [example_id, example_balance] = Inr example_converted"
  by code_simp

lemma convert_bad: "convert_record bad_record [example_id, example_balance] =
    Inr (projr (convert_record bad_record [example_id, example_balance]))"
  by code_simp

lemma example_names: "distinct (map cs_name [example_id, example_balance])"
  by code_simp

theorem convert_record_first_error_witness:
  "\<exists>pre post. [example_id, example_balance] = pre @ post \<and>
    (case post of [] \<Rightarrow> cv_ok (projr (convert_record bad_record [example_id, example_balance]))
     | s # _ \<Rightarrow> conversion_stopped s (projr (convert_record bad_record [example_id, example_balance])))"
  using convert_record_first_error [OF convert_bad example_names] by blast


theorem ts12_target_roundtrip_witness:
  "\<exists>t. ts12_parse ''2024-02-29-23.59.58.123456789012'' = Some t \<and>
     ts12_from_target (datetime2_literal t) (int (ts_nanos_tail t)) = Some t"
proof -
  have p: "ts12_parse ''2024-02-29-23.59.58.123456789012'' = Some (the (ts12_parse ''2024-02-29-23.59.58.123456789012''))"
    by code_simp
  from ts12_target_roundtrip [OF p] show ?thesis by (intro exI [of _ "the (ts12_parse ''2024-02-29-23.59.58.123456789012'')"])
    (simp add: p [symmetric])
qed

theorem encode_record_slices_witness:
  "length example_record = 7 \<and>
   encode_field (VText ''A1'') example_id = Inr (spec_slice example_id example_record)"
proof -
  have enc: "encode_record [(''ID'', VText ''A1''), (''BAL'', VDec (Dec True 12345 (- 2)))] [example_id, example_balance] 7 =
      Inr example_record" by code_simp
  have dis: "sorted_wrt (\<lambda>a b. fields_disjoint (cs_field a) (cs_field b)) [example_id, example_balance]" by code_simp
  have inside: "\<forall>s \<in> set [example_id, example_balance]. f_offset (cs_field s) + f_length (cs_field s) \<le> 7" by code_simp
  from encode_record_slices [OF enc dis inside] show ?thesis
    by (simp add: value_of_def example_id_def)
qed

text \<open>\<open>-7\<close> in a four-byte \<open>S9(9) COMP\<close> field.\<close>

definition example_count :: column_spec where
  "example_count = example_id\<lparr>cs_name := ''N'', cs_kind := KInt, cs_target_type := ''INTEGER'', cs_target_length := 0,
     cs_field := (cs_field example_id)\<lparr>f_usage := Comp, f_is_numeric := True, f_signed := True, f_digits := 9\<rparr>\<rparr>"

theorem field_roundtrip_witness: "convert_field [0xFF, 0xFF, 0xFF, 0xF9] example_count = Inr (VInt (- 7), VInt (- 7))"
proof -
  have enc: "encode_field (VInt (- 7)) example_count = Inr [0xFF, 0xFF, 0xFF, 0xF9]" by code_simp
  have "- (2 ^ int_bits (cs_target_type example_count)) \<le> (- 7 :: int) \<and> - 7 < (2 :: int) ^ int_bits (cs_target_type example_count)"
    by code_simp
  then show ?thesis
    using field_roundtrip [OF enc] by (simp add: example_count_def example_id_def example_copybook_def)
qed

definition example_display :: column_spec where
  "example_display = example_balance\<lparr>cs_field := (cs_field example_balance)\<lparr>f_usage := Display, f_length := 5\<rparr>\<rparr>"

theorem display_sign_lost_witness:
  "encode_field (VDec (Dec True 12345 (- 2))) example_display = Inr [0x31, 0x32, 0x33, 0x34, 0x35] \<and>
   encode_field (VDec (Dec False 12345 (- 2))) example_display = Inr [0x31, 0x32, 0x33, 0x34, 0x35]"
proof -
  have "encode_field (VDec (Dec True 12345 (- 2))) example_display = Inr [0x31, 0x32, 0x33, 0x34, 0x35]" by code_simp
  moreover have "f_usage (cs_field example_display) = Display \<and> f_is_numeric (cs_field example_display)" by code_simp
  ultimately show ?thesis using display_sign_lost [of example_display 12345 "- 2"] by simp
qed

end
