(* ===== verification/Ldm_Hashing.thy ===== *)
theory Ldm_Hashing
  imports Ldm_Convert_Facts
begin

text \<open>
  The business hash (\<open>migration/job/ldm/hashing.py\<close>): rendering of the source values and of the
  target columns, and the two hashes over them. SHA-256 is a parameter. The SQL expressions
  are built as texts. Main fact: for a converted record both sides render alike, except for a
  key column that is trimmed on the target and padded in the source.
\<close>

text \<open>UTF-8 of code points below 256.\<close>

definition utf8_char :: "char \<Rightarrow> bytes" where
  "utf8_char c = (let n = of_char c :: nat in
     if n < 128 then [word_of_nat n] else [word_of_nat (192 + n div 64), word_of_nat (128 + n mod 64)])"

definition utf8 :: "string \<Rightarrow> bytes" where
  "utf8 s = concat (map utf8_char s)"

text \<open>\<open>strftime("%Y...")\<close> of the C library does not pad the year.\<close>

definition strftime_date :: "date \<Rightarrow> string" where
  "strftime_date d = str_nat (d_year d) @ pad_nat 2 (d_month d) @ pad_nat 2 (d_day d)"

definition strftime_us :: "date \<Rightarrow> nat \<Rightarrow> nat \<Rightarrow> nat \<Rightarrow> nat \<Rightarrow> string" where
  "strftime_us d h mi s us =
     str_nat (d_year d) @ ''-'' @ pad_nat 2 (d_month d) @ ''-'' @ pad_nat 2 (d_day d) @ '' '' @
     pad_nat 2 h @ '':'' @ pad_nat 2 mi @ '':'' @ pad_nat 2 s @ ''.'' @ pad_nat 6 us"

section \<open>Rendering\<close>

definition type_error :: ldm_error where "type_error = PyError ''TypeError''"

text \<open>The reference renderer: a text under kind \<open>char\<close>, \<open>int\<close> or \<open>decimal\<close>.\<close>

definition render :: "val \<Rightarrow> kind \<Rightarrow> bool \<Rightarrow> ldm_error + string" where
  "render v k is_key = (case k of
       KChar \<Rightarrow> (case v of VText t \<Rightarrow> Inr (if is_key then t else rstrip_sp t) | _ \<Rightarrow> Inl (PyError ''AttributeError''))
     | KInt \<Rightarrow> (case v of
           VInt i \<Rightarrow> Inr (str_int i)
         | VDec d \<Rightarrow> if is_finite d then Inr (str_int (int_of_decimal d)) else Inl (PyError ''ValueError'')
         | VText t \<Rightarrow> (case py_int t of Some i \<Rightarrow> Inr (str_int i) | None \<Rightarrow> Inl (PyError ''ValueError''))
         | _ \<Rightarrow> Inl type_error)
     | KDecimal \<Rightarrow>
         bindE (case v of
              VInt i \<Rightarrow> Inr (Dec (i < 0) (nat \<bar>i\<bar>) 0)
            | VDec d \<Rightarrow> Inr d
            | VText t \<Rightarrow> (case decimal_of_text t of Some d \<Rightarrow> Inr d | None \<Rightarrow> Inl (PyError ''InvalidOperation''))
            | _ \<Rightarrow> Inl type_error) (\<lambda>d0.
         case quantize d0 8 of
           None \<Rightarrow> Inl (PyError ''InvalidOperation'')
         | Some d \<Rightarrow> Inr (format_f (if is_finite d \<and> dcoeff d = 0 then dec_abs d else d)))
     | _ \<Rightarrow> (case v of VText t \<Rightarrow> Inr t | _ \<Rightarrow> Inl type_error))"

definition as_text :: "val \<Rightarrow> ldm_error + val" where
  "as_text v = (case v of
       VNull \<Rightarrow> Inr (VText [])
     | VTs t \<Rightarrow> Inr (VText (ts_text t))
     | VDatetime d h mi s us \<Rightarrow> (case ts12_from_target (strftime_us d h mi s us @ ''0'') 0 of
           Some t \<Rightarrow> Inr (VText (ts_text t)) | None \<Rightarrow> Inl (PyError ''ValueError''))
     | VDate d \<Rightarrow> Inr (VText (strftime_date d))
     | VBytes b \<Rightarrow> Inr (VText (py_HEX b))
     | _ \<Rightarrow> Inr v)"

definition render_kind :: "column_spec \<Rightarrow> kind" where
  "render_kind spec = (if cs_kind spec \<in> {KChar, KInt, KDecimal} then cs_kind spec else KChar)"

definition map_source_text :: "column_spec \<Rightarrow> val \<Rightarrow> val" where
  "map_source_text spec v = (case v of
       VText t \<Rightarrow> if cs_kind spec = KChar
         then (case map_of (cs_value_map spec) (rstrip_sp t) of
                 None \<Rightarrow> v
               | Some m \<Rightarrow> VText (if cs_trim spec then m else ljust (length t) (CHR '' '') m))
         else v
     | _ \<Rightarrow> v)"

definition render_source_column :: "val \<Rightarrow> column_spec \<Rightarrow> ldm_error + string" where
  "render_source_column v spec =
     bindE (as_text v) (\<lambda>t. render (map_source_text spec t) (render_kind spec) (cs_is_key spec))"

text \<open>A row of target columns; a missing column is a \<open>KeyError\<close>.\<close>

definition row_get :: "(string \<times> val) list \<Rightarrow> string \<Rightarrow> ldm_error + val" where
  "row_get row n = (case map_of row n of Some v \<Rightarrow> Inr v | None \<Rightarrow> Inl (PyError ''KeyError''))"

definition render_target_column :: "(string \<times> val) list \<Rightarrow> column_spec \<Rightarrow> ldm_error + string" where
  "render_target_column row spec =
     bindE (row_get row (cs_name spec)) (\<lambda>v.
     bindE (case (cs_kind spec, v) of
          (KTimestamp12, VDatetime d h mi s us) \<Rightarrow> (case map_of row (cs_name spec @ ''_NANOS_TAIL'') of
              Some (VInt tail) \<Rightarrow> (case ts12_from_target (strftime_us d h mi s us @ ''0'') tail of
                  Some t \<Rightarrow> Inr (VText (ts_text t)) | None \<Rightarrow> Inl (PyError ''ValueError''))
            | _ \<Rightarrow> Inl (PyError ''AssertionError''))
        | _ \<Rightarrow> as_text v) (\<lambda>t.
     render t (render_kind spec) (cs_is_key spec)))"

section \<open>Hashes\<close>

definition join_hash :: "(bytes \<Rightarrow> bytes) \<Rightarrow> string list \<Rightarrow> bytes" where
  "join_hash sha parts = sha (utf8 (py_join ''|'' parts))"

definition business_hash :: "(bytes \<Rightarrow> bytes) \<Rightarrow> (val \<times> kind \<times> bool) list \<Rightarrow> ldm_error + bytes" where
  "business_hash sha cols = bindE (mapE (\<lambda>(v, k, key). render v k key) cols) (\<lambda>parts. Inr (join_hash sha parts))"

text \<open>\<open>{s.name: s for s in specs}[n]\<close>: the last specification of that name.\<close>

definition spec_named :: "column_spec list \<Rightarrow> string \<Rightarrow> ldm_error + column_spec" where
  "spec_named specs n = (case find (\<lambda>s. cs_name s = n) (rev specs) of
       Some s \<Rightarrow> Inr s | None \<Rightarrow> Inl (PyError ''KeyError''))"

definition source_hash ::
  "(bytes \<Rightarrow> bytes) \<Rightarrow> (string \<times> val) list \<Rightarrow> string list \<Rightarrow> column_spec list \<Rightarrow> ldm_error + bytes" where
  "source_hash sha vs hash_columns specs =
     bindE (mapE (\<lambda>n. bindE (row_get vs n) (\<lambda>v. bindE (spec_named specs n) (render_source_column v))) hash_columns)
       (\<lambda>parts. Inr (join_hash sha parts))"

definition target_hash ::
  "(bytes \<Rightarrow> bytes) \<Rightarrow> (string \<times> val) list \<Rightarrow> string list \<Rightarrow> column_spec list \<Rightarrow> ldm_error + bytes" where
  "target_hash sha row hash_columns specs =
     bindE (mapE (\<lambda>n. bindE (spec_named specs n) (render_target_column row)) hash_columns)
       (\<lambda>parts. Inr (join_hash sha parts))"

section \<open>The SQL expressions\<close>

text \<open>SQL texts are written with a back quote for the single quote.\<close>

definition sq :: "string \<Rightarrow> string" where
  "sq s = map (\<lambda>c. if c = CHR 0x60 then CHR 0x27 else c) s"

definition pg_column :: "column_spec \<Rightarrow> string \<Rightarrow> string" where
  "pg_column spec name = (let col = [CHR 0x22] @ name @ [CHR 0x22] in case cs_kind spec of
       KChar \<Rightarrow>
         if cs_is_key spec \<and> cs_target_length spec \<noteq> 0 \<and> \<not> cs_trim spec
           then ''COALESCE(RPAD('' @ col @ ''::text, '' @ str_nat (cs_target_length spec) @ sq ''), ``)''
         else if cs_is_key spec then ''COALESCE('' @ col @ sq ''::text, ``)''
         else ''COALESCE(RTRIM('' @ col @ sq ''::text), ``)''
     | KInt \<Rightarrow> ''COALESCE('' @ col @ sq ''::text, ``)''
     | KDecimal \<Rightarrow> ''COALESCE(('' @ col @ sq ''::numeric(38,8))::text, ``)''
     | KTimestamp12 \<Rightarrow> ''COALESCE(TO_CHAR('' @ col @ sq '', `YYYY-MM-DD-HH24.MI.SS.US`) || LPAD('' @
         [CHR 0x22] @ name @ ''_NANOS_TAIL'' @ [CHR 0x22] @ sq ''::text, 6, `0`), ``)''
     | KDate8 \<Rightarrow> ''COALESCE(TO_CHAR('' @ col @ sq '', `YYYYMMDD`), ``)''
     | KBinary \<Rightarrow> ''COALESCE(UPPER(ENCODE('' @ col @ sq '', `hex`)), ``)'')"

definition pg_hash_expression :: "string list \<Rightarrow> column_spec list \<Rightarrow> ldm_error + string" where
  "pg_hash_expression hash_columns specs =
     bindE (mapE (\<lambda>n. bindE (spec_named specs n) (\<lambda>s. Inr (pg_column s n))) hash_columns) (\<lambda>parts.
     if parts = [] then Inl (PyError ''IndexError'')
     else Inr (''sha256(convert_to('' @ py_join (sq '' || `|` || '') parts @ sq '', `UTF8`))''))"

definition tsql_column :: "column_spec \<Rightarrow> string \<Rightarrow> string" where
  "tsql_column spec name = (let col = ''['' @ name @ '']'' in case cs_kind spec of
       KChar \<Rightarrow> if cs_is_key spec then ''ISNULL('' @ col @ sq '', N``)''
               else ''ISNULL(RTRIM('' @ col @ sq ''), N``)''
     | KInt \<Rightarrow> ''CONVERT(NVARCHAR(24), '' @ col @ '')''
     | KDecimal \<Rightarrow> ''CONVERT(NVARCHAR(48), CAST('' @ col @ '' AS DECIMAL(38,8)))''
     | KTimestamp12 \<Rightarrow> ''CONCAT(CONVERT(NCHAR(10), '' @ col @ sq '', 23), N`-`, REPLACE(CONVERT(NCHAR(8), '' @ col @
         sq '', 108), N`:`, N`.`), N`.`, RIGHT(CONVERT(NVARCHAR(27), '' @ col @ sq '', 121), 7), RIGHT(CONCAT(N`00000`, ['' @
         name @ ''_NANOS_TAIL]), 5))''
     | KDate8 \<Rightarrow> ''CONVERT(NVARCHAR(8), '' @ col @ '', 112)''
     | KBinary \<Rightarrow> ''UPPER(CONVERT(NVARCHAR(MAX), '' @ col @ '', 2))'')"

definition tsql_hash_expression :: "string list \<Rightarrow> column_spec list \<Rightarrow> ldm_error + string" where
  "tsql_hash_expression hash_columns specs =
     bindE (mapE (\<lambda>n. bindE (spec_named specs n) (\<lambda>s. Inr (tsql_column s n))) hash_columns) (\<lambda>parts.
     if parts = [] then Inl (PyError ''IndexError'')
     else Inr (sq ''HASHBYTES(`SHA2_256`, CONVERT(VARBINARY(MAX), CAST(CONCAT('' @ py_join (sq '', N`|`, '') parts @
            '') AS VARCHAR(MAX)) COLLATE Latin1_General_100_BIN2_UTF8))''))"

definition hash_expression :: "provider \<Rightarrow> string list \<Rightarrow> column_spec list \<Rightarrow> ldm_error + string" where
  "hash_expression p hash_columns specs = (case p of
       AzureSQL \<Rightarrow> tsql_hash_expression hash_columns specs
     | PostgreSQL \<Rightarrow> pg_hash_expression hash_columns specs)"

section \<open>Source and target render alike\<close>

text \<open>
  A key that the target trims must carry no padding, and a date must have the four digits of
  its year: the two places where the renderings differ.
\<close>

definition hashable :: "column_spec \<Rightarrow> val \<Rightarrow> val \<Rightarrow> bool" where
  "hashable spec v t = (case cs_kind spec of
       KChar \<Rightarrow> cs_is_key spec \<and> cs_trim spec \<longrightarrow> (\<exists>x. t = VText x \<and> rstrip_sp x = x)
     | KDate8 \<Rightarrow> (\<exists>d x. v = VDate d \<and> 1000 \<le> d_year d \<and> t = VText x \<and> length x = 8)
     | _ \<Rightarrow> True)"

lemma rstrip_ljust_map:
  "rstrip_sp (ljust n (CHR '' '') m) = rstrip_sp m"
  by simp

lemma apply_value_map_render:
  assumes "cs_kind spec = KChar" and "cs_is_key spec \<and> cs_trim spec \<Longrightarrow> rstrip_sp x = x"
  shows "render (map_source_text spec (VText x)) KChar (cs_is_key spec) =
         render (VText (apply_value_map spec (if cs_trim spec then rstrip_sp x else x))) KChar (cs_is_key spec)"
  using assms
  by (cases "cs_trim spec"; cases "cs_is_key spec")
    (auto simp: map_source_text_def apply_value_map_def render_def split: option.splits)

lemma str_nat_year: "1000 \<le> y \<Longrightarrow> y \<le> 9999 \<Longrightarrow> str_nat y = pad_nat 4 y"
proof -
  assume y: "1000 \<le> y" "y \<le> 9999"
  have "3 < ndigits y" using y ndigits_le_iff [of 3 y] by (simp add: not_le [symmetric])
  then show ?thesis by (simp add: pad_nat_def rjust_def ndigits_def)
qed

lemma date8_match:
  assumes "re_match DATE8_RE x = Some m" and "length x = 8"
  shows "\<exists>y mo d. x = y @ mo @ d \<and> digits_of 4 y \<and> digits_of 2 mo \<and> digits_of 2 d \<and>
           m = [(''3'', d), (''2'', mo), (''1'', y)]"
proof -
  have m: "rm DATE8_RE x \<noteq> []" using assms(1) by (auto simp: re_match_def)
  note m = m [unfolded DATE8_RE_def Seqs.simps]
  from rm_digits_split [OF m] obtain y b1 where 1: "x = y @ b1" "digits_of 4 y"
    and m: "rm (Seq (Grp ''2'' (Rep 2 Digit)) (Seq (Grp ''3'' (Rep 2 Digit)) EndZ)) b1 \<noteq> []"
    unfolding digits_of_def by blast
  from rm_digits_split [OF m] obtain mo b2 where 2: "b1 = mo @ b2" "digits_of 2 mo"
    and m: "rm (Seq (Grp ''3'' (Rep 2 Digit)) EndZ) b2 \<noteq> []" unfolding digits_of_def by blast
  from rm_digits_split [OF m] obtain d b3 where 3: "b2 = d @ b3" "digits_of 2 d" unfolding digits_of_def by blast
  have "b3 = []" using assms(2) 1 2 3 by (simp add: digits_of_def)
  then have x: "x = y @ mo @ d" using 1 2 3 by simp
  have "re_match DATE8_RE (y @ mo @ d) = Some [(''3'', d), (''2'', mo), (''1'', y)]"
  proof -
    have "rm (Seq (Grp ''3'' (Rep 2 Digit)) EndZ) d = [([(''3'', d)], [])]"
      using rm_digits [of d 2 "''3''" EndZ "[]"] 3(2) by (simp add: digits_of_def del: rm.simps(3))
    then show ?thesis
      using 1(2) 2(2) unfolding re_match_def DATE8_RE_def Seqs.simps digits_of_def
      by (simp add: rm_digits del: rm.simps Rep.simps)
  qed
  with assms(1) x have "m = [(''3'', d), (''2'', mo), (''1'', y)]" by simp
  with x 1 2 3 show ?thesis by blast
qed

lemma pad_nat_digits_of: "digits_of n s \<Longrightarrow> 0 < n \<Longrightarrow> pad_nat n (nat_of_digits s) = s"
  using pad_nat_of_digits [of s] by (cases "s = []") (auto simp: digits_of_def)

lemma strftime_date8:
  assumes "convert_date8 raw x = Inr (VDate dt, t)" and "length x = 8" and "1000 \<le> d_year dt"
  shows "strftime_date dt = x \<and> t = VText x"
proof -
  from assms(1) obtain m where m: "re_match DATE8_RE x = Some m"
    by (auto simp: convert_date8_def split: option.splits)
  from date8_match [OF this assms(2)] obtain y mo d where
    x: "x = y @ mo @ d" "digits_of 4 y" "digits_of 2 mo" "digits_of 2 d" "m = [(''3'', d), (''2'', mo), (''1'', y)]"
    by blast
  have dt: "mk_date (nat_of_digits y) (nat_of_digits mo) (nat_of_digits d) = Some dt" and t: "t = VText x"
    using assms(1) m x(5) by (auto simp: convert_date8_def group_nat_def group_def Let_def split: option.splits)
  from mk_date_Some [OF dt] have d: "dt = Date (nat_of_digits y) (nat_of_digits mo) (nat_of_digits d)"
    and v: "nat_of_digits y \<le> 9999" by (auto simp: valid_date_iff)
  have "str_nat (nat_of_digits y) = pad_nat 4 (nat_of_digits y)"
    using assms(3) v by (intro str_nat_year) (simp_all add: d)
  moreover have "pad_nat 4 (nat_of_digits y) = y" "pad_nat 2 (nat_of_digits mo) = mo" "pad_nat 2 (nat_of_digits d) = d"
    using x by (simp_all add: pad_nat_digits_of)
  ultimately show ?thesis using x(1) t by (simp add: strftime_date_def d)
qed

lemma convert_char_values:
  "convert_char raw spec x = Inr (v, t) \<Longrightarrow>
   t = VText x \<and> v = VText (apply_value_map spec (if cs_trim spec then rstrip_sp x else x))"
  by (auto simp: convert_char_def Let_def split: option.splits if_splits)

lemma renderings_agree:
  assumes "convert_field raw spec = Inr (v, t)" and "hashable spec v t" and "map_of row (cs_name spec) = Some v"
  shows "render_source_column t spec = render_target_column row spec"
proof (cases "cs_kind spec")
  case KChar
  then obtain x where "convert_char raw spec x = Inr (v, t)" using assms(1)
    by (auto simp: convert_field_def convert_text_field_def split: decode_result.splits)
  from convert_char_values [OF this] have vt: "t = VText x"
    "v = VText (apply_value_map spec (if cs_trim spec then rstrip_sp x else x))" by auto
  have "cs_is_key spec \<and> cs_trim spec \<Longrightarrow> rstrip_sp x = x"
    using assms(2) KChar vt by (simp add: hashable_def)
  from apply_value_map_render [OF KChar this] KChar assms(3) vt show ?thesis
    by (simp add: render_source_column_def render_target_column_def as_text_def row_get_def render_kind_def)
next
  case KDate8
  then obtain x where c: "convert_date8 raw x = Inr (v, t)" using assms(1)
    by (auto simp: convert_field_def convert_text_field_def split: decode_result.splits)
  from assms(2) KDate8 obtain d x' where d: "v = VDate d" "1000 \<le> d_year d" "t = VText x'" "length x' = 8"
    by (auto simp: hashable_def)
  have "x' = x" using c d by (auto simp: convert_date8_def Let_def split: option.splits)
  with strftime_date8 [of raw x d t] c d have "strftime_date d = x" "t = VText x" by auto
  with KDate8 assms(3) d show ?thesis
    by (simp add: render_source_column_def render_target_column_def as_text_def row_get_def render_kind_def
        map_source_text_def)
next
  case KTimestamp12
  then obtain x where c: "convert_ts12 raw x = Inr (v, t)" using assms(1)
    by (auto simp: convert_field_def convert_text_field_def split: decode_result.splits)
  then obtain ts where "v = VTs ts" "ts_text ts = x" "t = VText x"
    by (auto simp: convert_ts12_def dest: ts12_parse_valid split: option.splits)
  with KTimestamp12 assms(3) show ?thesis
    by (simp add: render_source_column_def render_target_column_def as_text_def row_get_def render_kind_def
        map_source_text_def)
next
  case KInt
  then have "v = t" using assms(1)
    by (auto simp: convert_field_def convert_int_def Let_def split: if_splits)
  with KInt assms(1,3) show ?thesis
    by (auto simp: render_source_column_def render_target_column_def row_get_def
        map_source_text_def convert_field_def convert_int_def as_text_def Let_def split: if_splits)
next
  case KDecimal
  then have "v = t" using assms(1)
    by (auto simp: convert_field_def convert_decimal_def split: if_splits)
  with KDecimal assms(1,3) show ?thesis
    by (auto simp: render_source_column_def render_target_column_def row_get_def
        map_source_text_def convert_field_def convert_decimal_def as_text_def split: if_splits)
next
  case KBinary
  then have "v = VBytes raw" "t = VBytes raw" using assms(1) by (auto simp: convert_field_def)
  with KBinary assms(3) show ?thesis
    by (simp add: render_source_column_def render_target_column_def row_get_def
        map_source_text_def as_text_def)
qed

text \<open>The target row of a converted record holds its values, unless a column has the name of
  another column's tail.\<close>

definition no_tail_clash :: "column_spec list \<Rightarrow> bool" where
  "no_tail_clash specs \<longleftrightarrow> (\<forall>a \<in> set specs. \<forall>b \<in> set specs. cs_name a \<noteq> cs_name b @ ''_NANOS_TAIL'')"

lemma target_row_fold:
  assumes "distinct (map fst vs)" and "\<forall>k \<in> fst ` set vs. n \<noteq> k @ ''_NANOS_TAIL''"
  shows "map_of (foldl (\<lambda>out (col, v). case v of
       VTs t \<Rightarrow> dict_set (col @ ''_NANOS_TAIL'') (VInt (int (ts_nanos_tail t))) (dict_set col v out)
     | _ \<Rightarrow> dict_set col v out) out vs) n = (case map_of vs n of Some v \<Rightarrow> Some v | None \<Rightarrow> map_of out n)"
  using assms
proof (induction vs arbitrary: out)
  case Nil
  then show ?case by simp
next
  case (Cons p vs)
  obtain k v where p: "p = (k, v)" by (cases p)
  have nk: "n \<noteq> k @ ''_NANOS_TAIL''" using Cons.prems(2) p by auto
  let ?out = "case v of VTs t \<Rightarrow> dict_set (k @ ''_NANOS_TAIL'') (VInt (int (ts_nanos_tail t))) (dict_set k v out)
     | _ \<Rightarrow> dict_set k v out"
  have o: "map_of ?out n = (if n = k then Some v else map_of out n)" using nk by (simp split: val.splits)
  have "n = k \<Longrightarrow> map_of vs n = None" using Cons.prems(1) p by (auto simp: map_of_eq_None_iff)
  then show ?case using Cons.IH [of ?out] Cons.prems o p by (auto split: option.splits)
qed

lemma target_row_value:
  assumes "distinct (map fst (cv_values r))" and "\<forall>k \<in> fst ` set (cv_values r). n \<noteq> k @ ''_NANOS_TAIL''"
  shows "map_of (target_row r) n = map_of (cv_values r) n"
  using target_row_fold [OF assms, of "[]"] by (simp add: target_row_def split: option.splits)

lemma spec_named_member:
  "spec_named specs n = Inr s \<Longrightarrow> s \<in> set specs \<and> cs_name s = n"
  by (auto simp: spec_named_def find_Some_iff split: option.splits)
    (metis length_rev nth_mem set_rev)

lemma mapE_cong: "(\<And>x. x \<in> set xs \<Longrightarrow> f x = g x) \<Longrightarrow> mapE f xs = mapE g xs"
  by (induction xs) auto


text \<open>A trimmed key whose field ends with a blank never agrees: the source side keeps the
  padding that the target column has lost.\<close>

theorem trimmed_key_mismatch:
  assumes "cs_kind s = KChar" and "cs_is_key s" and "cs_trim s" and "cs_value_map s = []"
    and "convert_field raw s = Inr (v, VText x)" and "rstrip_sp x \<noteq> x"
    and "map_of row (cs_name s) = Some v"
  shows "render_source_column (VText x) s = Inr x \<and> render_target_column row s = Inr (rstrip_sp x)"
proof -
  from assms(1,5) obtain y where "convert_char raw s y = Inr (v, VText x)"
    by (auto simp: convert_field_def convert_text_field_def split: decode_result.splits)
  from convert_char_values [OF this] assms(3,4) have "v = VText (rstrip_sp x)"
    by (simp add: apply_value_map_def)
  with assms show ?thesis
    by (simp add: render_source_column_def render_target_column_def as_text_def row_get_def render_kind_def
        map_source_text_def render_def)
qed

section \<open>Witnesses\<close>


text \<open>A trimmed key of four bytes that holds \<open>A1\<close>.\<close>

theorem trimmed_key_mismatch_witness:
  "render_source_column (VText ''A1  '') (example_id\<lparr>cs_trim := True\<rparr>) = Inr ''A1  '' \<and>
   render_target_column [(''ID'', VText ''A1'')] (example_id\<lparr>cs_trim := True\<rparr>) = Inr ''A1''"
proof -
  let ?s = "example_id\<lparr>cs_trim := True\<rparr>"
  have "convert_field [0x41, 0x31, 0x20, 0x20] ?s = Inr (VText ''A1'', VText ''A1  '')" by code_simp
  moreover have "rstrip_sp ''A1  '' = ''A1''" by code_simp
  ultimately show ?thesis
    using trimmed_key_mismatch [of ?s "[0x41, 0x31, 0x20, 0x20]" "VText ''A1''" "''A1  ''" "[(''ID'', VText ''A1'')]"]
    by (simp add: example_id_def)
qed

end
