(* ===== verification/Ldm_Drivers.thy ===== *)
theory Ldm_Drivers
  imports Ldm_Hashing
begin

text \<open>
  The driver protocols (\<open>migration/job/ldm/drivers/base.py\<close>): the rows that pass between the
  stages and the source and target, and the operations of the two drivers as records of
  programs over a driver state. The stages are written against these records only.
\<close>

type_synonym row = "(string \<times> val) list"

type_synonym run_key = "string \<times> string"

datatype stage = Extract | Load | Validate | Purge | Reconcile

datatype range_status = Planned | Running | Done | RangeFailed

datatype load_status = LoadPending | LoadRunning | LoadDone

datatype row_status = Validated | Failed

datatype audit_status = Intended | Purged | RolledBack

datatype run_status = RunRunning | RunFailed | RunClosed

datatype log_status = LogRunning | LogOK | LogFailed

record selection_spec =
  ss_key_columns :: "string list"
  ss_all_rows :: bool
  ss_class_column :: "string option"
  ss_classes :: "string list"
  ss_last_access_column :: "string option"
  ss_last_access_before :: "string option"
  ss_parent_table :: "string option"
  ss_parent_child_columns :: "string list"
  ss_parent_columns :: "string list"

record ledger_row =
  lr_table :: string
  lr_order :: int
  lr_role :: role
  lr_extracted :: "nat option"
  lr_extract_files :: "nat option"
  lr_loaded :: "nat option"
  lr_rejected :: "nat option"
  lr_validated :: "nat option"
  lr_validate_failed :: "nat option"
  lr_purge_intended :: "nat option"
  lr_purged :: "nat option"
  lr_purge_dry_run :: "bool option"

record key_range =
  kr_table :: string
  kr_seq :: nat
  kr_from :: string
  kr_to :: string
  kr_status :: range_status
  kr_row_count :: "nat option"
  kr_byte_count :: "nat option"
  kr_sha :: "string option"
  kr_blob_path :: "string option"
  kr_local_path :: "string option"
  kr_load_status :: load_status
  kr_attempt :: nat
  kr_error :: "string option"

record reject =
  rj_table :: string
  rj_source_key :: string
  rj_stage :: stage
  rj_rule :: string
  rj_field :: "string option"
  rj_raw :: "bytes option"
  rj_field_bytes :: "bytes option"
  rj_sqlstate :: "string option"
  rj_native_error :: "int option"
  rj_error :: string
  rj_range_seq :: "nat option"

record staged_row =
  sr_table :: string
  sr_source_key :: string
  sr_range_seq :: "nat option"
  sr_raw :: bytes
  sr_values :: row
  sr_stg_id :: "nat option"

record insert_failure =
  if_source_key :: string
  if_sqlstate :: "string option"
  if_native_error :: "int option"
  if_error :: string

record validation_row =
  vr_table :: string
  vr_source_key :: string
  vr_status :: row_status
  vr_rule :: "string option"
  vr_source_hash :: "bytes option"
  vr_target_hash :: "bytes option"
  vr_purge_safe :: bool
  vr_error :: "string option"

record class_total_row =
  cl_table :: string
  cl_class :: string
  cl_source_count :: nat
  cl_target_count :: nat
  cl_source_sum :: "decimal option"
  cl_target_sum :: "decimal option"
  cl_match :: bool

record class_aggregate =
  ca_count :: nat
  ca_sums :: "(string \<times> decimal) list"

definition no_aggregate :: class_aggregate where
  "no_aggregate = \<lparr>ca_count = 0, ca_sums = []\<rparr>"

record failure_row =
  fr_table :: string
  fr_source_key :: string
  fr_stage :: stage
  fr_rule :: string
  fr_field :: "string option"
  fr_sqlstate :: "string option"
  fr_native_error :: "int option"
  fr_error :: string

record purge_audit_row =
  pa_table :: string
  pa_source_key :: string
  pa_batch_no :: nat
  pa_status :: audit_status

section \<open>The operations of a source\<close>

record 's source_ops =
  so_connect :: "('s, ldm_error, unit) prog"
  so_close :: "('s, ldm_error, unit) prog"
  so_select_keys :: "string \<Rightarrow> string \<Rightarrow> selection_spec \<Rightarrow> ('s, ldm_error, string list) prog"
  so_fetch_range :: "string \<Rightarrow> string \<Rightarrow> string list \<Rightarrow> selection_spec \<Rightarrow> string \<Rightarrow> string \<Rightarrow>
                     ('s, ldm_error, row list) prog"
  so_purge_batch :: "string \<Rightarrow> string \<Rightarrow> string \<Rightarrow> string list \<Rightarrow> string \<Rightarrow> string \<Rightarrow> nat \<Rightarrow>
                     ('s, ldm_error, nat) prog"
  so_audited_keys :: "string \<Rightarrow> string \<Rightarrow> string list \<Rightarrow> ('s, ldm_error, string list) prog"

section \<open>The operations of a target\<close>

text \<open>
  Updates of named columns are given as functions on the row; sets of keys are lists.
\<close>

record 't target_ops =
  to_connect :: "('t, ldm_error, unit) prog"
  to_close :: "('t, ldm_error, unit) prog"
  to_register_table :: "string \<Rightarrow> string list \<Rightarrow> string list \<Rightarrow> column_spec list \<Rightarrow> ('t, ldm_error, unit) prog"
  to_applied_ddl :: "('t, ldm_error, (string \<times> string) list) prog"
  to_apply_ddl :: "string \<Rightarrow> string \<Rightarrow> string \<Rightarrow> ('t, ldm_error, unit) prog"
  to_ensure_reader :: "string \<Rightarrow> string \<Rightarrow> ('t, ldm_error, unit) prog"
  to_apply_sql :: "string \<Rightarrow> string \<Rightarrow> ('t, ldm_error, unit) prog"
  to_ensure_run :: "run_key \<Rightarrow> bool \<Rightarrow> string option \<Rightarrow> string \<Rightarrow> ('t, ldm_error, string) prog"
  to_refresh_run :: "run_key \<Rightarrow> bool \<Rightarrow> string option \<Rightarrow> ('t, ldm_error, unit) prog"
  to_get_run_status :: "run_key \<Rightarrow> ('t, ldm_error, run_status option) prog"
  to_set_run_status :: "run_key \<Rightarrow> run_status \<Rightarrow> int option \<Rightarrow> ('t, ldm_error, unit) prog"
  to_ensure_ledger :: "run_key \<Rightarrow> (string \<times> int \<times> role) list \<Rightarrow> ('t, ldm_error, unit) prog"
  to_get_ledger :: "run_key \<Rightarrow> ('t, ldm_error, (string \<times> ledger_row) list) prog"
  to_update_ledger :: "run_key \<Rightarrow> string \<Rightarrow> (ledger_row \<Rightarrow> ledger_row) \<Rightarrow> ('t, ldm_error, unit) prog"
  to_log_start :: "run_key \<Rightarrow> stage \<Rightarrow> string option \<Rightarrow> ('t, ldm_error, nat) prog"
  to_log_finish :: "nat \<Rightarrow> log_status \<Rightarrow> nat option \<Rightarrow> string option \<Rightarrow> ('t, ldm_error, unit) prog"
  to_get_key_ranges :: "run_key \<Rightarrow> string \<Rightarrow> ('t, ldm_error, key_range list) prog"
  to_insert_key_ranges :: "run_key \<Rightarrow> key_range list \<Rightarrow> ('t, ldm_error, unit) prog"
  to_update_key_range :: "run_key \<Rightarrow> string \<Rightarrow> nat \<Rightarrow> (key_range \<Rightarrow> key_range) \<Rightarrow> ('t, ldm_error, unit) prog"
  to_insert_rejects :: "run_key \<Rightarrow> reject list \<Rightarrow> ('t, ldm_error, unit) prog"
  to_count_rejects :: "run_key \<Rightarrow> string \<Rightarrow> stage option \<Rightarrow> ('t, ldm_error, nat) prog"
  to_delete_rejects_keys :: "run_key \<Rightarrow> string \<Rightarrow> stage \<Rightarrow> string list \<Rightarrow> ('t, ldm_error, unit) prog"
  to_delete_staging_range :: "run_key \<Rightarrow> string \<Rightarrow> nat \<Rightarrow> ('t, ldm_error, unit) prog"
  to_delete_rejects_range :: "run_key \<Rightarrow> string \<Rightarrow> stage \<Rightarrow> nat \<Rightarrow> ('t, ldm_error, unit) prog"
  to_insert_staging :: "run_key \<Rightarrow> string \<Rightarrow> staged_row list \<Rightarrow> ('t, ldm_error, insert_failure list) prog"
  to_count_staging :: "run_key \<Rightarrow> string \<Rightarrow> ('t, ldm_error, nat) prog"
  to_iter_staging :: "run_key \<Rightarrow> string \<Rightarrow> nat \<Rightarrow> ('t, ldm_error, staged_row list list) prog"
  to_target_hashes :: "run_key \<Rightarrow> string \<Rightarrow> string \<Rightarrow> string \<Rightarrow> string \<Rightarrow> ('t, ldm_error, (string \<times> bytes) list) prog"
  to_class_aggregates :: "run_key \<Rightarrow> string \<Rightarrow> string \<Rightarrow> string list \<Rightarrow>
                          ('t, ldm_error, (string \<times> class_aggregate) list) prog"
  to_parents_present :: "run_key \<Rightarrow> string \<Rightarrow> string list \<Rightarrow> string \<Rightarrow> string list \<Rightarrow> ('t, ldm_error, string list) prog"
  to_write_validation :: "run_key \<Rightarrow> validation_row list \<Rightarrow> ('t, ldm_error, unit) prog"
  to_write_class_totals :: "run_key \<Rightarrow> class_total_row list \<Rightarrow> ('t, ldm_error, unit) prog"
  to_get_class_totals :: "run_key \<Rightarrow> ('t, ldm_error, class_total_row list) prog"
  to_archived_hashes :: "run_key \<Rightarrow> string \<Rightarrow> string list \<Rightarrow> ('t, ldm_error, (string \<times> bytes) list) prog"
  to_promote :: "run_key \<Rightarrow> string \<Rightarrow> string list \<Rightarrow> ('t, ldm_error, nat) prog"
  to_purge_safe_keys :: "run_key \<Rightarrow> string \<Rightarrow> ('t, ldm_error, string list) prog"
  to_count_validation :: "run_key \<Rightarrow> string \<Rightarrow> row_status \<Rightarrow> ('t, ldm_error, nat) prog"
  to_insert_purge_audit :: "run_key \<Rightarrow> string \<Rightarrow> string list \<Rightarrow> nat \<Rightarrow> ('t, ldm_error, unit) prog"
  to_set_purge_audit_status :: "run_key \<Rightarrow> string \<Rightarrow> string list \<Rightarrow> audit_status \<Rightarrow> ('t, ldm_error, unit) prog"
  to_purged_keys :: "run_key \<Rightarrow> string \<Rightarrow> ('t, ldm_error, string list) prog"
  to_failures :: "run_key \<Rightarrow> ('t, ldm_error, failure_row list) prog"
  to_insert_run_sessions :: "run_key \<Rightarrow> (string \<times> string) list \<Rightarrow> ('t, ldm_error, unit) prog"
  to_delete_staging_run :: "run_key \<Rightarrow> ('t, ldm_error, unit) prog"

section \<open>Exact sums\<close>

text \<open>Addition of decimals at the context precision, rounding half to even.\<close>

definition round_coeff :: "nat \<Rightarrow> int \<Rightarrow> nat \<times> int" where
  "round_coeff c e =
     (if ndigits c \<le> DECIMAL_PRECISION then (c, e)
      else let k = ndigits c - DECIMAL_PRECISION; c' = half_even c (10 ^ k)
           in if DECIMAL_PRECISION < ndigits c' then (c' div 10, e + int k + 1) else (c', e + int k))"

definition dec_plus :: "decimal \<Rightarrow> decimal \<Rightarrow> decimal" where
  "dec_plus a b = (case (a, b) of
       (Dec n c e, Dec n' c' e') \<Rightarrow>
         let m = min e e'; z = signed_at n c e m + signed_at n' c' e' m; (r, x) = round_coeff (nat \<bar>z\<bar>) m
         in Dec (z < 0 \<or> z = 0 \<and> n \<and> n') r x
     | (DInf n, DInf n') \<Rightarrow> if n = n' then DInf n else DNaN
     | (DInf n, Dec _ _ _) \<Rightarrow> DInf n
     | (Dec _ _ _, DInf n) \<Rightarrow> DInf n
     | _ \<Rightarrow> DNaN)"

definition dec_zero :: decimal where
  "dec_zero = Dec False 0 0"

definition sum_get :: "(string \<times> decimal) list \<Rightarrow> string \<Rightarrow> decimal" where
  "sum_get sums c = (case map_of sums c of Some d \<Rightarrow> d | None \<Rightarrow> dec_zero)"

definition sum_add :: "string \<Rightarrow> decimal \<Rightarrow> (string \<times> decimal) list \<Rightarrow> (string \<times> decimal) list" where
  "sum_add c v sums = dict_set c (dec_plus (sum_get sums c) v) sums"

section \<open>\<open>str\<close> of the values of a row\<close>

definition bytes_repr_char :: "8 word \<Rightarrow> string" where
  "bytes_repr_char b = (let n = unat b in
     if n = 39 \<or> n = 92 then [CHR 0x5C, char_of n]
     else if n = 9 then [CHR 0x5C, CHR ''t''] else if n = 10 then [CHR 0x5C, CHR ''n'']
     else if n = 13 then [CHR 0x5C, CHR ''r'']
     else if 32 \<le> n \<and> n \<le> 126 then [char_of n]
     else [CHR 0x5C, CHR ''x'', hex_digit (n div 16), hex_digit (n mod 16)])"

text \<open>\<open>repr(raw)\<close> of bytes without a single quote, or with one but also a double quote, else
  in double quotes.\<close>

definition bytes_repr :: "bytes \<Rightarrow> string" where
  "bytes_repr bs =
     (if 39 \<in> set bs \<and> 34 \<notin> set bs
      then ''b'' @ [CHR 0x22] @ concat (map (\<lambda>b. if b = 39 then [CHR 0x27] else bytes_repr_char b) bs) @ [CHR 0x22]
      else ''b'' @ [CHR 0x27] @ concat (map bytes_repr_char bs) @ [CHR 0x27])"

definition datetime_repr :: "date \<Rightarrow> nat \<Rightarrow> nat \<Rightarrow> nat \<Rightarrow> nat \<Rightarrow> string" where
  "datetime_repr d h mi s us =
     ''datetime.datetime('' @ py_join '', '' (map str_nat
       ([d_year d, d_month d, d_day d, h, mi] @ (if us \<noteq> 0 then [s, us] else if s \<noteq> 0 then [s] else []))) @ '')''"

definition py_str :: "val \<Rightarrow> string" where
  "py_str v = (case v of
       VNull \<Rightarrow> ''None''
     | VBytes b \<Rightarrow> bytes_repr b
     | VTs t \<Rightarrow> ''Timestamp12(text='' @ py_repr (ts_text t) @ '', dt='' @
         datetime_repr (ts_date t) (ts_hour t) (ts_minute t) (ts_second t) (ts_micro t) @ '', nanos_tail='' @
         str_nat (ts_nanos_tail t) @ '')''
     | _ \<Rightarrow> val_text v)"

text \<open>\<open>v or d\<close>: None, zero and empty values are false.\<close>

definition val_true :: "val \<Rightarrow> bool" where
  "val_true v = (case v of
       VNull \<Rightarrow> False
     | VText t \<Rightarrow> t \<noteq> []
     | VInt i \<Rightarrow> i \<noteq> 0
     | VDec d \<Rightarrow> \<not> (is_finite d \<and> dcoeff d = 0)
     | VBytes b \<Rightarrow> b \<noteq> []
     | _ \<Rightarrow> True)"

definition str_or_empty :: "val option \<Rightarrow> string" where
  "str_or_empty v = (case v of None \<Rightarrow> [] | Some x \<Rightarrow> if val_true x then py_str x else [])"

end
