(* ===== verification/Ldm_Fakes.thy ===== *)
theory Ldm_Fakes
  imports Ldm_Drivers
begin

text \<open>
  The in-memory drivers (\<open>migration/job/ldm/drivers/fakes.py\<close>), which the job runs with under
  \<open>LDM_DRIVER=fake\<close>: a source of row lists with its purge audit, and a target that keeps
  runs, ledger, key ranges, rejects, staging, validation, archive and purge audit. A Python
  \<open>defaultdict\<close> is a function, a dict an association list in insertion order.
\<close>

text \<open>\<open>_text\<close>\<close>

definition text_of :: "val \<Rightarrow> string" where
  "text_of v = (case v of VBytes b \<Rightarrow> map char_of_byte b | VNull \<Rightarrow> [] | _ \<Rightarrow> py_str v)"

definition field :: "row \<Rightarrow> string \<Rightarrow> ldm_error + val" where
  "field r c = (case map_of r c of Some v \<Rightarrow> Inr v | None \<Rightarrow> Inl (PyError ''KeyError''))"

section \<open>FakeSource\<close>

record fake_source =
  fs_tables :: "string \<Rightarrow> row list"
  fs_purge_audit :: "(string \<times> string \<times> string \<times> nat \<times> audit_status) list"
  fs_fail_delete_for :: "string list"
  fs_short_delete_for :: "string list"
  fs_connected :: bool

definition fs_init :: fake_source where
  "fs_init = \<lparr>fs_tables = (\<lambda>_. []), fs_purge_audit = [], fs_fail_delete_for = [], fs_short_delete_for = [],
              fs_connected = False\<rparr>"

definition qual_name :: "string \<Rightarrow> string \<Rightarrow> string" where
  "qual_name schema table = schema @ ''.'' @ table"

definition fs_add_rows :: "string \<Rightarrow> string \<Rightarrow> row list \<Rightarrow> fake_source \<Rightarrow> fake_source" where
  "fs_add_rows schema table rows s =
     s\<lparr>fs_tables := (fs_tables s)(qual_name schema table := fs_tables s (qual_name schema table) @ rows)\<rparr>"

fun filterE :: "('a \<Rightarrow> 'e + bool) \<Rightarrow> 'a list \<Rightarrow> 'e + 'a list" where
  "filterE p [] = Inr []"
| "filterE p (x # xs) = bindE (p x) (\<lambda>b. bindE (filterE p xs) (\<lambda>ys. Inr (if b then x # ys else ys)))"

definition fs_selected :: "fake_source \<Rightarrow> string \<Rightarrow> selection_spec \<Rightarrow> ldm_error + row list" where
  "fs_selected s table sel =
     (if ss_all_rows sel then Inr (fs_tables s table)
      else case (ss_class_column sel, ss_last_access_column sel, ss_last_access_before sel) of
        (Some cc, Some lc, Some before) \<Rightarrow>
          if cc = [] \<or> lc = [] \<or> before = [] then Inl (PyError ''AssertionError'')
          else filterE (\<lambda>r. bindE (field r cc) (\<lambda>c.
                 if rstrip_sp (text_of c) \<in> set (ss_classes sel)
                 then bindE (field r lc) (\<lambda>l. Inr (text_of l < before)) else Inr False)) (fs_tables s table)
      | _ \<Rightarrow> Inl (PyError ''AssertionError''))"

definition fs_key :: "row \<Rightarrow> selection_spec \<Rightarrow> ldm_error + string" where
  "fs_key r sel = bindE (mapE (\<lambda>c. bindE (field r c) (\<lambda>v. Inr (text_of v))) (ss_key_columns sel))
     (\<lambda>parts. Inr (py_join ''|'' parts))"

definition fs_select_keys ::
  "string \<Rightarrow> string \<Rightarrow> selection_spec \<Rightarrow> (fake_source, ldm_error, string list) prog" where
  "fs_select_keys schema table sel = (\<lambda>s.
     (bindE (fs_selected s (qual_name schema table) sel) (\<lambda>rows.
      bindE (mapE (\<lambda>r. fs_key r sel) rows) (\<lambda>keys. Inr (sort keys))), s))"

definition fs_fetch_range ::
  "string \<Rightarrow> string \<Rightarrow> string list \<Rightarrow> selection_spec \<Rightarrow> string \<Rightarrow> string \<Rightarrow>
   (fake_source, ldm_error, row list) prog" where
  "fs_fetch_range schema table columns sel key_from key_to = (\<lambda>s.
     (bindE (fs_selected s (qual_name schema table) sel) (\<lambda>rows.
      bindE (mapE (\<lambda>r. bindE (fs_key r sel) (\<lambda>k. Inr (k, r))) rows) (\<lambda>keyed.
      mapE (\<lambda>(k, r). mapE (\<lambda>c. bindE (field r c) (\<lambda>v. Inr (c, v))) columns)
        (filter (\<lambda>(k, r). key_from \<le> k \<and> k \<le> key_to) (sort_key fst keyed)))), s))"

definition deadlock :: "string \<Rightarrow> string \<Rightarrow> ldm_error" where
  "deadlock table k = SourceError (Some (- 911)) (Some ''40001'')
     (''deadlock or timeout deleting '' @ table @ '' key '' @ py_strip k) None"

definition short_delete :: "string \<Rightarrow> nat \<Rightarrow> nat \<Rightarrow> nat \<Rightarrow> ldm_error" where
  "short_delete table batch_no deleted wanted = PurgeGuardError
     (table @ '' batch '' @ str_nat batch_no @ '': DELETE removed '' @ str_nat deleted @ '' rows but '' @
      str_nat wanted @ '' were intended; rolled back'')"

definition fs_purge_batch ::
  "string \<Rightarrow> string \<Rightarrow> string \<Rightarrow> string list \<Rightarrow> string \<Rightarrow> string \<Rightarrow> nat \<Rightarrow>
   (fake_source, ldm_error, nat) prog" where
  "fs_purge_batch schema table key_column keys run_id namespace batch_no = (\<lambda>s.
     case find (\<lambda>k. k \<in> set (fs_fail_delete_for s)) keys of
       Some k \<Rightarrow> (Inl (deadlock table k), s)
     | None \<Rightarrow>
         let q = qual_name schema table; rows = fs_tables s q;
             wanted = map rstrip_sp (filter (\<lambda>k. k \<notin> set (fs_short_delete_for s)) keys)
         in case filterE (\<lambda>r. bindE (field r key_column) (\<lambda>v. Inr (rstrip_sp (text_of v) \<notin> set wanted))) rows of
              Inl e \<Rightarrow> (Inl e, s)
            | Inr remaining \<Rightarrow>
                let deleted = length rows - length remaining in
                if deleted \<noteq> length keys then (Inl (short_delete table batch_no deleted (length keys)), s)
                else (Inr deleted,
                      s\<lparr>fs_tables := (fs_tables s)(q := remaining),
                        fs_purge_audit := fs_purge_audit s @ map (\<lambda>k. (run_id, table, k, batch_no, Purged)) keys\<rparr>))"

definition fs_audited_keys :: "string \<Rightarrow> string \<Rightarrow> string list \<Rightarrow> (fake_source, ldm_error, string list) prog" where
  "fs_audited_keys run_id table keys =
     getP (\<lambda>s. map (\<lambda>(r, t, k, b, st). k)
       (filter (\<lambda>(r, t, k, b, st). r = run_id \<and> t = table \<and> k \<in> set keys) (fs_purge_audit s)))"

definition fake_source_ops :: "fake_source source_ops" where
  "fake_source_ops = \<lparr>
     so_connect = modP (\<lambda>s. s\<lparr>fs_connected := True\<rparr>),
     so_close = modP (\<lambda>s. s\<lparr>fs_connected := False\<rparr>),
     so_select_keys = fs_select_keys,
     so_fetch_range = fs_fetch_range,
     so_purge_batch = fs_purge_batch,
     so_audited_keys = fs_audited_keys\<rparr>"

section \<open>FakeTarget: state\<close>

record fake_run =
  ru_status :: run_status
  ru_exit_code :: "int option"
  ru_purge_enabled :: bool
  ru_manifest_sha :: string
  ru_sessions :: "(string \<times> string) list"

record table_shape =
  sh_key_columns :: "string list"
  sh_hash_columns :: "string list"
  sh_specs :: "column_spec list"

record log_entry =
  le_id :: nat
  le_run_id :: string
  le_stage :: stage
  le_table :: "string option"
  le_status :: log_status
  le_rows :: "nat option"
  le_message :: "string option"

record fake_target =
  ft_ddl_applied :: "(string \<times> string) list"
  ft_readers :: "(string \<times> string) list"
  ft_scripts :: "(string \<times> string) list"
  ft_runs :: "run_key \<Rightarrow> fake_run option"
  ft_ledger :: "run_key \<Rightarrow> (string \<times> ledger_row) list option"
  ft_stage_log :: "log_entry list"
  ft_key_ranges :: "run_key \<times> string \<Rightarrow> key_range list"
  ft_rejects :: "run_key \<Rightarrow> reject list"
  ft_staging :: "string \<Rightarrow> staged_row list"
  ft_staging_ns :: "nat \<Rightarrow> run_key option"
  ft_validation :: "run_key \<Rightarrow> validation_row list"
  ft_class_totals :: "run_key \<Rightarrow> class_total_row list"
  ft_arch :: "string \<Rightarrow> (string list \<times> row) list"
  ft_arch_hash :: "string \<Rightarrow> (string list \<times> bytes) list"
  ft_purge_audit :: "run_key \<Rightarrow> purge_audit_row list"
  ft_shapes :: "string \<Rightarrow> table_shape option"
  ft_insert_failures :: "string \<Rightarrow> insert_failure option"
  ft_next_id :: nat
  ft_next_log :: nat
  ft_connected :: bool

definition ft_init :: fake_target where
  "ft_init = \<lparr>ft_ddl_applied = [], ft_readers = [], ft_scripts = [], ft_runs = (\<lambda>_. None), ft_ledger = (\<lambda>_. None),
     ft_stage_log = [], ft_key_ranges = (\<lambda>_. []), ft_rejects = (\<lambda>_. []), ft_staging = (\<lambda>_. []),
     ft_staging_ns = (\<lambda>_. None), ft_validation = (\<lambda>_. []), ft_class_totals = (\<lambda>_. []), ft_arch = (\<lambda>_. []),
     ft_arch_hash = (\<lambda>_. []), ft_purge_audit = (\<lambda>_. []), ft_shapes = (\<lambda>_. None),
     ft_insert_failures = (\<lambda>_. None), ft_next_id = 1, ft_next_log = 1, ft_connected = False\<rparr>"

definition key_error :: ldm_error where
  "key_error = PyError ''KeyError''"

section \<open>FakeTarget: runs, ledger, stage log\<close>

definition ft_register_table ::
  "string \<Rightarrow> string list \<Rightarrow> string list \<Rightarrow> column_spec list \<Rightarrow> (fake_target, ldm_error, unit) prog" where
  "ft_register_table table keys hashes specs =
     modP (\<lambda>t. t\<lparr>ft_shapes := (ft_shapes t)(table \<mapsto> \<lparr>sh_key_columns = keys, sh_hash_columns = hashes, sh_specs = specs\<rparr>)\<rparr>)"

definition ft_apply_ddl :: "string \<Rightarrow> string \<Rightarrow> string \<Rightarrow> (fake_target, ldm_error, unit) prog" where
  "ft_apply_ddl sql file_name sha = modP (\<lambda>t. t\<lparr>ft_ddl_applied := dict_set file_name sha (ft_ddl_applied t)\<rparr>)"

definition ft_ensure_reader :: "string \<Rightarrow> string \<Rightarrow> (fake_target, ldm_error, unit) prog" where
  "ft_ensure_reader user password = modP (\<lambda>t. t\<lparr>ft_readers := dict_set user password (ft_readers t)\<rparr>)"

definition ft_apply_sql :: "string \<Rightarrow> string \<Rightarrow> (fake_target, ldm_error, unit) prog" where
  "ft_apply_sql sql namespace = modP (\<lambda>t. t\<lparr>ft_scripts := ft_scripts t @ [(namespace, sql)]\<rparr>)"

definition ft_ensure_run ::
  "run_key \<Rightarrow> bool \<Rightarrow> string option \<Rightarrow> string \<Rightarrow> (fake_target, ldm_error, string) prog" where
  "ft_ensure_run k purge_enabled job_image sha = (\<lambda>t. case ft_runs t k of
       Some r \<Rightarrow> (Inr (ru_manifest_sha r), t)
     | None \<Rightarrow> (Inr sha, t\<lparr>ft_runs := (ft_runs t)(k \<mapsto> \<lparr>ru_status = RunRunning, ru_exit_code = None,
         ru_purge_enabled = purge_enabled, ru_manifest_sha = sha, ru_sessions = []\<rparr>)\<rparr>))"

definition ft_with_run :: "run_key \<Rightarrow> (fake_run \<Rightarrow> fake_run) \<Rightarrow> (fake_target, ldm_error, unit) prog" where
  "ft_with_run k f = (\<lambda>t. case ft_runs t k of
       None \<Rightarrow> (Inl key_error, t)
     | Some r \<Rightarrow> (Inr (), t\<lparr>ft_runs := (ft_runs t)(k \<mapsto> f r)\<rparr>))"

definition ft_refresh_run :: "run_key \<Rightarrow> bool \<Rightarrow> string option \<Rightarrow> (fake_target, ldm_error, unit) prog" where
  "ft_refresh_run k purge_enabled job_image = ft_with_run k (\<lambda>r. r\<lparr>ru_purge_enabled := purge_enabled\<rparr>)"

definition ft_get_run_status :: "run_key \<Rightarrow> (fake_target, ldm_error, run_status option) prog" where
  "ft_get_run_status k = getP (\<lambda>t. map_option ru_status (ft_runs t k))"

definition ft_set_run_status :: "run_key \<Rightarrow> run_status \<Rightarrow> int option \<Rightarrow> (fake_target, ldm_error, unit) prog" where
  "ft_set_run_status k st code = ft_with_run k (\<lambda>r. r\<lparr>ru_status := st, ru_exit_code := code\<rparr>)"

definition new_ledger_row :: "string \<Rightarrow> int \<Rightarrow> role \<Rightarrow> ledger_row" where
  "new_ledger_row name ord role = \<lparr>lr_table = name, lr_order = ord, lr_role = role, lr_extracted = None,
     lr_extract_files = None, lr_loaded = None, lr_rejected = None, lr_validated = None, lr_validate_failed = None,
     lr_purge_intended = None, lr_purged = None, lr_purge_dry_run = None\<rparr>"

definition set_default :: "'k \<Rightarrow> 'v \<Rightarrow> ('k \<times> 'v) list \<Rightarrow> ('k \<times> 'v) list" where
  "set_default k v d = (if map_of d k = None then d @ [(k, v)] else d)"

definition ft_ensure_ledger :: "run_key \<Rightarrow> (string \<times> int \<times> role) list \<Rightarrow> (fake_target, ldm_error, unit) prog" where
  "ft_ensure_ledger k tables = modP (\<lambda>t.
     let led = (case ft_ledger t k of None \<Rightarrow> [] | Some l \<Rightarrow> l)
     in t\<lparr>ft_ledger := (ft_ledger t)(k \<mapsto>
          foldl (\<lambda>l (name, ord, role). set_default name (new_ledger_row name ord role) l) led tables)\<rparr>)"

definition ft_get_ledger :: "run_key \<Rightarrow> (fake_target, ldm_error, (string \<times> ledger_row) list) prog" where
  "ft_get_ledger k = getP (\<lambda>t. case ft_ledger t k of None \<Rightarrow> [] | Some l \<Rightarrow> l)"

definition ft_update_ledger ::
  "run_key \<Rightarrow> string \<Rightarrow> (ledger_row \<Rightarrow> ledger_row) \<Rightarrow> (fake_target, ldm_error, unit) prog" where
  "ft_update_ledger k table f = (\<lambda>t. case ft_ledger t k of
       None \<Rightarrow> (Inl key_error, t)
     | Some l \<Rightarrow> (case map_of l table of
           None \<Rightarrow> (Inl key_error, t)
         | Some r \<Rightarrow> (Inr (), t\<lparr>ft_ledger := (ft_ledger t)(k \<mapsto> dict_set table (f r) l)\<rparr>)))"

definition ft_log_start :: "run_key \<Rightarrow> stage \<Rightarrow> string option \<Rightarrow> (fake_target, ldm_error, nat) prog" where
  "ft_log_start k st table = (\<lambda>t. (Inr (ft_next_log t),
     t\<lparr>ft_next_log := Suc (ft_next_log t),
       ft_stage_log := ft_stage_log t @ [\<lparr>le_id = ft_next_log t, le_run_id = fst k, le_stage = st,
         le_table = table, le_status = LogRunning, le_rows = None, le_message = None\<rparr>]\<rparr>))"

definition ft_log_finish ::
  "nat \<Rightarrow> log_status \<Rightarrow> nat option \<Rightarrow> string option \<Rightarrow> (fake_target, ldm_error, unit) prog" where
  "ft_log_finish log_id st rows msg = modP (\<lambda>t. t\<lparr>ft_stage_log := map (\<lambda>e.
     if le_id e = log_id then e\<lparr>le_status := st, le_rows := rows, le_message := msg\<rparr> else e) (ft_stage_log t)\<rparr>)"

section \<open>FakeTarget: key ranges and rejects\<close>

definition ft_get_key_ranges :: "run_key \<Rightarrow> string \<Rightarrow> (fake_target, ldm_error, key_range list) prog" where
  "ft_get_key_ranges k table = getP (\<lambda>t. ft_key_ranges t (k, table))"

definition ft_insert_key_ranges :: "run_key \<Rightarrow> key_range list \<Rightarrow> (fake_target, ldm_error, unit) prog" where
  "ft_insert_key_ranges k ranges = modP (\<lambda>t. t\<lparr>ft_key_ranges :=
     foldl (\<lambda>m r. m((k, kr_table r) := m (k, kr_table r) @ [r])) (ft_key_ranges t) ranges\<rparr>)"

definition ft_update_key_range ::
  "run_key \<Rightarrow> string \<Rightarrow> nat \<Rightarrow> (key_range \<Rightarrow> key_range) \<Rightarrow> (fake_target, ldm_error, unit) prog" where
  "ft_update_key_range k table seq f = modP (\<lambda>t. t\<lparr>ft_key_ranges := (ft_key_ranges t)((k, table) :=
     map (\<lambda>r. if kr_seq r = seq then f r else r) (ft_key_ranges t (k, table)))\<rparr>)"

definition reject_key :: "reject \<Rightarrow> string \<times> stage \<times> string" where
  "reject_key r = (rj_table r, rj_stage r, rj_source_key r)"

definition add_reject :: "reject list \<Rightarrow> reject \<Rightarrow> reject list" where
  "add_reject rs r = (if reject_key r \<in> reject_key ` set rs then rs else rs @ [r])"

definition ft_insert_rejects :: "run_key \<Rightarrow> reject list \<Rightarrow> (fake_target, ldm_error, unit) prog" where
  "ft_insert_rejects k rejects = modP (\<lambda>t.
     t\<lparr>ft_rejects := (ft_rejects t)(k := foldl add_reject (ft_rejects t k) rejects)\<rparr>)"

definition ft_count_rejects :: "run_key \<Rightarrow> string \<Rightarrow> stage option \<Rightarrow> (fake_target, ldm_error, nat) prog" where
  "ft_count_rejects k table st = getP (\<lambda>t. length (filter
     (\<lambda>r. rj_table r = table \<and> (st = None \<or> st = Some (rj_stage r))) (ft_rejects t k)))"

definition ft_delete_rejects_keys ::
  "run_key \<Rightarrow> string \<Rightarrow> stage \<Rightarrow> string list \<Rightarrow> (fake_target, ldm_error, unit) prog" where
  "ft_delete_rejects_keys k table st keys = modP (\<lambda>t. t\<lparr>ft_rejects := (ft_rejects t)(k := filter
     (\<lambda>r. \<not> (rj_table r = table \<and> rj_stage r = st \<and> rj_source_key r \<in> set keys)) (ft_rejects t k))\<rparr>)"

definition ft_delete_rejects_range ::
  "run_key \<Rightarrow> string \<Rightarrow> stage \<Rightarrow> nat \<Rightarrow> (fake_target, ldm_error, unit) prog" where
  "ft_delete_rejects_range k table st seq = modP (\<lambda>t. t\<lparr>ft_rejects := (ft_rejects t)(k := filter
     (\<lambda>r. \<not> (rj_table r = table \<and> rj_stage r = st \<and> rj_range_seq r = Some seq)) (ft_rejects t k))\<rparr>)"

section \<open>FakeTarget: staging\<close>

definition staged_by :: "fake_target \<Rightarrow> staged_row \<Rightarrow> run_key option" where
  "staged_by t r = (case sr_stg_id r of None \<Rightarrow> None | Some i \<Rightarrow> ft_staging_ns t i)"

definition ft_stg :: "fake_target \<Rightarrow> run_key \<Rightarrow> string \<Rightarrow> staged_row list" where
  "ft_stg t k table = filter (\<lambda>r. staged_by t r = Some k) (ft_staging t table)"

definition ft_delete_staging_range :: "run_key \<Rightarrow> string \<Rightarrow> nat \<Rightarrow> (fake_target, ldm_error, unit) prog" where
  "ft_delete_staging_range k table seq = modP (\<lambda>t. t\<lparr>ft_staging := (ft_staging t)(table := filter
     (\<lambda>r. \<not> (staged_by t r = Some k \<and> sr_range_seq r = Some seq)) (ft_staging t table))\<rparr>)"

definition duplicate_failure :: "string \<Rightarrow> string \<Rightarrow> string \<Rightarrow> insert_failure" where
  "duplicate_failure table ns key = \<lparr>if_source_key = key, if_sqlstate = Some ''23000'', if_native_error = Some 2601,
     if_error = ''Cannot insert duplicate key row in object '' @ py_quote (''stg.'' @ table) @ '' with unique index '' @
       py_quote (''UX_stg_'' @ table @ ''_ns_key'') @ ''. The duplicate key value is ('' @ ns @ '', '' @ key @ '').''\<rparr>"

text \<open>One row: a planted failure, a duplicate key within the namespace, or stored.\<close>

definition stage_row ::
  "run_key \<Rightarrow> string \<Rightarrow> fake_target \<times> insert_failure list \<Rightarrow> staged_row \<Rightarrow> fake_target \<times> insert_failure list" where
  "stage_row k table st r = (case st of (t, fails) \<Rightarrow>
     (case ft_insert_failures t (sr_source_key r) of
        Some f \<Rightarrow> (t, fails @ [f])
      | None \<Rightarrow>
          if sr_source_key r \<in> sr_source_key ` set (filter (\<lambda>x. map_option snd (staged_by t x) = Some (snd k)) (ft_staging t table))
          then (t, fails @ [duplicate_failure table (snd k) (sr_source_key r)])
          else (t\<lparr>ft_staging_ns := (ft_staging_ns t)(ft_next_id t \<mapsto> k), ft_next_id := Suc (ft_next_id t),
                  ft_staging := (ft_staging t)(table := ft_staging t table @ [r\<lparr>sr_stg_id := Some (ft_next_id t)\<rparr>])\<rparr>,
                fails)))"

definition ft_insert_staging ::
  "run_key \<Rightarrow> string \<Rightarrow> staged_row list \<Rightarrow> (fake_target, ldm_error, insert_failure list) prog" where
  "ft_insert_staging k table rows = (\<lambda>t. case foldl (stage_row k table) (t, []) rows of (t', fails) \<Rightarrow> (Inr fails, t'))"

definition ft_count_staging :: "run_key \<Rightarrow> string \<Rightarrow> (fake_target, ldm_error, nat) prog" where
  "ft_count_staging k table = getP (\<lambda>t. length (ft_stg t k table))"

definition ft_iter_staging :: "run_key \<Rightarrow> string \<Rightarrow> nat \<Rightarrow> (fake_target, ldm_error, staged_row list list) prog" where
  "ft_iter_staging k table batch = getP (\<lambda>t. chunks batch (sort_key sr_source_key (ft_stg t k table)))"

definition ft_target_hashes ::
  "(bytes \<Rightarrow> bytes) \<Rightarrow> run_key \<Rightarrow> string \<Rightarrow> string \<Rightarrow> string \<Rightarrow> string \<Rightarrow>
   (fake_target, ldm_error, (string \<times> bytes) list) prog" where
  "ft_target_hashes sha k table expr key_from key_to = (\<lambda>t. case ft_shapes t table of
       None \<Rightarrow> (Inl key_error, t)
     | Some sh \<Rightarrow>
         (foldE (\<lambda>r d. bindE (target_hash sha (sr_values r) (sh_hash_columns sh) (sh_specs sh))
                         (\<lambda>h. Inr (dict_set (sr_source_key r) h d)))
            (filter (\<lambda>r. key_from \<le> sr_source_key r \<and> sr_source_key r \<le> key_to) (ft_stg t k table)) [], t))"

definition add_to_class ::
  "string \<Rightarrow> string list \<Rightarrow> staged_row \<Rightarrow> (string \<times> class_aggregate) list \<Rightarrow>
   ldm_error + (string \<times> class_aggregate) list" where
  "add_to_class class_column sum_columns r out =
     bindE (field (sr_values r) class_column) (\<lambda>cv.
       let cls = rstrip_sp (py_str cv); agg = (case map_of out cls of None \<Rightarrow> no_aggregate | Some a \<Rightarrow> a) in
       bindE (foldE (\<lambda>c sums. bindE (field (sr_values r) c) (\<lambda>v. case v of
                   VDec d \<Rightarrow> Inr (sum_add c d sums) | _ \<Rightarrow> Inl (PyError ''AssertionError''))) sum_columns (ca_sums agg))
         (\<lambda>sums. Inr (dict_set cls \<lparr>ca_count = Suc (ca_count agg), ca_sums = sums\<rparr> out)))"

definition ft_class_aggregates ::
  "run_key \<Rightarrow> string \<Rightarrow> string \<Rightarrow> string list \<Rightarrow> (fake_target, ldm_error, (string \<times> class_aggregate) list) prog" where
  "ft_class_aggregates k table class_column sum_columns =
     (\<lambda>t. (foldE (add_to_class class_column sum_columns) (ft_stg t k table) [], t))"

section \<open>FakeTarget: validation, archive, purge audit\<close>

definition ft_validated_keys :: "fake_target \<Rightarrow> run_key \<Rightarrow> string \<Rightarrow> string list" where
  "ft_validated_keys t k table =
     map vr_source_key (filter (\<lambda>v. vr_table v = table \<and> vr_status v = Validated) (ft_validation t k))"

definition key_parts :: "row \<Rightarrow> string list \<Rightarrow> ldm_error + string list" where
  "key_parts r cols = mapE (\<lambda>c. bindE (field r c) (\<lambda>v. Inr (rstrip_sp (py_str v)))) cols"

definition ft_parents_present ::
  "run_key \<Rightarrow> string \<Rightarrow> string list \<Rightarrow> string \<Rightarrow> string list \<Rightarrow> (fake_target, ldm_error, string list) prog" where
  "ft_parents_present k child child_columns parent parent_columns = (\<lambda>t.
     (bindE (mapE (\<lambda>p. key_parts (sr_values p) parent_columns)
               (filter (\<lambda>p. sr_source_key p \<in> set (ft_validated_keys t k parent)) (ft_stg t k parent))) (\<lambda>staged.
      bindE (mapE (\<lambda>(_, r). key_parts r parent_columns) (ft_arch t parent)) (\<lambda>archived.
      bindE (filterE (\<lambda>c. bindE (key_parts (sr_values c) child_columns)
                        (\<lambda>parts. Inr (parts \<in> set staged \<union> set archived))) (ft_stg t k child)) (\<lambda>children.
      Inr (map sr_source_key children)))), t))"

definition ft_write_validation :: "run_key \<Rightarrow> validation_row list \<Rightarrow> (fake_target, ldm_error, unit) prog" where
  "ft_write_validation k rows = modP (\<lambda>t. t\<lparr>ft_validation := (ft_validation t)(k :=
     filter (\<lambda>v. (vr_table v, vr_source_key v) \<notin> (\<lambda>r. (vr_table r, vr_source_key r)) ` set rows) (ft_validation t k) @
     rows)\<rparr>)"

definition ft_write_class_totals :: "run_key \<Rightarrow> class_total_row list \<Rightarrow> (fake_target, ldm_error, unit) prog" where
  "ft_write_class_totals k rows = modP (\<lambda>t. t\<lparr>ft_class_totals := (ft_class_totals t)(k :=
     filter (\<lambda>c. cl_table c \<notin> cl_table ` set rows) (ft_class_totals t k) @ rows)\<rparr>)"

definition ft_get_class_totals :: "run_key \<Rightarrow> (fake_target, ldm_error, class_total_row list) prog" where
  "ft_get_class_totals k = getP (\<lambda>t. ft_class_totals t k)"

definition full_key :: "row \<Rightarrow> string list \<Rightarrow> ldm_error + string list" where
  "full_key r cols = mapE (\<lambda>c. bindE (field r c) (\<lambda>v. Inr (py_str v))) cols"

definition ft_archived_hashes ::
  "run_key \<Rightarrow> string \<Rightarrow> string list \<Rightarrow> (fake_target, ldm_error, (string \<times> bytes) list) prog" where
  "ft_archived_hashes k table key_columns = (\<lambda>t.
     (foldE (\<lambda>r d. bindE (full_key (sr_values r) key_columns) (\<lambda>key.
              Inr (case map_of (ft_arch_hash t table) key of
                     None \<Rightarrow> d | Some h \<Rightarrow> dict_set (sr_source_key r) h d))) (ft_stg t k table) [], t))"

definition promote_row ::
  "string list \<Rightarrow> (string \<times> bytes) list \<Rightarrow> string list \<Rightarrow> staged_row \<Rightarrow>
   (string list \<times> row) list \<times> (string list \<times> bytes) list \<times> nat \<Rightarrow>
   ldm_error + ((string list \<times> row) list \<times> (string list \<times> bytes) list \<times> nat)" where
  "promote_row validated hashes key_columns r st = (case st of (arch, arch_hash, n) \<Rightarrow>
     if sr_source_key r \<notin> set validated then Inr (arch, arch_hash, n)
     else bindE (full_key (sr_values r) key_columns) (\<lambda>key.
       if map_of arch key \<noteq> None then Inr (arch, arch_hash, n)
       else Inr (arch @ [(key, sr_values r)],
                 dict_set key (case map_of hashes (sr_source_key r) of None \<Rightarrow> [] | Some h \<Rightarrow> h) arch_hash, Suc n)))"

text \<open>Rows promoted before a \<open>KeyError\<close> stay promoted, as the loop leaves them.\<close>

fun promote_rows ::
  "string list \<Rightarrow> (string \<times> bytes) list \<Rightarrow> string list \<Rightarrow> staged_row list \<Rightarrow>
   (string list \<times> row) list \<times> (string list \<times> bytes) list \<times> nat \<Rightarrow>
   ldm_error option \<times> (string list \<times> row) list \<times> (string list \<times> bytes) list \<times> nat" where
  "promote_rows validated hashes key_columns [] st = (None, st)"
| "promote_rows validated hashes key_columns (r # rs) st =
     (case promote_row validated hashes key_columns r st of
        Inl e \<Rightarrow> (Some e, st)
      | Inr st' \<Rightarrow> promote_rows validated hashes key_columns rs st')"

definition validation_hashes :: "fake_target \<Rightarrow> run_key \<Rightarrow> string \<Rightarrow> (string \<times> bytes) list" where
  "validation_hashes t k table = foldl (\<lambda>d v. if vr_table v = table
       then (case vr_source_hash v of None \<Rightarrow> d | Some h \<Rightarrow> dict_set (vr_source_key v) h d) else d) [] (ft_validation t k)"

definition ft_promote :: "run_key \<Rightarrow> string \<Rightarrow> string list \<Rightarrow> (fake_target, ldm_error, nat) prog" where
  "ft_promote k table key_columns = (\<lambda>t.
     case promote_rows (ft_validated_keys t k table) (validation_hashes t k table) key_columns (ft_stg t k table)
            (ft_arch t table, ft_arch_hash t table, 0) of
       (err, arch, arch_hash, n) \<Rightarrow>
         let t' = t\<lparr>ft_arch := (ft_arch t)(table := arch), ft_arch_hash := (ft_arch_hash t)(table := arch_hash)\<rparr>
         in (case err of None \<Rightarrow> (Inr n, t') | Some e \<Rightarrow> (Inl e, t')))"

definition ft_purge_safe_keys :: "run_key \<Rightarrow> string \<Rightarrow> (fake_target, ldm_error, string list) prog" where
  "ft_purge_safe_keys k table = getP (\<lambda>t. sort (map vr_source_key
     (filter (\<lambda>v. vr_table v = table \<and> vr_purge_safe v) (ft_validation t k))))"

definition ft_count_validation :: "run_key \<Rightarrow> string \<Rightarrow> row_status \<Rightarrow> (fake_target, ldm_error, nat) prog" where
  "ft_count_validation k table st = getP (\<lambda>t. length (filter
     (\<lambda>v. vr_table v = table \<and> vr_status v = st) (ft_validation t k)))"

definition audited_in :: "fake_target \<Rightarrow> run_key \<Rightarrow> string \<Rightarrow> string set" where
  "audited_in t k table = pa_source_key ` set (filter (\<lambda>a. pa_table a = table) (ft_purge_audit t k))"

definition ft_insert_purge_audit ::
  "run_key \<Rightarrow> string \<Rightarrow> string list \<Rightarrow> nat \<Rightarrow> (fake_target, ldm_error, unit) prog" where
  "ft_insert_purge_audit k table keys batch_no = modP (\<lambda>t. t\<lparr>ft_purge_audit := (ft_purge_audit t)(k :=
     ft_purge_audit t k @ map (\<lambda>key. \<lparr>pa_table = table, pa_source_key = key, pa_batch_no = batch_no,
       pa_status = Intended\<rparr>) (filter (\<lambda>key. key \<notin> audited_in t k table) keys))\<rparr>)"

definition ft_set_purge_audit_status ::
  "run_key \<Rightarrow> string \<Rightarrow> string list \<Rightarrow> audit_status \<Rightarrow> (fake_target, ldm_error, unit) prog" where
  "ft_set_purge_audit_status k table keys st = modP (\<lambda>t. t\<lparr>ft_purge_audit := (ft_purge_audit t)(k :=
     map (\<lambda>a. if pa_table a = table \<and> pa_source_key a \<in> set keys then a\<lparr>pa_status := st\<rparr> else a)
       (ft_purge_audit t k))\<rparr>)"

text \<open>The set of purged keys, each once.\<close>

definition ft_purged_keys :: "run_key \<Rightarrow> string \<Rightarrow> (fake_target, ldm_error, string list) prog" where
  "ft_purged_keys k table = getP (\<lambda>t. remdups (map pa_source_key
     (filter (\<lambda>a. pa_table a = table \<and> pa_status a = Purged) (ft_purge_audit t k))))"

section \<open>FakeTarget: reconcile\<close>

definition reject_failure :: "reject \<Rightarrow> failure_row" where
  "reject_failure r = \<lparr>fr_table = rj_table r, fr_source_key = rj_source_key r, fr_stage = rj_stage r,
     fr_rule = rj_rule r, fr_field = rj_field r, fr_sqlstate = rj_sqlstate r, fr_native_error = rj_native_error r,
     fr_error = rj_error r\<rparr>"

definition validation_failure :: "validation_row \<Rightarrow> failure_row" where
  "validation_failure v = \<lparr>fr_table = vr_table v, fr_source_key = vr_source_key v, fr_stage = Validate,
     fr_rule = text_or [] (vr_rule v), fr_field = None, fr_sqlstate = None, fr_native_error = None,
     fr_error = text_or [] (vr_error v)\<rparr>"

definition ft_failures :: "run_key \<Rightarrow> (fake_target, ldm_error, failure_row list) prog" where
  "ft_failures k = getP (\<lambda>t.
     let out = map reject_failure (ft_rejects t k);
         seen = (\<lambda>f. (fr_table f, fr_source_key f)) ` set out;
         more = filter (\<lambda>v. vr_status v = Failed \<and> (vr_table v, vr_source_key v) \<notin> seen) (ft_validation t k)
     in sort_key fr_table (sort_key fr_source_key (out @ map validation_failure more)))"

definition ft_insert_run_sessions :: "run_key \<Rightarrow> (string \<times> string) list \<Rightarrow> (fake_target, ldm_error, unit) prog" where
  "ft_insert_run_sessions k sessions = ft_with_run k (\<lambda>r. r\<lparr>ru_sessions := sessions\<rparr>)"

definition ft_delete_staging_run :: "run_key \<Rightarrow> (fake_target, ldm_error, unit) prog" where
  "ft_delete_staging_run k = modP (\<lambda>t. t\<lparr>ft_staging := (\<lambda>table.
     filter (\<lambda>r. staged_by t r \<noteq> Some k) (ft_staging t table))\<rparr>)"

definition fake_target_ops :: "(bytes \<Rightarrow> bytes) \<Rightarrow> fake_target target_ops" where
  "fake_target_ops sha = \<lparr>
     to_connect = modP (\<lambda>t. t\<lparr>ft_connected := True\<rparr>),
     to_close = modP (\<lambda>t. t\<lparr>ft_connected := False\<rparr>),
     to_register_table = ft_register_table,
     to_applied_ddl = getP ft_ddl_applied,
     to_apply_ddl = ft_apply_ddl,
     to_ensure_reader = ft_ensure_reader,
     to_apply_sql = ft_apply_sql,
     to_ensure_run = ft_ensure_run,
     to_refresh_run = ft_refresh_run,
     to_get_run_status = ft_get_run_status,
     to_set_run_status = ft_set_run_status,
     to_ensure_ledger = ft_ensure_ledger,
     to_get_ledger = ft_get_ledger,
     to_update_ledger = ft_update_ledger,
     to_log_start = ft_log_start,
     to_log_finish = ft_log_finish,
     to_get_key_ranges = ft_get_key_ranges,
     to_insert_key_ranges = ft_insert_key_ranges,
     to_update_key_range = ft_update_key_range,
     to_insert_rejects = ft_insert_rejects,
     to_count_rejects = ft_count_rejects,
     to_delete_rejects_keys = ft_delete_rejects_keys,
     to_delete_staging_range = ft_delete_staging_range,
     to_delete_rejects_range = ft_delete_rejects_range,
     to_insert_staging = ft_insert_staging,
     to_count_staging = ft_count_staging,
     to_iter_staging = ft_iter_staging,
     to_target_hashes = ft_target_hashes sha,
     to_class_aggregates = ft_class_aggregates,
     to_parents_present = ft_parents_present,
     to_write_validation = ft_write_validation,
     to_write_class_totals = ft_write_class_totals,
     to_get_class_totals = ft_get_class_totals,
     to_archived_hashes = ft_archived_hashes,
     to_promote = ft_promote,
     to_purge_safe_keys = ft_purge_safe_keys,
     to_count_validation = ft_count_validation,
     to_insert_purge_audit = ft_insert_purge_audit,
     to_set_purge_audit_status = ft_set_purge_audit_status,
     to_purged_keys = ft_purged_keys,
     to_failures = ft_failures,
     to_insert_run_sessions = ft_insert_run_sessions,
     to_delete_staging_run = ft_delete_staging_run\<rparr>"

end
