(* ===== verification/Ldm_Context.thy ===== *)
theory Ldm_Context
  imports Ldm_Fakes
begin

text \<open>
  The run context (\<open>migration/job/ldm/context.py\<close>) and the staging stores
  (\<open>migration/job/ldm/staging.py\<close>). The stages are programs over a world that holds the state of
  the source, of the target, the local files and the blob store; the drivers and the store are
  records of operations. SHA-256 and the process environment are arguments.
\<close>

section \<open>The world of a run\<close>

type_synonym files = "string \<Rightarrow> bytes option"

record ('s, 't, 'b) world =
  w_source :: 's
  w_target :: 't
  w_files :: files
  w_blobs :: 'b

definition onS :: "('s, 'e, 'a) prog \<Rightarrow> (('s, 't, 'b) world, 'e, 'a) prog" where
  "onS m = (\<lambda>w. case m (w_source w) of (r, s) \<Rightarrow> (r, w\<lparr>w_source := s\<rparr>))"

definition onT :: "('t, 'e, 'a) prog \<Rightarrow> (('s, 't, 'b) world, 'e, 'a) prog" where
  "onT m = (\<lambda>w. case m (w_target w) of (r, t) \<Rightarrow> (r, w\<lparr>w_target := t\<rparr>))"

definition onF :: "(files \<times> 'b, 'e, 'a) prog \<Rightarrow> (('s, 't, 'b) world, 'e, 'a) prog" where
  "onF m = (\<lambda>w. case m (w_files w, w_blobs w) of (r, (fs, b)) \<Rightarrow> (r, w\<lparr>w_files := fs, w_blobs := b\<rparr>))"

lemma onT_frame:
  "onT m w = (r, w') \<Longrightarrow> w_files w' = w_files w \<and> w_source w' = w_source w \<and> w_blobs w' = w_blobs w"
  by (auto simp: onT_def split: prod.splits)

lemma onT_step: "onT m w = (r, w') \<longleftrightarrow> (\<exists>t. m (w_target w) = (r, t) \<and> w' = w\<lparr>w_target := t\<rparr>)"
  by (auto simp: onT_def split: prod.splits)

lemma onS_step: "onS m w = (r, w') \<longleftrightarrow> (\<exists>s. m (w_source w) = (r, s) \<and> w' = w\<lparr>w_source := s\<rparr>)"
  by (auto simp: onS_def split: prod.splits)

text \<open>A Hoare triple about one part of the world.\<close>

lemma hoare_onT:
  assumes "\<And>s fs b. hoare (\<lambda>t. P \<lparr>w_source = s, w_target = t, w_files = fs, w_blobs = b\<rparr>) m
             (\<lambda>a t. Q a \<lparr>w_source = s, w_target = t, w_files = fs, w_blobs = b\<rparr>)
             (\<lambda>e t. E e \<lparr>w_source = s, w_target = t, w_files = fs, w_blobs = b\<rparr>)"
  shows "hoare P (onT m) Q E"
  unfolding hoare_def
proof (intro allI impI)
  fix w
  assume w: "P w"
  obtain s t fs b where "w = \<lparr>w_source = s, w_target = t, w_files = fs, w_blobs = b\<rparr>" by (cases w) blast
  with w assms [of s fs b] show "case onT m w of (Inl e, t) \<Rightarrow> E e t | (Inr a, t) \<Rightarrow> Q a t"
    by (auto simp: hoare_def onT_def split: prod.splits sum.splits)
qed

lemma hoare_onS:
  assumes "\<And>t fs b. hoare (\<lambda>s. P \<lparr>w_source = s, w_target = t, w_files = fs, w_blobs = b\<rparr>) m
             (\<lambda>a s. Q a \<lparr>w_source = s, w_target = t, w_files = fs, w_blobs = b\<rparr>)
             (\<lambda>e s. E e \<lparr>w_source = s, w_target = t, w_files = fs, w_blobs = b\<rparr>)"
  shows "hoare P (onS m) Q E"
  unfolding hoare_def
proof (intro allI impI)
  fix w
  assume w: "P w"
  obtain s t fs b where "w = \<lparr>w_source = s, w_target = t, w_files = fs, w_blobs = b\<rparr>" by (cases w) blast
  with w assms [of t fs b] show "case onS m w of (Inl e, t) \<Rightarrow> E e t | (Inr a, t) \<Rightarrow> Q a t"
    by (auto simp: hoare_def onS_def split: prod.splits sum.splits)
qed

lemma keeps_onT:
  assumes "\<And>w r t. I w \<Longrightarrow> m (w_target w) = (r, t) \<Longrightarrow> I (w\<lparr>w_target := t\<rparr>)"
  shows "keeps I (onT m)"
  using assms by (intro keepsI) (auto simp: onT_def split: prod.splits)

lemma keeps_onS:
  assumes "\<And>w r s. I w \<Longrightarrow> m (w_source w) = (r, s) \<Longrightarrow> I (w\<lparr>w_source := s\<rparr>)"
  shows "keeps I (onS m)"
  using assms by (intro keepsI) (auto simp: onS_def split: prod.splits)

section \<open>Blob stores\<close>

record 'b blob_ops =
  bo_enabled :: bool
  bo_upload :: "string \<Rightarrow> string \<Rightarrow> (files \<times> 'b, ldm_error, unit) prog"
  bo_download :: "string \<Rightarrow> string \<Rightarrow> (files \<times> 'b, ldm_error, bool) prog"
  bo_upload_bytes :: "bytes \<Rightarrow> string \<Rightarrow> string \<Rightarrow> (files \<times> 'b, ldm_error, unit) prog"

definition no_blob_store :: "'b blob_ops" where
  "no_blob_store = \<lparr>bo_enabled = False, bo_upload = (\<lambda>_ _. retP ()), bo_download = (\<lambda>_ _. retP False),
                    bo_upload_bytes = (\<lambda>_ _ _. retP ())\<rparr>"

text \<open>A local file that does not exist raises \<open>FileNotFoundError\<close>.\<close>

definition file_not_found :: ldm_error where
  "file_not_found = PyError ''FileNotFoundError''"

definition dir_upload :: "string \<Rightarrow> string \<Rightarrow> (files \<times> files, ldm_error, unit) prog" where
  "dir_upload local blob = (\<lambda>(fs, bs). case fs local of
       None \<Rightarrow> (Inl file_not_found, (fs, bs))
     | Some d \<Rightarrow> (Inr (), (fs, bs(blob \<mapsto> d))))"

definition dir_download :: "string \<Rightarrow> string \<Rightarrow> (files \<times> files, ldm_error, bool) prog" where
  "dir_download blob local = (\<lambda>(fs, bs). case bs blob of
       None \<Rightarrow> (Inr False, (fs, bs))
     | Some d \<Rightarrow> (Inr True, (fs(local \<mapsto> d), bs)))"

definition dir_upload_bytes :: "bytes \<Rightarrow> string \<Rightarrow> string \<Rightarrow> (files \<times> files, ldm_error, unit) prog" where
  "dir_upload_bytes data blob content_type = (\<lambda>(fs, bs). (Inr (), (fs, bs(blob \<mapsto> data))))"

definition directory_blob_store :: "files blob_ops" where
  "directory_blob_store = \<lparr>bo_enabled = True, bo_upload = dir_upload, bo_download = dir_download,
                           bo_upload_bytes = dir_upload_bytes\<rparr>"

text \<open>
  The S3 store over a client: \<open>put\<close> and \<open>get\<close> of an object of the bucket, where \<open>get\<close> may fail
  with the code of a \<open>ClientError\<close>. A failed download has already created the local file, and
  only a not-found code removes it again.
\<close>

record 'c s3_client =
  s3_put :: "bytes \<Rightarrow> string \<Rightarrow> ('c, ldm_error, unit) prog"
  s3_get :: "string \<Rightarrow> ('c, ldm_error, string + bytes) prog"

definition s3_upload :: "'c s3_client \<Rightarrow> string \<Rightarrow> string \<Rightarrow> (files \<times> 'c, ldm_error, unit) prog" where
  "s3_upload cl local blob = (\<lambda>(fs, c). case fs local of
       None \<Rightarrow> (Inl file_not_found, (fs, c))
     | Some d \<Rightarrow> (case s3_put cl d blob c of (r, c') \<Rightarrow> (r, (fs, c'))))"

definition s3_download :: "'c s3_client \<Rightarrow> string \<Rightarrow> string \<Rightarrow> (files \<times> 'c, ldm_error, bool) prog" where
  "s3_download cl blob local = (\<lambda>(fs, c). case s3_get cl blob c of
       (Inl e, c') \<Rightarrow> (Inl e, (fs(local \<mapsto> []), c'))
     | (Inr (Inl code), c') \<Rightarrow>
         if code \<in> {''404'', ''NoSuchKey'', ''NotFound''} then (Inr False, (fs(local := None), c'))
         else (Inl (PyError ''ClientError''), (fs(local \<mapsto> []), c'))
     | (Inr (Inr d), c') \<Rightarrow> (Inr True, (fs(local \<mapsto> d), c')))"

definition s3_upload_bytes :: "'c s3_client \<Rightarrow> bytes \<Rightarrow> string \<Rightarrow> string \<Rightarrow> (files \<times> 'c, ldm_error, unit) prog" where
  "s3_upload_bytes cl data blob content_type = (\<lambda>(fs, c). case s3_put cl data blob c of (r, c') \<Rightarrow> (r, (fs, c')))"

definition s3_blob_store :: "'c s3_client \<Rightarrow> 'c blob_ops" where
  "s3_blob_store cl = \<lparr>bo_enabled = True, bo_upload = s3_upload cl, bo_download = s3_download cl,
                       bo_upload_bytes = s3_upload_bytes cl\<rparr>"

section \<open>The contract of a blob store\<close>

text \<open>
  \<open>stored b p\<close> is what the store holds under a path: an upload stores the local bytes and
  nothing else, a download writes exactly the stored bytes to the local path, or reports
  that there are none and gives the local path no contents.
\<close>

locale blob_store =
  fixes B :: "'b blob_ops" and stored :: "'b \<Rightarrow> files"
  assumes upload: "fs local = Some d \<Longrightarrow>
      \<exists>b'. bo_upload B local blob (fs, b) = (Inr (), (fs, b')) \<and> stored b' = (stored b)(blob \<mapsto> d)"
    and download_hit: "stored b blob = Some d \<Longrightarrow>
      \<exists>b'. bo_download B blob local (fs, b) = (Inr True, (fs(local \<mapsto> d), b')) \<and> stored b' = stored b"
    and download_miss: "stored b blob = None \<Longrightarrow>
      \<exists>fs' b'. bo_download B blob local (fs, b) = (Inr False, (fs', b')) \<and> stored b' = stored b \<and>
        (\<forall>p. p \<noteq> local \<longrightarrow> fs' p = fs p)"
begin

lemma upload_download:
  assumes "fs local = Some d"
  shows "\<exists>b' b''. bo_upload B local blob (fs, b) = (Inr (), (fs, b')) \<and>
    bo_download B blob local' (fs', b') = (Inr True, (fs'(local' \<mapsto> d), b'')) \<and> stored b'' blob = Some d"
proof -
  from upload [where fs = fs, OF assms] obtain b' where
    up: "bo_upload B local blob (fs, b) = (Inr (), (fs, b'))" "stored b' = (stored b)(blob \<mapsto> d)" by blast
  then have "stored b' blob = Some d" by simp
  from download_hit [OF this] obtain b'' where
    "bo_download B blob local' (fs', b') = (Inr True, (fs'(local' \<mapsto> d), b''))" "stored b'' = stored b'" by blast
  with up show ?thesis by auto
qed

end

interpretation dir_store: blob_store directory_blob_store "\<lambda>b. b"
  by unfold_locales (auto simp: directory_blob_store_def dir_upload_def dir_download_def)

text \<open>The S3 store meets the contract when its client stores and returns objects.\<close>

locale s3_backend =
  fixes cl :: "'c s3_client" and objects :: "'c \<Rightarrow> files"
  assumes put: "\<exists>c'. s3_put cl d k c = (Inr (), c') \<and> objects c' = (objects c)(k \<mapsto> d)"
    and get_hit: "objects c k = Some d \<Longrightarrow> \<exists>c'. s3_get cl k c = (Inr (Inr d), c') \<and> objects c' = objects c"
    and get_miss: "objects c k = None \<Longrightarrow>
      \<exists>c'. s3_get cl k c = (Inr (Inl ''NoSuchKey''), c') \<and> objects c' = objects c"

sublocale s3_backend \<subseteq> s3_store: blob_store "s3_blob_store cl" objects
proof unfold_locales
  fix fs :: files and l d blob b
  assume "fs l = Some d"
  then show "\<exists>b'. bo_upload (s3_blob_store cl) l blob (fs, b) = (Inr (), (fs, b')) \<and> objects b' = (objects b)(blob \<mapsto> d)"
    using put [of d blob b] by (auto simp: s3_blob_store_def s3_upload_def)
next
  fix b blob d l and fs :: files
  assume "objects b blob = Some d"
  from get_hit [OF this] show "\<exists>b'. bo_download (s3_blob_store cl) blob l (fs, b) = (Inr True, (fs(l \<mapsto> d), b')) \<and>
      objects b' = objects b"
    by (auto simp: s3_blob_store_def s3_download_def)
next
  fix b blob l and fs :: files
  assume "objects b blob = None"
  from get_miss [OF this] show "\<exists>fs' b'. bo_download (s3_blob_store cl) blob l (fs, b) = (Inr False, (fs', b')) \<and>
      objects b' = objects b \<and> (\<forall>p. p \<noteq> l \<longrightarrow> fs' p = fs p)"
    by (auto simp: s3_blob_store_def s3_download_def)
qed

text \<open>A bucket of objects in memory.\<close>

definition memory_client :: "files s3_client" where
  "memory_client = \<lparr>s3_put = (\<lambda>d k c. (Inr (), c(k \<mapsto> d))),
     s3_get = (\<lambda>k c. (Inr (case c k of None \<Rightarrow> Inl ''NoSuchKey'' | Some d \<Rightarrow> Inr d), c))\<rparr>"

interpretation memory_s3: s3_backend memory_client "\<lambda>b. b"
  by unfold_locales (auto simp: memory_client_def)

section \<open>Table specifications and the context\<close>

record table_spec =
  ts_config :: table_config
  ts_copybook :: copybook
  ts_columns :: "column_spec list"

definition ts_name :: "table_spec \<Rightarrow> string" where
  "ts_name ts = tc_name (ts_config ts)"

definition ts_key_column :: "table_spec \<Rightarrow> ldm_error + string" where
  "ts_key_column ts = (case tc_key_columns (ts_config ts) of
       [c] \<Rightarrow> Inr c | _ \<Rightarrow> Inl (ConfigError ''composite keys are not supported by this stage''))"

record run_context =
  rc_manifest :: manifest
  rc_manifest_sha :: string
  rc_run_id :: string
  rc_local_dir :: string
  rc_env :: "(string \<times> string) list"
  rc_tables :: "(string \<times> table_spec) list"

definition rc_key :: "run_context \<Rightarrow> run_key" where
  "rc_key ctx = (rc_run_id ctx, m_namespace (rc_manifest ctx))"

definition rc_table :: "run_context \<Rightarrow> string \<Rightarrow> ldm_error + table_spec" where
  "rc_table ctx n = (case map_of (rc_tables ctx) n of Some t \<Rightarrow> Inr t | None \<Rightarrow> Inl key_error)"

definition tables_in_order :: "run_context \<Rightarrow> ldm_error + table_spec list" where
  "tables_in_order ctx = mapE (\<lambda>t. rc_table ctx (tc_name t)) (m_tables_in_order (rc_manifest ctx))"

definition data_tables :: "run_context \<Rightarrow> ldm_error + table_spec list" where
  "data_tables ctx = mapE (\<lambda>t. rc_table ctx (tc_name t)) (m_data_tables (rc_manifest ctx))"

definition blob_prefix :: "run_context \<Rightarrow> ldm_error + string" where
  "blob_prefix ctx = format_named [(''namespace'', m_namespace (rc_manifest ctx)), (''run_id'', rc_run_id ctx)]
                       (m_blob_prefix (rc_manifest ctx))"

text \<open>\<open>a / b\<close> of paths.\<close>

definition path_join :: "string \<Rightarrow> string \<Rightarrow> string" where
  "path_join a b = (if py_endswith ''/'' a then a @ b else a @ ''/'' @ b)"

definition range_dir :: "run_context \<Rightarrow> string \<Rightarrow> ldm_error + string" where
  "range_dir ctx table = bindE (blob_prefix ctx) (\<lambda>p. Inr (path_join (path_join (rc_local_dir ctx) p) table))"

text \<open>\<open>env.get(name)\<close>, empty values counting as absent.\<close>

definition env_get :: "run_context \<Rightarrow> string \<Rightarrow> string option" where
  "env_get ctx n = (case map_of (rc_env ctx) n of None \<Rightarrow> None | Some v \<Rightarrow> if v = [] then None else Some v)"

definition selection_for :: "run_context \<Rightarrow> table_config \<Rightarrow> ldm_error + selection_spec" where
  "selection_for ctx t = (let m = rc_manifest ctx; sel = tc_selection t in
     bindE (case sel_parent sel of
              None \<Rightarrow> Inr None
            | Some p \<Rightarrow> bindE (m_table m (pr_table p)) (\<lambda>pt. Inr (Some (tc_qualified_name pt)))) (\<lambda>parent_table.
     bindE (if sel_is_all sel then Inr []
            else if \<not> truthy (sel_retention_classes sel) then Inl (PyError ''AssertionError'')
            else (case map_of (m_selection_sets m) (the (sel_retention_classes sel)) of
                    Some cs \<Rightarrow> Inr cs | None \<Rightarrow> Inl key_error)) (\<lambda>classes.
     Inr \<lparr>ss_key_columns = tc_key_columns t, ss_all_rows = sel_is_all sel, ss_class_column = sel_class_column sel,
          ss_classes = classes, ss_last_access_column = sel_last_access_column sel,
          ss_last_access_before = sel_last_access_before sel, ss_parent_table = parent_table,
          ss_parent_child_columns = (case sel_parent sel of None \<Rightarrow> [] | Some p \<Rightarrow> pr_columns p),
          ss_parent_columns = (case sel_parent sel of None \<Rightarrow> [] | Some p \<Rightarrow> pr_references p)\<rparr>)))"

definition build_table_specs ::
  "manifest \<Rightarrow> typemap \<Rightarrow> (string \<Rightarrow> string option) \<Rightarrow> ldm_error + (string \<times> table_spec) list" where
  "build_table_specs m tm read_copybook =
     foldE (\<lambda>t out.
         bindE (parse_copybook (tc_copybook t) (read_copybook (tc_copybook t)) (Some (tc_record_length t))) (\<lambda>cb.
         bindE (build_column_specs t cb tm (m_text_encoding m)) (\<lambda>specs.
         Inr (dict_set (tc_name t) \<lparr>ts_config = t, ts_copybook = cb, ts_columns = specs\<rparr> out))))
       (m_tables m) []"

definition require_env :: "(string \<times> string) list \<Rightarrow> string list \<Rightarrow> ldm_error + unit" where
  "require_env env names = guardE (list_all (\<lambda>n. truthy (map_of env n)) names)
     (ConfigError ''missing environment variable(s)'')"

definition local_staging_dir :: "(string \<times> string) list \<Rightarrow> string \<Rightarrow> string" where
  "local_staging_dir env var = text_or ''/work/staging'' (map_of env var)"

section \<open>Wrapping a table step in the stage log\<close>

text \<open>
  The loop body the stages share: start a log entry, run the step, and on any exception
  finish the entry as FAILED with the first 4000 characters of the error and raise again.
\<close>

definition logged ::
  "'t target_ops \<Rightarrow> run_key \<Rightarrow> stage \<Rightarrow> string option \<Rightarrow> (('s, 't, 'b) world, ldm_error, 'a) prog \<Rightarrow>
   ('a \<Rightarrow> log_status \<times> nat option \<times> string option) \<Rightarrow> (('s, 't, 'b) world, ldm_error, 'a) prog" where
  "logged T k st table body result =
     bindP (onT (to_log_start T k st table)) (\<lambda>log_id.
     bindP (tryP body (\<lambda>e.
              thenP (onT (to_log_finish T log_id LogFailed None (Some (take 4000 (error_text e))))) (raiseP e))) (\<lambda>a.
     case result a of (lst, rows, msg) \<Rightarrow> thenP (onT (to_log_finish T log_id lst rows msg)) (retP a)))"

lemma logged_keeps:
  assumes "keeps I (onT (to_log_start T k st table))" and "\<And>a b c d. keeps I (onT (to_log_finish T a b c d))"
    and "keeps I body"
  shows "keeps I (logged T k st table body result)"
  unfolding logged_def using assms by (auto intro!: keeps_rules split: prod.split)

lemma logged_value:
  assumes "keeps I (onT (to_log_start T k st table))" and "\<And>a b c d. keeps I (onT (to_log_finish T a b c d))"
    and "hoare I body (\<lambda>a s. I s \<and> p a) (\<lambda>_. I)"
  shows "hoare I (logged T k st table body result) (\<lambda>a s. I s \<and> p a) (\<lambda>_. I)"
  unfolding logged_def
proof (rule hoare_bind [where R = "\<lambda>_. I"])
  show "hoare I (onT (to_log_start T k st table)) (\<lambda>_. I) (\<lambda>_. I)" using assms(1) by (simp add: keeps_def)
  fix log_id
  have fin: "hoare I (onT (to_log_finish T log_id x y z)) (\<lambda>_. I) (\<lambda>_. I)" for x y z
    using assms(2) by (simp add: keeps_def)
  show "hoare I (bindP (tryP body (\<lambda>e. thenP (onT (to_log_finish T log_id LogFailed None (Some (take 4000 (error_text e)))))
          (raiseP e))) (\<lambda>a. case result a of (lst, rows, msg) \<Rightarrow> thenP (onT (to_log_finish T log_id lst rows msg)) (retP a)))
      (\<lambda>a s. I s \<and> p a) (\<lambda>_. I)"
  proof (rule hoare_bind [where R = "\<lambda>a s. I s \<and> p a"])
    show "hoare I (tryP body (\<lambda>e. thenP (onT (to_log_finish T log_id LogFailed None (Some (take 4000 (error_text e)))))
          (raiseP e))) (\<lambda>a s. I s \<and> p a) (\<lambda>_. I)"
      by (rule hoare_try [OF assms(3)]) (rule hoare_then [OF fin], simp add: hoare_raise)
    fix a
    show "hoare (\<lambda>s. I s \<and> p a) (case result a of (lst, rows, msg) \<Rightarrow> thenP (onT (to_log_finish T log_id lst rows msg)) (retP a))
        (\<lambda>a s. I s \<and> p a) (\<lambda>_. I)"
    proof (cases "result a")
      case (fields lst rows msg)
      have "hoare (\<lambda>s. I s \<and> p a) (onT (to_log_finish T log_id lst rows msg)) (\<lambda>_ s. I s \<and> p a) (\<lambda>_. I)"
        using fin [of lst rows msg] by (auto simp: hoare_def split: prod.splits sum.splits)
      then have "hoare (\<lambda>s. I s \<and> p a) (thenP (onT (to_log_finish T log_id lst rows msg)) (retP a)) (\<lambda>a s. I s \<and> p a) (\<lambda>_. I)"
        by (rule hoare_then) (simp add: hoare_ret)
      with fields show ?thesis by simp
    qed
  qed
qed

lemma logged_triple:
  assumes "keeps I (onT (to_log_start T k st table))" and "\<And>a b c d. keeps I' (onT (to_log_finish T a b c d))"
    and "hoare I body (\<lambda>_. I') (\<lambda>_ _. True)"
  shows "hoare I (logged T k st table body result) (\<lambda>_. I') (\<lambda>_ _. True)"
  unfolding logged_def
proof (rule hoare_bind)
  show "hoare I (onT (to_log_start T k st table)) (\<lambda>_. I) (\<lambda>_ _. True)"
    using assms(1) unfolding keeps_def by (rule hoare_conseq) auto
  fix i
  have fin: "hoare I' (case result a of (ls, rows, msg) \<Rightarrow> thenP (onT (to_log_finish T i ls rows msg)) (retP a))
      (\<lambda>_. I') (\<lambda>_ _. True)" for a
  proof (cases "result a")
    case (fields ls rows msg)
    have "hoare I' (thenP (onT (to_log_finish T i ls rows msg)) (retP a)) (\<lambda>_. I') (\<lambda>_. I')"
      using assms(2) unfolding keeps_def by (rule hoare_then) (simp add: hoare_ret)
    then have "hoare I' (thenP (onT (to_log_finish T i ls rows msg)) (retP a)) (\<lambda>_. I') (\<lambda>_ _. True)"
      by (rule hoare_conseq) auto
    then show ?thesis using fields by simp
  qed
  show "hoare I (bindP (tryP body (\<lambda>e. thenP (onT (to_log_finish T i LogFailed None (Some (take 4000 (error_text e))))) (raiseP e)))
      (\<lambda>a. case result a of (ls, rows, msg) \<Rightarrow> thenP (onT (to_log_finish T i ls rows msg)) (retP a))) (\<lambda>_. I') (\<lambda>_ _. True)"
    by (rule hoare_bind [OF hoare_try [OF assms(3)] fin])
      (auto simp: hoare_def thenP_eval split: prod.splits sum.splits)
qed

section \<open>Ledger entries\<close>

definition ledger_of :: "(string \<times> ledger_row) list \<Rightarrow> string \<Rightarrow> ldm_error + ledger_row" where
  "ledger_of led n = (case map_of led n of Some r \<Rightarrow> Inr r | None \<Rightarrow> Inl key_error)"

text \<open>\<open>target.get_ledger(...)[ts.name]\<close>\<close>

definition ledger_entry ::
  "'t target_ops \<Rightarrow> run_context \<Rightarrow> table_spec \<Rightarrow> (('s, 't, 'b) world, ldm_error, ledger_row) prog" where
  "ledger_entry T ctx ts = bindP (onT (to_get_ledger T (rc_key ctx))) (\<lambda>led.
     case map_of led (ts_name ts) of Some r \<Rightarrow> retP r | None \<Rightarrow> raiseP key_error)"

definition int_default :: "int \<Rightarrow> nat option \<Rightarrow> int" where
  "int_default d x = (case x of None \<Rightarrow> d | Some n \<Rightarrow> int n)"

section \<open>An example run\<close>

text \<open>
  One data table \<open>S.CUST\<close> with a four-byte key and a packed balance, used by the witnesses of
  the stages. \<open>purge\<close> is the overlay's flag.
\<close>

definition example_table :: table_spec where
  "example_table = \<lparr>ts_config = example_config,
     ts_copybook = example_copybook,
     ts_columns = [example_id, example_balance]\<rparr>"

definition example_manifest :: "bool \<Rightarrow> manifest" where
  "example_manifest purge = \<lparr>m_schema_version = 1, m_run_token = ''r1'', m_text_encoding = ''ascii'', m_unload_command = [],
     m_blob_prefix = ''{namespace}/{run_id}'', m_provider = PostgreSQL,
     m_target_env = \<lparr>te_host = Some ''H'', te_port = Some ''P'', te_server = None, te_auth_mode = None, te_managed_identity = None\<rparr>,
     m_batch = \<lparr>extract_range_rows = 2, load_batch_rows = 2, validate_batch_rows = 2, purge_batch_rows = 2,
       purge_retry_attempts = 1\<rparr>,
     m_selection_sets = [], m_tables = [example_config], m_namespace = ''r1-dev'', m_migrate = True, m_azure = False,
     m_purge = purge, m_run_job_in_azure = False, m_load_engine = SerialEngine, m_records_per_slice = 2\<rparr>"

definition example_context :: "bool \<Rightarrow> run_context" where
  "example_context purge = \<lparr>rc_manifest = example_manifest purge, rc_manifest_sha = ''00'', rc_run_id = ''run1'',
     rc_local_dir = ''/work'', rc_env = [(''LDM_UNLOAD_MODE'', ''builtin'')], rc_tables = [(''CUST'', example_table)]\<rparr>"

definition example_source :: fake_source where
  "example_source = fs_add_rows ''S'' ''CUST''
     [[(''ID'', VText ''A1  ''), (''BAL'', VDec (Dec False 1250 (- 2)))],
      [(''ID'', VText ''B2  ''), (''BAL'', VDec (Dec True 99 (- 2)))],
      [(''ID'', VText ''C3  ''), (''BAL'', VDec (Dec False 0 (- 2)))]] fs_init"

definition example_world :: "fake_target \<Rightarrow> (fake_source, fake_target, files) world" where
  "example_world t = \<lparr>w_source = example_source, w_target = t, w_files = (\<lambda>_. None), w_blobs = (\<lambda>_. None)\<rparr>"

end
