(* ===== verification/Ldm_Extract.thy ===== *)
theory Ldm_Extract
  imports Ldm_Context
begin

text \<open>
  EXTRACT (\<open>migration/job/ldm/stages/extract.py\<close>): the selected keys are cut into ranges, each
  range is unloaded to a fixed-width file by the built-in writer or the external command,
  checked against its record length, size and checksum, and only then marked DONE.
\<close>

section \<open>Predicate and ranges\<close>

definition render_predicate :: "selection_spec \<Rightarrow> string \<Rightarrow> ldm_error + string" where
  "render_predicate sel alias =
     (if ss_all_rows sel then Inr ''1 = 1''
      else let txt = (\<lambda>x. case x of None \<Rightarrow> ''None'' | Some s \<Rightarrow> s);
               quote = (\<lambda>c. CHR 0x27 # replace_char (CHR 0x27) [CHR 0x27, CHR 0x27] c @ [CHR 0x27])
           in Inr (alias @ ''.'' @ txt (ss_class_column sel) @ '' IN ('' @ py_join '', '' (map quote (ss_classes sel)) @
                   '') AND '' @ alias @ ''.'' @ txt (ss_last_access_column sel) @ '' < TIMESTAMP('' @
                   py_quote (txt (ss_last_access_before sel)) @ '')''))"

definition new_key_range :: "string \<Rightarrow> nat \<Rightarrow> string \<Rightarrow> string \<Rightarrow> key_range" where
  "new_key_range table seq from to = \<lparr>kr_table = table, kr_seq = seq, kr_from = from, kr_to = to,
     kr_status = Planned, kr_row_count = None, kr_byte_count = None, kr_sha = None, kr_blob_path = None,
     kr_local_path = None, kr_load_status = LoadPending, kr_attempt = 0, kr_error = None\<rparr>"

fun ranges_from :: "string \<Rightarrow> nat \<Rightarrow> string list list \<Rightarrow> key_range list" where
  "ranges_from table seq [] = []"
| "ranges_from table seq (c # cs) = new_key_range table seq (hd c) (last c) # ranges_from table (Suc seq) cs"

definition plan_ranges :: "string \<Rightarrow> string list \<Rightarrow> nat \<Rightarrow> key_range list" where
  "plan_ranges table keys range_rows = ranges_from table 1 (chunks range_rows keys)"

definition range_stem :: "nat \<Rightarrow> string" where
  "range_stem seq = pad_nat 6 seq"

text \<open>\<open>_range_paths\<close>: the local file and the blob path of a range, for one suffix.\<close>

definition range_paths :: "run_context \<Rightarrow> string \<Rightarrow> nat \<Rightarrow> string \<Rightarrow> ldm_error + (string \<times> string)" where
  "range_paths ctx table seq suffix =
     bindE (range_dir ctx table) (\<lambda>dir.
     bindE (blob_prefix ctx) (\<lambda>p.
     Inr (path_join dir (range_stem seq @ suffix), p @ table @ ''/'' @ range_stem seq @ suffix)))"

section \<open>Unloading\<close>

text \<open>\<open>hashlib.sha256(data).hexdigest()\<close>\<close>

definition sha_hex :: "(bytes \<Rightarrow> bytes) \<Rightarrow> bytes \<Rightarrow> string" where
  "sha_hex sha d = py_hex (sha d)"

definition put_file :: "string \<Rightarrow> bytes \<Rightarrow> (('s, 't, 'b) world, ldm_error, unit) prog" where
  "put_file path d = modP (\<lambda>w. w\<lparr>w_files := (w_files w)(path \<mapsto> d)\<rparr>)"

text \<open>The file is opened first and grows record by record: an error leaves the records so far.\<close>

definition builtin_unload ::
  "'s source_ops \<Rightarrow> (bytes \<Rightarrow> bytes) \<Rightarrow> table_spec \<Rightarrow> selection_spec \<Rightarrow> key_range \<Rightarrow> string \<Rightarrow>
   (('s, 't, 'b) world, ldm_error, nat \<times> nat \<times> string) prog" where
  "builtin_unload S sha ts sel rng out = (let cfg = ts_config ts in
     thenP (put_file out [])
     (bindP (onS (so_fetch_range S (tc_schema cfg) (tc_name cfg) (tc_columns cfg) sel (kr_from rng) (kr_to rng))) (\<lambda>rows.
      bindP (foldP (\<lambda>r d. bindP (liftP (encode_record r (ts_columns ts) (tc_record_length cfg))) (\<lambda>rec.
                thenP (put_file out (d @ rec)) (retP (d @ rec)))) rows []) (\<lambda>d.
      retP (length rows, length rows * tc_record_length cfg, sha_hex sha d)))))"

definition is_hex :: "char \<Rightarrow> bool" where
  "is_hex c \<longleftrightarrow> is_digit c \<or> (let n = of_char (upper_char c) :: nat in 65 \<le> n \<and> n \<le> 70)"

definition UNLOAD01_RE :: re where
  "UNLOAD01_RE = Seqs [Lit ''UNLOAD01 ROWS='', Grp ''1'' (Plus Digit), Lit '' BYTES='', Grp ''2'' (Plus Digit),
     Lit '' SHA256='', Grp ''3'' (Rep 64 (Cls is_hex)), Star Space, EndZ]"

text \<open>The last match of the multi-line pattern.\<close>

definition unload01 :: "string \<Rightarrow> captures option" where
  "unload01 out = (case rev (List.map_filter (re_match UNLOAD01_RE) (split_by (\<lambda>c. c = CHR 0x0A) out)) of
       [] \<Rightarrow> None | m # _ \<Rightarrow> Some m)"

record unload_result =
  un_returncode :: int
  un_stdout :: string
  un_stderr :: string

text \<open>
  The external unloader is a parameter: from its arguments, its environment (the first entry
  of a name counts) and the files to a result and the files it leaves, or None when it is not executable.
\<close>

type_synonym unloader =
  "string list \<Rightarrow> (string \<times> string) list \<Rightarrow> files \<Rightarrow> (unload_result \<times> files) option"

definition unload_tail :: "unload_result \<Rightarrow> string" where
  "unload_tail r = (case rev (py_splitlines (py_strip (un_stdout r @ un_stderr r))) of
       [] \<Rightarrow> ''(no output)'' | l # _ \<Rightarrow> l)"

definition command_unload ::
  "unloader \<Rightarrow> run_context \<Rightarrow> table_spec \<Rightarrow> selection_spec \<Rightarrow> key_range \<Rightarrow> string \<Rightarrow>
   (('s, 't, 'b) world, ldm_error, nat \<times> nat \<times> string) prog" where
  "command_unload unloader ctx ts sel rng out =
     (let m = rc_manifest ctx;
          subs = [(''table'', ts_name ts), (''key_from'', kr_from rng), (''key_to'', kr_to rng), (''out_file'', out),
                  (''namespace'', m_namespace m), (''run_id'', rc_run_id ctx)] in
      bindP (liftP (mapE (format_named subs) (m_unload_command m))) (\<lambda>argv.
      bindP (liftP (render_predicate sel ''T'')) (\<lambda>pred.
      bindP (liftP (ts_key_column ts)) (\<lambda>key.
      let env = [(''LDM_SELECT_WHERE'', pred), (''LDM_TABLE_SCHEMA'', tc_schema (ts_config ts)),
                  (''LDM_KEY_COLUMN'', key), (''LDM_LRECL'', str_nat (tc_record_length (ts_config ts)))] @ rc_env ctx in
      (\<lambda>w. case unloader argv env (w_files w) of
         None \<Rightarrow> (Inl (ConfigError ''unload_command is not executable''), w)
       | Some (r, fs) \<Rightarrow> (let w' = w\<lparr>w_files := fs\<rparr> in
           if un_returncode r \<noteq> 0
           then (Inl (UnloadError (''unload command exited '' @ str_int (un_returncode r) @ '' for '' @ ts_name ts @
                   '' range '' @ str_nat (kr_seq rng) @ '': '' @ unload_tail r)), w')
           else (case unload01 (un_stdout r) of
               None \<Rightarrow> (Inl (UnloadError (''unload command printed no UNLOAD01 line for '' @ ts_name ts)), w')
             | Some c \<Rightarrow> (Inr (group_nat c ''1'', group_nat c ''2'',
                 py_lower (case group c ''3'' of None \<Rightarrow> [] | Some h \<Rightarrow> h)), w'))))))))"

section \<open>One range\<close>

definition unload_mode_builtin :: "run_context \<Rightarrow> bool" where
  "unload_mode_builtin ctx \<longleftrightarrow>
     text_or ''command'' (env_get ctx ''LDM_UNLOAD_MODE'') = ''builtin'' \<or> m_unload_command (rc_manifest ctx) = []"

text \<open>The checks of the unloaded file: size against rows and record length, and checksum.\<close>

definition check_unload ::
  "(bytes \<Rightarrow> bytes) \<Rightarrow> table_spec \<Rightarrow> key_range \<Rightarrow> string \<Rightarrow> nat \<times> nat \<times> string \<Rightarrow>
   (('s, 't, 'b) world, ldm_error, unit) prog" where
  "check_unload sha ts rng local un = (case un of (rows, nbytes, digest) \<Rightarrow> (\<lambda>w.
     let lrecl = tc_record_length (ts_config ts);
         size = (case w_files w local of None \<Rightarrow> - 1 | Some d \<Rightarrow> int (length d)) in
     if nbytes \<noteq> rows * lrecl \<or> size \<noteq> int nbytes
     then (Inl (UnloadError (ts_name ts @ '' range '' @ str_nat (kr_seq rng) @ '': UNLOAD01 reports ROWS='' @
             str_nat rows @ '' BYTES='' @ str_nat nbytes @ '' but LRECL='' @ str_nat lrecl @ '' and file size is '' @
             str_int size)), w)
     else (case w_files w local of
         None \<Rightarrow> (Inl file_not_found, w)
       | Some d \<Rightarrow>
           if sha_hex sha d \<noteq> digest
           then (Inl (UnloadError (ts_name ts @ '' range '' @ str_nat (kr_seq rng) @ '': SHA-256 mismatch '' @
                   sha_hex sha d @ '' != reported '' @ digest)), w)
           else (Inr (), w))))"

definition ascii_bytes :: "string \<Rightarrow> bytes" where
  "ascii_bytes s = map byte_of_char s"

definition upload_range ::
  "'b blob_ops \<Rightarrow> run_context \<Rightarrow> table_spec \<Rightarrow> key_range \<Rightarrow> nat \<times> nat \<times> string \<Rightarrow>
   (('s, 't, 'b) world, ldm_error, unit) prog" where
  "upload_range B ctx ts rng un = (case un of (rows, nbytes, digest) \<Rightarrow>
     bindP (liftP (mapE (range_paths ctx (ts_name ts) (kr_seq rng)) [''.dat'', ''.cnt'', ''.sha256''])) (\<lambda>ps.
     case ps of
       [dat, cnt, sha] \<Rightarrow>
         thenP (put_file (fst cnt) (ascii_bytes (str_nat rows @ [CHR 0x0A])))
        (thenP (put_file (fst sha) (ascii_bytes (digest @ ''  '' @ range_stem (kr_seq rng) @ ''.dat'' @ [CHR 0x0A])))
        (forP [dat, cnt, sha] (\<lambda>(l, b). onF (bo_upload B l b))))
     | _ \<Rightarrow> retP ()))"

definition finish_unload ::
  "'t target_ops \<Rightarrow> run_context \<Rightarrow> table_spec \<Rightarrow> key_range \<Rightarrow> string \<Rightarrow> string \<Rightarrow> nat \<times> nat \<times> string \<Rightarrow>
   (('s, 't, 'b) world, ldm_error, key_range) prog" where
  "finish_unload T ctx ts rng local blob un = (case un of (rows, nbytes, digest) \<Rightarrow>
     thenP (onT (to_update_key_range T (rc_key ctx) (ts_name ts) (kr_seq rng)
              (\<lambda>r. r\<lparr>kr_status := Done, kr_row_count := Some rows, kr_byte_count := Some nbytes,
                     kr_sha := Some digest, kr_blob_path := Some blob, kr_local_path := Some local,
                     kr_error := None\<rparr>)))
     (retP ((new_key_range (ts_name ts) (kr_seq rng) (kr_from rng) (kr_to rng))
              \<lparr>kr_status := Done, kr_row_count := Some rows, kr_byte_count := Some nbytes, kr_sha := Some digest,
               kr_blob_path := Some blob, kr_local_path := Some local\<rparr>)))"

definition run_range ::
  "'s source_ops \<Rightarrow> 't target_ops \<Rightarrow> 'b blob_ops \<Rightarrow> (bytes \<Rightarrow> bytes) \<Rightarrow> unloader \<Rightarrow> run_context \<Rightarrow> table_spec \<Rightarrow>
   selection_spec \<Rightarrow> key_range \<Rightarrow> (('s, 't, 'b) world, ldm_error, key_range) prog" where
  "run_range S T B sha unloader ctx ts sel rng =
     bindP (liftP (range_paths ctx (ts_name ts) (kr_seq rng) ''.dat'')) (\<lambda>(local, blob).
     thenP (onT (to_update_key_range T (rc_key ctx) (ts_name ts) (kr_seq rng)
              (\<lambda>r. r\<lparr>kr_status := Running, kr_attempt := Suc (kr_attempt rng), kr_local_path := Some local\<rparr>)))
    (bindP (tryP
        (bindP (if unload_mode_builtin ctx then builtin_unload S sha ts sel rng local
                else command_unload unloader ctx ts sel rng local) (\<lambda>un.
         thenP (check_unload sha ts rng local un)
        (thenP (upload_range B ctx ts rng un) (retP un))))
        (\<lambda>e. if is_ldm_error e
             then thenP (onT (to_update_key_range T (rc_key ctx) (ts_name ts) (kr_seq rng)
                    (\<lambda>r. r\<lparr>kr_status := RangeFailed, kr_error := Some (take 4000 (error_text e))\<rparr>))) (raiseP e)
             else raiseP e)) (\<lambda>un.
     finish_unload T ctx ts rng local blob un)))"

section \<open>One table, all tables\<close>

definition plan_table ::
  "'s source_ops \<Rightarrow> 't target_ops \<Rightarrow> run_context \<Rightarrow> table_spec \<Rightarrow> selection_spec \<Rightarrow>
   (('s, 't, 'b) world, ldm_error, key_range list) prog" where
  "plan_table S T ctx ts sel =
     bindP (onT (to_get_key_ranges T (rc_key ctx) (ts_name ts))) (\<lambda>ranges.
     if ranges \<noteq> [] then retP ranges
     else bindP (onS (so_select_keys S (tc_schema (ts_config ts)) (ts_name ts) sel)) (\<lambda>keys.
       if \<not> distinct keys
       then bindP (liftP (ts_key_column ts)) (\<lambda>_.
              raiseP (ConfigError ''source key column is not unique within the selection''))
       else let planned = plan_ranges (ts_name ts) keys (extract_range_rows (m_batch (rc_manifest ctx)))
            in thenP (onT (to_insert_key_ranges T (rc_key ctx) planned)) (retP planned)))"

definition opt_nat :: "nat option \<Rightarrow> nat" where
  "opt_nat x = (case x of None \<Rightarrow> 0 | Some n \<Rightarrow> n)"

definition extract_table ::
  "'s source_ops \<Rightarrow> 't target_ops \<Rightarrow> 'b blob_ops \<Rightarrow> (bytes \<Rightarrow> bytes) \<Rightarrow> unloader \<Rightarrow> run_context \<Rightarrow> table_spec \<Rightarrow>
   (('s, 't, 'b) world, ldm_error, counts) prog" where
  "extract_table S T B sha unloader ctx ts =
     bindP (liftP (selection_for ctx (ts_config ts))) (\<lambda>sel.
     bindP (plan_table S T ctx ts sel) (\<lambda>ranges.
     bindP (foldP (\<lambda>rng extracted.
              if kr_status rng = Done then retP (extracted + opt_nat (kr_row_count rng))
              else bindP (run_range S T B sha unloader ctx ts sel rng) (\<lambda>r.
                retP (extracted + opt_nat (kr_row_count r))))
            (sort_key kr_seq ranges) 0) (\<lambda>extracted.
     thenP (onT (to_update_ledger T (rc_key ctx) (ts_name ts)
              (\<lambda>r. r\<lparr>lr_extracted := Some extracted, lr_extract_files := Some (length ranges)\<rparr>)))
     (retP [(''extracted'', int extracted), (''extract_files'', int (length ranges))]))))"

definition count_of :: "string \<Rightarrow> counts \<Rightarrow> nat" where
  "count_of n c = (case map_of c n of None \<Rightarrow> 0 | Some i \<Rightarrow> nat i)"

text \<open>The loop over the tables that the stages share: one logged step per table.\<close>

definition per_table ::
  "'t target_ops \<Rightarrow> run_context \<Rightarrow> stage \<Rightarrow> string \<Rightarrow> table_spec list \<Rightarrow>
   (table_spec \<Rightarrow> (('s, 't, 'b) world, ldm_error, counts) prog) \<Rightarrow>
   (string \<times> counts) list \<Rightarrow> (('s, 't, 'b) world, ldm_error, (string \<times> counts) list) prog" where
  "per_table T ctx st rows tables step out0 =
     foldP (\<lambda>ts out. bindP (logged T (rc_key ctx) st (Some (ts_name ts)) (step ts)
              (\<lambda>c. (LogOK, Some (count_of rows c), None))) (\<lambda>c. retP (dict_set (ts_name ts) c out)))
       tables out0"

definition extract_run ::
  "'s source_ops \<Rightarrow> 't target_ops \<Rightarrow> 'b blob_ops \<Rightarrow> (bytes \<Rightarrow> bytes) \<Rightarrow> unloader \<Rightarrow> run_context \<Rightarrow>
   (('s, 't, 'b) world, ldm_error, (string \<times> counts) list) prog" where
  "extract_run S T B sha unloader ctx =
     bindP (liftP (tables_in_order ctx)) (\<lambda>tables.
     per_table T ctx Extract ''extracted'' tables (extract_table S T B sha unloader ctx) [])"

section \<open>The ranges partition the keys\<close>

lemma ranges_from_length [simp]: "length (ranges_from table seq cs) = length cs"
  by (induction cs arbitrary: seq) auto

lemma ranges_from_nth:
  "i < length cs \<Longrightarrow> ranges_from table seq cs ! i = new_key_range table (seq + i) (hd (cs ! i)) (last (cs ! i))"
  by (induction cs arbitrary: seq i) (auto simp: nth_Cons')

lemma sorted_concat_nth:
  assumes "sorted_wrt (<) (concat cs)" and "i < j" and "j < length cs" and "x \<in> set (cs ! i)" and "y \<in> set (cs ! j)"
  shows "x < (y :: 'a :: linorder)"
  using assms
proof (induction cs arbitrary: i j)
  case Nil
  then show ?case by simp
next
  case (Cons c cs)
  show ?case
  proof (cases i)
    case 0
    then have "x \<in> set c" using Cons.prems by simp
    moreover from Cons.prems 0 have "\<exists>d \<in> set cs. y \<in> set d" by (cases j) auto
    ultimately show ?thesis using Cons.prems(1) by (auto simp: sorted_wrt_append)
  next
    case (Suc i')
    with Cons show ?thesis by (cases j) (auto simp: sorted_wrt_append)
  qed
qed

lemma sorted_hd_last:
  assumes "sorted_wrt (<) c" and "x \<in> set c"
  shows "hd c \<le> x \<and> x \<le> (last c :: 'a :: linorder)"
proof
  have srt: "sorted c" using assms(1) by (simp add: strict_sorted_iff)
  with assms(2) show "hd c \<le> x" by (cases c) auto
  from srt assms(2) show "x \<le> last c" by (cases c rule: rev_cases) (auto simp: sorted_append)
qed

lemma chunks_sorted:
  assumes "sorted_wrt (<) (xs :: 'a :: linorder list)" and "c \<in> set (chunks n xs)"
  shows "sorted_wrt (<) c"
  using assms
proof (induction n xs rule: chunks.induct)
  case (1 n xs)
  then show ?case
    by (cases "n = 0 \<or> xs = []")
      (auto simp: chunks.simps [of n xs] sorted_wrt_take sorted_wrt_drop)
qed

lemma plan_covers:
  assumes "0 < n" and "sorted_wrt (<) keys" and "k \<in> set keys"
  shows "\<exists>i < length (plan_ranges table keys n). \<forall>j < length (plan_ranges table keys n).
    (kr_from (plan_ranges table keys n ! j) \<le> k \<and> k \<le> kr_to (plan_ranges table keys n ! j)) = (j = i)"
proof -
  let ?cs = "chunks n keys"
  have all: "concat ?cs = keys" using assms(1) by simp
  then obtain i where i: "i < length ?cs" "k \<in> set (?cs ! i)"
    using assms(3) by (metis UN_E in_set_conv_nth set_concat)
  have ends: "kr_from (plan_ranges table keys n ! j) = hd (?cs ! j)" "kr_to (plan_ranges table keys n ! j) = last (?cs ! j)"
    "hd (?cs ! j) \<in> set (?cs ! j)" "last (?cs ! j) \<in> set (?cs ! j)" if "j < length ?cs" for j
    using that chunks_bounds [of "?cs ! j" n keys] by (simp_all add: plan_ranges_def ranges_from_nth new_key_range_def)
  have inside: "hd (?cs ! i) \<le> k \<and> k \<le> last (?cs ! i)"
    using i chunks_sorted [OF assms(2), of "?cs ! i" n] by (intro sorted_hd_last) auto
  have srt: "sorted_wrt (<) (concat ?cs)" using all assms(2) by simp
  have outside: "\<not> (hd (?cs ! j) \<le> k \<and> k \<le> last (?cs ! j))" if j: "j < length ?cs" "j \<noteq> i" for j
  proof (cases "j < i")
    case True
    then have "last (?cs ! j) < k" using sorted_concat_nth [OF srt True i(1) ends(4) i(2)] j by simp
    then show ?thesis by (simp add: not_le)
  next
    case False
    then have "i < j" using j by simp
    from sorted_concat_nth [OF srt this j(1) i(2) ends(3) [OF j(1)]] show ?thesis by (simp add: not_le)
  qed
  have "length (plan_ranges table keys n) = length ?cs" by (simp add: plan_ranges_def)
  with i inside outside ends show ?thesis by (intro exI [of _ i]) auto
qed

text \<open>The ranges planned for distinct keys in ascending order are numbered from one, each
  holds at most the configured number of keys, and every key lies in exactly one of them.\<close>

theorem plan_ranges_partition:
  assumes "0 < n" and "sorted_wrt (<) keys"
  shows "map kr_seq (plan_ranges table keys n) = [1..<Suc (length (plan_ranges table keys n))] \<and>
    (\<forall>c \<in> set (chunks n keys). length c \<le> n) \<and>
    (\<forall>k \<in> set keys. \<exists>i < length (plan_ranges table keys n). \<forall>j < length (plan_ranges table keys n).
      (kr_from (plan_ranges table keys n ! j) \<le> k \<and> k \<le> kr_to (plan_ranges table keys n ! j)) = (j = i))"
proof (intro conjI ballI)
  have "map kr_seq (ranges_from table s cs) = [s..<s + length cs]" for s cs
    by (induction cs arbitrary: s) (auto simp: new_key_range_def upt_rec)
  from this [of 1] show "map kr_seq (plan_ranges table keys n) = [1..<Suc (length (plan_ranges table keys n))]"
    by (simp add: plan_ranges_def)
  show "length c \<le> n" if "c \<in> set (chunks n keys)" for c
    using chunks_bounds [OF that] by simp
  show "\<exists>i < length (plan_ranges table keys n). \<forall>j < length (plan_ranges table keys n).
      (kr_from (plan_ranges table keys n ! j) \<le> k \<and> k \<le> kr_to (plan_ranges table keys n ! j)) = (j = i)"
    if "k \<in> set keys" for k
    by (rule plan_covers [OF assms that])
qed

section \<open>A range is DONE only when its file is verified\<close>

definition file_verified :: "(bytes \<Rightarrow> bytes) \<Rightarrow> nat \<Rightarrow> string \<Rightarrow> nat \<times> nat \<times> string \<Rightarrow> files \<Rightarrow> bool" where
  "file_verified sha lrecl local un fs \<longleftrightarrow> (case un of (rows, nbytes, digest) \<Rightarrow>
     \<exists>d. fs local = Some d \<and> length d = rows * lrecl \<and> nbytes = rows * lrecl \<and> sha_hex sha d = digest)"

lemma check_unload_Inr:
  "check_unload sha ts rng local un w = (Inr u, w') \<Longrightarrow>
   w' = w \<and> file_verified sha (tc_record_length (ts_config ts)) local un (w_files w)"
  by (auto simp: check_unload_def file_verified_def Let_def simp flip: of_nat_mult
      split: prod.splits if_splits option.splits)

lemma path_join_inj: "path_join a b = path_join a c \<longleftrightarrow> b = c"
  by (simp add: path_join_def)

lemma range_paths_distinct:
  "range_paths ctx t n s1 = Inr (l1, b1) \<Longrightarrow> range_paths ctx t n s2 = Inr (l2, b2) \<Longrightarrow> l1 = l2 \<longleftrightarrow> s1 = s2"
  by (auto simp: range_paths_def path_join_inj)

context blob_store
begin

lemma upload_run:
  assumes "w_files w l = Some d"
  shows "\<exists>b'. onF (bo_upload B l p) w = (Inr (), w\<lparr>w_blobs := b'\<rparr>) \<and> stored b' = (stored (w_blobs w))(p \<mapsto> d)"
proof -
  from upload [where fs = "w_files w" and b = "w_blobs w", OF assms] obtain b' where
    "bo_upload B l p (w_files w, w_blobs w) = (Inr (), (w_files w, b'))" "stored b' = (stored (w_blobs w))(p \<mapsto> d)"
    by blast
  then show ?thesis by (auto simp: onF_def)
qed

lemma upload_range_run:
  assumes "range_paths ctx (ts_name ts) (kr_seq rng) ''.dat'' = Inr (l, p)" and "w_files w l = Some d"
    and "upload_range B ctx ts rng un w = (r, w')"
  shows "w_files w' l = Some d \<and> (r = Inr () \<longrightarrow> stored (w_blobs w') p = Some d)"
proof -
  obtain rows nbytes digest where un: "un = (rows, nbytes, digest)" by (cases un) blast
  show ?thesis
  proof (cases "mapE (range_paths ctx (ts_name ts) (kr_seq rng)) [''.dat'', ''.cnt'', ''.sha256'']")
    case (Inl e)
    with assms show ?thesis by (auto simp: upload_range_def un bindP_eval)
  next
    case (Inr ps)
    then obtain lc pc ls psh where ps: "ps = [(l, p), (lc, pc), (ls, psh)]"
      and c: "range_paths ctx (ts_name ts) (kr_seq rng) ''.cnt'' = Inr (lc, pc)"
      and s: "range_paths ctx (ts_name ts) (kr_seq rng) ''.sha256'' = Inr (ls, psh)"
      using assms(1) by auto
    have ne: "l \<noteq> lc" "l \<noteq> ls" "lc \<noteq> ls"
      using range_paths_distinct [OF assms(1) c] range_paths_distinct [OF assms(1) s] range_paths_distinct [OF c s]
      by auto
    have pe: "p \<noteq> pc" "p \<noteq> psh" using assms(1) c s by (auto simp: range_paths_def)
    let ?w = "w\<lparr>w_files := (w_files w)(lc \<mapsto> ascii_bytes (str_nat rows @ [CHR 0x0A]),
                 ls \<mapsto> ascii_bytes (digest @ ''  '' @ range_stem (kr_seq rng) @ ''.dat'' @ [CHR 0x0A]))\<rparr>"
    have f: "w_files ?w l = Some d" "w_files ?w lc \<noteq> None" "w_files ?w ls \<noteq> None" using assms(2) ne by auto
    from upload_run [where w = ?w and p = p, OF f(1)] obtain b1 where
      1: "onF (bo_upload B l p) ?w = (Inr (), ?w\<lparr>w_blobs := b1\<rparr>)" "stored b1 = (stored (w_blobs ?w))(p \<mapsto> d)" by blast
    from f(2) obtain dc where "w_files (?w\<lparr>w_blobs := b1\<rparr>) lc = Some dc" by auto
    from upload_run [where p = pc, OF this] obtain b2 where
      2: "onF (bo_upload B lc pc) (?w\<lparr>w_blobs := b1\<rparr>) = (Inr (), ?w\<lparr>w_blobs := b2\<rparr>)" "stored b2 = (stored b1)(pc \<mapsto> dc)" by auto
    from f(3) obtain ds where "w_files (?w\<lparr>w_blobs := b2\<rparr>) ls = Some ds" by auto
    from upload_run [where p = psh, OF this] obtain b3 where
      3: "onF (bo_upload B ls psh) (?w\<lparr>w_blobs := b2\<rparr>) = (Inr (), ?w\<lparr>w_blobs := b3\<rparr>)" "stored b3 = (stored b2)(psh \<mapsto> ds)" by auto
    have "upload_range B ctx ts rng un w = (Inr (), ?w\<lparr>w_blobs := b3\<rparr>)"
      using Inr 1(1) 2(1) 3(1)
      by (simp add: upload_range_def un ps bindP_eval thenP_eval put_file_def)
    with assms(3) f(1) 1 2 3 pe show ?thesis by auto
  qed
qed

lemma run_range_verified:
  assumes "run_range S T B sha unloader ctx ts sel rng w = (Inr r, w')"
  shows "\<exists>l p un. range_paths ctx (ts_name ts) (kr_seq rng) ''.dat'' = Inr (l, p) \<and> kr_local_path r = Some l \<and>
    kr_row_count r = Some (fst un) \<and> kr_sha r = Some (snd (snd un)) \<and> kr_status r = Done \<and>
    file_verified sha (tc_record_length (ts_config ts)) l un (w_files w') \<and> stored (w_blobs w') p = w_files w' l"
proof -
  from assms obtain l p where lp: "range_paths ctx (ts_name ts) (kr_seq rng) ''.dat'' = Inr (l, p)"
    by (cases "range_paths ctx (ts_name ts) (kr_seq rng) ''.dat''") (auto simp: run_range_def bindP_eval)
  let ?U = "if unload_mode_builtin ctx then builtin_unload S sha ts sel rng l
            else command_unload unloader ctx ts sel rng l"
  let ?body = "bindP ?U (\<lambda>un. thenP (check_unload sha ts rng l un) (thenP (upload_range B ctx ts rng un) (retP un)))"
  let ?h = "\<lambda>e. if is_ldm_error e
             then thenP (onT (to_update_key_range T (rc_key ctx) (ts_name ts) (kr_seq rng)
                    (\<lambda>r. r\<lparr>kr_status := RangeFailed, kr_error := Some (take 4000 (error_text e))\<rparr>))) (raiseP e)
             else raiseP e"
  from assms lp obtain w1 w2 un where b: "tryP ?body ?h w1 = (Inr un, w2)"
    and fin: "finish_unload T ctx ts rng l p un w2 = (Inr r, w')"
    by (auto simp: run_range_def bindP_eval thenP_eval split: prod.splits sum.splits)
  have "?body w1 = (Inr un, w2)"
    by (rule tryP_reraise [OF b]) (simp add: then_raise_not_Inr)
  then obtain w3 where chk: "check_unload sha ts rng l un w3 = (Inr (), w3)"
    and up: "upload_range B ctx ts rng un w3 = (Inr (), w2)"
    by (auto simp: bindP_eval thenP_eval split: prod.splits sum.splits dest: check_unload_Inr)
  from check_unload_Inr [OF chk] have v: "file_verified sha (tc_record_length (ts_config ts)) l un (w_files w3)" by simp
  then obtain d where d: "w_files w3 l = Some d" by (auto simp: file_verified_def split: prod.splits)
  from upload_range_run [OF lp d up] have w2: "w_files w2 l = Some d" "stored (w_blobs w2) p = Some d" by auto
  have "w_files w' = w_files w2" "w_blobs w' = w_blobs w2"
    "kr_local_path r = Some l" "kr_row_count r = Some (fst un)" "kr_sha r = Some (snd (snd un))" "kr_status r = Done"
    using fin by (auto simp: finish_unload_def thenP_eval onT_def split: prod.splits sum.splits)
  moreover have "file_verified sha (tc_record_length (ts_config ts)) l un (w_files w2)"
    using v d w2 by (auto simp: file_verified_def)
  ultimately show ?thesis using lp w2 by (intro exI [of _ l] exI [of _ p] exI [of _ un]) auto
qed

end

text \<open>C7. With the directory store, whatever the drivers and the unloader do: a range that comes back
  DONE has a local file of exactly its rows times the record length, whose checksum is the
  recorded one, and the store holds the same bytes under the recorded path.\<close>

theorem run_range_done_verified:
  assumes "run_range S T directory_blob_store sha unloader ctx ts sel rng w = (Inr r, w')"
  shows "\<exists>l p un. range_paths ctx (ts_name ts) (kr_seq rng) ''.dat'' = Inr (l, p) \<and> kr_local_path r = Some l \<and>
    kr_row_count r = Some (fst un) \<and> kr_sha r = Some (snd (snd un)) \<and> kr_status r = Done \<and>
    file_verified sha (tc_record_length (ts_config ts)) l un (w_files w') \<and> w_blobs w' p = w_files w' l"
  using assms by (rule dir_store.run_range_verified)

section \<open>Witnesses\<close>

theorem plan_ranges_partition_witness:
  "map kr_seq (plan_ranges ''CUST'' [''A1'', ''B2'', ''C3''] 2) = [1, 2] \<and>
   (\<exists>i. list_all (\<lambda>j. (kr_from (plan_ranges ''CUST'' [''A1'', ''B2'', ''C3''] 2 ! j) \<le> ''B2'' \<and>
      ''B2'' \<le> kr_to (plan_ranges ''CUST'' [''A1'', ''B2'', ''C3''] 2 ! j)) = (j = i)) [0, 1])"
proof -
  have "sorted_wrt (<) [''A1'', ''B2'', ''C3'']" by code_simp
  moreover have "length (plan_ranges ''CUST'' [''A1'', ''B2'', ''C3''] 2) = 2" by code_simp
  ultimately have p: "map kr_seq (plan_ranges ''CUST'' [''A1'', ''B2'', ''C3''] 2) = [1..<Suc 2]"
    and "\<exists>i < 2. \<forall>j < 2. (kr_from (plan_ranges ''CUST'' [''A1'', ''B2'', ''C3''] 2 ! j) \<le> ''B2'' \<and>
      ''B2'' \<le> kr_to (plan_ranges ''CUST'' [''A1'', ''B2'', ''C3''] 2 ! j)) = (j = i)"
    using plan_ranges_partition [of 2 "[''A1'', ''B2'', ''C3'']" "''CUST''"] by simp_all
  then obtain i where "\<forall>j < 2. (kr_from (plan_ranges ''CUST'' [''A1'', ''B2'', ''C3''] 2 ! j) \<le> ''B2'' \<and>
      ''B2'' \<le> kr_to (plan_ranges ''CUST'' [''A1'', ''B2'', ''C3''] 2 ! j)) = (j = i)" by blast
  with p show ?thesis by (intro conjI exI [of _ i]) (simp_all add: upt_rec)
qed

text \<open>The three rows of the example source, unloaded with the identity in the place of SHA-256.\<close>

definition example_selection :: selection_spec where
  "example_selection = projr (selection_for (example_context True) example_config)"

definition example_range :: key_range where
  "example_range = new_key_range ''CUST'' 1 ''A1  '' ''C3  ''"

definition extract_example :: "(ldm_error + key_range) \<times> (fake_source, fake_target, files) world" where
  "extract_example = run_range fake_source_ops (fake_target_ops (\<lambda>b. b)) directory_blob_store (\<lambda>b. b)
     (\<lambda>_ _ _. None) (example_context True) example_table example_selection example_range (example_world ft_init)"

lemma extract_example_run:
  "fst extract_example = Inr (projr (fst extract_example))"
  "kr_row_count (projr (fst extract_example)) = Some 3"
  by code_simp+

theorem run_range_done_verified_witness:
  "\<exists>l p un. range_paths (example_context True) ''CUST'' 1 ''.dat'' = Inr (l, p) \<and>
    kr_local_path (projr (fst extract_example)) = Some l \<and>
    file_verified (\<lambda>b. b) 7 l un (w_files (snd extract_example)) \<and>
    w_blobs (snd extract_example) p = w_files (snd extract_example) l"
proof -
  have "run_range fake_source_ops (fake_target_ops (\<lambda>b. b)) directory_blob_store (\<lambda>b. b)
     (\<lambda>_ _ _. None) (example_context True) example_table example_selection example_range (example_world ft_init) =
     (Inr (projr (fst extract_example)), snd extract_example)"
    using extract_example_run(1) unfolding extract_example_def [symmetric] by (metis prod.collapse)
  from run_range_done_verified [OF this] show ?thesis
    by (simp add: ts_name_def example_table_def example_config_def example_range_def new_key_range_def) blast
qed

end
