(* ===== verification/Ldm_Load.thy ===== *)
theory Ldm_Load
  imports Ldm_Extract
begin

text \<open>
  LOAD (\<open>migration/job/ldm/stages/load.py\<close>): the records of a verified range file are converted
  and inserted in batches; what cannot be converted, repeats a key or is refused by the target
  becomes a reject. The Spark engine is in \<open>Ldm_Spark\<close>.
\<close>

section \<open>Rejects\<close>

definition NATIVE_RULES :: "(int \<times> string) list" where
  "NATIVE_RULES = [(2601, ''DUPLICATE_SOURCE_KEY''), (2627, ''DUPLICATE_SOURCE_KEY'')]"

definition SQLSTATE_RULES :: "(string \<times> string) list" where
  "SQLSTATE_RULES = [(''23000'', ''DUPLICATE_SOURCE_KEY''), (''23505'', ''DUPLICATE_SOURCE_KEY''),
     (''22003'', ''DECIMAL_OVERFLOW''), (''22007'', ''DATE_INVALID''), (''22001'', ''STRING_TRUNCATION'')]"

definition rule_for :: "insert_failure \<Rightarrow> string" where
  "rule_for f = (case Option.bind (if_native_error f) (map_of NATIVE_RULES) of
       Some r \<Rightarrow> r
     | None \<Rightarrow> (case map_of SQLSTATE_RULES (text_or [] (if_sqlstate f)) of
           Some r \<Rightarrow> r | None \<Rightarrow> ''TARGET_REJECTED''))"

definition field_for :: "string \<Rightarrow> string list \<Rightarrow> string option" where
  "field_for rule key_columns = (if rule = ''DUPLICATE_SOURCE_KEY'' then Some (hd key_columns) else None)"

definition failure_reject :: "insert_failure \<Rightarrow> staged_row \<Rightarrow> string list \<Rightarrow> reject" where
  "failure_reject f r key_columns = \<lparr>rj_table = sr_table r, rj_source_key = if_source_key f, rj_stage = Load,
     rj_rule = rule_for f, rj_field = field_for (rule_for f) key_columns, rj_raw = Some (sr_raw r),
     rj_field_bytes = None, rj_sqlstate = if_sqlstate f, rj_native_error = if_native_error f,
     rj_error = take 4000 (if_error f), rj_range_seq = sr_range_seq r\<rparr>"

definition duplicate_reject :: "string \<Rightarrow> string \<Rightarrow> string \<Rightarrow> bytes \<Rightarrow> nat \<Rightarrow> reject" where
  "duplicate_reject table key key_column rec seq = \<lparr>rj_table = table, rj_source_key = key, rj_stage = Load,
     rj_rule = ''DUPLICATE_SOURCE_KEY'', rj_field = Some key_column, rj_raw = Some rec, rj_field_bytes = None,
     rj_sqlstate = Some ''23000'', rj_native_error = Some 2601,
     rj_error = ''source key '' @ py_repr key @ '' appears more than once in the unload of range '' @ str_nat seq,
     rj_range_seq = Some seq\<rparr>"

definition conversion_reject :: "string \<Rightarrow> string \<Rightarrow> field_error \<Rightarrow> bytes \<Rightarrow> nat \<Rightarrow> reject" where
  "conversion_reject table key err rec seq = \<lparr>rj_table = table, rj_source_key = key, rj_stage = Load,
     rj_rule = fe_rule err, rj_field = Some (fe_column err), rj_raw = Some rec, rj_field_bytes = Some (fe_bytes err),
     rj_sqlstate = fe_sqlstate err, rj_native_error = None, rj_error = take 4000 (fe_error err),
     rj_range_seq = Some seq\<rparr>"

definition converted_row :: "string \<Rightarrow> nat \<Rightarrow> bytes \<Rightarrow> converted \<Rightarrow> staged_row" where
  "converted_row table seq rec conv = \<lparr>sr_table = table, sr_source_key = cv_source_key conv, sr_range_seq = Some seq,
     sr_raw = rec, sr_values = target_row conv, sr_stg_id = None\<rparr>"

section \<open>The range file\<close>

definition read_file :: "string \<Rightarrow> (('s, 't, 'b) world, ldm_error, bytes) prog" where
  "read_file path = (\<lambda>w. case w_files w path of None \<Rightarrow> (Inl file_not_found, w) | Some d \<Rightarrow> (Inr d, w))"

definition range_file ::
  "'b blob_ops \<Rightarrow> (bytes \<Rightarrow> bytes) \<Rightarrow> run_context \<Rightarrow> table_spec \<Rightarrow> key_range \<Rightarrow>
   (('s, 't, 'b) world, ldm_error, string) prog" where
  "range_file B sha ctx ts rng =
     bindP (if truthy (kr_local_path rng) then retP (the (kr_local_path rng))
            else liftP (bindE (range_dir ctx (ts_name ts)) (\<lambda>d. Inr (path_join d (range_stem (kr_seq rng) @ ''.dat''))))) (\<lambda>local.
     bindP (getP (\<lambda>w. w_files w local)) (\<lambda>content.
     bindP (if content = None \<or> truthy (kr_sha rng) \<and> Some (sha_hex sha (the content)) \<noteq> kr_sha rng
            then if \<not> truthy (kr_blob_path rng) then retP False
                 else onF (bo_download B (the (kr_blob_path rng)) local)
            else retP True) (\<lambda>available.
     if \<not> available then raiseP (ConfigError ''unload file is missing and blob is not available'')
     else if truthy (kr_sha rng)
       then bindP (read_file local) (\<lambda>d.
         if Some (sha_hex sha d) \<noteq> kr_sha rng then raiseP (ConfigError ''checksum differs from the recorded one'')
         else retP local)
     else retP local)))"

definition begin_range ::
  "'t target_ops \<Rightarrow> 'b blob_ops \<Rightarrow> (bytes \<Rightarrow> bytes) \<Rightarrow> run_context \<Rightarrow> table_spec \<Rightarrow> key_range \<Rightarrow>
   (('s, 't, 'b) world, ldm_error, string \<times> nat) prog" where
  "begin_range T B sha ctx ts rng =
     bindP (range_file B sha ctx ts rng) (\<lambda>local.
     bindP (read_file local) (\<lambda>d.
     let size = length d; lrecl = tc_record_length (ts_config ts) in
     if size mod lrecl \<noteq> 0 then raiseP (ConfigError ''file size is not a multiple of LRECL'')
     else if kr_row_count rng \<noteq> None \<and> Some (size div lrecl) \<noteq> kr_row_count rng
       then raiseP (ConfigError ''file and .cnt disagree on the number of records'')
     else thenP (if kr_load_status rng = LoadRunning
                 then thenP (onT (to_delete_staging_range T (rc_key ctx) (ts_name ts) (kr_seq rng)))
                            (onT (to_delete_rejects_range T (rc_key ctx) (ts_name ts) Load (kr_seq rng)))
                 else retP ())
         (thenP (onT (to_update_key_range T (rc_key ctx) (ts_name ts) (kr_seq rng)
                   (\<lambda>r. r\<lparr>kr_load_status := LoadRunning\<rparr>)))
          (retP (local, size div lrecl)))))"

definition finish_range ::
  "'t target_ops \<Rightarrow> run_context \<Rightarrow> table_spec \<Rightarrow> key_range \<Rightarrow> int \<Rightarrow> int \<Rightarrow>
   (('s, 't, 'b) world, ldm_error, int \<times> int) prog" where
  "finish_range T ctx ts rng loaded rejected =
     thenP (onT (to_update_key_range T (rc_key ctx) (ts_name ts) (kr_seq rng) (\<lambda>r. r\<lparr>kr_load_status := LoadDone\<rparr>)))
       (retP (loaded, rejected))"

section \<open>The serial engine\<close>

text \<open>The local variables of \<open>load_range\<close>.\<close>

record load_vars =
  lv_seen :: "string list"
  lv_batch :: "staged_row list"
  lv_rejects :: "reject list"
  lv_loaded :: int
  lv_rejected :: int

definition load_start :: load_vars where
  "load_start = \<lparr>lv_seen = [], lv_batch = [], lv_rejects = [], lv_loaded = 0, lv_rejected = 0\<rparr>"

text \<open>\<open>{r.source_key: r for r in batch}[k]\<close>: the last row with the key.\<close>

definition row_by_key :: "staged_row list \<Rightarrow> string \<Rightarrow> ldm_error + staged_row" where
  "row_by_key rows k = (case find (\<lambda>r. sr_source_key r = k) (rev rows) of
       Some r \<Rightarrow> Inr r | None \<Rightarrow> Inl key_error)"

definition flush ::
  "'t target_ops \<Rightarrow> run_key \<Rightarrow> table_spec \<Rightarrow> load_vars \<Rightarrow> (('s, 't, 'b) world, ldm_error, load_vars) prog" where
  "flush T k ts v =
     (if lv_batch v = [] then retP v
      else bindP (onT (to_insert_staging T k (ts_name ts) (lv_batch v))) (\<lambda>failures.
        let failed = card (if_source_key ` set failures) in
        bindP (liftP (mapE (\<lambda>f. bindE (row_by_key (lv_batch v) (if_source_key f))
                              (\<lambda>r. Inr (failure_reject f r (tc_key_columns (ts_config ts))))) failures)) (\<lambda>rs.
        let rejects = lv_rejects v @ rs in
        thenP (if rejects \<noteq> [] then onT (to_insert_rejects T k rejects) else retP ())
          (retP \<lparr>lv_seen = lv_seen v, lv_batch = [], lv_rejects = [],
                 lv_loaded = lv_loaded v + (int (length (lv_batch v)) - int failed),
                 lv_rejected = lv_rejected v + int failed\<rparr>))))"

definition load_record ::
  "'t target_ops \<Rightarrow> run_key \<Rightarrow> nat \<Rightarrow> table_spec \<Rightarrow> nat \<Rightarrow> bytes \<Rightarrow> load_vars \<Rightarrow>
   (('s, 't, 'b) world, ldm_error, load_vars) prog" where
  "load_record T k batch_rows ts seq rec v =
     bindP (liftP (convert_record rec (ts_columns ts))) (\<lambda>conv.
     case cv_error conv of
       Some err \<Rightarrow> retP (v\<lparr>lv_rejects := lv_rejects v @ [conversion_reject (ts_name ts) (cv_source_key conv) err rec seq],
                          lv_rejected := lv_rejected v + 1\<rparr>)
     | None \<Rightarrow>
         if cv_source_key conv \<in> set (lv_seen v)
         then retP (v\<lparr>lv_rejects := lv_rejects v @ [duplicate_reject (ts_name ts) (cv_source_key conv)
                        (hd (tc_key_columns (ts_config ts))) rec seq],
                      lv_rejected := lv_rejected v + 1\<rparr>)
         else let v' = v\<lparr>lv_seen := cv_source_key conv # lv_seen v,
                         lv_batch := lv_batch v @ [converted_row (ts_name ts) seq rec conv]\<rparr>
              in if batch_rows \<le> length (lv_batch v') then flush T k ts v' else retP v')"

definition load_range ::
  "'t target_ops \<Rightarrow> 'b blob_ops \<Rightarrow> (bytes \<Rightarrow> bytes) \<Rightarrow> run_context \<Rightarrow> table_spec \<Rightarrow> key_range \<Rightarrow>
   (('s, 't, 'b) world, ldm_error, int \<times> int) prog" where
  "load_range T B sha ctx ts rng =
     bindP (begin_range T B sha ctx ts rng) (\<lambda>(local, count).
     bindP (read_file local) (\<lambda>data.
     bindP (foldP (load_record T (rc_key ctx) (load_batch_rows (m_batch (rc_manifest ctx))) ts (kr_seq rng))
              (chunks (tc_record_length (ts_config ts)) data) load_start) (\<lambda>v.
     bindP (flush T (rc_key ctx) ts v) (\<lambda>v'.
     thenP (if lv_rejects v' \<noteq> [] then onT (to_insert_rejects T (rc_key ctx) (lv_rejects v')) else retP ())
       (finish_range T ctx ts rng (lv_loaded v') (lv_rejected v'))))))"

text \<open>The Spark engine of a range is given as a parameter of the loop over the ranges.\<close>

definition load_range_with_engine ::
  "'t target_ops \<Rightarrow> 'b blob_ops \<Rightarrow> (bytes \<Rightarrow> bytes) \<Rightarrow>
   (run_context \<Rightarrow> table_spec \<Rightarrow> key_range \<Rightarrow> (('s, 't, 'b) world, ldm_error, int \<times> int) prog) \<Rightarrow>
   run_context \<Rightarrow> table_spec \<Rightarrow> key_range \<Rightarrow> (('s, 't, 'b) world, ldm_error, int \<times> int) prog" where
  "load_range_with_engine T B sha spark ctx ts rng =
     (if m_load_engine (rc_manifest ctx) = SparkEngine then spark ctx ts rng else load_range T B sha ctx ts rng)"

definition check_no_ranges ::
  "'t target_ops \<Rightarrow> run_context \<Rightarrow> table_spec \<Rightarrow> (('s, 't, 'b) world, ldm_error, unit) prog" where
  "check_no_ranges T ctx ts =
     bindP (onT (to_get_ledger T (rc_key ctx))) (\<lambda>led.
     bindP (liftP (ledger_of led (ts_name ts))) (\<lambda>r.
     if lr_extracted r = None then raiseP (ConfigError ''no key ranges recorded; run extract first'')
     else if lr_extracted r \<noteq> Some 0 then raiseP (ConfigError ''ledger extracted rows but no key ranges recorded'')
     else retP ()))"

definition load_table ::
  "'t target_ops \<Rightarrow> 'b blob_ops \<Rightarrow> (bytes \<Rightarrow> bytes) \<Rightarrow>
   (run_context \<Rightarrow> table_spec \<Rightarrow> key_range \<Rightarrow> (('s, 't, 'b) world, ldm_error, int \<times> int) prog) \<Rightarrow>
   run_context \<Rightarrow> table_spec \<Rightarrow> (('s, 't, 'b) world, ldm_error, counts) prog" where
  "load_table T B sha spark ctx ts =
     bindP (onT (to_get_key_ranges T (rc_key ctx) (ts_name ts))) (\<lambda>ranges.
     thenP (if ranges = [] then check_no_ranges T ctx ts else retP ())
    (if list_ex (\<lambda>r. kr_status r \<noteq> Done) ranges then raiseP (ConfigError ''key range(s) not extracted'')
     else thenP (forP (sort_key kr_seq ranges) (\<lambda>rng.
              if kr_load_status rng = LoadDone then retP ()
              else thenP (load_range_with_engine T B sha spark ctx ts rng) (retP ())))
         (bindP (onT (to_get_ledger T (rc_key ctx))) (\<lambda>led.
          bindP (liftP (ledger_of led (ts_name ts))) (\<lambda>row.
          bindP (onT (to_count_staging T (rc_key ctx) (ts_name ts))) (\<lambda>loaded.
          bindP (onT (to_count_rejects T (rc_key ctx) (ts_name ts) (Some Load))) (\<lambda>rejected.
          thenP (onT (to_update_ledger T (rc_key ctx) (ts_name ts)
                   (\<lambda>r. r\<lparr>lr_loaded := Some loaded, lr_rejected := Some rejected\<rparr>)))
         (if lr_extracted row \<noteq> Some (loaded + rejected)
          then raiseP (ReconcileError (ts_name ts @ '': extracted '' @
                 int_or ''-1'' (map_option int (lr_extracted row)) @ '' != loaded '' @ str_nat loaded @ '' + rejected '' @
                 str_nat rejected) [])
          else retP [(''loaded'', int loaded), (''rejected'', int rejected)]))))))))"

definition load_run ::
  "'t target_ops \<Rightarrow> 'b blob_ops \<Rightarrow> (bytes \<Rightarrow> bytes) \<Rightarrow>
   (run_context \<Rightarrow> table_spec \<Rightarrow> key_range \<Rightarrow> (('s, 't, 'b) world, ldm_error, int \<times> int) prog) \<Rightarrow>
   run_context \<Rightarrow> (('s, 't, 'b) world, ldm_error, (string \<times> counts) list) prog" where
  "load_run T B sha spark ctx =
     bindP (liftP (tables_in_order ctx)) (\<lambda>tables.
     per_table T ctx Load ''loaded'' tables (load_table T B sha spark ctx) [])"

section \<open>Every record is loaded or rejected\<close>

lemma foldP_count:
  assumes "\<And>x v s v' s'. f x v s = (Inr v', s') \<Longrightarrow> m v' = m v + (1 :: int)"
    and "foldP f xs v s = (Inr v', s')"
  shows "m v' = m v + int (length xs)"
  using assms(2)
proof (induction xs arbitrary: v s)
  case Nil
  then show ?case by simp
next
  case (Cons x xs)
  from Cons.prems obtain u t where "f x v s = (Inr u, t)" and r: "foldP f xs u t = (Inr v', s')"
    by (auto simp: bindP_Inr)
  with assms(1) have "m u = m v + 1" by blast
  with Cons.IH [OF r] show ?case by simp
qed

definition handled :: "load_vars \<Rightarrow> int" where
  "handled v = lv_loaded v + lv_rejected v + int (length (lv_batch v))"

lemma flush_handled: "flush T k ts v s = (Inr v', s') \<Longrightarrow> handled v' = handled v \<and> lv_batch v' = []"
  by (auto simp: flush_def handled_def Let_def bindP_Inr thenP_Inr split: if_splits)

lemma load_record_handled: "load_record T k n ts seq rec v s = (Inr v', s') \<Longrightarrow> handled v' = handled v + 1"
  by (auto simp: load_record_def Let_def bindP_Inr handled_def [of "v\<lparr>lv_rejects := _, lv_rejected := _\<rparr>"]
      split: option.splits if_splits dest!: flush_handled) (auto simp: handled_def)

lemma begin_range_count:
  assumes "begin_range T B sha ctx ts rng w = (Inr (local, n), w')"
  shows "\<exists>d. w_files w' local = Some d \<and> length d = n * tc_record_length (ts_config ts) \<and>
    (kr_row_count rng \<noteq> None \<longrightarrow> kr_row_count rng = Some n)"
  using assms unfolding begin_range_def bindP_Inr Let_def
  by (elim exE conjE)
    (auto simp: thenP_Inr read_file_def dest!: onT_frame split: option.splits if_splits)

text \<open>C20. Whatever the target refuses, a range that loads accounts for each of its records: loaded
  and rejected add up to the records of the file, which is the recorded row count if there is
  one.\<close>

theorem load_range_accounts:
  assumes "load_range T B sha ctx ts rng w = (Inr (loaded, rejected), w')"
    and "0 < tc_record_length (ts_config ts)"
  shows "\<exists>n. loaded + rejected = int n \<and> (kr_row_count rng \<noteq> None \<longrightarrow> kr_row_count rng = Some n)"
proof -
  from assms(1) obtain local n w1 d v w2 v' w3 where b: "begin_range T B sha ctx ts rng w = (Inr (local, n), w1)"
    and d: "w_files w1 local = Some d"
    and run: "foldP (load_record T (rc_key ctx) (load_batch_rows (m_batch (rc_manifest ctx))) ts (kr_seq rng))
              (chunks (tc_record_length (ts_config ts)) d) load_start w1 = (Inr v, w2)"
    and f: "flush T (rc_key ctx) ts v w2 = (Inr v', w3)"
    and out: "loaded = lv_loaded v'" "rejected = lv_rejected v'"
    by (auto simp: load_range_def bindP_Inr thenP_Inr read_file_def finish_range_def split: option.splits)
  from begin_range_count [OF b] d have len: "length d = n * tc_record_length (ts_config ts)"
    and rc: "kr_row_count rng \<noteq> None \<longrightarrow> kr_row_count rng = Some n" by auto
  have "handled v = handled load_start + int (length (chunks (tc_record_length (ts_config ts)) d))"
    using run by (rule foldP_count [rotated]) (rule load_record_handled)
  also have "length (chunks (tc_record_length (ts_config ts)) d) = n"
    using length_chunks_exact [OF assms(2) len] .
  finally have "handled v = int n" by (simp add: load_start_def handled_def)
  with flush_handled [OF f] out have "loaded + rejected = int n" by (auto simp: handled_def)
  with rc show ?thesis by blast
qed

section \<open>The count of loaded rows is the growth of the staging table\<close>

text \<open>What LOAD relies on: an insert stages every row of the batch it does not report as failed, and
  the operations on rejects and key ranges leave the staging tables alone.\<close>

lemma range_file_target: "range_file B sha ctx ts rng w = (Inr l, w') \<Longrightarrow> w_target w' = w_target w"
  by (auto simp: range_file_def bindP_Inr read_file_def onF_def split: if_splits option.splits prod.splits)

locale staging_store =
  fixes T :: "'t target_ops" and staged :: "'t \<Rightarrow> run_key \<Rightarrow> string \<Rightarrow> nat" and ok :: "'t \<Rightarrow> bool"
  assumes insert: "ok t \<Longrightarrow> distinct (map sr_source_key rows) \<Longrightarrow>
      to_insert_staging T k tab rows t = (Inr fails, t') \<Longrightarrow>
      ok t' \<and> staged t' k tab + card (if_source_key ` set fails) = staged t k tab + length rows"
    and rejects: "ok t \<Longrightarrow> to_insert_rejects T k rs t = (r, t') \<Longrightarrow> ok t' \<and> staged t' = staged t"
    and ranges: "ok t \<Longrightarrow> to_update_key_range T k tab seq f t = (r', t') \<Longrightarrow> ok t' \<and> staged t' = staged t"
begin

definition loading :: "run_key \<Rightarrow> string \<Rightarrow> int \<Rightarrow> load_vars \<Rightarrow> ('s, 't, 'b) world \<Rightarrow> bool" where
  "loading k tab base v w \<longleftrightarrow> ok (w_target w) \<and> int (staged (w_target w) k tab) = base + lv_loaded v \<and>
     distinct (map sr_source_key (lv_batch v)) \<and> sr_source_key ` set (lv_batch v) \<subseteq> set (lv_seen v)"

lemma flush_loading:
  assumes "flush T k ts v w = (Inr v', w')" and "loading k (ts_name ts) base v w"
  shows "loading k (ts_name ts) base v' w' \<and> lv_batch v' = []"
proof (cases "lv_batch v = []")
  case True
  with assms show ?thesis by (simp add: flush_def)
next
  case False
  with assms(1) obtain fails w1 rs w2 where ins: "onT (to_insert_staging T k (ts_name ts) (lv_batch v)) w = (Inr fails, w1)"
    and rej: "(if lv_rejects v @ rs \<noteq> [] then onT (to_insert_rejects T k (lv_rejects v @ rs)) else retP ()) w1 = (Inr (), w2)"
    and v': "v' = \<lparr>lv_seen = lv_seen v, lv_batch = [], lv_rejects = [],
         lv_loaded = lv_loaded v + (int (length (lv_batch v)) - int (card (if_source_key ` set fails))),
         lv_rejected = lv_rejected v + int (card (if_source_key ` set fails))\<rparr>" "w' = w2"
    by (auto simp: flush_def Let_def bindP_Inr thenP_Inr)
  from ins obtain t1 where t1: "to_insert_staging T k (ts_name ts) (lv_batch v) (w_target w) = (Inr fails, t1)"
    "w_target w1 = t1" by (auto simp: onT_def split: prod.splits)
  with insert assms(2) have i: "ok t1"
    "staged t1 k (ts_name ts) + card (if_source_key ` set fails) = staged (w_target w) k (ts_name ts) + length (lv_batch v)"
    unfolding loading_def by blast+
  have "ok (w_target w2) \<and> staged (w_target w2) = staged t1"
  proof (cases "lv_rejects v @ rs = []")
    case True
    with rej i(1) t1(2) show ?thesis by simp
  next
    case False
    with rej t1(2) obtain t2 where "to_insert_rejects T k (lv_rejects v @ rs) t1 = (Inr (), t2)" "w_target w2 = t2"
      by (auto simp: onT_def split: prod.splits)
    with rejects [OF i(1)] show ?thesis by blast
  qed
  with i assms(2) v' show ?thesis by (simp add: loading_def)
qed

lemma load_record_loading:
  assumes "load_record T k n ts seq rec v w = (Inr v', w')" and "loading k (ts_name ts) base v w"
  shows "loading k (ts_name ts) base v' w'"
proof -
  from assms(1) obtain conv where conv: "convert_record rec (ts_columns ts) = Inr conv"
    by (auto simp: load_record_def bindP_Inr)
  show ?thesis
  proof (cases "cv_error conv = None \<and> cv_source_key conv \<notin> set (lv_seen v)")
    case True
    let ?v = "v\<lparr>lv_seen := cv_source_key conv # lv_seen v,
                 lv_batch := lv_batch v @ [converted_row (ts_name ts) seq rec conv]\<rparr>"
    have "loading k (ts_name ts) base ?v w" using assms(2) True
      by (auto simp: loading_def converted_row_def)
    with assms(1) conv True show ?thesis
      by (auto simp: load_record_def bindP_Inr Let_def split: if_splits dest: flush_loading)
  next
    case False
    with assms(1) conv have "w' = w \<and> lv_batch v' = lv_batch v \<and> lv_seen v' = lv_seen v \<and> lv_loaded v' = lv_loaded v"
      by (auto simp: load_record_def bindP_Inr split: option.splits if_splits)
    with assms(2) show ?thesis by (simp add: loading_def)
  qed
qed

lemma load_fold_loading:
  assumes "foldP (load_record T k n ts seq) recs v w = (Inr v', w')" and "loading k (ts_name ts) base v w"
  shows "loading k (ts_name ts) base v' w'"
  using assms
proof (induction recs arbitrary: v w)
  case Nil
  then show ?case by simp
next
  case (Cons rec recs)
  from Cons.prems(1) obtain u x where "load_record T k n ts seq rec v w = (Inr u, x)"
    and r: "foldP (load_record T k n ts seq) recs u x = (Inr v', w')" by (auto simp: bindP_Inr)
  from this(1) Cons.prems(2) have "loading k (ts_name ts) base u x" by (rule load_record_loading)
  with r show ?case by (rule Cons.IH)
qed

text \<open>A range that was not interrupted: staging grows by exactly the rows reported as loaded.\<close>

lemma load_range_staged:
  assumes "load_range T B sha ctx ts rng w = (Inr (loaded, rejected), w')"
    and "kr_load_status rng \<noteq> LoadRunning" and "ok (w_target w)"
  shows "ok (w_target w') \<and>
    int (staged (w_target w') (rc_key ctx) (ts_name ts)) = int (staged (w_target w) (rc_key ctx) (ts_name ts)) + loaded"
proof -
  let ?k = "rc_key ctx" and ?n = "ts_name ts"
  from assms(1) obtain l n w1 d v w2 v' w3 w4 where b: "begin_range T B sha ctx ts rng w = (Inr (l, n), w1)"
    and run: "foldP (load_record T ?k (load_batch_rows (m_batch (rc_manifest ctx))) ts (kr_seq rng))
              (chunks (tc_record_length (ts_config ts)) d) load_start w1 = (Inr v, w2)"
    and f: "flush T ?k ts v w2 = (Inr v', w3)"
    and r: "(if lv_rejects v' \<noteq> [] then onT (to_insert_rejects T ?k (lv_rejects v')) else retP ()) w3 = (Inr (), w4)"
    and fin: "finish_range T ctx ts rng (lv_loaded v') (lv_rejected v') w4 = (Inr (loaded, rejected), w')"
    by (auto simp: load_range_def bindP_Inr thenP_Inr read_file_def split: option.splits)
  from b obtain w0 where rf: "w_target w0 = w_target w"
    and up: "onT (to_update_key_range T ?k ?n (kr_seq rng) (\<lambda>r. r\<lparr>kr_load_status := LoadRunning\<rparr>)) w0 = (Inr (), w1)"
    using assms(2) range_file_target unfolding begin_range_def bindP_Inr thenP_Inr Let_def
    by (fastforce simp: read_file_def thenP_Inr split: option.splits if_splits)
  from up obtain t1 where "to_update_key_range T ?k ?n (kr_seq rng) (\<lambda>r. r\<lparr>kr_load_status := LoadRunning\<rparr>) (w_target w) = (Inr (), t1)"
    "w_target w1 = t1" using rf by (auto simp: onT_def split: prod.splits)
  with ranges [OF assms(3)] have 1: "ok (w_target w1)" "staged (w_target w1) = staged (w_target w)" by blast+
  then have "loading ?k ?n (int (staged (w_target w) ?k ?n)) load_start w1" by (simp add: loading_def load_start_def)
  from load_fold_loading [OF run this] have "loading ?k ?n (int (staged (w_target w) ?k ?n)) v w2" .
  from flush_loading [OF f this] have 2: "ok (w_target w3)"
    "int (staged (w_target w3) ?k ?n) = int (staged (w_target w) ?k ?n) + lv_loaded v'" by (auto simp: loading_def)
  have 3: "ok (w_target w4) \<and> staged (w_target w4) = staged (w_target w3)"
  proof (cases "lv_rejects v' = []")
    case True
    with r 2 show ?thesis by simp
  next
    case False
    with r obtain t2 where "to_insert_rejects T ?k (lv_rejects v') (w_target w3) = (Inr (), t2)" "w_target w4 = t2"
      by (auto simp: onT_def split: prod.splits)
    with rejects [OF 2(1)] show ?thesis by blast
  qed
  from fin obtain t3 where "to_update_key_range T ?k ?n (kr_seq rng) (\<lambda>r. r\<lparr>kr_load_status := LoadDone\<rparr>) (w_target w4) = (Inr (), t3)"
    "w_target w' = t3" "loaded = lv_loaded v'" by (auto simp: finish_range_def thenP_Inr onT_def split: prod.splits)
  with ranges 3 have "ok (w_target w') \<and> staged (w_target w') = staged (w_target w4)" by blast
  with 2 3 \<open>loaded = lv_loaded v'\<close> show ?thesis by simp
qed

end

section \<open>The in-memory target meets the contract\<close>

lemma staged_by_frame [simp]:
  "staged_by (t\<lparr>ft_rejects := x\<rparr>) = staged_by t"
  "staged_by (t\<lparr>ft_key_ranges := y\<rparr>) = staged_by t"
  by (auto simp: staged_by_def fun_eq_iff split: option.splits)

definition fake_staging_ok :: "fake_target \<Rightarrow> bool" where
  "fake_staging_ok t \<longleftrightarrow> (\<forall>x f. ft_insert_failures t x = Some f \<longrightarrow> if_source_key f = x) \<and>
     (\<forall>tab. \<forall>r \<in> set (ft_staging t tab). \<exists>i. sr_stg_id r = Some i \<and> i < ft_next_id t)"

lemma stage_row_step:
  assumes "stage_row k tab (t, fs) r = (t', fs')" and "fake_staging_ok t"
  shows "fake_staging_ok t' \<and>
    (fs' = fs \<and> length (ft_stg t' k tab) = Suc (length (ft_stg t k tab)) \<or>
     (\<exists>f. fs' = fs @ [f] \<and> if_source_key f = sr_source_key r) \<and> t' = t)"
proof (cases "fs' = fs")
  case False
  with assms show ?thesis
    by (auto simp: stage_row_def fake_staging_ok_def duplicate_failure_def split: option.splits if_splits)
next
  case True
  with assms(1) have t': "fs' = fs" "t' = t\<lparr>ft_staging_ns := (ft_staging_ns t)(ft_next_id t \<mapsto> k), ft_next_id := Suc (ft_next_id t),
                  ft_staging := (ft_staging t)(tab := ft_staging t tab @ [r\<lparr>sr_stg_id := Some (ft_next_id t)\<rparr>])\<rparr>"
    by (auto simp: stage_row_def split: option.splits if_splits)
  have old: "staged_by t' x = staged_by t x" if "x \<in> set (ft_staging t tab)" for x
    using assms(2) that by (fastforce simp: fake_staging_ok_def staged_by_def t')
  have "filter (\<lambda>x. staged_by t' x = Some k) (ft_staging t tab) = filter (\<lambda>x. staged_by t x = Some k) (ft_staging t tab)"
    using old by (intro filter_cong) auto
  then have "length (ft_stg t' k tab) = Suc (length (ft_stg t k tab))"
    by (simp add: ft_stg_def t' staged_by_def)
  moreover have "\<exists>i. sr_stg_id x = Some i \<and> i < Suc (ft_next_id t)" if "x \<in> set (ft_staging t b)" for x b
    using assms(2) that unfolding fake_staging_ok_def by (metis less_SucI)
  then have "fake_staging_ok t'" using assms(2) by (auto simp: fake_staging_ok_def t')
  ultimately show ?thesis using t'(1) by blast
qed

lemma stage_rows_fold:
  assumes "foldl (stage_row k tab) (t, fs) rows = (t', fs')" and "fake_staging_ok t"
    and "distinct (map sr_source_key rows)"
  shows "fake_staging_ok t' \<and> (\<exists>new. fs' = fs @ new \<and> distinct (map if_source_key new) \<and>
    if_source_key ` set new \<subseteq> sr_source_key ` set rows \<and>
    length (ft_stg t' k tab) + length new = length (ft_stg t k tab) + length rows)"
  using assms
proof (induction rows arbitrary: t fs)
  case Nil
  then show ?case by simp
next
  case (Cons r rows)
  obtain t1 fs1 where s: "stage_row k tab (t, fs) r = (t1, fs1)" by (cases "stage_row k tab (t, fs) r") blast
  from stage_row_step [OF s Cons.prems(2)] have ok: "fake_staging_ok t1"
    and alt: "fs1 = fs \<and> length (ft_stg t1 k tab) = Suc (length (ft_stg t k tab)) \<or>
     (\<exists>f. fs1 = fs @ [f] \<and> if_source_key f = sr_source_key r) \<and> t1 = t" by auto
  have "foldl (stage_row k tab) (t1, fs1) rows = (t', fs')" using Cons.prems(1) s by simp
  from Cons.IH [OF this ok] Cons.prems(3) obtain new where
    new: "fake_staging_ok t'" "fs' = fs1 @ new" "distinct (map if_source_key new)"
      "if_source_key ` set new \<subseteq> sr_source_key ` set rows"
      "length (ft_stg t' k tab) + length new = length (ft_stg t1 k tab) + length rows" by auto
  from alt show ?case
  proof
    assume "fs1 = fs \<and> length (ft_stg t1 k tab) = Suc (length (ft_stg t k tab))"
    with new show ?thesis by auto
  next
    assume "(\<exists>f. fs1 = fs @ [f] \<and> if_source_key f = sr_source_key r) \<and> t1 = t"
    then obtain f where f: "fs1 = fs @ [f]" "if_source_key f = sr_source_key r" "t1 = t" by blast
    have "sr_source_key r \<notin> sr_source_key ` set rows" using Cons.prems(3) by simp
    with new f show ?thesis by (intro conjI exI [of _ "f # new"]) auto
  qed
qed

interpretation fake_staging: staging_store "fake_target_ops sha" "\<lambda>t k tab. length (ft_stg t k tab)" fake_staging_ok
proof unfold_locales
  fix t k tab fails t' and rows :: "staged_row list"
  assume ok: "fake_staging_ok t" and d: "distinct (map sr_source_key rows)"
    and run: "to_insert_staging (fake_target_ops sha) k tab rows t = (Inr fails, t')"
  from run have "foldl (stage_row k tab) (t, []) rows = (t', fails)"
    by (auto simp: fake_target_ops_def ft_insert_staging_def split: prod.splits)
  from stage_rows_fold [OF this ok d] have "fake_staging_ok t'" "distinct (map if_source_key fails)"
    "length (ft_stg t' k tab) + length fails = length (ft_stg t k tab) + length rows" by auto
  then show "fake_staging_ok t' \<and> length (ft_stg t' k tab) + card (if_source_key ` set fails) =
      length (ft_stg t k tab) + length rows"
    using distinct_card [of "map if_source_key fails"] by simp
next
  fix t k rs r t'
  assume "fake_staging_ok t" "to_insert_rejects (fake_target_ops sha) k rs t = (r, t')"
  then show "fake_staging_ok t' \<and> (\<lambda>k tab. length (ft_stg t' k tab)) = (\<lambda>k tab. length (ft_stg t k tab))"
    by (auto simp: fake_target_ops_def ft_insert_rejects_def fake_staging_ok_def ft_stg_def)
next
  fix t k tab seq f r t'
  assume "fake_staging_ok t" "to_update_key_range (fake_target_ops sha) k tab seq f t = (r, t')"
  then show "fake_staging_ok t' \<and> (\<lambda>k tab. length (ft_stg t' k tab)) = (\<lambda>k tab. length (ft_stg t k tab))"
    by (auto simp: fake_target_ops_def ft_update_key_range_def fake_staging_ok_def ft_stg_def)
qed

text \<open>On the in-memory target, loading a range that was not interrupted before makes the staged
  rows of the run and table grow by exactly the number reported as loaded.\<close>

theorem load_range_stages_loaded:
  assumes "load_range (fake_target_ops h) B sha ctx ts rng w = (Inr (loaded, rejected), w')"
    and "kr_load_status rng \<noteq> LoadRunning" and "fake_staging_ok (w_target w)"
  shows "int (length (ft_stg (w_target w') (rc_key ctx) (ts_name ts))) =
         int (length (ft_stg (w_target w) (rc_key ctx) (ts_name ts))) + loaded"
  using fake_staging.load_range_staged [OF assms] by blast

section \<open>Witnesses\<close>

text \<open>
  A local file of three records: a good one, one with a bad packed field, and the first again.
  Its range was extracted with three rows, and its recorded checksum is that of the file under
  the identity in the place of SHA-256.
\<close>

definition load_file :: bytes where
  "load_file = example_record @ bad_record @ example_record"

definition load_example_range :: key_range where
  "load_example_range = example_range\<lparr>kr_status := Done, kr_row_count := Some 3, kr_sha := Some (sha_hex (\<lambda>b. b) load_file),
     kr_local_path := Some ''/work/x.dat'', kr_blob_path := Some ''x.dat''\<rparr>"

definition load_world :: "(fake_source, fake_target, files) world" where
  "load_world = (example_world ft_init)\<lparr>w_files := [''/work/x.dat'' \<mapsto> load_file], w_blobs := [''x.dat'' \<mapsto> load_file]\<rparr>"

definition load_example :: "(ldm_error + int \<times> int) \<times> (fake_source, fake_target, files) world" where
  "load_example = load_range (fake_target_ops (\<lambda>b. b)) directory_blob_store (\<lambda>b. b) (example_context True) example_table
     load_example_range load_world"

lemma load_example_counts: "fst load_example = Inr (1, 2)"
  by code_simp

lemma load_example_run:
  "load_range (fake_target_ops (\<lambda>b. b)) directory_blob_store (\<lambda>b. b) (example_context True) example_table
     load_example_range load_world = (Inr (1, 2), snd load_example)"
  using load_example_counts unfolding load_example_def [symmetric] by (metis prod.collapse)

theorem load_range_accounts_witness: "\<exists>n. (1 :: int) + 2 = int n \<and> kr_row_count load_example_range = Some n"
proof -
  have "0 < tc_record_length (ts_config example_table)" and "kr_row_count load_example_range \<noteq> None" by code_simp+
  with load_range_accounts [OF load_example_run] show ?thesis by blast
qed

theorem load_range_stages_loaded_witness:
  "int (length (ft_stg (w_target (snd load_example)) (rc_key (example_context True)) (ts_name example_table))) = 1"
proof -
  have "kr_load_status load_example_range \<noteq> LoadRunning" by code_simp
  moreover have "fake_staging_ok (w_target load_world)"
    by (simp add: fake_staging_ok_def load_world_def example_world_def ft_init_def)
  moreover have "ft_stg (w_target load_world) (rc_key (example_context True)) (ts_name example_table) = []" by code_simp
  ultimately show ?thesis using load_range_stages_loaded [OF load_example_run] by simp
qed


end
