(* ===== verification/Ldm_Purge.thy ===== *)
theory Ldm_Purge
  imports Ldm_Extract "HOL-Library.Sublist"
begin

text \<open>
  The PURGE stage (\<open>migration/job/ldm/stages/purge.py\<close>): the guard that compares the purge-safe
  keys with the ledger, audited batches with retries on transient source errors, recovery of
  batches that were committed before a crash, and the run over all tables. The pause between
  two attempts and the stderr log are not modelled.

  The two locales say what the stage relies on: a source whose batches are atomic and remove
  only rows with one of the given keys, and a target whose other operations leave the
  validation, the ledger's validated counts and the purge audit alone. The in-memory drivers meet both.
\<close>

section \<open>Definitions\<close>

definition TRANSIENT_SOURCE_SQLSTATES :: "string list" where
  "TRANSIENT_SOURCE_SQLSTATES = [''57011'', ''57033'', ''40001'']"

fun is_transient :: "ldm_error \<Rightarrow> bool" where
  "is_transient (SourceError _ sqlstate _ transient) = (case transient of
       Some b \<Rightarrow> b
     | None \<Rightarrow> (case sqlstate of None \<Rightarrow> False | Some s \<Rightarrow> s \<in> set TRANSIENT_SOURCE_SQLSTATES))"
| "is_transient _ = False"

text \<open>One attempt at a batch, with what to do on an \<open>LdmError\<close> after the audit rows are set to ROLLED_BACK.\<close>

definition purge_attempt ::
  "'s source_ops \<Rightarrow> 't target_ops \<Rightarrow> run_context \<Rightarrow> table_spec \<Rightarrow> string list \<Rightarrow> nat \<Rightarrow>
   (ldm_error \<Rightarrow> (('s, 't, 'b) world, ldm_error, nat) prog) \<Rightarrow> (('s, 't, 'b) world, ldm_error, nat) prog" where
  "purge_attempt S T ctx ts chunk batch_no on_error =
     thenP (onT (to_insert_purge_audit T (rc_key ctx) (ts_name ts) chunk batch_no))
     (tryP (bindP (liftP (ts_key_column ts)) (\<lambda>c.
              onS (so_purge_batch S (tc_schema (ts_config ts)) (ts_name ts) c chunk (rc_run_id ctx)
                     (m_namespace (rc_manifest ctx)) batch_no)))
        (\<lambda>e. if is_ldm_error e
             then thenP (onT (to_set_purge_audit_status T (rc_key ctx) (ts_name ts) chunk RolledBack)) (on_error e)
             else raiseP e))"

text \<open>The argument counts the attempts that are left after this one.\<close>

primrec purge_batch_with_retry ::
  "nat \<Rightarrow> 's source_ops \<Rightarrow> 't target_ops \<Rightarrow> run_context \<Rightarrow> table_spec \<Rightarrow> string list \<Rightarrow> nat \<Rightarrow>
   (('s, 't, 'b) world, ldm_error, nat) prog" where
  "purge_batch_with_retry 0 S T ctx ts chunk batch_no = purge_attempt S T ctx ts chunk batch_no raiseP"
| "purge_batch_with_retry (Suc n) S T ctx ts chunk batch_no =
     purge_attempt S T ctx ts chunk batch_no (\<lambda>e.
       if is_transient e then purge_batch_with_retry n S T ctx ts chunk batch_no else raiseP e)"

definition guard ::
  "'t target_ops \<Rightarrow> run_context \<Rightarrow> table_spec \<Rightarrow> (('s, 't, 'b) world, ldm_error, string list \<times> int) prog" where
  "guard T ctx ts =
     bindP (onT (to_purge_safe_keys T (rc_key ctx) (ts_name ts))) (\<lambda>keys.
     bindP (ledger_entry T ctx ts) (\<lambda>ledger.
     let intended = length keys; validated = int_default (- 1) (lr_validated ledger) in
     thenP (onT (to_update_ledger T (rc_key ctx) (ts_name ts) (\<lambda>r. r\<lparr>lr_purge_intended := Some intended,
              lr_purge_dry_run := Some (\<not> m_purge (rc_manifest ctx))\<rparr>)))
     (if int intended \<noteq> validated
      then raiseP (PurgeGuardError (ts_name ts @ '': purge guard: '' @ str_nat intended @
             '' purge_safe key(s) but ledger validated='' @ str_int validated @ ''; nothing deleted''))
      else retP (keys, validated))))"

text \<open>Keys the source committed before an earlier run stopped: they are audited and marked PURGED.\<close>

definition recover_committed ::
  "'s source_ops \<Rightarrow> 't target_ops \<Rightarrow> run_context \<Rightarrow> table_spec \<Rightarrow> string list \<Rightarrow>
   (('s, 't, 'b) world, ldm_error, string list) prog" where
  "recover_committed S T ctx ts todo =
     (if todo = [] then retP todo
      else bindP (onS (so_audited_keys S (rc_run_id ctx) (ts_name ts) todo)) (\<lambda>committed.
        if committed = [] then retP todo
        else let recovered = filter (\<lambda>k. k \<in> set committed) todo in
          thenP (onT (to_insert_purge_audit T (rc_key ctx) (ts_name ts) recovered 0))
          (thenP (onT (to_set_purge_audit_status T (rc_key ctx) (ts_name ts) recovered Purged))
          (retP (filter (\<lambda>k. k \<notin> set committed) todo)))))"

definition purge_one_batch ::
  "'s source_ops \<Rightarrow> 't target_ops \<Rightarrow> run_context \<Rightarrow> table_spec \<Rightarrow> nat \<times> string list \<Rightarrow>
   (('s, 't, 'b) world, ldm_error, unit) prog" where
  "purge_one_batch S T ctx ts nc = (case nc of (batch_no, chunk) \<Rightarrow>
     bindP (tryP (purge_batch_with_retry (purge_retry_attempts (m_batch (rc_manifest ctx))) S T ctx ts chunk batch_no)
              (\<lambda>e. if is_ldm_error e
                   then bindP (onT (to_purged_keys T (rc_key ctx) (ts_name ts))) (\<lambda>done.
                          thenP (onT (to_update_ledger T (rc_key ctx) (ts_name ts)
                                   (\<lambda>r. r\<lparr>lr_purged := Some (length done)\<rparr>)))
                          (raiseP e))
                   else raiseP e))
       (\<lambda>_. onT (to_set_purge_audit_status T (rc_key ctx) (ts_name ts) chunk Purged)))"

definition purge_table ::
  "'s source_ops \<Rightarrow> 't target_ops \<Rightarrow> run_context \<Rightarrow> table_spec \<Rightarrow> string list \<Rightarrow> int \<Rightarrow>
   (('s, 't, 'b) world, ldm_error, counts) prog" where
  "purge_table S T ctx ts keys validated =
     (if \<not> m_purge (rc_manifest ctx)
      then thenP (onT (to_update_ledger T (rc_key ctx) (ts_name ts) (\<lambda>r. r\<lparr>lr_purged := Some 0\<rparr>)))
           (retP [(''purge_intended'', int (length keys)), (''purged'', 0), (''dry_run'', 1)])
      else bindP (onT (to_purged_keys T (rc_key ctx) (ts_name ts))) (\<lambda>already.
        bindP (recover_committed S T ctx ts (filter (\<lambda>k. k \<notin> set already) keys)) (\<lambda>todo.
        thenP (forP (enumerate 1 (chunks (purge_batch_rows (m_batch (rc_manifest ctx))) todo))
                 (purge_one_batch S T ctx ts))
        (bindP (onT (to_purged_keys T (rc_key ctx) (ts_name ts))) (\<lambda>done.
         let purged = length done in
         thenP (onT (to_update_ledger T (rc_key ctx) (ts_name ts) (\<lambda>r. r\<lparr>lr_purged := Some purged\<rparr>)))
         (if int purged \<noteq> validated
          then raiseP (PurgeGuardError (ts_name ts @ '': purged '' @ str_nat purged @ '' != validated '' @
                 str_int validated @ '' after all batches''))
          else retP [(''purge_intended'', int (length keys)), (''purged'', int purged), (''dry_run'', 0)]))))))"

definition skip_reference ::
  "'t target_ops \<Rightarrow> run_context \<Rightarrow> table_spec \<Rightarrow> (string \<times> counts) list \<Rightarrow>
   (('s, 't, 'b) world, ldm_error, (string \<times> counts) list) prog" where
  "skip_reference T ctx ts out =
     (if tc_role (ts_config ts) = DataTable then retP out
      else thenP (onT (to_update_ledger T (rc_key ctx) (ts_name ts) (\<lambda>r. r\<lparr>lr_purge_intended := Some 0,
                    lr_purged := Some 0, lr_purge_dry_run := Some (\<not> m_purge (rc_manifest ctx))\<rparr>)))
           (retP (dict_set (ts_name ts) [(''purge_intended'', 0), (''purged'', 0)] out)))"

definition guard_step ::
  "'t target_ops \<Rightarrow> run_context \<Rightarrow> table_spec \<Rightarrow> (string \<times> string list \<times> int) list \<Rightarrow>
   (('s, 't, 'b) world, ldm_error, (string \<times> string list \<times> int) list) prog" where
  "guard_step T ctx ts guarded =
     bindP (logged T (rc_key ctx) Purge (Some (ts_name ts)) (guard T ctx ts)
              (\<lambda>(keys, validated). (LogOK, None, Some (''guard ok: intended='' @ str_int validated))))
       (\<lambda>g. retP (dict_set (ts_name ts) g guarded))"

definition purge_step ::
  "'s source_ops \<Rightarrow> 't target_ops \<Rightarrow> run_context \<Rightarrow> (string \<times> string list \<times> int) list \<Rightarrow> table_spec \<Rightarrow>
   (string \<times> counts) list \<Rightarrow> (('s, 't, 'b) world, ldm_error, (string \<times> counts) list) prog" where
  "purge_step S T ctx guarded ts out =
     bindP (logged T (rc_key ctx) Purge (Some (ts_name ts))
              (case map_of guarded (ts_name ts) of
                 Some (keys, validated) \<Rightarrow> purge_table S T ctx ts keys validated
               | None \<Rightarrow> raiseP key_error)
              (\<lambda>c. (LogOK, Some (count_of ''purged'' c), None)))
       (\<lambda>c. retP (dict_set (ts_name ts) c out))"

definition purge_run ::
  "'s source_ops \<Rightarrow> 't target_ops \<Rightarrow> run_context \<Rightarrow> (('s, 't, 'b) world, ldm_error, (string \<times> counts) list) prog" where
  "purge_run S T ctx =
     bindP (liftP (tables_in_order ctx)) (\<lambda>all.
     bindP (foldP (skip_reference T ctx) all []) (\<lambda>out.
     bindP (liftP (data_tables ctx)) (\<lambda>data.
     bindP (foldP (guard_step T ctx) (rev data) []) (\<lambda>guarded.
     foldP (purge_step S T ctx guarded) (rev data) out))))"

section \<open>What a purge may remove\<close>

text \<open>
  \<open>hit c ks r\<close>: the key column \<open>c\<close> of the row holds one of the keys, up to trailing blanks.
  \<open>removable tss K q r\<close>: the row of the source table \<open>q\<close> belongs to one of the tables \<open>tss\<close> and its
  key is in that table's set \<open>K\<close>.
\<close>

definition hit :: "string \<Rightarrow> string set \<Rightarrow> row \<Rightarrow> bool" where
  "hit c ks r = (case map_of r c of None \<Rightarrow> False | Some v \<Rightarrow> rstrip_sp (text_of v) \<in> rstrip_sp ` ks)"

definition source_table :: "table_spec \<Rightarrow> string" where
  "source_table ts = qual_name (tc_schema (ts_config ts)) (ts_name ts)"

definition key_hit :: "table_spec \<Rightarrow> string set \<Rightarrow> row \<Rightarrow> bool" where
  "key_hit ts ks r = (case ts_key_column ts of Inl _ \<Rightarrow> False | Inr c \<Rightarrow> hit c ks r)"

definition removable :: "table_spec list \<Rightarrow> (string \<Rightarrow> string set) \<Rightarrow> string \<Rightarrow> row \<Rightarrow> bool" where
  "removable tss K q r = (\<exists>ts \<in> set tss. q = source_table ts \<and> key_hit ts (K (ts_name ts)) r)"

definition only_removed ::
  "table_spec list \<Rightarrow> (string \<Rightarrow> string set) \<Rightarrow> (string \<Rightarrow> row list) \<Rightarrow> (string \<Rightarrow> row list) \<Rightarrow> bool" where
  "only_removed tss K h h' \<longleftrightarrow> (\<forall>q. subseq (h' q) (h q) \<and>
     filter (\<lambda>r. \<not> removable tss K q r) (h' q) = filter (\<lambda>r. \<not> removable tss K q r) (h q))"

lemma hit_mono: "hit c ks r \<Longrightarrow> ks \<subseteq> ks' \<Longrightarrow> hit c ks' r"
  by (auto simp: hit_def split: option.splits)

lemma key_hit_mono: "key_hit ts ks r \<Longrightarrow> ks \<subseteq> ks' \<Longrightarrow> key_hit ts ks' r"
  by (auto simp: key_hit_def split: sum.splits intro: hit_mono)

lemma removable_mono: "removable tss K q r \<Longrightarrow> K \<le> K' \<Longrightarrow> removable tss K' q r"
  by (auto simp: removable_def le_fun_def intro: key_hit_mono)

lemma only_removed_refl [simp]: "only_removed tss K h h"
  by (simp add: only_removed_def)

lemma only_removed_mono:
  assumes "only_removed tss K h h'" and "K \<le> K'"
  shows "only_removed tss K' h h'"
  unfolding only_removed_def
proof (intro allI conjI)
  fix q
  show "subseq (h' q) (h q)" using assms(1) by (simp add: only_removed_def)
  have "filter (\<lambda>r. \<not> removable tss K' q r) xs =
      filter (\<lambda>r. \<not> removable tss K' q r) (filter (\<lambda>r. \<not> removable tss K q r) xs)" for xs
    using removable_mono [OF _ assms(2)] by (induction xs) auto
  then show "filter (\<lambda>r. \<not> removable tss K' q r) (h' q) = filter (\<lambda>r. \<not> removable tss K' q r) (h q)"
    using assms(1) by (metis only_removed_def)
qed

lemma only_removed_step:
  assumes "only_removed tss K h0 h" and "ts \<in> set tss" and "ts_key_column ts = Inr c" and "ks \<subseteq> K (ts_name ts)"
    and "\<And>r. \<not> p r \<Longrightarrow> hit c ks r"
  shows "only_removed tss K h0 (h(source_table ts := filter p (h (source_table ts))))"
proof -
  have "removable tss K (source_table ts) r" if "\<not> p r" for r
    using hit_mono [OF assms(5) [OF that] assms(4)] assms(2,3)
    by (auto simp: removable_def key_hit_def intro!: bexI [of _ ts])
  then have "filter (\<lambda>r. \<not> removable tss K (source_table ts) r) (filter p xs) =
      filter (\<lambda>r. \<not> removable tss K (source_table ts) r) xs" for xs
    by (induction xs) auto
  with assms(1) show ?thesis
    by (auto simp: only_removed_def intro: subseq_order.trans [OF subseq_filter_left])
qed

section \<open>The contracts of the drivers\<close>

text \<open>What the purge sees of a target, per run and table.\<close>

record purge_view =
  pv_safe :: "run_key \<Rightarrow> string \<Rightarrow> string list"
  pv_validated :: "run_key \<Rightarrow> string \<Rightarrow> nat option"
  pv_audited :: "run_key \<Rightarrow> string \<Rightarrow> string set"
  pv_purged :: "run_key \<Rightarrow> string \<Rightarrow> string set"

definition add_keys :: "'k \<Rightarrow> 'n \<Rightarrow> 'a set \<Rightarrow> ('k \<Rightarrow> 'n \<Rightarrow> 'a set) \<Rightarrow> 'k \<Rightarrow> 'n \<Rightarrow> 'a set" where
  "add_keys k n xs f = f(k := (f k)(n := f k n \<union> xs))"

text \<open>
  A batch that fails changes nothing; a batch that succeeds removes only rows that its keys hit
  and enters its keys into the source's own audit table.
\<close>

locale purge_source =
  fixes S :: "'s source_ops" and holds :: "'s \<Rightarrow> string \<Rightarrow> row list" and committed :: "'s \<Rightarrow> string \<Rightarrow> string \<Rightarrow> string set"
  assumes batch_error: "so_purge_batch S sc t c ks rid ns bn s = (Inl e, s') \<Longrightarrow>
      holds s' = holds s \<and> committed s' = committed s"
    and batch_ok: "so_purge_batch S sc t c ks rid ns bn s = (Inr n, s') \<Longrightarrow>
      \<exists>p. holds s' = (holds s)(qual_name sc t := filter p (holds s (qual_name sc t))) \<and> (\<forall>r. \<not> p r \<longrightarrow> hit c (set ks) r)"
    and batch_committed: "so_purge_batch S sc t c ks rid ns bn s = (Inr n, s') \<Longrightarrow>
      committed s' = add_keys rid t (set ks) (committed s)"
    and audited_keys: "so_audited_keys S rid t ks s = (r, s') \<Longrightarrow>
      s' = s \<and> (\<forall>xs. r = Inr xs \<longrightarrow> set xs \<subseteq> committed s rid t)"

text \<open>A source that, in its good states, deletes every row a successful batch asks for.\<close>

locale exact_source = purge_source +
  fixes exact :: "'s \<Rightarrow> bool"
  assumes exact_batch: "exact s \<Longrightarrow> so_purge_batch S sc t c ks rid ns bn s = (r, s') \<Longrightarrow> exact s'"
    and exact_ok: "exact s \<Longrightarrow> so_purge_batch S sc t c ks rid ns bn s = (Inr n, s') \<Longrightarrow>
      row \<in> set (holds s' (qual_name sc t)) \<Longrightarrow> \<not> hit c (set ks) row"

locale purge_target =
  fixes T :: "'t target_ops" and view :: "'t \<Rightarrow> purge_view"
  assumes log_start: "to_log_start T k st tab t = (r1, t') \<Longrightarrow> view t' = view t"
    and log_finish: "to_log_finish T i ls rows msg t = (r2, t') \<Longrightarrow> view t' = view t"
    and get_ledger: "to_get_ledger T k t = (r3, t') \<Longrightarrow> view t' = view t \<and>
      (\<forall>led n row. r3 = Inr led \<longrightarrow> map_of led n = Some row \<longrightarrow> lr_validated row = pv_validated (view t) k n)"
    and update_ledger: "to_update_ledger T k n f t = (r2, t') \<Longrightarrow> (\<And>row. lr_validated (f row) = lr_validated row) \<Longrightarrow>
      view t' = view t"
    and safe_keys: "to_purge_safe_keys T k n t = (r4, t') \<Longrightarrow> view t' = view t \<and>
      (\<forall>xs. r4 = Inr xs \<longrightarrow> xs = pv_safe (view t) k n)"
    and purged_keys: "to_purged_keys T k n t = (r4, t') \<Longrightarrow> view t' = view t \<and>
      (\<forall>xs. r4 = Inr xs \<longrightarrow> set xs = pv_purged (view t) k n)"
    and insert_audit: "to_insert_purge_audit T k n ks bn t = (r2, t') \<Longrightarrow> view t' =
      (view t)\<lparr>pv_audited := add_keys k n (case r2 of Inl _ \<Rightarrow> {} | Inr _ \<Rightarrow> set ks) (pv_audited (view t))\<rparr>"
    and audit_status: "to_set_purge_audit_status T k n ks ps t = (r2, t') \<Longrightarrow>
      \<exists>P. view t' = (view t)\<lparr>pv_purged := P\<rparr> \<and>
        P \<le> add_keys k n (if ps = Purged then set ks else {}) (pv_purged (view t))"

locale purge_job = purge_source S holds committed + purge_target T view
  for S :: "'s source_ops" and holds :: "'s \<Rightarrow> string \<Rightarrow> row list" and committed :: "'s \<Rightarrow> string \<Rightarrow> string \<Rightarrow> string set"
    and T :: "'t target_ops" and view :: "'t \<Rightarrow> purge_view"

section \<open>The in-memory drivers meet the contracts\<close>

definition fs_committed :: "fake_source \<Rightarrow> string \<Rightarrow> string \<Rightarrow> string set" where
  "fs_committed s rid n = {k. \<exists>b st. (rid, n, k, b, st) \<in> set (fs_purge_audit s)}"

definition ft_view :: "fake_target \<Rightarrow> purge_view" where
  "ft_view t = \<lparr>
     pv_safe = (\<lambda>k n. sort (map vr_source_key (filter (\<lambda>v. vr_table v = n \<and> vr_purge_safe v) (ft_validation t k)))),
     pv_validated = (\<lambda>k n. Option.bind (ft_ledger t k) (\<lambda>l. Option.bind (map_of l n) lr_validated)),
     pv_audited = audited_in t,
     pv_purged = (\<lambda>k n. pa_source_key ` set (filter (\<lambda>a. pa_table a = n \<and> pa_status a = Purged) (ft_purge_audit t k)))\<rparr>"

lemma filterE_Inr: "filterE f xs = Inr ys \<Longrightarrow> ys = filter (\<lambda>x. f x = Inr True) xs \<and> (\<forall>x \<in> set xs. \<exists>b. f x = Inr b)"
  by (induction xs arbitrary: ys) auto

lemma fs_purge_batch_Inr:
  assumes "fs_purge_batch sc t c ks rid ns bn s = (Inr n, s')"
  shows "\<exists>p. fs_tables s' = (fs_tables s)(qual_name sc t := filter p (fs_tables s (qual_name sc t))) \<and>
      fs_short_delete_for s' = fs_short_delete_for s \<and>
      fs_purge_audit s' = fs_purge_audit s @ map (\<lambda>k. (rid, t, k, bn, Purged)) ks \<and>
      (\<forall>r. \<not> p r \<longrightarrow> hit c (set ks) r) \<and>
      (fs_short_delete_for s = [] \<longrightarrow> (\<forall>r \<in> set (fs_tables s (qual_name sc t)). p r \<longrightarrow> \<not> hit c (set ks) r))"
proof -
  let ?wanted = "map rstrip_sp (filter (\<lambda>k. k \<notin> set (fs_short_delete_for s)) ks)"
  let ?f = "\<lambda>r. bindE (field r c) (\<lambda>v. Inr (rstrip_sp (text_of v) \<notin> set ?wanted) :: ldm_error + bool)"
  let ?rows = "fs_tables s (qual_name sc t)"
  from assms obtain remaining where rem: "filterE ?f ?rows = Inr remaining"
    and s': "s' = s\<lparr>fs_tables := (fs_tables s)(qual_name sc t := remaining),
        fs_purge_audit := fs_purge_audit s @ map (\<lambda>k. (rid, t, k, bn, Purged)) ks\<rparr>"
    by (auto simp: fs_purge_batch_def Let_def split: option.splits sum.splits if_splits)
  let ?p = "\<lambda>r. \<not> (\<exists>v. map_of r c = Some v \<and> rstrip_sp (text_of v) \<in> set ?wanted)"
  from filterE_Inr [OF rem] have all: "\<forall>r \<in> set ?rows. \<exists>b. ?f r = Inr b"
    and remaining: "remaining = filter (\<lambda>r. ?f r = Inr True) ?rows" by blast+
  have "(?f r = Inr True) = ?p r" if "r \<in> set ?rows" for r
    using bspec [OF all that] by (auto simp: field_def split: option.splits)
  then have "remaining = filter ?p ?rows"
    unfolding remaining by (intro filter_cong refl)
  moreover have "\<forall>r. \<not> ?p r \<longrightarrow> hit c (set ks) r" by (auto simp: hit_def)
  moreover have "fs_short_delete_for s = [] \<longrightarrow> (\<forall>r. ?p r \<longrightarrow> \<not> hit c (set ks) r)"
    by (auto simp: hit_def split: option.splits)
  ultimately show ?thesis using s' by (intro exI [of _ ?p]) simp
qed

lemma fs_purge_batch_Inl: "fs_purge_batch sc t c ks rid ns bn s = (Inl e, s') \<Longrightarrow> s' = s"
  by (auto simp: fs_purge_batch_def Let_def split: option.splits sum.splits if_splits)

lemma fs_purge_batch_short:
  "fs_purge_batch sc t c ks rid ns bn s = (r, s') \<Longrightarrow> fs_short_delete_for s' = fs_short_delete_for s"
  by (cases r) (auto dest: fs_purge_batch_Inl fs_purge_batch_Inr)

lemma fs_committed_append:
  assumes "fs_purge_audit s' = fs_purge_audit s @ map (\<lambda>k. (rid, n, k, bn, Purged)) ks"
  shows "fs_committed s' = add_keys rid n (set ks) (fs_committed s)"
  using assms by (auto simp: fs_committed_def add_keys_def fun_eq_iff)

interpretation fake_source: exact_source fake_source_ops fs_tables fs_committed "\<lambda>s. fs_short_delete_for s = []"
proof unfold_locales
  fix sc t c ks rid ns bn s s' and n :: nat and e r
  show "so_purge_batch fake_source_ops sc t c ks rid ns bn s = (Inl e, s') \<Longrightarrow>
      fs_tables s' = fs_tables s \<and> fs_committed s' = fs_committed s"
    by (auto simp: fake_source_ops_def dest: fs_purge_batch_Inl)
  show "\<exists>p. fs_tables s' = (fs_tables s)(qual_name sc t := filter p (fs_tables s (qual_name sc t))) \<and>
      (\<forall>r. \<not> p r \<longrightarrow> hit c (set ks) r)" if "so_purge_batch fake_source_ops sc t c ks rid ns bn s = (Inr n, s')"
    using fs_purge_batch_Inr [of sc t c ks rid ns bn s n s'] that by (auto simp: fake_source_ops_def)
  show "fs_committed s' = add_keys rid t (set ks) (fs_committed s)"
    if "so_purge_batch fake_source_ops sc t c ks rid ns bn s = (Inr n, s')"
    using fs_purge_batch_Inr [of sc t c ks rid ns bn s n s'] that fs_committed_append
    by (auto simp: fake_source_ops_def)
  show "fs_short_delete_for s = [] \<Longrightarrow> so_purge_batch fake_source_ops sc t c ks rid ns bn s = (r, s') \<Longrightarrow>
      fs_short_delete_for s' = []"
    by (simp add: fake_source_ops_def fs_purge_batch_short)
  show "\<not> hit c (set ks) q" if "fs_short_delete_for s = []"
    "so_purge_batch fake_source_ops sc t c ks rid ns bn s = (Inr n, s')" "q \<in> set (fs_tables s' (qual_name sc t))" for q
    using fs_purge_batch_Inr [of sc t c ks rid ns bn s n s'] that by (auto simp: fake_source_ops_def)
qed (auto simp: fake_source_ops_def fs_audited_keys_def fs_committed_def)

lemma ft_view_eqI:
  assumes "ft_validation t' = ft_validation t" and "ft_purge_audit t' = ft_purge_audit t"
    and "\<And>k n. Option.bind (ft_ledger t' k) (\<lambda>l. Option.bind (map_of l n) lr_validated) =
             Option.bind (ft_ledger t k) (\<lambda>l. Option.bind (map_of l n) lr_validated)"
  shows "ft_view t' = ft_view t"
  using assms by (simp add: ft_view_def audited_in_def fun_eq_iff)

lemma audited_in_iff:
  "x \<in> audited_in t k n \<longleftrightarrow> (\<exists>a \<in> set (ft_purge_audit t k). pa_table a = n \<and> pa_source_key a = x)"
  by (auto simp: audited_in_def)

lemma purged_iff: "x \<in> pv_purged (ft_view t) k n \<longleftrightarrow>
    (\<exists>a \<in> set (ft_purge_audit t k). pa_table a = n \<and> pa_status a = Purged \<and> pa_source_key a = x)"
  by (auto simp: ft_view_def)

lemma ft_status_view:
  assumes "ft_set_purge_audit_status k n ks ps t = (r, t')"
  shows "\<exists>P. ft_view t' = (ft_view t)\<lparr>pv_purged := P\<rparr> \<and>
    P \<le> add_keys k n (if ps = Purged then set ks else {}) (pv_purged (ft_view t))"
proof -
  define f :: "purge_audit_row \<Rightarrow> purge_audit_row" where "f = (\<lambda>a. if pa_table a = n \<and> pa_source_key a \<in> set ks then a\<lparr>pa_status := ps\<rparr> else a)"
  have t': "t' = t\<lparr>ft_purge_audit := (ft_purge_audit t)(k := map f (ft_purge_audit t k))\<rparr>"
    using assms by (simp add: ft_set_purge_audit_status_def f_def)
  have f: "pa_table (f a) = pa_table a" "pa_source_key (f a) = pa_source_key a"
    "pa_status (f a) = (if pa_table a = n \<and> pa_source_key a \<in> set ks then ps else pa_status a)" for a
    by (simp_all add: f_def)
  have "x \<in> audited_in t' k' n' \<longleftrightarrow> x \<in> audited_in t k' n'" for k' n' x
    by (simp add: t' audited_in_iff f)
  then have "audited_in t' = audited_in t" by (intro ext set_eqI)
  then have "ft_view t' = (ft_view t)\<lparr>pv_purged := pv_purged (ft_view t')\<rparr>"
    by (simp add: ft_view_def t')
  moreover have "x \<in> add_keys k n (if ps = Purged then set ks else {}) (pv_purged (ft_view t)) k' n'"
    if "x \<in> pv_purged (ft_view t') k' n'" for k' n' x
    using that by (auto simp: purged_iff t' f add_keys_def split: if_splits)
  ultimately show ?thesis by (metis le_funI subsetI)
qed

lemma ft_insert_view:
  assumes "ft_insert_purge_audit k n ks bn t = (r, t')"
  shows "r = Inr () \<and> ft_view t' = (ft_view t)\<lparr>pv_audited := add_keys k n (set ks) (pv_audited (ft_view t))\<rparr>"
proof -
  let ?new = "map (\<lambda>key. \<lparr>pa_table = n, pa_source_key = key, pa_batch_no = bn, pa_status = Intended\<rparr>)
    (filter (\<lambda>key. key \<notin> audited_in t k n) ks)"
  have r: "r = Inr ()" and t': "t' = t\<lparr>ft_purge_audit := (ft_purge_audit t)(k := ft_purge_audit t k @ ?new)\<rparr>"
    using assms by (auto simp: ft_insert_purge_audit_def)
  have "x \<in> audited_in t' k' n' \<longleftrightarrow> x \<in> add_keys k n (set ks) (audited_in t) k' n'" for k' n' x
    by (auto simp: t' audited_in_iff add_keys_def bex_Un)
  then have "audited_in t' = add_keys k n (set ks) (audited_in t)" by (intro ext set_eqI)
  moreover have "x \<in> pv_purged (ft_view t') k' n' \<longleftrightarrow> x \<in> pv_purged (ft_view t) k' n'" for k' n' x
    by (auto simp: t' purged_iff bex_Un)
  then have "pv_purged (ft_view t') = pv_purged (ft_view t)" by (intro ext set_eqI)
  ultimately show ?thesis using r by (simp add: ft_view_def t')
qed

interpretation fake_target: purge_target "fake_target_ops sha" ft_view
  for sha
proof unfold_locales
  fix k n f t r2 t'
  assume u: "to_update_ledger (fake_target_ops sha) k n f t = (r2, t')"
    and f: "\<And>row. lr_validated (f row) = lr_validated row"
  then show "ft_view t' = ft_view t"
    by (intro ft_view_eqI) (auto simp: fake_target_ops_def ft_update_ledger_def map_of_dict_set split: option.splits)
next
  fix k n ks ps t r2 t'
  assume "to_set_purge_audit_status (fake_target_ops sha) k n ks ps t = (r2, t')"
  then have "ft_set_purge_audit_status k n ks ps t = (r2, t')" by (simp add: fake_target_ops_def)
  from ft_status_view [OF this] show "\<exists>P. ft_view t' = (ft_view t)\<lparr>pv_purged := P\<rparr> \<and>
      P \<le> add_keys k n (if ps = Purged then set ks else {}) (pv_purged (ft_view t))" by blast
next
  fix k n ks bn t r2 t'
  assume "to_insert_purge_audit (fake_target_ops sha) k n ks bn t = (r2, t')"
  then have "ft_insert_purge_audit k n ks bn t = (r2, t')" by (simp add: fake_target_ops_def)
  from ft_insert_view [OF this] show "ft_view t' = (ft_view t)\<lparr>pv_audited := add_keys k n
      (case r2 of Inl _ \<Rightarrow> {} | Inr _ \<Rightarrow> set ks) (pv_audited (ft_view t))\<rparr>" by auto
qed (auto simp: fake_target_ops_def ft_log_start_def ft_log_finish_def ft_get_ledger_def ft_purge_safe_keys_def
      ft_purged_keys_def ft_view_def audited_in_def fun_eq_iff split: option.splits)

section \<open>Only audited, purge-safe keys are removed\<close>

lemma enumerate_member: "(i, x) \<in> set (enumerate n xs) \<Longrightarrow> x \<in> set xs"
  by (induction xs arbitrary: n) auto

lemma add_keys_mono: "f k \<le> add_keys k n xs f k"
  by (auto simp: add_keys_def le_fun_def)

lemma add_keys_empty [simp]: "add_keys k n {} f = f"
  by (simp add: add_keys_def)

context purge_target
begin

lemma log_start_keeps: "keeps (\<lambda>w. J (w_source w) (view (w_target w))) (onT (to_log_start T k st tab))"
  by (rule keepsI) (auto simp: onT_step dest: log_start)

lemma log_finish_keeps: "keeps (\<lambda>w. J (w_source w) (view (w_target w))) (onT (to_log_finish T i ls rows msg))"
  by (rule keepsI) (auto simp: onT_step dest: log_finish)

lemma update_ledger_keeps:
  "(\<And>row. lr_validated (f row) = lr_validated row) \<Longrightarrow>
   keeps (\<lambda>w. J (w_source w) (view (w_target w))) (onT (to_update_ledger T k n f))"
  by (rule keepsI) (auto simp: onT_step dest: update_ledger)

lemma purged_keys_keeps: "keeps (\<lambda>w. J (w_source w) (view (w_target w))) (onT (to_purged_keys T k n))"
  by (rule keepsI) (auto simp: onT_step dest: purged_keys)

lemma ledger_entry_value:
  "hoare (\<lambda>w. w_source w = s0 \<and> view (w_target w) = v0) (ledger_entry T ctx ts)
     (\<lambda>a w. (w_source w = s0 \<and> view (w_target w) = v0) \<and> lr_validated a = pv_validated v0 (rc_key ctx) (ts_name ts))
     (\<lambda>_ w. w_source w = s0 \<and> view (w_target w) = v0)"
  unfolding ledger_entry_def
proof (rule hoare_bind)
  show "hoare (\<lambda>w. w_source w = s0 \<and> view (w_target w) = v0) (onT (to_get_ledger T (rc_key ctx)))
     (\<lambda>led w. (w_source w = s0 \<and> view (w_target w) = v0) \<and>
        (\<forall>row. map_of led (ts_name ts) = Some row \<longrightarrow> lr_validated row = pv_validated v0 (rc_key ctx) (ts_name ts)))
     (\<lambda>_ w. w_source w = s0 \<and> view (w_target w) = v0)"
    by (rule hoareI) (auto simp: onT_step dest!: get_ledger)
qed (auto simp: hoare_def split: option.splits)

lemma guard_value:
  "hoare (\<lambda>w. w_source w = s0 \<and> view (w_target w) = v0) (guard T ctx ts)
     (\<lambda>a w. (w_source w = s0 \<and> view (w_target w) = v0) \<and> fst a = pv_safe v0 (rc_key ctx) (ts_name ts) \<and>
        int (length (fst a)) = int_default (- 1) (pv_validated v0 (rc_key ctx) (ts_name ts)))
     (\<lambda>_ w. w_source w = s0 \<and> view (w_target w) = v0)"
  unfolding guard_def
proof (rule bind_value)
  show "hoare (\<lambda>w. w_source w = s0 \<and> view (w_target w) = v0) (onT (to_purge_safe_keys T (rc_key ctx) (ts_name ts)))
     (\<lambda>ks w. (w_source w = s0 \<and> view (w_target w) = v0) \<and> ks = pv_safe v0 (rc_key ctx) (ts_name ts))
     (\<lambda>_ w. w_source w = s0 \<and> view (w_target w) = v0)"
    by (rule hoareI; clarsimp simp: onT_step; drule safe_keys; simp)
  fix ks
  assume ks: "ks = pv_safe v0 (rc_key ctx) (ts_name ts)"
  have upd: "keeps (\<lambda>w. w_source w = s0 \<and> view (w_target w) = v0)
      (onT (to_update_ledger T (rc_key ctx) (ts_name ts) (\<lambda>r. r\<lparr>lr_purge_intended := i, lr_purge_dry_run := d\<rparr>)))" for i d
    by (rule update_ledger_keeps [where J = "\<lambda>s v. s = s0 \<and> v = v0"]) simp
  show "hoare (\<lambda>w. w_source w = s0 \<and> view (w_target w) = v0)
     (bindP (ledger_entry T ctx ts) (\<lambda>ledger. let intended = length ks; validated = int_default (- 1) (lr_validated ledger) in
        thenP (onT (to_update_ledger T (rc_key ctx) (ts_name ts) (\<lambda>r. r\<lparr>lr_purge_intended := Some intended,
                 lr_purge_dry_run := Some (\<not> m_purge (rc_manifest ctx))\<rparr>)))
          (if int intended \<noteq> validated
           then raiseP (PurgeGuardError (ts_name ts @ '': purge guard: '' @ str_nat intended @
                  '' purge_safe key(s) but ledger validated='' @ str_int validated @ ''; nothing deleted''))
           else retP (ks, validated))))
     (\<lambda>a w. (w_source w = s0 \<and> view (w_target w) = v0) \<and> fst a = pv_safe v0 (rc_key ctx) (ts_name ts) \<and>
        int (length (fst a)) = int_default (- 1) (pv_validated v0 (rc_key ctx) (ts_name ts)))
     (\<lambda>_ w. w_source w = s0 \<and> view (w_target w) = v0)"
    unfolding Let_def
  proof (rule bind_value [OF ledger_entry_value])
    fix r
    assume r: "lr_validated r = pv_validated v0 (rc_key ctx) (ts_name ts)"
    show "hoare (\<lambda>w. w_source w = s0 \<and> view (w_target w) = v0)
      (thenP (onT (to_update_ledger T (rc_key ctx) (ts_name ts) (\<lambda>r. r\<lparr>lr_purge_intended := Some (length ks),
                 lr_purge_dry_run := Some (\<not> m_purge (rc_manifest ctx))\<rparr>)))
          (if int (length ks) \<noteq> int_default (- 1) (lr_validated r)
           then raiseP (PurgeGuardError (ts_name ts @ '': purge guard: '' @ str_nat (length ks) @
                  '' purge_safe key(s) but ledger validated='' @ str_int (int_default (- 1) (lr_validated r)) @
                  ''; nothing deleted''))
           else retP (ks, int_default (- 1) (lr_validated r))))
     (\<lambda>a w. (w_source w = s0 \<and> view (w_target w) = v0) \<and> fst a = pv_safe v0 (rc_key ctx) (ts_name ts) \<and>
        int (length (fst a)) = int_default (- 1) (pv_validated v0 (rc_key ctx) (ts_name ts)))
     (\<lambda>_ w. w_source w = s0 \<and> view (w_target w) = v0)"
      by (rule hoare_then [OF upd [unfolded keeps_def]]) (use ks r in \<open>simp add: hoare_def\<close>)
  qed
qed

end

context purge_job
begin

definition removal_ok ::
  "table_spec list \<Rightarrow> run_key \<Rightarrow> (string \<Rightarrow> string set) \<Rightarrow> (string \<Rightarrow> row list) \<Rightarrow> ('s, 't, 'b) world \<Rightarrow> bool" where
  "removal_ok tss k safe h0 w \<longleftrightarrow> only_removed tss safe h0 (holds (w_source w)) \<and>
     only_removed tss (pv_audited (view (w_target w)) k) h0 (holds (w_source w))"

lemma removal_ok_target:
  assumes "removal_ok tss k safe h0 w" and "pv_audited (view (w_target w)) k \<le> pv_audited (view t) k"
  shows "removal_ok tss k safe h0 (w\<lparr>w_target := t\<rparr>)"
  using assms by (auto simp: removal_ok_def intro: only_removed_mono)

lemma removal_ok_keeps:
  assumes "\<And>t r t'. m t = (r, t') \<Longrightarrow> pv_audited (view t') = pv_audited (view t)"
  shows "keeps (removal_ok tss k safe h0) (onT m)"
  by (rule keepsI) (auto simp: onT_step assms intro!: removal_ok_target)

lemma log_start_removal [keeps_rules]: "keeps (removal_ok tss k safe h0) (onT (to_log_start T k' st tab))"
  by (rule removal_ok_keeps) (simp add: log_start)

lemma log_finish_removal [keeps_rules]: "keeps (removal_ok tss k safe h0) (onT (to_log_finish T i ls rows msg))"
  by (rule removal_ok_keeps) (simp add: log_finish)

lemma update_ledger_removal [keeps_rules]:
  "(\<And>row. lr_validated (f row) = lr_validated row) \<Longrightarrow> keeps (removal_ok tss k safe h0) (onT (to_update_ledger T k' n f))"
  by (rule removal_ok_keeps) (simp add: update_ledger)

lemma purged_keys_removal [keeps_rules]: "keeps (removal_ok tss k safe h0) (onT (to_purged_keys T k' n))"
  by (rule removal_ok_keeps) (simp add: purged_keys)

lemma audit_status_removal [keeps_rules]: "keeps (removal_ok tss k safe h0) (onT (to_set_purge_audit_status T k' n ks ps))"
  by (rule removal_ok_keeps) (use audit_status in fastforce)

lemma insert_audit_removal [keeps_rules]: "keeps (removal_ok tss k safe h0) (onT (to_insert_purge_audit T k' n ks bn))"
proof (rule keepsI)
  fix w r w'
  assume I: "removal_ok tss k safe h0 w" and run: "onT (to_insert_purge_audit T k' n ks bn) w = (r, w')"
  from run obtain t where t: "to_insert_purge_audit T k' n ks bn (w_target w) = (r, t)" "w' = w\<lparr>w_target := t\<rparr>"
    by (auto simp: onT_step)
  have "pv_audited (view (w_target w)) k \<le> pv_audited (view t) k"
    using insert_audit [OF t(1)] by (auto simp: add_keys_def le_fun_def)
  with I t(2) show "removal_ok tss k safe h0 w'" by (auto intro: removal_ok_target)
qed

lemma audited_keys_removal [keeps_rules]: "keeps (removal_ok tss k safe h0) (onS (so_audited_keys S rid n ks))"
  by (rule keepsI) (auto simp: onS_step removal_ok_def dest: audited_keys)

text \<open>A batch runs with its keys audited, and they are purge-safe.\<close>

lemma batch_removal:
  assumes "ts \<in> set tss" and "ts_key_column ts = Inr c" and "set ks \<subseteq> safe (ts_name ts)"
  shows "hoare (\<lambda>w. removal_ok tss k safe h0 w \<and> set ks \<subseteq> pv_audited (view (w_target w)) k (ts_name ts))
    (onS (so_purge_batch S (tc_schema (ts_config ts)) (ts_name ts) c ks rid ns bn))
    (\<lambda>_. removal_ok tss k safe h0) (\<lambda>_. removal_ok tss k safe h0)"
proof (rule hoareI)
  fix w n w'
  assume I: "removal_ok tss k safe h0 w \<and> set ks \<subseteq> pv_audited (view (w_target w)) k (ts_name ts)"
    and run: "onS (so_purge_batch S (tc_schema (ts_config ts)) (ts_name ts) c ks rid ns bn) w = (Inr n, w')"
  from run obtain s where s: "so_purge_batch S (tc_schema (ts_config ts)) (ts_name ts) c ks rid ns bn (w_source w) = (Inr n, s)"
    "w' = w\<lparr>w_source := s\<rparr>" by (auto simp: onS_step)
  from batch_ok [OF s(1)] obtain p where
    p: "holds s = (holds (w_source w))(source_table ts := filter p (holds (w_source w) (source_table ts)))"
    "\<And>r. \<not> p r \<Longrightarrow> hit c (set ks) r" by (auto simp: source_table_def)
  show "removal_ok tss k safe h0 w'"
    using I s(2) p(1) only_removed_step [OF _ assms(1,2) _ p(2)] assms(3) by (simp add: removal_ok_def)
next
  fix w e w'
  assume "removal_ok tss k safe h0 w \<and> set ks \<subseteq> pv_audited (view (w_target w)) k (ts_name ts)"
    and "onS (so_purge_batch S (tc_schema (ts_config ts)) (ts_name ts) c ks rid ns bn) w = (Inl e, w')"
  then show "removal_ok tss k safe h0 w'" by (auto simp: onS_step removal_ok_def dest: batch_error)
qed

lemma attempt_removal:
  assumes "ts \<in> set tss" and "set ks \<subseteq> safe (ts_name ts)" and "\<And>e. keeps (removal_ok tss (rc_key ctx) safe h0) (h e)"
  shows "keeps (removal_ok tss (rc_key ctx) safe h0) (purge_attempt S T ctx ts ks bn h)"
  unfolding purge_attempt_def keeps_def
proof (rule hoare_then)
  let ?I = "removal_ok tss (rc_key ctx) safe h0 :: ('s, 't, 'b) world \<Rightarrow> bool"
  let ?A = "\<lambda>w. ?I w \<and> set ks \<subseteq> pv_audited (view (w_target w)) (rc_key ctx) (ts_name ts)"
  show "hoare ?I (onT (to_insert_purge_audit T (rc_key ctx) (ts_name ts) ks bn)) (\<lambda>_. ?A) (\<lambda>_. ?I)"
  proof (rule hoareI)
    fix w u w'
    assume I: "?I w" and run: "onT (to_insert_purge_audit T (rc_key ctx) (ts_name ts) ks bn) w = (Inr u, w')"
    have "?I w'" using keepsD [OF insert_audit_removal I run] .
    moreover have "set ks \<subseteq> pv_audited (view (w_target w')) (rc_key ctx) (ts_name ts)"
      using run by (auto simp: onT_step add_keys_def dest!: insert_audit)
    ultimately show "?A w'" by simp
  qed (use keepsD [OF insert_audit_removal] in blast)
  have del: "hoare ?A (bindP (liftP (ts_key_column ts)) (\<lambda>c. onS (so_purge_batch S (tc_schema (ts_config ts)) (ts_name ts) c ks
      (rc_run_id ctx) (m_namespace (rc_manifest ctx)) bn))) (\<lambda>_. ?I) (\<lambda>_. ?I)"
  proof (rule hoare_bind)
    show "hoare ?A (liftP (ts_key_column ts)) (\<lambda>c w. ?A w \<and> ts_key_column ts = Inr c) (\<lambda>_. ?I)"
      by (simp add: hoare_def liftP_def split: sum.split)
    show "hoare (\<lambda>w. ?A w \<and> ts_key_column ts = Inr c) (onS (so_purge_batch S (tc_schema (ts_config ts)) (ts_name ts) c ks
      (rc_run_id ctx) (m_namespace (rc_manifest ctx)) bn)) (\<lambda>_. ?I) (\<lambda>_. ?I)" for c
      by (rule hoare_pure_pre) (rule batch_removal [where safe = safe and ks = ks, OF assms(1) _ assms(2)])
  qed
  show "hoare ?A (tryP (bindP (liftP (ts_key_column ts)) (\<lambda>c. onS (so_purge_batch S (tc_schema (ts_config ts)) (ts_name ts) c ks
      (rc_run_id ctx) (m_namespace (rc_manifest ctx)) bn)))
      (\<lambda>e. if is_ldm_error e then thenP (onT (to_set_purge_audit_status T (rc_key ctx) (ts_name ts) ks RolledBack)) (h e)
           else raiseP e)) (\<lambda>_. ?I) (\<lambda>_. ?I)"
    by (rule hoare_try [OF del], unfold keeps_def [symmetric]) (auto intro!: keeps_rules assms(3))
qed

lemma retry_removal:
  assumes "ts \<in> set tss" and "set ks \<subseteq> safe (ts_name ts)"
  shows "keeps (removal_ok tss (rc_key ctx) safe h0) (purge_batch_with_retry n S T ctx ts ks bn)"
proof (induction n)
  case 0
  show ?case using assms by (auto intro!: attempt_removal keeps_rules)
next
  case (Suc n)
  then show ?case using assms by (auto intro!: attempt_removal keeps_rules)
qed

lemma one_batch_removal:
  assumes "ts \<in> set tss" and "set ks \<subseteq> safe (ts_name ts)"
  shows "keeps (removal_ok tss (rc_key ctx) safe h0) (purge_one_batch S T ctx ts (bn, ks))"
  unfolding purge_one_batch_def using retry_removal [where bn = bn and safe = safe and ks = ks, OF assms] by (auto intro!: keeps_rules)

lemma recover_removal:
  "hoare (removal_ok tss k safe h0) (recover_committed S T ctx ts todo)
     (\<lambda>a w. removal_ok tss k safe h0 w \<and> set a \<subseteq> set todo) (\<lambda>_. removal_ok tss k safe h0)"
proof (cases "todo = []")
  case True
  then show ?thesis by (simp add: recover_committed_def hoare_ret)
next
  case False
  have fin: "hoare (removal_ok tss k safe h0) (thenP (onT (to_insert_purge_audit T (rc_key ctx) (ts_name ts) ks 0))
      (thenP (onT (to_set_purge_audit_status T (rc_key ctx) (ts_name ts) ks Purged)) (retP (filter p todo))))
      (\<lambda>a w. removal_ok tss k safe h0 w \<and> set a \<subseteq> set todo) (\<lambda>_. removal_ok tss k safe h0)" for ks p
    by (intro hoare_then [OF insert_audit_removal [unfolded keeps_def]] hoare_then [OF audit_status_removal [unfolded keeps_def]]
        hoare_ret) auto
  show ?thesis
    unfolding recover_committed_def Let_def using False
    by (simp, intro hoare_bind [OF audited_keys_removal [unfolded keeps_def]])
      (auto intro!: fin hoare_ret)
qed

lemma purge_table_removal:
  assumes "ts \<in> set tss" and "set keys \<subseteq> safe (ts_name ts)"
  shows "keeps (removal_ok tss (rc_key ctx) safe h0) (purge_table S T ctx ts keys validated)"
proof -
  let ?I = "removal_ok tss (rc_key ctx) safe h0 :: ('s, 't, 'b) world \<Rightarrow> bool"
  let ?n = "purge_batch_rows (m_batch (rc_manifest ctx))"
  have loop: "keeps ?I (forP (enumerate 1 (chunks ?n todo)) (purge_one_batch S T ctx ts))"
    if "set todo \<subseteq> safe (ts_name ts)" for todo
  proof (rule keeps_for)
    fix nc
    assume mem: "nc \<in> set (enumerate 1 (chunks ?n todo))"
    obtain bn ks where nc: "nc = (bn, ks)" by (rule prod.exhaust)
    have ks: "ks \<in> set (chunks ?n todo)" using mem unfolding nc by (rule enumerate_member)
    have "0 < ?n" using ks by (cases "?n") (simp_all add: chunks.simps)
    then have "set ks \<subseteq> safe (ts_name ts)" using chunks_subset [OF _ ks] that by blast
    with assms(1) show "keeps ?I (purge_one_batch S T ctx ts nc)" unfolding nc by (rule one_batch_removal)
  qed
  have rec: "hoare ?I (recover_committed S T ctx ts (filter q keys)) (\<lambda>a w. ?I w \<and> set a \<subseteq> safe (ts_name ts)) (\<lambda>_. ?I)" for q
    by (rule hoare_conseq [OF recover_removal [where todo = "filter q keys"]]) (use assms(2) in auto)
  show ?thesis
    unfolding purge_table_def Let_def
    by (intro keeps_rules keeps_bind_value [OF rec] loop) simp_all
qed

lemma purge_step_removal:
  assumes "ts \<in> set tss" and "\<And>ks v. map_of guarded (ts_name ts) = Some (ks, v) \<Longrightarrow> set ks \<subseteq> safe (ts_name ts)"
  shows "keeps (removal_ok tss (rc_key ctx) safe h0) (purge_step S T ctx guarded ts out)"
  unfolding purge_step_def using assms
  by (intro keeps_rules logged_keeps) (auto split: option.split intro!: keeps_rules purge_table_removal)

end

context purge_target
begin

lemma skip_reference_keeps:
  "keeps (\<lambda>w. w_source w = s0 \<and> view (w_target w) = v0) (skip_reference T ctx ts out)"
  unfolding skip_reference_def
  by (intro keeps_rules update_ledger_keeps [where J = "\<lambda>s v. s = s0 \<and> v = v0"]) simp

lemma skip_all_keeps:
  "keeps (\<lambda>w. w_source w = s0 \<and> view (w_target w) = v0) (foldP (skip_reference T ctx) xs out)"
  by (rule keeps_fold) (rule skip_reference_keeps)

lemma log_guard_value:
  "hoare (\<lambda>w. w_source w = s0 \<and> view (w_target w) = v0)
     (logged T (rc_key ctx) Purge (Some (ts_name ts)) (guard T ctx ts) res)
     (\<lambda>a w. (w_source w = s0 \<and> view (w_target w) = v0) \<and> fst a = pv_safe v0 (rc_key ctx) (ts_name ts) \<and>
        int (length (fst a)) = int_default (- 1) (pv_validated v0 (rc_key ctx) (ts_name ts)))
     (\<lambda>_ w. w_source w = s0 \<and> view (w_target w) = v0)"
  by (rule logged_value [OF log_start_keeps [where J = "\<lambda>s v. s = s0 \<and> v = v0"]
        log_finish_keeps [where J = "\<lambda>s v. s = s0 \<and> v = v0"] guard_value])

text \<open>Every entry of the guarded tables holds the purge-safe keys of its table.\<close>

lemma guard_step_value:
  assumes "\<And>n ks v. map_of g n = Some (ks, v) \<Longrightarrow> ks = pv_safe v0 (rc_key ctx) n"
  shows "hoare (\<lambda>w. w_source w = s0 \<and> view (w_target w) = v0) (guard_step T ctx ts g)
     (\<lambda>g' w. (w_source w = s0 \<and> view (w_target w) = v0) \<and>
        (\<forall>n ks v. map_of g' n = Some (ks, v) \<longrightarrow> ks = pv_safe v0 (rc_key ctx) n))
     (\<lambda>_ w. w_source w = s0 \<and> view (w_target w) = v0)"
  unfolding guard_step_def
  by (rule bind_value [OF log_guard_value]) (use assms in \<open>auto simp: hoare_def split: if_splits\<close>)

lemma guard_step_fails:
  assumes "int (length (pv_safe v0 (rc_key ctx) (ts_name ts))) \<noteq> int_default (- 1) (pv_validated v0 (rc_key ctx) (ts_name ts))"
  shows "hoare (\<lambda>w. w_source w = s0 \<and> view (w_target w) = v0) (guard_step T ctx ts g) (\<lambda>_ _. False)
     (\<lambda>_ w. w_source w = s0 \<and> view (w_target w) = v0)"
  unfolding guard_step_def
  by (rule bind_value [OF log_guard_value]) (use assms in auto)

end

lemma guards_value:
  assumes "purge_target T view"
  shows "hoare (\<lambda>w. w_source w = s0 \<and> view (w_target w) = v0) (foldP (guard_step T ctx) xs [])
     (\<lambda>g w. (w_source w = s0 \<and> view (w_target w) = v0) \<and>
        (\<forall>n ks v. map_of g n = Some (ks, v) \<longrightarrow> ks = pv_safe v0 (rc_key ctx) n))
     (\<lambda>_ w. w_source w = s0 \<and> view (w_target w) = v0)"
proof (rule fold_value)
  fix x and g :: "(string \<times> string list \<times> int) list"
  assume "\<forall>n ks v. map_of g n = Some (ks, v) \<longrightarrow> ks = pv_safe v0 (rc_key ctx) n"
  then show "hoare (\<lambda>w. w_source w = s0 \<and> view (w_target w) = v0) (guard_step T ctx x g)
     (\<lambda>g w. (w_source w = s0 \<and> view (w_target w) = v0) \<and>
        (\<forall>n ks v. map_of g n = Some (ks, v) \<longrightarrow> ks = pv_safe v0 (rc_key ctx) n))
     (\<lambda>_ w. w_source w = s0 \<and> view (w_target w) = v0)"
    by (intro purge_target.guard_step_value [OF assms]) blast
qed simp

context purge_job
begin

lemma purge_run_removal:
  assumes "data_tables ctx = Inr tss"
  shows "hoare (\<lambda>w. w_source w = s0 \<and> view (w_target w) = v0) (purge_run S T ctx)
     (\<lambda>_. removal_ok tss (rc_key ctx) (\<lambda>n. set (pv_safe v0 (rc_key ctx) n)) (holds s0))
     (\<lambda>_. removal_ok tss (rc_key ctx) (\<lambda>n. set (pv_safe v0 (rc_key ctx) n)) (holds s0))"
proof -
  let ?K = "\<lambda>w. w_source w = s0 \<and> view (w_target w) = v0"
  let ?R = "removal_ok tss (rc_key ctx) (\<lambda>n. set (pv_safe v0 (rc_key ctx) n)) (holds s0) :: ('s, 't, 'b) world \<Rightarrow> bool"
  have KR: "?R w" if "?K w" for w using that by (simp add: removal_ok_def)
  have skip: "hoare ?K (foldP (skip_reference T ctx) xs out) (\<lambda>_. ?K) (\<lambda>_. ?R)" for xs out
    by (rule hoare_conseq [OF skip_all_keeps [unfolded keeps_def]]) (use KR in auto)
  have guards: "hoare ?K (foldP (guard_step T ctx) xs [])
      (\<lambda>g w. ?K w \<and> (\<forall>n ks v. map_of g n = Some (ks, v) \<longrightarrow> ks = pv_safe v0 (rc_key ctx) n)) (\<lambda>_. ?R)" for xs
    by (rule hoare_conseq [OF guards_value]) (use KR purge_target_axioms in auto)
  have purges: "hoare (\<lambda>w. ?K w \<and> (\<forall>n ks v. map_of g n = Some (ks, v) \<longrightarrow> ks = pv_safe v0 (rc_key ctx) n))
      (foldP (purge_step S T ctx g) (rev tss) out) (\<lambda>_. ?R) (\<lambda>_. ?R)" for g out
  proof (rule hoare_pure_pre)
    assume "\<forall>n ks v. map_of g n = Some (ks, v) \<longrightarrow> ks = pv_safe v0 (rc_key ctx) n"
    then have "keeps ?R (foldP (purge_step S T ctx g) (rev tss) out)"
      by (intro keeps_fold purge_step_removal) auto
    then show "hoare ?K (foldP (purge_step S T ctx g) (rev tss) out) (\<lambda>_. ?R) (\<lambda>_. ?R)"
      unfolding keeps_def by (rule hoare_conseq) (use KR in auto)
  qed
  have lift: "hoare ?K (liftP r) (\<lambda>a w. ?K w \<and> r = Inr a) (\<lambda>_. ?R)" for r :: "ldm_error + 'c"
    using KR by (auto simp: hoare_def liftP_def split: sum.split)
  have "hoare ?K (bindP (liftP (data_tables ctx)) (\<lambda>data. bindP (foldP (guard_step T ctx) (rev data) [])
      (\<lambda>guarded. foldP (purge_step S T ctx guarded) (rev data) out))) (\<lambda>_. ?R) (\<lambda>_. ?R)" for out
  proof (rule hoare_bind [OF lift], rule hoare_pure_pre)
    fix data
    assume "data_tables ctx = Inr data"
    with assms show "hoare ?K (bindP (foldP (guard_step T ctx) (rev data) [])
      (\<lambda>guarded. foldP (purge_step S T ctx guarded) (rev data) out)) (\<lambda>_. ?R) (\<lambda>_. ?R)"
      using hoare_bind [OF guards purges] by simp
  qed
  then show ?thesis
    unfolding purge_run_def
    by - (rule hoare_bind [OF lift], rule hoare_pure_pre, rule hoare_bind [OF skip])
qed

text \<open>A table whose purge-safe keys disagree with the ledger stops the run before the first batch.\<close>

lemma purge_run_guarded:
  assumes "data_tables ctx = Inr tss" and "ts \<in> set tss"
    and "int (length (pv_safe v0 (rc_key ctx) (ts_name ts))) \<noteq> int_default (- 1) (pv_validated v0 (rc_key ctx) (ts_name ts))"
  shows "hoare (\<lambda>w. w_source w = s0 \<and> view (w_target w) = v0) (purge_run S T ctx) (\<lambda>_ _. False) (\<lambda>_ w. w_source w = s0)"
proof -
  let ?K = "\<lambda>w :: ('s, 't, 'b) world. w_source w = s0 \<and> view (w_target w) = v0"
  have lift: "hoare ?K (liftP r) (\<lambda>a w. ?K w \<and> r = Inr a) (\<lambda>_. ?K)" for r :: "ldm_error + 'c"
    by (auto simp: hoare_def liftP_def split: sum.split)
  have skip: "hoare ?K (foldP (skip_reference T ctx) xs out) (\<lambda>_. ?K) (\<lambda>_. ?K)" for xs out
    by (rule skip_all_keeps [unfolded keeps_def])
  have "keeps ?K (guard_step T ctx y g)" for y g
    unfolding guard_step_def keeps_def by (rule bind_value [OF log_guard_value]) (simp add: hoare_ret)
  then have "hoare ?K (foldP (guard_step T ctx) (rev tss) g) (\<lambda>_ _. False) (\<lambda>_. ?K)" for g
    using assms(2) by - (rule fold_fails [where x = ts and f = "guard_step T ctx"], simp, rule guard_step_fails [OF assms(3)], simp)
  then have "hoare ?K (bindP (foldP (guard_step T ctx) (rev tss) []) (\<lambda>guarded. foldP (purge_step S T ctx guarded) (rev tss) out))
      (\<lambda>_ _. False) (\<lambda>_. ?K)" for out
    by (rule hoare_bind) (simp add: hoare_def)
  then have data: "hoare ?K (bindP (liftP (data_tables ctx)) (\<lambda>data. bindP (foldP (guard_step T ctx) (rev data) [])
      (\<lambda>guarded. foldP (purge_step S T ctx guarded) (rev data) out))) (\<lambda>_ _. False) (\<lambda>_. ?K)" for out
    using assms(1) by - (rule hoare_bind [OF lift], rule hoare_pure_pre, simp)
  have "hoare ?K (purge_run S T ctx) (\<lambda>_ _. False) (\<lambda>_. ?K)"
    unfolding purge_run_def
    by (rule hoare_bind [OF lift], rule hoare_pure_pre, rule hoare_bind [OF skip data])
  then show ?thesis by (rule hoare_conseq) auto
qed

lemma purge_run_dry:
  assumes "\<not> m_purge (rc_manifest ctx)"
  shows "keeps (\<lambda>w. w_source w = s0) (purge_run S T ctx)"
proof -
  have [keeps_rules]: "keeps (\<lambda>w. w_source w = s0) (onT m)" for m
    by (rule keepsI) (auto simp: onT_step)
  show ?thesis
    unfolding purge_run_def skip_reference_def guard_step_def purge_step_def guard_def ledger_entry_def logged_def
      purge_table_def Let_def using assms
    by (auto intro!: keeps_rules split: option.split prod.split)
qed

end

section \<open>A purge that returns has removed every purge-safe row\<close>

lemma key_hit_Un: "key_hit ts (A \<union> B) r \<longleftrightarrow> key_hit ts A r \<or> key_hit ts B r"
  by (auto simp: key_hit_def hit_def image_Un split: sum.split option.split)

lemma key_hit_UN: "key_hit ts (\<Union>x \<in> X. f x) r \<longleftrightarrow> (\<exists>x \<in> X. key_hit ts (f x) r)"
  by (auto simp: key_hit_def hit_def image_UN split: sum.split option.split)

lemma key_hit_empty [simp]: "\<not> key_hit ts {} r"
  by (simp add: key_hit_def hit_def split: sum.split option.split)

locale exact_job = purge_job S holds committed T view + exact_source S holds committed exact
  for S :: "'s source_ops" and holds :: "'s \<Rightarrow> string \<Rightarrow> row list" and committed :: "'s \<Rightarrow> string \<Rightarrow> string \<Rightarrow> string set"
    and T :: "'t target_ops" and view :: "'t \<Rightarrow> purge_view" and exact :: "'s \<Rightarrow> bool"
begin

definition gone :: "'s \<Rightarrow> table_spec \<Rightarrow> string set \<Rightarrow> bool" where
  "gone s ts ks \<longleftrightarrow> (\<forall>r \<in> set (holds s (source_table ts)). \<not> key_hit ts ks r)"

text \<open>
  The invariant of the run: whatever is marked PURGED in the target or audited in the source is
  gone, and so is every set of keys in \<open>F\<close>, which grows as the run goes on.
\<close>

definition clean ::
  "table_spec list \<Rightarrow> run_key \<Rightarrow> string \<Rightarrow> (table_spec \<times> string set) set \<Rightarrow> ('s, 't, 'b) world \<Rightarrow> bool" where
  "clean tss k rid F w \<longleftrightarrow> exact (w_source w) \<and>
     (\<forall>ts \<in> set tss. gone (w_source w) ts (pv_purged (view (w_target w)) k (ts_name ts)) \<and>
        gone (w_source w) ts (committed (w_source w) rid (ts_name ts))) \<and>
     (\<forall>(ts, ks) \<in> F. gone (w_source w) ts ks)"

lemma gone_Un: "gone s ts (A \<union> B) \<longleftrightarrow> gone s ts A \<and> gone s ts B"
  by (auto simp: gone_def key_hit_Un)

lemma gone_mono: "gone s ts B \<Longrightarrow> A \<subseteq> B \<Longrightarrow> gone s ts A"
  by (auto simp: gone_def dest: key_hit_mono)

lemma gone_empty [simp]: "gone s ts {}"
  by (simp add: gone_def)

lemma gone_UN: "(\<And>x. x \<in> X \<Longrightarrow> gone s ts (f x)) \<Longrightarrow> gone s ts (\<Union>x \<in> X. f x)"
  by (auto simp: gone_def key_hit_UN)

lemma clean_target:
  assumes "clean tss k rid F w" and "\<And>n. pv_purged (view t) k n \<subseteq> pv_purged (view (w_target w)) k n"
  shows "clean tss k rid F (w\<lparr>w_target := t\<rparr>)"
  using assms unfolding clean_def by (fastforce intro: gone_mono)

lemma clean_keeps:
  assumes "\<And>t r t' n. m t = (r, t') \<Longrightarrow> pv_purged (view t') k n \<subseteq> pv_purged (view t) k n"
  shows "keeps (clean tss k rid F) (onT m)"
  by (rule keepsI) (auto simp: onT_step intro!: clean_target dest: assms)

lemma log_start_clean [keeps_rules]: "keeps (clean tss k rid F) (onT (to_log_start T k' st tab))"
  by (rule clean_keeps) (simp add: log_start)

lemma log_finish_clean [keeps_rules]: "keeps (clean tss k rid F) (onT (to_log_finish T i ls rows msg))"
  by (rule clean_keeps) (simp add: log_finish)

lemma update_ledger_clean [keeps_rules]:
  "(\<And>row. lr_validated (f row) = lr_validated row) \<Longrightarrow> keeps (clean tss k rid F) (onT (to_update_ledger T k' n f))"
  by (rule clean_keeps) (simp add: update_ledger)

lemma insert_audit_clean [keeps_rules]: "keeps (clean tss k rid F) (onT (to_insert_purge_audit T k' n ks bn))"
  by (rule clean_keeps) (simp add: insert_audit)

lemma audit_status_sub:
  assumes "to_set_purge_audit_status T k n ks ps t = (r, t')"
  shows "pv_purged (view t') k' m \<subseteq> add_keys k n (if ps = Purged then set ks else {}) (pv_purged (view t)) k' m"
proof -
  from audit_status [OF assms] obtain P where P: "view t' = (view t)\<lparr>pv_purged := P\<rparr>"
    "P \<le> add_keys k n (if ps = Purged then set ks else {}) (pv_purged (view t))" by blast
  from le_funD [OF le_funD [OF P(2), of k'], of m] P(1) show ?thesis by simp
qed

lemma rolled_back_clean [keeps_rules]: "keeps (clean tss k rid F) (onT (to_set_purge_audit_status T k' n ks RolledBack))"
proof (rule clean_keeps)
  fix t r t' m
  assume "to_set_purge_audit_status T k' n ks RolledBack t = (r, t')"
  from audit_status_sub [OF this] show "pv_purged (view t') k m \<subseteq> pv_purged (view t) k m" by simp
qed

text \<open>Keys may be marked PURGED when they are gone.\<close>

lemma purged_clean:
  assumes "inj_on ts_name (set tss)" and "ts \<in> set tss" and "(ts, ks) \<in> F" and "set xs \<subseteq> ks"
  shows "keeps (clean tss k rid F) (onT (to_set_purge_audit_status T k (ts_name ts) xs Purged))"
proof (rule keepsI)
  fix w r w'
  assume c: "clean tss k rid F w" and run: "onT (to_set_purge_audit_status T k (ts_name ts) xs Purged) w = (r, w')"
  from run obtain t where t: "to_set_purge_audit_status T k (ts_name ts) xs Purged (w_target w) = (r, t)" "w' = w\<lparr>w_target := t\<rparr>"
    by (auto simp: onT_step)
  have sub: "pv_purged (view t) k n \<subseteq> add_keys k (ts_name ts) (set xs) (pv_purged (view (w_target w))) k n" for n
    using audit_status_sub [OF t(1)] by simp
  have "gone (w_source w) ts' (pv_purged (view t) k (ts_name ts'))" if ts': "ts' \<in> set tss" for ts'
  proof (cases "ts' = ts")
    case True
    have "gone (w_source w) ts (set xs)" using c assms(3,4) by (fastforce simp: clean_def intro: gone_mono)
    then have "gone (w_source w) ts (pv_purged (view (w_target w)) k (ts_name ts) \<union> set xs)"
      using c assms(2) by (simp add: gone_Un clean_def)
    with sub [of "ts_name ts"] True show ?thesis by (auto simp: add_keys_def intro: gone_mono)
  next
    case False
    then have "ts_name ts' \<noteq> ts_name ts" using assms(1,2) ts' by (auto dest: inj_onD)
    with sub [of "ts_name ts'"] c ts' show ?thesis by (auto simp: add_keys_def clean_def intro: gone_mono)
  qed
  with c t(2) show "clean tss k rid F w'" by (auto simp: clean_def)
qed

lemma clean_gone: "clean tss k rid F w \<Longrightarrow> (ts, A) \<in> F \<Longrightarrow> gone (w_source w) ts A"
  by (auto simp: clean_def)

lemma clean_insert: "clean tss k rid (insert (ts, A) F) w \<longleftrightarrow> clean tss k rid F w \<and> gone (w_source w) ts A"
  by (auto simp: clean_def)

lemma clean_weaken: "clean tss k rid F w \<Longrightarrow> F' \<subseteq> F \<Longrightarrow> clean tss k rid F' w"
  by (auto simp: clean_def)

lemma shrink_clean:
  assumes "clean tss k rid F w" and "\<And>q. set (holds s q) \<subseteq> set (holds (w_source w) q)" and "exact s"
    and "\<And>ts. ts \<in> set tss \<Longrightarrow> gone s ts (committed s rid (ts_name ts))"
  shows "clean tss k rid F (w\<lparr>w_source := s\<rparr>)"
proof -
  have "gone s ts A" if "gone (w_source w) ts A" for ts A
    using that assms(2) by (auto simp: gone_def)
  with assms(1,3,4) show ?thesis by (fastforce simp: clean_def)
qed

text \<open>A batch: the source either keeps its rows or loses all rows of the batch.\<close>

lemma batch_clean:
  assumes "inj_on ts_name (set tss)" and "ts \<in> set tss" and "ts_key_column ts = Inr c"
  shows "hoare (clean tss k rid F) (onS (so_purge_batch S (tc_schema (ts_config ts)) (ts_name ts) c ks rid ns bn))
    (\<lambda>_. clean tss k rid (insert (ts, set ks) F)) (\<lambda>_. clean tss k rid F)"
proof (rule hoareI)
  fix w n w'
  assume c: "clean tss k rid F w"
    and run: "onS (so_purge_batch S (tc_schema (ts_config ts)) (ts_name ts) c ks rid ns bn) w = (Inr n, w')"
  from run obtain s where s: "so_purge_batch S (tc_schema (ts_config ts)) (ts_name ts) c ks rid ns bn (w_source w) = (Inr n, s)"
    and w': "w' = w\<lparr>w_source := s\<rparr>" by (auto simp: onS_step)
  from batch_ok [OF s] obtain p where
    p: "holds s = (holds (w_source w))(source_table ts := filter p (holds (w_source w) (source_table ts)))"
    by (auto simp: source_table_def)
  have ex: "exact (w_source w)" "exact s" using c exact_batch [OF _ s] by (auto simp: clean_def)
  have sub: "set (holds s q) \<subseteq> set (holds (w_source w) q)" for q using p by auto
  have new: "gone s ts (set ks)"
    using exact_ok [OF ex(1) s] assms(3) by (simp add: gone_def key_hit_def source_table_def)
  have "gone s ts' (committed s rid (ts_name ts'))" if ts': "ts' \<in> set tss" for ts'
  proof -
    have old: "gone s ts' (committed (w_source w) rid (ts_name ts'))"
      using c ts' sub [of "source_table ts'"] by (auto simp: clean_def gone_def)
    show ?thesis
    proof (cases "ts' = ts")
      case True
      then show ?thesis using old new by (simp add: batch_committed [OF s] add_keys_def gone_Un)
    next
      case False
      then have "ts_name ts' \<noteq> ts_name ts" using assms(1,2) ts' by (auto dest: inj_onD)
      with old show ?thesis by (simp add: batch_committed [OF s] add_keys_def)
    qed
  qed
  then have "clean tss k rid F w'" unfolding w' using c ex(2) sub by (intro shrink_clean)
  with new w' show "clean tss k rid (insert (ts, set ks) F) w'" by (simp add: clean_insert)
next
  fix w e w'
  assume c: "clean tss k rid F w"
    and "onS (so_purge_batch S (tc_schema (ts_config ts)) (ts_name ts) c ks rid ns bn) w = (Inl e, w')"
  then obtain s where s: "so_purge_batch S (tc_schema (ts_config ts)) (ts_name ts) c ks rid ns bn (w_source w) = (Inl e, s)"
    and w': "w' = w\<lparr>w_source := s\<rparr>" by (auto simp: onS_step)
  have same: "holds s = holds (w_source w)" "committed s = committed (w_source w)" using batch_error [OF s] by auto
  have "exact (w_source w)" using c by (simp add: clean_def)
  from exact_batch [OF this s] have ex: "exact s" .
  show "clean tss k rid F w'"
    unfolding w' by (rule shrink_clean [OF c _ ex]) (use same c in \<open>auto simp: clean_def gone_def\<close>)
qed

lemma attempt_clean:
  assumes "inj_on ts_name (set tss)" and "ts \<in> set tss"
    and "\<And>e. hoare (clean tss (rc_key ctx) (rc_run_id ctx) F) (h e)
           (\<lambda>_. clean tss (rc_key ctx) (rc_run_id ctx) (insert (ts, set ks) F)) (\<lambda>_. clean tss (rc_key ctx) (rc_run_id ctx) F)"
  shows "hoare (clean tss (rc_key ctx) (rc_run_id ctx) F) (purge_attempt S T ctx ts ks bn h)
    (\<lambda>_. clean tss (rc_key ctx) (rc_run_id ctx) (insert (ts, set ks) F)) (\<lambda>_. clean tss (rc_key ctx) (rc_run_id ctx) F)"
  unfolding purge_attempt_def
proof (rule hoare_then [OF insert_audit_clean [unfolded keeps_def]], rule hoare_try)
  let ?C = "\<lambda>F. clean tss (rc_key ctx) (rc_run_id ctx) F :: ('s, 't, 'b) world \<Rightarrow> bool"
  show "hoare (?C F) (bindP (liftP (ts_key_column ts)) (\<lambda>c. onS (so_purge_batch S (tc_schema (ts_config ts)) (ts_name ts) c ks
      (rc_run_id ctx) (m_namespace (rc_manifest ctx)) bn))) (\<lambda>_. ?C (insert (ts, set ks) F)) (\<lambda>_. ?C F)"
  proof (rule bind_value)
    show "hoare (?C F) (liftP (ts_key_column ts)) (\<lambda>c w. ?C F w \<and> ts_key_column ts = Inr c) (\<lambda>_. ?C F)"
      by (simp add: hoare_def liftP_def split: sum.split)
  qed (rule batch_clean [OF assms(1,2)])
  show "hoare (?C F) (if is_ldm_error e then thenP (onT (to_set_purge_audit_status T (rc_key ctx) (ts_name ts) ks RolledBack)) (h e)
      else raiseP e) (\<lambda>_. ?C (insert (ts, set ks) F)) (\<lambda>_. ?C F)" for e
    by (intro hoare_if hoare_then [OF rolled_back_clean [unfolded keeps_def] assms(3)] hoare_raise)
qed

lemma retry_clean:
  assumes "inj_on ts_name (set tss)" and "ts \<in> set tss"
  shows "hoare (clean tss (rc_key ctx) (rc_run_id ctx) F) (purge_batch_with_retry n S T ctx ts ks bn)
    (\<lambda>_. clean tss (rc_key ctx) (rc_run_id ctx) (insert (ts, set ks) F)) (\<lambda>_. clean tss (rc_key ctx) (rc_run_id ctx) F)"
proof (induction n)
  case 0
  show ?case by (simp, rule attempt_clean [OF assms]) (simp add: hoare_raise)
next
  case (Suc n)
  show ?case by (simp, rule attempt_clean [OF assms]) (intro hoare_if hoare_raise Suc.IH)
qed

lemma one_batch_clean:
  assumes "inj_on ts_name (set tss)" and "ts \<in> set tss"
  shows "hoare (clean tss (rc_key ctx) (rc_run_id ctx) F) (purge_one_batch S T ctx ts (bn, ks))
    (\<lambda>_. clean tss (rc_key ctx) (rc_run_id ctx) (insert (ts, set ks) F)) (\<lambda>_ _. True)"
  unfolding purge_one_batch_def prod.case
proof (rule hoare_bind)
  let ?C = "\<lambda>F. clean tss (rc_key ctx) (rc_run_id ctx) F :: ('s, 't, 'b) world \<Rightarrow> bool"
  show "hoare (?C F) (tryP (purge_batch_with_retry (purge_retry_attempts (m_batch (rc_manifest ctx))) S T ctx ts ks bn)
      (\<lambda>e. if is_ldm_error e
           then bindP (onT (to_purged_keys T (rc_key ctx) (ts_name ts))) (\<lambda>done.
                  thenP (onT (to_update_ledger T (rc_key ctx) (ts_name ts) (\<lambda>r. r\<lparr>lr_purged := Some (length done)\<rparr>))) (raiseP e))
           else raiseP e)) (\<lambda>_. ?C (insert (ts, set ks) F)) (\<lambda>_ _. True)"
    by (rule hoare_try [OF retry_clean [OF assms]])
      (auto simp: hoare_def bindP_eval thenP_eval split: prod.splits sum.splits)
  have "keeps (?C (insert (ts, set ks) F)) (onT (to_set_purge_audit_status T (rc_key ctx) (ts_name ts) ks Purged))"
    by (rule purged_clean [OF assms]) auto
  then show "hoare (?C (insert (ts, set ks) F)) (onT (to_set_purge_audit_status T (rc_key ctx) (ts_name ts) ks Purged))
      (\<lambda>_. ?C (insert (ts, set ks) F)) (\<lambda>_ _. True)"
    unfolding keeps_def by (rule hoare_conseq) auto
qed

lemma purged_keys_clean:
  assumes "ts \<in> set tss"
  shows "hoare (clean tss k rid F) (onT (to_purged_keys T k (ts_name ts)))
    (\<lambda>xs. clean tss k rid (insert (ts, set xs) F)) (\<lambda>_. clean tss k rid F)"
proof (rule hoareI)
  fix w xs w'
  assume c: "clean tss k rid F w" and "onT (to_purged_keys T k (ts_name ts)) w = (Inr xs, w')"
  then obtain t where t: "to_purged_keys T k (ts_name ts) (w_target w) = (Inr xs, t)" "w' = w\<lparr>w_target := t\<rparr>"
    by (auto simp: onT_step)
  with purged_keys [OF t(1)] c assms show "clean tss k rid (insert (ts, set xs) F) w'" by (auto simp: clean_def)
next
  fix w e w'
  assume "clean tss k rid F w" and "onT (to_purged_keys T k (ts_name ts)) w = (Inl e, w')"
  then show "clean tss k rid F w'" by (auto simp: onT_step clean_def dest: purged_keys)
qed

lemma recover_clean:
  assumes "inj_on ts_name (set tss)" and "ts \<in> set tss"
  shows "hoare (clean tss (rc_key ctx) (rc_run_id ctx) F) (recover_committed S T ctx ts todo)
    (\<lambda>a. clean tss (rc_key ctx) (rc_run_id ctx) (insert (ts, set todo - set a) F)) (\<lambda>_ _. True)"
proof (cases "todo = []")
  case True
  then show ?thesis by (simp add: recover_committed_def hoare_ret clean_insert)
next
  case False
  let ?C = "\<lambda>F. clean tss (rc_key ctx) (rc_run_id ctx) F :: ('s, 't, 'b) world \<Rightarrow> bool"
  have "hoare (?C F) (onS (so_audited_keys S (rc_run_id ctx) (ts_name ts) todo)) (\<lambda>xs. ?C (insert (ts, set xs) F)) (\<lambda>_ _. True)"
  proof (rule hoareI)
    fix w xs w'
    assume c: "?C F w" and "onS (so_audited_keys S (rc_run_id ctx) (ts_name ts) todo) w = (Inr xs, w')"
    then obtain s where s: "so_audited_keys S (rc_run_id ctx) (ts_name ts) todo (w_source w) = (Inr xs, s)"
      "w' = w\<lparr>w_source := s\<rparr>" by (auto simp: onS_step)
    from audited_keys [OF s(1)] have "s = w_source w" "set xs \<subseteq> committed (w_source w) (rc_run_id ctx) (ts_name ts)" by auto
    with c s(2) assms(2) show "?C (insert (ts, set xs) F) w'" by (auto simp: clean_def intro: gone_mono)
  qed simp
  moreover have "hoare (?C (insert (ts, set xs) F))
      (if xs = [] then retP todo
       else thenP (onT (to_insert_purge_audit T (rc_key ctx) (ts_name ts) (filter (\<lambda>k. k \<in> set xs) todo) 0))
         (thenP (onT (to_set_purge_audit_status T (rc_key ctx) (ts_name ts) (filter (\<lambda>k. k \<in> set xs) todo) Purged))
         (retP (filter (\<lambda>k. k \<notin> set xs) todo))))
      (\<lambda>a. ?C (insert (ts, set todo - set a) F)) (\<lambda>_ _. True)" for xs
  proof (rule hoare_if)
    show "hoare (?C (insert (ts, set xs) F)) (retP todo) (\<lambda>a. ?C (insert (ts, set todo - set a) F)) (\<lambda>_ _. True)"
      by (rule hoare_ret) (simp add: clean_insert)
    let ?R = "filter (\<lambda>k. k \<in> set xs) todo"
    have a: "keeps (?C (insert (ts, set xs) F)) (onT (to_insert_purge_audit T (rc_key ctx) (ts_name ts) ?R 0))"
      by (rule insert_audit_clean)
    have b: "keeps (?C (insert (ts, set xs) F)) (onT (to_set_purge_audit_status T (rc_key ctx) (ts_name ts) ?R Purged))"
      by (rule purged_clean [OF assms, where ks = "set xs"]) auto
    have "hoare (?C (insert (ts, set xs) F)) (thenP (onT (to_insert_purge_audit T (rc_key ctx) (ts_name ts) ?R 0))
         (thenP (onT (to_set_purge_audit_status T (rc_key ctx) (ts_name ts) ?R Purged))
         (retP (filter (\<lambda>k. k \<notin> set xs) todo)))) (\<lambda>a. ?C (insert (ts, set todo - set a) F)) (\<lambda>_. ?C (insert (ts, set xs) F))"
      by (rule hoare_then [OF a [unfolded keeps_def]], rule hoare_then [OF b [unfolded keeps_def]], rule hoare_ret)
        (auto simp: clean_insert intro: gone_mono)
    then show "hoare (?C (insert (ts, set xs) F)) (thenP (onT (to_insert_purge_audit T (rc_key ctx) (ts_name ts) ?R 0))
         (thenP (onT (to_set_purge_audit_status T (rc_key ctx) (ts_name ts) ?R Purged))
         (retP (filter (\<lambda>k. k \<notin> set xs) todo)))) (\<lambda>a. ?C (insert (ts, set todo - set a) F)) (\<lambda>_ _. True)"
      by (rule hoare_conseq) auto
  qed
  ultimately show ?thesis unfolding recover_committed_def Let_def if_not_P [OF False] by (rule hoare_bind)
qed

lemma batches_clean:
  assumes "inj_on ts_name (set tss)" and "ts \<in> set tss"
  shows "hoare (clean tss (rc_key ctx) (rc_run_id ctx) F) (forP bs (purge_one_batch S T ctx ts))
    (\<lambda>_. clean tss (rc_key ctx) (rc_run_id ctx) (F \<union> (\<lambda>(bn, ks). (ts, set ks)) ` set bs)) (\<lambda>_ _. True)"
  using hoare_for_prefix [of bs "\<lambda>xs. clean tss (rc_key ctx) (rc_run_id ctx) (F \<union> (\<lambda>(bn, ks). (ts, set ks)) ` set xs)"
      "purge_one_batch S T ctx ts" "\<lambda>_ _. True"] one_batch_clean [OF assms] by force

lemma purge_table_clean:
  assumes "inj_on ts_name (set tss)" and "ts \<in> set tss" and "m_purge (rc_manifest ctx)"
    and "0 < purge_batch_rows (m_batch (rc_manifest ctx))"
  shows "hoare (clean tss (rc_key ctx) (rc_run_id ctx) F) (purge_table S T ctx ts keys validated)
    (\<lambda>_. clean tss (rc_key ctx) (rc_run_id ctx) (insert (ts, set keys) F)) (\<lambda>_ _. True)"
proof -
  let ?C = "\<lambda>F. clean tss (rc_key ctx) (rc_run_id ctx) F :: ('s, 't, 'b) world \<Rightarrow> bool"
  let ?n = "purge_batch_rows (m_batch (rc_manifest ctx))"
  let ?bs = "\<lambda>todo. enumerate 1 (chunks ?n todo) :: (nat \<times> string list) list"
  let ?F = "\<lambda>already todo. insert (ts, set (filter (\<lambda>k. k \<notin> set already) keys) - set todo) (insert (ts, set already) F) \<union>
    (\<lambda>(bn, ks). (ts, set ks)) ` set (?bs todo)"
  have all: "?C (insert (ts, set keys) F) w" if c: "?C (?F already todo) w" for already todo w
  proof -
    have "set todo = (\<Union>ks \<in> set (chunks ?n todo). set ks)"
      using concat_chunks [OF assms(4), of todo] by (metis set_concat)
    moreover have "gone (w_source w) ts (set ks)" if "ks \<in> set (chunks ?n todo)" for ks
    proof -
      from that obtain bn where "(bn, ks) \<in> set (?bs todo)"
        by (metis in_set_conv_nth in_set_enumerate_eq length_enumerate nth_enumerate_eq prod.sel)
      with c show ?thesis by (intro clean_gone [OF c]) force
    qed
    ultimately have "gone (w_source w) ts (set todo)" using gone_UN by metis
    moreover have "gone (w_source w) ts (set already)"
      "gone (w_source w) ts (set (filter (\<lambda>k. k \<notin> set already) keys) - set todo)"
      by (rule clean_gone [OF c], simp)+
    ultimately have "gone (w_source w) ts (set todo \<union> set already \<union>
        (set (filter (\<lambda>k. k \<notin> set already) keys) - set todo))" by (simp only: gone_Un)
    then have "gone (w_source w) ts (set keys)" by (rule gone_mono) auto
    moreover have "?C F w" using c by (rule clean_weaken) auto
    ultimately show ?thesis by (simp add: clean_insert)
  qed
  have fin: "hoare (?C G) (bindP (onT (to_purged_keys T (rc_key ctx) (ts_name ts))) (\<lambda>done.
         let purged = length done in
         thenP (onT (to_update_ledger T (rc_key ctx) (ts_name ts) (\<lambda>r. r\<lparr>lr_purged := Some purged\<rparr>)))
         (if int purged \<noteq> validated then raiseP (err purged)
          else retP (res purged)))) (\<lambda>_. ?C G) (\<lambda>_ _. True)" for G err and res :: "nat \<Rightarrow> counts"
  proof -
    have "hoare (?C G) (onT (to_purged_keys T (rc_key ctx) (ts_name ts))) (\<lambda>_. ?C G) (\<lambda>_. ?C G)"
      by (rule hoare_conseq [OF purged_keys_clean [OF assms(2)]]) (auto simp: clean_insert)
    moreover have "hoare (?C G) (thenP (onT (to_update_ledger T (rc_key ctx) (ts_name ts) (\<lambda>r. r\<lparr>lr_purged := Some p\<rparr>)))
         (if int p \<noteq> validated then raiseP (err p) else retP (res p))) (\<lambda>_. ?C G) (\<lambda>_. ?C G)" for p
      by (rule hoare_then [OF update_ledger_clean [unfolded keeps_def]]) (simp_all add: hoare_def)
    ultimately show ?thesis unfolding Let_def by (blast intro: hoare_conseq [OF hoare_bind])
  qed
  have already: "hoare (?C F) (onT (to_purged_keys T (rc_key ctx) (ts_name ts))) (\<lambda>xs. ?C (insert (ts, set xs) F)) (\<lambda>_ _. True)"
    by (rule hoare_conseq [OF purged_keys_clean [OF assms(2)]]) auto
  show ?thesis
    unfolding purge_table_def using assms(3)
    by (simp, intro hoare_bind [OF already] hoare_bind [OF recover_clean [OF assms(1,2)]]
        hoare_then [OF batches_clean [OF assms(1,2)]] hoare_conseq [OF fin]) (auto intro: all)
qed

lemma purge_step_clean:
  assumes "inj_on ts_name (set tss)" and "ts \<in> set tss" and "m_purge (rc_manifest ctx)"
    and "0 < purge_batch_rows (m_batch (rc_manifest ctx))"
    and "\<And>ks v. map_of g (ts_name ts) = Some (ks, v) \<Longrightarrow> set ks = K ts"
  shows "hoare (clean tss (rc_key ctx) (rc_run_id ctx) F) (purge_step S T ctx g ts out)
    (\<lambda>_. clean tss (rc_key ctx) (rc_run_id ctx) (insert (ts, K ts) F)) (\<lambda>_ _. True)"
  unfolding purge_step_def
proof (rule hoare_bind [OF logged_triple])
  let ?C = "\<lambda>F. clean tss (rc_key ctx) (rc_run_id ctx) F :: ('s, 't, 'b) world \<Rightarrow> bool"
  show "hoare (?C F) (case map_of g (ts_name ts) of Some (keys, validated) \<Rightarrow> purge_table S T ctx ts keys validated
      | None \<Rightarrow> raiseP key_error) (\<lambda>_. ?C (insert (ts, K ts) F)) (\<lambda>_ _. True)"
  proof (cases "map_of g (ts_name ts)")
    case None
    then show ?thesis by (simp add: hoare_raise)
  next
    case (Some e)
    then obtain ks v where e: "map_of g (ts_name ts) = Some (ks, v)" by (cases e) auto
    from purge_table_clean [OF assms(1-4), of F ks v] show ?thesis by (simp add: e assms(5) [OF e])
  qed
qed (auto intro: log_start_clean log_finish_clean hoare_ret)

lemma purge_steps_clean:
  assumes "inj_on ts_name (set tss)" and "set xs \<subseteq> set tss" and "m_purge (rc_manifest ctx)"
    and "0 < purge_batch_rows (m_batch (rc_manifest ctx))"
    and "\<And>ts ks v. map_of g (ts_name ts) = Some (ks, v) \<Longrightarrow> set ks = K ts"
  shows "hoare (clean tss (rc_key ctx) (rc_run_id ctx) F :: ('s, 't, 'b) world \<Rightarrow> bool) (foldP (purge_step S T ctx g) xs out)
    (\<lambda>_. clean tss (rc_key ctx) (rc_run_id ctx) (F \<union> (\<lambda>ts. (ts, K ts)) ` set xs)) (\<lambda>_ _. True)"
  using assms(2)
proof (induction xs arbitrary: F out)
  case Nil
  then show ?case by (simp add: hoare_def)
next
  case (Cons ts xs)
  let ?C = "\<lambda>F. clean tss (rc_key ctx) (rc_run_id ctx) F :: ('s, 't, 'b) world \<Rightarrow> bool"
  have "hoare (?C F) (purge_step S T ctx g ts out) (\<lambda>_. ?C (insert (ts, K ts) F)) (\<lambda>_ _. True)"
    using Cons.prems by (intro purge_step_clean assms) auto
  moreover have "hoare (?C (insert (ts, K ts) F)) (foldP (purge_step S T ctx g) xs out')
    (\<lambda>_. ?C (insert (ts, K ts) F \<union> (\<lambda>ts. (ts, K ts)) ` set xs)) (\<lambda>_ _. True)" for out'
    using Cons.prems by (intro Cons.IH) auto
  ultimately show ?case by (simp add: hoare_bind)
qed

text \<open>Stopped runs: whatever an attempt returns, what is marked PURGED or committed is gone.\<close>

lemma purged_keys_keeps: "ts \<in> set tss \<Longrightarrow> keeps (clean tss k rid F) (onT (to_purged_keys T k (ts_name ts)))"
  unfolding keeps_def by (rule hoare_conseq [OF purged_keys_clean]) (auto simp: clean_insert)

lemma gone_keeps:
  assumes "keeps (clean tss k rid (insert x F)) m"
  shows "hoare (clean tss k rid (insert x F)) m (\<lambda>_. clean tss k rid F) (\<lambda>_. clean tss k rid F)"
proof (rule hoareI)
  fix w r w' assume "clean tss k rid (insert x F) w" "m w = (Inr r, w')"
  with keepsD [OF assms] have "clean tss k rid (insert x F) w'" by blast
  then show "clean tss k rid F w'" by (rule clean_weaken) blast
next
  fix w e w' assume "clean tss k rid (insert x F) w" "m w = (Inl e, w')"
  with keepsD [OF assms] have "clean tss k rid (insert x F) w'" by blast
  then show "clean tss k rid F w'" by (rule clean_weaken) blast
qed

lemma one_batch_keeps:
  assumes "inj_on ts_name (set tss)" and "ts \<in> set tss"
  shows "keeps (clean tss (rc_key ctx) (rc_run_id ctx) {}) (purge_one_batch S T ctx ts x)"
proof (cases x)
  case (Pair bn ks)
  let ?C = "\<lambda>F. clean tss (rc_key ctx) (rc_run_id ctx) F :: ('s, 't, 'b) world \<Rightarrow> bool"
  let ?h = "\<lambda>e. (if is_ldm_error e
           then bindP (onT (to_purged_keys T (rc_key ctx) (ts_name ts))) (\<lambda>done.
                  thenP (onT (to_update_ledger T (rc_key ctx) (ts_name ts) (\<lambda>r. r\<lparr>lr_purged := Some (length done)\<rparr>))) (raiseP e))
           else raiseP e) :: (('s, 't, 'b) world, ldm_error, nat) prog"
  have k: "keeps (?C {}) (?h e)" for e
    by (intro keeps_if keeps_bind keeps_then keeps_basic update_ledger_clean purged_keys_keeps [OF assms(2)]) simp
  have never: "?h e w \<noteq> (Inr n, w')" for e w n w'
    by (auto simp: bindP_eval thenP_eval split: prod.splits sum.splits)
  have handler: "hoare (?C {}) (?h e) (\<lambda>_. ?C (insert (ts, set ks) {})) (\<lambda>_. ?C {})" for e
  proof (rule hoareI)
    fix w n w' assume "?h e w = (Inr n, w')"
    with never show "?C (insert (ts, set ks) {}) w'" by blast
  next
    fix w e' w' assume "?C {} w" "?h e w = (Inl e', w')"
    then show "?C {} w'" by (rule keepsD [OF k])
  qed
  have mark: "keeps (?C (insert (ts, set ks) {})) (onT (to_set_purge_audit_status T (rc_key ctx) (ts_name ts) ks Purged))"
    by (rule purged_clean [OF assms]) auto
  show ?thesis
    unfolding keeps_def Pair purge_one_batch_def prod.case
    by (rule hoare_bind [OF hoare_try [OF retry_clean [OF assms] handler] gone_keeps [OF mark]])
qed

lemma recover_keeps:
  assumes "inj_on ts_name (set tss)" and "ts \<in> set tss"
  shows "keeps (clean tss (rc_key ctx) (rc_run_id ctx) {}) (recover_committed S T ctx ts todo)"
proof -
  let ?C = "\<lambda>F. clean tss (rc_key ctx) (rc_run_id ctx) F :: ('s, 't, 'b) world \<Rightarrow> bool"
  have audited: "hoare (?C {}) (onS (so_audited_keys S (rc_run_id ctx) (ts_name ts) todo)) (\<lambda>xs. ?C (insert (ts, set xs) {})) (\<lambda>_. ?C {})"
  proof (rule hoareI)
    fix w xs w'
    assume c: "?C {} w" and "onS (so_audited_keys S (rc_run_id ctx) (ts_name ts) todo) w = (Inr xs, w')"
    then obtain s where s: "so_audited_keys S (rc_run_id ctx) (ts_name ts) todo (w_source w) = (Inr xs, s)"
      "w' = w\<lparr>w_source := s\<rparr>" by (auto simp: onS_step)
    from audited_keys [OF s(1)] have "s = w_source w" "set xs \<subseteq> committed (w_source w) (rc_run_id ctx) (ts_name ts)" by auto
    with c s(2) assms(2) show "?C (insert (ts, set xs) {}) w'" by (auto simp: clean_def intro: gone_mono)
  next
    fix w e w'
    assume "?C {} w" and "onS (so_audited_keys S (rc_run_id ctx) (ts_name ts) todo) w = (Inl e, w')"
    then show "?C {} w'" by (auto simp: onS_step clean_def dest: audited_keys)
  qed
  let ?R = "\<lambda>xs. filter (\<lambda>k. k \<in> set xs) todo"
  have mark: "keeps (?C (insert (ts, set xs) {})) (if xs = [] then retP todo
       else thenP (onT (to_insert_purge_audit T (rc_key ctx) (ts_name ts) (?R xs) 0))
         (thenP (onT (to_set_purge_audit_status T (rc_key ctx) (ts_name ts) (?R xs) Purged))
         (retP (filter (\<lambda>k. k \<notin> set xs) todo))))" for xs
    by (intro keeps_if keeps_then keeps_basic insert_audit_clean purged_clean [OF assms, where ks = "set xs"]) auto
  show ?thesis
    unfolding keeps_def recover_committed_def Let_def
    by (rule hoare_if [OF hoare_ret hoare_bind [OF audited gone_keeps [OF mark]]])
qed

lemma purge_table_keeps:
  assumes "inj_on ts_name (set tss)" and "ts \<in> set tss"
  shows "keeps (clean tss (rc_key ctx) (rc_run_id ctx) {}) (purge_table S T ctx ts keys validated)"
  unfolding purge_table_def Let_def
  by (intro keeps_if keeps_bind keeps_then keeps_basic keeps_for update_ledger_clean one_batch_keeps recover_keeps
      purged_keys_keeps assms) simp_all

lemma purge_step_keeps:
  assumes "inj_on ts_name (set tss)" and "ts \<in> set tss"
  shows "keeps (clean tss (rc_key ctx) (rc_run_id ctx) {}) (purge_step S T ctx g ts out)"
  unfolding purge_step_def
  by (intro keeps_bind logged_keeps log_start_clean log_finish_clean keeps_basic)
    (auto split: option.split intro: keeps_basic purge_table_keeps assms)

lemma purge_run_keeps:
  assumes "data_tables ctx = Inr tss" and "inj_on ts_name (set tss)"
    and "clean tss (rc_key ctx) (rc_run_id ctx) {} w" and "purge_run S T ctx w = (r, w')"
  shows "clean tss (rc_key ctx) (rc_run_id ctx) {} w'"
proof -
  let ?C = "clean tss (rc_key ctx) (rc_run_id ctx) {} :: ('s, 't, 'b) world \<Rightarrow> bool"
  have same: "?C u \<Longrightarrow> w_source u' = w_source u \<and> view (w_target u') = view (w_target u) \<Longrightarrow> ?C u'" for u u' by (simp add: clean_def)
  have lift: "keeps ?C m" if "\<And>s v. keeps (\<lambda>w. w_source w = s \<and> view (w_target w) = v) m"
    for m :: "(('s, 't, 'b) world, ldm_error, 'x) prog"
  proof (rule keepsI)
    fix u r u' assume "?C u" "m u = (r, u')"
    with keepsD [OF that [of "w_source u" "view (w_target u)"], of u r u'] same [of u u'] show "?C u'" by simp
  qed
  have skip: "keeps ?C (foldP (skip_reference T ctx) xs out)" for xs out by (rule lift) (rule skip_all_keeps)
  have guards: "keeps ?C (foldP (guard_step T ctx) xs [])" for xs
    by (rule lift, unfold keeps_def, rule hoare_conseq [OF guards_value [OF purge_target_axioms]]) auto
  have "keeps ?C (foldP (purge_step S T ctx g) (rev tss) out)" for g out
    by (intro keeps_fold purge_step_keeps [OF assms(2)]) simp
  moreover have known: "bindP (liftP (Inr tss)) f = f tss" for f :: "table_spec list \<Rightarrow> (('s, 't, 'b) world, ldm_error, 'y) prog"
    by (rule ext) (simp add: bindP_eval)
  ultimately have "keeps ?C (purge_run S T ctx)"
    unfolding purge_run_def assms(1) known by (intro keeps_bind keeps_basic skip guards)
  from keepsD [OF this assms(3,4)] show ?thesis .
qed

lemma purge_run_clean:
  assumes "data_tables ctx = Inr tss" and "inj_on ts_name (set tss)" and "m_purge (rc_manifest ctx)"
    and "0 < purge_batch_rows (m_batch (rc_manifest ctx))"
    and "clean tss (rc_key ctx) (rc_run_id ctx) {} w" and "purge_run S T ctx w = (Inr out, w')"
    and "ts \<in> set tss"
  shows "gone (w_source w') ts (set (pv_safe (view (w_target w)) (rc_key ctx) (ts_name ts)))"
proof -
  let ?C = "\<lambda>F. clean tss (rc_key ctx) (rc_run_id ctx) F :: ('s, 't, 'b) world \<Rightarrow> bool"
  let ?v = "view (w_target w)" and ?s = "w_source w"
  let ?K = "\<lambda>u :: ('s, 't, 'b) world. w_source u = ?s \<and> view (w_target u) = ?v"
  from assms(6,1) obtain all w1 out1 g w2 where
    skip: "foldP (skip_reference T ctx) all [] w = (Inr out1, w1)"
    and guards: "foldP (guard_step T ctx) (rev tss) [] w1 = (Inr g, w2)"
    and steps: "foldP (purge_step S T ctx g) (rev tss) out1 w2 = (Inr out, w')"
    by (auto simp: purge_run_def bindP_Inr)
  have "?K w1" using keepsD [OF skip_all_keeps _ skip] by simp
  then have g: "?K w2 \<and> (\<forall>n ks v. map_of g n = Some (ks, v) \<longrightarrow> ks = pv_safe ?v (rc_key ctx) n)"
    using hoare_retD [OF guards_value [OF purge_target_axioms] _ guards] by simp
  then have "?C {} w2" using assms(5) by (simp add: clean_def)
  have "hoare (?C {}) (foldP (purge_step S T ctx g) (rev tss) out1)
      (\<lambda>_. ?C ({} \<union> (\<lambda>ts. (ts, set (pv_safe ?v (rc_key ctx) (ts_name ts)))) ` set (rev tss))) (\<lambda>_ _. True)"
    by (rule purge_steps_clean [OF assms(2) _ assms(3,4)]) (use g in auto)
  from hoare_retD [OF this \<open>?C {} w2\<close> steps]
  have "?C ((\<lambda>ts. (ts, set (pv_safe ?v (rc_key ctx) (ts_name ts)))) ` set tss) w'" by simp
  with assms(7) show ?thesis by (intro clean_gone) auto
qed

end

interpretation fake_job: exact_job fake_source_ops fs_tables fs_committed "fake_target_ops sha" ft_view
  "\<lambda>s. fs_short_delete_for s = []"
  for sha
  by unfold_locales

section \<open>The purge over the in-memory drivers\<close>

definition safe_keys_of :: "fake_target \<Rightarrow> run_key \<Rightarrow> string \<Rightarrow> string list" where
  "safe_keys_of t k n = sort (map vr_source_key (filter (\<lambda>v. vr_table v = n \<and> vr_purge_safe v) (ft_validation t k)))"

definition validated_of :: "fake_target \<Rightarrow> run_key \<Rightarrow> string \<Rightarrow> nat option" where
  "validated_of t k n = Option.bind (ft_ledger t k) (\<lambda>l. Option.bind (map_of l n) lr_validated)"

lemma ft_view_simps [simp]:
  "pv_safe (ft_view t) k n = safe_keys_of t k n" "pv_validated (ft_view t) k n = validated_of t k n"
  "pv_audited (ft_view t) k n = audited_in t k n"
  by (simp_all add: ft_view_def safe_keys_of_def validated_of_def)

lemma purge_only_safe_audited:
  assumes "data_tables ctx = Inr tss" and "purge_run fake_source_ops (fake_target_ops sha) ctx w = (r, w')"
  shows "only_removed tss (\<lambda>n. set (safe_keys_of (w_target w) (rc_key ctx) n)) (fs_tables (w_source w)) (fs_tables (w_source w')) \<and>
    only_removed tss (audited_in (w_target w') (rc_key ctx)) (fs_tables (w_source w)) (fs_tables (w_source w'))"
proof -
  let ?R = "fake_job.removal_ok tss (rc_key ctx) (\<lambda>n. set (pv_safe (ft_view (w_target w)) (rc_key ctx) n)) (fs_tables (w_source w))"
  have "?R w'"
    using fake_job.purge_run_removal [OF assms(1), of "w_source w" "ft_view (w_target w)" sha] assms(2)
    by (cases r) (auto dest: hoare_retD hoare_raiseD)
  then show ?thesis by (auto simp: fake_job.removal_ok_def ft_view_def safe_keys_of_def)
qed

text \<open>C3. Whatever the run returns, and whatever rows fail: the source loses only rows of data
  tables whose key is purge-safe and stands in the purge audit of the target; all other rows
  stay, in their order, and a run whose overlay switches the purge off changes nothing.\<close>

theorem purge_removes_only_safe_audited:
  assumes "data_tables ctx = Inr tss" and "purge_run fake_source_ops (fake_target_ops sha) ctx w = (r, w')"
  shows "only_removed tss (\<lambda>n. set (safe_keys_of (w_target w) (rc_key ctx) n)) (fs_tables (w_source w)) (fs_tables (w_source w')) \<and>
    only_removed tss (audited_in (w_target w') (rc_key ctx)) (fs_tables (w_source w)) (fs_tables (w_source w')) \<and>
    (\<not> m_purge (rc_manifest ctx) \<longrightarrow> w_source w' = w_source w)"
proof -
  have "w_source w' = w_source w" if "\<not> m_purge (rc_manifest ctx)"
    using keepsD [OF fake_job.purge_run_dry [OF that] _ assms(2)] by simp
  with purge_only_safe_audited [OF assms] show ?thesis by blast
qed

text \<open>C18. When for any data table the number of purge-safe keys differs from the ledger's
  validated count, the run raises and no row of any table is deleted.\<close>

theorem purge_guard_stops_everything:
  assumes "data_tables ctx = Inr tss" and "ts \<in> set tss"
    and "int (length (safe_keys_of (w_target w) (rc_key ctx) (ts_name ts))) \<noteq>
         int_default (- 1) (validated_of (w_target w) (rc_key ctx) (ts_name ts))"
    and "purge_run fake_source_ops (fake_target_ops sha) ctx w = (r, w')"
  shows "(\<exists>e. r = Inl e) \<and> w_source w' = w_source w"
proof -
  have "hoare (\<lambda>u. w_source u = w_source w \<and> ft_view (w_target u) = ft_view (w_target w))
      (purge_run fake_source_ops (fake_target_ops sha) ctx) (\<lambda>_ _. False) (\<lambda>_ u. w_source u = w_source w)"
    by (rule fake_job.purge_run_guarded [OF assms(1,2)]) (use assms(3) in simp)
  with assms(4) show ?thesis by (cases r) (auto dest: hoare_retD hoare_raiseD)
qed

text \<open>
  The worlds that purges of a run can leave: after a purge that returned or raised, after a job that
  died between the audit of a batch and its deletion, and after one that died between the commit of a
  batch in the source and its mark in the target; deadlocks in the source come and go.
\<close>

inductive purge_history ::
  "(bytes \<Rightarrow> bytes) \<Rightarrow> run_context \<Rightarrow> table_spec list \<Rightarrow> (fake_source, fake_target, 'b) world \<Rightarrow>
   (fake_source, fake_target, 'b) world \<Rightarrow> bool"
  for sha ctx tss w0 where
  start: "purge_history sha ctx tss w0 w0"
| attempt: "purge_history sha ctx tss w0 w \<Longrightarrow> purge_run fake_source_ops (fake_target_ops sha) ctx w = (r, w') \<Longrightarrow>
     purge_history sha ctx tss w0 w'"
| died_audited: "purge_history sha ctx tss w0 w \<Longrightarrow>
     onT (to_insert_purge_audit (fake_target_ops sha) (rc_key ctx) n ks bn) w = (r', w') \<Longrightarrow> purge_history sha ctx tss w0 w'"
| died_committed: "purge_history sha ctx tss w0 w \<Longrightarrow> ts \<in> set tss \<Longrightarrow> ts_key_column ts = Inr c \<Longrightarrow>
     onS (so_purge_batch fake_source_ops (tc_schema (ts_config ts)) (ts_name ts) c ks (rc_run_id ctx)
       (m_namespace (rc_manifest ctx)) bn) w = (r'', w') \<Longrightarrow> purge_history sha ctx tss w0 w'"
| deadlocks: "purge_history sha ctx tss w0 w \<Longrightarrow>
     purge_history sha ctx tss w0 (w\<lparr>w_source := (w_source w)\<lparr>fs_fail_delete_for := ks\<rparr>\<rparr>)"

lemma history_clean:
  assumes "data_tables ctx = Inr tss" and "inj_on ts_name (set tss)" and "purge_history sha ctx tss w0 w"
    and "fake_job.clean tss (rc_key ctx) (rc_run_id ctx) {} w0"
  shows "fake_job.clean tss (rc_key ctx) (rc_run_id ctx) {} w"
  using assms(3,4)
proof induction
  case (attempt w r w')
  then show ?case using fake_job.purge_run_keeps [OF assms(1,2)] by blast
next
  case (died_audited w n ks bn r' w')
  then show ?case using keepsD [OF fake_job.insert_audit_clean] by blast
next
  case (died_committed w ts c ks bn r'' w')
  from died_committed(5) have c: "fake_job.clean tss (rc_key ctx) (rc_run_id ctx) {} w" using died_committed(6) by blast
  show ?case
  proof (cases r'')
    case (Inl e)
    from hoare_raiseD [OF fake_job.batch_clean [OF assms(2) died_committed(2,3)] c] died_committed(4) Inl show ?thesis by blast
  next
    case (Inr n)
    from hoare_retD [OF fake_job.batch_clean [OF assms(2) died_committed(2,3)] c] died_committed(4) Inr
    have "fake_job.clean tss (rc_key ctx) (rc_run_id ctx) (insert (ts, set ks) {}) w'" by blast
    then show ?thesis by (rule fake_job.clean_weaken) blast
  qed
next
  case (deadlocks w ks)
  have "fs_committed (s\<lparr>fs_fail_delete_for := ks\<rparr>) = fs_committed s" for s :: fake_source
    by (intro ext) (simp add: fs_committed_def)
  with deadlocks show ?case by (simp add: fake_job.clean_def fake_job.gone_def)
qed

text \<open>C19. A purge that is not a dry run and returns has left no row with a purge-safe key in any data
  table, whatever attempts came before it since the first one: attempts that returned or raised
  (deadlocks come and go), and jobs that died between the audit, the commit and the mark of a batch.
  The batch size is positive, table names are distinct, and the source deletes every row of a batch
  that it reports as deleted.\<close>

theorem purge_return_complete:
  assumes "data_tables ctx = Inr tss" and "inj_on ts_name (set tss)" and "m_purge (rc_manifest ctx)"
    and "0 < purge_batch_rows (m_batch (rc_manifest ctx))" and "fs_short_delete_for (w_source w0) = []"
    and "ft_purge_audit (w_target w0) (rc_key ctx) = []" and "\<forall>x \<in> set (fs_purge_audit (w_source w0)). fst x \<noteq> rc_run_id ctx"
    and "purge_history sha ctx tss w0 w" and "purge_run fake_source_ops (fake_target_ops sha) ctx w = (Inr out, w')"
  shows "\<forall>ts \<in> set tss. \<forall>r \<in> set (fs_tables (w_source w') (source_table ts)).
    \<not> key_hit ts (set (safe_keys_of (w_target w) (rc_key ctx) (ts_name ts))) r"
proof -
  have none: "\<not> key_hit ts {} r" for ts r by (auto simp: key_hit_def hit_def split: sum.splits option.splits)
  have "fs_committed (w_source w0) (rc_run_id ctx) n = {}" for n using assms(7) by (fastforce simp: fs_committed_def)
  then have "fake_job.clean tss (rc_key ctx) (rc_run_id ctx) {} w0"
    using assms(5,6) none by (simp add: fake_job.clean_def fake_job.gone_def ft_view_def)
  from history_clean [OF assms(1,2,8) this] have "fake_job.clean tss (rc_key ctx) (rc_run_id ctx) {} w" .
  from fake_job.purge_run_clean [OF assms(1-4) this assms(9)] show ?thesis
    by (simp add: fake_job.gone_def)
qed

section \<open>Witnesses\<close>

definition safe_row :: "string \<Rightarrow> validation_row" where
  "safe_row key = \<lparr>vr_table = ''CUST'', vr_source_key = key, vr_status = Validated, vr_rule = None, vr_source_hash = None,
     vr_target_hash = None, vr_purge_safe = True, vr_error = None\<rparr>"

text \<open>Two of the three rows are purge-safe; the ledger counts \<open>n\<close> validated rows.\<close>

definition validated_target :: "nat \<Rightarrow> fake_target" where
  "validated_target n = ft_init\<lparr>
     ft_ledger := (\<lambda>_. Some [(''CUST'', (new_ledger_row ''CUST'' 1 DataTable)\<lparr>lr_validated := Some n\<rparr>)]),
     ft_validation := (\<lambda>_. [safe_row ''C3  '', safe_row ''A1  ''])\<rparr>"

lemma example_data_tables: "data_tables (example_context p) = Inr [example_table]"
  by code_simp

definition purge_example :: "bool \<Rightarrow> nat \<Rightarrow> (ldm_error + (string \<times> counts) list) \<times> (fake_source, fake_target, files) world" where
  "purge_example p n = purge_run fake_source_ops (fake_target_ops (\<lambda>b. b)) (example_context p) (example_world (validated_target n))"

text \<open>The run deletes the two rows and keeps the third; a wrong count deletes nothing.\<close>

lemma example_purge:
  "map (\<lambda>r. map_of r ''ID'') (fs_tables (w_source (snd (purge_example True 2))) ''S.CUST'') = [Some (VText ''B2  '')]"
  "fst (purge_example True 2) = Inr [(''CUST'', [(''purge_intended'', 2), (''purged'', 2), (''dry_run'', 0)])]"
  "fst (purge_example True 1) = Inl (PurgeGuardError
     ''CUST: purge guard: 2 purge_safe key(s) but ledger validated=1; nothing deleted'')"
  by code_simp+

theorem purge_removes_only_safe_audited_witness:
  "only_removed [example_table] (\<lambda>n. set (safe_keys_of (validated_target 2) (''run1'', ''r1-dev'') n))
     (fs_tables example_source) (fs_tables (w_source (snd (purge_example True 2)))) \<and>
   w_source (snd (purge_example False 2)) = example_source"
  using purge_removes_only_safe_audited [OF example_data_tables, of "\<lambda>b. b" True "example_world (validated_target 2)"
      "fst (purge_example True 2)" "snd (purge_example True 2)"]
    purge_removes_only_safe_audited [OF example_data_tables, of "\<lambda>b. b" False "example_world (validated_target 2)"
      "fst (purge_example False 2)" "snd (purge_example False 2)"]
  by (simp add: purge_example_def example_world_def example_context_def example_manifest_def rc_key_def)

theorem purge_guard_stops_everything_witness:
  "(\<exists>e. fst (purge_example True 1) = Inl e) \<and> w_source (snd (purge_example True 1)) = example_source"
proof -
  have "int (length (safe_keys_of (validated_target 1) (rc_key (example_context True)) (ts_name example_table))) \<noteq>
      int_default (- 1) (validated_of (validated_target 1) (rc_key (example_context True)) (ts_name example_table))"
    by code_simp
  with purge_guard_stops_everything [OF example_data_tables, of example_table "example_world (validated_target 1)" True
      "\<lambda>b. b" "fst (purge_example True 1)" "snd (purge_example True 1)"]
  show ?thesis by (simp add: purge_example_def example_world_def)
qed

text \<open>A job that died after the source had committed the batch of one key, and the run that resumes it.\<close>

definition died_world :: "(fake_source, fake_target, files) world" where
  "died_world = snd (onS (so_purge_batch fake_source_ops (tc_schema (ts_config example_table)) (ts_name example_table) ''ID'' [''A1  '']
     (rc_run_id (example_context True)) (m_namespace (rc_manifest (example_context True))) 1)
     (snd (onT (to_insert_purge_audit (fake_target_ops (\<lambda>b. b)) (rc_key (example_context True)) ''CUST'' [''A1  ''] 1 ::
        (fake_target, ldm_error, unit) prog) (example_world (validated_target 2)))))"

definition resumed_example :: "(ldm_error + (string \<times> counts) list) \<times> (fake_source, fake_target, files) world" where
  "resumed_example = purge_run fake_source_ops (fake_target_ops (\<lambda>b. b)) (example_context True) died_world"

lemma resumed_example_runs:
  "map (\<lambda>r. map_of r ''ID'') (fs_tables (w_source died_world) ''S.CUST'') = [Some (VText ''B2  ''), Some (VText ''C3  '')]"
  "fst resumed_example = Inr [(''CUST'', [(''purge_intended'', 2), (''purged'', 2), (''dry_run'', 0)])]"
  by code_simp+

theorem purge_return_complete_witness:
  "filter (key_hit example_table (set (safe_keys_of (w_target died_world) (''run1'', ''r1-dev'') ''CUST'')))
     (fs_tables (w_source (snd resumed_example)) ''S.CUST'') = []"
proof -
  let ?w1 = "snd (onT (to_insert_purge_audit (fake_target_ops (\<lambda>b. b)) (rc_key (example_context True)) ''CUST'' [''A1  ''] 1 ::
        (fake_target, ldm_error, unit) prog) (example_world (validated_target 2)))"
  have "purge_history (\<lambda>b. b) (example_context True) [example_table] (example_world (validated_target 2)) ?w1"
    by (rule died_audited [OF start prod.collapse [symmetric]])
  then have "purge_history (\<lambda>b. b) (example_context True) [example_table] (example_world (validated_target 2)) died_world"
    unfolding died_world_def
  proof (rule died_committed [OF _ _ _ prod.collapse [symmetric]])
    show "ts_key_column example_table = Inr ''ID''" by code_simp
  qed simp
  moreover have "purge_run fake_source_ops (fake_target_ops (\<lambda>b. b)) (example_context True) died_world =
      (Inr [(''CUST'', [(''purge_intended'', 2), (''purged'', 2), (''dry_run'', 0)])], snd resumed_example)"
    using resumed_example_runs(2) unfolding resumed_example_def [symmetric] by (metis prod.collapse)
  ultimately have "\<forall>ts \<in> set [example_table]. \<forall>r \<in> set (fs_tables (w_source (snd resumed_example)) (source_table ts)).
    \<not> key_hit ts (set (safe_keys_of (w_target died_world) (rc_key (example_context True)) (ts_name ts))) r"
    by (rule purge_return_complete [OF example_data_tables, rotated -2])
      (simp_all add: example_context_def example_manifest_def example_world_def example_source_def fs_add_rows_def fs_init_def
        validated_target_def ft_init_def)
  then show ?thesis
    by (simp add: filter_empty_conv rc_key_def example_context_def example_manifest_def source_table_def qual_name_def ts_name_def
        example_table_def example_config_def)
qed

end
