(* ===== verification/Ldm_Validate.thy ===== *)
theory Ldm_Validate
  imports Ldm_Extract
begin

text \<open>
  The VALIDATE stage (\<open>migration/job/ldm/stages/validate.py\<close>): per-row rules (business hash,
  archive conflict, parent), per-class counts and sums, the second pass over mismatching
  classes, promotion and the ledger counts. SHA-256 is an argument; the stderr log is not modelled.

  The locale \<open>validate_target\<close> says what the stage relies on: staging batches in key order, the hashes
  of a key range, and the verdicts as a map that \<open>write_validation\<close> overrides.
\<close>

section \<open>Candidates\<close>

definition RULE_HASH :: string where "RULE_HASH = ''HASH_MISMATCH''"
definition RULE_ARCHIVE_CONFLICT :: string where "RULE_ARCHIVE_CONFLICT = ''ARCHIVE_CONFLICT''"
definition RULE_ORPHAN :: string where "RULE_ORPHAN = ''ORPHAN_PARENT_NOT_SELECTED''"
definition RULE_CLASS_COUNT :: string where "RULE_CLASS_COUNT = ''CLASS_COUNT_MISMATCH''"
definition RULE_CLASS_TOTAL :: string where "RULE_CLASS_TOTAL = ''CLASS_TOTAL_MISMATCH''"

record candidate =
  cd_row :: staged_row
  cd_source_values :: row
  cd_source_hash :: bytes
  cd_target_hash :: "bytes option"
  cd_source_class :: "string option"
  cd_target_class :: "string option"
  cd_rule :: "string option"
  cd_field :: "string option"
  cd_error :: "string option"

definition new_candidate :: "staged_row \<Rightarrow> row \<Rightarrow> bytes \<Rightarrow> bytes option \<Rightarrow> candidate" where
  "new_candidate r vs sh th = \<lparr>cd_row = r, cd_source_values = vs, cd_source_hash = sh, cd_target_hash = th,
     cd_source_class = None, cd_target_class = None, cd_rule = None, cd_field = None, cd_error = None\<rparr>"

text \<open>A staged row that does not convert is a hash failure without source values.\<close>

definition candidate_of ::
  "(bytes \<Rightarrow> bytes) \<Rightarrow> table_spec \<Rightarrow> (string \<Rightarrow> bytes option) \<Rightarrow> staged_row \<Rightarrow> ldm_error + candidate" where
  "candidate_of sha ts target_hashes r =
     bindE (convert_record (sr_raw r) (ts_columns ts)) (\<lambda>conv.
       case cv_error conv of
         Some err \<Rightarrow> Inr ((new_candidate r [] [] None)\<lparr>cd_rule := Some RULE_HASH, cd_field := Some (fe_column err),
             cd_error := Some (fe_error err)\<rparr>)
       | None \<Rightarrow> bindE (source_hash sha (cv_source_text conv) (tc_hash_columns (ts_config ts)) (ts_columns ts)) (\<lambda>h.
           Inr (new_candidate r (cv_source_text conv) h (target_hashes (sr_source_key r)))))"

section \<open>Row checks\<close>

definition first_of :: "string list \<Rightarrow> ldm_error + string" where
  "first_of xs = (case xs of [] \<Rightarrow> Inl (PyError ''IndexError'') | x # _ \<Rightarrow> Inr x)"

text \<open>The first hash column that renders differently, else the first hash column.\<close>

fun differing_in :: "string list \<Rightarrow> candidate \<Rightarrow> table_spec \<Rightarrow> ldm_error + string option" where
  "differing_in [] c ts = Inr None"
| "differing_in (n # ns) c ts =
     bindE (spec_named (ts_columns ts) n) (\<lambda>spec.
     bindE (row_get (cd_source_values c) n) (\<lambda>v.
     bindE (render_source_column v spec) (\<lambda>a.
     bindE (render_target_column (sr_values (cd_row c)) spec) (\<lambda>b.
     if a \<noteq> b then Inr (Some n) else differing_in ns c ts))))"

definition differing_column :: "candidate \<Rightarrow> table_spec \<Rightarrow> ldm_error + string" where
  "differing_column c ts = bindE (differing_in (tc_hash_columns (ts_config ts)) c ts) (\<lambda>r.
     case r of Some n \<Rightarrow> Inr n | None \<Rightarrow> first_of (tc_hash_columns (ts_config ts)))"

record row_checks =
  rk_archived :: "(string \<times> bytes) list"
  rk_parents_present :: "string list option"

definition hash_prefix :: "bytes \<Rightarrow> string" where
  "hash_prefix h = take 16 (py_hex h)"

definition fail_with :: "string \<Rightarrow> string \<Rightarrow> string \<Rightarrow> candidate \<Rightarrow> candidate" where
  "fail_with rule fld err c = c\<lparr>cd_rule := Some rule, cd_field := Some fld, cd_error := Some err\<rparr>"

definition parent_key_text :: "parent_ref \<Rightarrow> row \<Rightarrow> ldm_error + string" where
  "parent_key_text p values = bindE (mapE (\<lambda>c. bindE (row_get values c) (\<lambda>v. Inr (rstrip_sp (py_str v)))) (pr_columns p))
     (\<lambda>parts. Inr (py_join ''|'' parts))"

definition check_parent :: "table_spec \<Rightarrow> row_checks \<Rightarrow> candidate \<Rightarrow> ldm_error + candidate" where
  "check_parent ts ck c = (case (sel_parent (tc_selection (ts_config ts)), rk_parents_present ck) of
       (Some p, Some present) \<Rightarrow>
         if sr_source_key (cd_row c) \<in> set present then Inr c
         else bindE (first_of (pr_columns p)) (\<lambda>col.
              bindE (parent_key_text p (sr_values (cd_row c))) (\<lambda>pk.
              Inr (fail_with RULE_ORPHAN col (''parent '' @ pr_table p @ ''('' @ pk @
                '') is neither validated in this run nor present in arch.'' @ pr_table p) c)))
     | _ \<Rightarrow> Inr c)"

definition archive_conflict :: "row_checks \<Rightarrow> candidate \<Rightarrow> bytes option" where
  "archive_conflict ck c = (case map_of (rk_archived ck) (sr_source_key (cd_row c)) of
       Some prior \<Rightarrow> if prior \<noteq> cd_source_hash c then Some prior else None
     | None \<Rightarrow> None)"

definition apply_checks :: "table_spec \<Rightarrow> row_checks \<Rightarrow> candidate \<Rightarrow> ldm_error + candidate" where
  "apply_checks ts ck c =
     (if cd_rule c \<noteq> None then Inr c
      else if cd_target_hash c \<noteq> Some (cd_source_hash c)
      then bindE (differing_column c ts) (\<lambda>col.
        Inr (fail_with RULE_HASH col (''business hash source='' @ hash_prefix (cd_source_hash c) @ '' target='' @
          text_or ''missing'' (map_option hash_prefix (cd_target_hash c)) @ '' differs at '' @ col) c))
      else (case archive_conflict ck c of
          Some prior \<Rightarrow> bindE (first_of (tc_key_columns (ts_config ts))) (\<lambda>col.
            Inr (fail_with RULE_ARCHIVE_CONFLICT col (''arch.'' @ ts_name ts @ '' already holds this key with business hash '' @
              hash_prefix prior @ '' != source '' @ hash_prefix (cd_source_hash c) @ ''; not promoted, not purge-safe'') c))
        | None \<Rightarrow> check_parent ts ck c))"

definition load_checks ::
  "'t target_ops \<Rightarrow> run_context \<Rightarrow> table_spec \<Rightarrow> (('s, 't, 'b) world, ldm_error, row_checks) prog" where
  "load_checks T ctx ts = (let cfg = ts_config ts in
     bindP (onT (to_archived_hashes T (rc_key ctx) (ts_name ts) (tc_key_columns cfg))) (\<lambda>archived.
     case sel_parent (tc_selection cfg) of
       None \<Rightarrow> retP \<lparr>rk_archived = archived, rk_parents_present = None\<rparr>
     | Some p \<Rightarrow> bindP (onT (to_parents_present T (rc_key ctx) (ts_name ts) (pr_columns p) (pr_table p) (pr_references p)))
         (\<lambda>present. retP \<lparr>rk_archived = archived, rk_parents_present = Some present\<rparr>)))"

section \<open>Classes\<close>

text \<open>Policy code to successor class, from the staged rows of the lookup table.\<close>

definition add_successor ::
  "class_resolution \<Rightarrow> staged_row \<Rightarrow> (string \<times> string) list \<Rightarrow> ldm_error + (string \<times> string) list" where
  "add_successor res r out =
     bindE (row_get (sr_values r) (cr_lookup_key res)) (\<lambda>k.
     bindE (row_get (sr_values r) (cr_successor_column res)) (\<lambda>v.
     let code = rstrip_sp (py_str k); succ = rstrip_sp (str_or_empty (Some v))
     in Inr (if succ \<noteq> [] then dict_set code succ out else out)))"

definition successor_map ::
  "'t target_ops \<Rightarrow> run_context \<Rightarrow> table_spec \<Rightarrow> (('s, 't, 'b) world, ldm_error, (string \<times> string) list) prog" where
  "successor_map T ctx ts = (case Option.bind (tc_class_totals (ts_config ts)) ct_resolution of
       None \<Rightarrow> retP []
     | Some res \<Rightarrow>
         bindP (liftP (rc_table ctx (cr_lookup_table res))) (\<lambda>lookup.
         bindP (onT (to_iter_staging T (rc_key ctx) (ts_name lookup) (validate_batch_rows (m_batch (rc_manifest ctx))))) (\<lambda>batches.
         liftP (foldE (add_successor res) (concat batches) []))))"

definition source_class :: "string \<Rightarrow> (string \<times> string) list \<Rightarrow> (string \<times> string) list \<Rightarrow> string" where
  "source_class raw value_map successors = (let code = rstrip_sp raw in
     case map_of successors code of
       Some s \<Rightarrow> s
     | None \<Rightarrow> (case map_of value_map code of Some s \<Rightarrow> s | None \<Rightarrow> code))"

definition classify ::
  "class_totals \<Rightarrow> table_spec \<Rightarrow> (string \<times> string) list \<Rightarrow> candidate \<Rightarrow> ldm_error + candidate" where
  "classify ct ts successors c =
     bindE (spec_named (ts_columns ts) (ct_class_column ct)) (\<lambda>spec.
     bindE (row_get (sr_values (cd_row c)) (ct_class_column ct)) (\<lambda>v.
     Inr (c\<lparr>cd_source_class := Some (source_class (str_or_empty (map_of (cd_source_values c) (ct_class_column ct)))
                                  (cs_value_map spec) successors),
            cd_target_class := Some (rstrip_sp (str_or_empty (Some v)))\<rparr>)))"

type_synonym class_sides = "(string \<times> class_aggregate) list"

definition class_side :: "class_sides \<Rightarrow> string \<Rightarrow> class_aggregate" where
  "class_side src cls = (case map_of src cls of Some a \<Rightarrow> a | None \<Rightarrow> no_aggregate)"

definition add_to_side ::
  "class_totals \<Rightarrow> string \<Rightarrow> row \<Rightarrow> class_sides \<Rightarrow> ldm_error + class_sides" where
  "add_to_side ct cls vs src = (let side = class_side src cls in
     bindE (foldE (\<lambda>col sums. bindE (row_get vs col) (\<lambda>v. case v of
                VDec d \<Rightarrow> Inr (sum_add col d sums) | _ \<Rightarrow> Inl (PyError ''AssertionError''))) (ct_sum_columns ct) (ca_sums side))
       (\<lambda>sums. Inr (dict_set cls \<lparr>ca_count = Suc (ca_count side), ca_sums = sums\<rparr> src)))"

record class_mismatch =
  mm_rule :: string
  mm_detail :: string

definition sums_agree :: "string list \<Rightarrow> class_aggregate \<Rightarrow> class_aggregate \<Rightarrow> bool" where
  "sums_agree cols s t \<longleftrightarrow> list_all (\<lambda>c. dec_eq (sum_get (ca_sums s) c) (sum_get (ca_sums t) c)) cols"

definition opt_text :: "string option \<Rightarrow> string" where
  "opt_text x = (case x of None \<Rightarrow> ''None'' | Some s \<Rightarrow> s)"

definition sum_text :: "decimal option \<Rightarrow> string" where
  "sum_text d = (case d of None \<Rightarrow> ''None'' | Some x \<Rightarrow> dec_str x)"

text \<open>One class: the row of \<open>mig.class_totals\<close>, and the mismatch if there is one.\<close>

definition compare_class ::
  "table_spec \<Rightarrow> class_totals \<Rightarrow> class_sides \<Rightarrow> class_sides \<Rightarrow> string \<Rightarrow> class_total_row \<times> class_mismatch option" where
  "compare_class ts ct src tgt cls = (let s = class_side src cls; t = class_side tgt cls;
       sum_col = (case ct_sum_columns ct of [] \<Rightarrow> None | c # _ \<Rightarrow> Some c);
       side_sum = (\<lambda>a. if truthy sum_col then Some (sum_get (ca_sums a) (the sum_col)) else None);
       count_ok = (ca_count s = ca_count t); ok = count_ok \<and> sums_agree (ct_sum_columns ct) s t in
     (\<lparr>cl_table = ts_name ts, cl_class = cls, cl_source_count = ca_count s, cl_target_count = ca_count t,
       cl_source_sum = side_sum s, cl_target_sum = side_sum t, cl_match = ok\<rparr>,
      if ok then None
      else Some \<lparr>mm_rule = (if count_ok then RULE_CLASS_TOTAL else RULE_CLASS_COUNT),
        mm_detail = (if count_ok
          then ''class '' @ cls @ '': source SUM('' @ opt_text sum_col @ '')='' @ sum_text (side_sum s) @
               '' target SUM('' @ opt_text sum_col @ '')='' @ sum_text (side_sum t)
          else ''class '' @ cls @ '': source count='' @ str_nat (ca_count s) @ '' target count='' @ str_nat (ca_count t))\<rparr>))"

definition classes_of :: "class_sides \<Rightarrow> class_sides \<Rightarrow> string list" where
  "classes_of src tgt = sort (remdups (map fst src @ map fst tgt))"

definition mismatches_of ::
  "table_spec \<Rightarrow> class_totals \<Rightarrow> class_sides \<Rightarrow> class_sides \<Rightarrow> (string \<times> class_mismatch) list" where
  "mismatches_of ts ct src tgt =
     List.map_filter (\<lambda>cls. map_option (\<lambda>m. (cls, m)) (snd (compare_class ts ct src tgt cls))) (classes_of src tgt)"

definition class_mismatches ::
  "'t target_ops \<Rightarrow> run_context \<Rightarrow> table_spec \<Rightarrow> class_totals \<Rightarrow> class_sides \<Rightarrow>
   (('s, 't, 'b) world, ldm_error, (string \<times> class_mismatch) list) prog" where
  "class_mismatches T ctx ts ct src =
     bindP (onT (to_class_aggregates T (rc_key ctx) (ts_name ts) (ct_class_column ct) (ct_sum_columns ct))) (\<lambda>tgt.
     thenP (onT (to_write_class_totals T (rc_key ctx) (map (fst \<circ> compare_class ts ct src tgt) (classes_of src tgt))))
       (retP (mismatches_of ts ct src tgt)))"

definition fail_class :: "class_totals \<Rightarrow> class_mismatch \<Rightarrow> candidate \<Rightarrow> candidate" where
  "fail_class ct mm c = fail_with (mm_rule mm) (ct_class_column ct)
     (if cd_source_class c \<noteq> cd_target_class c
      then mm_detail mm @ ''; row class '' @ opt_text (cd_source_class c) @ '' (system of record) vs '' @
           opt_text (cd_target_class c) @ '' (target)''
      else mm_detail mm) c"

section \<open>Persisting a batch\<close>

definition verdict :: "table_spec \<Rightarrow> candidate \<Rightarrow> validation_row" where
  "verdict ts c = (let ok = (cd_rule c = None) in
     \<lparr>vr_table = ts_name ts, vr_source_key = sr_source_key (cd_row c), vr_status = (if ok then Validated else Failed),
      vr_rule = cd_rule c, vr_source_hash = Some (cd_source_hash c), vr_target_hash = cd_target_hash c,
      vr_purge_safe = (ok \<and> tc_role (ts_config ts) = DataTable), vr_error = cd_error c\<rparr>)"

definition validation_reject :: "table_spec \<Rightarrow> candidate \<Rightarrow> reject" where
  "validation_reject ts c = \<lparr>rj_table = ts_name ts, rj_source_key = sr_source_key (cd_row c), rj_stage = Validate,
     rj_rule = text_or [] (cd_rule c), rj_field = cd_field c, rj_raw = Some (sr_raw (cd_row c)), rj_field_bytes = None,
     rj_sqlstate = None, rj_native_error = None, rj_error = text_or [] (cd_error c), rj_range_seq = None\<rparr>"

definition persist ::
  "'t target_ops \<Rightarrow> run_context \<Rightarrow> table_spec \<Rightarrow> candidate list \<Rightarrow> (('s, 't, 'b) world, ldm_error, unit) prog" where
  "persist T ctx ts cs = (let rejects = map (validation_reject ts) (filter (\<lambda>c. cd_rule c \<noteq> None) cs) in
     thenP (onT (to_write_validation T (rc_key ctx) (map (verdict ts) cs)))
     (thenP (onT (to_delete_rejects_keys T (rc_key ctx) (ts_name ts) Validate (map (\<lambda>c. sr_source_key (cd_row c)) cs)))
     (if rejects = [] then retP () else onT (to_insert_rejects T (rc_key ctx) rejects))))"

section \<open>The two passes\<close>

text \<open>
  The staging batches with their candidates, fed to \<open>step\<close> one batch at a time. The SQL text of
  the hash is computed when the first batch is asked for.
\<close>

definition with_candidates ::
  "'t target_ops \<Rightarrow> (bytes \<Rightarrow> bytes) \<Rightarrow> run_context \<Rightarrow> table_spec \<Rightarrow> string \<Rightarrow>
   (candidate list \<Rightarrow> 'v \<Rightarrow> (('s, 't, 'b) world, ldm_error, 'v) prog) \<Rightarrow> staged_row list \<Rightarrow> 'v \<Rightarrow>
   (('s, 't, 'b) world, ldm_error, 'v) prog" where
  "with_candidates T sha ctx ts expr step batch v =
     (if batch = [] then retP v
      else bindP (onT (to_target_hashes T (rc_key ctx) (ts_name ts) expr (sr_source_key (hd batch)) (sr_source_key (last batch))))
        (\<lambda>hashes. bindP (liftP (mapE (candidate_of sha ts (map_of hashes)) batch)) (\<lambda>cs. step cs v)))"

definition hash_sql :: "run_context \<Rightarrow> table_spec \<Rightarrow> ldm_error + string" where
  "hash_sql ctx ts = hash_expression (m_provider (rc_manifest ctx)) (tc_hash_columns (ts_config ts)) (ts_columns ts)"

definition each_batch ::
  "'t target_ops \<Rightarrow> (bytes \<Rightarrow> bytes) \<Rightarrow> run_context \<Rightarrow> table_spec \<Rightarrow>
   (candidate list \<Rightarrow> 'v \<Rightarrow> (('s, 't, 'b) world, ldm_error, 'v) prog) \<Rightarrow> 'v \<Rightarrow>
   (('s, 't, 'b) world, ldm_error, 'v) prog" where
  "each_batch T sha ctx ts step v0 =
     bindP (liftP (hash_sql ctx ts)) (\<lambda>expr.
     bindP (onT (to_iter_staging T (rc_key ctx) (ts_name ts) (validate_batch_rows (m_batch (rc_manifest ctx))))) (\<lambda>batches.
     foldP (with_candidates T sha ctx ts expr step) batches v0))"

type_synonym pass_state = "class_sides \<times> string list"

text \<open>A row of the first pass: checked, and with class totals classified and counted.\<close>

definition judge_row ::
  "table_spec \<Rightarrow> row_checks \<Rightarrow> (string \<times> string) list \<Rightarrow> candidate \<Rightarrow> pass_state \<Rightarrow> ldm_error + candidate \<times> pass_state" where
  "judge_row ts ck successors c st = bindE (apply_checks ts ck c) (\<lambda>c1.
     case tc_class_totals (ts_config ts) of
       None \<Rightarrow> Inr (c1, st)
     | Some ct \<Rightarrow> bindE (classify ct ts successors c1) (\<lambda>c2.
         let s = the (cd_source_class c2); t = the (cd_target_class c2) in
         bindE (add_to_side ct s (cd_source_values c2) (fst st)) (\<lambda>src.
         Inr (c2, src, if s \<noteq> t then snd st @ [s, t] else snd st))))"

definition first_pass_row ::
  "table_spec \<Rightarrow> row_checks \<Rightarrow> (string \<times> string) list \<Rightarrow> candidate \<Rightarrow> candidate list \<times> pass_state \<Rightarrow>
   ldm_error + (candidate list \<times> pass_state)" where
  "first_pass_row ts ck successors c st =
     bindE (judge_row ts ck successors c (snd st)) (\<lambda>(c', st'). Inr (fst st @ [c'], st'))"

definition first_pass ::
  "'t target_ops \<Rightarrow> run_context \<Rightarrow> table_spec \<Rightarrow> row_checks \<Rightarrow> (string \<times> string) list \<Rightarrow> candidate list \<Rightarrow> pass_state \<Rightarrow>
   (('s, 't, 'b) world, ldm_error, pass_state) prog" where
  "first_pass T ctx ts ck successors cs st =
     bindP (liftP (foldE (first_pass_row ts ck successors) cs ([], st))) (\<lambda>(out, st').
     thenP (persist T ctx ts out) (retP st'))"

text \<open>\<open>hit\<close>: the mismatch that a row without a failed rule explains or suffers from.\<close>

definition class_hit ::
  "(string \<times> class_mismatch) list \<Rightarrow> string list \<Rightarrow> string \<Rightarrow> string \<Rightarrow> class_mismatch option" where
  "class_hit mismatches moved s t =
     (if s \<noteq> t then (case map_of mismatches s of Some m \<Rightarrow> Some m | None \<Rightarrow> map_of mismatches t)
      else if t \<notin> set moved then map_of mismatches t else None)"

text \<open>A row of the second pass: the candidate to flip, if any.\<close>

definition flip_row ::
  "table_spec \<Rightarrow> class_totals \<Rightarrow> row_checks \<Rightarrow> (string \<times> string) list \<Rightarrow> (string \<times> class_mismatch) list \<Rightarrow> string list \<Rightarrow>
   candidate \<Rightarrow> ldm_error + candidate option" where
  "flip_row ts ct ck successors mismatches moved c =
     bindE (apply_checks ts ck c) (\<lambda>c1.
     if cd_rule c1 \<noteq> None then Inr None
     else bindE (classify ct ts successors c1) (\<lambda>c2.
       Inr (map_option (\<lambda>mm. fail_class ct mm c2)
         (class_hit mismatches moved (the (cd_source_class c2)) (the (cd_target_class c2))))))"

definition second_pass_row ::
  "table_spec \<Rightarrow> class_totals \<Rightarrow> row_checks \<Rightarrow> (string \<times> string) list \<Rightarrow> (string \<times> class_mismatch) list \<Rightarrow> string list \<Rightarrow>
   candidate \<Rightarrow> candidate list \<Rightarrow> ldm_error + candidate list" where
  "second_pass_row ts ct ck successors mismatches moved c out =
     bindE (flip_row ts ct ck successors mismatches moved c)
       (\<lambda>x. Inr (case x of None \<Rightarrow> out | Some c' \<Rightarrow> out @ [c']))"

definition second_pass ::
  "'t target_ops \<Rightarrow> run_context \<Rightarrow> table_spec \<Rightarrow> class_totals \<Rightarrow> row_checks \<Rightarrow> (string \<times> string) list \<Rightarrow>
   (string \<times> class_mismatch) list \<Rightarrow> string list \<Rightarrow> candidate list \<Rightarrow> unit \<Rightarrow> (('s, 't, 'b) world, ldm_error, unit) prog" where
  "second_pass T ctx ts ct ck successors mismatches moved cs u =
     bindP (liftP (foldE (second_pass_row ts ct ck successors mismatches moved) cs [])) (\<lambda>flipped.
     if flipped = [] then retP () else persist T ctx ts flipped)"

definition validate_classes ::
  "'t target_ops \<Rightarrow> (bytes \<Rightarrow> bytes) \<Rightarrow> run_context \<Rightarrow> table_spec \<Rightarrow> row_checks \<Rightarrow> (string \<times> string) list \<Rightarrow> pass_state \<Rightarrow>
   (('s, 't, 'b) world, ldm_error, unit) prog" where
  "validate_classes T sha ctx ts ck successors st = (case tc_class_totals (ts_config ts) of
       None \<Rightarrow> retP ()
     | Some ct \<Rightarrow> bindP (class_mismatches T ctx ts ct (fst st)) (\<lambda>mismatches.
         if mismatches = [] then retP ()
         else each_batch T sha ctx ts (second_pass T ctx ts ct ck successors mismatches (snd st)) ()))"

definition finish_table ::
  "'t target_ops \<Rightarrow> run_context \<Rightarrow> table_spec \<Rightarrow> (('s, 't, 'b) world, ldm_error, counts) prog" where
  "finish_table T ctx ts =
     bindP (onT (to_promote T (rc_key ctx) (ts_name ts) (tc_key_columns (ts_config ts)))) (\<lambda>promoted.
     bindP (onT (to_count_validation T (rc_key ctx) (ts_name ts) Validated)) (\<lambda>validated.
     bindP (onT (to_count_validation T (rc_key ctx) (ts_name ts) Failed)) (\<lambda>failed.
     thenP (onT (to_update_ledger T (rc_key ctx) (ts_name ts)
              (\<lambda>r. r\<lparr>lr_validated := Some validated, lr_validate_failed := Some failed\<rparr>)))
     (bindP (ledger_entry T ctx ts) (\<lambda>ledger.
      let loaded = int_default (- 1) (lr_loaded ledger) in
      if loaded \<noteq> int (validated + failed)
      then raiseP (ReconcileError (ts_name ts @ '': loaded '' @ str_int loaded @ '' != validated '' @ str_nat validated @
             '' + validate_failed '' @ str_nat failed) [])
      else retP [(''validated'', int validated), (''validate_failed'', int failed)])))))"

definition validate_table ::
  "'t target_ops \<Rightarrow> (bytes \<Rightarrow> bytes) \<Rightarrow> run_context \<Rightarrow> table_spec \<Rightarrow> (('s, 't, 'b) world, ldm_error, counts) prog" where
  "validate_table T sha ctx ts =
     bindP (load_checks T ctx ts) (\<lambda>ck.
     bindP (successor_map T ctx ts) (\<lambda>successors.
     bindP (each_batch T sha ctx ts (first_pass T ctx ts ck successors) ([], [])) (\<lambda>st.
     thenP (validate_classes T sha ctx ts ck successors st) (finish_table T ctx ts))))"

definition validate_run ::
  "'t target_ops \<Rightarrow> (bytes \<Rightarrow> bytes) \<Rightarrow> run_context \<Rightarrow> (('s, 't, 'b) world, ldm_error, (string \<times> counts) list) prog" where
  "validate_run T sha ctx =
     bindP (liftP (tables_in_order ctx)) (\<lambda>tables.
     per_table T ctx Validate ''validated'' tables (validate_table T sha ctx) [])"

section \<open>The contract of the target\<close>

text \<open>
  What the stage sees of a target: the staged rows, the hash the database computes per table,
  SQL text and key, the validation rows, and what the queries for archived hashes, present
  parents and class aggregates answer.
\<close>

record validate_view =
  vv_staged :: "run_key \<Rightarrow> string \<Rightarrow> staged_row list"
  vv_hash :: "run_key \<Rightarrow> string \<Rightarrow> string \<Rightarrow> string \<Rightarrow> bytes option"
  vv_classes :: "run_key \<Rightarrow> string \<Rightarrow> string \<Rightarrow> string list \<Rightarrow> class_sides"
  vv_rows :: "run_key \<Rightarrow> validation_row set"
  vv_archived :: "run_key \<Rightarrow> string \<Rightarrow> string list \<Rightarrow> (string \<times> bytes) list"
  vv_present :: "run_key \<Rightarrow> string \<Rightarrow> string list \<Rightarrow> string \<Rightarrow> string list \<Rightarrow> string list"

definition vid :: "validation_row \<Rightarrow> string \<times> string" where
  "vid v = (vr_table v, vr_source_key v)"

definition upsert :: "validation_row list \<Rightarrow> validation_row set \<Rightarrow> validation_row set" where
  "upsert rows V = {v \<in> V. vid v \<notin> vid ` set rows} \<union> set rows"

text \<open>The part of the view that the stage never changes.\<close>

definition same_core :: "validate_view \<Rightarrow> validate_view \<Rightarrow> bool" where
  "same_core v v' \<longleftrightarrow> vv_staged v' = vv_staged v \<and> vv_hash v' = vv_hash v \<and> vv_classes v' = vv_classes v"

lemma same_core_refl [simp]: "same_core v v"
  by (simp add: same_core_def)

lemma same_core_trans [trans]: "same_core a b \<Longrightarrow> same_core b c \<Longrightarrow> same_core a c"
  by (simp add: same_core_def)

locale validate_target =
  fixes T :: "'t target_ops" and view :: "'t \<Rightarrow> validate_view"
  assumes iter_staging: "to_iter_staging T k n b t = (r, t') \<Longrightarrow> view t' = view t \<and>
      (\<forall>bs. r = Inr bs \<longrightarrow> 0 < b \<longrightarrow> concat bs = sort_key sr_source_key (vv_staged (view t) k n))"
    and target_hashes: "to_target_hashes T k n x lo hi t = (r1, t') \<Longrightarrow> view t' = view t \<and>
      (\<forall>hs. r1 = Inr hs \<longrightarrow> map_of hs = vv_hash (view t) k n x |` {key. lo \<le> key \<and> key \<le> hi})"
    and archived_hashes: "reads view (to_archived_hashes T k n cs) (\<lambda>v. vv_archived v k n cs)"
    and parents_present: "reads view (to_parents_present T k n cs p rs) (\<lambda>v. vv_present v k n cs p rs)"
    and class_aggregates: "reads view (to_class_aggregates T k n c cs) (\<lambda>v. vv_classes v k n c cs)"
    and write_validation: "to_write_validation T k rows t = (Inr u, t') \<Longrightarrow>
      \<exists>P. view t' = (view t)\<lparr>vv_rows := (vv_rows (view t))(k := upsert rows (vv_rows (view t) k)), vv_present := P\<rparr>"
    and write_fails: "to_write_validation T k rows t = (Inl e, t') \<Longrightarrow> view t' = view t"
    and promote: "to_promote T k n cs t = (r2, t') \<Longrightarrow> \<exists>A P. view t' = (view t)\<lparr>vv_archived := A, vv_present := P\<rparr>"
    and class_totals: "quiet view (to_write_class_totals T k crs)"
    and delete_rejects: "quiet view (to_delete_rejects_keys T k n st ks)"
    and insert_rejects: "quiet view (to_insert_rejects T k rjs)"
    and count_validation: "quiet view (to_count_validation T k n vs)"
    and update_ledger: "quiet view (to_update_ledger T k n g)"
    and get_ledger: "quiet view (to_get_ledger T k)"
    and log_start: "quiet view (to_log_start T k st tab)"
    and log_finish: "quiet view (to_log_finish T i ls rc msg)"

end
