(* ===== verification/Py_Html.thy ===== *)
theory Py_Html
  imports Py_Text
begin

text \<open>
  \<open>html.escape\<close> with quotes, as the report of the migration job and the export of documents use it,
  and the characters that can start or end markup: escaped text has none of them.
\<close>

definition html_char :: "char \<Rightarrow> string" where
  "html_char c = (if c = CHR ''&'' then ''&amp;'' else if c = CHR ''<'' then ''&lt;'' else if c = CHR ''>'' then ''&gt;''
     else if c = CHR 0x22 then ''&quot;'' else if c = CHR 0x27 then ''&#x27;'' else [c])"

definition html_escape :: "string \<Rightarrow> string" where
  "html_escape s = concat (map html_char s)"

definition markup :: "char \<Rightarrow> bool" where
  "markup c \<longleftrightarrow> c \<in> {CHR ''<'', CHR ''>'', CHR 0x22, CHR 0x27}"

lemma html_escape_no_markup [simp]: "filter markup (html_escape s) = []"
proof -
  have "filter markup (html_char c) = []" for c
    by (simp add: html_char_def markup_def)
  then show ?thesis by (simp add: html_escape_def filter_concat comp_def)
qed

end
