(* ===== verification/Ldm_Report.thy ===== *)
theory Ldm_Report
  imports Ldm_Drivers Py_Html
begin

text \<open>
  The reconciliation report (\<open>migration/job/ldm/report.py\<close>): its data, and its three renderings as
  JSON, CSV and HTML. A reader of CSV lines is written beside the writer to state that the CSV
  loses nothing; the HTML is shown to take no markup from the data.
\<close>

section \<open>The report\<close>

record table_line =
  rt_table :: string
  rt_extracted :: nat
  rt_loaded :: nat
  rt_validated :: nat
  rt_purged :: nat
  rt_failed :: nat

record failure_line =
  rf_table :: string
  rf_source_key :: string
  rf_rule :: string
  rf_stage :: stage
  rf_field :: "string option"
  rf_sqlstate :: "string option"
  rf_native_error :: "int option"
  rf_error :: string

record class_line =
  rc_table_name :: string
  rc_class :: string
  rc_source_count :: nat
  rc_target_count :: nat
  rc_source_sum :: "string option"
  rc_target_sum :: "string option"
  rc_status :: string

record report =
  rp_run_id :: string
  rp_namespace :: string
  rp_generated_at :: string
  rp_tables :: "table_line list"
  rp_failures :: "failure_line list"
  rp_sessions :: "(string \<times> string) list"
  rp_closes :: bool
  rp_classes :: "class_line list"

definition stage_text :: "stage \<Rightarrow> string" where
  "stage_text s = (case s of Extract \<Rightarrow> ''EXTRACT'' | Load \<Rightarrow> ''LOAD'' | Validate \<Rightarrow> ''VALIDATE''
     | Purge \<Rightarrow> ''PURGE'' | Reconcile \<Rightarrow> ''RECONCILE'')"

text \<open>Eight decimals in fixed notation; a value that does not fit the precision raises.\<close>

definition dec8 :: "decimal option \<Rightarrow> ldm_error + string option" where
  "dec8 v = (case v of
       None \<Rightarrow> Inr None
     | Some d \<Rightarrow> (case quantize d 8 of
           None \<Rightarrow> Inl (PyError ''InvalidOperation'')
         | Some q \<Rightarrow> Inr (Some (format_f q))))"

section \<open>JSON\<close>

datatype json = JNull | JBool bool | JInt int | JStr string | JList "json list" | JObj "(string \<times> json) list"

definition json_char :: "char \<Rightarrow> string" where
  "json_char c = (let n = of_char c :: nat; esc = (\<lambda>x. [CHR 0x5C, x]) in
     if n = 0x22 \<or> n = 0x5C then esc c
     else if n = 0x0A then esc (CHR ''n'') else if n = 0x0D then esc (CHR ''r'') else if n = 0x09 then esc (CHR ''t'')
     else if n = 0x08 then esc (CHR ''b'') else if n = 0x0C then esc (CHR ''f'')
     else if n < 0x20 then [CHR 0x5C, CHR ''u'', CHR ''0'', CHR ''0'', hex_digit (n div 16), hex_digit (n mod 16)]
     else [c])"

definition json_string :: "string \<Rightarrow> string" where
  "json_string s = [CHR 0x22] @ concat (map json_char s) @ [CHR 0x22]"

definition newline :: "nat \<Rightarrow> string" where
  "newline n = CHR 0x0A # replicate n (CHR '' '')"

lemma size_entry: "kv \<in> set kvs \<Longrightarrow> size (snd kv) < size_list (size_prod (\<lambda>_. 0) size) (kvs :: (string \<times> json) list)"
  by (induction kvs) (auto simp: less_Suc_eq_le trans_le_add2)

text \<open>\<open>json.dumps(v, indent=2, ensure_ascii=False)\<close>, the first argument being the indentation so far.\<close>

function json_text :: "nat \<Rightarrow> json \<Rightarrow> string" where
  "json_text n JNull = ''null''"
| "json_text n (JBool b) = (if b then ''true'' else ''false'')"
| "json_text n (JInt i) = str_int i"
| "json_text n (JStr s) = json_string s"
| "json_text n (JList xs) =
     (if xs = [] then ''[]''
      else ''['' @ newline (n + 2) @ py_join ('','' @ newline (n + 2)) (map (json_text (n + 2)) xs) @ newline n @ '']'')"
| "json_text n (JObj kvs) =
     (if kvs = [] then ''{}''
      else ''{'' @ newline (n + 2) @
        py_join ('','' @ newline (n + 2)) (map (\<lambda>kv. json_string (fst kv) @ '': '' @ json_text (n + 2) (snd kv)) kvs) @
        newline n @ ''}'')"
  by pat_completeness auto

termination
  by (relation "measure (size \<circ> snd)") (auto simp: size_list_estimation' less_Suc_eq_le dest: size_entry)

definition json_opt :: "string option \<Rightarrow> json" where
  "json_opt x = (case x of None \<Rightarrow> JNull | Some s \<Rightarrow> JStr s)"

definition json_nat :: "nat \<Rightarrow> json" where
  "json_nat n = JInt (int n)"

definition table_json :: "table_line \<Rightarrow> json" where
  "table_json t = JObj [(''table'', JStr (rt_table t)), (''extracted'', json_nat (rt_extracted t)),
     (''loaded'', json_nat (rt_loaded t)), (''validated'', json_nat (rt_validated t)),
     (''purged'', json_nat (rt_purged t)), (''failed'', json_nat (rt_failed t))]"

definition failure_json :: "failure_line \<Rightarrow> json" where
  "failure_json f = JObj [(''table'', JStr (rf_table f)), (''source_key'', JStr (rf_source_key f)),
     (''rule'', JStr (rf_rule f)), (''stage'', JStr (stage_text (rf_stage f))), (''field'', json_opt (rf_field f)),
     (''sqlstate'', json_opt (rf_sqlstate f)),
     (''native_error'', case rf_native_error f of None \<Rightarrow> JNull | Some i \<Rightarrow> JInt i), (''error'', JStr (rf_error f))]"

definition class_json :: "class_line \<Rightarrow> json" where
  "class_json c = JObj [(''table'', JStr (rc_table_name c)), (''class'', JStr (rc_class c)),
     (''source_count'', json_nat (rc_source_count c)), (''target_count'', json_nat (rc_target_count c)),
     (''source_sum'', json_opt (rc_source_sum c)), (''target_sum'', json_opt (rc_target_sum c)),
     (''status'', JStr (rc_status c))]"

definition report_json :: "report \<Rightarrow> json" where
  "report_json r = JObj [(''run_id'', JStr (rp_run_id r)), (''namespace'', JStr (rp_namespace r)),
     (''generated_at'', JStr (rp_generated_at r)), (''tables'', JList (map table_json (rp_tables r))),
     (''failures'', JList (map failure_json (rp_failures r))),
     (''sessions'', JList (map (\<lambda>(l, u). JObj [(''label'', JStr l), (''url'', JStr u)]) (rp_sessions r))),
     (''closes'', JBool (rp_closes r)), (''class_totals'', JList (map class_json (rp_classes r)))]"

definition to_json :: "report \<Rightarrow> string" where
  "to_json r = json_text 0 (report_json r) @ [CHR 0x0A]"

section \<open>CSV\<close>

text \<open>A field is quoted when it holds the delimiter, a quote or a line end.\<close>

definition csv_special :: "char \<Rightarrow> bool" where
  "csv_special c \<longleftrightarrow> c \<in> {CHR '','', CHR 0x22, CHR 0x0A, CHR 0x0D}"

definition csv_quoted :: "string \<Rightarrow> string" where
  "csv_quoted s = [CHR 0x22] @ concat (map (\<lambda>c. if c = CHR 0x22 then [CHR 0x22, CHR 0x22] else [c]) s) @ [CHR 0x22]"

definition csv_field :: "string \<Rightarrow> string" where
  "csv_field s = (if list_ex csv_special s then csv_quoted s else s)"

text \<open>\<open>writerow\<close>: a row of one empty field is written as two quotes.\<close>

definition csv_row :: "string list \<Rightarrow> string" where
  "csv_row fs = (if fs = [[]] then csv_quoted [] else py_join '','' (map csv_field fs)) @ [CHR 0x0D, CHR 0x0A]"

definition table_csv :: "table_line \<Rightarrow> string list" where
  "table_csv t = [''summary'', rt_table t, str_nat (rt_extracted t), str_nat (rt_loaded t), str_nat (rt_validated t),
     str_nat (rt_purged t), str_nat (rt_failed t)]"

definition failure_csv :: "failure_line \<Rightarrow> string list" where
  "failure_csv f = [''failure'', rf_table f, rf_source_key f, rf_rule f, stage_text (rf_stage f), text_or [] (rf_field f),
     text_or [] (rf_sqlstate f), rf_error f]"

definition csv_lines :: "report \<Rightarrow> string list list" where
  "csv_lines r = [''section'', ''table'', ''extracted'', ''loaded'', ''validated'', ''purged'', ''failed''] #
     map table_csv (rp_tables r) @ [[]] @
     [''section'', ''table'', ''source_key'', ''rule'', ''stage'', ''field'', ''sqlstate'', ''error''] #
     map failure_csv (rp_failures r)"

definition to_csv :: "report \<Rightarrow> string" where
  "to_csv r = concat (map csv_row (csv_lines r))"

text \<open>The reader: quoted fields with doubled quotes, rows that end in CR LF, an empty line is an empty row.\<close>

datatype csv_state = FieldStart | Plain | Quoted | AfterQuote

fun csv_read :: "csv_state \<Rightarrow> string \<Rightarrow> string list \<Rightarrow> string \<Rightarrow> string list list" where
  "csv_read m f r [] = (if m = FieldStart \<and> r = [] then [] else [r @ [f]])"
| "csv_read m f r (c # cs) =
     (if m = Quoted then (if c = CHR 0x22 then csv_read AfterQuote f r cs else csv_read Quoted (f @ [c]) r cs)
      else if m = FieldStart \<and> c = CHR 0x22 then csv_read Quoted f r cs
      else if m = AfterQuote \<and> c = CHR 0x22 then csv_read Quoted (f @ [c]) r cs
      else if c = CHR '','' then csv_read FieldStart [] (r @ [f]) cs
      else if c = CHR 0x0D \<and> cs \<noteq> [] \<and> hd cs = CHR 0x0A
        then (if m = FieldStart \<and> r = [] then [] else r @ [f]) # csv_read FieldStart [] [] (tl cs)
      else csv_read Plain (f @ [c]) r cs)"

definition read_csv :: "string \<Rightarrow> string list list" where
  "read_csv s = csv_read FieldStart [] [] s"

section \<open>HTML\<close>

definition html_tr :: "string \<Rightarrow> string option list \<Rightarrow> string" where
  "html_tr tag cells = ''<tr>'' @ concat (map (\<lambda>c. ''<'' @ tag @ ''>'' @
     html_escape (case c of None \<Rightarrow> [] | Some s \<Rightarrow> s) @ ''</'' @ tag @ ''>'') cells) @ ''</tr>''"

definition cell_nat :: "nat \<Rightarrow> string option" where
  "cell_nat n = Some (str_nat n)"

definition table_tr :: "table_line \<Rightarrow> string" where
  "table_tr t = html_tr ''td'' [Some (rt_table t), cell_nat (rt_extracted t), cell_nat (rt_loaded t), cell_nat (rt_validated t),
     cell_nat (rt_purged t), cell_nat (rt_failed t)]"

definition class_tr :: "class_line \<Rightarrow> string" where
  "class_tr c = html_tr ''td'' [Some (rc_table_name c), Some (rc_class c), cell_nat (rc_source_count c),
     cell_nat (rc_target_count c), rc_source_sum c, rc_target_sum c, Some (rc_status c)]"

definition failure_tr :: "failure_line \<Rightarrow> string" where
  "failure_tr f = html_tr ''td'' [Some (rf_table f), Some (rf_source_key f), Some (rf_rule f), Some (stage_text (rf_stage f)),
     rf_field f, rf_sqlstate f, map_option str_int (rf_native_error f), Some (rf_error f)]"

definition session_li :: "string \<times> string \<Rightarrow> string" where
  "session_li s = sq ''<li><a href=`'' @ html_escape (snd s) @ sq ''`>'' @ html_escape (fst s) @ ''</a></li>''"

definition html_head :: "report \<Rightarrow> string" where
  "html_head r = sq ''<!doctype html><html lang=`en`><head><meta charset=`utf-8`>'' @
     ''<title>Reconciliation '' @ html_escape (rp_run_id r) @ ''</title>'' @
     ''<style>body{font-family:system-ui,sans-serif;margin:2rem;color:#1f2328}table{border-collapse:collapse;'' @
     ''margin:1rem 0}th,td{border:1px solid #d0d7de;padding:.3rem .6rem;font-size:.9rem;text-align:left}'' @
     ''th{background:#f6f8fa}td.num{text-align:right}'' @
     ''.badge{display:inline-block;padding:.2rem .6rem;border-radius:1rem;color:#fff;font-weight:600}'' @
     ''code{font-family:ui-monospace,monospace}</style></head><body>''"

definition html_badge :: "report \<Rightarrow> string" where
  "html_badge r = ''<h1>Legacy data migration - reconciliation <code>'' @ html_escape (rp_run_id r) @ ''</code></h1>'' @
     ''<p>namespace <code>'' @ html_escape (rp_namespace r) @ ''</code> - '' @
     ''generated '' @ html_escape (rp_generated_at r) @ '' - '' @
     sq ''<span class=`badge` style=`background:'' @ (if rp_closes r then ''#1b7f3b'' else ''#b3261e'') @ sq ''`>'' @
     (if rp_closes r then ''CLOSED'' else ''FAILED'') @ ''</span></p>''"

definition html_classes :: "class_line list \<Rightarrow> string" where
  "html_classes cs = (if cs = [] then []
     else ''<h2>Counts and storage-charge totals by retention class</h2><table>'' @
       html_tr ''th'' (map Some [''table'', ''class'', ''source count'', ''target count'', ''source sum'', ''target sum'', ''status'']) @
       concat (map class_tr cs) @ ''</table>'')"

definition html_failures :: "failure_line list \<Rightarrow> string" where
  "html_failures fs = ''<h2>Failed rows ('' @ str_nat (length fs) @ '')</h2><table>'' @
     html_tr ''th'' (map Some [''table'', ''source key'', ''rule'', ''stage'', ''field'', ''SQLSTATE'', ''native'', ''error'']) @
     concat (map failure_tr fs)"

definition to_html :: "report \<Rightarrow> string" where
  "to_html r = html_head r @ html_badge r @ ''<h2>Summary</h2><table>'' @
     html_tr ''th'' (map Some [''table'', ''extracted'', ''loaded'', ''validated'', ''purged'', ''failed'']) @
     concat (map table_tr (rp_tables r)) @ ''</table>'' @ html_classes (rp_classes r) @ html_failures (rp_failures r) @
     ''</table><h2>Devin sessions</h2><ul>'' @ concat (map session_li (rp_sessions r)) @ ''</ul></body></html>'' @ [CHR 0x0A]"

section \<open>The CSV reads back\<close>

lemma csv_read_quoted:
  "csv_read Quoted f r (concat (map (\<lambda>c. if c = CHR 0x22 then [CHR 0x22, CHR 0x22] else [c]) s) @ CHR 0x22 # t) =
     csv_read AfterQuote (f @ s) r t"
  by (induction s arbitrary: f) auto

lemma csv_read_plain:
  "\<not> list_ex csv_special s \<Longrightarrow> csv_read Plain f r (s @ t) = csv_read Plain (f @ s) r t"
  by (induction s arbitrary: f) (auto simp: csv_special_def)

text \<open>A field that is followed by a delimiter or a line end.\<close>

definition ends_field :: "string \<Rightarrow> bool" where
  "ends_field t \<longleftrightarrow> (\<exists>u. t = CHR '','' # u \<or> t = CHR 0x0D # CHR 0x0A # u)"

lemma ends_field_after: "ends_field t \<Longrightarrow> m \<noteq> Quoted \<Longrightarrow> (m = FieldStart \<longrightarrow> r \<noteq> []) \<Longrightarrow>
    csv_read m f r t = csv_read AfterQuote f r t"
  by (auto simp: ends_field_def)

lemma csv_read_field:
  assumes "ends_field t" and "s = [] \<longrightarrow> r \<noteq> [] \<or> hd t = CHR '',''"
  shows "csv_read FieldStart [] r (csv_field s @ t) = csv_read AfterQuote s r t"
proof (cases "list_ex csv_special s")
  case True
  then show ?thesis by (simp add: csv_field_def csv_quoted_def csv_read_quoted)
next
  case False
  show ?thesis
  proof (cases s)
    case Nil
    with assms show ?thesis by (auto simp: csv_field_def ends_field_def)
  next
    case (Cons c cs)
    with False have "csv_read FieldStart [] r (s @ t) = csv_read Plain [c] r (cs @ t)"
      by (auto simp: csv_special_def)
    also have "\<dots> = csv_read Plain s r t"
      using False Cons csv_read_plain [of cs "[c]" r t] by simp
    also have "\<dots> = csv_read AfterQuote s r t"
      by (rule ends_field_after [OF assms(1)]) simp_all
    finally show ?thesis using False by (simp add: csv_field_def)
  qed
qed

lemma csv_read_fields:
  assumes "fs \<noteq> []" and "r = [] \<longrightarrow> fs \<noteq> [[]]"
  shows "csv_read FieldStart [] r (py_join '','' (map csv_field fs) @ CHR 0x0D # CHR 0x0A # t) =
    (r @ fs) # csv_read FieldStart [] [] t"
  using assms
proof (induction fs arbitrary: r)
  case Nil
  then show ?case by simp
next
  case (Cons f fs)
  show ?case
  proof (cases fs)
    case Nil
    have "csv_read FieldStart [] r (csv_field f @ CHR 0x0D # CHR 0x0A # t) = csv_read AfterQuote f r (CHR 0x0D # CHR 0x0A # t)"
      by (rule csv_read_field) (use Cons.prems Nil in \<open>auto simp: ends_field_def\<close>)
    with Nil show ?thesis by simp
  next
    case (Cons g gs)
    have "csv_read FieldStart [] r (csv_field f @ CHR '','' # py_join '','' (map csv_field fs) @ CHR 0x0D # CHR 0x0A # t) =
        csv_read AfterQuote f r (CHR '','' # py_join '','' (map csv_field fs) @ CHR 0x0D # CHR 0x0A # t)"
      by (rule csv_read_field) (auto simp: ends_field_def)
    also have "\<dots> = csv_read FieldStart [] (r @ [f]) (py_join '','' (map csv_field fs) @ CHR 0x0D # CHR 0x0A # t)" by simp
    also have "\<dots> = ((r @ [f]) @ fs) # csv_read FieldStart [] [] t"
      by (rule Cons.IH) (use Cons in auto)
    finally show ?thesis using Cons by simp
  qed
qed

lemma csv_read_row: "csv_read FieldStart [] [] (csv_row fs @ t) = fs # csv_read FieldStart [] [] t"
proof -
  consider "fs = []" | "fs = [[]]" | "fs \<noteq> []" "fs \<noteq> [[]]" by blast
  then show ?thesis
    by cases (simp_all add: csv_row_def csv_quoted_def csv_read_fields)
qed

text \<open>The CSV report reads back to exactly its lines, whatever commas, quotes and line ends
  keys and error texts hold.\<close>

theorem csv_report_roundtrip: "read_csv (to_csv r) = csv_lines r"
proof -
  have "csv_read FieldStart [] [] (concat (map csv_row xs)) = xs" for xs
    by (induction xs) (simp_all add: csv_read_row)
  then show ?thesis by (simp add: read_csv_def to_csv_def)
qed

section \<open>Data adds no markup to the HTML\<close>

lemma filter_concat_const:
  "(\<And>x. filter p (f x) = K) \<Longrightarrow> filter p (concat (map f xs)) = concat (replicate (length xs) K)"
  by (induction xs) simp_all

lemma html_tr_markup:
  assumes "length cs = length ds"
  shows "filter markup (html_tr tag cs) = filter markup (html_tr tag ds)"
proof -
  let ?K = "filter markup (''<'' @ tag @ ''>'') @ filter markup (''</'' @ tag @ ''>'')"
  have "filter markup (concat (map (\<lambda>c. ''<'' @ tag @ ''>'' @ html_escape (case c of None \<Rightarrow> [] | Some s \<Rightarrow> s) @
      ''</'' @ tag @ ''>'') xs)) = concat (replicate (length xs) ?K)" for xs :: "string option list"
    by (rule filter_concat_const) (simp only: filter_append append_assoc html_escape_no_markup append_Nil)
  then show ?thesis unfolding html_tr_def by (simp only: filter_append assms)
qed

lemma filter_rows:
  assumes "\<And>x. x \<in> set xs \<Longrightarrow> filter p (f x) = filter p (f (g x))"
  shows "filter p (concat (map f xs)) = filter p (concat (map f (map g xs)))"
  using assms by (induction xs) auto

text \<open>The report with every text blanked.\<close>

definition blank :: "report \<Rightarrow> report" where
  "blank r = r\<lparr>rp_run_id := [], rp_namespace := [], rp_generated_at := [],
     rp_tables := map (\<lambda>t. t\<lparr>rt_table := []\<rparr>) (rp_tables r),
     rp_failures := map (\<lambda>f. f\<lparr>rf_table := [], rf_source_key := [], rf_rule := [], rf_field := None, rf_sqlstate := None,
       rf_error := []\<rparr>) (rp_failures r),
     rp_sessions := map (\<lambda>_. ([], [])) (rp_sessions r),
     rp_classes := map (\<lambda>c. c\<lparr>rc_table_name := [], rc_class := [], rc_source_sum := None, rc_target_sum := None,
       rc_status := []\<rparr>) (rp_classes r)\<rparr>"

lemma blank_simps [simp]:
  "rp_run_id (blank r) = []" "rp_namespace (blank r) = []" "rp_generated_at (blank r) = []" "rp_closes (blank r) = rp_closes r"
  "rp_tables (blank r) = map (\<lambda>t. t\<lparr>rt_table := []\<rparr>) (rp_tables r)"
  "rp_failures (blank r) = map (\<lambda>f. f\<lparr>rf_table := [], rf_source_key := [], rf_rule := [], rf_field := None,
     rf_sqlstate := None, rf_error := []\<rparr>) (rp_failures r)"
  "rp_sessions (blank r) = map (\<lambda>_. ([], [])) (rp_sessions r)"
  "rp_classes (blank r) = map (\<lambda>c. c\<lparr>rc_table_name := [], rc_class := [], rc_source_sum := None, rc_target_sum := None,
     rc_status := []\<rparr>) (rp_classes r)"
  by (simp_all add: blank_def)

text \<open>The tags and quotes of the HTML report are those of its template: names, keys, error texts,
  labels and links of the data contribute none.\<close>

theorem html_report_markup: "filter markup (to_html r) = filter markup (to_html (blank r))"
proof -
  have tables: "filter markup (concat (map table_tr (rp_tables r))) = filter markup (concat (map table_tr (rp_tables (blank r))))"
    unfolding blank_simps by (rule filter_rows) (auto simp: table_tr_def intro: html_tr_markup)
  have classes: "filter markup (concat (map class_tr (rp_classes r))) = filter markup (concat (map class_tr (rp_classes (blank r))))"
    unfolding blank_simps by (rule filter_rows) (auto simp: class_tr_def intro: html_tr_markup)
  have failures: "filter markup (concat (map failure_tr (rp_failures r))) = filter markup (concat (map failure_tr (rp_failures (blank r))))"
    unfolding blank_simps by (rule filter_rows) (auto simp: failure_tr_def intro: html_tr_markup)
  have sessions: "filter markup (concat (map session_li (rp_sessions r))) = filter markup (concat (map session_li (rp_sessions (blank r))))"
    unfolding blank_simps by (rule filter_rows) (auto simp: session_li_def)
  have head: "filter markup (html_head r) = filter markup (html_head (blank r))"
    by (simp only: html_head_def filter_append html_escape_no_markup)
  have badge: "filter markup (html_badge r) = filter markup (html_badge (blank r))"
    by (simp only: html_badge_def filter_append html_escape_no_markup blank_simps)
  have "(rp_classes (blank r) = []) = (rp_classes r = [])" "length (rp_failures (blank r)) = length (rp_failures r)"
    by simp_all
  then have "filter markup (html_classes (rp_classes r)) = filter markup (html_classes (rp_classes (blank r)))"
    "filter markup (html_failures (rp_failures r)) = filter markup (html_failures (rp_failures (blank r)))"
    by (simp_all only: html_classes_def html_failures_def filter_append classes failures if_distrib [of "filter markup"] cong: if_cong)
  with tables sessions head badge show ?thesis by (simp only: to_html_def filter_append)
qed

end
