(* ===== verification/Ldm_Reconcile.thy ===== *)
theory Ldm_Reconcile
  imports Ldm_Extract Ldm_Report
begin

text \<open>
  The RECONCILE stage (\<open>migration/job/ldm/stages/reconcile.py\<close>): session links, the closing
  arithmetic of a ledger row, the report and its files, and the closing of the run. The YAML
  session files that the glob pattern finds, the process environment and the clock are arguments.
\<close>

section \<open>Session links\<close>

text \<open>A parsed session file: a list of entries, each a mapping or something else, or no list at all.\<close>

datatype session_entry = SessionMap "(string \<times> string) list" | NotAMap

datatype session_doc = SessionList "session_entry list" | NotAList

definition entry_link :: "session_entry \<Rightarrow> ldm_error + (string \<times> string)" where
  "entry_link e = (case e of
       SessionMap m \<Rightarrow> (case (map_of m ''label'', map_of m ''url'') of
           (Some l, Some u) \<Rightarrow> Inr (l, u)
         | _ \<Rightarrow> Inl (ConfigError ''session file: every entry needs label and url''))
     | NotAMap \<Rightarrow> Inl (ConfigError ''session file: every entry needs label and url''))"

definition doc_links :: "session_doc \<Rightarrow> ldm_error + (string \<times> string) list" where
  "doc_links d = (case d of
       SessionList es \<Rightarrow> mapE entry_link es
     | NotAList \<Rightarrow> Inl (ConfigError ''session file: expected a YAML list of label and url entries''))"

definition env_link :: "string \<Rightarrow> ldm_error + (string \<times> string)" where
  "env_link item = (case split_once (CHR ''='') item of
       (l, Some u) \<Rightarrow> if u = [] then Inl (ConfigError ''DEVIN_SESSION_LINKS entry is not label=url'')
                     else Inr (py_strip l, py_strip u)
     | (_, None) \<Rightarrow> Inl (ConfigError ''DEVIN_SESSION_LINKS entry is not label=url''))"

definition load_session_links ::
  "(string \<times> session_doc) list \<Rightarrow> (string \<times> string) list \<Rightarrow> run_context \<Rightarrow> ldm_error + (string \<times> string) list" where
  "load_session_links docs os_env ctx =
     bindE (mapE (\<lambda>(path, d). doc_links d) (sort_key fst docs)) (\<lambda>files.
     let raw = text_or (text_or [] (map_of os_env ''DEVIN_SESSION_LINKS'')) (map_of (rc_env ctx) ''DEVIN_SESSION_LINKS'');
         items = filter (\<lambda>p. p \<noteq> []) (map py_strip (split_by (\<lambda>c. c = CHR '','') raw)) in
     bindE (mapE env_link items) (\<lambda>links. Inr (concat files @ links)))"

section \<open>The closing arithmetic\<close>

definition opt_nat_text :: "nat option \<Rightarrow> string" where
  "opt_nat_text x = (case x of None \<Rightarrow> ''None'' | Some n \<Rightarrow> str_nat n)"

definition table_closes :: "ledger_row \<Rightarrow> bool \<Rightarrow> bool \<times> string option" where
  "table_closes row purge_enabled =
     (let ext = int_default (- 1) (lr_extracted row); loaded = int_default (- 1) (lr_loaded row);
          rejected = int_default 0 (lr_rejected row); validated = int_default 0 (lr_validated row);
          vfailed = int_default 0 (lr_validate_failed row); purged = int_default 0 (lr_purged row);
          intended = int_default (- 1) (lr_purge_intended row); loaded0 = int_default 0 (lr_loaded row) in
      if ext \<noteq> loaded0 + rejected
      then (False, Some (''extracted '' @ str_int ext @ '' != loaded '' @ str_int loaded0 @ '' + rejected '' @ str_int rejected))
      else if loaded \<noteq> validated + vfailed
      then (False, Some (''loaded '' @ str_int loaded @ '' != validated '' @ str_int validated @ '' + validate_failed '' @
             str_int vfailed))
      else if lr_role row = ReferenceTable
      then (if purged \<noteq> 0 then (False, Some (''reference table purged '' @ str_int purged @ '' != 0'')) else (True, None))
      else if purge_enabled
      then (if int_default (- 1) (lr_purged row) \<noteq> validated
            then (False, Some (''purged '' @ opt_nat_text (lr_purged row) @ '' != validated '' @ str_int validated))
            else (True, None))
      else if intended \<noteq> validated \<or> purged \<noteq> 0
      then (False, Some (''dry run: purge_intended '' @ str_int intended @ '' != validated '' @ str_int validated @
             '' or purged '' @ str_int purged @ '' != 0''))
      else (True, None))"

section \<open>The report\<close>

definition nat_or_zero :: "nat option \<Rightarrow> nat" where
  "nat_or_zero x = (case x of None \<Rightarrow> 0 | Some n \<Rightarrow> n)"

definition ledger_in_order :: "(string \<times> ledger_row) list \<Rightarrow> ledger_row list" where
  "ledger_in_order led = sort_key lr_order (map snd led)"

definition table_line_of :: "ledger_row \<Rightarrow> table_line" where
  "table_line_of row = \<lparr>rt_table = lr_table row, rt_extracted = nat_or_zero (lr_extracted row),
     rt_loaded = nat_or_zero (lr_loaded row), rt_validated = nat_or_zero (lr_validated row),
     rt_purged = nat_or_zero (lr_purged row),
     rt_failed = nat_or_zero (lr_rejected row) + nat_or_zero (lr_validate_failed row)\<rparr>"

definition failure_line_of :: "failure_row \<Rightarrow> failure_line" where
  "failure_line_of f = \<lparr>rf_table = fr_table f, rf_source_key = rstrip_sp (fr_source_key f), rf_rule = fr_rule f,
     rf_stage = fr_stage f, rf_field = fr_field f, rf_sqlstate = fr_sqlstate f, rf_native_error = fr_native_error f,
     rf_error = fr_error f\<rparr>"

definition class_line_of :: "class_total_row \<Rightarrow> ldm_error + class_line" where
  "class_line_of c = bindE (dec8 (cl_source_sum c)) (\<lambda>s. bindE (dec8 (cl_target_sum c)) (\<lambda>t.
     Inr \<lparr>rc_table_name = cl_table c, rc_class = cl_class c, rc_source_count = cl_source_count c,
          rc_target_count = cl_target_count c, rc_source_sum = s, rc_target_sum = t,
          rc_status = (if cl_match c then ''MATCH'' else ''MISMATCH'')\<rparr>))"

definition build_report ::
  "'t target_ops \<Rightarrow> (run_context \<Rightarrow> ldm_error + (string \<times> string) list) \<Rightarrow> string \<Rightarrow> run_context \<Rightarrow> bool \<Rightarrow>
   (('s, 't, 'b) world, ldm_error, report) prog" where
  "build_report T links now ctx closes =
     bindP (onT (to_get_ledger T (rc_key ctx))) (\<lambda>led.
     bindP (onT (to_failures T (rc_key ctx))) (\<lambda>fails.
     bindP (liftP (links ctx)) (\<lambda>sessions.
     bindP (onT (to_get_class_totals T (rc_key ctx))) (\<lambda>totals.
     bindP (liftP (mapE class_line_of totals)) (\<lambda>classes.
     retP \<lparr>rp_run_id = rc_run_id ctx, rp_namespace = m_namespace (rc_manifest ctx), rp_generated_at = now,
           rp_tables = map table_line_of (ledger_in_order led),
           rp_failures = map failure_line_of (sort_key fr_table (sort_key fr_source_key fails)),
           rp_sessions = sessions, rp_closes = closes, rp_classes = classes\<rparr>)))))"

definition renderings :: "report \<Rightarrow> (string \<times> string \<times> string) list" where
  "renderings r = [(''reconciliation.json'', to_json r, ''application/json''),
     (''reconciliation.csv'', to_csv r, ''text/csv; charset=utf-8''),
     (''reconciliation.html'', to_html r, ''text/html; charset=utf-8'')]"

definition write_report_files ::
  "'b blob_ops \<Rightarrow> run_context \<Rightarrow> report \<Rightarrow> (('s, 't, 'b) world, ldm_error, (string \<times> string) list) prog" where
  "write_report_files B ctx r =
     bindP (liftP (blob_prefix ctx)) (\<lambda>p.
     mapP (\<lambda>(name, txt, ctype). let path = path_join (path_join (rc_local_dir ctx) p) name; data = utf8 txt in
       thenP (put_file path data)
      (thenP (onF (bo_upload_bytes B data (p @ name) ctype))
      (retP (name, path)))) (renderings r))"

section \<open>Closing the run\<close>

definition line_counts :: "table_line \<Rightarrow> counts" where
  "line_counts t = [(''extracted'', int (rt_extracted t)), (''loaded'', int (rt_loaded t)),
     (''validated'', int (rt_validated t)), (''purged'', int (rt_purged t)), (''failed'', int (rt_failed t))]"

definition report_counts :: "report \<Rightarrow> (string \<times> counts) list" where
  "report_counts r = foldl (\<lambda>out t. dict_set (rt_table t) (line_counts t) out) [] (rp_tables r)"

definition all_close :: "run_context \<Rightarrow> (string \<times> ledger_row) list \<Rightarrow> bool" where
  "all_close ctx led \<longleftrightarrow> list_all (\<lambda>row. fst (table_closes row (m_purge (rc_manifest ctx)))) (ledger_in_order led)"

definition close_run ::
  "'t target_ops \<Rightarrow> 'b blob_ops \<Rightarrow> (run_context \<Rightarrow> ldm_error + (string \<times> string) list) \<Rightarrow> string \<Rightarrow> run_context \<Rightarrow>
   (('s, 't, 'b) world, ldm_error, bool \<times> report) prog" where
  "close_run T B links now ctx =
     bindP (liftP (links ctx)) (\<lambda>sessions.
     thenP (onT (to_insert_run_sessions T (rc_key ctx) sessions))
    (bindP (onT (to_get_ledger T (rc_key ctx))) (\<lambda>led.
     let closes = all_close ctx led in
     bindP (build_report T links now ctx closes) (\<lambda>r.
     thenP (write_report_files B ctx r)
    (thenP (if closes then onT (to_delete_staging_run T (rc_key ctx)) else retP ())
    (thenP (onT (to_set_run_status T (rc_key ctx) (if closes then RunClosed else RunFailed)
              (Some (if closes then EXIT_OK else EXIT_RECONCILE))))
    (retP (closes, r))))))))"

definition reconcile_run ::
  "'t target_ops \<Rightarrow> 'b blob_ops \<Rightarrow> (run_context \<Rightarrow> ldm_error + (string \<times> string) list) \<Rightarrow> string \<Rightarrow> run_context \<Rightarrow>
   (('s, 't, 'b) world, ldm_error, (string \<times> counts) list) prog" where
  "reconcile_run T B links now ctx =
     bindP (logged T (rc_key ctx) Reconcile None (close_run T B links now ctx)
              (\<lambda>(closes, r). if closes then (LogOK, None, None) else (LogFailed, None, Some ''run does not close'')))
       (\<lambda>(closes, r).
         if closes then retP (report_counts r)
         else raiseP (ReconcileError ''run does not close: see table lines above'' (report_counts r)))"

section \<open>The arithmetic as an identity\<close>

text \<open>
  \<open>accounted\<close>: every extracted row was loaded or rejected, every loaded row validated or failed,
  and what was validated was purged (or would have been, in a dry run); reference tables lose nothing.
\<close>

definition accounted :: "bool \<Rightarrow> ledger_row \<Rightarrow> bool" where
  "accounted purge_enabled row \<longleftrightarrow> (\<exists>loaded. lr_loaded row = Some loaded \<and>
     lr_extracted row = Some (loaded + nat_or_zero (lr_rejected row)) \<and>
     loaded = nat_or_zero (lr_validated row) + nat_or_zero (lr_validate_failed row)) \<and>
     (if lr_role row = ReferenceTable then nat_or_zero (lr_purged row) = 0
      else if purge_enabled then lr_purged row = Some (nat_or_zero (lr_validated row))
      else lr_purge_intended row = Some (nat_or_zero (lr_validated row)) \<and> nat_or_zero (lr_purged row) = 0)"

lemma int_default_simps:
  "int_default 0 x = int (nat_or_zero x)" "(int_default (- 1) x = int n) = (x = Some n)"
  by (auto simp: int_default_def nat_or_zero_def split: option.split)

lemma int_default_sum: "(int_default (- 1) x = int a + int b) = (x = Some (a + b))"
  using int_default_simps(2) [of x "a + b"] by simp

text \<open>A ledger row closes exactly when its counts account for every extracted row.\<close>

theorem table_closes_iff_accounted: "fst (table_closes row purge_enabled) \<longleftrightarrow> accounted purge_enabled row"
proof (cases "lr_loaded row")
  case None
  then show ?thesis
    by (simp add: table_closes_def Let_def accounted_def int_default_simps int_default_sum)
next
  case (Some l)
  have "(int l = int a + int b) = (l = a + b)" for a b by linarith
  with Some show ?thesis
    by (auto simp: table_closes_def Let_def accounted_def int_default_simps int_default_sum) (auto simp: nat_or_zero_def int_default_def)
qed

lemma accounted_rows:
  assumes "accounted True row" and "lr_role row = DataTable"
  shows "lr_extracted row = Some (nat_or_zero (lr_purged row) + nat_or_zero (lr_validate_failed row) + nat_or_zero (lr_rejected row))"
  using assms by (auto simp: accounted_def nat_or_zero_def)

lemma all_close_iff: "all_close ctx led \<longleftrightarrow> (\<forall>row \<in> snd ` set led. accounted (m_purge (rc_manifest ctx)) row)"
  by (auto simp: all_close_def ledger_in_order_def list_all_iff table_closes_iff_accounted)

section \<open>The contract of the target\<close>

record close_view =
  ov_ledger :: "run_key \<Rightarrow> (string \<times> ledger_row) list"
  ov_staged :: "run_key \<Rightarrow> string \<Rightarrow> staged_row list"
  ov_status :: "run_key \<Rightarrow> (run_status \<times> int option) option"

locale closing_target =
  fixes T :: "'t target_ops" and view :: "'t \<Rightarrow> close_view"
  assumes get_ledger: "reads view (to_get_ledger T k) (\<lambda>v. ov_ledger v k)"
    and failures: "quiet view (to_failures T k)"
    and class_totals: "quiet view (to_get_class_totals T k)"
    and run_sessions: "quiet view (to_insert_run_sessions T k links)"
    and log_start: "quiet view (to_log_start T k st tab)"
    and log_finish: "quiet view (to_log_finish T i ls rc msg)"
    and delete_staging: "to_delete_staging_run T k t = (Inr u, t') \<Longrightarrow>
      view t' = (view t)\<lparr>ov_staged := (ov_staged (view t))(k := \<lambda>_. [])\<rparr>"
    and delete_fails: "to_delete_staging_run T k t = (Inl e, t') \<Longrightarrow> view t' = view t"
    and set_status: "to_set_run_status T k s c t = (Inr u, t') \<Longrightarrow>
      view t' = (view t)\<lparr>ov_status := (ov_status (view t))(k \<mapsto> (s, c))\<rparr>"
    and status_fails: "to_set_run_status T k s c t = (Inl e, t') \<Longrightarrow> view t' = view t"
begin

lemma onT_quiet: "quiet view m \<Longrightarrow> onT m w = (r, w') \<Longrightarrow> view (w_target w') = view (w_target w)"
  by (auto simp: onT_step dest: quietD)

lemma quiet_keeps_view: "quiet view m \<Longrightarrow> keeps (\<lambda>w. J (view (w_target w))) (onT m)"
  by (rule keepsI) (simp add: onT_quiet)

lemma files_keep_view: "keeps (\<lambda>w. J (view (w_target w))) (write_report_files B ctx r)"
proof -
  have "keeps (\<lambda>w. J (view (w_target w))) (put_file p d)" for p d
    by (rule keepsI) (auto simp: put_file_def)
  moreover have "keeps (\<lambda>w. J (view (w_target w))) (onF m)" for m
    by (rule keepsI) (auto simp: onF_def split: prod.splits)
  ultimately show ?thesis
    unfolding write_report_files_def
    by (intro keeps_bind keeps_basic keeps_map) (auto simp: Let_def intro!: keeps_then keeps_basic split: prod.split)
qed

lemma onT_reads:
  "reads view m f \<Longrightarrow> onT m w = (Inr a, w') \<Longrightarrow> view (w_target w') = view (w_target w) \<and> a = f (view (w_target w))"
  by (auto simp: onT_step dest: readsD)

lemma build_report_view: "keeps (\<lambda>w. J (view (w_target w))) (build_report T links now ctx closes)"
  unfolding build_report_def
  by (intro keeps_bind keeps_basic quiet_keeps_view reads_quiet [OF get_ledger] failures class_totals)

lemma build_report_value:
  assumes "build_report T links now ctx closes w = (Inr r, w')"
  shows "view (w_target w') = view (w_target w) \<and> rp_closes r = closes \<and>
    rp_tables r = map table_line_of (ledger_in_order (ov_ledger (view (w_target w)) (rc_key ctx)))"
  using assms
  by (auto simp: build_report_def bindP_Inr dest!: onT_reads [OF get_ledger] onT_quiet [OF failures] onT_quiet [OF class_totals])

definition closed_view :: "run_context \<Rightarrow> close_view \<Rightarrow> close_view" where
  "closed_view ctx v = v\<lparr>ov_staged := (ov_staged v)(rc_key ctx := \<lambda>_. []),
     ov_status := (ov_status v)(rc_key ctx \<mapsto> (RunClosed, Some EXIT_OK))\<rparr>"

definition failed_view :: "run_context \<Rightarrow> close_view \<Rightarrow> close_view" where
  "failed_view ctx v = v\<lparr>ov_status := (ov_status v)(rc_key ctx \<mapsto> (RunFailed, Some EXIT_RECONCILE))\<rparr>"

lemma close_run_value:
  assumes "close_run T B links now ctx w = (Inr (closes, r), w')"
  shows "closes = all_close ctx (ov_ledger (view (w_target w)) (rc_key ctx)) \<and>
    view (w_target w') = (if closes then closed_view ctx (view (w_target w)) else failed_view ctx (view (w_target w))) \<and>
    rp_tables r = map table_line_of (ledger_in_order (ov_ledger (view (w_target w)) (rc_key ctx)))"
proof -
  let ?v = "view (w_target w)"
  from assms obtain sessions u1 w1 led w2 w3 u4 w4 u5 w5 u6
    where s: "onT (to_insert_run_sessions T (rc_key ctx) sessions) w = (Inr u1, w1)"
      and l: "onT (to_get_ledger T (rc_key ctx)) w1 = (Inr led, w2)"
      and c: "closes = all_close ctx led"
      and b: "build_report T links now ctx closes w2 = (Inr r, w3)"
      and f: "write_report_files B ctx r w3 = (Inr u4, w4)"
      and d: "(if closes then onT (to_delete_staging_run T (rc_key ctx)) else retP ()) w4 = (Inr u5, w5)"
      and st: "onT (to_set_run_status T (rc_key ctx) (if closes then RunClosed else RunFailed)
              (Some (if closes then EXIT_OK else EXIT_RECONCILE))) w5 = (Inr u6, w')"
    by (auto simp: close_run_def bindP_Inr thenP_Inr Let_def)
  from onT_quiet [OF run_sessions s] onT_reads [OF get_ledger l] build_report_value [OF b]
  have v3: "view (w_target w3) = ?v" and led: "led = ov_ledger ?v (rc_key ctx)"
    and tables: "rp_tables r = map table_line_of (ledger_in_order (ov_ledger ?v (rc_key ctx)))" by auto
  have v4: "view (w_target w4) = ?v"
    using keepsD [OF files_keep_view [where J = "\<lambda>v. v = ?v"] _ f] v3 by simp
  show ?thesis
    using v4 led tables c d st
    by (auto simp: closed_view_def failed_view_def onT_step dest!: set_status delete_staging split: if_splits)
qed

text \<open>The stage in a run whose ledger does not account for every row.\<close>

definition unclosed :: "run_context \<Rightarrow> close_view \<Rightarrow> close_view \<Rightarrow> bool" where
  "unclosed ctx v0 v \<longleftrightarrow> v = v0 \<or> v = failed_view ctx v0"

lemma close_run_unclosed:
  assumes "\<not> all_close ctx (ov_ledger v0 (rc_key ctx))"
  shows "hoare (\<lambda>w. view (w_target w) = v0) (close_run T B links now ctx) (\<lambda>_ w. unclosed ctx v0 (view (w_target w)))
    (\<lambda>_ w. unclosed ctx v0 (view (w_target w)))"
proof -
  let ?I = "\<lambda>w. view (w_target w) = v0" and ?U = "\<lambda>w. unclosed ctx v0 (view (w_target w))"
  have look: "keeps ?I m \<Longrightarrow> hoare ?I m (\<lambda>_. ?I) (\<lambda>_. ?U)" for m :: "(('s, 't, 'b) world, ldm_error, 'x) prog"
    unfolding keeps_def by (erule hoare_conseq) (auto simp: unclosed_def)
  have led: "hoare ?I (onT (to_get_ledger T (rc_key ctx))) (\<lambda>led w. ?I w \<and> led = ov_ledger v0 (rc_key ctx)) (\<lambda>_. ?U)"
    by (rule hoareI) (auto simp: unclosed_def dest: onT_reads [OF get_ledger] onT_quiet [OF reads_quiet [OF get_ledger]])
  have st: "hoare ?I (onT (to_set_run_status T (rc_key ctx) RunFailed (Some EXIT_RECONCILE))) (\<lambda>_. ?U) (\<lambda>_. ?U)"
    by (rule hoareI) (auto simp: unclosed_def failed_view_def onT_step dest: set_status status_fails)
  show ?thesis
    unfolding close_run_def
  proof (rule hoare_bind [OF look [OF keeps_basic(4)]], rule hoare_then [OF look [OF quiet_keeps_view [OF run_sessions]]],
      rule hoare_bind [OF led], rule hoare_pure_pre)
    fix led
    assume "led = ov_ledger v0 (rc_key ctx)"
    then have "\<not> all_close ctx led" using assms by simp
    then show "hoare ?I (let closes = all_close ctx led in
        bindP (build_report T links now ctx closes) (\<lambda>r. thenP (write_report_files B ctx r)
          (thenP (if closes then onT (to_delete_staging_run T (rc_key ctx)) else retP ())
          (thenP (onT (to_set_run_status T (rc_key ctx) (if closes then RunClosed else RunFailed)
              (Some (if closes then EXIT_OK else EXIT_RECONCILE)))) (retP (closes, r)))))) (\<lambda>_. ?U) (\<lambda>_. ?U)"
      unfolding Let_def
      by (simp, intro hoare_bind [OF look [OF build_report_view [where J = "\<lambda>v. v = v0"]]] hoare_then [OF look [OF files_keep_view [where J = "\<lambda>v. v = v0"]]]
          hoare_then [OF look [OF keeps_basic(1)]] hoare_then [OF st] hoare_ret) simp_all
  qed
qed

lemma reconcile_closes:
  assumes "reconcile_run T B links now ctx w = (Inr out, w')"
  shows "all_close ctx (ov_ledger (view (w_target w)) (rc_key ctx)) \<and> view (w_target w') = closed_view ctx (view (w_target w)) \<and>
    (\<exists>r. out = report_counts r \<and> rp_tables r = map table_line_of (ledger_in_order (ov_ledger (view (w_target w)) (rc_key ctx))))"
proof -
  from assms obtain r where run: "logged T (rc_key ctx) Reconcile None (close_run T B links now ctx)
      (\<lambda>(closes, r). if closes then (LogOK, None, None) else (LogFailed, None, Some ''run does not close'')) w = (Inr (True, r), w')"
    and out: "out = report_counts r"
    by (auto simp: reconcile_run_def bindP_Inr split: if_splits)
  from run obtain i w1 u2 w2 where s: "onT (to_log_start T (rc_key ctx) Reconcile None) w = (Inr i, w1)"
    and body: "tryP (close_run T B links now ctx) (\<lambda>e. thenP (onT (to_log_finish T i LogFailed None (Some (take 4000 (error_text e)))))
      (raiseP e)) w1 = (Inr (True, r), w2)"
    and f: "onT (to_log_finish T i LogOK None None) w2 = (Inr u2, w')"
    unfolding logged_def bindP_Inr by (auto simp: bindP_Inr thenP_Inr split: if_splits)
  from tryP_reraise [OF body then_raise_not_Inr] have "close_run T B links now ctx w1 = (Inr (True, r), w2)" .
  from close_run_value [OF this] onT_quiet [OF log_start s] onT_quiet [OF log_finish f] out show ?thesis by auto
qed

lemma reconcile_unclosed:
  assumes "\<not> all_close ctx (ov_ledger v0 (rc_key ctx))"
  shows "hoare (\<lambda>w. view (w_target w) = v0) (reconcile_run T B links now ctx) (\<lambda>_ _. False)
    (\<lambda>_ w. unclosed ctx v0 (view (w_target w)))"
proof (rule hoareI)
  fix w out w'
  assume "view (w_target w) = v0" and "reconcile_run T B links now ctx w = (Inr out, w')"
  with reconcile_closes [of B links now ctx w out w'] assms show False by simp
next
  fix w e w'
  assume v: "view (w_target w) = v0" and run: "reconcile_run T B links now ctx w = (Inl e, w')"
  let ?L = "logged T (rc_key ctx) Reconcile None (close_run T B links now ctx)
      (\<lambda>(closes, r). if closes then (LogOK, None, None) else (LogFailed, None, Some ''run does not close''))"
  have fin: "hoare (\<lambda>w. unclosed ctx v0 (view (w_target w))) (onT (to_log_finish T i ls rc msg))
      (\<lambda>_ w. unclosed ctx v0 (view (w_target w))) (\<lambda>_ w. unclosed ctx v0 (view (w_target w)))" for i ls rc msg
    using quiet_keeps_view [OF log_finish] unfolding keeps_def by blast
  have start: "hoare (\<lambda>w. view (w_target w) = v0) (onT (to_log_start T (rc_key ctx) Reconcile None))
      (\<lambda>_ w. view (w_target w) = v0) (\<lambda>_ w. unclosed ctx v0 (view (w_target w)))"
    by (rule hoareI) (auto simp: unclosed_def dest: onT_quiet [OF log_start])
  have "hoare (\<lambda>w. view (w_target w) = v0) ?L (\<lambda>_ w. unclosed ctx v0 (view (w_target w)))
      (\<lambda>_ w. unclosed ctx v0 (view (w_target w)))"
    unfolding logged_def
    by (rule hoare_bind [OF start], rule hoare_bind [OF hoare_try [OF close_run_unclosed [OF assms]]],
        rule hoare_then [OF fin], rule hoare_raise, assumption)
      (auto split: prod.split intro!: hoare_then [OF fin] hoare_ret)
  then have "unclosed ctx v0 (view (w_target w''))" if "?L w = (x, w'')" for x w''
    using v that by (cases x) (auto dest: hoare_retD hoare_raiseD)
  moreover from run obtain x where "?L w = (x, w')"
    by (auto simp: reconcile_run_def bindP_eval split: prod.splits sum.splits if_splits)
  ultimately show "unclosed ctx v0 (view (w_target w'))" by blast
qed

end

section \<open>Reconciliation on the in-memory target\<close>

definition ft_ledger_rows :: "fake_target \<Rightarrow> run_key \<Rightarrow> (string \<times> ledger_row) list" where
  "ft_ledger_rows t k = (case ft_ledger t k of None \<Rightarrow> [] | Some l \<Rightarrow> l)"

definition ft_run_state :: "fake_target \<Rightarrow> run_key \<Rightarrow> (run_status \<times> int option) option" where
  "ft_run_state t k = map_option (\<lambda>r. (ru_status r, ru_exit_code r)) (ft_runs t k)"

definition ft_close_view :: "fake_target \<Rightarrow> close_view" where
  "ft_close_view t = \<lparr>ov_ledger = ft_ledger_rows t, ov_staged = ft_stg t, ov_status = ft_run_state t\<rparr>"

lemma staged_by_run_frame [simp]:
  "staged_by (t\<lparr>ft_runs := a\<rparr>) = staged_by t" "staged_by (t\<lparr>ft_next_log := n\<rparr>) = staged_by t"
  "staged_by (t\<lparr>ft_stage_log := b\<rparr>) = staged_by t" "staged_by (t\<lparr>ft_staging := c\<rparr>) = staged_by t"
  by (simp_all add: staged_by_def fun_eq_iff split: option.split)

lemma ft_stg_frame [simp]:
  "ft_stg (t\<lparr>ft_runs := a\<rparr>) = ft_stg t" "ft_stg (t\<lparr>ft_next_log := n\<rparr>) = ft_stg t"
  "ft_stg (t\<lparr>ft_stage_log := b\<rparr>) = ft_stg t"
  by (simp_all add: ft_stg_def fun_eq_iff)

lemma ft_ledger_frame [simp]:
  "ft_ledger_rows (t\<lparr>ft_runs := a\<rparr>) = ft_ledger_rows t"
  "ft_ledger_rows (t\<lparr>ft_next_log := n\<rparr>) = ft_ledger_rows t"
  "ft_ledger_rows (t\<lparr>ft_stage_log := b\<rparr>) = ft_ledger_rows t" "ft_ledger_rows (t\<lparr>ft_staging := c\<rparr>) = ft_ledger_rows t"
  by (simp_all add: ft_ledger_rows_def fun_eq_iff)

lemma ft_run_state_frame [simp]:
  "ft_run_state (t\<lparr>ft_next_log := n\<rparr>) = ft_run_state t"
  "ft_run_state (t\<lparr>ft_stage_log := b\<rparr>) = ft_run_state t" "ft_run_state (t\<lparr>ft_staging := c\<rparr>) = ft_run_state t"
  by (simp_all add: ft_run_state_def fun_eq_iff)

lemma ft_run_state_upd [simp]:
  "ft_run_state (t\<lparr>ft_runs := (ft_runs t)(k \<mapsto> r)\<rparr>) = (ft_run_state t)(k \<mapsto> (ru_status r, ru_exit_code r))"
  by (simp add: ft_run_state_def fun_eq_iff)

lemma ft_run_state_idem: "ft_runs t k = Some r \<Longrightarrow> (ft_run_state t)(k \<mapsto> (ru_status r, ru_exit_code r)) = ft_run_state t"
  by (rule fun_upd_idem) (simp add: ft_run_state_def)

lemma filter_other: "k' \<noteq> k \<Longrightarrow> filter (\<lambda>r. f r \<noteq> Some k \<and> f r = Some k') xs = filter (\<lambda>r. f r = Some k') xs"
  by (induction xs) auto

lemma ft_stg_delete_run:
  "snd (ft_delete_staging_run k t) = t' \<Longrightarrow> ft_stg t' = (ft_stg t)(k := \<lambda>_. [])"
  by (auto simp: ft_delete_staging_run_def ft_stg_def fun_eq_iff filter_other)

interpretation fake_closing: closing_target "fake_target_ops sha" ft_close_view
proof unfold_locales
  fix k :: run_key and st tab links i ls rc msg s c t u t' and e :: ldm_error
  show "reads ft_close_view (to_get_ledger (fake_target_ops sha) k) (\<lambda>v. ov_ledger v k)"
    by (rule readsI) (auto simp: fake_target_ops_def ft_get_ledger_def ft_close_view_def ft_ledger_rows_def)
  show "quiet ft_close_view (to_failures (fake_target_ops sha) k)"
    by (rule quietI) (auto simp: fake_target_ops_def ft_failures_def)
  show "quiet ft_close_view (to_get_class_totals (fake_target_ops sha) k)"
    by (rule quietI) (auto simp: fake_target_ops_def ft_get_class_totals_def)
  show "quiet ft_close_view (to_insert_run_sessions (fake_target_ops sha) k links)"
    by (rule quietI) (auto simp: fake_target_ops_def ft_insert_run_sessions_def ft_with_run_def ft_close_view_def
        ft_run_state_idem split: option.splits)
  show "quiet ft_close_view (to_log_start (fake_target_ops sha) k st tab)"
    by (rule quietI) (auto simp: fake_target_ops_def ft_log_start_def ft_close_view_def)
  show "quiet ft_close_view (to_log_finish (fake_target_ops sha) i ls rc msg)"
    by (rule quietI) (auto simp: fake_target_ops_def ft_log_finish_def ft_close_view_def)
  show "to_delete_staging_run (fake_target_ops sha) k t = (Inr u, t') \<Longrightarrow>
      ft_close_view t' = (ft_close_view t)\<lparr>ov_staged := (ov_staged (ft_close_view t))(k := \<lambda>_. [])\<rparr>"
    using ft_stg_delete_run [of k t t'] by (auto simp: fake_target_ops_def ft_delete_staging_run_def ft_close_view_def)
  show "to_delete_staging_run (fake_target_ops sha) k t = (Inl e, t') \<Longrightarrow> ft_close_view t' = ft_close_view t"
    by (auto simp: fake_target_ops_def ft_delete_staging_run_def)
  show "to_set_run_status (fake_target_ops sha) k s c t = (Inr u, t') \<Longrightarrow>
      ft_close_view t' = (ft_close_view t)\<lparr>ov_status := (ov_status (ft_close_view t))(k \<mapsto> (s, c))\<rparr>"
    by (auto simp: fake_target_ops_def ft_set_run_status_def ft_with_run_def ft_close_view_def split: option.splits)
  show "to_set_run_status (fake_target_ops sha) k s c t = (Inl e, t') \<Longrightarrow> ft_close_view t' = ft_close_view t"
    by (auto simp: fake_target_ops_def ft_set_run_status_def ft_with_run_def split: option.splits)
qed

text \<open>C28. When the stage returns, every ledger row of the run accounts for every extracted row, the
  run is CLOSED with exit code 0 and its staging area is empty.\<close>

theorem reconcile_closes_accounted_run:
  assumes "reconcile_run (fake_target_ops sha) B links now ctx w = (Inr out, w')"
  shows "(\<forall>row \<in> snd ` set (ft_ledger_rows (w_target w) (rc_key ctx)). accounted (m_purge (rc_manifest ctx)) row) \<and>
    ft_run_state (w_target w') (rc_key ctx) = Some (RunClosed, Some EXIT_OK) \<and>
    (\<forall>table. ft_stg (w_target w') (rc_key ctx) table = [])"
  using fake_closing.reconcile_closes [OF assms] by (auto simp: all_close_iff fake_closing.closed_view_def ft_close_view_def)

text \<open>When one ledger row does not add up, the stage raises, the staging area keeps every row, and
  the run's status is what it was or FAILED with exit code 2: such a run is never closed.\<close>

theorem reconcile_keeps_unaccounted_run:
  assumes "row \<in> snd ` set (ft_ledger_rows (w_target w) (rc_key ctx))" and "\<not> accounted (m_purge (rc_manifest ctx)) row"
    and "reconcile_run (fake_target_ops sha) B links now ctx w = (r, w')"
  shows "(\<exists>e. r = Inl e) \<and> ft_stg (w_target w') = ft_stg (w_target w) \<and>
    ft_run_state (w_target w') (rc_key ctx) \<in> {ft_run_state (w_target w) (rc_key ctx), Some (RunFailed, Some EXIT_RECONCILE)}"
proof -
  have open_: "\<not> all_close ctx (ov_ledger (ft_close_view (w_target w)) (rc_key ctx))"
    using assms(1,2) by (auto simp: all_close_iff ft_close_view_def)
  show ?thesis
  proof (cases r)
    case (Inl e)
    with hoare_raiseD [OF fake_closing.reconcile_unclosed [OF open_] refl] assms(3) show ?thesis
      by (fastforce simp: fake_closing.unclosed_def fake_closing.failed_view_def ft_close_view_def)
  next
    case (Inr out)
    with hoare_retD [OF fake_closing.reconcile_unclosed [OF open_] refl] assms(3) show ?thesis by blast
  qed
qed

section \<open>Witnesses\<close>

text \<open>A run of one table with one staged row: \<open>counted n\<close> has one extracted row and \<open>n\<close> purged ones.\<close>

definition counted :: "nat \<Rightarrow> ledger_row" where
  "counted n = (new_ledger_row ''CUST'' 1 DataTable)\<lparr>lr_extracted := Some 1, lr_loaded := Some 1, lr_rejected := Some 0,
     lr_validated := Some 1, lr_validate_failed := Some 0, lr_purged := Some n\<rparr>"

definition counted_target :: "nat \<Rightarrow> fake_target" where
  "counted_target n = ft_init\<lparr>ft_runs := (\<lambda>_. Some \<lparr>ru_status = RunRunning, ru_exit_code = None, ru_purge_enabled = True,
       ru_manifest_sha = ''00'', ru_sessions = []\<rparr>), ft_ledger := (\<lambda>_. Some [(''CUST'', counted n)])\<rparr>"

definition reconcile_example :: "nat \<Rightarrow> (ldm_error + (string \<times> counts) list) \<times> (fake_source, fake_target, files) world" where
  "reconcile_example n = reconcile_run (fake_target_ops (\<lambda>b. b)) no_blob_store (\<lambda>_. Inr []) [] (example_context True)
     (example_world (counted_target n))"

lemma example_prefix: "blob_prefix (example_context True) = Inr ''r1-dev/run1''" "rc_key (example_context True) = (''run1'', ''r1-dev'')"
  by code_simp+

lemma ft_op_eqs:
  "to_log_start (fake_target_ops sha) = ft_log_start" "to_log_finish (fake_target_ops sha) = ft_log_finish"
  "to_insert_run_sessions (fake_target_ops sha) = ft_insert_run_sessions" "to_get_ledger (fake_target_ops sha) = ft_get_ledger"
  "to_failures (fake_target_ops sha) = ft_failures" "to_get_class_totals (fake_target_ops sha) = ft_get_class_totals"
  "to_delete_staging_run (fake_target_ops sha) = ft_delete_staging_run"
  "to_set_run_status (fake_target_ops sha) = ft_set_run_status"
  by (simp_all add: fake_target_ops_def)

lemma report_files_written:
  "\<exists>fs u. write_report_files no_blob_store (example_context True) r w = (Inr u, w\<lparr>w_files := fs\<rparr>)"
  by (auto simp: write_report_files_def renderings_def Let_def bindP_eval thenP_eval example_prefix put_file_def onF_def
      no_blob_store_def)

lemma counted_facts:
  "ft_runs (counted_target n) k = Some \<lparr>ru_status = RunRunning, ru_exit_code = None, ru_purge_enabled = True,
     ru_manifest_sha = ''00'', ru_sessions = []\<rparr>"
  "ft_ledger (counted_target n) k = Some [(''CUST'', counted n)]" "ft_class_totals (counted_target n) k = []"
  "w_target (example_world t) = t"
  by (simp_all add: counted_target_def ft_init_def example_world_def)

lemma counted_accounted: "accounted (m_purge (rc_manifest (example_context True))) (counted n) \<longleftrightarrow> n = 1"
  by (auto simp: accounted_def counted_def nat_or_zero_def new_ledger_row_def example_context_def example_manifest_def)

lemma counted_closes: "all_close (example_context True) [(''CUST'', counted n)] \<longleftrightarrow> n = 1"
  by (simp add: all_close_iff counted_accounted)

lemma reconcile_returns:
  fixes w :: "('c, fake_target, 'd) world"
  assumes "ft_runs (w_target w) (''run1'', ''r1-dev'') = Some r" and "ft_ledger (w_target w) (''run1'', ''r1-dev'') = Some [(''CUST'', counted 1)]"
    and "ft_class_totals (w_target w) (''run1'', ''r1-dev'') = []"
  shows "\<exists>out. fst (reconcile_run (fake_target_ops sha) no_blob_store (\<lambda>_. Inr []) now (example_context True) w) = Inr out"
proof -
  obtain fs u where wr: "write_report_files no_blob_store (example_context True) r w = (Inr (u r w), w\<lparr>w_files := fs r w\<rparr>)"
    for r and w :: "('c, fake_target, 'd) world"
    using report_files_written by metis
  show ?thesis
    by (simp add: assms reconcile_run_def logged_def close_run_def build_report_def bindP_eval thenP_eval tryP_eval
        ft_op_eqs example_prefix onT_def ft_log_start_def ft_insert_run_sessions_def ft_with_run_def ft_get_ledger_def
        counted_closes ft_failures_def ft_get_class_totals_def ft_delete_staging_run_def ft_set_run_status_def
        ft_log_finish_def wr Let_def)
qed

lemma reconcile_example_returns: "\<exists>out. fst (reconcile_example 1) = Inr out"
  unfolding reconcile_example_def by (rule reconcile_returns) (simp_all add: counted_facts)

theorem reconcile_closes_accounted_run_witness:
  "ft_run_state (w_target (snd (reconcile_example 1))) (''run1'', ''r1-dev'') = Some (RunClosed, Some EXIT_OK)"
proof -
  from reconcile_example_returns obtain out where "reconcile_example 1 = (Inr out, snd (reconcile_example 1))"
    by (metis prod.collapse)
  from reconcile_closes_accounted_run [OF this [unfolded reconcile_example_def]] show ?thesis
    by (simp add: example_prefix reconcile_example_def)
qed

theorem reconcile_keeps_unaccounted_run_witness:
  "(\<exists>e. fst (reconcile_example 0) = Inl e) \<and> ft_stg (w_target (snd (reconcile_example 0))) = ft_stg (counted_target 0)"
proof -
  let ?w = "example_world (counted_target 0)"
  have a: "counted 0 \<in> snd ` set (ft_ledger_rows (w_target ?w) (rc_key (example_context True)))"
    by (simp add: ft_ledger_rows_def counted_facts)
  have b: "\<not> accounted (m_purge (rc_manifest (example_context True))) (counted 0)" by (simp add: counted_accounted)
  have "reconcile_run (fake_target_ops (\<lambda>b. b)) no_blob_store (\<lambda>_. Inr []) [] (example_context True) ?w =
      (fst (reconcile_example 0), snd (reconcile_example 0))"
    by (simp add: reconcile_example_def)
  from reconcile_keeps_unaccounted_run [OF a b this] show ?thesis by (simp add: counted_facts)
qed

end
