(* ===== verification/Ldm_Runner.thy ===== *)
theory Ldm_Runner
  imports Ldm_Load Ldm_Purge Ldm_Validate Ldm_Reconcile
begin

text \<open>
  The runner (\<open>migration/job/ldm/runner.py\<close>), the INIT stage (\<open>stages/init.py\<close>), the choice of the
  target driver (\<open>drivers/factory.py\<close>) and the command line (\<open>__main__.py\<close>). Drivers and stores are
  chosen as data here; what opens them is an argument. The DDL directory, the SQL scripts, the
  process environment, the clock and the engines' external parts are arguments too.
\<close>

section \<open>Choosing source, target and blob store\<close>

record source_env =
  sn_host :: string
  sn_port :: string
  sn_database :: string
  sn_user :: string
  sn_password :: string

record target_names =
  tn_host :: "string option"
  tn_port :: "string option"
  tn_database :: string
  tn_user :: string
  tn_password :: string
  tn_sslmode :: "string option"
  tn_server :: "string option"
  tn_auth_mode :: "string option"
  tn_managed_identity :: "string option"

record staging_env =
  sg_local_dir :: string
  sg_bucket :: "string option"
  sg_region :: "string option"
  sg_endpoint_url :: "string option"
  sg_storage_account :: "string option"
  sg_container :: "string option"

record loaded_manifest =
  ld_manifest :: manifest
  ld_sha :: string
  ld_driver :: string
  ld_provider :: string
  ld_source_env :: source_env
  ld_target_names :: target_names
  ld_staging_env :: staging_env

type_synonym env = "(string \<times> string) list"

datatype source_choice =
    Db2At string string string string string
  | OracleAt string string string string string
  | NoSource string

datatype kwarg = KStr string | KPort int | KMissing

record target_choice =
  tg_provider :: string
  tg_kwargs :: "(string \<times> kwarg) list"

datatype blob_choice =
    S3At string "string option" "string option"
  | AzureAt string string "string option" "string option"
  | LocalOnly

text \<open>\<open>env[name]\<close> and \<open>env.get(name) if name else None\<close>\<close>

definition env_value :: "env \<Rightarrow> string \<Rightarrow> ldm_error + string" where
  "env_value env n = (case map_of env n of None \<Rightarrow> Inl key_error | Some v \<Rightarrow> Inr v)"

definition env_opt :: "env \<Rightarrow> string option \<Rightarrow> string option" where
  "env_opt env n = (if truthy n then map_of env (the n) else None)"

definition connection_values :: "env \<Rightarrow> source_env \<Rightarrow> ldm_error + (string \<times> string \<times> string \<times> string \<times> string)" where
  "connection_values env ce =
     bindE (require_env env [sn_host ce, sn_port ce, sn_database ce, sn_user ce, sn_password ce]) (\<lambda>_.
     bindE (env_value env (sn_host ce)) (\<lambda>h. bindE (env_value env (sn_port ce)) (\<lambda>p.
     bindE (env_value env (sn_database ce)) (\<lambda>d. bindE (env_value env (sn_user ce)) (\<lambda>u.
     bindE (env_value env (sn_password ce)) (\<lambda>pw. Inr (h, p, d, u, pw)))))))"

definition make_source :: "loaded_manifest \<Rightarrow> env \<Rightarrow> ldm_error + source_choice" where
  "make_source ld env =
     (if ld_driver ld = ''db2''
      then bindE (connection_values env (ld_source_env ld)) (\<lambda>(h, p, d, u, pw). Inr (Db2At h p d u pw))
      else if ld_driver ld = ''oracle''
      then bindE (connection_values env (ld_source_env ld)) (\<lambda>(h, p, d, u, pw). Inr (OracleAt h p d u pw))
      else Inl (ConfigError ''source.driver has no driver in this build (known: db2, oracle)''))"

definition dict_get :: "env \<Rightarrow> string \<Rightarrow> string \<Rightarrow> string" where
  "dict_get env n d = (case map_of env n of None \<Rightarrow> d | Some v \<Rightarrow> v)"

definition kw_opt :: "string option \<Rightarrow> kwarg" where
  "kw_opt x = (case x of None \<Rightarrow> KMissing | Some s \<Rightarrow> KStr s)"

definition postgres_spec :: "loaded_manifest \<Rightarrow> env \<Rightarrow> ldm_error + target_choice" where
  "postgres_spec ld env = (let ce = ld_target_names ld in
     bindE (guardE (truthy (tn_host ce) \<and> truthy (tn_port ce)) (PyError ''AssertionError'')) (\<lambda>_.
     let host = the (tn_host ce); port = the (tn_port ce) in
     bindE (require_env env [host, port, tn_database ce, tn_user ce, tn_password ce]) (\<lambda>_.
     bindE (env_value env port) (\<lambda>pv.
     case py_int pv of
       None \<Rightarrow> Inl (ConfigError ''not a port number'')
     | Some p \<Rightarrow>
         bindE (env_value env host) (\<lambda>h. bindE (env_value env (tn_database ce)) (\<lambda>d.
         bindE (env_value env (tn_user ce)) (\<lambda>u. bindE (env_value env (tn_password ce)) (\<lambda>pw.
         Inr \<lparr>tg_provider = ''postgresql'', tg_kwargs =
           [(''host'', KStr h), (''port'', KPort p), (''database'', KStr d), (''user'', KStr u), (''password'', KStr pw),
            (''sslmode'', KStr (text_or ''prefer'' (env_opt env (tn_sslmode ce)))),
            (''ldm_host'', KStr (dict_get env ''LDM_HOST'' ''local''))]\<rparr>))))))))"

definition azuresql_spec :: "loaded_manifest \<Rightarrow> env \<Rightarrow> ldm_error + target_choice" where
  "azuresql_spec ld env = (let ce = ld_target_names ld in
     bindE (guardE (truthy (tn_server ce) \<and> truthy (tn_auth_mode ce) \<and> truthy (tn_managed_identity ce))
              (PyError ''AssertionError'')) (\<lambda>_.
     let server = the (tn_server ce); mi = the (tn_managed_identity ce);
         auth = text_or ''sql'' (map_of env (the (tn_auth_mode ce))) in
     bindE (require_env env [server, tn_database ce]) (\<lambda>_.
     bindE (if auth = ''sql'' then require_env env [tn_user ce, tn_password ce]
            else if auth = ''managed-identity'' then require_env env [mi]
            else Inl (ConfigError ''auth mode: expected sql or managed-identity'')) (\<lambda>_.
     bindE (env_value env server) (\<lambda>s. bindE (env_value env (tn_database ce)) (\<lambda>d.
     Inr \<lparr>tg_provider = ''azuresql'', tg_kwargs =
       [(''server'', KStr s), (''database'', KStr d), (''auth'', KStr auth), (''user'', kw_opt (map_of env (tn_user ce))),
        (''password'', kw_opt (map_of env (tn_password ce))), (''client_id'', kw_opt (map_of env mi)),
        (''host'', KStr (dict_get env ''LDM_HOST'' ''local''))]\<rparr>))))))"

definition target_spec :: "loaded_manifest \<Rightarrow> env \<Rightarrow> ldm_error + target_choice" where
  "target_spec ld env =
     (if ld_provider ld = ''postgresql'' then postgres_spec ld env
      else if ld_provider ld = ''azuresql'' then azuresql_spec ld env
      else Inl (ConfigError ''target.provider has no driver in this build''))"

definition make_blobs :: "loaded_manifest \<Rightarrow> env \<Rightarrow> ldm_error + blob_choice" where
  "make_blobs ld env = (let ce = ld_staging_env ld; bucket = env_opt env (sg_bucket ce);
       account = env_opt env (sg_storage_account ce); container = env_opt env (sg_container ce) in
     if truthy bucket then Inr (S3At (the bucket) (env_opt env (sg_region ce)) (env_opt env (sg_endpoint_url ce)))
     else if \<not> truthy account then Inr LocalOnly
     else if \<not> m_azure (ld_manifest ld) then Inl (ConfigError ''storage account is set but this namespace has azure: false'')
     else if \<not> truthy container then Inl (ConfigError ''storage account is set but the container is not'')
     else Inr (AzureAt (the account) (the container) (map_of env ''AZ_STORAGE_KEY'') (map_of env ''AZURE_CLIENT_ID'')))"

section \<open>Verbs\<close>

datatype verb = Init | Stage stage | All

definition ALL_ORDER :: "stage list" where
  "ALL_ORDER = [Extract, Load, Validate, Purge, Reconcile]"

definition source_verb :: "verb \<Rightarrow> bool" where
  "source_verb v \<longleftrightarrow> v \<in> {Stage Extract, Stage Purge, All}"

definition verb_text :: "verb \<Rightarrow> string" where
  "verb_text v = (case v of Init \<Rightarrow> ''init'' | All \<Rightarrow> ''all''
     | Stage s \<Rightarrow> (case s of Extract \<Rightarrow> ''extract'' | Load \<Rightarrow> ''load'' | Validate \<Rightarrow> ''validate'' | Purge \<Rightarrow> ''purge''
         | Reconcile \<Rightarrow> ''reconcile''))"

text \<open>\<open>UnconfiguredSource\<close>: every operation but \<open>close\<close> refuses.\<close>

definition source_refusal :: "verb \<Rightarrow> ldm_error" where
  "source_refusal v = ConfigError (''verb '' @ py_repr (verb_text v) @
     '' must not touch the source; source credentials were not loaded'')"

definition unconfigured_source :: "verb \<Rightarrow> 's source_ops" where
  "unconfigured_source v = \<lparr>so_connect = raiseP (source_refusal v), so_close = retP (),
     so_select_keys = (\<lambda>_ _ _. raiseP (source_refusal v)), so_fetch_range = (\<lambda>_ _ _ _ _ _. raiseP (source_refusal v)),
     so_purge_batch = (\<lambda>_ _ _ _ _ _ _. raiseP (source_refusal v)), so_audited_keys = (\<lambda>_ _ _. raiseP (source_refusal v))\<rparr>"

section \<open>INIT\<close>

text \<open>\<open>Path(name).suffix.lower()\<close>\<close>

definition path_suffix :: "string \<Rightarrow> string" where
  "path_suffix name = (let ext = takeWhile (\<lambda>c. c \<noteq> CHR ''.'') (rev name); stem = length name - Suc (length ext) in
     if CHR ''.'' \<in> set name \<and> 0 < stem \<and> ext \<noteq> [] then CHR ''.'' # rev ext else [])"

definition is_sql :: "string \<Rightarrow> bool" where
  "is_sql name \<longleftrightarrow> py_lower (path_suffix name) = ''.sql''"

text \<open>A directory of files with their text, or None when the path is not a directory.\<close>

type_synonym ddl_dir = "(string \<times> string) list option"

definition ddl_files :: "ddl_dir \<Rightarrow> ldm_error + (string \<times> string) list" where
  "ddl_files dir = (case dir of
       None \<Rightarrow> Inl (ConfigError ''target.ddl_dir is not a directory'')
     | Some fs \<Rightarrow> Inr (sort_key fst (filter (\<lambda>(n, _). is_sql n) fs)))"

definition apply_file ::
  "'t target_ops \<Rightarrow> (bytes \<Rightarrow> bytes) \<Rightarrow> (string \<times> string) list \<Rightarrow> string \<times> string \<Rightarrow> string list \<Rightarrow>
   (('s, 't, 'b) world, ldm_error, string list) prog" where
  "apply_file T sha applied p names = (case p of (name, sql) \<Rightarrow> let h = sha_hex sha (utf8 sql) in
     if map_of applied name = Some h then retP names
     else thenP (onT (to_apply_ddl T sql name h)) (retP (names @ [name])))"

definition apply_ddl ::
  "'t target_ops \<Rightarrow> (bytes \<Rightarrow> bytes) \<Rightarrow> ddl_dir \<Rightarrow> (('s, 't, 'b) world, ldm_error, string list) prog" where
  "apply_ddl T sha dir =
     bindP (onT (to_applied_ddl T)) (\<lambda>applied.
     bindP (liftP (ddl_files dir)) (\<lambda>files.
     foldP (apply_file T sha applied) files []))"

text \<open>An \<open>--apply-sql\<close> path, resolved: whether it is a file, its name, whether it lies in the tree, its text.\<close>

record sql_script =
  sq_is_file :: bool
  sq_name :: string
  sq_in_tree :: bool
  sq_text :: string

definition READER_USER_ENV :: string where "READER_USER_ENV = ''AZSQL_READER_USER''"
definition READER_PASSWORD_ENV :: string where "READER_PASSWORD_ENV = ''AZSQL_READER_PASSWORD''"

definition ensure_reader_step ::
  "'t target_ops \<Rightarrow> env \<Rightarrow> (('s, 't, 'b) world, ldm_error, unit) prog" where
  "ensure_reader_step T env = (let user = map_of env READER_USER_ENV; password = map_of env READER_PASSWORD_ENV in
     if truthy user \<and> truthy password then onT (to_ensure_reader T (the user) (the password))
     else if truthy user \<or> truthy password
     then raiseP (ConfigError ''AZSQL_READER_USER and AZSQL_READER_PASSWORD must be set together'')
     else retP ())"

definition apply_script ::
  "'t target_ops \<Rightarrow> run_context \<Rightarrow> sql_script \<Rightarrow> (('s, 't, 'b) world, ldm_error, unit) prog" where
  "apply_script T ctx q =
     (if \<not> sq_is_file q \<or> py_lower (path_suffix (sq_name q)) \<noteq> ''.sql''
      then raiseP (ConfigError ''--apply-sql: not a .sql file'')
      else if \<not> sq_in_tree q then raiseP (ConfigError ''--apply-sql: must live under the migration tree'')
      else onT (to_apply_sql T (sq_text q) (m_namespace (rc_manifest ctx))))"

definition init_run ::
  "'t target_ops \<Rightarrow> (bytes \<Rightarrow> bytes) \<Rightarrow> ddl_dir \<Rightarrow> env \<Rightarrow> sql_script list \<Rightarrow> run_context \<Rightarrow>
   (('s, 't, 'b) world, ldm_error, (string \<times> counts) list) prog" where
  "init_run T sha dir os_env scripts ctx =
     bindP (apply_ddl T sha dir) (\<lambda>applied.
     thenP (ensure_reader_step T (rc_env ctx @ os_env))
    (thenP (forP scripts (apply_script T ctx))
    (retP [(''_ddl'', [(''applied'', int (length applied)), (''scripts'', int (length scripts))])])))"

section \<open>Building the context\<close>

definition HOSTS :: "string list" where
  "HOSTS = [''eks'', ''aca'', ''local'']"

text \<open>What the context holds besides the data of \<open>run_context\<close>.\<close>

record ('s, 't, 'b) run_setup =
  su_context :: run_context
  su_source :: "'s source_ops"
  su_target :: "'t target_ops"
  su_blobs :: "'b blob_ops"

text \<open>What opens the chosen drivers and stores, and any of them handed in by the caller.\<close>

record ('s, 't, 'b) openers =
  op_source :: "source_choice \<Rightarrow> 's source_ops"
  op_target :: "target_choice \<Rightarrow> 't target_ops"
  op_blobs :: "blob_choice \<Rightarrow> 'b blob_ops"
  op_given_source :: "'s source_ops option"
  op_given_target :: "'t target_ops option"
  op_given_blobs :: "'b blob_ops option"

definition choose_source :: "('s, 't, 'b) openers \<Rightarrow> loaded_manifest \<Rightarrow> env \<Rightarrow> verb \<Rightarrow> ldm_error + 's source_ops" where
  "choose_source op ld env v = (case op_given_source op of
       Some S \<Rightarrow> Inr S
     | None \<Rightarrow> if source_verb v then bindE (make_source ld env) (\<lambda>c. Inr (op_source op c))
               else Inr (unconfigured_source v))"

definition choose_setup ::
  "('s, 't, 'b) openers \<Rightarrow> ldm_error + loaded_manifest \<Rightarrow> typemap \<Rightarrow> (string \<Rightarrow> string option) \<Rightarrow> string \<Rightarrow> env \<Rightarrow> verb \<Rightarrow>
   ldm_error + ('s, 't, 'b) run_setup" where
  "choose_setup op loaded tm read_copybook run_id env v =
     bindE loaded (\<lambda>ld.
     bindE (guardE (text_or ''local'' (map_of env ''LDM_HOST'') \<in> set HOSTS) (ConfigError ''LDM_HOST: expected one of eks, aca, local''))
       (\<lambda>_.
     bindE (build_table_specs (ld_manifest ld) tm read_copybook) (\<lambda>tables.
     bindE (choose_source op ld env v) (\<lambda>S.
     bindE (case op_given_target op of Some T \<Rightarrow> Inr T | None \<Rightarrow> bindE (target_spec ld env) (\<lambda>c. Inr (op_target op c))) (\<lambda>T.
     bindE (case op_given_blobs op of Some B \<Rightarrow> Inr B | None \<Rightarrow> bindE (make_blobs ld env) (\<lambda>c. Inr (op_blobs op c))) (\<lambda>B.
     Inr \<lparr>su_context = \<lparr>rc_manifest = ld_manifest ld, rc_manifest_sha = ld_sha ld, rc_run_id = run_id,
            rc_local_dir = local_staging_dir env (sg_local_dir (ld_staging_env ld)), rc_env = env, rc_tables = tables\<rparr>,
          su_source = S, su_target = T, su_blobs = B\<rparr>))))))"

definition build_context ::
  "('s, 't, 'b) openers \<Rightarrow> ldm_error + loaded_manifest \<Rightarrow> typemap \<Rightarrow> (string \<Rightarrow> string option) \<Rightarrow> string \<Rightarrow> env \<Rightarrow> verb \<Rightarrow>
   (('s, 't, 'b) world, ldm_error, ('s, 't, 'b) run_setup) prog" where
  "build_context op loaded tm read_copybook run_id env v =
     bindP (liftP (choose_setup op loaded tm read_copybook run_id env v)) (\<lambda>su.
     bindP (liftP (tables_in_order (su_context su))) (\<lambda>tables.
     thenP (forP tables (\<lambda>ts. onT (to_register_table (su_target su) (ts_name ts) (tc_key_columns (ts_config ts))
              (tc_hash_columns (ts_config ts)) (ts_columns ts))))
       (retP su)))"

section \<open>Preparing and running a verb\<close>

text \<open>The parts of a run that are not in the repository or not in the state of the world.\<close>

record ('s, 't, 'b) job =
  jb_setup :: "('s, 't, 'b) run_setup"
  jb_sha :: "bytes \<Rightarrow> bytes"
  jb_unloader :: unloader
  jb_spark :: "run_context \<Rightarrow> table_spec \<Rightarrow> key_range \<Rightarrow> (('s, 't, 'b) world, ldm_error, int \<times> int) prog"
  jb_links :: "run_context \<Rightarrow> ldm_error + (string \<times> string) list"
  jb_now :: string
  jb_ddl :: ddl_dir
  jb_os_env :: env
  jb_scripts :: "sql_script list"

abbreviation jb_context :: "('s, 't, 'b) job \<Rightarrow> run_context" where
  "jb_context j \<equiv> su_context (jb_setup j)"

abbreviation jb_target :: "('s, 't, 'b) job \<Rightarrow> 't target_ops" where
  "jb_target j \<equiv> su_target (jb_setup j)"

definition foreign_run :: ldm_error where
  "foreign_run = ForeignRunError ''run was started with another manifest sha256; a changed manifest needs a new --run-id''"

definition closed_run :: ldm_error where
  "closed_run = ConfigError ''run is already CLOSED; use a new --run-id''"

definition prepare_run :: "('s, 't, 'b) job \<Rightarrow> (('s, 't, 'b) world, ldm_error, unit) prog" where
  "prepare_run j = (let ctx = jb_context j; T = jb_target j; m = rc_manifest ctx; k = rc_key ctx;
       image = map_of (rc_env ctx) ''LDM_JOB_IMAGE'' in
     thenP (apply_ddl T (jb_sha j) (jb_ddl j))
    (bindP (onT (to_ensure_run T k (m_purge m) image (rc_manifest_sha ctx))) (\<lambda>recorded.
     if recorded \<noteq> rc_manifest_sha ctx then raiseP foreign_run
     else thenP (onT (to_refresh_run T k (m_purge m) image))
         (thenP (onT (to_ensure_ledger T k (map (\<lambda>t. (tc_name t, tc_order t, tc_role t)) (m_tables_in_order m))))
         (bindP (onT (to_get_run_status T k)) (\<lambda>st.
          if st = Some RunClosed then raiseP closed_run
          else if st = Some RunFailed then onT (to_set_run_status T k RunRunning None)
          else retP ()))))))"

definition run_stage :: "('s, 't, 'b) job \<Rightarrow> stage \<Rightarrow> (('s, 't, 'b) world, ldm_error, (string \<times> counts) list) prog" where
  "run_stage j st = (let ctx = jb_context j; S = su_source (jb_setup j); T = jb_target j; B = su_blobs (jb_setup j) in
     case st of
       Extract \<Rightarrow> extract_run S T B (jb_sha j) (jb_unloader j) ctx
     | Load \<Rightarrow> load_run T B (jb_sha j) (jb_spark j) ctx
     | Validate \<Rightarrow> Ldm_Validate.validate_run T (jb_sha j) ctx
     | Purge \<Rightarrow> purge_run S T ctx
     | Reconcile \<Rightarrow> reconcile_run T B (jb_links j) (jb_now j) ctx)"

definition stages_of :: "verb \<Rightarrow> stage list" where
  "stages_of v = (case v of All \<Rightarrow> ALL_ORDER | Stage s \<Rightarrow> [s] | Init \<Rightarrow> [])"

text \<open>\<open>tables.setdefault(name, {}).update(counts)\<close> for every name\<close>

definition merge_one :: "string \<times> counts \<Rightarrow> (string \<times> counts) list \<Rightarrow> (string \<times> counts) list" where
  "merge_one p d = (let old = (case map_of d (fst p) of None \<Rightarrow> [] | Some c \<Rightarrow> c) in
     dict_set (fst p) (fold (\<lambda>(k, v). dict_set k v) (snd p) old) d)"

definition merge_counts :: "(string \<times> counts) list \<Rightarrow> (string \<times> counts) list \<Rightarrow> (string \<times> counts) list" where
  "merge_counts new d = fold merge_one new d"

text \<open>
  The body of the \<open>try\<close> in \<open>execute\<close>: \<open>tables\<close> is a local variable that the handlers still see, so
  it is part of the state.
\<close>

type_synonym ('s, 't, 'b) run_state = "(string \<times> counts) list \<times> ('s, 't, 'b) world"

definition onW :: "(('s, 't, 'b) world, 'e, 'a) prog \<Rightarrow> (('s, 't, 'b) run_state, 'e, 'a) prog" where
  "onW m = (\<lambda>(c, w). case m w of (r, w') \<Rightarrow> (r, (c, w')))"

definition add_tables :: "(string \<times> counts) list \<Rightarrow> (('s, 't, 'b) run_state, 'e, unit) prog" where
  "add_tables new = modP (\<lambda>(c, w). (merge_counts new c, w))"

definition set_tables :: "(string \<times> counts) list \<Rightarrow> (('s, 't, 'b) run_state, 'e, unit) prog" where
  "set_tables new = modP (\<lambda>(c, w). (new, w))"

definition stage_step :: "('s, 't, 'b) job \<Rightarrow> stage \<Rightarrow> (('s, 't, 'b) run_state, ldm_error, unit) prog" where
  "stage_step j st = bindP (onW (run_stage j st)) add_tables"

definition execute_body :: "('s, 't, 'b) job \<Rightarrow> verb \<Rightarrow> (('s, 't, 'b) run_state, ldm_error, unit) prog" where
  "execute_body j v =
     thenP (if source_verb v then onW (onS (so_connect (su_source (jb_setup j)))) else retP ())
    (thenP (onW (onT (to_connect (jb_target j))))
    (if v = Init
     then bindP (onW (init_run (jb_target j) (jb_sha j) (jb_ddl j) (jb_os_env j) (jb_scripts j) (jb_context j))) set_tables
     else thenP (onW (prepare_run j)) (forP (stages_of v) (stage_step j))))"

definition mark_failed :: "('s, 't, 'b) job \<Rightarrow> int \<Rightarrow> (('s, 't, 'b) world, ldm_error, unit) prog" where
  "mark_failed j code = (let T = jb_target j; k = rc_key (jb_context j) in
     tryP (bindP (onT (to_get_run_status T k)) (\<lambda>st.
             if st = Some RunRunning then onT (to_set_run_status T k RunFailed (Some code)) else retP ()))
       (\<lambda>_. retP ()))"

fun is_foreign :: "ldm_error \<Rightarrow> bool" where
  "is_foreign (ForeignRunError _) = True"
| "is_foreign _ = False"

definition close_drivers :: "('s, 't, 'b) job \<Rightarrow> (('s, 't, 'b) world, ldm_error, unit) prog" where
  "close_drivers j = thenP (tryP (onS (so_close (su_source (jb_setup j)))) (\<lambda>_. retP ()))
                           (tryP (onT (to_close (jb_target j))) (\<lambda>_. retP ()))"

definition handle_error ::
  "('s, 't, 'b) job \<Rightarrow> verb \<Rightarrow> ldm_error \<Rightarrow> ('s, 't, 'b) run_state \<Rightarrow> (int \<times> (string \<times> counts) list) \<times> ('s, 't, 'b) world" where
  "handle_error j v e s = (case s of (c, w) \<Rightarrow>
     if is_ldm_error e
     then ((exit_code e, merge_counts (error_tables e) c),
           if exit_code e \<noteq> EXIT_OK \<and> v \<noteq> Init \<and> \<not> is_foreign e then snd (mark_failed j (exit_code e) w) else w)
     else ((EXIT_UNEXPECTED, c), if v \<noteq> Init then snd (mark_failed j EXIT_UNEXPECTED w) else w))"

definition execute ::
  "('s, 't, 'b) job \<Rightarrow> verb \<Rightarrow> ('s, 't, 'b) world \<Rightarrow> (int \<times> (string \<times> counts) list) \<times> ('s, 't, 'b) world" where
  "execute j v w = (case (case execute_body j v ([], w) of
         (Inr _, (c, w')) \<Rightarrow> ((EXIT_OK, c), w')
       | (Inl e, s) \<Rightarrow> handle_error j v e s) of
     (res, w') \<Rightarrow> (res, snd (close_drivers j w')))"

section \<open>The command line\<close>

text \<open>\<open>json.dumps\<close> in its default layout on one line: characters beyond ASCII escaped.\<close>

definition json_ascii_char :: "char \<Rightarrow> string" where
  "json_ascii_char c = (let n = of_char c :: nat in
     if n < 0x7F then json_char c
     else [CHR 0x5C, CHR ''u'', CHR ''0'', CHR ''0'', hex_digit (n div 16), hex_digit (n mod 16)])"

definition json_ascii :: "string \<Rightarrow> string" where
  "json_ascii s = [CHR 0x22] @ concat (map json_ascii_char s) @ [CHR 0x22]"

definition json_object :: "(string \<times> string) list \<Rightarrow> string" where
  "json_object kvs = ''{'' @ py_join '', '' (map (\<lambda>(k, v). json_ascii k @ '': '' @ v) kvs) @ ''}''"

definition emit_result :: "string \<Rightarrow> string \<Rightarrow> string \<Rightarrow> int \<Rightarrow> (string \<times> counts) list \<Rightarrow> string" where
  "emit_result run_id namespace st code tables =
     json_object [(''run_id'', json_ascii run_id), (''namespace'', json_ascii namespace), (''stage'', json_ascii st),
       (''exit_code'', str_int code),
       (''tables'', json_object (map (\<lambda>(n, c). (n, json_object (map (\<lambda>(k, v). (k, str_int v)) c))) tables))] @ [CHR 0x0A]"

text \<open>The parsed arguments.\<close>

record cli_args =
  ar_verb :: verb
  ar_namespace :: string
  ar_run_id :: "string option"
  ar_scripts :: "sql_script list"

definition check_args :: "cli_args \<Rightarrow> ldm_error + unit" where
  "check_args a = (let ns = ar_namespace a in
     if re_match TOKEN_RE ns = None \<or> ns = ''main'' \<or> py_startswith ''main-'' ns
     then Inl (ConfigError ''--namespace must match the token pattern and not be main/main-*'')
     else if ar_verb a = Init
     then (if truthy (ar_run_id a) then Inl (ConfigError ''init does not take --run-id'') else Inr ())
     else if \<not> truthy (ar_run_id a) then Inl (ConfigError ''verb requires --run-id'')
     else if ar_scripts a \<noteq> [] then Inl (ConfigError ''--apply-sql is only valid with init'')
     else bindE (Ldm_Config.validate_run_id (the (ar_run_id a))) (\<lambda>_. Inr ()))"

text \<open>
  \<open>main\<close>: \<open>build\<close> makes the job of a run id. The result is the exit code and the line written to
  standard output; an exception that is not an \<open>LdmError\<close> while the context is built leaves \<open>main\<close>
  (\<open>Inl\<close>), and the interpreter ends with exit code 1 and no line.
\<close>

definition run_main ::
  "cli_args \<Rightarrow> (string \<Rightarrow> verb \<Rightarrow> (('s, 't, 'b) world, ldm_error, ('s, 't, 'b) job) prog) \<Rightarrow>
   ('s, 't, 'b) world \<Rightarrow> (ldm_error + (int \<times> string)) \<times> ('s, 't, 'b) world" where
  "run_main a build w = (let run_id = text_or ''init'' (ar_run_id a) in
     case thenP (liftP (check_args a)) (build run_id (ar_verb a)) w of
       (Inl e, w') \<Rightarrow>
         if is_ldm_error e
         then (Inr (exit_code e, emit_result run_id (ar_namespace a) (verb_text (ar_verb a)) (exit_code e) []), w')
         else (Inl e, w')
     | (Inr j, w') \<Rightarrow> (case execute (j\<lparr>jb_scripts := ar_scripts a\<rparr>) (ar_verb a) w' of
           ((code, tables), w'') \<Rightarrow>
             (Inr (code, emit_result run_id (ar_namespace a) (verb_text (ar_verb a)) code tables), w'')))"

end
