(* ===== verification/Ldm_Runner_Facts.thy ===== *)
theory Ldm_Runner_Facts
  imports Ldm_Runner
begin

text \<open>
  What the runner promises: target-only verbs leave the source alone, a foreign or closed run is
  not touched, a successful run is closed and accounts for every row, and a failed one is not
  left RUNNING.
\<close>

section \<open>Target-only verbs\<close>

lemma source_frame [quiet_rules]:
  "quiet w_source (onT m)" "quiet w_source (onF f)" "quiet w_source (put_file p d)" "quiet w_source (read_file p)"
  by (auto simp: quiet_def onT_def onF_def put_file_def read_file_def split: prod.splits option.splits)

lemma logged_source [quiet_rules]: "quiet w_source m \<Longrightarrow> quiet w_source (logged T k st tab m r)"
  unfolding logged_def by (intro quiet_rules)

lemma per_table_source [quiet_rules]:
  "(\<And>ts. quiet w_source (step ts)) \<Longrightarrow> quiet w_source (per_table T ctx st rows tables step out)"
  unfolding per_table_def by (intro quiet_rules)

lemma load_source:
  assumes "\<And>ctx ts rng. quiet w_source (spark ctx ts rng)"
  shows "quiet w_source (load_run T B sha spark ctx)"
  unfolding load_run_def load_table_def check_no_ranges_def load_range_with_engine_def load_range_def begin_range_def
    range_file_def finish_range_def load_record_def flush_def
  by (intro quiet_rules assms)

lemma validate_source: "quiet w_source (Ldm_Validate.validate_run T sha ctx)"
  unfolding validate_run_def validate_table_def load_checks_def successor_map_def each_batch_def with_candidates_def
    first_pass_def persist_def validate_classes_def class_mismatches_def second_pass_def finish_table_def ledger_entry_def
  by (intro quiet_rules)

lemma reconcile_source: "quiet w_source (reconcile_run T B links now ctx)"
  unfolding reconcile_run_def close_run_def build_report_def write_report_files_def
  by (intro quiet_rules)

lemma init_source: "quiet w_source (init_run T sha dir env scripts ctx)"
  unfolding init_run_def apply_ddl_def apply_file_def ensure_reader_step_def apply_script_def
  by (intro quiet_rules)

lemma prepare_source: "quiet w_source (prepare_run j)"
  unfolding prepare_run_def apply_ddl_def apply_file_def
  by (intro quiet_rules)

lemma mark_failed_source: "quiet w_source (mark_failed j code)"
  unfolding mark_failed_def by (intro quiet_rules)

lemma onW_quiet: "quiet f m \<Longrightarrow> quiet (f \<circ> snd) (onW m)"
  by (auto simp: quiet_def onW_def split: prod.splits)

lemma tables_quiet [quiet_rules]: "quiet (f \<circ> snd) (add_tables c)" "quiet (f \<circ> snd) (set_tables c)"
  by (auto simp: quiet_def add_tables_def set_tables_def)

lemma run_stage_source:
  assumes "\<not> source_verb (Stage st)" and "\<And>ctx ts rng. quiet w_source (jb_spark j ctx ts rng)"
  shows "quiet w_source (run_stage j st)"
  using assms load_source [of "jb_spark j"] validate_source reconcile_source
  by (cases st) (auto simp: run_stage_def source_verb_def)

lemma quiet_snd: "quiet view m \<Longrightarrow> view (snd (m s)) = view s"
  by (cases "m s") (auto dest: quietD)

lemma handle_error_source: "handle_error j v e (c, w) = (res, w') \<Longrightarrow> w_source w' = w_source w"
  by (auto simp: handle_error_def quiet_snd [OF mark_failed_source] split: if_splits)

text \<open>A verb that needs no source never changes the source, whatever happens: neither the
  stage, nor preparing the run, nor the error handler, nor closing the drivers.\<close>

theorem target_verbs_spare_source:
  assumes "\<not> source_verb v" and "su_source (jb_setup j) = unconfigured_source v"
    and "\<And>ctx ts rng. quiet w_source (jb_spark j ctx ts rng)"
  shows "w_source (snd (execute j v w)) = w_source w"
proof -
  have stage: "quiet (w_source \<circ> snd) (stage_step j st)" if "st \<in> set (stages_of v)" for st
  proof -
    have "\<not> source_verb (Stage st)" using that assms(1) by (cases v) (auto simp: stages_of_def source_verb_def)
    then show ?thesis unfolding stage_step_def by (intro quiet_rules onW_quiet run_stage_source assms(3))
  qed
  have stages: "quiet (w_source \<circ> snd) (forP xs (stage_step j))" if "set xs \<subseteq> set (stages_of v)" for xs
    using that by (induction xs) (auto intro!: quiet_rules stage)
  have body: "quiet (w_source \<circ> snd) (execute_body j v)"
    unfolding execute_body_def
    by (intro quiet_rules onW_quiet init_source prepare_source stages) (use assms(1) in auto)
  have "w_source (snd (close_drivers j w')) = w_source w'" for w'
  proof -
    have "quiet w_source (close_drivers j)"
      unfolding close_drivers_def assms(2) by (intro quiet_rules) (auto simp: quiet_def unconfigured_source_def onS_def)
    then show ?thesis by (rule quiet_snd)
  qed
  moreover have "w_source (snd (snd (execute_body j v ([], w)))) = w_source w" using quiet_snd [OF body, of "([], w)"] by simp
  ultimately show ?thesis
    by (auto simp: execute_def split: prod.splits sum.splits dest: handle_error_source)
qed

section \<open>Runs of a verb\<close>

lemma execute_OK:
  assumes "execute j v w = ((EXIT_OK, c), w')"
  shows "\<exists>u c1 w1. execute_body j v ([], w) = (Inr u, (c1, w1)) \<and> w' = snd (close_drivers j w1)"
proof -
  have "exit_code e \<noteq> EXIT_OK" for e using exit_code_range [of e] by (auto simp: EXIT_OK_def)
  moreover have "EXIT_UNEXPECTED \<noteq> EXIT_OK" by (simp add: EXIT_OK_def EXIT_UNEXPECTED_def)
  ultimately show ?thesis using assms
    by (cases "fst (execute_body j v ([], w))")
      (auto simp: execute_def handle_error_def split: prod.splits sum.splits if_splits)
qed

lemma execute_failed:
  assumes "execute j v w = ((code, c), w')" and "code \<noteq> EXIT_OK"
  shows "\<exists>e c1 w1 w2. execute_body j v ([], w) = (Inl e, (c1, w1)) \<and> handle_error j v e (c1, w1) = ((code, c), w2) \<and>
    w' = snd (close_drivers j w2)"
  using assms by (auto simp: execute_def split: prod.splits sum.splits)

lemma forP_last: "forP (xs @ [x]) f s = (Inr u, t) \<Longrightarrow> \<exists>s'. f x s' = (Inr (), t)"
  by (induction xs arbitrary: s) (auto simp: thenP_Inr)

lemma execute_body_last:
  assumes "execute_body j v s = (Inr u, (c, w'))" and "v = All \<or> v = Stage Reconcile"
  shows "\<exists>w1 out. run_stage j Reconcile w1 = (Inr out, w')"
proof -
  obtain xs where xs: "stages_of v = xs @ [Reconcile]" using assms(2) by (auto simp: stages_of_def ALL_ORDER_def)
  have "v \<noteq> Init" using assms(2) by auto
  with assms(1) obtain s1 where "forP (stages_of v) (stage_step j) s1 = (Inr u, (c, w'))"
    by (auto simp: execute_body_def thenP_Inr)
  then obtain c1 w1 where "stage_step j Reconcile (c1, w1) = (Inr (), (c, w'))"
    using forP_last unfolding xs by fastforce
  then show ?thesis by (auto simp: stage_step_def bindP_Inr onW_def add_tables_def split: prod.splits)
qed

section \<open>The contract of the target\<close>

locale runner_target = closing_target T view for T :: "'t target_ops" and view :: "'t \<Rightarrow> close_view" +
  fixes recorded :: "'t \<Rightarrow> run_key \<Rightarrow> string option"
  assumes connect: "quiet (\<lambda>t. (view t, recorded t)) (to_connect T)"
    and close: "quiet (\<lambda>t. (view t, recorded t)) (to_close T)"
    and applied: "quiet (\<lambda>t. (view t, recorded t)) (to_applied_ddl T)"
    and apply_file: "quiet (\<lambda>t. (view t, recorded t)) (to_apply_ddl T sql name h)"
    and refresh: "quiet (\<lambda>t. (view t, recorded t)) (to_refresh_run T k p img)"
    and ensure_ledger: "quiet (\<lambda>t. (ov_status (view t), ov_staged (view t))) (to_ensure_ledger T k tabs)"
    and recorded_iff: "recorded t k = None \<longleftrightarrow> ov_status (view t) k = None"
    and ensure_run: "recorded t k = Some h \<Longrightarrow> to_ensure_run T k p img h' t = (r, t') \<Longrightarrow>
      view t' = view t \<and> recorded t' = recorded t \<and> (\<forall>a. r = Inr a \<longrightarrow> a = h)"
    and get_status: "reads view (to_get_run_status T k) (\<lambda>v. map_option fst (ov_status v k))"
    and get_status_returns: "\<exists>st t'. to_get_run_status T k t = (Inr st, t')"
    and set_status_returns: "ov_status (view t) k \<noteq> None \<Longrightarrow> \<exists>u t'. to_set_run_status T k st code t = (Inr u, t')"
begin

lemma mark_failed_view:
  assumes "jb_target j = T"
  shows "view (w_target (snd (mark_failed j code w))) =
    (if map_option fst (ov_status (view (w_target w)) (rc_key (jb_context j))) = Some RunRunning
     then (view (w_target w))\<lparr>ov_status := (ov_status (view (w_target w)))(rc_key (jb_context j) \<mapsto> (RunFailed, Some code))\<rparr>
     else view (w_target w))"
proof -
  let ?k = "rc_key (jb_context j)"
  obtain st t1 where g: "to_get_run_status T ?k (w_target w) = (Inr st, t1)" using get_status_returns by blast
  with readsD [OF get_status] have v1: "view t1 = view (w_target w)" and st: "st = map_option fst (ov_status (view (w_target w)) ?k)"
    by auto
  show ?thesis
  proof (cases "st = Some RunRunning")
    case True
    then have "ov_status (view t1) ?k \<noteq> None" using st v1 by auto
    then obtain u t2 where s: "to_set_run_status T ?k RunFailed (Some code) t1 = (Inr u, t2)" using set_status_returns by blast
    from set_status [OF s] True g s st v1 assms show ?thesis
      by (simp add: mark_failed_def Let_def tryP_eval bindP_eval onT_def)
  next
    case False
    with g st v1 assms show ?thesis by (simp add: mark_failed_def Let_def tryP_eval bindP_eval onT_def)
  qed
qed

lemma close_drivers_view:
  assumes "jb_target j = T"
  shows "view (w_target (snd (close_drivers j w))) = view (w_target w)"
proof -
  have c: "quiet (\<lambda>w. view (w_target w)) (onT (to_close T))"
    using close by (auto simp: quiet_def onT_step)
  have "quiet (\<lambda>w. view (w_target w)) (close_drivers j)"
    unfolding close_drivers_def assms by (intro quiet_rules c) (auto simp: quiet_def onS_step)
  then show ?thesis by (rule quiet_snd)
qed

text \<open>An error that is not a refused configuration leaves the run in a state other than RUNNING.\<close>

lemma handle_error_stops:
  assumes "jb_target j = T" and "v \<noteq> Init" and "handle_error j v e s = ((code, c), w')" and "code \<noteq> EXIT_CONFIG"
  shows "map_option fst (ov_status (view (w_target w')) (rc_key (jb_context j))) \<noteq> Some RunRunning"
proof -
  obtain c0 w where s: "s = (c0, w)" by (cases s)
  have "\<not> is_foreign e \<and> exit_code e \<noteq> EXIT_OK" if "is_ldm_error e" "code = exit_code e"
    using assms(4) that exit_code_range [of e] by (cases e) (auto simp: EXIT_OK_def)
  with assms(2,3) s have "\<exists>x. w' = snd (mark_failed j x w)" by (auto simp: handle_error_def split: if_splits)
  then show ?thesis using mark_failed_view [OF assms(1)] by (auto split: if_splits)
qed

lemma execute_fail_stops:
  assumes "jb_target j = T" and "v \<noteq> Init" and "execute j v w = ((code, c), w')" and "code \<noteq> EXIT_OK" and "code \<noteq> EXIT_CONFIG"
  shows "map_option fst (ov_status (view (w_target w')) (rc_key (jb_context j))) \<noteq> Some RunRunning"
proof -
  from execute_failed [OF assms(3,4)] obtain e s w2 where
    "handle_error j v e s = ((code, c), w2)" and w': "w' = snd (close_drivers j w2)" by blast
  from handle_error_stops [OF assms(1,2) this(1) assms(5)] show ?thesis unfolding w' close_drivers_view [OF assms(1)] .
qed

lemma execute_closes:
  assumes "jb_target j = T" and "v = All \<or> v = Stage Reconcile" and "execute j v w = ((EXIT_OK, c), w')"
  shows "all_close (jb_context j) (ov_ledger (view (w_target w')) (rc_key (jb_context j))) \<and>
    ov_staged (view (w_target w')) (rc_key (jb_context j)) = (\<lambda>_. []) \<and>
    ov_status (view (w_target w')) (rc_key (jb_context j)) = Some (RunClosed, Some EXIT_OK)"
proof -
  from execute_OK [OF assms(3)] obtain u c1 w1 where
    body: "execute_body j v ([], w) = (Inr u, (c1, w1))" and w': "w' = snd (close_drivers j w1)" by blast
  from execute_body_last [OF body assms(2)] obtain w0 out where "run_stage j Reconcile w0 = (Inr out, w1)" by blast
  then have "reconcile_run T (su_blobs (jb_setup j)) (jb_links j) (jb_now j) (jb_context j) w0 = (Inr out, w1)"
    using assms(1) by (simp add: run_stage_def Let_def)
  from reconcile_closes [OF this] show ?thesis
    unfolding w' close_drivers_view [OF assms(1)] by (auto simp: closed_view_def)
qed

end

text \<open>A target whose connection, DDL and run bookkeeping do not fail.\<close>

locale steady_target = runner_target T view recorded
  for T :: "'t target_ops" and view :: "'t \<Rightarrow> close_view" and recorded :: "'t \<Rightarrow> run_key \<Rightarrow> string option" +
  assumes connect_returns: "\<exists>u t'. to_connect T t = (Inr u, t')"
    and applied_returns: "\<exists>a t'. to_applied_ddl T t = (Inr a, t')"
    and apply_returns: "\<exists>u t'. to_apply_ddl T sql name h t = (Inr u, t')"
    and ensure_returns: "\<exists>a t'. to_ensure_run T k p img h t = (Inr a, t')"
    and refresh_fails: "to_refresh_run T k p img t = (Inl e, t') \<Longrightarrow> ov_status (view t) k = None"
    and ensure_ledger_returns: "\<exists>u t'. to_ensure_ledger T k tabs t = (Inr u, t')"
begin

text \<open>\<open>at f g x\<close>: the parts \<open>f\<close> of the target and \<open>g\<close> of the source are \<open>x\<close>.\<close>

definition at ::
  "(close_view \<times> (run_key \<Rightarrow> string option) \<Rightarrow> 'v) \<Rightarrow> ('s \<Rightarrow> 'r) \<Rightarrow> 'v \<times> 'r \<Rightarrow> ('s, 't, 'b) world \<Rightarrow> bool" where
  "at f g x w \<longleftrightarrow> (f (view (w_target w), recorded (w_target w)), g (w_source w)) = x"

lemma at_steady:
  assumes "quiet (\<lambda>t. (view t, recorded t)) m" and "\<And>t. \<exists>a t'. m t = (Inr a, t')"
  shows "hoare (at f g x) (onT m) (\<lambda>_. at f g x) E" (is "hoare ?P ?m ?Q E")
  unfolding hoare_def
proof (intro allI impI)
  fix w
  assume w: "?P w"
  obtain a t' where m: "m (w_target w) = (Inr a, t')" using assms(2) by blast
  with w quietD [OF assms(1) m] show "case ?m w of (Inl e, t) \<Rightarrow> E e t | (Inr a, t) \<Rightarrow> ?Q a t"
    by (auto simp: at_def onT_def)
qed

lemma at_ddl:
  "hoare (at f g x) (apply_ddl T sha dir) (\<lambda>_. at f g x) (\<lambda>e w. dir = None \<and> is_config_error e \<and> at f g x w)"
proof -
  let ?E = "\<lambda>e w. dir = None \<and> is_config_error e \<and> at f g x w"
  have one: "hoare (at f g x) (Ldm_Runner.apply_file T sha app p names) (\<lambda>_. at f g x) ?E" for app p names
    unfolding Ldm_Runner.apply_file_def Let_def
    by (auto split: prod.split intro!: hoare_ret hoare_then [OF at_steady [OF apply_file apply_returns]])
  have files: "hoare (at f g x) (liftP (ddl_files dir)) (\<lambda>_. at f g x) ?E"
    by (auto simp: hoare_def ddl_files_def split: option.splits)
  show ?thesis
    unfolding apply_ddl_def
    by (rule hoare_bind [OF at_steady [OF applied applied_returns]], rule hoare_bind [OF files]) (rule hoare_fold [OF one])
qed

text \<open>The run's record keeps what \<open>prepare_run\<close> reads.\<close>

lemma at_ensure_run:
  assumes "\<And>t. f (view t, recorded t) = fst x \<Longrightarrow> recorded t k \<noteq> None"
  shows "hoare (at f g x) (onT (to_ensure_run T k p img h)) (\<lambda>a w. at f g x w \<and> recorded (w_target w) k = Some a) E"
    (is "hoare ?P ?m ?Q E")
  unfolding hoare_def
proof (intro allI impI)
  fix w
  assume w: "?P w"
  obtain a t' where m: "to_ensure_run T k p img h (w_target w) = (Inr a, t')" using ensure_returns by blast
  from assms [of "w_target w"] w obtain h0 where "recorded (w_target w) k = Some h0" by (auto simp: at_def)
  from ensure_run [OF this m] w m this show "case ?m w of (Inl e, t) \<Rightarrow> E e t | (Inr a, t) \<Rightarrow> ?Q a t"
    by (auto simp: at_def onT_def)
qed

abbreviation status_staged :: "close_view \<times> (run_key \<Rightarrow> string option) \<Rightarrow>
    (run_key \<Rightarrow> (run_status \<times> int option) option) \<times> (run_key \<Rightarrow> string \<Rightarrow> staged_row list)" where
  "status_staged p \<equiv> (ov_status (fst p), ov_staged (fst p))"

lemma prepare_foreign:
  assumes "jb_target j = T" and "rs (rc_key (jb_context j)) = Some h" and "h \<noteq> rc_manifest_sha (jb_context j)"
    and "jb_ddl j \<noteq> None"
  shows "hoare (at (\<lambda>p. p) g ((vw, rs), src)) (prepare_run j) (\<lambda>_ _. False) (\<lambda>e w. e = foreign_run \<and> at (\<lambda>p. p) g ((vw, rs), src) w)"
    (is "hoare ?P _ _ ?E")
proof -
  let ?k = "rc_key (jb_context j)"
  have ddl: "hoare ?P (apply_ddl T (jb_sha j) (jb_ddl j)) (\<lambda>_. ?P) ?E"
    by (rule hoare_conseq [OF at_ddl]) (use assms(4) in auto)
  have run: "hoare ?P (onT (to_ensure_run T ?k p img h')) (\<lambda>a w. ?P w \<and> a = h) ?E" for p img h'
    by (rule hoare_conseq [OF at_ensure_run [where f = "\<lambda>p. p" and g = g and x = "((vw, rs), src)"]]) (use assms(2) in \<open>auto simp: at_def\<close>)
  show ?thesis
    unfolding prepare_run_def Let_def assms(1)
    by (rule hoare_then [OF ddl], rule hoare_bind [OF run], rule hoare_pure_pre) (use assms(3) in \<open>simp add: hoare_raise\<close>)
qed

lemma prepare_closed:
  assumes "jb_target j = T" and "sts (rc_key (jb_context j)) = Some (RunClosed, code)"
  shows "hoare (at status_staged g ((sts, sg), src)) (prepare_run j) (\<lambda>_ _. False)
    (\<lambda>e w. is_config_error e \<and> at status_staged g ((sts, sg), src) w)"
    (is "hoare ?P _ _ ?E")
proof -
  let ?k = "rc_key (jb_context j)"
  have ddl: "hoare ?P (apply_ddl T (jb_sha j) (jb_ddl j)) (\<lambda>_. ?P) ?E"
    by (rule hoare_conseq [OF at_ddl]) auto
  have run: "hoare ?P (onT (to_ensure_run T ?k p img h')) (\<lambda>_. ?P) ?E" for p img h'
    by (rule hoare_conseq [OF at_ensure_run [where f = status_staged and g = g and x = "((sts, sg), src)"]])
      (use assms(2) in \<open>auto simp: recorded_iff\<close>)
  have refreshed: "hoare ?P (onT (to_refresh_run T ?k p img)) (\<lambda>_. ?P) ?E" for p img
  proof (rule hoareI)
    fix w e w' assume "?P w" and "onT (to_refresh_run T ?k p img) w = (Inl e, w')"
    then show "?E e w'" using assms(2) refresh_fails [of ?k p img "w_target w" e] by (auto simp: onT_step at_def)
  qed (auto dest!: quietD [OF refresh] simp: at_def onT_step)
  have ledger: "hoare ?P (onT (to_ensure_ledger T ?k tabs)) (\<lambda>_. ?P) ?E" for tabs
  proof (rule hoareI)
    fix w e w' assume "?P w" and "onT (to_ensure_ledger T ?k tabs) w = (Inl e, w')"
    then show "?E e w'" using ensure_ledger_returns [of ?k tabs "w_target w"] by (auto simp: onT_step)
  qed (auto dest!: quietD [OF ensure_ledger] simp: at_def onT_step)
  have status: "hoare ?P (onT (to_get_run_status T ?k)) (\<lambda>st w. ?P w \<and> st = Some RunClosed) ?E"
  proof (rule hoareI)
    fix w e w' assume "?P w" and "onT (to_get_run_status T ?k) w = (Inl e, w')"
    then show "?E e w'" using get_status_returns [of ?k "w_target w"] by (auto simp: onT_step)
  qed (use assms(2) in \<open>auto dest!: readsD [OF get_status] simp: at_def onT_step\<close>)
  show ?thesis
    unfolding prepare_run_def Let_def assms(1)
  proof (rule hoare_then [OF ddl], rule hoare_bind [OF run])
    show "hoare ?P (if a \<noteq> rc_manifest_sha (jb_context j) then raiseP foreign_run else
        thenP (onT (to_refresh_run T ?k p img)) (thenP (onT (to_ensure_ledger T ?k tabs))
          (bindP (onT (to_get_run_status T ?k)) (\<lambda>st. if st = Some RunClosed then raiseP closed_run
            else if st = Some RunFailed then onT (to_set_run_status T ?k RunRunning None) else retP ()))))
        (\<lambda>_ _. False) ?E" for a p img tabs
      by (intro hoare_if hoare_then [OF refreshed] hoare_then [OF ledger] hoare_bind [OF status] hoare_pure_pre hoare_raise)
        (auto simp: foreign_run_def closed_run_def intro!: hoare_raise)
  qed
qed

lemma execute_body_refused:
  assumes "jb_target j = T" and "v \<noteq> Init" and "\<And>s. \<exists>s'. so_connect (su_source (jb_setup j)) s = (Inr (), s') \<and> g s' = g s"
    and "hoare (at f g x) (prepare_run j) (\<lambda>_ _. False) (\<lambda>e w. Q e \<and> at f g x w)" and "at f g x w"
  shows "\<exists>e c w1. execute_body j v ([], w) = (Inl e, (c, w1)) \<and> Q e \<and> at f g x w1"
proof -
  obtain s' where s: "so_connect (su_source (jb_setup j)) (w_source w) = (Inr (), s')" "g s' = g (w_source w)" using assms(3) by blast
  obtain u t1 where c: "to_connect T (w_target w) = (Inr u, t1)" using connect_returns by blast
  let ?w1 = "w\<lparr>w_source := if source_verb v then s' else w_source w, w_target := t1\<rparr>"
  have w1: "at f g x ?w1" using quietD [OF connect c] assms(5) s by (auto simp: at_def)
  obtain r w2 where p: "prepare_run j ?w1 = (r, w2)" by (cases "prepare_run j ?w1")
  then have "\<exists>e. r = Inl e \<and> Q e \<and> at f g x w2"
    using hoare_retD [OF assms(4) w1] hoare_raiseD [OF assms(4) w1] by (cases r) auto
  with p c s show ?thesis
    using assms(1,2) by (auto simp: execute_body_def thenP_eval onW_def onT_def onS_def)
qed

lemma at_close:
  assumes "jb_target j = T" and "\<And>s. g (snd (so_close (su_source (jb_setup j)) s)) = g s" and "at f g x w"
  shows "at f g x (snd (close_drivers j w))"
proof -
  let ?w1 = "snd (tryP (onS (so_close (su_source (jb_setup j)))) (\<lambda>_. retP ()) w)"
  have 1: "at f g x ?w1"
    using assms(2) [of "w_source w"] assms(3) by (auto simp: tryP_eval onS_def at_def split: prod.splits sum.splits)
  then have 2: "at f g x (snd (tryP (onT (to_close T)) (\<lambda>_. retP ()) ?w1))"
    using quietD [OF close] by (auto simp: tryP_eval onT_def at_def split: prod.splits sum.splits)
  then show ?thesis
    using assms(1) by (auto simp: close_drivers_def thenP_eval tryP_eval split: prod.splits sum.splits)
qed

lemma execute_foreign:
  assumes "jb_target j = T" and "v \<noteq> Init" and "\<And>s. \<exists>s'. so_connect (su_source (jb_setup j)) s = (Inr (), s') \<and> g s' = g s"
    and "\<And>s. g (snd (so_close (su_source (jb_setup j)) s)) = g s" and "jb_ddl j \<noteq> None"
    and "recorded (w_target w) (rc_key (jb_context j)) = Some h" and "h \<noteq> rc_manifest_sha (jb_context j)"
    and "execute j v w = ((code, c), w')"
  shows "code = EXIT_CONFIG \<and> view (w_target w') = view (w_target w) \<and> recorded (w_target w') = recorded (w_target w) \<and>
    g (w_source w') = g (w_source w)"
proof -
  let ?x = "((view (w_target w), recorded (w_target w)), g (w_source w))"
  have "at (\<lambda>p. p) g ?x w" by (simp add: at_def)
  from execute_body_refused [OF assms(1-3) prepare_foreign [where vw = "view (w_target w)" and rs = "recorded (w_target w)" and src = "g (w_source w)" and g = g, OF assms(1,6,7,5)] this]
  obtain c1 w1 where b: "execute_body j v ([], w) = (Inl foreign_run, (c1, w1))" and w1: "at (\<lambda>p. p) g ?x w1" by blast
  have "is_ldm_error foreign_run" "exit_code foreign_run = EXIT_CONFIG" "is_foreign foreign_run" by (simp_all add: foreign_run_def)
  with b assms(8) have "code = EXIT_CONFIG" "w' = snd (close_drivers j w1)" by (auto simp: execute_def handle_error_def)
  with at_close [OF assms(1,4) w1] show ?thesis by (simp add: at_def)
qed

lemma execute_closed:
  assumes "jb_target j = T" and "v \<noteq> Init" and "\<And>s. \<exists>s'. so_connect (su_source (jb_setup j)) s = (Inr (), s') \<and> g s' = g s"
    and "\<And>s. g (snd (so_close (su_source (jb_setup j)) s)) = g s"
    and "ov_status (view (w_target w)) (rc_key (jb_context j)) = Some (RunClosed, cd)" and "execute j v w = ((code, c), w')"
  shows "code = EXIT_CONFIG \<and> ov_status (view (w_target w')) = ov_status (view (w_target w)) \<and>
    ov_staged (view (w_target w')) = ov_staged (view (w_target w)) \<and> g (w_source w') = g (w_source w)"
proof -
  let ?x = "((ov_status (view (w_target w)), ov_staged (view (w_target w))), g (w_source w))"
  have "at status_staged g ?x w" by (simp add: at_def)
  from execute_body_refused [OF assms(1-3) prepare_closed [where sts = "ov_status (view (w_target w))" and sg = "ov_staged (view (w_target w))" and src = "g (w_source w)" and g = g, OF assms(1,5)] this]
  obtain e c1 w1 where b: "execute_body j v ([], w) = (Inl e, (c1, w1))" and e: "is_config_error e"
    and w1: "at status_staged g ?x w1" by blast
  have still: "at status_staged g ?x (snd (mark_failed j n w1))" for n
    using w1 assms(5) quiet_snd [OF mark_failed_source, of j n w1] by (simp add: at_def mark_failed_view [OF assms(1)])
  have "is_ldm_error e" using e by (cases e) auto
  with config_error_exit [OF e] b assms(2,6) have "code = EXIT_CONFIG"
    "w' = snd (close_drivers j w1) \<or> (\<exists>n. w' = snd (close_drivers j (snd (mark_failed j n w1))))"
    by (auto simp: execute_def handle_error_def split: if_splits)
  with at_close [OF assms(1,4) w1] at_close [OF assms(1,4) still] show ?thesis by (auto simp: at_def)
qed

end

section \<open>The in-memory target\<close>

definition ft_recorded :: "fake_target \<Rightarrow> run_key \<Rightarrow> string option" where
  "ft_recorded t k = map_option ru_manifest_sha (ft_runs t k)"

lemma ft_more_frames [simp]:
  "ft_close_view (t\<lparr>ft_connected := b\<rparr>) = ft_close_view t" "ft_recorded (t\<lparr>ft_connected := b\<rparr>) = ft_recorded t"
  "ft_stg (t\<lparr>ft_ddl_applied := d\<rparr>) = ft_stg t" "ft_stg (t\<lparr>ft_ledger := l\<rparr>) = ft_stg t"
  "ft_run_state (t\<lparr>ft_ddl_applied := d\<rparr>) = ft_run_state t" "ft_run_state (t\<lparr>ft_ledger := l\<rparr>) = ft_run_state t"
  "ft_ledger_rows (t\<lparr>ft_ddl_applied := d\<rparr>) = ft_ledger_rows t" "ft_recorded (t\<lparr>ft_ddl_applied := d\<rparr>) = ft_recorded t"
  by (simp_all add: ft_close_view_def ft_stg_def staged_by_def [abs_def] ft_run_state_def ft_ledger_rows_def ft_recorded_def fun_eq_iff
      cong: option.case_cong)

interpretation fake_runner: steady_target "fake_target_ops sha" ft_close_view ft_recorded
proof unfold_locales
  fix sql name h k p img h' tabs t r t' st code and e :: ldm_error
  let ?T = "fake_target_ops sha" and ?b = "\<lambda>t. (ft_close_view t, ft_recorded t)"
  show "quiet ?b (to_connect ?T)" "quiet ?b (to_close ?T)" "quiet ?b (to_applied_ddl ?T)"
    by (auto simp: quiet_def fake_target_ops_def)
  show "quiet ?b (to_apply_ddl ?T sql name h)"
    by (auto simp: quiet_def fake_target_ops_def ft_apply_ddl_def ft_close_view_def)
  show "quiet ?b (to_refresh_run ?T k p img)"
    by (auto simp: quiet_def fake_target_ops_def ft_refresh_run_def ft_with_run_def ft_close_view_def ft_run_state_idem
        ft_recorded_def fun_eq_iff split: option.splits)
  show "quiet (\<lambda>t. (ov_status (ft_close_view t), ov_staged (ft_close_view t))) (to_ensure_ledger ?T k tabs)"
    by (auto simp: quiet_def fake_target_ops_def ft_ensure_ledger_def ft_close_view_def Let_def)
  show "ft_recorded t k = None \<longleftrightarrow> ov_status (ft_close_view t) k = None"
    by (simp add: ft_recorded_def ft_close_view_def ft_run_state_def)
  show "ft_recorded t k = Some h \<Longrightarrow> to_ensure_run ?T k p img h' t = (r, t') \<Longrightarrow>
      ft_close_view t' = ft_close_view t \<and> ft_recorded t' = ft_recorded t \<and> (\<forall>a. r = Inr a \<longrightarrow> a = h)"
    by (auto simp: fake_target_ops_def ft_ensure_run_def ft_recorded_def split: option.splits)
  show "reads ft_close_view (to_get_run_status ?T k) (\<lambda>v. map_option fst (ov_status v k))"
    by (rule readsI) (auto simp: fake_target_ops_def ft_get_run_status_def ft_close_view_def ft_run_state_def option.map_comp comp_def)
  show "\<exists>st t'. to_get_run_status ?T k t = (Inr st, t')" by (simp add: fake_target_ops_def ft_get_run_status_def)
  show "ov_status (ft_close_view t) k \<noteq> None \<Longrightarrow> \<exists>u t'. to_set_run_status ?T k st code t = (Inr u, t')"
    by (auto simp: fake_target_ops_def ft_set_run_status_def ft_with_run_def ft_close_view_def ft_run_state_def)
  show "\<exists>u t'. to_connect ?T t = (Inr u, t')" "\<exists>a t'. to_applied_ddl ?T t = (Inr a, t')"
    "\<exists>u t'. to_apply_ddl ?T sql name h t = (Inr u, t')" "\<exists>a t'. to_ensure_run ?T k p img h t = (Inr a, t')"
    "\<exists>u t'. to_ensure_ledger ?T k tabs t = (Inr u, t')"
    by (auto simp: fake_target_ops_def ft_apply_ddl_def ft_ensure_run_def ft_ensure_ledger_def split: option.splits)
  show "to_refresh_run ?T k p img t = (Inl e, t') \<Longrightarrow> ov_status (ft_close_view t) k = None"
    by (auto simp: fake_target_ops_def ft_refresh_run_def ft_with_run_def ft_close_view_def ft_run_state_def split: option.splits)
qed


text \<open>A CLOSED run is refused with exit code 4 by every verb but init: its status and its
  staging rows stay, and no row of the source changes.\<close>

theorem closed_run_untouched:
  assumes "su_source (jb_setup j) = fake_source_ops" and "jb_target j = fake_target_ops sha" and "v \<noteq> Init"
    and "ft_run_state (w_target w) (rc_key (jb_context j)) = Some (RunClosed, cd)" and "execute j v w = ((code, c), w')"
  shows "code = EXIT_CONFIG \<and> ft_run_state (w_target w') = ft_run_state (w_target w) \<and>
    ft_stg (w_target w') = ft_stg (w_target w) \<and> fs_tables (w_source w') = fs_tables (w_source w)"
proof -
  have "ov_status (ft_close_view (w_target w)) (rc_key (jb_context j)) = Some (RunClosed, cd)" using assms(4) by (simp add: ft_close_view_def)
  from fake_runner.execute_closed [where g = fs_tables, OF assms(2,3) _ _ this assms(5)] show ?thesis
    using assms(1) by (simp add: fake_source_ops_def ft_close_view_def)
qed

text \<open>C26. When the verb all (or reconcile) ends with exit code 0, the run has been closed, every
  ledger row accounts for every extracted row, and no staging row is left.\<close>

theorem success_closes_run:
  assumes "jb_target j = fake_target_ops sha" and "v = All \<or> v = Stage Reconcile" and "execute j v w = ((EXIT_OK, c), w')"
  shows "ft_run_state (w_target w') (rc_key (jb_context j)) = Some (RunClosed, Some EXIT_OK) \<and>
    (\<forall>row \<in> snd ` set (ft_ledger_rows (w_target w') (rc_key (jb_context j))). accounted (m_purge (rc_manifest (jb_context j))) row) \<and>
    (\<forall>table. ft_stg (w_target w') (rc_key (jb_context j)) table = [])"
  using fake_runner.execute_closes [OF assms] by (auto simp: all_close_iff ft_close_view_def fun_eq_iff)

text \<open>A run that fails with any code but that of a refused configuration is not left RUNNING:
  a later attempt sees it FAILED (or CLOSED) and can resume it.\<close>

theorem failed_run_not_running:
  assumes "jb_target j = fake_target_ops sha" and "v \<noteq> Init" and "execute j v w = ((code, c), w')"
    and "code \<noteq> EXIT_OK" and "code \<noteq> EXIT_CONFIG"
  shows "map_option fst (ft_run_state (w_target w') (rc_key (jb_context j))) \<noteq> Some RunRunning"
  using fake_runner.execute_fail_stops [OF assms] by (simp add: ft_close_view_def)

section \<open>Applying the DDL\<close>

locale ddl_target =
  fixes T :: "'t target_ops" and applied :: "'t \<Rightarrow> string \<Rightarrow> string option"
  assumes reading: "to_applied_ddl T t = (Inr a, t') \<Longrightarrow> map_of a = applied t \<and> applied t' = applied t"
    and recording: "to_apply_ddl T sql name h t = (Inr u, t') \<Longrightarrow> applied t' = (applied t)(name \<mapsto> h)"
begin

text \<open>The files before the current one are recorded; the others have their old entries.\<close>

definition recorded_upto ::
  "(bytes \<Rightarrow> bytes) \<Rightarrow> (string \<Rightarrow> string option) \<Rightarrow> (string \<times> string) list \<Rightarrow> ('s, 't, 'b) world \<Rightarrow> bool" where
  "recorded_upto sha old fs w \<longleftrightarrow> (\<forall>(n, sql) \<in> set fs. applied (w_target w) n = Some (sha_hex sha (utf8 sql))) \<and>
     (\<forall>n. n \<notin> fst ` set fs \<longrightarrow> applied (w_target w) n = old n)"

lemma apply_file_recorded:
  assumes "n \<notin> fst ` set fs" and "map_of app n = old n"
  shows "hoare (recorded_upto sha old fs) (apply_file T sha app (n, sql) names)
    (\<lambda>_. recorded_upto sha old (fs @ [(n, sql)])) (\<lambda>_ _. True)" (is "hoare ?P ?m ?Q _")
proof (rule hoareI)
  fix w names' w'
  assume w: "?P w" and run: "?m w = (Inr names', w')"
  show "?Q names' w'"
  proof (cases "map_of app n = Some (sha_hex sha (utf8 sql))")
    case True
    with w run assms show ?thesis by (auto simp: apply_file_def recorded_upto_def)
  next
    case False
    with run have "applied (w_target w') = (applied (w_target w))(n \<mapsto> sha_hex sha (utf8 sql))"
      by (auto simp: apply_file_def thenP_Inr onT_step Let_def dest!: recording)
    with w assms(1) show ?thesis by (force simp: recorded_upto_def)
  qed
qed simp

lemma apply_all_recorded:
  assumes "distinct (map fst fs)" and "map_of app = old"
  shows "hoare (recorded_upto sha old []) (foldP (apply_file T sha app) fs names) (\<lambda>_. recorded_upto sha old fs) (\<lambda>_ _. True)"
proof (rule hoare_fold_prefix [where I = "\<lambda>ps _. recorded_upto sha old ps"])
  fix ps p rest v
  assume fs: "fs = ps @ p # rest"
  obtain n sql where p: "p = (n, sql)" by (cases p)
  have "n \<notin> fst ` set ps" using assms(1) fs p by auto
  then show "hoare (recorded_upto sha old ps) (apply_file T sha app p v) (\<lambda>_. recorded_upto sha old (ps @ [p])) (\<lambda>_ _. True)"
    unfolding p by (rule apply_file_recorded) (simp add: assms(2))
qed

lemma apply_again:
  assumes "\<And>n sql. (n, sql) \<in> set fs \<Longrightarrow> map_of app n = Some (sha_hex sha (utf8 sql))"
  shows "foldP (apply_file T sha app) fs names w = (Inr names, w)"
  using assms by (induction fs) (auto simp: bindP_eval apply_file_def)

lemma apply_ddl_recorded:
  assumes "apply_ddl T sha (Some dir) w = (Inr names, w')" and "distinct (map fst dir)"
  shows "\<forall>(n, sql) \<in> set dir. is_sql n \<longrightarrow> applied (w_target w') n = Some (sha_hex sha (utf8 sql))"
proof -
  let ?fs = "sort_key fst (filter (\<lambda>(n, _). is_sql n) dir)"
  from assms(1) obtain app w1 where a: "onT (to_applied_ddl T) w = (Inr app, w1)"
    and f: "foldP (apply_file T sha app) ?fs [] w1 = (Inr names, w')"
    by (auto simp: apply_ddl_def bindP_Inr ddl_files_def)
  have old: "map_of app = applied (w_target w1)" using a reading by (auto simp: onT_step)
  have d: "distinct (map fst ?fs)" using assms(2) by (simp add: distinct_map inj_on_def)
  have "recorded_upto sha (applied (w_target w1)) ?fs w'"
    by (rule hoare_retD [OF apply_all_recorded [OF d old] _ f]) (simp add: recorded_upto_def)
  then show ?thesis by (auto simp: recorded_upto_def)
qed

lemma apply_ddl_twice:
  assumes "apply_ddl T sha (Some dir) w = (Inr names, w')" and "distinct (map fst dir)"
    and "to_applied_ddl T (w_target w') = (Inr app, t')"
  shows "apply_ddl T sha (Some dir) w' = (Inr [], w'\<lparr>w_target := t'\<rparr>)"
proof -
  have "map_of app = applied (w_target w')" using reading [OF assms(3)] by simp
  with apply_ddl_recorded [OF assms(1,2)]
  have "foldP (apply_file T sha app) (sort_key fst (filter (\<lambda>(n, _). is_sql n) dir)) [] (w'\<lparr>w_target := t'\<rparr>) =
      (Inr [], w'\<lparr>w_target := t'\<rparr>)"
    by (intro apply_again) auto
  with assms(3) show ?thesis by (simp add: apply_ddl_def bindP_eval onT_def ddl_files_def)
qed

end

interpretation fake_ddl: ddl_target "fake_target_ops sha" "\<lambda>t. map_of (ft_ddl_applied t)"
  by unfold_locales (auto simp: fake_target_ops_def ft_apply_ddl_def fun_eq_iff)

text \<open>Applying the DDL directory records the digest of every SQL file, and applying it again
  changes nothing and applies no file.\<close>

theorem apply_ddl_idempotent:
  assumes "apply_ddl (fake_target_ops sha') sha (Some dir) w = (Inr names, w')" and "distinct (map fst dir)"
  shows "(\<forall>(n, sql) \<in> set dir. is_sql n \<longrightarrow> map_of (ft_ddl_applied (w_target w')) n = Some (sha_hex sha (utf8 sql))) \<and>
    apply_ddl (fake_target_ops sha') sha (Some dir) w' = (Inr [], w')"
proof -
  have "to_applied_ddl (fake_target_ops sha') (w_target w') = (Inr (ft_ddl_applied (w_target w')), w_target w')"
    by (simp add: fake_target_ops_def)
  from fake_ddl.apply_ddl_twice [OF assms this] fake_ddl.apply_ddl_recorded [OF assms] show ?thesis by simp
qed

section \<open>An infrastructure error before the manifest check\<close>

text \<open>
  A job over the in-memory drivers. Its DDL directory and context are arguments; the identity stands
  for SHA-256.
\<close>

definition example_job :: "ddl_dir \<Rightarrow> run_context \<Rightarrow> (fake_source, fake_target, files) job" where
  "example_job dir ctx = \<lparr>jb_setup = \<lparr>su_context = ctx, su_source = fake_source_ops, su_target = fake_target_ops (\<lambda>b. b),
       su_blobs = no_blob_store\<rparr>, jb_sha = (\<lambda>b. b), jb_unloader = (\<lambda>_ _ _. None), jb_spark = (\<lambda>_ _ _. raiseP key_error),
     jb_links = (\<lambda>_. Inr []), jb_now = [], jb_ddl = dir, jb_os_env = [], jb_scripts = []\<rparr>"

definition other_manifest :: run_context where
  "other_manifest = (example_context True)\<lparr>rc_manifest_sha := ''11''\<rparr>"

text \<open>The manifest check comes after the DDL: a run that another manifest started and that is
  RUNNING is marked FAILED by an attempt whose DDL directory is missing.\<close>

theorem foreign_run_marked_failed:
  "ft_run_state (counted_target 0) (rc_key other_manifest) = Some (RunRunning, None) \<and>
   map_option ru_manifest_sha (ft_runs (counted_target 0) (rc_key other_manifest)) \<noteq> Some (rc_manifest_sha other_manifest) \<and>
   ft_run_state (w_target (snd (execute (example_job None other_manifest) (Stage Load) (example_world (counted_target 0)))))
     (rc_key other_manifest) = Some (RunFailed, Some 4)"
  by code_simp

section \<open>Witnesses\<close>

definition no_tables :: run_context where
  "no_tables = (example_context True)\<lparr>rc_tables := []\<rparr>"

lemma example_job_parts [simp]:
  "su_source (jb_setup (example_job dir ctx)) = fake_source_ops" "su_context (jb_setup (example_job dir ctx)) = ctx"
  "su_target (jb_setup (example_job dir ctx)) = fake_target_ops (\<lambda>b. b)" "jb_ddl (example_job dir ctx) = dir"
  "su_blobs (jb_setup (example_job dir ctx)) = no_blob_store" "jb_links (example_job dir ctx) = (\<lambda>_. Inr [])"
  "jb_spark (example_job dir ctx) = (\<lambda>_ _ _. raiseP key_error)"
  by (simp_all add: example_job_def)


definition closed_target :: fake_target where
  "closed_target = (counted_target 1)\<lparr>ft_runs := (\<lambda>_. Some \<lparr>ru_status = RunClosed, ru_exit_code = Some 0, ru_purge_enabled = True,
     ru_manifest_sha = ''00'', ru_sessions = []\<rparr>)\<rparr>"

theorem closed_run_untouched_witness:
  "fst (fst (execute (example_job (Some []) (example_context True)) All (example_world closed_target))) = EXIT_CONFIG"
proof -
  obtain code c w' where e: "execute (example_job (Some []) (example_context True)) All (example_world closed_target) = ((code, c), w')"
    by (metis prod.collapse)
  have "ft_run_state (w_target (example_world closed_target)) (rc_key (example_context True)) = Some (RunClosed, Some 0)"
    by (simp add: counted_facts closed_target_def ft_run_state_def)
  with closed_run_untouched [OF _ _ _ _ e] e show ?thesis by auto
qed

theorem failed_run_not_running_witness:
  "map_option fst (ft_run_state (w_target (snd (execute (example_job (Some []) no_tables) (Stage Load) (example_world (counted_target 0)))))
     (''run1'', ''r1-dev'')) \<noteq> Some RunRunning"
proof -
  obtain code c w' where e: "execute (example_job (Some []) no_tables) (Stage Load) (example_world (counted_target 0)) = ((code, c), w')"
    by (metis prod.collapse)
  have "fst (fst (execute (example_job (Some []) no_tables) (Stage Load) (example_world (counted_target 0)))) = 1"
    and k: "rc_key no_tables = (''run1'', ''r1-dev'')"
    by code_simp+
  with e have "code \<noteq> EXIT_OK" "code \<noteq> EXIT_CONFIG" by (simp_all add: EXIT_OK_def EXIT_CONFIG_def)
  from failed_run_not_running [OF _ _ e this] show ?thesis by (simp add: e k)
qed

lemma reconcile_job_succeeds:
  "\<exists>c w'. execute (example_job (Some []) (example_context True)) (Stage Reconcile) (example_world (counted_target 1)) = ((EXIT_OK, c), w')"
proof -
  let ?j = "example_job (Some []) (example_context True)"
  let ?w = "example_world (counted_target 1)\<lparr>w_target := (counted_target 1)\<lparr>ft_connected := True\<rparr>\<rparr>"
  have p: "fst (prepare_run ?j ?w) = Inr ()"
    and r: "\<not> Option.is_none (ft_runs (w_target (snd (prepare_run ?j ?w))) (''run1'', ''r1-dev''))"
    and l: "ft_ledger (w_target (snd (prepare_run ?j ?w))) (''run1'', ''r1-dev'') = Some [(''CUST'', counted 1)]"
    and c: "ft_class_totals (w_target (snd (prepare_run ?j ?w))) (''run1'', ''r1-dev'') = []"
    by code_simp+
  from r obtain r0 where r0: "ft_runs (w_target (snd (prepare_run ?j ?w))) (''run1'', ''r1-dev'') = Some r0"
    by (auto simp: Option.is_none_def)
  obtain out where out: "fst (reconcile_run (fake_target_ops (\<lambda>b. b)) no_blob_store (\<lambda>_. Inr []) (jb_now ?j) (example_context True)
      (snd (prepare_run ?j ?w))) = Inr out"
    using reconcile_returns [OF r0 l c] by blast
  have "execute_body ?j (Stage Reconcile) ([], example_world (counted_target 1)) =
      (Inr (), (merge_counts out [], snd (reconcile_run (fake_target_ops (\<lambda>b. b)) no_blob_store (\<lambda>_. Inr []) (jb_now ?j)
        (example_context True) (snd (prepare_run ?j ?w)))))"
    using p out
    by (auto simp: execute_body_def thenP_eval bindP_eval onW_def onT_def source_verb_def stages_of_def stage_step_def run_stage_def
        Let_def add_tables_def counted_facts fake_target_ops_def split: prod.splits)
  then show ?thesis by (auto simp: execute_def)
qed

theorem success_closes_run_witness:
  "fst (fst (execute (example_job (Some []) (example_context True)) (Stage Reconcile) (example_world (counted_target 1)))) = EXIT_OK \<and>
   ft_run_state (w_target (snd (execute (example_job (Some []) (example_context True)) (Stage Reconcile) (example_world (counted_target 1)))))
     (''run1'', ''r1-dev'') = Some (RunClosed, Some EXIT_OK)"
proof -
  from reconcile_job_succeeds obtain c w' where
    e: "execute (example_job (Some []) (example_context True)) (Stage Reconcile) (example_world (counted_target 1)) = ((EXIT_OK, c), w')"
    by blast
  from success_closes_run [OF _ _ e] e show ?thesis by (simp add: example_prefix)
qed

theorem target_verbs_spare_source_witness:
  "w_source (snd (execute ((example_job None (example_context True))\<lparr>jb_setup := (jb_setup (example_job None (example_context True)))
     \<lparr>su_source := unconfigured_source (Stage Load)\<rparr>\<rparr>) (Stage Load) (example_world ft_init))) = example_source"
proof -
  have a: "\<not> source_verb (Stage Load)" by (simp add: source_verb_def)
  show ?thesis
    by (rule trans [OF target_verbs_spare_source [OF a]]) (simp_all add: quiet_basic example_world_def)
qed

theorem apply_ddl_idempotent_witness:
  "map_of (ft_ddl_applied (w_target (snd (apply_ddl (fake_target_ops (\<lambda>b. b)) (\<lambda>b. b) (Some [(''a.sql'', ''x'')]) (example_world ft_init))))) ''a.sql'' =
     Some ''78''"
proof -
  let ?p = "apply_ddl (fake_target_ops (\<lambda>b. b)) (\<lambda>b. b) (Some [(''a.sql'', ''x'')]) (example_world ft_init)"
  have "fst ?p = Inr [''a.sql'']" by code_simp
  then have e: "?p = (Inr [''a.sql''], snd ?p)" by (metis prod.collapse)
  have "is_sql ''a.sql''" "sha_hex (\<lambda>b. b) (utf8 ''x'') = ''78''" by code_simp+
  with apply_ddl_idempotent [OF e] show ?thesis by simp
qed

end
