(* ===== verification/Ldm_Validate_Refine.thy ===== *)
theory Ldm_Validate_Refine
  imports Ldm_Validate
begin

text \<open>
  A reference for the VALIDATE stage that checks, counts and settles all staged rows of a table
  at once, and the proof, over any target that meets the contract, that the two streaming
  passes of \<open>validate_table\<close> leave exactly the verdicts of the reference.
\<close>

section \<open>The verdicts of a whole table\<close>

text \<open>
  The reference: all staged rows of a table in one list, checked and counted in one go, and
  each candidate settled by the class comparison. The stage streams them in two passes.
\<close>

definition checks_of :: "validate_view \<Rightarrow> run_key \<Rightarrow> table_spec \<Rightarrow> row_checks" where
  "checks_of v k ts = \<lparr>rk_archived = vv_archived v k (ts_name ts) (tc_key_columns (ts_config ts)),
     rk_parents_present = map_option (\<lambda>p. vv_present v k (ts_name ts) (pr_columns p) (pr_table p) (pr_references p))
       (sel_parent (tc_selection (ts_config ts)))\<rparr>"

definition staged_in_order :: "validate_view \<Rightarrow> run_key \<Rightarrow> string \<Rightarrow> staged_row list" where
  "staged_in_order v k n = sort_key sr_source_key (vv_staged v k n)"

definition successors_of :: "validate_view \<Rightarrow> run_context \<Rightarrow> table_spec \<Rightarrow> ldm_error + (string \<times> string) list" where
  "successors_of v ctx ts = (case Option.bind (tc_class_totals (ts_config ts)) ct_resolution of
       None \<Rightarrow> Inr []
     | Some res \<Rightarrow> bindE (rc_table ctx (cr_lookup_table res)) (\<lambda>lookup.
         foldE (add_successor res) (staged_in_order v (rc_key ctx) (ts_name lookup)) []))"

definition flip_of ::
  "class_totals \<Rightarrow> (string \<times> class_mismatch) list \<Rightarrow> string list \<Rightarrow> candidate \<Rightarrow> candidate option" where
  "flip_of ct mismatches moved c =
     (if cd_rule c \<noteq> None then None
      else map_option (\<lambda>mm. fail_class ct mm c)
             (class_hit mismatches moved (the (cd_source_class c)) (the (cd_target_class c))))"

definition settle ::
  "class_totals \<Rightarrow> (string \<times> class_mismatch) list \<Rightarrow> string list \<Rightarrow> candidate \<Rightarrow> candidate" where
  "settle ct mismatches moved c = (case flip_of ct mismatches moved c of None \<Rightarrow> c | Some c' \<Rightarrow> c')"

definition candidates_of ::
  "(bytes \<Rightarrow> bytes) \<Rightarrow> validate_view \<Rightarrow> run_context \<Rightarrow> table_spec \<Rightarrow> string \<Rightarrow> staged_row list \<Rightarrow> ldm_error + candidate list" where
  "candidates_of sha v ctx ts expr rows =
     mapE (candidate_of sha ts (vv_hash v (rc_key ctx) (ts_name ts) expr)) rows"

definition scan_table ::
  "(bytes \<Rightarrow> bytes) \<Rightarrow> validate_view \<Rightarrow> run_context \<Rightarrow> table_spec \<Rightarrow> ldm_error + candidate list \<times> pass_state" where
  "scan_table sha v ctx ts =
     bindE (successors_of v ctx ts) (\<lambda>successors.
     bindE (hash_sql ctx ts) (\<lambda>expr.
     bindE (candidates_of sha v ctx ts expr (staged_in_order v (rc_key ctx) (ts_name ts))) (\<lambda>cs.
     foldE (first_pass_row ts (checks_of v (rc_key ctx) ts) successors) cs ([], [], []))))"

definition target_classes :: "validate_view \<Rightarrow> run_context \<Rightarrow> table_spec \<Rightarrow> class_totals \<Rightarrow> class_sides" where
  "target_classes v ctx ts ct = vv_classes v (rc_key ctx) (ts_name ts) (ct_class_column ct) (ct_sum_columns ct)"

definition table_verdicts ::
  "(bytes \<Rightarrow> bytes) \<Rightarrow> validate_view \<Rightarrow> run_context \<Rightarrow> table_spec \<Rightarrow> ldm_error + candidate list" where
  "table_verdicts sha v ctx ts = bindE (scan_table sha v ctx ts) (\<lambda>(out, src, moved).
     Inr (case tc_class_totals (ts_config ts) of
            None \<Rightarrow> out
          | Some ct \<Rightarrow> map (settle ct (mismatches_of ts ct src (target_classes v ctx ts ct)) moved) out))"

section \<open>Facts about candidates\<close>

lemma fail_with_row [simp]: "cd_row (fail_with r f e c) = cd_row c"
  by (simp add: fail_with_def)

lemma fail_class_row [simp]: "cd_row (fail_class ct mm c) = cd_row c"
  by (simp add: fail_class_def)

lemma apply_checks_row: "apply_checks ts ck c = Inr c' \<Longrightarrow> cd_row c' = cd_row c"
  by (auto simp: apply_checks_def check_parent_def split: if_splits option.splits)

lemma classify_row: "classify ct ts succ c = Inr c' \<Longrightarrow> cd_row c' = cd_row c"
  by (auto simp: classify_def)

lemma candidate_of_row: "candidate_of sha ts th r = Inr c \<Longrightarrow> cd_row c = r"
  by (auto simp: candidate_of_def new_candidate_def split: option.splits)

lemma candidate_of_cong:
  assumes "th (sr_source_key r) = th' (sr_source_key r)"
  shows "candidate_of sha ts th r = candidate_of sha ts th' r"
  unfolding candidate_of_def assms ..

lemma mapE_Inr_map: "mapE f xs = Inr ys \<Longrightarrow> (\<And>x y. f x = Inr y \<Longrightarrow> g y = h x) \<Longrightarrow> map g ys = map h xs"
  by (induction xs arbitrary: ys) auto

lemma mapE_Inr_set: "mapE f xs = Inr ys \<Longrightarrow> y \<in> set ys \<Longrightarrow> \<exists>x \<in> set xs. f x = Inr y"
  by (induction xs arbitrary: ys) auto

lemma mapE_append: "mapE f (xs @ ys) = bindE (mapE f xs) (\<lambda>a. bindE (mapE f ys) (\<lambda>b. Inr (a @ b)))"
proof (induction xs)
  case Nil
  then show ?case by (cases "mapE f ys") auto
next
  case (Cons x xs)
  then show ?case by (cases "f x"; cases "mapE f xs"; cases "mapE f ys") auto
qed

lemma foldE_append: "foldE f (xs @ ys) v = bindE (foldE f xs v) (foldE f ys)"
proof (induction xs arbitrary: v)
  case Nil
  then show ?case by simp
next
  case (Cons x xs)
  then show ?case by (cases "f x v") auto
qed

lemma flip_of_row: "flip_of ct mm moved c = Some c' \<Longrightarrow> cd_row c' = cd_row c"
  by (auto simp: flip_of_def split: if_splits)

lemma settle_row [simp]: "cd_row (settle ct mm moved c) = cd_row c"
  by (auto simp: settle_def flip_of_def split: option.splits)

lemma judge_row_row: "judge_row ts ck succ c st = Inr (c', st') \<Longrightarrow> cd_row c' = cd_row c"
  by (auto simp: judge_row_def Let_def dest!: apply_checks_row classify_row split: option.splits)

lemma first_pass_Cons:
  "foldE (first_pass_row ts ck succ) (c # cs) (out, st) =
     bindE (judge_row ts ck succ c st) (\<lambda>(c', st'). foldE (first_pass_row ts ck succ) cs (out @ [c'], st'))"
  by (cases "judge_row ts ck succ c st") (auto simp: first_pass_row_def)

lemma first_pass_fold:
  assumes "foldE (first_pass_row ts ck succ) cs (out0, st) = Inr (out, st')"
  shows "\<exists>out1. out = out0 @ out1 \<and> map cd_row out1 = map cd_row cs \<and>
    (\<forall>o2. foldE (first_pass_row ts ck succ) cs (o2, st) = Inr (o2 @ out1, st'))"
  using assms
proof (induction cs arbitrary: st out0)
  case Nil
  then show ?case by simp
next
  case (Cons c cs)
  from Cons.prems obtain c' st1 where
    a: "judge_row ts ck succ c st = Inr (c', st1)"
    and b: "foldE (first_pass_row ts ck succ) cs (out0 @ [c'], st1) = Inr (out, st')"
    by (auto simp: first_pass_Cons simp del: foldE.simps)
  from Cons.IH [OF b] obtain out1 where out1: "out = (out0 @ [c']) @ out1" "map cd_row out1 = map cd_row cs"
    "\<forall>o2. foldE (first_pass_row ts ck succ) cs (o2, st1) = Inr (o2 @ out1, st')" by blast
  with judge_row_row [OF a] a show ?case
    by (intro exI [of _ "c' # out1"]) (simp add: first_pass_Cons del: foldE.simps)
qed

text \<open>The second pass, on the same candidates, flips what the settled verdict flips.\<close>

lemma second_pass_fold:
  assumes "tc_class_totals (ts_config ts) = Some ct"
    and "foldE (first_pass_row ts ck succ) cs (out0, st) = Inr (out0 @ out, st')"
    and "foldE (second_pass_row ts ct ck succ mm moved) cs fl0 = Inr fl"
  shows "fl = fl0 @ List.map_filter (flip_of ct mm moved) out"
  using assms(2,3)
proof (induction cs arbitrary: st out0 out fl0)
  case Nil
  then show ?case by (simp add: map_filter_simps)
next
  case (Cons c cs)
  from Cons.prems(1) obtain c' st1 where
    a: "judge_row ts ck succ c st = Inr (c', st1)"
    and b: "foldE (first_pass_row ts ck succ) cs (out0 @ [c'], st1) = Inr (out0 @ out, st')"
    by (auto simp: first_pass_Cons simp del: foldE.simps)
  from first_pass_fold [OF b] obtain out1 where out: "out = c' # out1" by auto
  from Cons.prems(2) obtain fl1 where
    c: "second_pass_row ts ct ck succ mm moved c fl0 = Inr fl1"
    and d: "foldE (second_pass_row ts ct ck succ mm moved) cs fl1 = Inr fl" by auto
  have "fl1 = fl0 @ (case flip_of ct mm moved c' of None \<Rightarrow> [] | Some x \<Rightarrow> [x])"
    using a c assms(1)
    by (auto simp: judge_row_def second_pass_row_def flip_row_def flip_of_def Let_def classify_def split: if_splits option.splits)
  moreover have "fl = fl1 @ List.map_filter (flip_of ct mm moved) out1"
    by (rule Cons.IH [of "out0 @ [c']" st1]) (use b d out in auto)
  ultimately show ?case by (simp add: out map_filter_simps split: option.split)
qed

section \<open>Facts about upserts\<close>

lemma vid_verdict [simp]: "vid (verdict ts c) = (ts_name ts, sr_source_key (cd_row c))"
  by (simp add: vid_def verdict_def Let_def)

lemma upsert_append:
  assumes "vid ` set xs \<inter> vid ` set ys = {}"
  shows "upsert ys (upsert xs V) = upsert (xs @ ys) V"
  using assms by (auto simp: upsert_def)

lemma upsert_override:
  assumes "set rs = set ys \<union> {v \<in> set xs. vid v \<notin> vid ` set ys}" and "vid ` set ys \<subseteq> vid ` set xs"
  shows "upsert ys (upsert xs V) = upsert rs V"
proof -
  have "vid ` set rs = vid ` set xs" using assms by auto
  then show ?thesis using assms unfolding upsert_def by blast
qed

text \<open>Flipping a candidate overrides its verdict of the first pass.\<close>

lemma flipped_upsert:
  assumes "distinct (map (\<lambda>c. sr_source_key (cd_row c)) out)" and "\<And>c c'. flip c = Some c' \<Longrightarrow> cd_row c' = cd_row c"
  shows "upsert (map (verdict ts) (List.map_filter flip out)) (upsert (map (verdict ts) out) V) =
    upsert (map (verdict ts) (map (\<lambda>c. case flip c of None \<Rightarrow> c | Some c' \<Rightarrow> c') out)) V"
proof (rule upsert_override)
  have fl: "set (List.map_filter flip out) = {c'. \<exists>c \<in> set out. flip c = Some c'}"
    by (force simp: map_filter_def)
  have vid: "vid (verdict ts c') = vid (verdict ts c)" if "flip c = Some c'" for c c'
    using assms(2) [OF that] by simp
  then show "vid ` set (map (verdict ts) (List.map_filter flip out)) \<subseteq> vid ` set (map (verdict ts) out)"
    by (force simp: fl simp del: vid_verdict)
  have inj: "c = d" if "c \<in> set out" "d \<in> set out" "vid (verdict ts c) = vid (verdict ts d)" for c d
    using assms(1) that by (auto simp: distinct_map inj_on_def)
  have K: "vid (verdict ts c) \<in> vid ` verdict ts ` set (List.map_filter flip out) \<longleftrightarrow> flip c \<noteq> None" if "c \<in> set out" for c
  proof
    assume "vid (verdict ts c) \<in> vid ` verdict ts ` set (List.map_filter flip out)"
    then obtain d d' where d: "d \<in> set out" "flip d = Some d'" "vid (verdict ts c) = vid (verdict ts d')"
      by (auto simp: fl simp del: vid_verdict)
    then have "c = d" using inj [OF that d(1)] vid [OF d(2)] by simp
    with d show "flip c \<noteq> None" by simp
  next
    assume "flip c \<noteq> None"
    then obtain c' where "flip c = Some c'" by auto
    with that vid [OF this] show "vid (verdict ts c) \<in> vid ` verdict ts ` set (List.map_filter flip out)"
      by (auto simp: fl image_iff simp del: vid_verdict)
  qed
  have "verdict ts ` (\<lambda>c. case flip c of None \<Rightarrow> c | Some c' \<Rightarrow> c') ` set out =
      verdict ts ` {c'. \<exists>c \<in> set out. flip c = Some c'} \<union> verdict ts ` {c \<in> set out. flip c = None}" (is "?L = ?R")
  proof
    show "?L \<subseteq> ?R" by (auto split: option.split intro!: imageI)
    show "?R \<subseteq> ?L" by (force simp: image_iff)
  qed
  moreover have "{v \<in> verdict ts ` set out. vid v \<notin> vid ` verdict ts ` set (List.map_filter flip out)} =
      verdict ts ` {c \<in> set out. flip c = None}"
  proof -
    have "{c \<in> set out. flip c = None} = {c \<in> set out. vid (verdict ts c) \<notin> vid ` verdict ts ` set (List.map_filter flip out)}"
      using K by blast
    then show ?thesis by (simp only: Compr_image_eq)
  qed
  ultimately show "set (map (verdict ts) (map (\<lambda>c. case flip c of None \<Rightarrow> c | Some c' \<Rightarrow> c') out)) =
      set (map (verdict ts) (List.map_filter flip out)) \<union>
      {v \<in> set (map (verdict ts) out). vid v \<notin> vid ` set (map (verdict ts) (List.map_filter flip out))}"
    by (simp only: set_map fl)
qed

section \<open>A loop over the staging batches\<close>

lemma sorted_key_bounds:
  assumes "sorted (map f xs)" and "x \<in> set xs"
  shows "f (hd xs) \<le> f x \<and> f x \<le> (f (last xs) :: 'a :: linorder)"
proof
  show "f (hd xs) \<le> f x" using assms by (cases xs) auto
  show "f x \<le> f (last xs)" using assms by (induction xs) auto
qed

lemma batch_sorted:
  assumes "concat (done @ batch # rest) = sort_key f xs"
  shows "sorted (map (f :: 'a \<Rightarrow> 'b :: linorder) batch)"
proof -
  have "sorted (map f (concat (done @ batch # rest)))" using assms by simp
  then show ?thesis by (simp add: sorted_append)
qed

context validate_target
begin

lemma onT_quiet: "quiet view m \<Longrightarrow> onT m w = (r, w') \<Longrightarrow> view (w_target w') = view (w_target w)"
  by (auto simp: onT_step dest: quietD)

lemma onT_reads:
  "reads view m f \<Longrightarrow> onT m w = (Inr a, w') \<Longrightarrow> view (w_target w') = view (w_target w) \<and> a = f (view (w_target w))"
  by (auto simp: onT_step dest: readsD)

text \<open>
  The rows whose batches are done convert to \<open>cs\<close>; \<open>I cs v\<close> is an invariant of the view.
\<close>

definition candidates_at where
  "candidates_at sha v0 ctx ts expr I done v w \<longleftrightarrow>
     (\<exists>cs. candidates_of sha v0 ctx ts expr (concat done) = Inr cs \<and> I cs v (view (w_target w)))"

lemma with_candidates_rule:
  assumes core: "\<And>done v x. I done v x \<Longrightarrow> same_core v0 x" and err: "\<And>done v x. I done v x \<Longrightarrow> E x"
    and step: "\<And>done cs rest rows v. staged_in_order v0 (rc_key ctx) (ts_name ts) = rows @ rest \<Longrightarrow>
       candidates_of sha v0 ctx ts expr rows = Inr (done @ cs) \<Longrightarrow>
       hoare (\<lambda>w. I done v (view (w_target w))) (step cs v) (\<lambda>u w. I (done @ cs) u (view (w_target w))) (\<lambda>_ w. E (view (w_target w)))"
    and all: "concat (done @ batch # rest) = staged_in_order v0 (rc_key ctx) (ts_name ts)"
  shows "hoare (candidates_at sha v0 ctx ts expr I done v :: ('s, 't, 'b) world \<Rightarrow> bool) (with_candidates T sha ctx ts expr step batch v)
     (candidates_at sha v0 ctx ts expr I (done @ [batch])) (\<lambda>_ w. E (view (w_target w)))"
proof (cases "batch = []")
  case True
  then show ?thesis by (auto simp: with_candidates_def candidates_at_def intro!: hoare_ret)
next
  case False
  let ?V = "\<lambda>w :: ('s, 't, 'b) world. view (w_target w)"
  let ?hash = "vv_hash v0 (rc_key ctx) (ts_name ts) expr"
  have srt: "sorted (map sr_source_key batch)"
    using batch_sorted all unfolding staged_in_order_def by blast
  show ?thesis
    unfolding with_candidates_def using False
  proof (simp, intro hoare_bind)
    let ?A = "\<lambda>hs. list_all (\<lambda>r. map_of hs (sr_source_key r) = ?hash (sr_source_key r)) batch"
    show "hoare (candidates_at sha v0 ctx ts expr I done v)
       (onT (to_target_hashes T (rc_key ctx) (ts_name ts) expr (sr_source_key (hd batch)) (sr_source_key (last batch))))
       (\<lambda>hs w. candidates_at sha v0 ctx ts expr I done v w \<and> ?A hs) (\<lambda>_ w. E (?V w))"
    proof (rule hoareI)
      fix w :: "('s, 't, 'b) world" and hs w'
      assume I: "candidates_at sha v0 ctx ts expr I done v w"
        and run: "onT (to_target_hashes T (rc_key ctx) (ts_name ts) expr (sr_source_key (hd batch)) (sr_source_key (last batch))) w = (Inr hs, w')"
      from run obtain t' where t': "to_target_hashes T (rc_key ctx) (ts_name ts) expr (sr_source_key (hd batch))
          (sr_source_key (last batch)) (w_target w) = (Inr hs, t')" "w' = w\<lparr>w_target := t'\<rparr>" by (auto simp: onT_step)
      from target_hashes [OF t'(1)] I have v: "view t' = ?V w"
        and hs: "map_of hs = vv_hash (?V w) (rc_key ctx) (ts_name ts) expr |` {key. sr_source_key (hd batch) \<le> key \<and> key \<le> sr_source_key (last batch)}"
        by auto
      have "same_core v0 (?V w)" using I core by (auto simp: candidates_at_def)
      then have "?A hs" using sorted_key_bounds [OF srt] by (auto simp: hs list_all_iff same_core_def restrict_map_def)
      with I v t'(2) show "candidates_at sha v0 ctx ts expr I done v w' \<and> ?A hs" by (simp add: candidates_at_def)
    next
      fix w :: "('s, 't, 'b) world" and e w'
      assume I: "candidates_at sha v0 ctx ts expr I done v w"
        and run: "onT (to_target_hashes T (rc_key ctx) (ts_name ts) expr (sr_source_key (hd batch)) (sr_source_key (last batch))) w = (Inl e, w')"
      then show "E (?V w')" using err by (auto simp: onT_step candidates_at_def dest!: target_hashes)
    qed
    fix hs
    show "hoare (\<lambda>w. candidates_at sha v0 ctx ts expr I done v w \<and> ?A hs) (liftP (mapE (candidate_of sha ts (map_of hs)) batch))
        (\<lambda>cs w. candidates_at sha v0 ctx ts expr I done v w \<and> mapE (candidate_of sha ts ?hash) batch = Inr cs) (\<lambda>_ w. E (?V w))"
    proof (rule hoare_pure_pre)
      assume A: "?A hs"
      have "mapE (candidate_of sha ts (map_of hs)) batch = mapE (candidate_of sha ts ?hash) batch"
        by (rule mapE_cong) (rule candidate_of_cong, use A in \<open>simp add: list_all_iff\<close>)
      then show "hoare (candidates_at sha v0 ctx ts expr I done v) (liftP (mapE (candidate_of sha ts (map_of hs)) batch))
        (\<lambda>cs w. candidates_at sha v0 ctx ts expr I done v w \<and> mapE (candidate_of sha ts ?hash) batch = Inr cs) (\<lambda>_ w. E (?V w))"
        by (intro hoareI) (auto simp: candidates_at_def dest: err)
    qed
    fix cs
    show "hoare (\<lambda>w. candidates_at sha v0 ctx ts expr I done v w \<and> mapE (candidate_of sha ts ?hash) batch = Inr cs) (step cs v)
       (candidates_at sha v0 ctx ts expr I (done @ [batch])) (\<lambda>_ w. E (?V w))"
    proof (rule hoare_pure_pre, unfold hoare_def candidates_at_def, intro allI impI, elim exE conjE)
      fix w :: "('s, 't, 'b) world" and ds
      assume cs: "mapE (candidate_of sha ts ?hash) batch = Inr cs"
        and ds: "candidates_of sha v0 ctx ts expr (concat done) = Inr ds" and I: "I ds v (?V w)"
      have "candidates_of sha v0 ctx ts expr (concat (done @ [batch])) = Inr (ds @ cs)"
        using cs ds by (simp add: candidates_of_def mapE_append)
      moreover have "staged_in_order v0 (rc_key ctx) (ts_name ts) = concat (done @ [batch]) @ concat rest"
        using all by simp
      ultimately have "hoare (\<lambda>w. I ds v (?V w)) (step cs v) (\<lambda>u w. I (ds @ cs) u (?V w)) (\<lambda>_ w. E (?V w))"
        using step by blast
      with I \<open>candidates_of sha v0 ctx ts expr (concat (done @ [batch])) = Inr (ds @ cs)\<close>
      show "case step cs v w of (Inl e, w') \<Rightarrow> E (?V w')
          | (Inr u, w') \<Rightarrow> \<exists>cs. candidates_of sha v0 ctx ts expr (concat (done @ [batch])) = Inr cs \<and> I cs u (?V w')"
        by (fastforce simp: hoare_def split: prod.splits sum.splits)
    qed
  qed
qed

text \<open>
  A loop over the batches: \<open>I cs v\<close> is an invariant of the view once the candidates \<open>cs\<close> are handled.
\<close>

lemma each_batch_rule:
  assumes pos: "0 < validate_batch_rows (m_batch (rc_manifest ctx))"
    and core: "\<And>done v x. I done v x \<Longrightarrow> same_core v0 x" and err: "\<And>done v x. I done v x \<Longrightarrow> E x"
    and step: "\<And>expr done cs rest rows v. staged_in_order v0 (rc_key ctx) (ts_name ts) = rows @ rest \<Longrightarrow>
       hash_sql ctx ts = Inr expr \<Longrightarrow> candidates_of sha v0 ctx ts expr rows = Inr (done @ cs) \<Longrightarrow>
       hoare (\<lambda>w. I done v (view (w_target w))) (step cs v) (\<lambda>u w. I (done @ cs) u (view (w_target w))) (\<lambda>_ w. E (view (w_target w)))"
  shows "hoare (\<lambda>w :: ('s, 't, 'b) world. I [] u0 (view (w_target w))) (each_batch T sha ctx ts step u0)
     (\<lambda>u w. \<exists>expr cs. hash_sql ctx ts = Inr expr \<and>
        candidates_of sha v0 ctx ts expr (staged_in_order v0 (rc_key ctx) (ts_name ts)) = Inr cs \<and> I cs u (view (w_target w)))
     (\<lambda>_ w. E (view (w_target w)))"
  unfolding each_batch_def
proof (rule hoare_bind)
  let ?V = "\<lambda>w :: ('s, 't, 'b) world. view (w_target w)"
  let ?rows = "staged_in_order v0 (rc_key ctx) (ts_name ts)"
  let ?Q = "\<lambda>u w. \<exists>expr cs. hash_sql ctx ts = Inr expr \<and> candidates_of sha v0 ctx ts expr ?rows = Inr cs \<and> I cs u (?V w)"
  show "hoare (\<lambda>w. I [] u0 (?V w)) (liftP (hash_sql ctx ts)) (\<lambda>x w. I [] u0 (?V w) \<and> hash_sql ctx ts = Inr x) (\<lambda>_ w. E (?V w))"
    by (rule hoareI) (auto dest: err)
  fix expr
  show "hoare (\<lambda>w. I [] u0 (?V w) \<and> hash_sql ctx ts = Inr expr)
     (bindP (onT (to_iter_staging T (rc_key ctx) (ts_name ts) (validate_batch_rows (m_batch (rc_manifest ctx))))) (\<lambda>batches.
        foldP (with_candidates T sha ctx ts expr step) batches u0)) ?Q (\<lambda>_ w. E (?V w))"
  proof (rule hoare_pure_pre, rule hoare_bind)
    assume x: "hash_sql ctx ts = Inr expr"
    show "hoare (\<lambda>w. I [] u0 (?V w))
        (onT (to_iter_staging T (rc_key ctx) (ts_name ts) (validate_batch_rows (m_batch (rc_manifest ctx)))))
        (\<lambda>bs w. I [] u0 (?V w) \<and> concat bs = ?rows) (\<lambda>_ w. E (?V w))"
    proof (rule hoareI)
      fix w :: "('s, 't, 'b) world" and bs w'
      assume I: "I [] u0 (?V w)"
        and run: "onT (to_iter_staging T (rc_key ctx) (ts_name ts) (validate_batch_rows (m_batch (rc_manifest ctx)))) w = (Inr bs, w')"
      then show "I [] u0 (?V w') \<and> concat bs = ?rows"
        using core [OF I] pos by (auto simp: onT_step staged_in_order_def same_core_def dest!: iter_staging)
    next
      fix w :: "('s, 't, 'b) world" and e w'
      assume I: "I [] u0 (?V w)"
        and run: "onT (to_iter_staging T (rc_key ctx) (ts_name ts) (validate_batch_rows (m_batch (rc_manifest ctx)))) w = (Inl e, w')"
      then show "E (?V w')" using err [OF I] by (auto simp: onT_step dest!: iter_staging)
    qed
    fix bs
    show "hoare (\<lambda>w. I [] u0 (?V w) \<and> concat bs = ?rows) (foldP (with_candidates T sha ctx ts expr step) bs u0) ?Q (\<lambda>_ w. E (?V w))"
    proof (rule hoare_pure_pre)
      assume all: "concat bs = ?rows"
      have "hoare (candidates_at sha v0 ctx ts expr I [] u0 :: ('s, 't, 'b) world \<Rightarrow> bool)
          (foldP (with_candidates T sha ctx ts expr step) bs u0)
          (candidates_at sha v0 ctx ts expr I bs) (\<lambda>_ w. E (?V w))"
        by (rule hoare_fold_prefix, rule with_candidates_rule [OF core err step [OF _ x]]) (use all in auto)
      then show "hoare (\<lambda>w. I [] u0 (?V w)) (foldP (with_candidates T sha ctx ts expr step) bs u0) ?Q (\<lambda>_ w. E (?V w))"
        by (rule hoare_conseq) (auto simp: candidates_at_def candidates_of_def x all)
    qed
  qed
qed

end

section \<open>The two passes refine the reference\<close>

context validate_target
begin

definition persisted :: "run_key \<Rightarrow> validation_row list \<Rightarrow> validate_view \<Rightarrow> validate_view \<Rightarrow> bool" where
  "persisted k rows x y \<longleftrightarrow>
     (\<exists>P. y = x\<lparr>vv_rows := (vv_rows x)(k := upsert rows (vv_rows x k)), vv_present := P\<rparr>)"

lemma persist_cases:
  fixes w :: "('s, 't, 'b) world"
  assumes "persist T ctx ts cs w = (r, w')"
  shows "persisted (rc_key ctx) (map (verdict ts) cs) (view (w_target w)) (view (w_target w')) \<or>
    view (w_target w') = view (w_target w) \<and> (\<exists>e. r = Inl e)"
proof -
  let ?P = "persisted (rc_key ctx) (map (verdict ts) cs) (view (w_target w))"
  let ?m = "thenP (onT (to_delete_rejects_keys T (rc_key ctx) (ts_name ts) Validate (map (\<lambda>c. sr_source_key (cd_row c)) cs)))
     (if map (validation_reject ts) (filter (\<lambda>c. cd_rule c \<noteq> None) cs) = [] then retP ()
      else onT (to_insert_rejects T (rc_key ctx) (map (validation_reject ts) (filter (\<lambda>c. cd_rule c \<noteq> None) cs)))) ::
      (('s, 't, 'b) world, ldm_error, unit) prog"
  have q: "keeps (\<lambda>w :: ('s, 't, 'b) world. ?P (view (w_target w))) ?m"
  proof (intro keeps_then keeps_if keeps_basic)
    show "keeps (\<lambda>w :: ('s, 't, 'b) world. ?P (view (w_target w))) (onT (to_delete_rejects_keys T k n st ks))" for k n st ks
      by (rule keepsI) (simp add: onT_quiet [OF delete_rejects])
    show "keeps (\<lambda>w :: ('s, 't, 'b) world. ?P (view (w_target w))) (onT (to_insert_rejects T k rjs))" for k rjs
      by (rule keepsI) (simp add: onT_quiet [OF insert_rejects])
  qed
  obtain r1 t1 where t1: "to_write_validation T (rc_key ctx) (map (verdict ts) cs) (w_target w) = (r1, t1)"
    by (rule prod.exhaust)
  then have on: "onT (to_write_validation T (rc_key ctx) (map (verdict ts) cs)) w = (r1, w\<lparr>w_target := t1\<rparr>)"
    by (simp add: onT_def)
  have eq: "persist T ctx ts cs = thenP (onT (to_write_validation T (rc_key ctx) (map (verdict ts) cs))) ?m"
    by (simp add: persist_def Let_def)
  show ?thesis
  proof (cases r1)
    case (Inl e)
    from write_fails [OF t1 [unfolded Inl]] on Inl assms show ?thesis by (auto simp: eq thenP_eval)
  next
    case (Inr u)
    with t1 have P: "?P (view t1)" by (auto simp: persisted_def dest: write_validation)
    from on Inr assms have m: "?m (w\<lparr>w_target := t1\<rparr>) = (r, w')" by (simp add: eq thenP_eval)
    have "?P (view (w_target w'))" by (rule keepsD [OF q _ m]) (simp add: P)
    then show ?thesis ..
  qed
qed

lemma persisted_core: "persisted k rows x y \<Longrightarrow> same_core x y"
  by (auto simp: persisted_def same_core_def)

lemma persisted_rows: "persisted k rows x y \<Longrightarrow> vv_rows y = (vv_rows x)(k := upsert rows (vv_rows x k))"
  by (auto simp: persisted_def)

text \<open>After the first pass over \<open>cs\<close> the judged candidates are the verdicts.\<close>

definition pass1_inv ::
  "validate_view \<Rightarrow> run_key \<Rightarrow> table_spec \<Rightarrow> row_checks \<Rightarrow> (string \<times> string) list \<Rightarrow> candidate list \<Rightarrow> pass_state \<Rightarrow>
   validate_view \<Rightarrow> bool" where
  "pass1_inv v0 k ts ck succ cs st x \<longleftrightarrow> same_core v0 x \<and>
     (\<exists>out. foldE (first_pass_row ts ck succ) cs ([], [], []) = Inr (out, st) \<and>
        vv_rows x = (vv_rows v0)(k := upsert (map (verdict ts) out) (vv_rows v0 k)))"

lemma candidates_keys:
  "candidates_of sha v ctx ts expr rows = Inr cs \<Longrightarrow> map (\<lambda>c. sr_source_key (cd_row c)) cs = map sr_source_key rows"
  unfolding candidates_of_def by (rule mapE_Inr_map) (auto dest: candidate_of_row)

lemma distinct_keys_disjoint:
  assumes "distinct (map (\<lambda>c. sr_source_key (cd_row c)) (xs @ ys))"
  shows "vid ` set (map (verdict ts) xs) \<inter> vid ` set (map (verdict ts) ys) = {}"
  using assms by force

lemma pass1_step:
  assumes "distinct (map (\<lambda>c. sr_source_key (cd_row c)) (done @ cs))"
  shows "hoare (\<lambda>w. pass1_inv v0 (rc_key ctx) ts ck succ done st (view (w_target w))) (first_pass T ctx ts ck succ cs st)
    (\<lambda>st' w. pass1_inv v0 (rc_key ctx) ts ck succ (done @ cs) st' (view (w_target w))) (\<lambda>_ _. True)"
proof (rule hoareI)
  fix w :: "('s, 't, 'b) world" and st' w'
  assume I: "pass1_inv v0 (rc_key ctx) ts ck succ done st (view (w_target w))"
    and run: "first_pass T ctx ts ck succ cs st w = (Inr st', w')"
  from I obtain out where core: "same_core v0 (view (w_target w))"
    and out: "foldE (first_pass_row ts ck succ) done ([], [], []) = Inr (out, st)"
    and rows: "vv_rows (view (w_target w)) = (vv_rows v0)(rc_key ctx := upsert (map (verdict ts) out) (vv_rows v0 (rc_key ctx)))"
    by (auto simp: pass1_inv_def)
  from run obtain new where new: "foldE (first_pass_row ts ck succ) cs ([], st) = Inr (new, st')"
    and p: "persist T ctx ts new w = (Inr (), w')"
    by (auto simp: first_pass_def bindP_Inr thenP_Inr)
  have both: "foldE (first_pass_row ts ck succ) (done @ cs) ([], [], []) = Inr (out @ new, st')"
    using out first_pass_fold [OF new] by (auto simp: foldE_append)
  have "map cd_row (out @ new) = map cd_row (done @ cs)"
    using first_pass_fold [OF both] by auto
  then have "map (sr_source_key \<circ> cd_row) (out @ new) = map (sr_source_key \<circ> cd_row) (done @ cs)"
    by (metis list.map_comp)
  then have "distinct (map (\<lambda>c. sr_source_key (cd_row c)) (out @ new))"
    using assms by (simp add: comp_def)
  from distinct_keys_disjoint [OF this] have disj: "vid ` set (map (verdict ts) out) \<inter> vid ` set (map (verdict ts) new) = {}" .
  from persist_cases [OF p] have ps: "persisted (rc_key ctx) (map (verdict ts) new) (view (w_target w)) (view (w_target w'))"
    by auto
  have "vv_rows (view (w_target w')) = (vv_rows v0)(rc_key ctx := upsert (map (verdict ts) (out @ new)) (vv_rows v0 (rc_key ctx)))"
    using persisted_rows [OF ps] upsert_append [OF disj] by (simp add: rows)
  moreover have "same_core v0 (view (w_target w'))" using core persisted_core [OF ps] by (rule same_core_trans)
  ultimately show "pass1_inv v0 (rc_key ctx) ts ck succ (done @ cs) st' (view (w_target w'))"
    using both by (auto simp: pass1_inv_def)
qed auto

text \<open>The second pass overrides the verdicts of the candidates it flips.\<close>

definition pass2_inv ::
  "validate_view \<Rightarrow> run_key \<Rightarrow> table_spec \<Rightarrow> class_totals \<Rightarrow> row_checks \<Rightarrow> (string \<times> string) list \<Rightarrow>
   (string \<times> class_mismatch) list \<Rightarrow> string list \<Rightarrow> candidate list \<Rightarrow> unit \<Rightarrow> validate_view \<Rightarrow> bool" where
  "pass2_inv v0 k ts ct ck succ mm moved cs u x \<longleftrightarrow> same_core v0 x \<and>
     (\<exists>fl. foldE (second_pass_row ts ct ck succ mm moved) cs [] = Inr fl \<and>
        vv_rows x = (vv_rows v0)(k := upsert (map (verdict ts) fl) (vv_rows v0 k)))"

lemma upsert_Nil [simp]: "upsert [] V = V"
  by (simp add: upsert_def)

lemma second_pass_row_prefix:
  assumes "foldE (second_pass_row ts ct ck succ mm moved) cs fl0 = Inr fl"
  shows "\<exists>fl1. fl = fl0 @ fl1 \<and> cd_row ` set fl1 \<subseteq> cd_row ` set cs \<and>
    (\<forall>f2. foldE (second_pass_row ts ct ck succ mm moved) cs f2 = Inr (f2 @ fl1))"
  using assms
proof (induction cs arbitrary: fl0)
  case Nil
  then show ?case by simp
next
  case (Cons c cs)
  from Cons.prems obtain fa where a: "second_pass_row ts ct ck succ mm moved c fl0 = Inr fa"
    and b: "foldE (second_pass_row ts ct ck succ mm moved) cs fa = Inr fl" by auto
  from a obtain o1 where o1: "flip_row ts ct ck succ mm moved c = Inr o1"
    and fa: "fa = (case o1 of None \<Rightarrow> fl0 | Some c' \<Rightarrow> fl0 @ [c'])" by (auto simp: second_pass_row_def)
  have "\<exists>x. fa = fl0 @ x \<and> cd_row ` set x \<subseteq> {cd_row c} \<and>
      (\<forall>f2. second_pass_row ts ct ck succ mm moved c f2 = Inr (f2 @ x))"
  proof (cases o1)
    case None
    with o1 fa show ?thesis by (simp add: second_pass_row_def)
  next
    case (Some c')
    then have "cd_row c' = cd_row c"
      using o1 by (auto simp: flip_row_def dest!: apply_checks_row classify_row split: if_splits)
    with Some o1 fa show ?thesis by (simp add: second_pass_row_def)
  qed
  then obtain x where x: "fa = fl0 @ x" "cd_row ` set x \<subseteq> {cd_row c}"
      "\<And>f2. second_pass_row ts ct ck succ mm moved c f2 = Inr (f2 @ x)" by blast
  from Cons.IH [OF b] obtain y where y: "fl = fa @ y" "cd_row ` set y \<subseteq> cd_row ` set cs"
      "\<And>f2. foldE (second_pass_row ts ct ck succ mm moved) cs f2 = Inr (f2 @ y)" by blast
  from x y show ?case by (intro exI [of _ "x @ y"]) auto
qed

lemma pass2_step:
  assumes "distinct (map (\<lambda>c. sr_source_key (cd_row c)) (done @ cs))"
  shows "hoare (\<lambda>w. pass2_inv v0 (rc_key ctx) ts ct ck succ mm moved done u (view (w_target w)))
    (second_pass T ctx ts ct ck succ mm moved cs u)
    (\<lambda>u w. pass2_inv v0 (rc_key ctx) ts ct ck succ mm moved (done @ cs) u (view (w_target w))) (\<lambda>_ _. True)"
proof (rule hoareI)
  fix w :: "('s, 't, 'b) world" and u' w'
  assume I: "pass2_inv v0 (rc_key ctx) ts ct ck succ mm moved done u (view (w_target w))"
    and run: "second_pass T ctx ts ct ck succ mm moved cs u w = (Inr u', w')"
  from I obtain fl where core: "same_core v0 (view (w_target w))"
    and fl: "foldE (second_pass_row ts ct ck succ mm moved) done [] = Inr fl"
    and rows: "vv_rows (view (w_target w)) = (vv_rows v0)(rc_key ctx := upsert (map (verdict ts) fl) (vv_rows v0 (rc_key ctx)))"
    by (auto simp: pass2_inv_def)
  from run obtain new where new: "foldE (second_pass_row ts ct ck succ mm moved) cs [] = Inr new"
    and p: "(if new = [] then retP () else persist T ctx ts new) w = (Inr (), w')"
    by (auto simp: second_pass_def bindP_Inr)
  have both: "foldE (second_pass_row ts ct ck succ mm moved) (done @ cs) [] = Inr (fl @ new)"
    using fl second_pass_row_prefix [OF new] by (auto simp: foldE_append)
  have sub: "cd_row ` set new \<subseteq> cd_row ` set cs" "cd_row ` set fl \<subseteq> cd_row ` set done"
    using second_pass_row_prefix [OF new] second_pass_row_prefix [OF fl] by auto
  have "(\<lambda>c. sr_source_key (cd_row c)) ` set fl \<inter> (\<lambda>c. sr_source_key (cd_row c)) ` set new = {}"
  proof -
    have "sr_source_key ` cd_row ` set done \<inter> sr_source_key ` cd_row ` set cs = {}"
      using assms by (auto simp: image_image)
    moreover have "sr_source_key ` cd_row ` set new \<subseteq> sr_source_key ` cd_row ` set cs"
      "sr_source_key ` cd_row ` set fl \<subseteq> sr_source_key ` cd_row ` set done" using sub by (auto intro: image_mono)
    ultimately show ?thesis unfolding image_image by blast
  qed
  then have disj: "vid ` set (map (verdict ts) fl) \<inter> vid ` set (map (verdict ts) new) = {}" by force
  have "same_core v0 (view (w_target w')) \<and>
      vv_rows (view (w_target w')) = (vv_rows v0)(rc_key ctx := upsert (map (verdict ts) (fl @ new)) (vv_rows v0 (rc_key ctx)))"
  proof (cases "new = []")
    case True
    with p core rows show ?thesis by simp
  next
    case False
    with p have "persist T ctx ts new w = (Inr (), w')" by simp
    from persist_cases [OF this] have ps: "persisted (rc_key ctx) (map (verdict ts) new) (view (w_target w)) (view (w_target w'))"
      by auto
    have "same_core v0 (view (w_target w'))" using core persisted_core [OF ps] by (rule same_core_trans)
    then show ?thesis using persisted_rows [OF ps] upsert_append [OF disj] by (simp add: rows)
  qed
  with both show "pass2_inv v0 (rc_key ctx) ts ct ck succ mm moved (done @ cs) u' (view (w_target w'))"
    by (auto simp: pass2_inv_def)
qed auto

lemma load_checks_value:
  "load_checks T ctx ts w = (Inr ck, w') \<Longrightarrow>
     view (w_target w') = view (w_target w) \<and> ck = checks_of (view (w_target w)) (rc_key ctx) ts"
  by (auto simp: load_checks_def Let_def bindP_Inr checks_of_def split: option.splits
      dest!: onT_reads [OF archived_hashes] onT_reads [OF parents_present])

lemma successor_map_value:
  assumes "0 < validate_batch_rows (m_batch (rc_manifest ctx))" and "successor_map T ctx ts w = (Inr s, w')"
  shows "view (w_target w') = view (w_target w) \<and> successors_of (view (w_target w)) ctx ts = Inr s"
proof (cases "Option.bind (tc_class_totals (ts_config ts)) ct_resolution")
  case None
  with assms(2) show ?thesis by (simp add: successor_map_def successors_of_def)
next
  case (Some res)
  with assms(2) obtain lookup bs t where
    "rc_table ctx (cr_lookup_table res) = Inr lookup"
    "to_iter_staging T (rc_key ctx) (ts_name lookup) (validate_batch_rows (m_batch (rc_manifest ctx))) (w_target w) = (Inr bs, t)"
    "foldE (add_successor res) (concat bs) [] = Inr s" "w' = w\<lparr>w_target := t\<rparr>"
    by (auto simp: successor_map_def bindP_Inr onT_step)
  with Some assms(1) show ?thesis by (auto simp: successors_of_def staged_in_order_def dest!: iter_staging)
qed

lemma finish_table_view:
  assumes "finish_table T ctx ts w = (r, w')"
  shows "same_core (view (w_target w)) (view (w_target w')) \<and> vv_rows (view (w_target w')) = vv_rows (view (w_target w))"
proof -
  let ?I = "\<lambda>u :: ('s, 't, 'b) world. same_core (view (w_target w)) (view (w_target u)) \<and>
     vv_rows (view (w_target u)) = vv_rows (view (w_target w))"
  have p: "keeps ?I (onT (to_promote T k n cs))" for k n cs
    by (rule keepsI) (auto simp: onT_step same_core_def dest!: promote)
  have c: "keeps ?I (onT (to_count_validation T k n vs))" for k n vs
    by (rule keepsI) (simp add: onT_quiet [OF count_validation])
  have u: "keeps ?I (onT (to_update_ledger T k n g))" for k n g
    by (rule keepsI) (simp add: onT_quiet [OF update_ledger])
  have g: "keeps ?I (onT (to_get_ledger T k))" for k
    by (rule keepsI) (simp add: onT_quiet [OF get_ledger])
  have "keeps ?I (finish_table T ctx ts)"
    unfolding finish_table_def ledger_entry_def Let_def
    by (intro keeps_bind keeps_then keeps_if keeps_basic p c u g) (auto split: option.split intro!: keeps_basic)
  from keepsD [OF this _ assms] show ?thesis by simp
qed

lemma candidates_distinct:
  assumes "distinct (map sr_source_key (vv_staged v0 k n))" and "staged_in_order v0 k n = rows @ rest"
    and "candidates_of sha v1 ctx ts expr rows = Inr cs"
  shows "distinct (map (\<lambda>c. sr_source_key (cd_row c)) cs)"
proof -
  have "distinct (map sr_source_key (staged_in_order v0 k n))"
    using assms(1) by (simp add: staged_in_order_def distinct_map)
  then show ?thesis using assms(2) candidates_keys [OF assms(3)] by (metis distinct_append map_append)
qed

lemma pass1_result:
  assumes "0 < validate_batch_rows (m_batch (rc_manifest ctx))" and "distinct (map sr_source_key (vv_staged v0 (rc_key ctx) (ts_name ts)))"
    and "view (w_target w) = v0" and "each_batch T sha ctx ts (first_pass T ctx ts ck succ) ([], []) w = (Inr st, w')"
  shows "\<exists>expr cs. hash_sql ctx ts = Inr expr \<and>
    candidates_of sha v0 ctx ts expr (staged_in_order v0 (rc_key ctx) (ts_name ts)) = Inr cs \<and>
    pass1_inv v0 (rc_key ctx) ts ck succ cs st (view (w_target w'))"
proof -
  let ?I = "pass1_inv v0 (rc_key ctx) ts ck succ"
  have "hoare (\<lambda>w. ?I [] ([], []) (view (w_target w))) (each_batch T sha ctx ts (first_pass T ctx ts ck succ) ([], []))
     (\<lambda>u w. \<exists>expr cs. hash_sql ctx ts = Inr expr \<and>
        candidates_of sha v0 ctx ts expr (staged_in_order v0 (rc_key ctx) (ts_name ts)) = Inr cs \<and> ?I cs u (view (w_target w)))
     (\<lambda>_ w. True)"
  proof (rule each_batch_rule [OF assms(1), where ?v0.0 = v0])
    fix expr "done" cs rest rows v
    assume all: "staged_in_order v0 (rc_key ctx) (ts_name ts) = rows @ rest"
      and cs: "candidates_of sha v0 ctx ts expr rows = Inr (done @ cs)"
    from candidates_distinct [OF assms(2) all cs] show "hoare (\<lambda>w. ?I done v (view (w_target w))) (first_pass T ctx ts ck succ cs v)
       (\<lambda>u w. ?I (done @ cs) u (view (w_target w))) (\<lambda>_ _. True)"
      by (rule pass1_step)
  qed (auto simp: pass1_inv_def)
  from hoare_retD [OF this _ assms(4)] show ?thesis using assms(3) by (simp add: pass1_inv_def)
qed

lemma pass2_result:
  assumes "0 < validate_batch_rows (m_batch (rc_manifest ctx))" and "distinct (map sr_source_key (vv_staged v0 (rc_key ctx) (ts_name ts)))"
    and "view (w_target w) = v0"
    and "each_batch T sha ctx ts (second_pass T ctx ts ct ck succ mm moved) () w = (Inr u, w')"
  shows "\<exists>expr cs. hash_sql ctx ts = Inr expr \<and>
    candidates_of sha v0 ctx ts expr (staged_in_order v0 (rc_key ctx) (ts_name ts)) = Inr cs \<and>
    pass2_inv v0 (rc_key ctx) ts ct ck succ mm moved cs u (view (w_target w'))"
proof -
  let ?I = "pass2_inv v0 (rc_key ctx) ts ct ck succ mm moved"
  have "hoare (\<lambda>w. ?I [] () (view (w_target w))) (each_batch T sha ctx ts (second_pass T ctx ts ct ck succ mm moved) ())
     (\<lambda>u w. \<exists>expr cs. hash_sql ctx ts = Inr expr \<and>
        candidates_of sha v0 ctx ts expr (staged_in_order v0 (rc_key ctx) (ts_name ts)) = Inr cs \<and> ?I cs u (view (w_target w)))
     (\<lambda>_ w. True)"
  proof (rule each_batch_rule [OF assms(1), where ?v0.0 = v0])
    fix expr "done" cs rest rows v
    assume all: "staged_in_order v0 (rc_key ctx) (ts_name ts) = rows @ rest"
      and cs: "candidates_of sha v0 ctx ts expr rows = Inr (done @ cs)"
    from candidates_distinct [OF assms(2) all cs] show "hoare (\<lambda>w. ?I done v (view (w_target w))) (second_pass T ctx ts ct ck succ mm moved cs v)
       (\<lambda>u w. ?I (done @ cs) u (view (w_target w))) (\<lambda>_ _. True)"
      by (rule pass2_step)
  qed (auto simp: pass2_inv_def)
  from hoare_retD [OF this _ assms(4)] show ?thesis using assms(3) by (simp add: pass2_inv_def)
qed

lemma candidates_same_core:
  "same_core v0 x \<Longrightarrow> candidates_of sha x ctx ts expr (staged_in_order x k n) = candidates_of sha v0 ctx ts expr (staged_in_order v0 k n)"
  by (simp add: candidates_of_def same_core_def staged_in_order_def)

lemma class_mismatches_value:
  assumes "class_mismatches T ctx ts ct src w = (Inr mm, w')"
  shows "view (w_target w') = view (w_target w) \<and> mm = mismatches_of ts ct src
    (vv_classes (view (w_target w)) (rc_key ctx) (ts_name ts) (ct_class_column ct) (ct_sum_columns ct))"
  using assms by (auto simp: class_mismatches_def bindP_Inr thenP_Inr dest!: onT_reads [OF class_aggregates] onT_quiet [OF class_totals])

text \<open>A table that validates gets exactly the verdicts of the reference.\<close>

lemma validate_table_refines:
  assumes pos: "0 < validate_batch_rows (m_batch (rc_manifest ctx))"
    and dist: "distinct (map sr_source_key (vv_staged (view (w_target w)) (rc_key ctx) (ts_name ts)))"
    and run: "validate_table T sha ctx ts w = (Inr out, w')"
  shows "\<exists>cs. table_verdicts sha (view (w_target w)) ctx ts = Inr cs \<and> same_core (view (w_target w)) (view (w_target w')) \<and>
    vv_rows (view (w_target w')) = (vv_rows (view (w_target w)))(rc_key ctx :=
      upsert (map (verdict ts) cs) (vv_rows (view (w_target w)) (rc_key ctx)))"
proof -
  let ?V = "\<lambda>w. view (w_target w)" and ?k = "rc_key ctx"
  from run obtain ck w1 succ w2 src moved w3 w4 where
    ck: "load_checks T ctx ts w = (Inr ck, w1)" and succ: "successor_map T ctx ts w1 = (Inr succ, w2)"
    and p1: "each_batch T sha ctx ts (first_pass T ctx ts ck succ) ([], []) w2 = (Inr (src, moved), w3)"
    and cl: "validate_classes T sha ctx ts ck succ (src, moved) w3 = (Inr (), w4)"
    and fin: "finish_table T ctx ts w4 = (Inr out, w')"
    by (auto simp: validate_table_def bindP_Inr thenP_Inr)
  from load_checks_value [OF ck] have w1: "?V w1 = ?V w" and ck': "ck = checks_of (?V w) ?k ts" by auto
  from successor_map_value [OF pos succ] have w2: "?V w2 = ?V w" and succ': "successors_of (?V w) ctx ts = Inr succ"
    by (auto simp: w1)
  from pass1_result [OF pos dist w2 p1] obtain expr cs o1 where expr: "hash_sql ctx ts = Inr expr"
    and cs: "candidates_of sha (?V w) ctx ts expr (staged_in_order (?V w) ?k (ts_name ts)) = Inr cs"
    and core3: "same_core (?V w) (?V w3)"
    and o1: "foldE (first_pass_row ts ck succ) cs ([], [], []) = Inr (o1, src, moved)"
    and rows3: "vv_rows (?V w3) = (vv_rows (?V w))(?k := upsert (map (verdict ts) o1) (vv_rows (?V w) ?k))"
    by (auto simp: pass1_inv_def)
  have fin': "same_core (?V w4) (?V w')" "vv_rows (?V w') = vv_rows (?V w4)" using finish_table_view [OF fin] by auto
  show ?thesis
  proof (cases "tc_class_totals (ts_config ts)")
    case None
    with cl have "w4 = w3" by (simp add: validate_classes_def)
    with None fin' core3 rows3 expr cs o1 succ' ck' show ?thesis
      by (auto simp: table_verdicts_def scan_table_def intro: same_core_trans)
  next
    case (Some ct)
    let ?mm = "mismatches_of ts ct src (vv_classes (?V w) ?k (ts_name ts) (ct_class_column ct) (ct_sum_columns ct))"
    from cl Some obtain w5 mm where mm: "class_mismatches T ctx ts ct src w3 = (Inr mm, w5)"
      and p2: "(if mm = [] then retP () else each_batch T sha ctx ts (second_pass T ctx ts ct ck succ mm moved) ()) w5 = (Inr (), w4)"
      unfolding validate_classes_def by (simp only: option.case fst_conv snd_conv bindP_Inr) blast
    from class_mismatches_value [OF mm] core3 have w5: "?V w5 = ?V w3" and mm': "mm = ?mm"
      by (auto simp: same_core_def)
    have ref: "table_verdicts sha (?V w) ctx ts = Inr (map (settle ct mm moved) o1)"
      using Some expr cs o1 succ' ck' by (simp add: table_verdicts_def scan_table_def target_classes_def mm')
    have keys: "distinct (map (\<lambda>c. sr_source_key (cd_row c)) o1)"
    proof -
      have "map cd_row o1 = map cd_row cs" using first_pass_fold [OF o1] by auto
      then have "map sr_source_key (map cd_row o1) = map sr_source_key (staged_in_order (?V w) ?k (ts_name ts))"
        using candidates_keys [OF cs] by (simp add: comp_def)
      then show ?thesis using dist by (simp add: staged_in_order_def distinct_map comp_def)
    qed
    have "same_core (?V w) (?V w4) \<and> vv_rows (?V w4) =
        (vv_rows (?V w))(?k := upsert (map (verdict ts) (map (settle ct mm moved) o1)) (vv_rows (?V w) ?k))"
    proof (cases "mm = []")
      case True
      have "settle ct [] moved c = c" for c
        by (simp add: settle_def flip_of_def class_hit_def)
      then show ?thesis using True p2 w5 core3 rows3 by (simp add: map_idI)
    next
      case False
      with p2 have "each_batch T sha ctx ts (second_pass T ctx ts ct ck succ mm moved) () w5 = (Inr (), w4)" by simp
      from pass2_result [OF pos _ w5 this] dist core3 obtain expr2 cs2 fl where expr2: "hash_sql ctx ts = Inr expr2"
        and cs2: "candidates_of sha (?V w3) ctx ts expr2 (staged_in_order (?V w3) ?k (ts_name ts)) = Inr cs2"
        and core4: "same_core (?V w3) (?V w4)"
        and fl: "foldE (second_pass_row ts ct ck succ mm moved) cs2 [] = Inr fl"
        and rows4: "vv_rows (?V w4) = (vv_rows (?V w3))(?k := upsert (map (verdict ts) fl) (vv_rows (?V w3) ?k))"
        by (auto simp: pass2_inv_def same_core_def)
      have "cs2 = cs" using cs2 cs expr expr2 candidates_same_core [OF core3] by simp
      with second_pass_fold [OF Some _ fl, of "[]" "([], [])" o1 "(src, moved)"] o1 fl
      have "fl = List.map_filter (flip_of ct mm moved) o1" by simp
      then have "upsert (map (verdict ts) fl) (upsert (map (verdict ts) o1) (vv_rows (?V w) ?k)) =
          upsert (map (verdict ts) (map (settle ct mm moved) o1)) (vv_rows (?V w) ?k)"
        using flipped_upsert [OF keys, of "flip_of ct mm moved" ts, OF flip_of_row] by (simp add: settle_def [abs_def])
      with rows4 rows3 core3 core4 show ?thesis by (auto intro: same_core_trans)
    qed
    with ref fin' show ?thesis by (auto intro: same_core_trans)
  qed
qed

end

end
