(* ===== verification/Ldm_Validate_Facts.thy ===== *)
theory Ldm_Validate_Facts
  imports Ldm_Validate_Refine
begin

text \<open>
  What the VALIDATE stage guarantees: only verified rows become purge-safe, whatever a run
  returns; the interpretation of the contract on the in-memory target; the agreement of class
  totals for validated rows; the witnesses.
\<close>

section \<open>Only verified rows become purge-safe\<close>

text \<open>
  \<open>verified v k ts r\<close>: the validation row belongs to a staged row of a data table whose raw bytes
  convert, and the hash of its source values is the hash the target computes for its key.
\<close>

definition source_verified :: "(bytes \<Rightarrow> bytes) \<Rightarrow> table_spec \<Rightarrow> staged_row \<Rightarrow> bytes \<Rightarrow> bool" where
  "source_verified sha ts r h \<longleftrightarrow> (\<exists>conv. convert_record (sr_raw r) (ts_columns ts) = Inr conv \<and> cv_error conv = None \<and>
     source_hash sha (cv_source_text conv) (tc_hash_columns (ts_config ts)) (ts_columns ts) = Inr h)"

definition verified :: "(bytes \<Rightarrow> bytes) \<Rightarrow> validate_view \<Rightarrow> run_context \<Rightarrow> table_spec \<Rightarrow> validation_row \<Rightarrow> bool" where
  "verified sha v ctx ts vr \<longleftrightarrow> vr_table vr = ts_name ts \<and> vr_status vr = Validated \<and> tc_role (ts_config ts) = DataTable \<and>
     (\<exists>r \<in> set (vv_staged v (rc_key ctx) (ts_name ts)). \<exists>h expr. sr_source_key r = vr_source_key vr \<and> source_verified sha ts r h \<and>
        hash_sql ctx ts = Inr expr \<and> vv_hash v (rc_key ctx) (ts_name ts) expr (sr_source_key r) = Some h \<and>
        vr_source_hash vr = Some h \<and> vr_target_hash vr = Some h)"

definition candidate_ok :: "(bytes \<Rightarrow> bytes) \<Rightarrow> validate_view \<Rightarrow> run_context \<Rightarrow> table_spec \<Rightarrow> string \<Rightarrow> candidate \<Rightarrow> bool" where
  "candidate_ok sha v ctx ts expr c \<longleftrightarrow> cd_row c \<in> set (vv_staged v (rc_key ctx) (ts_name ts)) \<and>
     (cd_rule c = None \<longrightarrow> source_verified sha ts (cd_row c) (cd_source_hash c) \<and>
        cd_target_hash c = vv_hash v (rc_key ctx) (ts_name ts) expr (sr_source_key (cd_row c)))"

lemma candidates_ok:
  assumes "candidates_of sha v ctx ts expr rows = Inr cs" and "staged_in_order v (rc_key ctx) (ts_name ts) = rows @ rest"
    and "c \<in> set cs"
  shows "candidate_ok sha v ctx ts expr c"
proof -
  from assms(1,3) obtain r where r: "r \<in> set rows"
    "candidate_of sha ts (vv_hash v (rc_key ctx) (ts_name ts) expr) r = Inr c"
    unfolding candidates_of_def by (blast dest: mapE_Inr_set)
  have "r \<in> set (staged_in_order v (rc_key ctx) (ts_name ts))" using assms(2) r(1) by simp
  then have "r \<in> set (vv_staged v (rc_key ctx) (ts_name ts))" by (simp add: staged_in_order_def)
  with r(2) show ?thesis
    by (auto simp: candidate_ok_def candidate_of_def source_verified_def new_candidate_def split: option.splits)
qed

lemma apply_checks_passed:
  "apply_checks ts ck c = Inr c' \<Longrightarrow> cd_rule c' = None \<Longrightarrow> c' = c \<and> cd_target_hash c = Some (cd_source_hash c)"
  by (auto simp: apply_checks_def check_parent_def fail_with_def split: if_splits option.splits)

definition verified_row where
  "verified_row sha v ctx ts c \<longleftrightarrow> (vr_purge_safe (verdict ts c) \<longrightarrow> verified sha v ctx ts (verdict ts c))"

lemma judged_verified:
  assumes "candidate_ok sha v ctx ts expr c" and "hash_sql ctx ts = Inr expr" and "judge_row ts ck succ c st = Inr (c', st')"
  shows "verified_row sha v ctx ts c'"
proof -
  from assms(3) obtain c1 where c1: "apply_checks ts ck c = Inr c1"
    and c': "cd_row c' = cd_row c1" "cd_rule c' = cd_rule c1" "cd_source_hash c' = cd_source_hash c1" "cd_target_hash c' = cd_target_hash c1"
    by (auto simp: judge_row_def classify_def Let_def split: option.splits)
  show ?thesis
  proof (cases "cd_rule c1")
    case None
    from apply_checks_passed [OF c1 None] have p: "c1 = c" "cd_target_hash c = Some (cd_source_hash c)" by auto
    with assms(1) None have ok: "cd_row c \<in> set (vv_staged v (rc_key ctx) (ts_name ts))"
      "source_verified sha ts (cd_row c) (cd_source_hash c)"
      "vv_hash v (rc_key ctx) (ts_name ts) expr (sr_source_key (cd_row c)) = Some (cd_source_hash c)"
      by (auto simp: candidate_ok_def)
    from p(2) c' None show ?thesis
      unfolding verified_row_def verified_def verdict_def Let_def p(1)
      by (auto simp: assms(2) intro!: bexI [OF _ ok(1)] exI [of _ "cd_source_hash c"] ok(2,3))
  next
    case (Some r)
    then show ?thesis using c' by (simp add: verified_row_def verdict_def Let_def)
  qed
qed

lemma first_pass_verified:
  assumes "foldE (first_pass_row ts ck succ) cs (out0, st) = Inr (out, st')" and "hash_sql ctx ts = Inr expr"
    and "\<And>c. c \<in> set cs \<Longrightarrow> candidate_ok sha v ctx ts expr c" and "\<And>c. c \<in> set out0 \<Longrightarrow> verified_row sha v ctx ts c"
  shows "\<forall>c \<in> set out. verified_row sha v ctx ts c"
proof -
  have "\<forall>c \<in> set (fst (out, st')). verified_row sha v ctx ts c"
    using assms(1) by (rule foldE_invariant) (use assms(2-4) judged_verified in \<open>fastforce simp: first_pass_row_def\<close>)+
  then show ?thesis by simp
qed

lemma flipped_not_safe: "flip_row ts ct ck succ mm moved c = Inr (Some c') \<Longrightarrow> verified_row sha v ctx ts c'"
  by (auto simp: flip_row_def verified_row_def verdict_def Let_def fail_class_def fail_with_def split: if_splits)

lemma second_pass_verified:
  assumes "foldE (second_pass_row ts ct ck succ mm moved) cs fl0 = Inr fl" and "\<And>c. c \<in> set fl0 \<Longrightarrow> verified_row sha v ctx ts c"
  shows "\<forall>c \<in> set fl. verified_row sha v ctx ts c"
  using assms(1) by (rule foldE_invariant)
    (use assms(2) in \<open>auto simp: second_pass_row_def dest: flipped_not_safe split: option.splits\<close>)

context validate_target
begin

definition safe_inv ::
  "(bytes \<Rightarrow> bytes) \<Rightarrow> validate_view \<Rightarrow> run_context \<Rightarrow> table_spec set \<Rightarrow> validate_view \<Rightarrow> bool" where
  "safe_inv sha v0 ctx tss x \<longleftrightarrow> same_core v0 x \<and> (\<forall>k. \<forall>r \<in> vv_rows x k. r \<in> vv_rows v0 k \<or>
     k = rc_key ctx \<and> (vr_purge_safe r \<longrightarrow> (\<exists>ts \<in> tss. verified sha v0 ctx ts r)))"

lemma safe_inv_rows: "safe_inv sha v0 ctx tss x \<Longrightarrow> same_core x y \<Longrightarrow> vv_rows y = vv_rows x \<Longrightarrow> safe_inv sha v0 ctx tss y"
  by (auto simp: safe_inv_def same_core_def)

lemma safe_quiet: "quiet view m \<Longrightarrow> keeps (\<lambda>w. safe_inv sha v0 ctx tss (view (w_target w))) (onT m)"
  by (rule keepsI) (simp add: onT_quiet)

lemma persist_safe:
  assumes "ts \<in> tss" and "\<forall>c \<in> set cs. verified_row sha v0 ctx ts c"
  shows "keeps (\<lambda>w. safe_inv sha v0 ctx tss (view (w_target w))) (persist T ctx ts cs)"
proof (rule keepsI)
  fix w :: "('s, 't, 'b) world" and r w'
  assume I: "safe_inv sha v0 ctx tss (view (w_target w))" and run: "persist T ctx ts cs w = (r, w')"
  from persist_cases [OF run] show "safe_inv sha v0 ctx tss (view (w_target w'))"
  proof
    assume p: "persisted (rc_key ctx) (map (verdict ts) cs) (view (w_target w)) (view (w_target w'))"
    have "same_core v0 (view (w_target w'))" using I persisted_core [OF p] by (auto simp: safe_inv_def intro: same_core_trans)
    moreover have "q \<in> vv_rows v0 k \<or> k = rc_key ctx \<and> (vr_purge_safe q \<longrightarrow> (\<exists>ts \<in> tss. verified sha v0 ctx ts q))"
      if "q \<in> vv_rows (view (w_target w')) k" for k q
    proof -
      from that have "q \<in> vv_rows (view (w_target w)) k \<or> k = rc_key ctx \<and> q \<in> verdict ts ` set cs"
        by (auto simp: persisted_rows [OF p] upsert_def fun_upd_apply simp del: split_paired_All split: if_splits)
      then show ?thesis
      proof
        assume "q \<in> vv_rows (view (w_target w)) k"
        with I show ?thesis unfolding safe_inv_def by blast
      next
        assume "k = rc_key ctx \<and> q \<in> verdict ts ` set cs"
        with assms show ?thesis unfolding verified_row_def by auto
      qed
    qed
    ultimately show ?thesis unfolding safe_inv_def by blast
  qed (use I in simp)
qed

lemma first_pass_safe:
  assumes "ts \<in> tss" and "hash_sql ctx ts = Inr expr" and "\<And>c. c \<in> set cs \<Longrightarrow> candidate_ok sha v0 ctx ts expr c"
  shows "keeps (\<lambda>w. safe_inv sha v0 ctx tss (view (w_target w))) (first_pass T ctx ts ck succ cs st)"
  unfolding first_pass_def
proof (rule keeps_bind_value [where p = "\<lambda>(out, st'). \<forall>c \<in> set out. verified_row sha v0 ctx ts c"])
  let ?I = "\<lambda>w :: ('s, 't, 'b) world. safe_inv sha v0 ctx tss (view (w_target w))"
  show "hoare ?I (liftP (foldE (first_pass_row ts ck succ) cs ([], st)))
     (\<lambda>a w. ?I w \<and> (case a of (out, st') \<Rightarrow> \<forall>c \<in> set out. verified_row sha v0 ctx ts c)) (\<lambda>_. ?I)"
    by (rule hoareI; clarsimp) (drule first_pass_verified [OF _ assms(2,3)], auto)
  show "(case a of (out, st') \<Rightarrow> \<forall>c \<in> set out. verified_row sha v0 ctx ts c) \<Longrightarrow>
      keeps ?I (case a of (out, st') \<Rightarrow> thenP (persist T ctx ts out) (retP st'))" for a
    by (cases a) (auto intro!: keeps_then persist_safe [OF assms(1)] keeps_basic)
qed

lemma second_pass_safe:
  assumes "ts \<in> tss"
  shows "keeps (\<lambda>w. safe_inv sha v0 ctx tss (view (w_target w))) (second_pass T ctx ts ct ck succ mm moved cs u)"
  unfolding second_pass_def
proof (rule keeps_bind_value [where p = "\<lambda>fl. \<forall>c \<in> set fl. verified_row sha v0 ctx ts c"])
  let ?I = "\<lambda>w :: ('s, 't, 'b) world. safe_inv sha v0 ctx tss (view (w_target w))"
  show "hoare ?I (liftP (foldE (second_pass_row ts ct ck succ mm moved) cs []))
     (\<lambda>a w. ?I w \<and> (\<forall>c \<in> set a. verified_row sha v0 ctx ts c)) (\<lambda>_. ?I)"
    by (rule hoareI; clarsimp) (drule second_pass_verified [where v = v0], auto)
  show "\<forall>c \<in> set fl. verified_row sha v0 ctx ts c \<Longrightarrow> keeps ?I (if fl = [] then retP () else persist T ctx ts fl)" for fl
    by (auto intro!: persist_safe [OF assms] keeps_basic)
qed

lemma each_batch_safe:
  assumes "0 < validate_batch_rows (m_batch (rc_manifest ctx))"
    and "\<And>expr cs v. hash_sql ctx ts = Inr expr \<Longrightarrow> (\<And>c. c \<in> set cs \<Longrightarrow> candidate_ok sha v0 ctx ts expr c) \<Longrightarrow>
       keeps (\<lambda>w :: ('s, 't, 'b) world. safe_inv sha v0 ctx tss (view (w_target w))) (step cs v)"
  shows "keeps (\<lambda>w :: ('s, 't, 'b) world. safe_inv sha v0 ctx tss (view (w_target w))) (each_batch T sha ctx ts step u0)"
proof -
  let ?I = "\<lambda>w :: ('s, 't, 'b) world. safe_inv sha v0 ctx tss (view (w_target w))"
  have "hoare ?I (each_batch T sha ctx ts step u0)
    (\<lambda>u w. \<exists>expr cs. hash_sql ctx ts = Inr expr \<and>
        candidates_of sha v0 ctx ts expr (staged_in_order v0 (rc_key ctx) (ts_name ts)) = Inr cs \<and> ?I w) (\<lambda>_. ?I)"
  proof (rule each_batch_rule [OF assms(1), where I = "\<lambda>_ _. safe_inv sha v0 ctx tss" and ?v0.0 = v0 and E = "safe_inv sha v0 ctx tss"])
    fix expr "done" cs rest rows v
    assume all: "staged_in_order v0 (rc_key ctx) (ts_name ts) = rows @ rest" and x: "hash_sql ctx ts = Inr expr"
      and cs: "candidates_of sha v0 ctx ts expr rows = Inr (done @ cs)"
    show "hoare ?I (step cs v) (\<lambda>_. ?I) (\<lambda>_. ?I)"
      using assms(2) [OF x] candidates_ok [OF cs all] by (simp add: keeps_def)
  qed (auto simp: safe_inv_def)
  then show ?thesis unfolding keeps_def by (rule hoare_conseq) auto
qed

lemma validate_table_safe:
  assumes pos: "0 < validate_batch_rows (m_batch (rc_manifest ctx))" and "ts \<in> tss"
  shows "keeps (\<lambda>w :: ('s, 't, 'b) world. safe_inv sha v0 ctx tss (view (w_target w))) (validate_table T sha ctx ts)"
proof -
  let ?I = "\<lambda>w :: ('s, 't, 'b) world. safe_inv sha v0 ctx tss (view (w_target w))"
  have iter: "keeps ?I (onT (to_iter_staging T k n b))" for k n b
    by (rule safe_quiet) (auto simp: quiet_def dest: iter_staging)
  have checks: "keeps ?I (load_checks T ctx ts)"
    unfolding load_checks_def Let_def
    by (auto intro!: keeps_bind keeps_basic safe_quiet reads_quiet [OF archived_hashes] reads_quiet [OF parents_present]
        split: option.split)
  have succ: "keeps ?I (successor_map T ctx ts)"
    unfolding successor_map_def by (auto intro!: keeps_bind keeps_basic iter split: option.split)
  have mism: "keeps ?I (class_mismatches T ctx ts ct src)" for ct src
    unfolding class_mismatches_def
    by (intro keeps_bind keeps_then keeps_basic safe_quiet reads_quiet [OF class_aggregates] class_totals)
  have fin: "keeps ?I (finish_table T ctx ts)"
    by (rule keepsI) (auto dest!: finish_table_view intro: safe_inv_rows)
  have p1: "keeps ?I (each_batch T sha ctx ts (first_pass T ctx ts ck s) u)" for ck s u
    by (rule each_batch_safe [OF pos]) (rule first_pass_safe [OF assms(2)])
  have p2: "keeps ?I (each_batch T sha ctx ts (second_pass T ctx ts ct ck s mm moved) u)" for ct ck s mm moved u
    by (rule each_batch_safe [OF pos]) (rule second_pass_safe [OF assms(2)])
  have cls: "keeps ?I (validate_classes T sha ctx ts ck s st)" for ck s st
    unfolding validate_classes_def
    by (auto intro!: keeps_bind keeps_basic keeps_if mism p2 split: option.split)
  show ?thesis unfolding validate_table_def by (intro keeps_bind keeps_then checks succ p1 cls fin)
qed

lemma validate_run_safe:
  assumes pos: "0 < validate_batch_rows (m_batch (rc_manifest ctx))" and tss: "tables_in_order ctx = Inr tss"
  shows "keeps (\<lambda>w :: ('s, 't, 'b) world. safe_inv sha v0 ctx (set tss) (view (w_target w))) (validate_run T sha ctx)"
  unfolding validate_run_def
proof (rule keeps_bind_value [where p = "\<lambda>x. x = tss"])
  let ?I = "\<lambda>w :: ('s, 't, 'b) world. safe_inv sha v0 ctx (set tss) (view (w_target w))"
  show "hoare ?I (liftP (tables_in_order ctx)) (\<lambda>a w. ?I w \<and> a = tss) (\<lambda>_. ?I)"
    using tss by (auto intro!: hoareI)
  show "keeps ?I (per_table T ctx Validate ''validated'' x (validate_table T sha ctx) [])" if "x = tss" for x
    unfolding per_table_def that
    by (intro keeps_fold keeps_bind keeps_basic logged_keeps safe_quiet log_start log_finish validate_table_safe [OF pos])
qed

end

section \<open>The in-memory target meets the contract\<close>

definition row_hash :: "(bytes \<Rightarrow> bytes) \<Rightarrow> table_shape \<Rightarrow> staged_row \<Rightarrow> ldm_error + bytes" where
  "row_hash sha sh r = target_hash sha (sr_values r) (sh_hash_columns sh) (sh_specs sh)"

definition hash_of_key :: "(bytes \<Rightarrow> bytes) \<Rightarrow> table_shape \<Rightarrow> staged_row list \<Rightarrow> string \<Rightarrow> bytes option" where
  "hash_of_key sha sh rows key = (case find (\<lambda>r. sr_source_key r = key) (rev rows) of
       None \<Rightarrow> None
     | Some r \<Rightarrow> (case row_hash sha sh r of Inl _ \<Rightarrow> None | Inr h \<Rightarrow> Some h))"

definition or_empty :: "'e + 'a list \<Rightarrow> 'a list" where
  "or_empty r = (case r of Inl _ \<Rightarrow> [] | Inr xs \<Rightarrow> xs)"

definition ft_validate_view :: "(bytes \<Rightarrow> bytes) \<Rightarrow> fake_target \<Rightarrow> validate_view" where
  "ft_validate_view sha t = \<lparr>
     vv_staged = ft_stg t,
     vv_hash = (\<lambda>k n expr key. case ft_shapes t n of None \<Rightarrow> None | Some sh \<Rightarrow> hash_of_key sha sh (ft_stg t k n) key),
     vv_classes = (\<lambda>k n c cs. or_empty (foldE (add_to_class c cs) (ft_stg t k n) [])),
     vv_rows = (\<lambda>k. set (ft_validation t k)),
     vv_archived = (\<lambda>k n cs. or_empty (fst (ft_archived_hashes k n cs t))),
     vv_present = (\<lambda>k n cs p rs. or_empty (fst (ft_parents_present k n cs p rs t)))\<rparr>"

lemma hashes_fold:
  assumes "foldE (\<lambda>r d. bindE (row_hash sha sh r) (\<lambda>h. Inr (dict_set (sr_source_key r) h d))) rows [] = Inr hs"
  shows "map_of hs key = hash_of_key sha sh rows key"
  using assms
proof (induction rows arbitrary: hs rule: rev_induct)
  case Nil
  then show ?case by (simp add: hash_of_key_def)
next
  case (snoc r rows)
  from snoc.prems obtain d h where d: "foldE (\<lambda>r d. bindE (row_hash sha sh r) (\<lambda>h. Inr (dict_set (sr_source_key r) h d))) rows [] = Inr d"
    and h: "row_hash sha sh r = Inr h" "hs = dict_set (sr_source_key r) h d" by (auto simp: foldE_append)
  from snoc.IH [OF d] h show ?case by (auto simp: hash_of_key_def map_of_dict_set)
qed

lemma find_filter: "(\<And>x. P x \<Longrightarrow> Q x) \<Longrightarrow> find P (filter Q xs) = find P xs"
  by (induction xs) auto

lemma hash_of_key_range:
  "hash_of_key sha sh (filter (\<lambda>r. lo \<le> sr_source_key r \<and> sr_source_key r \<le> hi) rows) key =
     (if lo \<le> key \<and> key \<le> hi then hash_of_key sha sh rows key else None)"
proof (cases "lo \<le> key \<and> key \<le> hi")
  case True
  then have "find (\<lambda>r. sr_source_key r = key) (filter (\<lambda>r. lo \<le> sr_source_key r \<and> sr_source_key r \<le> hi) (rev rows)) =
      find (\<lambda>r. sr_source_key r = key) (rev rows)" by (intro find_filter) auto
  with True show ?thesis by (simp add: hash_of_key_def rev_filter [symmetric])
next
  case False
  then have "find (\<lambda>r. sr_source_key r = key) (rev (filter (\<lambda>r. lo \<le> sr_source_key r \<and> sr_source_key r \<le> hi) rows)) = None"
    by (auto simp: find_None_iff)
  then show ?thesis unfolding hash_of_key_def if_not_P [OF False] by simp
qed

lemma ft_target_hashes_value:
  assumes "ft_target_hashes sha k n x lo hi t = (Inr hs, t')"
  shows "map_of hs = vv_hash (ft_validate_view sha t) k n x |` {key. lo \<le> key \<and> key \<le> hi}"
proof -
  from assms obtain sh where sh: "ft_shapes t n = Some sh"
    and hs: "foldE (\<lambda>r d. bindE (row_hash sha sh r) (\<lambda>h. Inr (dict_set (sr_source_key r) h d)))
        (filter (\<lambda>r. lo \<le> sr_source_key r \<and> sr_source_key r \<le> hi) (ft_stg t k n)) [] = Inr hs"
    by (auto simp: ft_target_hashes_def row_hash_def split: option.splits)
  from hashes_fold [OF hs] show ?thesis
    by (intro ext) (simp add: hash_of_key_range ft_validate_view_def sh restrict_map_def)
qed

lemma ft_stg_cong:
  assumes "ft_staging t' = ft_staging t" and "ft_staging_ns t' = ft_staging_ns t"
  shows "ft_stg t' = ft_stg t"
  unfolding ft_stg_def [abs_def] staged_by_def assms ..

text \<open>An operation that leaves staging and the registered tables alone.\<close>

lemma ft_validate_view_step:
  assumes "ft_staging t' = ft_staging t" and "ft_staging_ns t' = ft_staging_ns t" and "ft_shapes t' = ft_shapes t"
  shows "ft_validate_view sha t' = (ft_validate_view sha t)\<lparr>vv_rows := (\<lambda>k. set (ft_validation t' k)),
     vv_archived := vv_archived (ft_validate_view sha t'), vv_present := vv_present (ft_validate_view sha t')\<rparr>"
  unfolding ft_validate_view_def ft_stg_cong [OF assms(1,2)] assms(3) by simp

lemma ft_write_validation_view:
  "ft_validate_view sha (snd (ft_write_validation k rows t)) = (ft_validate_view sha t)
     \<lparr>vv_rows := (vv_rows (ft_validate_view sha t))(k := upsert rows (vv_rows (ft_validate_view sha t) k)),
      vv_present := vv_present (ft_validate_view sha (snd (ft_write_validation k rows t)))\<rparr>"
proof -
  let ?t = "snd (ft_write_validation k rows t)"
  have t: "?t = t\<lparr>ft_validation := ft_validation ?t\<rparr>" by (simp add: ft_write_validation_def)
  have rows: "(\<lambda>k. set (ft_validation ?t k)) = (vv_rows (ft_validate_view sha t))(k := upsert rows (vv_rows (ft_validate_view sha t) k))"
    by (auto simp: ft_write_validation_def upsert_def vid_def ft_validate_view_def fun_eq_iff)
  have stg: "ft_stg ?t = ft_stg t" by (rule ft_stg_cong) (simp_all add: ft_write_validation_def)
  have "vv_archived (ft_validate_view sha ?t) = vv_archived (ft_validate_view sha t)"
    by (simp add: ft_validate_view_def ft_archived_hashes_def stg) (simp add: ft_write_validation_def)
  with ft_validate_view_step [of ?t t sha] rows show ?thesis by (simp add: ft_write_validation_def ft_validate_view_def)
qed

lemma ft_quiet:
  assumes "\<And>t r t'. m t = (r, t') \<Longrightarrow> ft_staging t' = ft_staging t \<and> ft_staging_ns t' = ft_staging_ns t \<and>
      ft_shapes t' = ft_shapes t \<and> ft_validation t' = ft_validation t \<and> ft_arch t' = ft_arch t \<and> ft_arch_hash t' = ft_arch_hash t"
  shows "quiet (ft_validate_view sha) m"
proof (rule quietI)
  fix t r t'
  assume "m t = (r, t')"
  from assms [OF this] have e: "ft_staging t' = ft_staging t" "ft_staging_ns t' = ft_staging_ns t"
    "ft_shapes t' = ft_shapes t" "ft_validation t' = ft_validation t" "ft_arch t' = ft_arch t" "ft_arch_hash t' = ft_arch_hash t"
    by auto
  have stg: "ft_stg t' = ft_stg t" by (rule ft_stg_cong) (rule e)+
  have "fst (ft_archived_hashes k n cs t') = fst (ft_archived_hashes k n cs t)"
    "fst (ft_parents_present k n cs p rs t') = fst (ft_parents_present k n cs p rs t)" for k n cs p rs
    unfolding ft_archived_hashes_def ft_parents_present_def ft_validated_keys_def stg e by simp_all
  then show "ft_validate_view sha t' = ft_validate_view sha t"
    unfolding ft_validate_view_def stg e by simp
qed

interpretation fake_validation: validate_target "fake_target_ops sha" "ft_validate_view sha"
  for sha
proof unfold_locales
  fix k n b t r t'
  assume "to_iter_staging (fake_target_ops sha) k n b t = (r, t')"
  then show "ft_validate_view sha t' = ft_validate_view sha t \<and>
      (\<forall>bs. r = Inr bs \<longrightarrow> 0 < b \<longrightarrow> concat bs = sort_key sr_source_key (vv_staged (ft_validate_view sha t) k n))"
    by (auto simp: fake_target_ops_def ft_iter_staging_def ft_validate_view_def)
next
  fix k n x lo hi t r1 t'
  assume "to_target_hashes (fake_target_ops sha) k n x lo hi t = (r1, t')"
  then have h: "ft_target_hashes sha k n x lo hi t = (r1, t')" by (simp add: fake_target_ops_def)
  then have "t' = t" by (auto simp: ft_target_hashes_def split: option.splits)
  then show "ft_validate_view sha t' = ft_validate_view sha t \<and>
      (\<forall>hs. r1 = Inr hs \<longrightarrow> map_of hs = vv_hash (ft_validate_view sha t) k n x |` {key. lo \<le> key \<and> key \<le> hi})"
    using ft_target_hashes_value h by blast
next
  fix k rows t u t'
  assume "to_write_validation (fake_target_ops sha) k rows t = (Inr u, t')"
  then have "t' = snd (ft_write_validation k rows t)" by (simp add: fake_target_ops_def)
  then show "\<exists>P. ft_validate_view sha t' = (ft_validate_view sha t)
      \<lparr>vv_rows := (vv_rows (ft_validate_view sha t))(k := upsert rows (vv_rows (ft_validate_view sha t) k)), vv_present := P\<rparr>"
    using ft_write_validation_view by blast
next
  fix k n cs t r2 t'
  assume "to_promote (fake_target_ops sha) k n cs t = (r2, t')"
  then obtain a h where t': "t' = t\<lparr>ft_arch := a, ft_arch_hash := h\<rparr>"
    by (auto simp: fake_target_ops_def ft_promote_def Let_def split: prod.splits option.splits)
  then have "ft_validate_view sha t' = (ft_validate_view sha t)\<lparr>vv_archived := vv_archived (ft_validate_view sha t'),
      vv_present := vv_present (ft_validate_view sha t')\<rparr>"
    using ft_validate_view_step [of t' t sha] by (simp add: ft_validate_view_def)
  then show "\<exists>A P. ft_validate_view sha t' = (ft_validate_view sha t)\<lparr>vv_archived := A, vv_present := P\<rparr>" by blast
next
  fix k n cs
  show "reads (ft_validate_view sha) (to_archived_hashes (fake_target_ops sha) k n cs) (\<lambda>v. vv_archived v k n cs)"
    by (rule readsI) (auto simp: fake_target_ops_def ft_archived_hashes_def ft_validate_view_def or_empty_def)
next
  fix k n cs p rs
  show "reads (ft_validate_view sha) (to_parents_present (fake_target_ops sha) k n cs p rs) (\<lambda>v. vv_present v k n cs p rs)"
    by (rule readsI) (auto simp: fake_target_ops_def ft_parents_present_def ft_validate_view_def or_empty_def)
next
  fix k n c cs
  show "reads (ft_validate_view sha) (to_class_aggregates (fake_target_ops sha) k n c cs) (\<lambda>v. vv_classes v k n c cs)"
    by (rule readsI) (auto simp: fake_target_ops_def ft_class_aggregates_def ft_validate_view_def or_empty_def)
next
  fix k rows t and e :: ldm_error and t'
  show "to_write_validation (fake_target_ops sha) k rows t = (Inl e, t') \<Longrightarrow> ft_validate_view sha t' = ft_validate_view sha t"
    by (simp add: fake_target_ops_def ft_write_validation_def)
qed (rule ft_quiet, auto simp: fake_target_ops_def ft_write_class_totals_def ft_delete_rejects_keys_def ft_insert_rejects_def
      ft_count_validation_def ft_update_ledger_def ft_get_ledger_def ft_log_start_def ft_log_finish_def split: option.splits)+

lemma ft_validate_view_simps [simp]:
  "vv_staged (ft_validate_view sha t) = ft_stg t" "vv_rows (ft_validate_view sha t) = (\<lambda>k. set (ft_validation t k))"
  by (simp_all add: ft_validate_view_def)

section \<open>The stage over the in-memory target\<close>

text \<open>C25. The stage streams a table in batches and in two passes; what it leaves in the validation
  table is what the reference computes from all staged rows at once, and nothing else changes.\<close>

theorem validate_table_refines_reference:
  assumes "0 < validate_batch_rows (m_batch (rc_manifest ctx))"
    and "distinct (map sr_source_key (ft_stg (w_target w) (rc_key ctx) (ts_name ts)))"
    and "validate_table (fake_target_ops sha) sha ctx ts w = (Inr out, w')"
  shows "\<exists>cs. table_verdicts sha (ft_validate_view sha (w_target w)) ctx ts = Inr cs \<and>
    (\<lambda>k. set (ft_validation (w_target w') k)) = (\<lambda>k. set (ft_validation (w_target w) k))
      (rc_key ctx := upsert (map (verdict ts) cs) (set (ft_validation (w_target w) (rc_key ctx))))"
  using fake_validation.validate_table_refines [OF assms(1) _ assms(3)] assms(2) by auto

lemma validate_run_verified:
  assumes "0 < validate_batch_rows (m_batch (rc_manifest ctx))" and "tables_in_order ctx = Inr tss"
    and "validate_run (fake_target_ops sha) sha ctx w = (r, w')"
  shows "fake_validation.safe_inv sha (ft_validate_view sha (w_target w)) ctx (set tss) (ft_validate_view sha (w_target w'))"
  by (rule keepsD [OF fake_validation.validate_run_safe [OF assms(1,2)] _ assms(3)])
    (simp add: fake_validation.safe_inv_def)

text \<open>Whatever a run returns: a validation row that it makes purge-safe belongs to a data table
  and to a staged row whose raw bytes convert and whose source hash is the hash of the target's row.\<close>

theorem purge_safe_rows_verified:
  assumes "0 < validate_batch_rows (m_batch (rc_manifest ctx))" and "tables_in_order ctx = Inr tss"
    and "validate_run (fake_target_ops sha) sha ctx w = (r, w')"
    and "v \<in> set (ft_validation (w_target w') (rc_key ctx))" and "vr_purge_safe v"
    and "v \<notin> set (ft_validation (w_target w) (rc_key ctx))"
  shows "\<exists>ts \<in> set tss. verified sha (ft_validate_view sha (w_target w)) ctx ts v"
  using validate_run_verified [OF assms(1-3)] assms(4-6) unfolding fake_validation.safe_inv_def ft_validate_view_simps by blast

section \<open>Class totals of validated rows\<close>

definition moved_class :: "candidate list \<Rightarrow> string \<Rightarrow> bool" where
  "moved_class cs x \<longleftrightarrow> (\<exists>c \<in> set cs. cd_source_class c \<noteq> cd_target_class c \<and>
     (cd_source_class c = Some x \<or> cd_target_class c = Some x))"

definition class_counts_ok :: "candidate list \<Rightarrow> pass_state \<Rightarrow> bool" where
  "class_counts_ok out st \<longleftrightarrow>
     (\<forall>c \<in> set out. \<exists>s t. cd_source_class c = Some s \<and> cd_target_class c = Some t \<and> s \<in> fst ` set (fst st)) \<and>
     (\<forall>x. ca_count (class_side (fst st) x) = length (filter (\<lambda>c. cd_source_class c = Some x) out)) \<and>
     (\<forall>x \<in> set (snd st). moved_class out x)"

lemma add_to_side_Inr:
  "add_to_side ct s vs src = Inr src' \<Longrightarrow>
     \<exists>sums. src' = dict_set s \<lparr>ca_count = Suc (ca_count (class_side src s)), ca_sums = sums\<rparr> src"
  by (auto simp: add_to_side_def Let_def)

lemma judge_counts:
  assumes "judge_row ts ck succ c st = Inr (c', st')" and "tc_class_totals (ts_config ts) = Some ct" and "class_counts_ok out st"
  shows "class_counts_ok (out @ [c']) st'"
proof -
  from assms(1,2) obtain c1 s t src' where cls: "classify ct ts succ c1 = Inr c'"
    and s: "s = the (cd_source_class c')" and t: "t = the (cd_target_class c')"
    and src': "add_to_side ct s (cd_source_values c') (fst st) = Inr src'"
    and st': "st' = (src', if s \<noteq> t then snd st @ [s, t] else snd st)"
    by (auto simp: judge_row_def Let_def)
  from cls s t have c': "cd_source_class c' = Some s" "cd_target_class c' = Some t" by (auto simp: classify_def)
  from add_to_side_Inr [OF src'] obtain sums where
    new: "src' = dict_set s \<lparr>ca_count = Suc (ca_count (class_side (fst st) s)), ca_sums = sums\<rparr> (fst st)" by blast
  have A: "ca_count (class_side (fst st') x) = length (filter (\<lambda>c. cd_source_class c = Some x) (out @ [c']))" for x
    using assms(3) c' by (auto simp: class_counts_ok_def class_side_def new st')
  have B: "moved_class (out @ [c']) x" if "x \<in> set (snd st')" for x
    using that assms(3) c' st' by (auto simp: class_counts_ok_def moved_class_def split: if_splits)
  have C: "\<exists>s t. cd_source_class d = Some s \<and> cd_target_class d = Some t \<and> s \<in> fst ` set (fst st')"
    if "d \<in> set (out @ [c'])" for d
    using that assms(3) c' unfolding class_counts_ok_def st' new by (fastforce simp: dict_set_keys)
  from A B C show ?thesis unfolding class_counts_ok_def by blast
qed

lemma scan_counts:
  assumes "tc_class_totals (ts_config ts) = Some ct" and "scan_table sha v ctx ts = Inr (out, st)"
  shows "class_counts_ok out st"
proof -
  from assms(2) obtain succ cs where
    "foldE (first_pass_row ts (checks_of v (rc_key ctx) ts) succ) cs ([], [], []) = Inr (out, st)"
    by (auto simp: scan_table_def)
  then have "class_counts_ok (fst (out, st)) (snd (out, st))"
    by (rule foldE_invariant)
      (auto simp: first_pass_row_def class_counts_ok_def [of "[]"] class_side_def no_aggregate_def dest: judge_counts [OF _ assms(1)])
  then show ?thesis by simp
qed

lemma settle_classes [simp]:
  "cd_source_class (settle ct mm moved c) = cd_source_class c" "cd_target_class (settle ct mm moved c) = cd_target_class c"
  by (auto simp: settle_def flip_of_def fail_class_def fail_with_def split: option.splits)

lemma mismatch_None:
  assumes "map_of (mismatches_of ts ct src tgt) x = None" and "x \<in> fst ` set src"
  shows "ca_count (class_side src x) = ca_count (class_side tgt x) \<and> sums_agree (ct_sum_columns ct) (class_side src x) (class_side tgt x)"
proof -
  have "x \<in> set (classes_of src tgt)" using assms(2) by (simp add: classes_of_def)
  moreover have "x \<notin> fst ` set (mismatches_of ts ct src tgt)" using assms(1) by (simp add: map_of_eq_None_iff)
  ultimately have "snd (compare_class ts ct src tgt x) = None"
    by (cases "snd (compare_class ts ct src tgt x)") (force simp: mismatches_of_def map_filter_def)+
  then show ?thesis by (auto simp: compare_class_def Let_def split: if_splits)
qed

text \<open>When a row validates and no row of the table moved into or out of its target class, the
  class has as many rows in the system of record as in the target, and the same sums.\<close>

theorem validated_class_agrees:
  assumes "tc_class_totals (ts_config ts) = Some ct" and "scan_table sha v ctx ts = Inr (out, src, moved)"
    and "table_verdicts sha v ctx ts = Inr cs" and "c \<in> set cs" and "cd_rule c = None" and "cd_target_class c = Some x"
    and "\<not> moved_class cs x"
  shows "length (filter (\<lambda>d. cd_source_class d = Some x) cs) = ca_count (class_side (target_classes v ctx ts ct) x) \<and>
    sums_agree (ct_sum_columns ct) (class_side src x) (class_side (target_classes v ctx ts ct) x)"
proof -
  let ?mm = "mismatches_of ts ct src (target_classes v ctx ts ct)"
  have cs: "cs = map (settle ct ?mm moved) out" using assms(1-3) by (simp add: table_verdicts_def)
  have ok: "class_counts_ok out (src, moved)" by (rule scan_counts [OF assms(1,2)])
  from assms(4) cs obtain d where d: "d \<in> set out" "c = settle ct ?mm moved d" by auto
  have flip: "flip_of ct ?mm moved d = None" and rule: "cd_rule d = None"
    using assms(5) d(2) by (auto simp: settle_def flip_of_def fail_class_def fail_with_def split: option.splits if_splits)
  have moved: "moved_class cs = moved_class out" by (simp add: moved_class_def cs fun_eq_iff)
  from ok d obtain s where s: "cd_source_class d = Some s" "s \<in> fst ` set src"
    unfolding class_counts_ok_def fst_conv by blast
  have t: "cd_target_class d = Some x" using assms(6) d(2) by simp
  have "s = x" using assms(7) d(1) s(1) t unfolding moved moved_class_def by force
  moreover have "x \<notin> set moved" using ok assms(7) by (auto simp: class_counts_ok_def moved)
  ultimately have "map_of ?mm x = None" using flip rule s(1) t by (simp add: flip_of_def class_hit_def)
  from mismatch_None [OF this] s(2) \<open>s = x\<close>
  have "ca_count (class_side src x) = ca_count (class_side (target_classes v ctx ts ct) x)"
    "sums_agree (ct_sum_columns ct) (class_side src x) (class_side (target_classes v ctx ts ct) x)" by auto
  moreover have "ca_count (class_side src x) = length (filter (\<lambda>d. cd_source_class d = Some x) out)"
    using ok by (simp add: class_counts_ok_def)
  ultimately show ?thesis by (simp add: cs filter_map comp_def)
qed

section \<open>Witnesses\<close>

text \<open>
  A table with a one-letter key, class totals over the key and one staged row. The identity
  stands for SHA-256.
\<close>

definition short_id :: column_spec where
  "short_id = \<lparr>cs_name = ''I'', cs_field = \<lparr>f_name = ''I'', f_pic = ''X(1)'', f_usage = Display, f_offset = 0, f_length = 1,
       f_is_numeric = False, f_signed = False, f_digits = 0, f_scale = 0\<rparr>,
     cs_source_type = ''CHAR(1)'', cs_target_type = ''CHAR(1)'', cs_kind = KChar, cs_is_key = True,
     cs_encoding = ''ascii'', cs_trim = False, cs_date_format = None, cs_value_map = [],
     cs_target_precision = 1, cs_target_scale = 0, cs_target_length = 1\<rparr>"

definition class_table :: table_spec where
  "class_table = example_table\<lparr>ts_config := example_config\<lparr>tc_key_columns := [''I''], tc_hash_columns := [''I''], tc_class_totals :=
     Some \<lparr>ct_class_column = ''I'', ct_sum_columns = [], ct_resolution = None\<rparr>\<rparr>,
     ts_columns := [short_id]\<rparr>"

definition class_context :: run_context where
  "class_context = (example_context True)\<lparr>rc_tables := [(''CUST'', class_table)]\<rparr>"

definition example_staged :: "nat \<Rightarrow> string \<Rightarrow> bytes \<Rightarrow> string \<Rightarrow> staged_row" where
  "example_staged i key raw name = \<lparr>sr_table = ''CUST'', sr_source_key = key, sr_range_seq = Some 1, sr_raw = raw,
     sr_values = [(''I'', VText name)], sr_stg_id = Some i\<rparr>"

definition row_a :: staged_row where
  "row_a = example_staged 2 ''A'' [0x41] ''A''"

definition staged_target :: "staged_row list \<Rightarrow> fake_target" where
  "staged_target rows = ft_init\<lparr>
     ft_ledger := (\<lambda>_. Some [(''CUST'', (new_ledger_row ''CUST'' 1 DataTable)\<lparr>lr_loaded := Some (length rows)\<rparr>)]),
     ft_shapes := [''CUST'' \<mapsto> \<lparr>sh_key_columns = [''I''], sh_hash_columns = [''I''], sh_specs = [short_id]\<rparr>],
     ft_staging := (\<lambda>_. rows), ft_staging_ns := [2 \<mapsto> (''run1'', ''r1-dev'')]\<rparr>"

definition validate_example :: "(ldm_error + counts) \<times> (fake_source, fake_target, files) world" where
  "validate_example = validate_table (fake_target_ops (\<lambda>b. b)) (\<lambda>b. b) class_context class_table
     (example_world (staged_target [row_a]))"

definition validate_run_example :: "(ldm_error + (string \<times> counts) list) \<times> (fake_source, fake_target, files) world" where
  "validate_run_example = validate_run (fake_target_ops (\<lambda>b. b)) (\<lambda>b. b) class_context (example_world (staged_target [row_a]))"

definition example_view :: validate_view where
  "example_view = ft_validate_view (\<lambda>b. b) (staged_target [row_a])"

definition row_a_candidate :: candidate where
  "row_a_candidate = (new_candidate row_a [(''I'', VText ''A'')] [0x41] (Some [0x41]))
     \<lparr>cd_source_class := Some ''A'', cd_target_class := Some ''A''\<rparr>"

lemma validate_example_counts: "fst validate_example = Inr [(''validated'', 1), (''validate_failed'', 0)]"
  by code_simp

lemma example_scan: "scan_table (\<lambda>b. b) example_view class_context class_table =
    Inr ([row_a_candidate], [(''A'', \<lparr>ca_count = 1, ca_sums = []\<rparr>)], [])"
  unfolding example_view_def by code_simp

lemma example_verdicts: "table_verdicts (\<lambda>b. b) example_view class_context class_table = Inr [row_a_candidate]"
  unfolding table_verdicts_def example_scan unfolding example_view_def by code_simp

lemma validate_run_example_rows:
  "ft_validation (w_target (snd validate_run_example)) (''run1'', ''r1-dev'') = [verdict class_table row_a_candidate]"
  by code_simp

lemma example_world_target [simp]: "w_target (example_world t) = t"
  by (simp add: example_world_def)

theorem validate_table_refines_reference_witness:
  "set (ft_validation (w_target (snd validate_example)) (''run1'', ''r1-dev'')) = {verdict class_table row_a_candidate}"
proof -
  have run: "validate_table (fake_target_ops (\<lambda>b. b)) (\<lambda>b. b) class_context class_table (example_world (staged_target [row_a])) =
      (Inr [(''validated'', 1), (''validate_failed'', 0)], snd validate_example)"
    using validate_example_counts unfolding validate_example_def [symmetric] by (metis prod.collapse)
  have h: "0 < validate_batch_rows (m_batch (rc_manifest class_context))"
    "distinct (map sr_source_key (ft_stg (w_target (example_world (staged_target [row_a]))) (rc_key class_context) (ts_name class_table)))"
    by code_simp+
  have k: "rc_key class_context = (''run1'', ''r1-dev'')"
    and e: "ft_validation (staged_target [row_a]) (''run1'', ''r1-dev'') = []" by code_simp+
  from validate_table_refines_reference [OF h run] obtain cs where
    cs: "table_verdicts (\<lambda>b. b) example_view class_context class_table = Inr cs"
    and rows: "(\<lambda>k. set (ft_validation (w_target (snd validate_example)) k)) =
      (\<lambda>k. set (ft_validation (staged_target [row_a]) k))
      ((''run1'', ''r1-dev'') := upsert (map (verdict class_table) cs) (set (ft_validation (staged_target [row_a]) (''run1'', ''r1-dev''))))"
    unfolding k example_world_target example_view_def by blast
  have "cs = [row_a_candidate]" using cs example_verdicts by simp
  with fun_cong [OF rows, of "(''run1'', ''r1-dev'')"] e show ?thesis by (simp add: upsert_def)
qed

theorem purge_safe_rows_verified_witness:
  "verified (\<lambda>b. b) example_view class_context class_table (verdict class_table row_a_candidate)"
proof -
  have "0 < validate_batch_rows (m_batch (rc_manifest class_context))" and tss: "tables_in_order class_context = Inr [class_table]"
    and k: "rc_key class_context = (''run1'', ''r1-dev'')"
    and "vr_purge_safe (verdict class_table row_a_candidate)"
    and "ft_validation (staged_target [row_a]) (''run1'', ''r1-dev'') = []"
    by code_simp+
  with purge_safe_rows_verified [of class_context "[class_table]" "\<lambda>b. b" "example_world (staged_target [row_a])"
      "fst validate_run_example" "snd validate_run_example" "verdict class_table row_a_candidate"]
  show ?thesis
    by (simp add: validate_run_example_rows example_view_def validate_run_example_def [symmetric])
qed

theorem validated_class_agrees_witness:
  "ca_count (class_side (target_classes example_view class_context class_table
     (the (tc_class_totals (ts_config class_table)))) ''A'') = 1"
proof -
  have "tc_class_totals (ts_config class_table) = Some (the (tc_class_totals (ts_config class_table)))"
    and "cd_rule row_a_candidate = None" and "cd_target_class row_a_candidate = Some ''A''"
    and "cd_source_class row_a_candidate = Some ''A''" and "\<not> moved_class [row_a_candidate] ''A''"
    by code_simp+
  with validated_class_agrees [OF _ example_scan example_verdicts, of "the (tc_class_totals (ts_config class_table))" row_a_candidate "''A''"]
  show ?thesis by simp
qed

end
