(* ===== verification/Ldm_Spark.thy ===== *)
theory Ldm_Spark
  imports Ldm_Load "HOL-Library.Multiset"
begin

text \<open>
  The Spark engine of LOAD (\<open>migration/job/ldm/engines/spark_load.py\<close>): the slices of a range file,
  their conversion, the shuffle by source key, the resolution of duplicates within a key and the
  sinks that insert. The shuffle is an argument: it deals the groups out to the sinks and hands
  each group over in any order. The sinks run one after the other here. The serial loop and the
  sinks are shown to act on the same decisions, and on a target whose refusals concern one key at
  a time the two engines report the same counts and leave the same rows and the same rejected keys.
\<close>

section \<open>The routing of the Spark engine\<close>

record routed =
  ro_key :: string
  ro_index :: nat
  ro_row :: "staged_row option"
  ro_reject :: "reject option"

definition slices :: "nat \<Rightarrow> nat \<Rightarrow> ldm_error + (nat \<times> nat) list" where
  "slices record_count per_slice =
     (if per_slice = 0 then Inl (ConfigError ''records_per_slice must be positive'')
      else Inr (map (\<lambda>j. (j * per_slice, min (j * per_slice + per_slice) record_count))
                 [0..<(record_count + per_slice - 1) div per_slice]))"

definition read_slice :: "bytes \<Rightarrow> nat \<Rightarrow> nat \<times> nat \<Rightarrow> ldm_error + (nat \<times> bytes) list" where
  "read_slice data lrecl sl = (case sl of (a, b) \<Rightarrow>
     let d = take ((b - a) * lrecl) (drop (a * lrecl) data) in
     if length d \<noteq> (b - a) * lrecl then Inl (ConfigError ''slice is short'')
     else Inr (map (\<lambda>i. (a + i, take lrecl (drop (i * lrecl) d))) [0..<b - a]))"

definition route_record :: "table_spec \<Rightarrow> nat \<Rightarrow> nat \<times> bytes \<Rightarrow> ldm_error + routed" where
  "route_record ts seq ir = (case ir of (i, rec) \<Rightarrow>
     bindE (convert_record rec (ts_columns ts)) (\<lambda>conv.
     Inr (case cv_error conv of
            None \<Rightarrow> \<lparr>ro_key = cv_source_key conv, ro_index = i,
                     ro_row = Some (converted_row (ts_name ts) seq rec conv), ro_reject = None\<rparr>
          | Some err \<Rightarrow> \<lparr>ro_key = cv_source_key conv, ro_index = i, ro_row = None,
                     ro_reject = Some (conversion_reject (ts_name ts) (cv_source_key conv) err rec seq)\<rparr>)))"

definition convert_slice :: "table_spec \<Rightarrow> nat \<Rightarrow> bytes \<Rightarrow> nat \<Rightarrow> nat \<times> nat \<Rightarrow> ldm_error + routed list" where
  "convert_slice ts seq data lrecl sl = bindE (read_slice data lrecl sl) (mapE (route_record ts seq))"

text \<open>\<open>route_key\<close> on the records of one key, sorted by index.\<close>

definition as_duplicate :: "table_spec \<Rightarrow> nat \<Rightarrow> routed \<Rightarrow> staged_row \<Rightarrow> routed" where
  "as_duplicate ts seq r row = \<lparr>ro_key = ro_key r, ro_index = ro_index r, ro_row = None,
     ro_reject = Some (duplicate_reject (ts_name ts) (ro_key r) (hd (tc_key_columns (ts_config ts))) (sr_raw row) seq)\<rparr>"

fun route_from :: "table_spec \<Rightarrow> nat \<Rightarrow> bool \<Rightarrow> routed list \<Rightarrow> routed list" where
  "route_from ts seq kept [] = []"
| "route_from ts seq kept (r # rs) = (case ro_row r of
       None \<Rightarrow> r # route_from ts seq kept rs
     | Some row \<Rightarrow> if kept then as_duplicate ts seq r row # route_from ts seq kept rs
                   else r # route_from ts seq True rs)"

definition route_key :: "table_spec \<Rightarrow> nat \<Rightarrow> routed list \<Rightarrow> routed list" where
  "route_key ts seq records = route_from ts seq False (sort_key ro_index records)"

section \<open>The slices cover the file\<close>

lemma read_slice_chunks:
  assumes "0 < l" and "length data = n * l" and "a \<le> b" and "b \<le> n"
  shows "read_slice data l (a, b) = Inr (map (\<lambda>i. (i, chunks l data ! i)) [a..<b])"
proof -
  let ?d = "take ((b - a) * l) (drop (a * l) data)"
  have "b * l - a * l \<le> n * l - a * l" using assms(4) by (intro diff_le_mono mult_le_mono1)
  then have len: "length ?d = (b - a) * l" using assms(2,3) by (simp add: diff_mult_distrib min_absorb2)
  have c: "length (chunks l data) = n" using assms(1,2) by (rule length_chunks_exact)
  have "take l (drop (i * l) ?d) = chunks l data ! (a + i)" if i: "i < b - a" for i
  proof -
    have "(Suc i) * l \<le> (b - a) * l" using i by (intro mult_le_mono1) simp
    then have "min l ((b - a) * l - i * l) = l" by simp
    moreover have "a + i < length (chunks l data)" using i c assms(4) by simp
    ultimately show ?thesis using assms(1)
      by (simp add: chunks_nth drop_take take_take add.commute add_mult_distrib2 distrib_right)
  qed
  then have "map (\<lambda>i. (a + i, take l (drop (i * l) ?d))) [0..<b - a] = map (\<lambda>i. (i, chunks l data ! i)) [a..<b]"
    by (intro nth_equalityI) auto
  with len show ?thesis by (simp add: read_slice_def Let_def)
qed

lemma concat_slices: "concat (map (\<lambda>j. [j * p..<min (j * p + p) n]) [0..<m]) = [0..<min (m * p) n]"
proof (induction m)
  case 0
  then show ?case by simp
next
  case (Suc m)
  show ?case
  proof (cases "m * p \<le> n")
    case True
    then have "min (m * p + p) n = m * p + min p (n - m * p)" by simp
    with True have "[0..<min (m * p) n] @ [m * p..<min (m * p + p) n] = [0..<min (m * p + p) n]"
      using upt_add_eq_append [of 0 "m * p" "min p (n - m * p)"] by (simp add: min_absorb1)
    with Suc show ?thesis by (simp add: add.commute)
  next
    case False
    with Suc show ?thesis by (simp add: min_def)
  qed
qed

text \<open>The slices of the Spark engine read every record of the file once, in file order and
  under its index, and no slice is short.\<close>

lemma slices_cover:
  assumes "slices n p = Inr sls" and "0 < l" and "length data = n * l"
  shows "\<exists>xss. mapE (read_slice data l) sls = Inr xss \<and> concat xss = enumerate 0 (chunks l data)"
proof -
  let ?m = "(n + p - 1) div p"
  have p: "0 < p" and sls: "sls = map (\<lambda>j. (j * p, min (j * p + p) n)) [0..<?m]"
    using assms(1) by (auto simp: slices_def split: if_splits)
  define f where "f = (\<lambda>i. (i, chunks l data ! i))"
  have below: "j * p \<le> n" if "j < ?m" for j
  proof -
    have "(j + 1) * p \<le> n + p - 1" using that by (metis Suc_eq_plus1 Suc_leI less_eq_div_iff_mult_less_eq p)
    then show ?thesis using p by simp
  qed
  have "mapE (read_slice data l) sls = Inr (map (\<lambda>j. map f [j * p..<min (j * p + p) n]) [0..<?m])"
    unfolding sls mapE_Inr_all2 list_all2_conv_all_nth
    using below by (auto simp: f_def intro!: read_slice_chunks [OF assms(2,3)])
  moreover have "concat (map (\<lambda>j. map f [j * p..<min (j * p + p) n]) [0..<?m]) = enumerate 0 (chunks l data)"
  proof -
    have "concat (map (\<lambda>j. map f [j * p..<min (j * p + p) n]) [0..<?m]) =
        map f (concat (map (\<lambda>j. [j * p..<min (j * p + p) n]) [0..<?m]))" by (simp add: map_concat comp_def)
    also have "\<dots> = map f [0..<min (?m * p) n]" by (simp add: concat_slices)
    also have "min (?m * p) n = n"
    proof -
      have "n + p - 1 < (?m + 1) * p" using p dividend_less_div_times [of p "n + p - 1"] by simp
      then show ?thesis using p by simp
    qed
    also have "map f [0..<n] = enumerate 0 (chunks l data)"
      using length_chunks_exact [OF assms(2,3)]
      by (intro nth_equalityI) (auto simp: f_def nth_enumerate_eq)
    finally show ?thesis .
  qed
  ultimately show ?thesis by blast
qed

section \<open>The sinks\<close>

record sink_vars =
  sk_batch :: "staged_row list"
  sk_rejects :: "reject list"
  sk_loaded :: int
  sk_rejected :: int

definition sink_start :: sink_vars where
  "sink_start = \<lparr>sk_batch = [], sk_rejects = [], sk_loaded = 0, sk_rejected = 0\<rparr>"

definition sink_insert ::
  "'t target_ops \<Rightarrow> run_key \<Rightarrow> table_spec \<Rightarrow> sink_vars \<Rightarrow> (('s, 't, 'b) world, ldm_error, sink_vars) prog" where
  "sink_insert T k ts v =
     (if sk_batch v = [] then retP v
      else bindP (onT (to_insert_staging T k (ts_name ts) (sk_batch v))) (\<lambda>failures.
        let failed = card (if_source_key ` set failures) in
        bindP (liftP (mapE (\<lambda>f. bindE (row_by_key (sk_batch v) (if_source_key f))
                              (\<lambda>r. Inr (failure_reject f r (tc_key_columns (ts_config ts))))) failures)) (\<lambda>rs.
        retP \<lparr>sk_batch = [], sk_rejects = sk_rejects v @ rs,
              sk_loaded = sk_loaded v + (int (length (sk_batch v)) - int failed),
              sk_rejected = sk_rejected v + int failed\<rparr>)))"

definition sink_flush ::
  "'t target_ops \<Rightarrow> run_key \<Rightarrow> table_spec \<Rightarrow> sink_vars \<Rightarrow> (('s, 't, 'b) world, ldm_error, sink_vars) prog" where
  "sink_flush T k ts v =
     bindP (sink_insert T k ts v) (\<lambda>v.
       if sk_rejects v \<noteq> [] then thenP (onT (to_insert_rejects T k (sk_rejects v))) (retP (v\<lparr>sk_rejects := []\<rparr>))
       else retP v)"

definition assertion_error :: ldm_error where
  "assertion_error = PyError ''AssertionError''"

definition sink_record ::
  "'t target_ops \<Rightarrow> run_key \<Rightarrow> nat \<Rightarrow> table_spec \<Rightarrow> routed \<Rightarrow> sink_vars \<Rightarrow>
   (('s, 't, 'b) world, ldm_error, sink_vars) prog" where
  "sink_record T k batch_rows ts r v =
     bindP (case ro_row r of
              Some row \<Rightarrow> retP (v\<lparr>sk_batch := sk_batch v @ [row]\<rparr>)
            | None \<Rightarrow> (case ro_reject r of
                None \<Rightarrow> raiseP assertion_error
              | Some j \<Rightarrow> retP (v\<lparr>sk_rejects := sk_rejects v @ [j], sk_rejected := sk_rejected v + 1\<rparr>)))
       (\<lambda>v. if batch_rows \<le> length (sk_batch v) then sink_flush T k ts v else retP v)"

text \<open>The body of the \<open>try\<close> of a sink.\<close>

definition sink_records ::
  "'t target_ops \<Rightarrow> run_key \<Rightarrow> nat \<Rightarrow> table_spec \<Rightarrow> routed list \<Rightarrow>
   (('s, 't, 'b) world, ldm_error, int \<times> int) prog" where
  "sink_records T k batch_rows ts rs =
     bindP (foldP (sink_record T k batch_rows ts) rs sink_start) (\<lambda>v.
     bindP (sink_flush T k ts v) (\<lambda>v. retP (sk_loaded v, sk_rejected v)))"

text \<open>\<open>try: m finally: c\<close>\<close>

definition finallyP :: "('s, 'e, 'a) prog \<Rightarrow> ('s, 'e, unit) prog \<Rightarrow> ('s, 'e, 'a) prog" where
  "finallyP m c = (\<lambda>s. case m s of (r, t) \<Rightarrow> (case c t of (Inl e, u) \<Rightarrow> (Inl e, u) | (Inr _, u) \<Rightarrow> (r, u)))"

definition sink_partition ::
  "'t target_ops \<Rightarrow> run_key \<Rightarrow> nat \<Rightarrow> table_spec \<Rightarrow> routed list \<Rightarrow>
   (('s, 't, 'b) world, ldm_error, int \<times> int) prog" where
  "sink_partition T k batch_rows ts rs =
     thenP (onT (to_register_table T (ts_name ts) (tc_key_columns (ts_config ts)) [] (ts_columns ts)))
    (thenP (onT (to_connect T))
    (finallyP (sink_records T k batch_rows ts rs) (onT (to_close T))))"

section \<open>One range\<close>

text \<open>\<open>SparkConfig\<close> of the manifest (\<open>ldm/config.py\<close>), whose \<open>records_per_slice\<close> is a field of the
  model's manifest; the memory of the driver plays no part.\<close>

record spark_config =
  sc_master :: string
  sc_shuffle_partitions :: nat

text \<open>\<open>groupBy\<close>: the records of each sink, as groups of a key.\<close>

type_synonym shuffle = "nat \<Rightarrow> routed list \<Rightarrow> (string \<times> routed list) list list"

definition add_counts :: "int \<times> int \<Rightarrow> int \<times> int \<Rightarrow> int \<times> int" where
  "add_counts a b = (fst a + fst b, snd a + snd b)"

definition reduce_counts :: "(int \<times> int) list \<Rightarrow> ldm_error + int \<times> int" where
  "reduce_counts xs = (case xs of [] \<Rightarrow> Inl (PyError ''ValueError'') | x # xs \<Rightarrow> Inr (foldl add_counts x xs))"

definition spark_range ::
  "'t target_ops \<Rightarrow> shuffle \<Rightarrow> run_key \<Rightarrow> nat \<Rightarrow> table_spec \<Rightarrow> nat \<Rightarrow> string \<Rightarrow> nat \<Rightarrow> nat \<Rightarrow> nat \<Rightarrow>
   (('s, 't, 'b) world, ldm_error, int \<times> int) prog" where
  "spark_range T shuffle k batch_rows ts seq path record_count per_slice sinks =
     bindP (liftP (slices record_count per_slice)) (\<lambda>parts.
     if parts = [] then retP (0, 0)
     else bindP (read_file path) (\<lambda>data.
       bindP (liftP (mapE (convert_slice ts seq data (tc_record_length (ts_config ts))) parts)) (\<lambda>routed.
       bindP (mapP (\<lambda>groups. sink_partition T k batch_rows ts (concat (map (\<lambda>kv. route_key ts seq (snd kv)) groups)))
                (shuffle sinks (concat routed))) (\<lambda>counts.
       liftP (reduce_counts counts)))))"

text \<open>The target of \<open>ctx.target_spec\<close> is reopened by the sinks; there is none for an injected driver.\<close>

definition load_range_spark ::
  "'t target_ops \<Rightarrow> 't target_ops option \<Rightarrow> 'b blob_ops \<Rightarrow> (bytes \<Rightarrow> bytes) \<Rightarrow> shuffle \<Rightarrow> spark_config \<Rightarrow>
   run_context \<Rightarrow> table_spec \<Rightarrow> key_range \<Rightarrow> (('s, 't, 'b) world, ldm_error, int \<times> int) prog" where
  "load_range_spark T spec B sha shuffle cfg ctx ts rng =
     (case spec of
        None \<Rightarrow> raiseP (ConfigError ''execution.load_engine spark needs a reconnectable target'')
      | Some T' \<Rightarrow>
          bindP (begin_range T B sha ctx ts rng) (\<lambda>(local, count).
          if take 5 (sc_master cfg) \<noteq> ''local''
          then raiseP (ConfigError ''only local[...] runs inside the migration Job'')
          else bindP (spark_range T' shuffle (rc_key ctx) (load_batch_rows (m_batch (rc_manifest ctx))) ts (kr_seq rng)
                        local count (m_records_per_slice (rc_manifest ctx)) (sc_shuffle_partitions cfg)) (\<lambda>(loaded, rejected).
            finish_range T ctx ts rng loaded rejected)))"

section \<open>The decisions\<close>

text \<open>What the serial loop decides of each record, in file order, as the records the sinks get.\<close>

fun serial_outcomes :: "table_spec \<Rightarrow> nat \<Rightarrow> string set \<Rightarrow> routed list \<Rightarrow> routed list" where
  "serial_outcomes ts seq seen [] = []"
| "serial_outcomes ts seq seen (r # rs) = (case ro_row r of
       None \<Rightarrow> r # serial_outcomes ts seq seen rs
     | Some row \<Rightarrow>
         if ro_key r \<in> seen then as_duplicate ts seq r row # serial_outcomes ts seq seen rs
         else r # serial_outcomes ts seq (insert (ro_key r) seen) rs)"

definition well_routed :: "string \<Rightarrow> routed \<Rightarrow> bool" where
  "well_routed tab r \<longleftrightarrow> (case ro_row r of
       Some row \<Rightarrow> sr_source_key row = ro_key r \<and> sr_table row = tab \<and> sr_stg_id row = None
     | None \<Rightarrow> (\<exists>j. ro_reject r = Some j \<and> reject_key j = (tab, Load, ro_key r)))"

lemma route_record_well: "route_record ts seq (i, rec) = Inr r \<Longrightarrow> well_routed (ts_name ts) r \<and> ro_index r = i"
  by (auto simp: route_record_def well_routed_def converted_row_def conversion_reject_def reject_key_def
      split: option.splits)

lemma as_duplicate_well: "well_routed (ts_name ts) (as_duplicate ts seq r row)" "ro_key (as_duplicate ts seq r row) = ro_key r"
  by (simp_all add: as_duplicate_def well_routed_def duplicate_reject_def reject_key_def)

lemma serial_outcomes_well:
  "(\<And>r. r \<in> set rs \<Longrightarrow> well_routed (ts_name ts) r) \<Longrightarrow> r \<in> set (serial_outcomes ts seq seen rs) \<Longrightarrow> well_routed (ts_name ts) r"
  by (induction rs arbitrary: seen) (auto simp: as_duplicate_well split: option.splits if_splits)

lemma outcomes_of_key:
  "filter (\<lambda>r. ro_key r = k) (serial_outcomes ts seq seen rs) =
   route_from ts seq (k \<in> seen) (filter (\<lambda>r. ro_key r = k) rs)"
proof (induction rs arbitrary: seen)
  case Nil
  then show ?case by simp
next
  case (Cons r rs)
  show ?case
    using Cons.IH [of seen] Cons.IH [of "insert (ro_key r) seen"]
    by (cases "ro_row r") (auto simp: as_duplicate_def)
qed

lemma route_from_key: "(\<And>r. r \<in> set rs \<Longrightarrow> ro_key r = k) \<Longrightarrow> r \<in> set (route_from ts seq kept rs) \<Longrightarrow> ro_key r = k"
  by (induction rs arbitrary: kept) (auto simp: as_duplicate_well split: option.splits if_splits)

text \<open>The keys of the rows the serial loop stages are distinct.\<close>

definition rows_of :: "routed list \<Rightarrow> staged_row list" where
  "rows_of rs = List.map_filter ro_row rs"

definition rejects_of :: "routed list \<Rightarrow> reject list" where
  "rejects_of rs = map (\<lambda>r. the (ro_reject r)) (filter (\<lambda>r. ro_row r = None) rs)"

lemma rows_of_simps [simp]:
  "rows_of [] = []" "rows_of (r # rs) = (case ro_row r of None \<Rightarrow> rows_of rs | Some row \<Rightarrow> row # rows_of rs)"
  "rows_of (rs @ rs') = rows_of rs @ rows_of rs'"
  by (simp_all add: rows_of_def map_filter_simps map_filter_def split: option.split)

lemma rejects_of_simps [simp]:
  "rejects_of [] = []"
  "rejects_of (r # rs) = (if ro_row r = None then the (ro_reject r) # rejects_of rs else rejects_of rs)"
  "rejects_of (rs @ rs') = rejects_of rs @ rejects_of rs'"
  by (simp_all add: rejects_of_def)

lemma serial_rows_distinct:
  assumes "\<And>r. r \<in> set rs \<Longrightarrow> well_routed (ts_name ts) r"
  shows "distinct (map sr_source_key (rows_of (serial_outcomes ts seq seen rs))) \<and>
    sr_source_key ` set (rows_of (serial_outcomes ts seq seen rs)) \<inter> seen = {}"
  using assms
proof (induction rs arbitrary: seen)
  case Nil
  then show ?case by simp
next
  case (Cons r rs)
  have IH: "distinct (map sr_source_key (rows_of (serial_outcomes ts seq s rs))) \<and>
    sr_source_key ` set (rows_of (serial_outcomes ts seq s rs)) \<inter> s = {}" for s
    by (rule Cons.IH) (simp add: Cons.prems)
  from Cons.prems [of r] have w: "well_routed (ts_name ts) r" by simp
  show ?case
    using IH [of seen] IH [of "insert (ro_key r) seen"] w
    by (cases "ro_row r") (auto simp: as_duplicate_def well_routed_def)
qed

section \<open>The serial loop feeds the sink\<close>

definition sink_of :: "load_vars \<Rightarrow> sink_vars" where
  "sink_of v = \<lparr>sk_batch = lv_batch v, sk_rejects = lv_rejects v, sk_loaded = lv_loaded v, sk_rejected = lv_rejected v\<rparr>"

definition with_sink :: "string list \<Rightarrow> sink_vars \<Rightarrow> load_vars" where
  "with_sink seen u = \<lparr>lv_seen = seen, lv_batch = sk_batch u, lv_rejects = sk_rejects u,
     lv_loaded = sk_loaded u, lv_rejected = sk_rejected u\<rparr>"

lemma with_sink_of [simp]: "with_sink (lv_seen v) (sink_of v) = v" "sink_of (with_sink seen u) = u"
  "lv_seen (with_sink seen u) = seen"
  by (simp_all add: with_sink_def sink_of_def)

lemma bindP_assoc [simp]: "bindP (bindP m f) g = bindP m (\<lambda>a. bindP (f a) g)"
  by (rule ext) (auto simp: bindP_eval split: prod.split sum.split)

lemma bindP_ret [simp]: "bindP (retP a) f = f a" "bindP (raiseP e) f' = raiseP e" "bindP (Pair (Inr a)) f = f a"
  by (rule ext, simp add: bindP_eval)+

lemma flush_sink:
  assumes "lv_batch v \<noteq> []"
  shows "flush T k ts v = bindP (sink_flush T k ts (sink_of v)) (\<lambda>u. retP (with_sink (lv_seen v) u))"
  using assms
  by (auto simp: flush_def sink_flush_def sink_insert_def sink_of_def with_sink_def Let_def thenP_def fun_eq_iff
      bindP_eval split: prod.split sum.split)

lemma load_record_sink:
  assumes r: "route_record ts seq (i, rec) = Inr r" and len: "length (lv_batch v) < n"
  defines "o' \<equiv> hd (serial_outcomes ts seq (set (lv_seen v)) [r])"
  shows "load_record T k n ts seq rec v =
    bindP (sink_record T k n ts o' (sink_of v))
      (\<lambda>u. retP (with_sink (if ro_row o' = None then lv_seen v else ro_key o' # lv_seen v) u))"
proof -
  from r obtain conv where c: "convert_record rec (ts_columns ts) = Inr conv"
    and r': "r = (case cv_error conv of
            None \<Rightarrow> \<lparr>ro_key = cv_source_key conv, ro_index = i,
                     ro_row = Some (converted_row (ts_name ts) seq rec conv), ro_reject = None\<rparr>
          | Some err \<Rightarrow> \<lparr>ro_key = cv_source_key conv, ro_index = i, ro_row = None,
                     ro_reject = Some (conversion_reject (ts_name ts) (cv_source_key conv) err rec seq)\<rparr>)"
    by (auto simp: route_record_def)
  have c': "liftP (Inr conv) = retP conv" by (simp add: liftP_def retP_def)
  consider (bad) err where "cv_error conv = Some err"
    | (dup) "cv_error conv = None" "cv_source_key conv \<in> set (lv_seen v)"
    | (new) "cv_error conv = None" "cv_source_key conv \<notin> set (lv_seen v)" by blast
  then show ?thesis
  proof cases
    case bad
    with len show ?thesis
      by (cases v) (simp add: load_record_def c c' o'_def r' sink_record_def sink_of_def with_sink_def)
  next
    case dup
    with len show ?thesis
      by (cases v) (simp add: load_record_def c c' o'_def r' sink_record_def sink_of_def with_sink_def as_duplicate_def converted_row_def)
  next
    case new
    let ?v = "v\<lparr>lv_seen := cv_source_key conv # lv_seen v, lv_batch := lv_batch v @ [converted_row (ts_name ts) seq rec conv]\<rparr>"
    have o': "o' = r" "ro_row r = Some (converted_row (ts_name ts) seq rec conv)" "ro_key r = cv_source_key conv"
      using new by (simp_all add: o'_def r')
    have u: "sink_of ?v = (sink_of v)\<lparr>sk_batch := sk_batch (sink_of v) @ [converted_row (ts_name ts) seq rec conv]\<rparr>"
      by (simp add: sink_of_def)
    have "load_record T k n ts seq rec v = (if n \<le> length (lv_batch ?v) then flush T k ts ?v else retP ?v)"
      using new by (simp add: load_record_def c c' Let_def)
    also have "\<dots> = bindP (if n \<le> length (sk_batch (sink_of ?v)) then sink_flush T k ts (sink_of ?v) else retP (sink_of ?v))
        (\<lambda>w. retP (with_sink (lv_seen ?v) w))"
      by (cases "n \<le> length (lv_batch ?v)"; cases v) (simp_all add: flush_sink sink_of_def with_sink_def retP_def)
    also have "\<dots> = bindP (sink_record T k n ts o' (sink_of v)) (\<lambda>u. retP (with_sink (lv_seen ?v) u))"
      by (simp only: sink_record_def o' u) simp
    finally show ?thesis by (simp add: o')
  qed
qed

lemma sink_flush_empty: "sink_flush T k ts u w = (Inr u', w') \<Longrightarrow> sk_batch u' = [] \<and> sk_rejects u' = []"
  by (auto simp: sink_flush_def sink_insert_def bindP_Inr thenP_Inr Let_def split: if_splits)

lemma sink_record_batch:
  "sink_record T k n ts r u w = (Inr u', w') \<Longrightarrow> 0 < n \<Longrightarrow> length (sk_batch u') < n"
  by (auto simp: sink_record_def bindP_Inr split: option.splits if_splits dest: sink_flush_empty)

definition seen_after :: "string list \<Rightarrow> routed list \<Rightarrow> string list" where
  "seen_after l ds = foldl (\<lambda>l r. if ro_row r = None then l else ro_key r # l) l ds"

lemma load_fold_sink:
  assumes "list_all2 (\<lambda>rec r. \<exists>i. route_record ts seq (i, rec) = Inr r) recs rs"
    and "length (lv_batch v) < n" and "seen = set (lv_seen v)"
  shows "foldP (load_record T k n ts seq) recs v =
    (bindP (foldP (sink_record T k n ts) (serial_outcomes ts seq seen rs) (sink_of v))
       (\<lambda>u. retP (with_sink (seen_after (lv_seen v) (serial_outcomes ts seq seen rs)) u))
     :: (('s, 't, 'b) world, ldm_error, load_vars) prog)"
  using assms
proof (induction recs rs arbitrary: v seen rule: list_all2_induct)
  case Nil
  then show ?case by (simp add: seen_after_def)
next
  case (Cons rec recs r rs)
  from Cons.hyps(1) obtain i where i: "route_record ts seq (i, rec) = Inr r" by blast
  define o' where "o' = hd (serial_outcomes ts seq seen [r])"
  define l where "l = (if ro_row o' = None then lv_seen v else ro_key o' # lv_seen v)"
  have split: "serial_outcomes ts seq seen (r # rs) = o' # serial_outcomes ts seq (set l) rs"
    using Cons.prems(2) by (auto simp: o'_def l_def as_duplicate_def split: option.splits)
  have after: "seen_after (lv_seen v) (o' # ds) = seen_after l ds" for ds by (simp add: seen_after_def l_def)
  have step: "load_record T k n ts seq rec v =
      (bindP (sink_record T k n ts o' (sink_of v)) (\<lambda>u. retP (with_sink l u)) :: (('s, 't, 'b) world, ldm_error, load_vars) prog)"
    unfolding o'_def l_def Cons.prems(2) by (rule load_record_sink [OF i Cons.prems(1)])
  from Cons.prems(1) have n: "0 < n" by simp
  show ?case unfolding split foldP.simps step after bindP_assoc bindP_ret
  proof (rule ext, rule bindP_cong)
    fix s t :: "('s, 't, 'b) world" and u
    assume "sink_record T k n ts o' (sink_of v) s = (Inr u, t)"
    from sink_record_batch [OF this n] have "length (lv_batch (with_sink l u)) < n" by (simp add: with_sink_def)
    from Cons.IH [OF this, of "set l"]
    show "foldP (load_record T k n ts seq) recs (with_sink l u) t =
        bindP (foldP (sink_record T k n ts) (serial_outcomes ts seq (set l) rs) u)
          (\<lambda>u. retP (with_sink (seen_after l (serial_outcomes ts seq (set l) rs)) u)) t" by (simp add: retP_def)
  qed
qed

text \<open>The rest of \<open>load_range\<close> after its loop is the last flush of a sink.\<close>

lemma load_rest_sink:
  "bindP (flush T k ts v) (\<lambda>v'. thenP (if lv_rejects v' \<noteq> [] then onT (to_insert_rejects T k (lv_rejects v')) else retP ())
       (f (lv_loaded v') (lv_rejected v'))) =
   (bindP (sink_flush T k ts (sink_of v)) (\<lambda>u. f (sk_loaded u) (sk_rejected u)) :: (('s, 't, 'b) world, ldm_error, 'a) prog)"
proof (cases "lv_batch v = []")
  case True
  then show ?thesis
    by (auto simp: flush_def sink_flush_def sink_insert_def sink_of_def thenP_def fun_eq_iff bindP_eval split: prod.split sum.split)
next
  case False
  show ?thesis unfolding flush_sink [OF False] bindP_assoc bindP_ret
  proof (rule ext, rule bindP_cong)
    fix w t :: "('s, 't, 'b) world" and u
    assume "sink_flush T k ts (sink_of v) w = (Inr u, t)"
    from sink_flush_empty [OF this]
    show "thenP (if lv_rejects (with_sink (lv_seen v) u) \<noteq> [] then onT (to_insert_rejects T k (lv_rejects (with_sink (lv_seen v) u)))
          else retP ()) (f (lv_loaded (with_sink (lv_seen v) u)) (lv_rejected (with_sink (lv_seen v) u))) t =
        f (sk_loaded u) (sk_rejected u) t" by (simp add: with_sink_def thenP_def)
  qed
qed

lemma load_loop_sink:
  assumes "list_all2 (\<lambda>rec r. \<exists>i. route_record ts seq (i, rec) = Inr r) recs rs" and "0 < n"
  shows "bindP (foldP (load_record T k n ts seq) recs load_start) (\<lambda>v. bindP (flush T k ts v) (\<lambda>v'.
       thenP (if lv_rejects v' \<noteq> [] then onT (to_insert_rejects T k (lv_rejects v')) else retP ())
         (f (lv_loaded v') (lv_rejected v')))) =
    (bindP (sink_records T k n ts (serial_outcomes ts seq {} rs)) (\<lambda>(l, j). f l j) :: (('s, 't, 'b) world, ldm_error, 'a) prog)"
proof -
  have "foldP (load_record T k n ts seq) recs load_start =
      bindP (foldP (sink_record T k n ts) (serial_outcomes ts seq {} rs) sink_start)
       (\<lambda>u. retP (with_sink (seen_after [] (serial_outcomes ts seq {} rs)) u) :: (('s, 't, 'b) world, ldm_error, load_vars) prog)"
    using load_fold_sink [OF assms(1), of load_start n "{}" T k] assms(2)
    by (simp add: load_start_def sink_of_def sink_start_def)
  then show ?thesis by (simp add: load_rest_sink sink_records_def)
qed

section \<open>The shuffle does not change the decisions\<close>

text \<open>What \<open>groupBy\<close> promises: as many parts as asked for, one group for each key, and in it the
  records of the key, in some order.\<close>

definition groups_by_key :: "shuffle \<Rightarrow> bool" where
  "groups_by_key sh \<longleftrightarrow> (\<forall>n rs. length (sh n rs) = n \<and>
     (0 < n \<longrightarrow> distinct (map fst (concat (sh n rs))) \<and> fst ` set (concat (sh n rs)) = ro_key ` set rs \<and>
        (\<forall>kv \<in> set (concat (sh n rs)). mset (snd kv) = mset (filter (\<lambda>r. ro_key r = fst kv) rs))))"

lemma mapE_routes:
  assumes "mapE (route_record ts seq) (enumerate i recs) = Inr rs"
  shows "list_all2 (\<lambda>rec r. \<exists>i. route_record ts seq (i, rec) = Inr r) recs rs \<and>
    map ro_index rs = [i..<i + length recs] \<and> (\<forall>r \<in> set rs. well_routed (ts_name ts) r)"
  using assms
proof (induction recs arbitrary: i rs)
  case Nil
  then show ?case by simp
next
  case (Cons rec recs)
  then obtain r rs' where r: "route_record ts seq (i, rec) = Inr r" "rs = r # rs'"
    "mapE (route_record ts seq) (enumerate (Suc i) recs) = Inr rs'" by auto
  from Cons.IH [OF r(3)] r route_record_well [OF r(1)] show ?case by (auto simp: upt_rec)
qed

lemma load_record_routes:
  "foldP (load_record T k n ts seq) recs v w = (Inr v', w') \<Longrightarrow> \<exists>rs. mapE (route_record ts seq) (enumerate i recs) = Inr rs"
proof (induction recs arbitrary: i v w)
  case Nil
  then show ?case by simp
next
  case (Cons rec recs)
  from Cons.prems obtain u t where l: "load_record T k n ts seq rec v w = (Inr u, t)"
    and "foldP (load_record T k n ts seq) recs u t = (Inr v', w')" by (auto simp: bindP_Inr)
  from Cons.IH [OF this(2), of "Suc i"] obtain rs where "mapE (route_record ts seq) (enumerate (Suc i) recs) = Inr rs" by blast
  moreover from l obtain conv where "convert_record rec (ts_columns ts) = Inr conv"
    by (auto simp: load_record_def bindP_Inr simp del: bindP_ret)
  then obtain r where "route_record ts seq (i, rec) = Inr r" by (auto simp: route_record_def)
  ultimately show ?case by simp
qed

lemma route_key_of_group:
  assumes "map ro_index rs = [a..<b]" and "mset g = mset (filter P rs)"
  shows "route_key ts seq g = route_from ts seq False (filter P rs)"
proof -
  let ?f = "filter P rs"
  have d: "distinct (map ro_index rs)" and s: "sorted (map ro_index rs)" using assms(1) by simp_all
  have df: "distinct (map ro_index ?f)" using d by (rule distinct_map_filter)
  have "mset (map ro_index (sort_key ro_index g)) = mset (map ro_index ?f)" using assms(2) by simp
  then have dg: "distinct (map ro_index (sort_key ro_index g))" using df mset_eq_imp_distinct_iff by blast
  have set: "set (sort_key ro_index g) = set ?f" using assms(2) by (metis mset_eq_setD set_sort)
  have "sort_key ro_index g = ?f"
  proof (rule map_sorted_distinct_set_unique [of ro_index])
    show "inj_on ro_index (set (sort_key ro_index g) \<union> set ?f)" using df unfolding set by (simp add: distinct_map)
    show "sorted (map ro_index ?f)" using s by (rule sorted_filter)
  qed (use dg df set in auto)
  then show ?thesis by (simp add: route_key_def)
qed

lemma concat_of_key:
  assumes "distinct (map fst gs)" and "\<And>kv r. kv \<in> set gs \<Longrightarrow> r \<in> set (d kv) \<Longrightarrow> ro_key r = fst kv"
    and "\<And>kv. kv \<in> set gs \<Longrightarrow> d kv = h (fst kv)" and "q \<notin> fst ` set gs \<Longrightarrow> h q = []"
  shows "filter (\<lambda>r. ro_key r = q) (concat (map d gs)) = h q"
proof -
  have "filter (\<lambda>r. ro_key r = q) (concat (map d gs)) = (if q \<in> fst ` set gs then h q else [])"
    using assms(1-3)
  proof (induction gs)
    case Nil
    then show ?case by simp
  next
    case (Cons kv gs)
    have own: "filter (\<lambda>r. ro_key r = q) (d kv) = (if q = fst kv then d kv else [])"
      using Cons.prems(2) [of kv] by (auto intro: filter_True filter_False)
    have IH: "filter (\<lambda>r. ro_key r = q) (concat (map d gs)) = (if q \<in> fst ` set gs then h q else [])"
      by (rule Cons.IH) (use Cons.prems in auto)
    have d: "d kv = h (fst kv)" by (simp add: Cons.prems(3))
    have "filter (\<lambda>r. ro_key r = q) (concat (map d (kv # gs))) =
        (if q = fst kv then h q else []) @ (if q \<in> fst ` set gs then h q else [])"
      unfolding list.map concat.simps filter_append own IH by (simp add: d)
    with Cons.prems(1) show ?case by auto
  qed
  with assms(4) show ?thesis by (simp split: if_splits)
qed

lemma spark_decisions_of_key:
  assumes "groups_by_key sh" and "0 < n" and "map ro_index rs = [a..<b]"
  shows "filter (\<lambda>r. ro_key r = q) (concat (map (\<lambda>kv. route_key ts seq (snd kv)) (concat (sh n rs)))) =
    filter (\<lambda>r. ro_key r = q) (serial_outcomes ts seq {} rs)"
proof -
  let ?gs = "concat (sh n rs)" and ?h = "\<lambda>q. route_from ts seq False (filter (\<lambda>r. ro_key r = q) rs)"
  have g: "distinct (map fst ?gs)" "fst ` set ?gs = ro_key ` set rs"
    "\<And>kv. kv \<in> set ?gs \<Longrightarrow> mset (snd kv) = mset (filter (\<lambda>r. ro_key r = fst kv) rs)"
    using assms(1,2) unfolding groups_by_key_def by blast+
  have eq: "\<And>kv. kv \<in> set ?gs \<Longrightarrow> route_key ts seq (snd kv) = ?h (fst kv)"
    using assms(3) g(3) by (rule route_key_of_group)
  have "filter (\<lambda>r. ro_key r = q) (concat (map (\<lambda>kv. route_key ts seq (snd kv)) ?gs)) = ?h q"
  proof (rule concat_of_key [where h = ?h and gs = ?gs, OF g(1) _ eq])
    show "ro_key r = fst kv" if "kv \<in> set ?gs" "r \<in> set (route_key ts seq (snd kv))" for kv r
      using that eq [OF that(1)] by (auto elim!: route_from_key [rotated])
    assume "q \<notin> fst ` set ?gs"
    with g(2) have "filter (\<lambda>r. ro_key r = q) rs = []" by (auto simp: filter_empty_conv)
    then show "?h q = []" by simp
  qed
  then show ?thesis by (simp add: outcomes_of_key)
qed

lemma mset_of_keys:
  fixes xs ys :: "routed list"
  assumes "\<And>q. filter (\<lambda>r. ro_key r = q) xs = filter (\<lambda>r. ro_key r = q) ys"
  shows "mset xs = mset ys"
proof (rule multiset_eqI)
  fix x :: routed
  have *: "count (mset zs) x = count (mset (filter (\<lambda>r. ro_key r = ro_key x) zs)) x" for zs :: "routed list" by simp
  show "count (mset xs) x = count (mset ys) x"
    by (subst * [of xs], subst * [of ys]) (simp only: assms)
qed

lemma mset_rows_rejects:
  "mset (rows_of ds) = image_mset (\<lambda>r. the (ro_row r)) (filter_mset (\<lambda>r. ro_row r \<noteq> None) (mset ds))"
  "mset (rejects_of ds) = image_mset (\<lambda>r. the (ro_reject r)) (filter_mset (\<lambda>r. ro_row r = None) (mset ds))"
  by (induction ds) auto

lemma find_of_key:
  assumes "\<forall>r \<in> set ds. well_routed tab r"
  shows "find (\<lambda>j. reject_key j = (tab, Load, q)) (rejects_of ds) =
    find (\<lambda>j. reject_key j = (tab, Load, q)) (rejects_of (filter (\<lambda>r. ro_key r = q) ds))"
    and "x \<notin> range (\<lambda>q. (tab, Load, q)) \<Longrightarrow> find (\<lambda>j. reject_key j = x) (rejects_of ds) = None"
proof -
  have own: "reject_key (the (ro_reject r)) = (tab, Load, ro_key r)" if "well_routed tab r" "ro_row r = None" for r
    using that by (auto simp: well_routed_def)
  show "find (\<lambda>j. reject_key j = (tab, Load, q)) (rejects_of ds) =
    find (\<lambda>j. reject_key j = (tab, Load, q)) (rejects_of (filter (\<lambda>r. ro_key r = q) ds))"
    using assms by (induction ds) (simp_all add: own)
  show "x \<notin> range (\<lambda>q. (tab, Load, q)) \<Longrightarrow> find (\<lambda>j. reject_key j = x) (rejects_of ds) = None"
    using assms by (induction ds) (auto simp: own)
qed

lemma mapE_concat:
  assumes "mapE f xs = Inr xss" and "mapE g (concat xss) = Inr ys"
  shows "\<exists>yss. mapE (\<lambda>x. bindE (f x) (mapE g)) xs = Inr yss \<and> concat yss = ys"
  using assms
proof (induction xs arbitrary: xss ys)
  case Nil
  then show ?case by simp
next
  case (Cons x xs)
  then obtain zs zss where z: "f x = Inr zs" "mapE f xs = Inr zss" "xss = zs # zss" by auto
  have split: "mapE g (as @ bs) = Inr cs \<Longrightarrow> \<exists>ds es. mapE g as = Inr ds \<and> mapE g bs = Inr es \<and> cs = ds @ es" for as bs cs
  proof (induction as arbitrary: cs)
    case (Cons a as)
    then obtain c cs' where "g a = Inr c" "mapE g (as @ bs) = Inr cs'" "cs = c # cs'" by auto
    with Cons.IH [of cs'] show ?case by auto
  qed simp
  from split [of zs "concat zss" ys] Cons.prems(2) z(3) obtain ds es where
    "mapE g zs = Inr ds" "mapE g (concat zss) = Inr es" "ys = ds @ es" by auto
  with Cons.IH [OF z(2)] z(1) show ?case by fastforce
qed

section \<open>A target that refuses rows one key at a time\<close>

lemma find_None_key: "find (\<lambda>j. h j = x) js = None \<longleftrightarrow> x \<notin> h ` set js"
  by (auto simp: find_None_iff)

lemma find_app: "find P (xs @ ys) = (case find P xs of None \<Rightarrow> find P ys | Some x \<Rightarrow> Some x)"
  by (induction xs) simp_all

text \<open>
  What the agreement of the engines needs of a target: an insert of rows with distinct keys stores
  the rows it does not refuse, and whether a key is refused depends on that key only (a planted
  refusal, or a row of the key that is stored already); of the rejects of one key the first stays.
\<close>

locale row_store =
  fixes T :: "'t target_ops" and ok :: "'t \<Rightarrow> bool"
    and stored :: "'t \<Rightarrow> run_key \<Rightarrow> string \<Rightarrow> staged_row multiset"
    and rejected :: "'t \<Rightarrow> run_key \<Rightarrow> reject list"
    and refusal :: "'t \<Rightarrow> run_key \<Rightarrow> string \<Rightarrow> string \<Rightarrow> insert_failure option"
  assumes insert: "ok t \<Longrightarrow> distinct (map sr_source_key rs) \<Longrightarrow> \<forall>r\<in>set rs. sr_stg_id r = None \<Longrightarrow>
      \<exists>t'. to_insert_staging T k tab rs t = (Inr (List.map_filter (\<lambda>r. refusal t k tab (sr_source_key r)) rs), t') \<and> ok t' \<and>
        stored t' k tab = stored t k tab + mset (filter (\<lambda>r. refusal t k tab (sr_source_key r) = None) rs) \<and>
        rejected t' = rejected t \<and> (\<forall>q. q \<notin> sr_source_key ` set rs \<longrightarrow> refusal t' k tab q = refusal t k tab q)"
    and refusal_key: "ok t \<Longrightarrow> refusal t k tab q = Some f \<Longrightarrow> if_source_key f = q"
    and rejects: "ok t \<Longrightarrow> \<exists>t'. to_insert_rejects T k js t = (Inr (), t') \<and> ok t' \<and> stored t' = stored t \<and> refusal t' = refusal t \<and>
        (\<forall>x. find (\<lambda>j. reject_key j = x) (rejected t' k) = find (\<lambda>j. reject_key j = x) (rejected t k @ js))"
    and rest: "ok t \<Longrightarrow> m \<in> {to_connect T, to_close T, to_register_table T tab ks hs cs, to_update_key_range T k tab seq g} \<Longrightarrow>
        \<exists>t'. m t = (Inr (), t') \<and> ok t' \<and> stored t' = stored t \<and> refusal t' = refusal t \<and> rejected t' = rejected t"
    and deletes: "ok t \<Longrightarrow> m \<in> {to_delete_staging_range T k tab seq, to_delete_rejects_range T k tab st seq} \<Longrightarrow>
        m t = (r, t') \<Longrightarrow> ok t' \<and> (\<forall>q. refusal t k tab q = None \<longrightarrow> refusal t' k tab q = None)"
begin

abbreviation accepts :: "'t \<Rightarrow> run_key \<Rightarrow> string \<Rightarrow> staged_row list \<Rightarrow> staged_row list" where
  "accepts t k tab \<equiv> filter (\<lambda>r. refusal t k tab (sr_source_key r) = None)"

abbreviation refuses :: "'t \<Rightarrow> run_key \<Rightarrow> string \<Rightarrow> staged_row list \<Rightarrow> staged_row list" where
  "refuses t k tab \<equiv> filter (\<lambda>r. refusal t k tab (sr_source_key r) \<noteq> None)"

text \<open>What the run will have come to when the records \<open>ds\<close> are handled: rows \<open>M\<close>, counts \<open>L\<close> and
  \<open>J\<close>, rejected keys \<open>H\<close>, and outside the refused keys \<open>R\<close> the rejects \<open>f\<close>.\<close>

definition tracks ::
  "run_key \<Rightarrow> string \<Rightarrow> string set \<Rightarrow> ((string \<times> stage \<times> string) \<Rightarrow> reject option) \<Rightarrow> staged_row multiset \<Rightarrow>
   (string \<times> stage \<times> string) set \<Rightarrow> 't \<Rightarrow> sink_vars \<Rightarrow> routed list \<Rightarrow> int \<Rightarrow> int \<Rightarrow> bool" where
  "tracks k tab R f M H t v ds L J \<longleftrightarrow>
     ok t \<and> (\<forall>r\<in>set ds. well_routed tab r) \<and> (\<forall>r\<in>set (sk_batch v). sr_table r = tab \<and> sr_stg_id r = None) \<and>
     distinct (map sr_source_key (sk_batch v @ rows_of ds)) \<and>
     sr_source_key ` set (refuses t k tab (sk_batch v @ rows_of ds)) \<subseteq> R \<and>
     stored t k tab + mset (accepts t k tab (sk_batch v @ rows_of ds)) = M \<and>
     sk_loaded v + int (length (accepts t k tab (sk_batch v @ rows_of ds))) = L \<and>
     sk_rejected v + int (length (refuses t k tab (sk_batch v @ rows_of ds))) + int (length (rejects_of ds)) = J \<and>
     reject_key ` set (rejected t k @ sk_rejects v @ rejects_of ds) \<union>
       (\<lambda>r. (tab, Load, sr_source_key r)) ` set (refuses t k tab (sk_batch v @ rows_of ds)) = H \<and>
     (\<forall>x. x \<notin> (\<lambda>q. (tab, Load, q)) ` R \<longrightarrow>
        find (\<lambda>j. reject_key j = x) (rejected t k @ sk_rejects v @ rejects_of ds) = f x)"

lemma mapE_failures:
  assumes "if_source_key ` set gs \<subseteq> sr_source_key ` set rs" and "\<forall>r\<in>set rs. sr_table r = tab"
  shows "\<exists>js. mapE (\<lambda>f. bindE (row_by_key rs (if_source_key f)) (\<lambda>r. Inr (failure_reject f r cs))) gs = Inr js \<and>
    map reject_key js = map (\<lambda>f. (tab, Load, if_source_key f)) gs"
  using assms(1)
proof (induction gs)
  case Nil
  then show ?case by simp
next
  case (Cons g gs)
  then have "find (\<lambda>r. sr_source_key r = if_source_key g) (rev rs) \<noteq> None"
    by (auto simp: find_None_iff)
  then obtain r where r: "find (\<lambda>r. sr_source_key r = if_source_key g) (rev rs) = Some r" by blast
  then have "r \<in> set (rev rs)" unfolding find_Some_iff using nth_mem by blast
  with assms(2) have "reject_key (failure_reject g r cs) = (tab, Load, if_source_key g)"
    by (simp add: reject_key_def failure_reject_def)
  with Cons r show ?case by (auto simp: row_by_key_def)
qed

lemma failures_of_batch:
  assumes "ok t" and "distinct (map sr_source_key rs)" and "\<forall>r\<in>set rs. sr_table r = tab"
  shows "card (if_source_key ` set (List.map_filter (\<lambda>r. refusal t k tab (sr_source_key r)) rs)) = length (refuses t k tab rs)"
    and "\<exists>js. mapE (\<lambda>f. bindE (row_by_key rs (if_source_key f)) (\<lambda>r. Inr (failure_reject f r cs)))
        (List.map_filter (\<lambda>r. refusal t k tab (sr_source_key r)) rs) = Inr js \<and>
      map reject_key js = map (\<lambda>r. (tab, Load, sr_source_key r)) (refuses t k tab rs)"
proof -
  let ?fs = "List.map_filter (\<lambda>r. refusal t k tab (sr_source_key r)) rs"
  have fs: "map if_source_key ?fs = map sr_source_key (refuses t k tab rs)"
    by (induction rs) (auto simp: map_filter_simps refusal_key [OF assms(1)])
  have "distinct (map if_source_key ?fs)" unfolding fs using assms(2) by (rule distinct_map_filter)
  from distinct_card [OF this] have "card (if_source_key ` set ?fs) = length ?fs" by simp
  also have "\<dots> = length (refuses t k tab rs)" using arg_cong [OF fs, of length] by simp
  finally show "card (if_source_key ` set ?fs) = length (refuses t k tab rs)" .
  have "if_source_key ` set ?fs = sr_source_key ` set (refuses t k tab rs)" using arg_cong [OF fs, of set] by simp
  then have "if_source_key ` set ?fs \<subseteq> sr_source_key ` set rs" by auto
  from mapE_failures [OF this assms(3)] obtain js where
    js: "mapE (\<lambda>f. bindE (row_by_key rs (if_source_key f)) (\<lambda>r. Inr (failure_reject f r cs))) ?fs = Inr js"
      "map reject_key js = map (\<lambda>f. (tab, Load, if_source_key f)) ?fs" by blast
  have "map (\<lambda>f. (tab, Load, if_source_key f)) ?fs = map (\<lambda>q. (tab, Load, q)) (map if_source_key ?fs)" by simp
  also have "\<dots> = map (\<lambda>r. (tab, Load, sr_source_key r)) (refuses t k tab rs)" unfolding fs by simp
  finally show "\<exists>js. mapE (\<lambda>f. bindE (row_by_key rs (if_source_key f)) (\<lambda>r. Inr (failure_reject f r cs))) ?fs = Inr js \<and>
      map reject_key js = map (\<lambda>r. (tab, Load, sr_source_key r)) (refuses t k tab rs)" using js by simp
qed

lemma tracks_insert:
  assumes "tracks k (ts_name ts) R f M H (w_target w) v ds L J"
  shows "\<exists>v' w'. sink_insert T k ts v w = (Inr v', w') \<and> tracks k (ts_name ts) R f M H (w_target w') v' ds L J \<and> sk_batch v' = []"
proof (cases "sk_batch v = []")
  case True
  with assms show ?thesis by (simp add: sink_insert_def)
next
  case False
  let ?t = "w_target w" and ?tab = "ts_name ts" and ?b = "sk_batch v"
  from assms have ok: "ok ?t" and d: "distinct (map sr_source_key ?b)" and stg: "\<forall>r\<in>set ?b. sr_stg_id r = None"
    and tab: "\<forall>r\<in>set ?b. sr_table r = ts_name ts" and disj: "sr_source_key ` set ?b \<inter> sr_source_key ` set (rows_of ds) = {}"
    by (auto simp: tracks_def)
  from insert [OF ok d stg] obtain t' where
    run: "to_insert_staging T k ?tab ?b ?t = (Inr (List.map_filter (\<lambda>r. refusal ?t k ?tab (sr_source_key r)) ?b), t')"
    and t': "ok t'" "stored t' k ?tab = stored ?t k ?tab + mset (accepts ?t k ?tab ?b)" "rejected t' = rejected ?t"
      "\<And>q. q \<notin> sr_source_key ` set ?b \<Longrightarrow> refusal t' k ?tab q = refusal ?t k ?tab q" by blast
  from failures_of_batch(2) [OF ok d tab, where k = k and cs = "tc_key_columns (ts_config ts)"] obtain js where
    js: "mapE (\<lambda>f. bindE (row_by_key ?b (if_source_key f)) (\<lambda>r. Inr (failure_reject f r (tc_key_columns (ts_config ts)))))
        (List.map_filter (\<lambda>r. refusal ?t k ?tab (sr_source_key r)) ?b) = Inr js"
      "map reject_key js = map (\<lambda>r. (?tab, Load, sr_source_key r)) (refuses ?t k ?tab ?b)" by blast
  define v' where "v' = \<lparr>sk_batch = [], sk_rejects = sk_rejects v @ js,
      sk_loaded = sk_loaded v + (int (length ?b) - int (length (refuses ?t k ?tab ?b))),
      sk_rejected = sk_rejected v + int (length (refuses ?t k ?tab ?b))\<rparr>"
  have "sink_insert T k ts v w = (Inr v', w\<lparr>w_target := t'\<rparr>)"
    using False run js(1) failures_of_batch(1) [OF ok d tab, where k = k]
    by (simp add: sink_insert_def bindP_eval onT_def Let_def v'_def)
  moreover have len: "int (length ?b) - int (length (refuses ?t k ?tab ?b)) = int (length (accepts ?t k ?tab ?b))"
    using sum_length_filter_compl [of "\<lambda>r. refusal ?t k ?tab (sr_source_key r) = None" ?b] by simp
  have other: "refusal t' k ?tab (sr_source_key r) = refusal ?t k ?tab (sr_source_key r)" if "r \<in> set (rows_of ds)" for r
    using disj that by (intro t'(4)) blast
  have same: "accepts t' k ?tab (rows_of ds) = accepts ?t k ?tab (rows_of ds)"
    "refuses t' k ?tab (rows_of ds) = refuses ?t k ?tab (rows_of ds)"
    by (simp_all add: other cong: filter_cong)
  have keys: "reject_key ` set js = (\<lambda>r. (?tab, Load, sr_source_key r)) ` set (refuses ?t k ?tab ?b)"
    using js(2) by (metis set_map)
  have sub: "sr_source_key ` set (refuses ?t k ?tab ?b) \<subseteq> R" using assms by (auto simp: tracks_def)
  have find: "find (\<lambda>j. reject_key j = x) (as @ js @ bs) = find (\<lambda>j. reject_key j = x) (as @ bs)"
    if "x \<notin> (\<lambda>q. (?tab, Load, q)) ` R" for x as bs
  proof -
    have "find (\<lambda>j. reject_key j = x) js = None"
      using that keys sub by (auto simp: find_None_iff) (metis (mono_tags, lifting) image_eqI subsetD imageE)
    then show ?thesis by (induction as) (simp_all add: find_app split: option.split)
  qed
  have "tracks k ?tab R f M H t' v' ds L J"
    unfolding tracks_def
  proof (intro conjI)
    show "reject_key ` set (rejected t' k @ sk_rejects v' @ rejects_of ds) \<union>
        (\<lambda>r. (?tab, Load, sr_source_key r)) ` set (refuses t' k ?tab (sk_batch v' @ rows_of ds)) = H"
    proof -
      have "H = reject_key ` set (rejected ?t k @ sk_rejects v @ rejects_of ds) \<union>
        (\<lambda>r. (?tab, Load, sr_source_key r)) ` set (refuses ?t k ?tab (?b @ rows_of ds))"
        using assms by (simp only: tracks_def)
      then show ?thesis by (simp add: v'_def same [simplified] t'(3) image_Un keys Un_ac del: set_filter)
    qed
    show "\<forall>x. x \<notin> (\<lambda>q. (?tab, Load, q)) ` R \<longrightarrow>
        find (\<lambda>j. reject_key j = x) (rejected t' k @ sk_rejects v' @ rejects_of ds) = f x"
      using assms find [of _ "rejected ?t k @ sk_rejects v" "rejects_of ds"] by (simp add: tracks_def v'_def t'(3))
    show "sr_source_key ` set (refuses t' k ?tab (sk_batch v' @ rows_of ds)) \<subseteq> R"
      using assms by (simp add: tracks_def v'_def same same [simplified] image_Un del: set_filter)
  qed (use assms t'(1,2) len in \<open>simp_all add: tracks_def v'_def same same [simplified] ac_simps\<close>)
  then have "tracks k ?tab R f M H (w_target (w\<lparr>w_target := t'\<rparr>)) v' ds L J \<and> sk_batch v' = []" by (simp add: v'_def)
  ultimately show ?thesis by blast
qed

lemma tracks_flush:
  assumes "tracks k (ts_name ts) R f M H (w_target w) v ds L J"
  shows "\<exists>v' w'. sink_flush T k ts v w = (Inr v', w') \<and> tracks k (ts_name ts) R f M H (w_target w') v' ds L J \<and>
    sk_batch v' = [] \<and> sk_rejects v' = []"
proof -
  from tracks_insert [OF assms] obtain v1 w1 where 1: "sink_insert T k ts v w = (Inr v1, w1)"
    "tracks k (ts_name ts) R f M H (w_target w1) v1 ds L J" "sk_batch v1 = []" by blast
  show ?thesis
  proof (cases "sk_rejects v1 = []")
    case True
    with 1 show ?thesis by (simp add: sink_flush_def bindP_eval)
  next
    case False
    from 1(2) have "ok (w_target w1)" by (simp add: tracks_def)
    from rejects [OF this, of k "sk_rejects v1"] obtain t' where
      t': "to_insert_rejects T k (sk_rejects v1) (w_target w1) = (Inr (), t')" "ok t'" "stored t' = stored (w_target w1)"
        "refusal t' = refusal (w_target w1)"
        "\<And>x. find (\<lambda>j. reject_key j = x) (rejected t' k) = find (\<lambda>j. reject_key j = x) (rejected (w_target w1) k @ sk_rejects v1)"
      by blast
    have keys: "reject_key ` set (rejected t' k) = reject_key ` set (rejected (w_target w1) k @ sk_rejects v1)"
    proof -
      have "x \<in> reject_key ` set (rejected t' k) \<longleftrightarrow> x \<in> reject_key ` set (rejected (w_target w1) k @ sk_rejects v1)" for x
        using t'(5) [of x] find_None_key [of reject_key x] by metis
      then show ?thesis by blast
    qed
    have find: "find (\<lambda>j. reject_key j = x) (rejected t' k @ js) =
        find (\<lambda>j. reject_key j = x) (rejected (w_target w1) k @ sk_rejects v1 @ js)" for x js
      using t'(5) [of x] by (simp only: append_assoc [symmetric] find_app [of _ _ js])
    have "sink_flush T k ts v w = (Inr (v1\<lparr>sk_rejects := []\<rparr>), w1\<lparr>w_target := t'\<rparr>)"
      using 1(1) False t'(1) by (simp add: sink_flush_def bindP_eval thenP_eval onT_def)
    moreover have "tracks k (ts_name ts) R f M H t' (v1\<lparr>sk_rejects := []\<rparr>) ds L J"
      using 1(2) t'(2) keys find unfolding tracks_def by (simp add: t'(3,4) image_Un Un_assoc)
    ultimately show ?thesis using 1(3) by fastforce
  qed
qed

definition taken :: "routed \<Rightarrow> sink_vars \<Rightarrow> sink_vars" where
  "taken r v = (case ro_row r of
       Some row \<Rightarrow> v\<lparr>sk_batch := sk_batch v @ [row]\<rparr>
     | None \<Rightarrow> v\<lparr>sk_rejects := sk_rejects v @ [the (ro_reject r)], sk_rejected := sk_rejected v + 1\<rparr>)"

lemma sink_record_taken:
  "well_routed tab r \<Longrightarrow> sink_record T k n ts r v =
    (if n \<le> length (sk_batch (taken r v)) then sink_flush T k ts (taken r v) else retP (taken r v))"
  by (cases "ro_row r") (auto simp: sink_record_def taken_def well_routed_def)

lemma tracks_taken:
  assumes "tracks k tab R f M H t v (r # ds) L J"
  shows "tracks k tab R f M H t (taken r v) ds L J"
proof (cases "ro_row r")
  case None
  with assms show ?thesis unfolding tracks_def taken_def by (simp add: add.commute add.left_commute)
next
  case (Some row)
  with assms have "sr_table row = tab" "sr_stg_id row = None" by (simp_all add: tracks_def well_routed_def)
  with assms Some show ?thesis unfolding tracks_def taken_def by (simp only: rows_of_simps rejects_of_simps) simp
qed

lemma tracks_record:
  assumes "tracks k (ts_name ts) R f M H (w_target w) v (r # ds) L J"
  shows "\<exists>v' w'. sink_record T k n ts r v w = (Inr v', w') \<and> tracks k (ts_name ts) R f M H (w_target w') v' ds L J"
proof -
  from assms have w: "well_routed (ts_name ts) r" by (simp add: tracks_def)
  define v1 where "v1 = taken r v"
  have v1: "sink_record T k n ts r v w = (if n \<le> length (sk_batch v1) then sink_flush T k ts v1 w else (Inr v1, w))"
    unfolding v1_def by (simp add: sink_record_taken [OF w])
  from assms have t: "tracks k (ts_name ts) R f M H (w_target w) v1 ds L J" unfolding v1_def by (rule tracks_taken)
  show ?thesis
  proof (cases "n \<le> length (sk_batch v1)")
    case True
    from tracks_flush [OF t] v1 True show ?thesis by auto
  next
    case False
    with v1 t show ?thesis by auto
  qed
qed

lemma tracks_fold:
  assumes "tracks k (ts_name ts) R f M H (w_target w) v (ds @ rest) L J"
  shows "\<exists>v' w'. foldP (sink_record T k n ts) ds v w = (Inr v', w') \<and> tracks k (ts_name ts) R f M H (w_target w') v' rest L J"
  using assms
proof (induction ds arbitrary: v w)
  case Nil
  then show ?case by simp
next
  case (Cons r ds)
  from Cons.prems have "tracks k (ts_name ts) R f M H (w_target w) v (r # (ds @ rest)) L J" by simp
  from tracks_record [OF this] obtain v1 w1 where 1: "sink_record T k n ts r v w = (Inr v1, w1)"
    "tracks k (ts_name ts) R f M H (w_target w1) v1 (ds @ rest) L J" by blast
  from Cons.IH [OF 1(2)] 1(1) show ?case by (simp add: bindP_eval)
qed

lemma tracks_records:
  assumes "tracks k (ts_name ts) R f M H (w_target w) sink_start (ds @ es) L J"
  shows "\<exists>l j w'. sink_records T k n ts ds w = (Inr (l, j), w') \<and>
    tracks k (ts_name ts) R f M H (w_target w') sink_start es (L - l) (J - j)"
proof -
  from tracks_fold [OF assms] obtain v1 w1 where 1: "foldP (sink_record T k n ts) ds sink_start w = (Inr v1, w1)"
    "tracks k (ts_name ts) R f M H (w_target w1) v1 es L J" by blast
  from tracks_flush [OF 1(2)] obtain v2 w2 where 2: "sink_flush T k ts v1 w1 = (Inr v2, w2)"
    "tracks k (ts_name ts) R f M H (w_target w2) v2 es L J" "sk_batch v2 = []" "sk_rejects v2 = []" by blast
  then have "tracks k (ts_name ts) R f M H (w_target w2) sink_start es (L - sk_loaded v2) (J - sk_rejected v2)"
    by (auto simp: tracks_def sink_start_def)
  with 1(1) 2(1) show ?thesis by (auto simp: sink_records_def bindP_eval)
qed

lemma tracks_rest:
  assumes "tracks k (ts_name ts) R f M H (w_target w) v ds L J"
    and "m \<in> {to_connect T, to_close T, to_register_table T tab ks hs cs, to_update_key_range T k' tab seq g}"
  shows "\<exists>w'. onT m w = (Inr (), w') \<and> tracks k (ts_name ts) R f M H (w_target w') v ds L J"
proof -
  from assms(1) have "ok (w_target w)" by (simp add: tracks_def)
  from rest [OF this assms(2)] obtain t' where t': "m (w_target w) = (Inr (), t')" "ok t'" "stored t' = stored (w_target w)"
    "refusal t' = refusal (w_target w)" "rejected t' = rejected (w_target w)" by blast
  with assms(1) have "tracks k (ts_name ts) R f M H t' v ds L J" by (simp add: tracks_def)
  with t'(1) show ?thesis by (simp add: onT_def)
qed

lemma tracks_update:
  assumes "tracks k (ts_name ts) R f M H (w_target w) v ds L J"
  obtains w' where "onT (to_update_key_range T k' tab seq g) w = (Inr (), w')" "tracks k (ts_name ts) R f M H (w_target w') v ds L J"
  using tracks_rest [OF assms, of "to_update_key_range T k' tab seq g" tab "[]" "[]" "[]" k' seq g] by blast

lemma tracks_partition:
  assumes "tracks k (ts_name ts) R f M H (w_target w) sink_start (ds @ es) L J"
  shows "\<exists>l j w'. sink_partition T k n ts ds w = (Inr (l, j), w') \<and>
    tracks k (ts_name ts) R f M H (w_target w') sink_start es (L - l) (J - j)"
proof -
  from tracks_rest [OF assms, of "to_register_table T (ts_name ts) (tc_key_columns (ts_config ts)) [] (ts_columns ts)"]
  obtain w1 where 1: "onT (to_register_table T (ts_name ts) (tc_key_columns (ts_config ts)) [] (ts_columns ts)) w = (Inr (), w1)"
    "tracks k (ts_name ts) R f M H (w_target w1) sink_start (ds @ es) L J" by blast
  from tracks_rest [OF 1(2), of "to_connect T"] obtain w2 where 2: "onT (to_connect T) w1 = (Inr (), w2)"
    "tracks k (ts_name ts) R f M H (w_target w2) sink_start (ds @ es) L J" by blast
  from tracks_records [OF 2(2)] obtain l j w3 where 3: "sink_records T k n ts ds w2 = (Inr (l, j), w3)"
    "tracks k (ts_name ts) R f M H (w_target w3) sink_start es (L - l) (J - j)" by blast
  from tracks_rest [OF 3(2), of "to_close T"] obtain w4 where "onT (to_close T) w3 = (Inr (), w4)"
    "tracks k (ts_name ts) R f M H (w_target w4) sink_start es (L - l) (J - j)" by blast
  with 1(1) 2(1) 3(1) show ?thesis by (simp add: sink_partition_def thenP_eval finallyP_def)
qed

lemma foldl_add_counts: "foldl add_counts (a, b) xs = (a + sum_list (map fst xs), b + sum_list (map snd xs))"
  by (induction xs arbitrary: a b) (auto simp: add_counts_def)

lemma tracks_partitions:
  assumes "tracks k (ts_name ts) R f M H (w_target w) sink_start (concat (map d gs) @ es) L J"
  shows "\<exists>cs w'. mapP (\<lambda>g. sink_partition T k n ts (d g)) gs w = (Inr cs, w') \<and> length cs = length gs \<and>
    tracks k (ts_name ts) R f M H (w_target w') sink_start es (L - sum_list (map fst cs)) (J - sum_list (map snd cs))"
  using assms
proof (induction gs arbitrary: w L J)
  case Nil
  then show ?case by simp
next
  case (Cons g gs)
  from Cons.prems have "tracks k (ts_name ts) R f M H (w_target w) sink_start (d g @ (concat (map d gs) @ es)) L J" by simp
  from tracks_partition [OF this, of n] obtain l j w1 where 1: "sink_partition T k n ts (d g) w = (Inr (l, j), w1)"
    "tracks k (ts_name ts) R f M H (w_target w1) sink_start (concat (map d gs) @ es) (L - l) (J - j)" by blast
  from Cons.IH [OF 1(2)] obtain cs w2 where "mapP (\<lambda>g. sink_partition T k n ts (d g)) gs w1 = (Inr cs, w2)" "length cs = length gs"
    "tracks k (ts_name ts) R f M H (w_target w2) sink_start es (L - l - sum_list (map fst cs)) (J - j - sum_list (map snd cs))"
    by blast
  with 1(1) show ?case by (intro exI [of _ "(l, j) # cs"] exI [of _ w2]) (simp add: bindP_eval algebra_simps)
qed

text \<open>The order of the records does not matter as long as it is kept within each key.\<close>

lemma tracks_order:
  assumes "tracks k tab R f M H t v ds L J"
    and "\<And>q. filter (\<lambda>r. ro_key r = q) ds' = filter (\<lambda>r. ro_key r = q) ds"
  shows "tracks k tab R f M H t v ds' L J"
proof -
  have m: "mset ds' = mset ds" by (rule mset_of_keys) (rule assms(2))
  then have rows: "mset (rows_of ds') = mset (rows_of ds)" and rejs: "mset (rejects_of ds') = mset (rejects_of ds)"
    by (simp_all add: mset_rows_rejects)
  have set: "set ds' = set ds" "set (rows_of ds') = set (rows_of ds)" "set (rejects_of ds') = set (rejects_of ds)"
    using m rows rejs by (metis mset_eq_setD)+
  have acc: "mset (accepts t k tab (rows_of ds')) = mset (accepts t k tab (rows_of ds))"
    and ref: "mset (refuses t k tab (rows_of ds')) = mset (refuses t k tab (rows_of ds))" using rows by simp_all
  have both: "mset (accepts t k tab (rows_of ds')) = mset (accepts t k tab (rows_of ds))"
    "length (accepts t k tab (rows_of ds')) = length (accepts t k tab (rows_of ds))"
    "length (refuses t k tab (rows_of ds')) = length (refuses t k tab (rows_of ds))"
    "set (refuses t k tab (rows_of ds')) = set (refuses t k tab (rows_of ds))"
    by (fact acc, fact mset_eq_length [OF acc], fact mset_eq_length [OF ref], fact mset_eq_setD [OF ref])
  have len: "length (rejects_of ds') = length (rejects_of ds)" using rejs by (rule mset_eq_length)
  have dist: "distinct (map sr_source_key (rows_of ds')) = distinct (map sr_source_key (rows_of ds))"
    using rows by (metis mset_eq_imp_distinct_iff mset_map)
  have well: "\<forall>r \<in> set ds. well_routed tab r" "\<forall>r \<in> set ds'. well_routed tab r"
    using assms(1) set by (simp_all add: tracks_def)
  have "find (\<lambda>j. reject_key j = x) (rejects_of ds') = find (\<lambda>j. reject_key j = x) (rejects_of ds)" for x
  proof (cases "x \<in> range (\<lambda>q. (tab, Load, q))")
    case True
    then obtain q where "x = (tab, Load, q)" by blast
    with find_of_key(1) [OF well(1), of q] find_of_key(1) [OF well(2), of q] assms(2) show ?thesis by simp
  next
    case False
    with find_of_key(2) [OF well(1)] find_of_key(2) [OF well(2)] show ?thesis by simp
  qed
  then have find: "find (\<lambda>j. reject_key j = x) (as @ rejects_of ds') = find (\<lambda>j. reject_key j = x) (as @ rejects_of ds)" for x as
    by (simp add: find_app split: option.split)
  from assms(1) show ?thesis
    unfolding tracks_def append_assoc [symmetric] find filter_append map_append distinct_append set_append set_map
      mset_append length_append image_Un set both len dist well .
qed

lemma begin_range_keeps:
  assumes "begin_range T B sha ctx ts rng w = (Inr x, w')" and "ok (w_target w)"
  shows "ok (w_target w') \<and>
    (\<forall>q. refusal (w_target w) (rc_key ctx) (ts_name ts) q = None \<longrightarrow> refusal (w_target w') (rc_key ctx) (ts_name ts) q = None)"
proof -
  let ?k = "rc_key ctx" and ?tab = "ts_name ts"
  let ?good = "\<lambda>t. ok t \<and> (\<forall>q. refusal (w_target w) ?k ?tab q = None \<longrightarrow> refusal t ?k ?tab q = None)"
  from assms(1) obtain l w0 w1 where rf: "range_file B sha ctx ts rng w = (Inr l, w0)"
    and del: "(if kr_load_status rng = LoadRunning
                 then thenP (onT (to_delete_staging_range T ?k ?tab (kr_seq rng)))
                            (onT (to_delete_rejects_range T ?k ?tab Load (kr_seq rng)))
                 else retP ()) w0 = (Inr (), w1)"
    and up: "onT (to_update_key_range T ?k ?tab (kr_seq rng) (\<lambda>r. r\<lparr>kr_load_status := LoadRunning\<rparr>)) w1 = (Inr (), w')"
    by (auto simp: begin_range_def bindP_Inr thenP_Inr read_file_def Let_def split: option.splits if_splits)
  have 0: "?good (w_target w0)" using range_file_target [OF rf] assms(2) by simp
  have 1: "?good (w_target w1)"
  proof (cases "kr_load_status rng = LoadRunning")
    case True
    with del obtain a t1 t2 where t1: "to_delete_staging_range T ?k ?tab (kr_seq rng) (w_target w0) = (Inr a, t1)"
      and t2: "to_delete_rejects_range T ?k ?tab Load (kr_seq rng) t1 = (Inr (), t2)" "w_target w1 = t2"
      by (auto simp: thenP_Inr onT_step)
    have "?good t1"
      using deletes [of "w_target w0" "to_delete_staging_range T ?k ?tab (kr_seq rng)" ?k ?tab] t1 0 by blast
    then have "?good t2"
      using deletes [of t1 "to_delete_rejects_range T ?k ?tab Load (kr_seq rng)" ?k ?tab] t2(1) by blast
    then show ?thesis unfolding t2(2) .
  next
    case False
    with del 0 show ?thesis by simp
  qed
  then have "ok (w_target w1)" by simp
  from rest [OF this, of "to_update_key_range T ?k ?tab (kr_seq rng) (\<lambda>r. r\<lparr>kr_load_status := LoadRunning\<rparr>)"]
  obtain t' where "to_update_key_range T ?k ?tab (kr_seq rng) (\<lambda>r. r\<lparr>kr_load_status := LoadRunning\<rparr>) (w_target w1) = (Inr (), t')"
    "ok t'" "refusal t' = refusal (w_target w1)" by blast
  with up 1 show ?thesis by (auto simp: onT_step)
qed

lemma tracks_start:
  assumes "ok t" and "\<forall>r \<in> set ds. well_routed tab r" and "distinct (map sr_source_key (rows_of ds))"
  obtains f M H L J where "tracks k tab {q. refusal t k tab q \<noteq> None} f M H t sink_start ds L J"
proof -
  have "tracks k tab {q. refusal t k tab q \<noteq> None}
      (\<lambda>x. find (\<lambda>j. reject_key j = x) (rejected t k @ rejects_of ds))
      (stored t k tab + mset (accepts t k tab (rows_of ds)))
      (reject_key ` set (rejected t k @ rejects_of ds) \<union> (\<lambda>r. (tab, Load, sr_source_key r)) ` set (refuses t k tab (rows_of ds)))
      t sink_start ds (int (length (accepts t k tab (rows_of ds))))
      (int (length (refuses t k tab (rows_of ds))) + int (length (rejects_of ds)))"
    using assms unfolding tracks_def by (auto simp: sink_start_def)
  then show thesis by (rule that)
qed

text \<open>When nothing is left to handle, what was tracked is there.\<close>

lemma tracks_end:
  assumes "tracks k tab R f M H t sink_start [] L J"
  shows "stored t k tab = M \<and> L = 0 \<and> J = 0 \<and> reject_key ` set (rejected t k) = H \<and>
    (\<forall>q. q \<notin> R \<longrightarrow> find (\<lambda>j. reject_key j = (tab, Load, q)) (rejected t k) = f (tab, Load, q))"
  using assms by (auto simp: tracks_def sink_start_def)

lemma spark_range_tracks:
  assumes "tracks k (ts_name ts) R f M H (w_target w) sink_start ds L J"
    and "mapE (route_record ts seq) (enumerate 0 (chunks (tc_record_length (ts_config ts)) d)) = Inr rs"
    and "\<And>q. filter (\<lambda>r. ro_key r = q) (concat (map (\<lambda>kv. route_key ts seq (snd kv)) (concat (sh sinks rs)))) =
      filter (\<lambda>r. ro_key r = q) ds"
    and "L = l" and "J = j" and "sh sinks rs \<noteq> []" and "rs = [] \<Longrightarrow> ds = []"
    and "w_files w local = Some d" and "length d = c * tc_record_length (ts_config ts)"
    and "0 < tc_record_length (ts_config ts)" and "0 < per_slice"
  shows "\<exists>w'. spark_range T sh k n ts seq local c per_slice sinks w = (Inr (l, j), w') \<and>
    tracks k (ts_name ts) R f M H (w_target w') sink_start [] 0 0"
proof -
  let ?len = "tc_record_length (ts_config ts)"
  obtain parts where parts: "slices c per_slice = Inr parts" using assms(11) by (simp add: slices_def)
  from slices_cover [OF parts assms(10,9)] obtain xss where
    xss: "mapE (read_slice d ?len) parts = Inr xss" "concat xss = enumerate 0 (chunks ?len d)" by blast
  from mapE_concat [OF xss(1), of "route_record ts seq" rs] assms(2) xss(2) obtain yss where
    yss: "mapE (convert_slice ts seq d ?len) parts = Inr yss" "concat yss = rs"
    unfolding convert_slice_def by auto
  show ?thesis
  proof (cases "parts = []")
    case True
    with yss have "ds = []" using assms(7) by simp
    with assms(1,4,5) have "l = 0" "j = 0" by (auto simp: tracks_def sink_start_def)
    with True parts assms(1,4,5) \<open>ds = []\<close> show ?thesis by (simp add: spark_range_def bindP_eval)
  next
    case False
    let ?d = "\<lambda>g. concat (map (\<lambda>kv. route_key ts seq (snd kv)) g)"
    have eq: "concat (map ?d gs) = concat (map (\<lambda>kv. route_key ts seq (snd kv)) (concat gs))" for gs
      by (induction gs) simp_all
    from tracks_order [OF assms(1,3)]
    have "tracks k (ts_name ts) R f M H (w_target w) sink_start (concat (map ?d (sh sinks rs)) @ []) L J" unfolding eq by simp
    from tracks_partitions [OF this, of n] obtain cs w' where
      cs: "mapP (\<lambda>g. sink_partition T k n ts (?d g)) (sh sinks rs) w = (Inr cs, w')" "length cs = length (sh sinks rs)"
        "tracks k (ts_name ts) R f M H (w_target w') sink_start [] (L - sum_list (map fst cs)) (J - sum_list (map snd cs))" by blast
    from tracks_end [OF cs(3)] assms(4,5) have sums: "l = sum_list (map fst cs)" "j = sum_list (map snd cs)" by simp_all
    from cs(2) assms(6) obtain c0 cs' where "cs = c0 # cs'" by (cases cs) auto
    with sums have "reduce_counts cs = Inr (l, j)" by (simp add: reduce_counts_def foldl_add_counts [of "fst c0" "snd c0", simplified])
    with False parts yss assms(8) cs(1) have "spark_range T sh k n ts seq local c per_slice sinks w = (Inr (l, j), w')"
      by (simp add: spark_range_def bindP_eval read_file_def)
    with cs(3) sums assms(4,5) show ?thesis by auto
  qed
qed

lemma engines_agree:
  assumes run: "load_range T B sha ctx ts rng w = (Inr (l, j), w1)" and ok: "ok (w_target w)"
    and sh: "groups_by_key sh" "0 < sc_shuffle_partitions cfg" "0 < m_records_per_slice (rc_manifest ctx)" "take 5 (sc_master cfg) = ''local''"
    and pos: "0 < load_batch_rows (m_batch (rc_manifest ctx))" "0 < tc_record_length (ts_config ts)"
  shows "\<exists>w2. load_range_spark T (Some T) B sha sh cfg ctx ts rng w = (Inr (l, j), w2) \<and>
    stored (w_target w2) (rc_key ctx) (ts_name ts) = stored (w_target w1) (rc_key ctx) (ts_name ts) \<and>
    reject_key ` set (rejected (w_target w2) (rc_key ctx)) = reject_key ` set (rejected (w_target w1) (rc_key ctx)) \<and>
    (\<forall>q. refusal (w_target w) (rc_key ctx) (ts_name ts) q = None \<longrightarrow>
       find (\<lambda>x. reject_key x = (ts_name ts, Load, q)) (rejected (w_target w2) (rc_key ctx)) =
       find (\<lambda>x. reject_key x = (ts_name ts, Load, q)) (rejected (w_target w1) (rc_key ctx)))"
proof -
  let ?k = "rc_key ctx" and ?tab = "ts_name ts" and ?n = "load_batch_rows (m_batch (rc_manifest ctx))"
    and ?len = "tc_record_length (ts_config ts)"
  from run obtain local c w0 d where b: "begin_range T B sha ctx ts rng w = (Inr (local, c), w0)"
    and d: "w_files w0 local = Some d"
    and loop: "bindP (foldP (load_record T ?k ?n ts (kr_seq rng)) (chunks ?len d) load_start) (\<lambda>v. bindP (flush T ?k ts v) (\<lambda>v'.
       thenP (if lv_rejects v' \<noteq> [] then onT (to_insert_rejects T ?k (lv_rejects v')) else retP ())
         (finish_range T ctx ts rng (lv_loaded v') (lv_rejected v')))) w0 = (Inr (l, j), w1)"
    by (auto simp: load_range_def bindP_Inr read_file_def split: option.splits)
  from begin_range_count [OF b] d have len: "length d = c * ?len" by simp
  from begin_range_keeps [OF b ok] have ok0: "ok (w_target w0)"
    and free: "\<And>q. refusal (w_target w) ?k ?tab q = None \<Longrightarrow> refusal (w_target w0) ?k ?tab q = None" by auto
  from loop obtain rs where "mapE (route_record ts (kr_seq rng)) (enumerate 0 (chunks ?len d)) = Inr rs"
    by (auto simp: bindP_Inr dest: load_record_routes [where i = 0])
  note rs = this mapE_routes [OF this]
  define ds where "ds = serial_outcomes ts (kr_seq rng) {} rs"
  from rs have well: "\<forall>r \<in> set ds. well_routed ?tab r" unfolding ds_def using serial_outcomes_well by blast
  from rs serial_rows_distinct [of rs ts "kr_seq rng" "{}"] have dist: "distinct (map sr_source_key (rows_of ds))" by (simp add: ds_def)
  obtain f M H L J where
    tr0: "tracks ?k ?tab {q. refusal (w_target w0) ?k ?tab q \<noteq> None} f M H (w_target w0) sink_start ds L J"
    by (rule tracks_start [OF ok0 well dist])
  then have tr: "tracks ?k ?tab {q. refusal (w_target w0) ?k ?tab q \<noteq> None} f M H (w_target w0) sink_start (ds @ []) L J"
    by (simp only: append_Nil2)
  text \<open>The serial engine.\<close>
  from tracks_records [OF tr] obtain l1 j1 v1 where v1: "sink_records T ?k ?n ts ds w0 = (Inr (l1, j1), v1)"
    "tracks ?k ?tab {q. refusal (w_target w0) ?k ?tab q \<noteq> None} f M H (w_target v1) sink_start [] (L - l1) (J - j1)" by blast
  from loop have "finish_range T ctx ts rng l1 j1 v1 = (Inr (l, j), w1)"
    using rs v1(1) by (subst (asm) load_loop_sink [of ts "kr_seq rng" _ rs]) (auto simp: pos ds_def bindP_eval)
  then have lj: "l1 = l" "j1 = j"
    and w1: "onT (to_update_key_range T ?k ?tab (kr_seq rng) (\<lambda>r. r\<lparr>kr_load_status := LoadDone\<rparr>)) v1 = (Inr (), w1)"
    by (auto simp: finish_range_def thenP_Inr)
  have e1: "tracks ?k ?tab {q. refusal (w_target w0) ?k ?tab q \<noteq> None} f M H (w_target w1) sink_start [] (L - l) (J - j)"
  proof (rule tracks_update [OF v1(2), where k' = ?k and tab = ?tab and seq = "kr_seq rng" and g = "\<lambda>r. r\<lparr>kr_load_status := LoadDone\<rparr>"])
    fix w'
    assume "onT (to_update_key_range T ?k ?tab (kr_seq rng) (\<lambda>r. r\<lparr>kr_load_status := LoadDone\<rparr>)) v1 = (Inr (), w')"
    with w1 have "w' = w1" by simp
    moreover assume "tracks ?k ?tab {q. refusal (w_target w0) ?k ?tab q \<noteq> None} f M H (w_target w') sink_start [] (L - l1) (J - j1)"
    ultimately show ?thesis by (simp only: lj)
  qed
  text \<open>The Spark engine.\<close>
  have "\<exists>v2. spark_range T sh ?k ?n ts (kr_seq rng) local c (m_records_per_slice (rc_manifest ctx)) (sc_shuffle_partitions cfg) w0 =
        (Inr (l, j), v2) \<and>
      tracks ?k ?tab {q. refusal (w_target w0) ?k ?tab q \<noteq> None} f M H (w_target v2) sink_start [] 0 0"
  proof (rule spark_range_tracks)
    show "filter (\<lambda>r. ro_key r = q) (concat (map (\<lambda>kv. route_key ts (kr_seq rng) (snd kv)) (concat (sh (sc_shuffle_partitions cfg) rs)))) =
        filter (\<lambda>r. ro_key r = q) ds" for q
      using rs spark_decisions_of_key [OF sh(1,2)] unfolding ds_def by blast
    show "L = l" "J = j" using tracks_end [OF e1] by simp_all
    show "sh (sc_shuffle_partitions cfg) rs \<noteq> []"
      using sh(1,2) unfolding groups_by_key_def by (metis length_greater_0_conv)
    show "ds = []" if "rs = []" using that by (simp add: ds_def)
  qed (use tr0 d len rs pos(2) sh(3) in simp_all)
  then obtain v2 where v2: "spark_range T sh ?k ?n ts (kr_seq rng) local c (m_records_per_slice (rc_manifest ctx)) (sc_shuffle_partitions cfg) w0 =
        (Inr (l, j), v2)"
      "tracks ?k ?tab {q. refusal (w_target w0) ?k ?tab q \<noteq> None} f M H (w_target v2) sink_start [] 0 0" by blast
  obtain w2 where w2: "onT (to_update_key_range T ?k ?tab (kr_seq rng) (\<lambda>r. r\<lparr>kr_load_status := LoadDone\<rparr>)) v2 = (Inr (), w2)"
    "tracks ?k ?tab {q. refusal (w_target w0) ?k ?tab q \<noteq> None} f M H (w_target w2) sink_start [] 0 0"
    using v2(2) by (rule tracks_update)
  have "load_range_spark T (Some T) B sha sh cfg ctx ts rng w = (Inr (l, j), w2)"
    using b sh(4) v2(1) w2(1) by (simp add: load_range_spark_def bindP_eval finish_range_def thenP_eval)
  with tracks_end [OF e1] tracks_end [OF w2(2)] free show ?thesis by auto
qed

end

section \<open>The in-memory target refuses rows one key at a time\<close>

definition fake_stored :: "fake_target \<Rightarrow> run_key \<Rightarrow> string \<Rightarrow> staged_row multiset" where
  "fake_stored t k tab = mset (map (\<lambda>r. r\<lparr>sr_stg_id := None\<rparr>) (ft_stg t k tab))"

definition fake_refusal :: "fake_target \<Rightarrow> run_key \<Rightarrow> string \<Rightarrow> string \<Rightarrow> insert_failure option" where
  "fake_refusal t k tab q = (case ft_insert_failures t q of
       Some f \<Rightarrow> Some f
     | None \<Rightarrow> if q \<in> sr_source_key ` set (filter (\<lambda>x. map_option snd (staged_by t x) = Some (snd k)) (ft_staging t tab))
                then Some (duplicate_failure tab (snd k) q) else None)"

lemma stage_row_refusal:
  "stage_row k tab (t, fs) r = (case fake_refusal t k tab (sr_source_key r) of
     Some f \<Rightarrow> (t, fs @ [f])
   | None \<Rightarrow> (t\<lparr>ft_staging_ns := (ft_staging_ns t)(ft_next_id t \<mapsto> k), ft_next_id := Suc (ft_next_id t),
                ft_staging := (ft_staging t)(tab := ft_staging t tab @ [r\<lparr>sr_stg_id := Some (ft_next_id t)\<rparr>])\<rparr>, fs))"
  by (simp add: stage_row_def fake_refusal_def split: option.split)

lemma stage_row_stored:
  fixes t k tab r
  defines "t' \<equiv> t\<lparr>ft_staging_ns := (ft_staging_ns t)(ft_next_id t \<mapsto> k), ft_next_id := Suc (ft_next_id t),
                ft_staging := (ft_staging t)(tab := ft_staging t tab @ [r\<lparr>sr_stg_id := Some (ft_next_id t)\<rparr>])\<rparr>"
  assumes ok: "fake_staging_ok t" and stg: "sr_stg_id r = None"
  shows "fake_staging_ok t'" and "fake_stored t' k tab = add_mset r (fake_stored t k tab)"
    and "ft_rejects t' = ft_rejects t"
    and "q \<noteq> sr_source_key r \<Longrightarrow> fake_refusal t' k tab q = fake_refusal t k tab q"
proof -
  have old: "staged_by t' x = staged_by t x" if "x \<in> set (ft_staging t tab)" for x
    using ok that by (fastforce simp: fake_staging_ok_def staged_by_def t'_def)
  have new: "staged_by t' (r\<lparr>sr_stg_id := Some (ft_next_id t)\<rparr>) = Some k" by (simp add: staged_by_def t'_def)
  have st: "ft_staging t' tab = ft_staging t tab @ [r\<lparr>sr_stg_id := Some (ft_next_id t)\<rparr>]" by (simp add: t'_def)
  have keep: "filter (\<lambda>x. P (staged_by t' x)) (ft_staging t tab) = filter (\<lambda>x. P (staged_by t x)) (ft_staging t tab)"
    for P :: "run_key option \<Rightarrow> bool" by (rule filter_cong) (simp_all add: old)
  have "r\<lparr>sr_stg_id := None\<rparr> = r" using stg by (cases r) simp
  then show "fake_stored t' k tab = add_mset r (fake_stored t k tab)"
    using keep [of "\<lambda>z. z = Some k"] by (simp add: fake_stored_def ft_stg_def st new)
  have "\<exists>i. sr_stg_id x = Some i \<and> i < Suc (ft_next_id t)" if "x \<in> set (ft_staging t b)" for x b
    using ok that unfolding fake_staging_ok_def by (metis less_SucI)
  then show "fake_staging_ok t'" using ok by (auto simp: fake_staging_ok_def t'_def)
  show "ft_rejects t' = ft_rejects t" by (simp add: t'_def)
  have "sr_source_key ` set (filter (\<lambda>x. map_option snd (staged_by t' x) = Some (snd k)) (ft_staging t' tab)) =
      insert (sr_source_key r) (sr_source_key ` set (filter (\<lambda>x. map_option snd (staged_by t x) = Some (snd k)) (ft_staging t tab)))"
    unfolding st filter_append keep [of "\<lambda>z. map_option snd z = Some (snd k)"] by (cases k) (simp add: new del: set_filter)
  moreover have "ft_insert_failures t' = ft_insert_failures t" by (simp add: t'_def)
  ultimately show "q \<noteq> sr_source_key r \<Longrightarrow> fake_refusal t' k tab q = fake_refusal t k tab q"
    by (simp add: fake_refusal_def)
qed

lemma stage_rows_stored:
  assumes "fake_staging_ok t" and "distinct (map sr_source_key rs)" and "\<forall>r\<in>set rs. sr_stg_id r = None"
  shows "\<exists>t'. foldl (stage_row k tab) (t, fs) rs = (t', fs @ List.map_filter (\<lambda>r. fake_refusal t k tab (sr_source_key r)) rs) \<and>
    fake_staging_ok t' \<and>
    fake_stored t' k tab = fake_stored t k tab + mset (filter (\<lambda>r. fake_refusal t k tab (sr_source_key r) = None) rs) \<and>
    ft_rejects t' = ft_rejects t \<and>
    (\<forall>q. q \<notin> sr_source_key ` set rs \<longrightarrow> fake_refusal t' k tab q = fake_refusal t k tab q)"
  using assms
proof (induction rs arbitrary: t fs)
  case Nil
  then show ?case by (simp add: map_filter_simps)
next
  case (Cons r rs)
  show ?case
  proof (cases "fake_refusal t k tab (sr_source_key r)")
    case (Some f)
    from Cons.IH [of t "fs @ [f]"] Cons.prems Some show ?thesis
      by (auto simp: stage_row_refusal map_filter_simps)
  next
    case None
    define t1 where "t1 = t\<lparr>ft_staging_ns := (ft_staging_ns t)(ft_next_id t \<mapsto> k), ft_next_id := Suc (ft_next_id t),
                ft_staging := (ft_staging t)(tab := ft_staging t tab @ [r\<lparr>sr_stg_id := Some (ft_next_id t)\<rparr>])\<rparr>"
    have stg: "sr_stg_id r = None" using Cons.prems by simp
    note t1 = stage_row_stored [OF Cons.prems(1) stg, where k = k and tab = tab, folded t1_def]
    have same: "fake_refusal t1 k tab (sr_source_key x) = fake_refusal t k tab (sr_source_key x)" if "x \<in> set rs" for x
      using Cons.prems(2) that by (intro t1(4)) (simp, metis imageI)
    from Cons.IH [of t1 fs] Cons.prems t1(1) obtain t' where
      t': "foldl (stage_row k tab) (t1, fs) rs = (t', fs @ List.map_filter (\<lambda>r. fake_refusal t1 k tab (sr_source_key r)) rs)"
        "fake_staging_ok t'"
        "fake_stored t' k tab = fake_stored t1 k tab + mset (filter (\<lambda>r. fake_refusal t1 k tab (sr_source_key r) = None) rs)"
        "ft_rejects t' = ft_rejects t1" "\<forall>q. q \<notin> sr_source_key ` set rs \<longrightarrow> fake_refusal t' k tab q = fake_refusal t1 k tab q" by auto
    have "List.map_filter (\<lambda>r. fake_refusal t1 k tab (sr_source_key r)) rs = List.map_filter (\<lambda>r. fake_refusal t k tab (sr_source_key r)) rs"
      "filter (\<lambda>r. fake_refusal t1 k tab (sr_source_key r) = None) rs = filter (\<lambda>r. fake_refusal t k tab (sr_source_key r) = None) rs"
      by (simp_all add: same map_filter_def cong: filter_cong map_cong)
    with t' t1(2,3,4) None show ?thesis
      by (auto simp: stage_row_refusal map_filter_simps t1_def [symmetric])
  qed
qed

lemma find_add_reject:
  "find (\<lambda>j. reject_key j = x) (foldl add_reject js js') = find (\<lambda>j. reject_key j = x) (js @ js')"
proof (induction js' arbitrary: js)
  case Nil
  then show ?case by simp
next
  case (Cons j js')
  show ?case
  proof (cases "reject_key j \<in> reject_key ` set js")
    case True
    then have "reject_key j = x \<Longrightarrow> find (\<lambda>j. reject_key j = x) js \<noteq> None" by (auto simp: find_None_key)
    with Cons.IH [of js] True show ?thesis by (auto simp: add_reject_def find_app split: option.split)
  next
    case False
    with Cons.IH [of "js @ [j]"] show ?thesis by (simp add: add_reject_def)
  qed
qed

lemma fake_refusal_frame:
  "ft_staging t' = ft_staging t \<Longrightarrow> ft_staging_ns t' = ft_staging_ns t \<Longrightarrow> ft_insert_failures t' = ft_insert_failures t \<Longrightarrow>
   fake_stored t' = fake_stored t \<and> fake_refusal t' = fake_refusal t \<and> (ft_next_id t' = ft_next_id t \<longrightarrow> fake_staging_ok t' = fake_staging_ok t)"
  by (auto simp: fake_stored_def fake_refusal_def ft_stg_def staged_by_def fake_staging_ok_def fun_eq_iff
      cong: option.case_cong)

lemma fake_delete_range:
  fixes P tab
  assumes "fake_staging_ok t"
  defines "t' \<equiv> t\<lparr>ft_staging := (ft_staging t)(tab := filter P (ft_staging t tab))\<rparr>"
  shows "fake_staging_ok t' \<and> (\<forall>q. fake_refusal t k b q = None \<longrightarrow> fake_refusal t' k b q = None)"
proof
  show "fake_staging_ok t'" using assms(1) by (auto simp: fake_staging_ok_def t'_def)
  have "staged_by t' x = staged_by t x" for x by (simp add: staged_by_def t'_def split: option.split)
  then show "\<forall>q. fake_refusal t k b q = None \<longrightarrow> fake_refusal t' k b q = None"
    by (auto simp: fake_refusal_def t'_def split: option.splits if_splits)
qed

interpretation fake_rows: row_store "fake_target_ops sha" fake_staging_ok fake_stored ft_rejects fake_refusal
proof unfold_locales
  fix t k tab and rs :: "staged_row list"
  assume "fake_staging_ok t" "distinct (map sr_source_key rs)" "\<forall>r\<in>set rs. sr_stg_id r = None"
  from stage_rows_stored [OF this, of k tab "[]"]
  show "\<exists>t'. to_insert_staging (fake_target_ops sha) k tab rs t =
        (Inr (List.map_filter (\<lambda>r. fake_refusal t k tab (sr_source_key r)) rs), t') \<and> fake_staging_ok t' \<and>
      fake_stored t' k tab = fake_stored t k tab + mset (filter (\<lambda>r. fake_refusal t k tab (sr_source_key r) = None) rs) \<and>
      ft_rejects t' = ft_rejects t \<and> (\<forall>q. q \<notin> sr_source_key ` set rs \<longrightarrow> fake_refusal t' k tab q = fake_refusal t k tab q)"
    by (auto simp: fake_target_ops_def ft_insert_staging_def)
next
  fix t k tab q f
  assume "fake_staging_ok t" "fake_refusal t k tab q = Some f"
  then show "if_source_key f = q"
    by (auto simp: fake_refusal_def fake_staging_ok_def duplicate_failure_def split: option.splits if_splits)
next
  fix t k js
  assume ok: "fake_staging_ok t"
  let ?t = "t\<lparr>ft_rejects := (ft_rejects t)(k := foldl add_reject (ft_rejects t k) js)\<rparr>"
  show "\<exists>t'. to_insert_rejects (fake_target_ops sha) k js t = (Inr (), t') \<and> fake_staging_ok t' \<and> fake_stored t' = fake_stored t \<and>
      fake_refusal t' = fake_refusal t \<and>
      (\<forall>x. find (\<lambda>j. reject_key j = x) (ft_rejects t' k) = find (\<lambda>j. reject_key j = x) (ft_rejects t k @ js))"
    using ok fake_refusal_frame [of ?t t]
    by (intro exI [of _ ?t]) (simp add: fake_target_ops_def ft_insert_rejects_def find_add_reject)
next
  fix t m tab ks hs cs k seq g
  assume ok: "fake_staging_ok t"
    and "m \<in> {to_connect (fake_target_ops sha), to_close (fake_target_ops sha), to_register_table (fake_target_ops sha) tab ks hs cs,
      to_update_key_range (fake_target_ops sha) k tab seq g}"
  then have "\<exists>t'. m t = (Inr (), t') \<and> ft_staging t' = ft_staging t \<and> ft_staging_ns t' = ft_staging_ns t \<and>
      ft_insert_failures t' = ft_insert_failures t \<and> ft_next_id t' = ft_next_id t \<and> ft_rejects t' = ft_rejects t"
    by (auto simp: fake_target_ops_def ft_register_table_def ft_update_key_range_def)
  then obtain t' where "m t = (Inr (), t')" "ft_staging t' = ft_staging t" "ft_staging_ns t' = ft_staging_ns t"
      "ft_insert_failures t' = ft_insert_failures t" "ft_next_id t' = ft_next_id t" "ft_rejects t' = ft_rejects t" by blast
  with ok fake_refusal_frame [of t' t]
  show "\<exists>t'. m t = (Inr (), t') \<and> fake_staging_ok t' \<and> fake_stored t' = fake_stored t \<and> fake_refusal t' = fake_refusal t \<and>
      ft_rejects t' = ft_rejects t" by auto
next
  fix t m k tab seq st r t'
  assume ok: "fake_staging_ok t" and run: "m t = (r, t')"
    and m: "m \<in> {to_delete_staging_range (fake_target_ops sha) k tab seq, to_delete_rejects_range (fake_target_ops sha) k tab st seq}"
  from m show "fake_staging_ok t' \<and> (\<forall>q. fake_refusal t k tab q = None \<longrightarrow> fake_refusal t' k tab q = None)"
  proof (elim insertE emptyE)
    assume "m = to_delete_staging_range (fake_target_ops sha) k tab seq"
    with run have "t' = t\<lparr>ft_staging := (ft_staging t)(tab := filter
        (\<lambda>r. \<not> (staged_by t r = Some k \<and> sr_range_seq r = Some seq)) (ft_staging t tab))\<rparr>"
      by (simp add: fake_target_ops_def ft_delete_staging_range_def)
    with fake_delete_range [OF ok] show ?thesis by simp
  next
    assume "m = to_delete_rejects_range (fake_target_ops sha) k tab st seq"
    with run have "ft_staging t' = ft_staging t" "ft_staging_ns t' = ft_staging_ns t"
      "ft_insert_failures t' = ft_insert_failures t" "ft_next_id t' = ft_next_id t"
      by (auto simp: fake_target_ops_def ft_delete_rejects_range_def)
    with ok fake_refusal_frame [of t' t] show ?thesis by auto
  qed
qed

text \<open>C6. The serial and the Spark engine agree on every range, in whatever order the shuffle
  hands the records over and however it deals the keys out to the sinks: where the serial engine
  returns, the Spark engine returns the same counts of loaded and rejected records, has staged the
  same rows, and has rejects for the same keys; for a key whose row the target did not refuse the
  reject is the same. Stated on the in-memory target, whose refusals (planted, or a key that is
  staged already) concern one key at a time; the sinks share that target and run one after the
  other.\<close>

theorem serial_spark_agree:
  assumes "load_range (fake_target_ops h) B sha ctx ts rng w = (Inr (loaded, rejected), w1)" and "fake_staging_ok (w_target w)"
    and "groups_by_key sh" and "0 < sc_shuffle_partitions cfg" and "0 < m_records_per_slice (rc_manifest ctx)"
    and "take 5 (sc_master cfg) = ''local''"
    and "0 < load_batch_rows (m_batch (rc_manifest ctx))" and "0 < tc_record_length (ts_config ts)"
  shows "\<exists>w2. load_range_spark (fake_target_ops h) (Some (fake_target_ops h)) B sha sh cfg ctx ts rng w = (Inr (loaded, rejected), w2) \<and>
    mset (map (\<lambda>r. r\<lparr>sr_stg_id := None\<rparr>) (ft_stg (w_target w2) (rc_key ctx) (ts_name ts))) =
    mset (map (\<lambda>r. r\<lparr>sr_stg_id := None\<rparr>) (ft_stg (w_target w1) (rc_key ctx) (ts_name ts))) \<and>
    reject_key ` set (ft_rejects (w_target w2) (rc_key ctx)) = reject_key ` set (ft_rejects (w_target w1) (rc_key ctx)) \<and>
    (\<forall>key. ft_insert_failures (w_target w) key = None \<and> key \<notin> sr_source_key ` set (ft_staging (w_target w) (ts_name ts)) \<longrightarrow>
       find (\<lambda>x. reject_key x = (ts_name ts, Load, key)) (ft_rejects (w_target w2) (rc_key ctx)) =
       find (\<lambda>x. reject_key x = (ts_name ts, Load, key)) (ft_rejects (w_target w1) (rc_key ctx)))"
proof -
  have "fake_refusal t k tab q = None" if "ft_insert_failures t q = None" "q \<notin> sr_source_key ` set (ft_staging t tab)" for t k tab q
    using that by (auto simp: fake_refusal_def)
  then have free: "ft_insert_failures (w_target w) key = None \<and> key \<notin> sr_source_key ` set (ft_staging (w_target w) (ts_name ts)) \<longrightarrow>
      fake_refusal (w_target w) (rc_key ctx) (ts_name ts) key = None" for key by simp
  obtain w2 where w2: "load_range_spark (fake_target_ops h) (Some (fake_target_ops h)) B sha sh cfg ctx ts rng w = (Inr (loaded, rejected), w2)"
    "fake_stored (w_target w2) (rc_key ctx) (ts_name ts) = fake_stored (w_target w1) (rc_key ctx) (ts_name ts)"
    "reject_key ` set (ft_rejects (w_target w2) (rc_key ctx)) = reject_key ` set (ft_rejects (w_target w1) (rc_key ctx))"
    "\<forall>q. fake_refusal (w_target w) (rc_key ctx) (ts_name ts) q = None \<longrightarrow>
       find (\<lambda>x. reject_key x = (ts_name ts, Load, q)) (ft_rejects (w_target w2) (rc_key ctx)) =
       find (\<lambda>x. reject_key x = (ts_name ts, Load, q)) (ft_rejects (w_target w1) (rc_key ctx))"
    using fake_rows.engines_agree [OF assms(1,2,3,4,5,6,7,8)] by blast
  from w2(4) free have "\<forall>key. ft_insert_failures (w_target w) key = None \<and> key \<notin> sr_source_key ` set (ft_staging (w_target w) (ts_name ts)) \<longrightarrow>
       find (\<lambda>x. reject_key x = (ts_name ts, Load, key)) (ft_rejects (w_target w2) (rc_key ctx)) =
       find (\<lambda>x. reject_key x = (ts_name ts, Load, key)) (ft_rejects (w_target w1) (rc_key ctx))" by metis
  then show ?thesis by (intro exI [of _ w2] conjI w2(1,3) w2(2) [unfolded fake_stored_def])
qed

section \<open>Witness\<close>

text \<open>A shuffle with one group after the other on the first sink, each in reverse order.\<close>

definition reversing_shuffle :: shuffle where
  "reversing_shuffle n rs = (if n = 0 then [] else
     map (\<lambda>q. (q, rev (filter (\<lambda>r. ro_key r = q) rs))) (remdups (map ro_key rs)) # replicate (n - 1) [])"

lemma reversing_shuffle_groups: "groups_by_key reversing_shuffle"
proof -
  have c: "concat (reversing_shuffle n rs) = map (\<lambda>q. (q, rev (filter (\<lambda>r. ro_key r = q) rs))) (remdups (map ro_key rs))"
    if "0 < n" for n rs using that by (simp add: reversing_shuffle_def)
  show ?thesis unfolding groups_by_key_def
  proof (intro allI conjI impI)
    fix n :: nat and rs
    show "length (reversing_shuffle n rs) = n" by (simp add: reversing_shuffle_def)
    assume "0 < n"
    from c [OF this, of rs] show "distinct (map fst (concat (reversing_shuffle n rs)))"
      and "fst ` set (concat (reversing_shuffle n rs)) = ro_key ` set rs"
      and "\<forall>kv \<in> set (concat (reversing_shuffle n rs)). mset (snd kv) = mset (filter (\<lambda>r. ro_key r = fst kv) rs)"
      by (auto simp: comp_def image_image)
  qed
qed

definition spark_local :: spark_config where
  "spark_local = \<lparr>sc_master = ''local[*]'', sc_shuffle_partitions = 3\<rparr>"

theorem serial_spark_agree_witness:
  "\<exists>w2. load_range_spark (fake_target_ops (\<lambda>b. b)) (Some (fake_target_ops (\<lambda>b. b))) directory_blob_store (\<lambda>b. b)
       reversing_shuffle spark_local (example_context True) example_table load_example_range load_world = (Inr (1, 2), w2) \<and>
    mset (map (\<lambda>r. r\<lparr>sr_stg_id := None\<rparr>) (ft_stg (w_target w2) (rc_key (example_context True)) (ts_name example_table))) =
    mset (map (\<lambda>r. r\<lparr>sr_stg_id := None\<rparr>) (ft_stg (w_target (snd load_example)) (rc_key (example_context True)) (ts_name example_table)))"
proof -
  have "fake_staging_ok (w_target load_world)"
    by (simp add: fake_staging_ok_def load_world_def example_world_def ft_init_def)
  moreover have "0 < sc_shuffle_partitions spark_local" "0 < m_records_per_slice (rc_manifest (example_context True))" "take 5 (sc_master spark_local) = ''local''"
    by (simp_all add: spark_local_def example_context_def example_manifest_def)
  moreover have "0 < load_batch_rows (m_batch (rc_manifest (example_context True)))" "0 < tc_record_length (ts_config example_table)"
    by code_simp+
  ultimately show ?thesis
    using serial_spark_agree [OF load_example_run _ reversing_shuffle_groups] by blast
qed

end
