(* ===== verification/Py_Uuid.thy ===== *)
theory Py_Uuid
  imports Py_Text
begin

text \<open>
  \<open>uuid.UUID\<close>: the text of an identifier and the text that the constructor accepts, with \<open>int(s, 16)\<close>
  and \<open>replace(s, '')\<close> of the standard library.
\<close>

type_synonym uuid = "128 word"

section \<open>Hexadecimal digits\<close>

definition hex_val :: "char \<Rightarrow> nat option" where
  "hex_val c = (let n = of_char c :: nat in
     if 48 \<le> n \<and> n \<le> 57 then Some (n - 48)
     else if 97 \<le> n \<and> n \<le> 102 then Some (n - 87)
     else if 65 \<le> n \<and> n \<le> 70 then Some (n - 55)
     else None)"

text \<open>The last \<open>k\<close> hexadecimal digits of a number.\<close>

fun hex_text :: "nat \<Rightarrow> nat \<Rightarrow> string" where
  "hex_text 0 n = []"
| "hex_text (Suc k) n = hex_text k (n div 16) @ [hex_digit (n mod 16)]"

text \<open>Digits with single underscores between them, as in \<open>int\<close>.\<close>

fun hex_body :: "bool \<Rightarrow> nat \<Rightarrow> string \<Rightarrow> nat option" where
  "hex_body d n [] = (if d then Some n else None)"
| "hex_body d n (c # s) = (case hex_val c of
       Some v \<Rightarrow> hex_body True (16 * n + v) s
     | None \<Rightarrow> if c = CHR ''_'' \<and> d \<and> s \<noteq> [] then hex_body False n s else None)"

definition hex_literal :: "string \<Rightarrow> nat option" where
  "hex_literal s =
     (if take 2 s \<in> {''0x'', ''0X''}
      then hex_body False 0 (if take 1 (drop 2 s) = ''_'' then drop 3 s else drop 2 s)
      else hex_body False 0 s)"

definition py_int16 :: "string \<Rightarrow> int option" where
  "py_int16 s = (case py_strip s of
       [] \<Rightarrow> None
     | c # t \<Rightarrow>
         if c = CHR ''-'' then map_option (\<lambda>n. - int n) (hex_literal t)
         else if c = CHR ''+'' then map_option int (hex_literal t)
         else map_option int (hex_literal (c # t)))"

section \<open>Identifiers\<close>

text \<open>\<open>s.replace(p, '')\<close> for a non-empty \<open>p\<close>\<close>

fun py_remove :: "string \<Rightarrow> string \<Rightarrow> string" where
  "py_remove p [] = []"
| "py_remove p (c # s) =
     (if take (length p) (c # s) = p then py_remove p (drop (length p - 1) s) else c # py_remove p s)"

definition str_uuid :: "uuid \<Rightarrow> string" where
  "str_uuid u = (let h = hex_text 32 (unat u) in
     take 8 h @ ''-'' @ take 4 (drop 8 h) @ ''-'' @ take 4 (drop 12 h) @ ''-'' @ take 4 (drop 16 h) @ ''-'' @ drop 20 h)"

definition brace :: "char \<Rightarrow> bool" where
  "brace c \<longleftrightarrow> c = CHR ''{'' \<or> c = CHR ''}''"

text \<open>None: \<open>ValueError\<close>\<close>

definition uuid_of :: "string \<Rightarrow> uuid option" where
  "uuid_of s = (let h = filter (\<lambda>c. c \<noteq> CHR ''-'') (rstrip_by brace (lstrip_by brace (py_remove ''uuid:'' (py_remove ''urn:'' s)))) in
     if length h \<noteq> 32 then None
     else case py_int16 h of
       None \<Rightarrow> None
     | Some i \<Rightarrow> if 0 \<le> i \<and> i < 2 ^ 128 then Some (word_of_int i) else None)"

section \<open>The text of an identifier is read back\<close>

definition lower_hex :: "char \<Rightarrow> bool" where
  "lower_hex c \<longleftrightarrow> (let n = of_char c :: nat in 48 \<le> n \<and> n \<le> 57 \<or> 97 \<le> n \<and> n \<le> 102)"

lemma hex_digit_facts:
  assumes "d < 16"
  shows "lower_hex (hex_digit d)" and "hex_val (hex_digit d) = Some d"
proof -
  have "list_all (\<lambda>d. lower_hex (hex_digit d) \<and> hex_val (hex_digit d) = Some d) [0..<16]" by code_simp
  with assms show "lower_hex (hex_digit d)" and "hex_val (hex_digit d) = Some d" by (simp_all add: list_all_iff)
qed

lemma length_hex_text [simp]: "length (hex_text k n) = k"
  by (induction k n rule: hex_text.induct) simp_all

lemma hex_text_digits: "\<forall>c \<in> set (hex_text k n). lower_hex c"
  by (induction k n rule: hex_text.induct) (auto intro: hex_digit_facts)

lemma hex_body_append:
  "hex_body d m (hex_text k n @ s) = (if k = 0 then hex_body d m s else hex_body True (16 ^ k * m + n mod 16 ^ k) s)"
proof (induction k n arbitrary: d s rule: hex_text.induct)
  case (2 k n)
  have "n mod 16 ^ Suc k = 16 * (n div 16 mod 16 ^ k) + n mod 16" by (simp add: mod_mult2_eq)
  with 2 show ?case by (simp add: hex_digit_facts(2) algebra_simps)
qed simp

lemma hex_body_text: "0 < k \<Longrightarrow> hex_body False 0 (hex_text k n) = Some (n mod 16 ^ k)"
  using hex_body_append [of False 0 k n "[]"] by simp

lemma lower_hex_chars:
  assumes "lower_hex c"
  shows "c \<noteq> CHR ''-''" "c \<noteq> CHR '':''" "\<not> brace c" "\<not> py_isspace c" "c \<noteq> CHR ''+''" "c \<noteq> CHR ''x''" "c \<noteq> CHR ''X''"
  using assms by (auto simp: lower_hex_def brace_def py_isspace_def Let_def)

lemma py_remove_absent: "c \<in> set p \<Longrightarrow> c \<notin> set s \<Longrightarrow> py_remove p s = s"
proof (induction s)
  case (Cons a s)
  have "take (length p) (a # s) \<noteq> p"
  proof
    assume "take (length p) (a # s) = p"
    then have "set p \<subseteq> set (a # s)" by (metis set_take_subset)
    with Cons.prems show False by auto
  qed
  with Cons show ?case by simp
qed simp

lemma py_int16_text:
  assumes "2 \<le> k"
  shows "py_int16 (hex_text k n) = Some (int (n mod 16 ^ k))"
proof -
  let ?h = "hex_text k n"
  have ne: "?h \<noteq> []" using assms length_hex_text [of k n] by (metis list.size(3) not_numeral_le_zero)
  have hex: "lower_hex c" if "c \<in> set ?h" for c using hex_text_digits that by blast
  have strip: "py_strip ?h = ?h" using ne hex [THEN lower_hex_chars(4)] by (intro py_strip_id) auto
  obtain c d t where h: "?h = c # d # t" using assms length_hex_text [of k n] by (metis One_nat_def Suc_le_length_iff numeral_2_eq_2)
  then have "c \<noteq> CHR ''-''" "c \<noteq> CHR ''+''" "d \<noteq> CHR ''x''" "d \<noteq> CHR ''X''" using hex lower_hex_chars by auto
  moreover have "hex_body False 0 ?h = Some (n mod 16 ^ k)" using assms by (intro hex_body_text) simp
  ultimately show ?thesis using strip h by (simp add: py_int16_def hex_literal_def)
qed

lemma read_uuid_text: "uuid_of (str_uuid u) = Some u"
proof -
  let ?h = "hex_text 32 (unat u)"
  have hex: "lower_hex c" if "c \<in> set ?h" for c using hex_text_digits that by blast
  have chars: "lower_hex c \<or> c = CHR ''-''" if "c \<in> set (str_uuid u)" for c
    using that hex by (auto simp: str_uuid_def Let_def dest: in_set_takeD in_set_dropD)
  then have colon: "CHR '':'' \<notin> set (str_uuid u)" using lower_hex_chars(2) by fastforce
  have braces: "\<not> brace c" if "c \<in> set (str_uuid u)" for c
    using chars [OF that] lower_hex_chars(3) by (auto simp: brace_def)
  have "py_remove ''uuid:'' (py_remove ''urn:'' (str_uuid u)) = str_uuid u"
    using colon by (simp add: py_remove_absent [where c = "CHR '':''"])
  moreover have "rstrip_by brace (lstrip_by brace (str_uuid u)) = str_uuid u"
  proof -
    have "dropWhile brace xs = xs" if "set xs \<subseteq> set (str_uuid u)" for xs using that braces by (cases xs) auto
    then show ?thesis by (simp add: rstrip_by_def lstrip_by_def)
  qed
  moreover have "filter (\<lambda>c. c \<noteq> CHR ''-'') (str_uuid u) = ?h"
  proof -
    have keep: "filter (\<lambda>c. c \<noteq> CHR ''-'') xs = xs" if "set xs \<subseteq> set ?h" for xs
      using that hex lower_hex_chars(1) by (auto intro!: filter_True)
    have "?h = take 8 ?h @ take 4 (drop 8 ?h) @ take 4 (drop 12 ?h) @ take 4 (drop 16 ?h) @ drop 20 ?h"
    proof -
      have split: "take b (drop a ?h) @ drop (b + a) ?h = drop a ?h" for a b by (metis append_take_drop_id drop_drop)
      show ?thesis using split [of 8 0] split [of 4 8] split [of 4 12] split [of 4 16] by simp
    qed
    then show ?thesis
      by (simp add: str_uuid_def Let_def keep set_take_subset set_drop_subset subset_trans [OF set_take_subset set_drop_subset])
  qed
  moreover have less: "unat u < 2 ^ 128" using unsigned_less [of u, where ?'a = nat] by simp
  then have "py_int16 ?h = Some (int (unat u))" using py_int16_text [of 32 "unat u"] by simp
  moreover have "int (unat u) < 2 ^ 128" using unsigned_less [of u, where ?'a = int] by simp
  ultimately show ?thesis by (simp add: uuid_of_def Let_def)
qed

lemma str_uuid_inj [simp]: "str_uuid u = str_uuid v \<longleftrightarrow> u = v"
  using read_uuid_text by (metis option.inject)

text \<open>Reading the text of an identifier gives back the identifier.\<close>

theorem uuid_of_str: "uuid_of (str_uuid u) = Some u"
  by (rule read_uuid_text)

end
