(* ===== verification/Doc_Store.thy ===== *)
theory Doc_Store
  imports Py_Html Py_Uuid "HOL-Library.AList"
begin

text \<open>
  The document service (\<open>services/document-service/app\<close>): its tables (\<open>models/document.py\<close>), the
  request bodies (\<open>schemas/document.py\<close>), the published events (\<open>services/event_publisher.py\<close>) and the
  business logic (\<open>services/document_service.py\<close>).

  The database is the state: a table is the list of its rows. What a query returns in an order that SQL
  leaves open is the order of that list. A commit may fail, and then nothing of the request is stored.
  Fresh identifiers, the clock, failing commits and failing publications are arguments, read in the
  order in which the code asks for them. Times are numbers; identifiers are 128-bit words.
\<close>

section \<open>Tables\<close>

record document =
  dc_id :: uuid
  dc_title :: string
  dc_content :: string
  dc_content_type :: string
  dc_owner :: uuid
  dc_folder :: "uuid option"
  dc_deleted :: bool
  dc_template :: bool
  dc_words :: nat
  dc_version :: nat
  dc_created :: nat
  dc_updated :: nat

record doc_version =
  dv_id :: uuid
  dv_document :: uuid
  dv_number :: nat
  dv_title :: string
  dv_content :: string
  dv_created_by :: uuid
  dv_created :: nat

record doc_comment =
  cm_id :: uuid
  cm_document :: uuid
  cm_author :: uuid
  cm_content :: string
  cm_created :: nat
  cm_updated :: nat

record doc_template =
  tp_id :: uuid
  tp_name :: string
  tp_description :: string
  tp_content :: string
  tp_content_type :: string
  tp_created_by :: uuid
  tp_created :: nat
  tp_updated :: nat

record rollup =
  rl_window :: int
  rl_documents :: nat
  rl_versions :: nat
  rl_words :: nat
  rl_host :: string

section \<open>Events\<close>

datatype payload =
    Indexed document "uuid option"
  | Removed uuid
  | Commented uuid uuid uuid

type_synonym event = "string \<times> payload"

datatype export_format = Html | Markdown | Pdf

text \<open>\<open>RenderCache._entries\<close>: the rendered body, its content type and the source it was rendered from.\<close>

type_synonym render_key = "uuid \<times> nat \<times> export_format"
type_synonym rendered = "string \<times> string \<times> (string \<times> string)"

record store =
  st_documents :: "document list"
  st_versions :: "doc_version list"
  st_comments :: "doc_comment list"
  st_templates :: "doc_template list"
  st_rollups :: "rollup list"
  st_events :: "event list"
  st_cache :: "(render_key \<times> rendered) list"
  st_tick :: nat

definition empty_store :: store where
  "empty_store = \<lparr>st_documents = [], st_versions = [], st_comments = [], st_templates = [], st_rollups = [],
     st_events = [], st_cache = [], st_tick = 0\<rparr>"

text \<open>
  What the service reads from outside; each reading of a clock, of a fresh identifier, of a flag and of
  the outcome of a commit or publication counts one tick. The decoder of tokens, the digest of share
  links, the files of the export archive and the rows of a statement given as text are functions; the
  claims of a token are those values that count as true, as text.
\<close>

record doc_env =
  ev_uuid :: "nat \<Rightarrow> uuid"
  ev_clock :: "nat \<Rightarrow> nat"
  ev_commit_fails :: "nat \<Rightarrow> bool"
  ev_sns_enabled :: bool
  ev_publish_fails :: "nat \<Rightarrow> bool"
  ev_fold :: "char \<Rightarrow> char"
  ev_secret :: string
  ev_decode :: "string \<Rightarrow> string \<Rightarrow> (string option \<times> string option) option"
  ev_salt :: string
  ev_md5 :: "string \<Rightarrow> string"
  ev_cache_flag :: "nat \<Rightarrow> bool"
  ev_archive :: string
  ev_file :: "string \<Rightarrow> string option"
  ev_count :: "string \<Rightarrow> store \<Rightarrow> nat option"
  ev_select :: "string \<Rightarrow> store \<Rightarrow> document list option"

text \<open>\<open>HTTPException\<close> with its status and detail; any other exception is answered with 500.\<close>

datatype http_error = Http nat string | Crash string

type_synonym 'a service = "(store, http_error, 'a) prog"

definition reading :: "(nat \<Rightarrow> 'a) \<Rightarrow> 'a service" where
  "reading f = (\<lambda>s. (Inr (f (st_tick s)), s\<lparr>st_tick := Suc (st_tick s)\<rparr>))"

definition commit :: "doc_env \<Rightarrow> (store \<Rightarrow> store) \<Rightarrow> unit service" where
  "commit E f = bindP (reading (ev_commit_fails E)) (\<lambda>fails. if fails then raiseP (Crash ''SQLAlchemyError'') else modP f)"

text \<open>A primary key that is taken makes the flush fail.\<close>

definition unused :: "'k \<Rightarrow> (store \<Rightarrow> 'k list) \<Rightarrow> unit service" where
  "unused k keys = bindP (getP keys) (\<lambda>ks. if k \<in> set ks then raiseP (Crash ''IntegrityError'') else retP ())"

text \<open>A value that is too long for its column makes the flush fail.\<close>

definition fits_columns :: "string \<Rightarrow> string \<Rightarrow> unit service" where
  "fits_columns title ctype =
     (if length title \<le> 500 \<and> length ctype \<le> 50 then retP () else raiseP (Crash ''DBAPIError''))"

text \<open>\<open>EventPublisher.publish\<close>: a publication that fails is logged only.\<close>

definition publish :: "doc_env \<Rightarrow> string \<Rightarrow> payload \<Rightarrow> unit service" where
  "publish E ty p =
     (if \<not> ev_sns_enabled E then retP ()
      else bindP (reading (ev_publish_fails E)) (\<lambda>fails.
        if fails then retP () else modP (\<lambda>s. s\<lparr>st_events := st_events s @ [(ty, p)]\<rparr>)))"

section \<open>Request bodies\<close>

record doc_create =
  cr_title :: string
  cr_content :: string
  cr_content_type :: string
  cr_owner :: "uuid option"
  cr_folder :: "uuid option"

record doc_update =
  up_title :: string
  up_content :: string
  up_content_type :: string
  up_folder :: "uuid option"

text \<open>None: the field is not set in the request.\<close>

record doc_patch =
  pt_title :: "string option"
  pt_content :: "string option"
  pt_content_type :: "string option"
  pt_folder :: "uuid option option"

record comment_create =
  cc_author :: uuid
  cc_content :: string

record template_create =
  tq_name :: string
  tq_description :: string
  tq_content :: string
  tq_content_type :: string
  tq_created_by :: uuid

record from_template =
  fm_title :: string
  fm_owner :: uuid
  fm_folder :: "uuid option"

definition title_ok :: "string \<Rightarrow> bool" where
  "title_ok t \<longleftrightarrow> 1 \<le> length t \<and> length t \<le> 500"

definition patch_ok :: "doc_patch \<Rightarrow> bool" where
  "patch_ok p \<longleftrightarrow> (case pt_title p of None \<Rightarrow> True | Some t \<Rightarrow> title_ok t)"

section \<open>Documents\<close>

definition word_count :: "string \<Rightarrow> nat" where
  "word_count t = length (py_split t)"

definition new_version :: "doc_env \<Rightarrow> document \<Rightarrow> uuid \<Rightarrow> doc_version service" where
  "new_version E d author =
     bindP (reading (ev_uuid E)) (\<lambda>i. bindP (reading (ev_clock E)) (\<lambda>c.
     retP \<lparr>dv_id = i, dv_document = dc_id d, dv_number = dc_version d, dv_title = dc_title d, dv_content = dc_content d,
           dv_created_by = author, dv_created = c\<rparr>))"

text \<open>\<open>scalar_one_or_none\<close>\<close>

definition one_or_none :: "'a list \<Rightarrow> 'a option service" where
  "one_or_none xs = (case xs of [] \<Rightarrow> retP None | [x] \<Rightarrow> retP (Some x) | _ \<Rightarrow> raiseP (Crash ''MultipleResultsFound''))"

definition live_document :: "uuid \<Rightarrow> document \<Rightarrow> bool" where
  "live_document i d \<longleftrightarrow> dc_id d = i \<and> \<not> dc_deleted d"

definition get_document :: "uuid \<Rightarrow> document option service" where
  "get_document i = bindP (getP (\<lambda>s. filter (live_document i) (st_documents s))) one_or_none"

text \<open>An \<open>UPDATE\<close> writes the columns that the session changed since it loaded the row.\<close>

definition written :: "'c \<Rightarrow> 'c \<Rightarrow> 'c \<Rightarrow> 'c" where
  "written old new current = (if new = old then current else new)"

definition flush_row :: "document \<Rightarrow> document \<Rightarrow> document \<Rightarrow> document" where
  "flush_row old new x = x\<lparr>
     dc_title := written (dc_title old) (dc_title new) (dc_title x),
     dc_content := written (dc_content old) (dc_content new) (dc_content x),
     dc_content_type := written (dc_content_type old) (dc_content_type new) (dc_content_type x),
     dc_folder := written (dc_folder old) (dc_folder new) (dc_folder x),
     dc_deleted := written (dc_deleted old) (dc_deleted new) (dc_deleted x),
     dc_words := written (dc_words old) (dc_words new) (dc_words x),
     dc_version := written (dc_version old) (dc_version new) (dc_version x),
     dc_updated := written (dc_updated old) (dc_updated new) (dc_updated x)\<rparr>"

definition put_document :: "document \<Rightarrow> document \<Rightarrow> store \<Rightarrow> store" where
  "put_document old new s =
     s\<lparr>st_documents := map (\<lambda>x. if dc_id x = dc_id old then flush_row old new x else x) (st_documents s)\<rparr>"

text \<open>\<open>refresh\<close> reads the row again.\<close>

definition refresh_document :: "uuid \<Rightarrow> document service" where
  "refresh_document i = bindP (getP (\<lambda>s. find (\<lambda>d. dc_id d = i) (st_documents s))) (\<lambda>r. case r of
       None \<Rightarrow> raiseP (Crash ''InvalidRequestError'')
     | Some d \<Rightarrow> retP d)"

definition put_version :: "doc_version \<Rightarrow> store \<Rightarrow> store" where
  "put_version v s = s\<lparr>st_versions := st_versions s @ [v]\<rparr>"

text \<open>The part of \<open>create\<close> that follows the construction of the document.\<close>

definition insert_document :: "doc_env \<Rightarrow> document \<Rightarrow> uuid \<Rightarrow> document service" where
  "insert_document E d owner =
     thenP (fits_columns (dc_title d) (dc_content_type d))
    (thenP (unused (dc_id d) (\<lambda>s. map dc_id (st_documents s)))
    (bindP (new_version E d owner) (\<lambda>v.
     thenP (unused (dv_id v) (\<lambda>s. map dv_id (st_versions s)))
    (thenP (commit E (\<lambda>s. put_version v (s\<lparr>st_documents := st_documents s @ [d]\<rparr>)))
    (bindP (refresh_document (dc_id d)) (\<lambda>row.
     thenP (publish E ''document_created'' (Indexed row None)) (retP row)))))))"

definition create_document :: "doc_env \<Rightarrow> doc_create \<Rightarrow> document service" where
  "create_document E data =
     bindP (reading (ev_uuid E)) (\<lambda>i. bindP (reading (ev_clock E)) (\<lambda>c. bindP (reading (ev_clock E)) (\<lambda>u.
     case cr_owner data of
       None \<Rightarrow> raiseP (Crash ''IntegrityError'')
     | Some owner \<Rightarrow>
         insert_document E \<lparr>dc_id = i, dc_title = cr_title data, dc_content = cr_content data,
           dc_content_type = cr_content_type data, dc_owner = owner, dc_folder = cr_folder data, dc_deleted = False,
           dc_template = False, dc_words = word_count (cr_content data), dc_version = 1, dc_created = c, dc_updated = u\<rparr>
           owner)))"

text \<open>
  What follows the load of a document in \<open>update\<close>, \<open>patch\<close> and \<open>restore_version\<close>: \<open>old\<close> is the row as
  loaded, \<open>new\<close> the object with the attributes that the request sets. The version number grows,
  \<open>updated_at\<close> is set by the mapper, and a version row is stored with the update.
\<close>

definition save_new_version ::
  "doc_env \<Rightarrow> document \<Rightarrow> document \<Rightarrow> uuid \<Rightarrow> uuid option \<Rightarrow> document service" where
  "save_new_version E old new author restored =
     bindP (reading (ev_clock E)) (\<lambda>u.
     let d = new\<lparr>dc_version := dc_version new + 1, dc_updated := u\<rparr> in
     bindP (new_version E d author) (\<lambda>v.
     thenP (fits_columns (dc_title d) (dc_content_type d))
    (thenP (unused (dv_id v) (\<lambda>s. map dv_id (st_versions s)))
    (thenP (commit E (\<lambda>s. put_version v (put_document old d s)))
    (bindP (refresh_document (dc_id d)) (\<lambda>row.
     thenP (publish E ''document_updated'' (Indexed row restored)) (retP row)))))))"

definition updated_by :: "doc_update \<Rightarrow> document \<Rightarrow> document" where
  "updated_by data d = d\<lparr>dc_title := up_title data, dc_content := up_content data, dc_content_type := up_content_type data,
     dc_folder := up_folder data, dc_words := word_count (up_content data)\<rparr>"

definition with_document :: "uuid \<Rightarrow> (document \<Rightarrow> 'a option service) \<Rightarrow> 'a option service" where
  "with_document i f = bindP (get_document i) (\<lambda>d. case d of None \<Rightarrow> retP None | Some x \<Rightarrow> f x)"

definition update_loaded :: "doc_env \<Rightarrow> doc_update \<Rightarrow> uuid option \<Rightarrow> document \<Rightarrow> document option service" where
  "update_loaded E data author d =
     bindP (save_new_version E d (updated_by data d) (case author of None \<Rightarrow> dc_owner d | Some a \<Rightarrow> a) None) (\<lambda>row.
     retP (Some row))"

definition update_document :: "doc_env \<Rightarrow> uuid \<Rightarrow> doc_update \<Rightarrow> uuid option \<Rightarrow> document option service" where
  "update_document E i data author = with_document i (update_loaded E data author)"

definition patched_by :: "doc_patch \<Rightarrow> document \<Rightarrow> document" where
  "patched_by p d =
     (let d1 = (case pt_title p of None \<Rightarrow> d | Some t \<Rightarrow> d\<lparr>dc_title := t\<rparr>);
          d2 = (case pt_content p of None \<Rightarrow> d1 | Some c \<Rightarrow> d1\<lparr>dc_content := c, dc_words := (if c = [] then 0 else word_count c)\<rparr>);
          d3 = (case pt_content_type p of None \<Rightarrow> d2 | Some c \<Rightarrow> d2\<lparr>dc_content_type := c\<rparr>) in
      case pt_folder p of None \<Rightarrow> d3 | Some f \<Rightarrow> d3\<lparr>dc_folder := f\<rparr>)"

definition patch_changes :: "doc_patch \<Rightarrow> bool" where
  "patch_changes p \<longleftrightarrow> pt_title p \<noteq> None \<or> pt_content p \<noteq> None \<or> pt_content_type p \<noteq> None \<or> pt_folder p \<noteq> None"

definition patch_loaded :: "doc_env \<Rightarrow> doc_patch \<Rightarrow> document \<Rightarrow> document option service" where
  "patch_loaded E p d =
     (if patch_changes p
      then bindP (save_new_version E d (patched_by p d) (dc_owner d) None) (\<lambda>row. retP (Some row))
      else thenP (commit E (\<lambda>s. s)) (bindP (refresh_document (dc_id d)) (\<lambda>row. retP (Some row))))"

definition patch_document :: "doc_env \<Rightarrow> uuid \<Rightarrow> doc_patch \<Rightarrow> document option service" where
  "patch_document E i p = with_document i (patch_loaded E p)"

definition delete_loaded :: "doc_env \<Rightarrow> document \<Rightarrow> bool service" where
  "delete_loaded E d =
     bindP (reading (ev_clock E)) (\<lambda>u.
     thenP (commit E (put_document d (d\<lparr>dc_deleted := True, dc_updated := u\<rparr>)))
    (thenP (publish E ''document_deleted'' (Removed (dc_id d))) (retP True)))"

definition delete_document :: "doc_env \<Rightarrow> uuid \<Rightarrow> bool service" where
  "delete_document E i = bindP (get_document i) (\<lambda>d. case d of None \<Rightarrow> retP False | Some x \<Rightarrow> delete_loaded E x)"

section \<open>Versions\<close>

definition list_versions :: "uuid \<Rightarrow> doc_version list service" where
  "list_versions i = getP (\<lambda>s. sort_key dv_number (filter (\<lambda>v. dv_document v = i) (st_versions s)))"

definition restored_to :: "doc_version \<Rightarrow> document \<Rightarrow> document" where
  "restored_to v d = d\<lparr>dc_title := dv_title v, dc_content := dv_content v, dc_words := word_count (dv_content v)\<rparr>"

definition restore_loaded :: "doc_env \<Rightarrow> uuid \<Rightarrow> document \<Rightarrow> document option service" where
  "restore_loaded E vid d =
     bindP (bindP (getP (\<lambda>s. filter (\<lambda>v. dv_id v = vid \<and> dv_document v = dc_id d) (st_versions s))) one_or_none) (\<lambda>ver.
     case ver of
       None \<Rightarrow> retP None
     | Some v \<Rightarrow> bindP (save_new_version E d (restored_to v d) (dc_owner d) (Some vid)) (\<lambda>row. retP (Some row)))"

definition restore_version :: "doc_env \<Rightarrow> uuid \<Rightarrow> uuid \<Rightarrow> document option service" where
  "restore_version E i vid = with_document i (restore_loaded E vid)"

section \<open>Listing and search\<close>

text \<open>\<open>ORDER BY key DESC\<close>, then \<open>OFFSET (page - 1) * limit LIMIT limit\<close>.\<close>

definition newest_first :: "document list \<Rightarrow> document list" where
  "newest_first ds = rev (sort_key dc_updated ds)"

definition page_of :: "nat \<Rightarrow> nat \<Rightarrow> 'a list \<Rightarrow> 'a list" where
  "page_of page limit xs = take limit (drop ((page - 1) * limit) xs)"

definition listed :: "uuid option \<Rightarrow> uuid option \<Rightarrow> document \<Rightarrow> bool" where
  "listed owner folder d \<longleftrightarrow> \<not> dc_deleted d \<and> \<not> dc_template d \<and> (owner = None \<or> owner = Some (dc_owner d)) \<and>
     (folder = None \<or> dc_folder d = folder)"

definition recent_versions :: "store \<Rightarrow> document \<Rightarrow> doc_version list" where
  "recent_versions s d = take 5 (rev (sort_key dv_number (filter (\<lambda>v. dv_document v = dc_id d) (st_versions s))))"

definition list_documents ::
  "uuid option \<Rightarrow> uuid option \<Rightarrow> nat \<Rightarrow> nat \<Rightarrow> ((document \<times> doc_version list) list \<times> nat) service" where
  "list_documents owner folder page limit = getP (\<lambda>s.
     let base = filter (listed owner folder) (st_documents s) in
     (map (\<lambda>d. (d, recent_versions s d)) (page_of page limit (newest_first base)), length base))"

text \<open>\<open>LIKE\<close> with the backslash as escape, characters compared after \<open>fold\<close>; \<open>ILIKE\<close> folds both sides.\<close>

fun like_match :: "string \<Rightarrow> string \<Rightarrow> bool" where
  "like_match [] t = (t = [])"
| "like_match (p # ps) t =
     (if p = CHR ''%'' then list_ex (\<lambda>k. like_match ps (drop k t)) [0..<Suc (length t)]
      else case t of
             [] \<Rightarrow> False
           | c # cs \<Rightarrow>
               if p = CHR ''_'' then like_match ps cs
               else if p = CHR 0x5C then (case ps of [] \<Rightarrow> False | q # qs \<Rightarrow> c = q \<and> like_match qs cs)
               else c = p \<and> like_match ps cs)"

definition ilike :: "(char \<Rightarrow> char) \<Rightarrow> string \<Rightarrow> string \<Rightarrow> bool" where
  "ilike fld pattern t = like_match (map fld pattern) (map fld t)"

definition search_pattern :: "string \<Rightarrow> string" where
  "search_pattern q = ''%'' @ replace_char (CHR ''_'') [CHR 0x5C, CHR ''_'']
     (replace_char (CHR ''%'') [CHR 0x5C, CHR ''%''] (replace_char (CHR 0x5C) [CHR 0x5C, CHR 0x5C] q)) @ ''%''"

definition found_by :: "doc_env \<Rightarrow> string \<Rightarrow> document \<Rightarrow> bool" where
  "found_by E q d \<longleftrightarrow> \<not> dc_deleted d \<and> \<not> dc_template d \<and>
     (ilike (ev_fold E) (search_pattern q) (dc_title d) \<or> ilike (ev_fold E) (search_pattern q) (dc_content d))"

definition search_documents :: "doc_env \<Rightarrow> string \<Rightarrow> nat \<Rightarrow> nat \<Rightarrow> (document list \<times> nat) service" where
  "search_documents E q page limit = getP (\<lambda>s.
     let base = filter (found_by E q) (st_documents s) in (page_of page limit (newest_first base), length base))"

text \<open>\<open>max(1, ceil(total / size))\<close>; the float quotient is exact enough below 2^53.\<close>

definition paginate :: "nat \<Rightarrow> nat \<Rightarrow> nat" where
  "paginate n limit = (if 0 < limit then max 1 ((n + limit - 1) div limit) else 1)"

section \<open>Export\<close>

definition export_document :: "document \<Rightarrow> export_format \<Rightarrow> string \<times> string" where
  "export_document d fmt = (case fmt of
       Html \<Rightarrow> (''<html><head><title>'' @ html_escape (dc_title d) @ ''</title></head><body><h1>'' @ html_escape (dc_title d) @
                ''</h1><div>'' @ html_escape (dc_content d) @ ''</div></body></html>'', ''text/html'')
     | Markdown \<Rightarrow> (''# '' @ dc_title d @ [CHR 0x0A, CHR 0x0A] @ dc_content d, ''text/markdown'')
     | Pdf \<Rightarrow> (''TITLE: '' @ dc_title d @ [CHR 0x0A, CHR 0x0A] @ dc_content d, ''application/pdf''))"

section \<open>Comments\<close>

definition add_comment :: "doc_env \<Rightarrow> uuid \<Rightarrow> comment_create \<Rightarrow> doc_comment option service" where
  "add_comment E i data = with_document i (\<lambda>d.
     bindP (reading (ev_uuid E)) (\<lambda>cid. bindP (reading (ev_clock E)) (\<lambda>c. bindP (reading (ev_clock E)) (\<lambda>u.
     let cm = \<lparr>cm_id = cid, cm_document = i, cm_author = cc_author data, cm_content = cc_content data,
               cm_created = c, cm_updated = u\<rparr> in
     thenP (unused cid (\<lambda>s. map cm_id (st_comments s)))
    (thenP (commit E (\<lambda>s. s\<lparr>st_comments := st_comments s @ [cm]\<rparr>))
    (thenP (publish E ''comment_added'' (Commented cid i (cc_author data))) (retP (Some cm))))))))"

definition list_comments :: "uuid \<Rightarrow> doc_comment list service" where
  "list_comments i = getP (\<lambda>s. sort_key cm_created (filter (\<lambda>c. cm_document c = i) (st_comments s)))"

definition delete_comment :: "doc_env \<Rightarrow> uuid \<Rightarrow> uuid \<Rightarrow> bool service" where
  "delete_comment E i cid =
     bindP (bindP (getP (\<lambda>s. filter (\<lambda>c. cm_id c = cid \<and> cm_document c = i) (st_comments s))) one_or_none) (\<lambda>cm.
     case cm of
       None \<Rightarrow> retP False
     | Some c \<Rightarrow> thenP (commit E (\<lambda>s. s\<lparr>st_comments := filter (\<lambda>x. cm_id x \<noteq> cm_id c) (st_comments s)\<rparr>)) (retP True))"

section \<open>Templates\<close>

definition create_template :: "doc_env \<Rightarrow> template_create \<Rightarrow> doc_template service" where
  "create_template E data =
     bindP (reading (ev_uuid E)) (\<lambda>i. bindP (reading (ev_clock E)) (\<lambda>c. bindP (reading (ev_clock E)) (\<lambda>u.
     let t = \<lparr>tp_id = i, tp_name = tq_name data, tp_description = tq_description data, tp_content = tq_content data,
              tp_content_type = tq_content_type data, tp_created_by = tq_created_by data, tp_created = c, tp_updated = u\<rparr> in
     thenP (fits_columns (tp_name t) (tp_content_type t))
    (thenP (unused i (\<lambda>s. map tp_id (st_templates s)))
    (thenP (commit E (\<lambda>s. s\<lparr>st_templates := st_templates s @ [t]\<rparr>)) (retP t))))))"

definition list_templates :: "doc_template list service" where
  "list_templates = getP (\<lambda>s. sort_key tp_name (st_templates s))"

definition get_template :: "uuid \<Rightarrow> doc_template option service" where
  "get_template i = bindP (getP (\<lambda>s. filter (\<lambda>t. tp_id t = i) (st_templates s))) one_or_none"

definition create_from_template :: "doc_env \<Rightarrow> uuid \<Rightarrow> from_template \<Rightarrow> document option service" where
  "create_from_template E tid data =
     bindP (get_template tid) (\<lambda>t. case t of
       None \<Rightarrow> retP None
     | Some x \<Rightarrow>
         bindP (create_document E \<lparr>cr_title = fm_title data, cr_content = tp_content x, cr_content_type = tp_content_type x,
             cr_owner = Some (fm_owner data), cr_folder = fm_folder data\<rparr>) (\<lambda>d. retP (Some d)))"

end
