(* ===== verification/Doc_History.thy ===== *)
theory Doc_History
  imports Doc_Store
begin

text \<open>
  The invariant of the document tables: identifiers are unique, every version belongs to a document,
  the versions of a document are numbered from one without gaps, the last one holds the document's title
  and content, and the stored word count is that of the content. Every operation of the service keeps
  it, whether it returns, raises or fails to commit.
\<close>

section \<open>The invariant\<close>

definition versions_of :: "store \<Rightarrow> uuid \<Rightarrow> doc_version list" where
  "versions_of s i = filter (\<lambda>v. dv_document v = i) (st_versions s)"

definition documented :: "store \<Rightarrow> document \<Rightarrow> bool" where
  "documented s d \<longleftrightarrow> 0 < dc_version d \<and> map dv_number (versions_of s (dc_id d)) = [1..<Suc (dc_version d)] \<and>
     dv_title (last (versions_of s (dc_id d))) = dc_title d \<and> dv_content (last (versions_of s (dc_id d))) = dc_content d \<and>
     dc_words d = word_count (dc_content d)"

definition wf_store :: "store \<Rightarrow> bool" where
  "wf_store s \<longleftrightarrow> distinct (map dc_id (st_documents s)) \<and> distinct (map dv_id (st_versions s)) \<and>
     distinct (map cm_id (st_comments s)) \<and> distinct (map tp_id (st_templates s)) \<and>
     dv_document ` set (st_versions s) \<subseteq> dc_id ` set (st_documents s) \<and> (\<forall>d \<in> set (st_documents s). documented s d)"

lemma wf_empty: "wf_store empty_store"
  by (simp add: wf_store_def empty_store_def)

lemma wf_cong:
  "st_documents s' = st_documents s \<Longrightarrow> st_versions s' = st_versions s \<Longrightarrow> st_comments s' = st_comments s \<Longrightarrow>
   st_templates s' = st_templates s \<Longrightarrow> wf_store s' = wf_store s"
  by (simp add: wf_store_def documented_def versions_of_def)

lemma put_version_simps [simp]:
  "st_documents (put_version v s) = st_documents s" "st_versions (put_version v s) = st_versions s @ [v]"
  "st_comments (put_version v s) = st_comments s" "st_templates (put_version v s) = st_templates s"
  by (simp_all add: put_version_def)

lemma put_document_simps [simp]:
  "st_versions (put_document old new s) = st_versions s" "st_comments (put_document old new s) = st_comments s"
  "st_templates (put_document old new s) = st_templates s" "st_cache (put_document old new s) = st_cache s"
  "st_rollups (put_document old new s) = st_rollups s"
  by (simp_all add: put_document_def)

lemma versions_of_put [simp]:
  "versions_of (put_version v s) i = versions_of s i @ (if dv_document v = i then [v] else [])"
  "versions_of (put_document old new s) i = versions_of s i"
  "versions_of (s\<lparr>st_documents := ds\<rparr>) i = versions_of s i"
  by (simp_all add: versions_of_def)

lemma documented_put [simp]:
  "documented (put_document old new s) d = documented s d"
  "documented (s\<lparr>st_documents := ds\<rparr>) d = documented s d"
  "dv_document v \<noteq> dc_id d \<Longrightarrow> documented (put_version v s) d = documented s d"
  by (simp_all add: documented_def)

text \<open>The row of a loaded document is replaced by the object that the session changed.\<close>

definition derived :: "document \<Rightarrow> document \<Rightarrow> bool" where
  "derived old new \<longleftrightarrow> dc_id new = dc_id old \<and> dc_owner new = dc_owner old \<and> dc_template new = dc_template old \<and>
     dc_created new = dc_created old"

lemma flush_row_id [simp]: "dc_id (flush_row old new x) = dc_id x"
  by (simp add: flush_row_def)

lemma flush_row_loaded: "derived old new \<Longrightarrow> flush_row old new old = new"
  by (auto simp: flush_row_def derived_def written_def intro!: document.equality)

lemma put_document_ids: "map dc_id (st_documents (put_document old new s)) = map dc_id (st_documents s)"
  by (simp add: put_document_def)

lemma put_document_id_set: "dc_id ` set (st_documents (put_document old new s)) = dc_id ` set (st_documents s)"
  using arg_cong [OF put_document_ids, of set] by (simp only: set_map)

lemma put_document_rows:
  assumes "distinct (map dc_id (st_documents s))" and "old \<in> set (st_documents s)" and "derived old new"
  shows "st_documents (put_document old new s) = map (\<lambda>x. if dc_id x = dc_id old then new else x) (st_documents s)"
proof -
  have "x = old" if "x \<in> set (st_documents s)" "dc_id x = dc_id old" for x
    using that assms(1,2) by (auto simp: distinct_map inj_on_def)
  then show ?thesis using flush_row_loaded [OF assms(3)] by (auto simp: put_document_def)
qed

lemma put_document_member:
  assumes "distinct (map dc_id (st_documents s))" and "old \<in> set (st_documents s)" and "derived old new"
    and "x \<in> set (st_documents (put_document old new s))"
  shows "x = new \<or> x \<in> set (st_documents s) \<and> dc_id x \<noteq> dc_id old"
  using assms(4) unfolding put_document_rows [OF assms(1-3)] by (auto split: if_splits)

section \<open>Rows that keep the invariant\<close>

lemma wf_add_document:
  assumes "wf_store s" and "dc_id d \<notin> dc_id ` set (st_documents s)" and "dv_id v \<notin> dv_id ` set (st_versions s)"
    and "dv_document v = dc_id d" and "dv_number v = 1" and "dc_version d = 1" and "dv_title v = dc_title d"
    and "dv_content v = dc_content d" and "dc_words d = word_count (dc_content d)"
  shows "wf_store (put_version v (s\<lparr>st_documents := st_documents s @ [d]\<rparr>))"
proof -
  have "dv_document x \<noteq> dc_id d" if "x \<in> set (st_versions s)" for x
    using assms(1,2) that by (metis (no_types, lifting) image_eqI subsetD wf_store_def)
  then have none: "versions_of s (dc_id d) = []" by (auto simp: versions_of_def filter_empty_conv)
  have old: "documented (put_version v (s\<lparr>st_documents := st_documents s @ [d]\<rparr>)) x" if "x \<in> set (st_documents s)" for x
  proof -
    have "dc_id d \<noteq> dc_id x" using that assms(2) by (metis imageI)
    with that assms(1,4) show ?thesis by (simp add: wf_store_def)
  qed
  have "documented (put_version v (s\<lparr>st_documents := st_documents s @ [d]\<rparr>)) d"
    using assms none by (simp add: documented_def)
  with old show ?thesis using assms(1-4) by (auto simp: wf_store_def)
qed

lemma documented_next:
  assumes "documented s old" and "dc_id d = dc_id old" and "dc_version d = Suc (dc_version old)" and "dv_document v = dc_id d"
    and "dv_number v = dc_version d" and "dv_title v = dc_title d" and "dv_content v = dc_content d"
    and "dc_words d = word_count (dc_content d)"
  shows "documented (put_version v s) d"
  using assms by (simp add: documented_def)

lemma wf_save_version:
  assumes "wf_store s" and "old \<in> set (st_documents s)" and "derived old d" and "dc_version d = Suc (dc_version old)"
    and "dv_id v \<notin> dv_id ` set (st_versions s)" and "dv_document v = dc_id d" and "dv_number v = dc_version d"
    and "dv_title v = dc_title d" and "dv_content v = dc_content d" and "dc_words d = word_count (dc_content d)"
  shows "wf_store (put_version v (put_document old d s))"
proof -
  have ids: "dc_id d = dc_id old" using assms(3) by (simp add: derived_def)
  have "documented s old" using assms(1,2) by (simp add: wf_store_def)
  from documented_next [OF this ids assms(4,6-10)] have new: "documented (put_version v s) d" .
  have "documented (put_version v (put_document old d s)) x" if "x \<in> set (st_documents (put_document old d s))" for x
  proof -
    have "documented (put_document old d s) y = documented s y" for y by simp
    have "x = d \<or> x \<in> set (st_documents s) \<and> dc_id x \<noteq> dc_id old"
      using put_document_member [OF _ assms(2,3) that] assms(1) by (simp add: wf_store_def)
    then show ?thesis
    proof
      assume "x = d"
      with new show ?thesis by (simp add: documented_def)
    next
      assume x: "x \<in> set (st_documents s) \<and> dc_id x \<noteq> dc_id old"
      then have "dv_document v \<noteq> dc_id x" using assms(6) ids by auto
      with assms(1) x show ?thesis by (simp add: wf_store_def)
    qed
  qed
  moreover have "dc_id d \<in> dc_id ` set (st_documents s)" using assms(2) ids by auto
  ultimately show ?thesis
    using assms(1,5,6) by (simp add: wf_store_def put_document_ids put_document_id_set)
qed

lemma wf_put_document:
  assumes "wf_store s" and "old \<in> set (st_documents s)" and "derived old d" and "dc_version d = dc_version old"
    and "dc_title d = dc_title old" and "dc_content d = dc_content old" and "dc_words d = dc_words old"
  shows "wf_store (put_document old d s)"
proof -
  have "documented s d" using assms by (simp add: wf_store_def documented_def derived_def)
  then have "documented s x" if "x \<in> set (st_documents (put_document old d s))" for x
    using put_document_member [OF _ assms(2,3) that] assms(1) by (auto simp: wf_store_def)
  then show ?thesis using assms(1) by (simp add: wf_store_def put_document_ids put_document_id_set)
qed

section \<open>What the operations do to the tables\<close>

definition same_tables :: "store \<Rightarrow> store \<Rightarrow> bool" where
  "same_tables s t \<longleftrightarrow> st_documents t = st_documents s \<and> st_versions t = st_versions s \<and> st_comments t = st_comments s \<and>
     st_templates t = st_templates s \<and> st_rollups t = st_rollups s \<and> st_cache t = st_cache s"

lemma same_tables_refl [simp]: "same_tables s s" "same_tables s (s\<lparr>st_tick := n\<rparr>)" "same_tables s (s\<lparr>st_events := es\<rparr>)"
  by (simp_all add: same_tables_def)

lemma same_tables_trans: "same_tables s t \<Longrightarrow> same_tables t u \<Longrightarrow> same_tables s u"
  by (simp add: same_tables_def)

lemma quiet_reading [quiet_rules]: "quiet view (reading f)" if "\<And>s n. view (s\<lparr>st_tick := n\<rparr>) = view s"
  using that by (auto simp: quiet_def reading_def)

lemma reading_same: "reading f s = (r, t) \<Longrightarrow> (\<exists>a. r = Inr a) \<and> same_tables s t"
  by (auto simp: reading_def)

lemma publish_same: "publish E ty p s = (r, t) \<Longrightarrow> r = Inr () \<and> same_tables s t"
  by (auto simp: publish_def bindP_eval reading_def same_tables_def split: if_splits)

lemma unused_outcome:
  "unused k keys s = (r, t) \<Longrightarrow> t = s \<and> (if k \<in> set (keys s) then r = Inl (Crash ''IntegrityError'') else r = Inr ())"
  by (auto simp: unused_def bindP_eval split: if_splits)

lemma fits_outcome: "fits_columns a b s = (r, t) \<Longrightarrow> t = s"
  by (auto simp: fits_columns_def split: if_splits)

lemma commit_outcome:
  "commit E f s = (r, t) \<Longrightarrow>
     (r = Inl (Crash ''SQLAlchemyError'') \<and> t = s\<lparr>st_tick := Suc (st_tick s)\<rparr>) \<or>
     (r = Inr () \<and> t = f (s\<lparr>st_tick := Suc (st_tick s)\<rparr>))"
  by (auto simp: commit_def bindP_eval reading_def split: if_splits)

lemma get_document_outcome:
  assumes "get_document i s = (r, t)"
  shows "t = s" and "\<And>d. r = Inr (Some d) \<Longrightarrow> d \<in> set (st_documents s) \<and> dc_id d = i \<and> \<not> dc_deleted d"
    and "r = Inr None \<Longrightarrow> (\<forall>d \<in> set (st_documents s). dc_id d = i \<longrightarrow> dc_deleted d)"
proof -
  have run: "bindP (getP (\<lambda>s. filter (live_document i) (st_documents s))) one_or_none s = (r, t)"
    using assms by (simp add: get_document_def)
  then show "t = s" by (auto simp: bindP_eval one_or_none_def split: list.splits)
  have mem: "set (filter (live_document i) (st_documents s)) = {d \<in> set (st_documents s). dc_id d = i \<and> \<not> dc_deleted d}"
    by (auto simp: live_document_def)
  show "d \<in> set (st_documents s) \<and> dc_id d = i \<and> \<not> dc_deleted d" if "r = Inr (Some d)" for d
  proof -
    have "filter (live_document i) (st_documents s) = [d]"
      using run that by (auto simp: bindP_eval one_or_none_def split: list.splits)
    with mem show ?thesis by auto
  qed
  show "\<forall>d \<in> set (st_documents s). dc_id d = i \<longrightarrow> dc_deleted d" if "r = Inr None"
  proof -
    have "filter (live_document i) (st_documents s) = []"
      using run that by (auto simp: bindP_eval one_or_none_def split: list.splits)
    with mem show ?thesis by auto
  qed
qed

lemma one_or_none_outcome:
  "one_or_none xs s = (r, t) \<Longrightarrow> t = s \<and> (r = Inr None \<and> xs = [] \<or> (\<exists>x. r = Inr (Some x) \<and> xs = [x]) \<or> (\<exists>e. r = Inl e))"
  by (auto simp: one_or_none_def split: list.splits)

lemma refresh_outcome: "refresh_document i s = (r, t) \<Longrightarrow> t = s \<and> (\<forall>d. r = Inr d \<longrightarrow> find (\<lambda>d. dc_id d = i) (st_documents s) = Some d)"
  by (auto simp: refresh_document_def bindP_eval split: option.splits)

text \<open>Running a sequence: either the first part raises, or it returns and the rest runs.\<close>

lemma bindP_runE:
  assumes "bindP m f s = (r, t)"
  obtains (raised) e where "m s = (Inl e, t)" and "r = Inl e"
    | (returned) a u where "m s = (Inr a, u)" and "f a u = (r, t)"
  using assms by (auto simp: bindP_eval split: prod.splits sum.splits)

lemma thenP_runE:
  assumes "thenP m n s = (r, t)"
  obtains (raised) e where "m s = (Inl e, t)" and "r = Inl e"
    | (returned) a u where "m s = (Inr a, u)" and "n u = (r, t)"
  using assms unfolding thenP_def by (rule bindP_runE)

section \<open>Saving a version\<close>

definition version_row :: "doc_version \<Rightarrow> document \<Rightarrow> uuid \<Rightarrow> bool" where
  "version_row v d author \<longleftrightarrow> dv_document v = dc_id d \<and> dv_number v = dc_version d \<and> dv_title v = dc_title d \<and>
     dv_content v = dc_content d \<and> dv_created_by v = author"

lemma new_version_outcome:
  "new_version E d author s = (r, t) \<Longrightarrow> same_tables s t \<and> (\<exists>v. r = Inr v \<and> version_row v d author)"
  by (auto simp: new_version_def bindP_eval reading_def same_tables_def version_row_def)

lemma store_version_outcome:
  assumes "thenP (unused (dv_id v) (\<lambda>s. map dv_id (st_versions s))) (thenP (commit E f) m) s = (r, t)"
    and "\<forall>u r t. m u = (r, t) \<longrightarrow> same_tables u t"
  obtains (unstored) e where "r = Inl e" and "same_tables s t"
    | (stored) n where "dv_id v \<notin> dv_id ` set (st_versions s)" and "same_tables (f (s\<lparr>st_tick := n\<rparr>)) t"
        and "m (f (s\<lparr>st_tick := n\<rparr>)) = (r, t)"
  using assms(1)
proof (cases rule: thenP_runE)
  case (raised e)
  with unstored show ?thesis by (auto dest: unused_outcome)
next
  case (returned a u)
  then have free: "dv_id v \<notin> dv_id ` set (st_versions s)" and u: "u = s" by (auto dest!: unused_outcome split: if_splits)
  from returned(2) show ?thesis
  proof (cases rule: thenP_runE)
    case (raised e)
    with unstored u show ?thesis by (auto dest: commit_outcome)
  next
    case (returned b w)
    with u have "w = f (s\<lparr>st_tick := Suc (st_tick s)\<rparr>)" by (auto dest: commit_outcome)
    with returned stored [OF free] assms(2) show ?thesis by blast
  qed
qed

definition saved :: "store \<Rightarrow> document \<Rightarrow> document \<Rightarrow> uuid \<Rightarrow> store \<Rightarrow> bool" where
  "saved s old d author t \<longleftrightarrow>
     (\<exists>v. version_row v d author \<and> dv_id v \<notin> dv_id ` set (st_versions s) \<and> same_tables (put_version v (put_document old d s)) t)"

lemma same_tables_put [simp]:
  "same_tables s t \<Longrightarrow> same_tables (put_version v (put_document old d s)) (put_version v (put_document old d t))"
  by (simp add: same_tables_def put_version_def put_document_def)

lemma saved_shift: "same_tables s u \<Longrightarrow> saved u old d author t = saved s old d author t"
  by (simp add: saved_def same_tables_def put_version_def put_document_def)

lemma report_outcome:
  "bindP (refresh_document i) (\<lambda>row. thenP (publish E ty (g row)) (retP row)) s = (r, t) \<Longrightarrow>
   same_tables s t \<and> (\<forall>row. r = Inr row \<longrightarrow> find (\<lambda>d. dc_id d = i) (st_documents t) = Some row)"
  by (elim bindP_runE thenP_runE) (auto dest!: refresh_outcome publish_same simp: same_tables_def)

lemma report_same:
  "\<forall>s r t. bindP (refresh_document i) (\<lambda>row. thenP (publish E ty (g row)) (retP row)) s = (r, t) \<longrightarrow> same_tables s t"
  using report_outcome by blast

lemma save_outcome:
  assumes "save_new_version E old new author restored s = (r, t)"
  obtains (unsaved) e where "r = Inl e" and "same_tables s t"
    | (saved) u where "saved s old (new\<lparr>dc_version := dc_version new + 1, dc_updated := u\<rparr>) author t"
        and "\<And>row. r = Inr row \<Longrightarrow> find (\<lambda>d. dc_id d = dc_id new) (st_documents t) = Some row"
  using assms unfolding save_new_version_def
proof (cases rule: bindP_runE)
  case (raised e)
  then show ?thesis by (auto dest: reading_same)
next
  case (returned u s1)
  let ?d = "new\<lparr>dc_version := dc_version new + 1, dc_updated := u\<rparr>"
  from returned(1) have s1: "same_tables s s1" by (auto dest: reading_same)
  from returned(2) [unfolded Let_def] show ?thesis
  proof (cases rule: bindP_runE)
    case (raised e)
    then show ?thesis by (auto dest: new_version_outcome)
  next
    case (returned v s2)
    then have s2: "same_tables s s2" and v: "version_row v ?d author"
      using same_tables_trans [OF s1] by (auto dest: new_version_outcome)
    from returned(2) show ?thesis
    proof (cases rule: thenP_runE)
      case (raised e)
      with s2 unsaved show ?thesis by (auto dest: fits_outcome)
    next
      case (returned a s3)
      then have s3: "s3 = s2" by (auto dest: fits_outcome)
      from returned(2) report_same show ?thesis
      proof (cases rule: store_version_outcome)
        case (unstored e)
        with s3 have "same_tables s t" using same_tables_trans [OF s2] by simp
        with unstored(1) show ?thesis by (rule unsaved)
      next
        case (stored n)
        have "same_tables s2 (s2\<lparr>st_tick := n\<rparr>)" by simp
        from same_tables_trans [OF same_tables_put [OF this] stored(2) [unfolded s3]]
        have "same_tables (put_version v (put_document old ?d s2)) t" .
        with stored(1) s3 v have "saved s2 old ?d author t" by (auto simp: saved_def)
        then have "saved s old ?d author t" by (simp add: saved_shift [OF s2])
        moreover have "find (\<lambda>d. dc_id d = dc_id new) (st_documents t) = Some row" if "r = Inr row" for row
          using report_outcome [OF stored(3)] that by simp
        ultimately show ?thesis by (rule saved)
      qed
    qed
  qed
qed

section \<open>How the tables may change\<close>

text \<open>
  Version rows are only appended, document rows stay in place with their owner, their version number
  never falls, and a deleted document is never touched again.
\<close>

definition evolves :: "store \<Rightarrow> store \<Rightarrow> bool" where
  "evolves s t \<longleftrightarrow> (\<exists>vs. st_versions t = st_versions s @ vs) \<and>
     (\<exists>is. map dc_id (st_documents t) = map dc_id (st_documents s) @ is) \<and>
     (\<forall>d \<in> set (st_documents s). \<exists>d' \<in> set (st_documents t).
        dc_id d' = dc_id d \<and> dc_owner d' = dc_owner d \<and> dc_created d' = dc_created d \<and> dc_version d \<le> dc_version d' \<and>
        (dc_deleted d \<longrightarrow> d' = d))"

lemma evolves_refl [simp]: "evolves s s"
  by (auto simp: evolves_def)

lemma evolves_trans:
  assumes "evolves s t" and "evolves t u"
  shows "evolves s u"
proof -
  have "\<exists>d'' \<in> set (st_documents u). dc_id d'' = dc_id d \<and> dc_owner d'' = dc_owner d \<and> dc_created d'' = dc_created d \<and>
      dc_version d \<le> dc_version d'' \<and> (dc_deleted d \<longrightarrow> d'' = d)" if d: "d \<in> set (st_documents s)" for d
  proof -
    from assms(1) d obtain d' where d': "d' \<in> set (st_documents t)" "dc_id d' = dc_id d" "dc_owner d' = dc_owner d"
      "dc_created d' = dc_created d" "dc_version d \<le> dc_version d'" "dc_deleted d \<longrightarrow> d' = d"
      by (auto simp: evolves_def)
    from assms(2) d'(1) obtain d'' where d'': "d'' \<in> set (st_documents u)" "dc_id d'' = dc_id d'" "dc_owner d'' = dc_owner d'"
      "dc_created d'' = dc_created d'" "dc_version d' \<le> dc_version d''" "dc_deleted d' \<longrightarrow> d'' = d'"
      by (auto simp: evolves_def)
    show ?thesis using d' d'' by (intro bexI [of _ d'']) auto
  qed
  with assms show ?thesis unfolding evolves_def by (auto simp del: map_append)
qed

text \<open>A cached rendering is the rendering of the version that its key names.\<close>

definition entry_ok :: "store \<Rightarrow> render_key \<Rightarrow> rendered \<Rightarrow> bool" where
  "entry_ok s k r \<longleftrightarrow> (case (k, r) of ((i, n, fmt), (body, ctype, source)) \<Rightarrow>
     (\<exists>v \<in> set (st_versions s). dv_document v = i \<and> dv_number v = n \<and> source = (dv_title v, dv_content v) \<and>
        (\<forall>d. dc_title d = dv_title v \<longrightarrow> dc_content d = dv_content v \<longrightarrow> export_document d fmt = (body, ctype))))"

definition cache_ok :: "store \<Rightarrow> bool" where
  "cache_ok s \<longleftrightarrow> (\<forall>k r. map_of (st_cache s) k = Some r \<longrightarrow> entry_ok s k r)"

definition intact :: "store \<Rightarrow> store \<Rightarrow> bool" where
  "intact begun s \<longleftrightarrow> wf_store s \<and> cache_ok s \<and> evolves begun s \<and> st_rollups s = st_rollups begun"

lemma cache_ok_grow: "cache_ok s \<Longrightarrow> st_cache t = st_cache s \<Longrightarrow> set (st_versions s) \<subseteq> set (st_versions t) \<Longrightarrow> cache_ok t"
  unfolding cache_ok_def entry_ok_def by (fastforce split: prod.splits)

lemma intactI:
  "intact begun s \<Longrightarrow> wf_store t \<Longrightarrow> evolves s t \<Longrightarrow> st_cache t = st_cache s \<Longrightarrow> st_rollups t = st_rollups s \<Longrightarrow> intact begun t"
  unfolding intact_def by (auto intro!: cache_ok_grow [of s t] elim: evolves_trans) (auto simp: evolves_def)

lemma intact_same:
  assumes "same_tables s t" and "intact begun s"
  shows "intact begun t"
proof (rule intactI [OF assms(2)])
  show "wf_store t" using assms wf_cong [of t s] by (simp add: same_tables_def intact_def)
  show "evolves s t" "st_cache t = st_cache s" "st_rollups t = st_rollups s"
    using assms(1) by (auto simp: same_tables_def evolves_def)
qed

lemma evolves_put:
  assumes "wf_store s" and "old \<in> set (st_documents s)" and "derived old d" and "\<not> dc_deleted old" and "dc_version old \<le> dc_version d"
  shows "evolves s (put_document old d s)"
  unfolding evolves_def
proof (intro conjI ballI)
  show "\<exists>is. map dc_id (st_documents (put_document old d s)) = map dc_id (st_documents s) @ is" by (simp add: put_document_ids)
  have rows: "st_documents (put_document old d s) = map (\<lambda>x. if dc_id x = dc_id old then d else x) (st_documents s)"
    using assms(1-3) by (intro put_document_rows) (auto simp: wf_store_def)
  have same: "x = old" if "x \<in> set (st_documents s)" "dc_id x = dc_id old" for x
    using that assms(1,2) by (auto simp: wf_store_def distinct_map inj_on_def)
  fix x
  assume x: "x \<in> set (st_documents s)"
  let ?x = "if dc_id x = dc_id old then d else x"
  have "?x \<in> set (st_documents (put_document old d s))" using x by (auto simp: rows)
  moreover have "dc_id ?x = dc_id x \<and> dc_owner ?x = dc_owner x \<and> dc_created ?x = dc_created x \<and> dc_version x \<le> dc_version ?x \<and>
      (dc_deleted x \<longrightarrow> ?x = x)"
    using same [OF x] assms(3-5) by (auto simp: derived_def)
  ultimately show "\<exists>d'\<in>set (st_documents (put_document old d s)). dc_id d' = dc_id x \<and> dc_owner d' = dc_owner x \<and>
      dc_created d' = dc_created x \<and> dc_version x \<le> dc_version d' \<and> (dc_deleted x \<longrightarrow> d' = x)" by blast
qed simp

lemma evolves_put_version: "evolves s t \<Longrightarrow> evolves s (put_version v t)"
  by (auto simp: evolves_def)

lemma intact_put:
  assumes "intact begun s" and "old \<in> set (st_documents s)" and "derived old d" and "\<not> dc_deleted old"
    and "dc_version d = dc_version old" and "dc_title d = dc_title old" and "dc_content d = dc_content old" and "dc_words d = dc_words old"
  shows "intact begun (put_document old d s)"
  using assms by (intro intactI [OF assms(1)] wf_put_document [of s old] evolves_put) (auto simp: intact_def)

lemma intact_saved:
  assumes "intact begun s" and "old \<in> set (st_documents s)" and "derived old d" and "\<not> dc_deleted old"
    and "dc_version d = Suc (dc_version old)" and "dc_words d = word_count (dc_content d)" and "saved s old d author t"
  shows "intact begun t"
proof -
  from assms(7) obtain v where v: "version_row v d author" "dv_id v \<notin> dv_id ` set (st_versions s)"
    and t: "same_tables (put_version v (put_document old d s)) t" by (auto simp: saved_def)
  have "wf_store s" using assms(1) by (simp add: intact_def)
  then have "wf_store (put_version v (put_document old d s))" and "evolves s (put_version v (put_document old d s))"
    using assms(2-6) v by (auto intro!: wf_save_version [of s old] evolves_put_version evolves_put simp: version_row_def)
  then have "intact begun (put_version v (put_document old d s))" by (rule intactI [OF assms(1)]) (simp_all add: put_version_def)
  with t show ?thesis by (rule intact_same)
qed

section \<open>Every operation keeps the tables intact\<close>

lemma intact_tick: "intact begun s \<Longrightarrow> intact begun (s\<lparr>st_tick := n\<rparr>)"
  by (rule intact_same [OF same_tables_refl(2)])

named_theorems intact_rules \<open>operations that keep the tables intact\<close>

lemma keeps_same: "(\<And>s r t. m s = (r, t) \<Longrightarrow> same_tables s t) \<Longrightarrow> keeps (intact begun) m"
  by (auto intro!: keepsI intro: intact_same)

lemma same_steps [intact_rules]:
  "keeps (intact begun) (reading f)" "keeps (intact begun) (publish E ty p)" "keeps (intact begun) (get_document i)"
  "keeps (intact begun) (refresh_document i)" "keeps (intact begun) (unused k keys)" "keeps (intact begun) (fits_columns a b)"
  "keeps (intact begun) (one_or_none xs)" "keeps (intact begun) (new_version E d author)"
  by (rule keeps_same; auto dest: reading_same publish_same get_document_outcome(1) refresh_outcome unused_outcome fits_outcome
        one_or_none_outcome new_version_outcome)+

lemma intact_loaded:
  assumes "derived d new" and "dc_version new = dc_version d" and "dc_words new = word_count (dc_content new)"
    and "d \<in> set (st_documents s)" and "\<not> dc_deleted d" and "intact begun s"
    and "save_new_version E d new author restored s = (r, t)"
  shows "intact begun t"
  using assms(7)
proof (cases rule: save_outcome)
  case (unsaved e)
  then show ?thesis using assms(6) by (rule_tac intact_same)
next
  case (saved u)
  let ?d = "new\<lparr>dc_version := dc_version new + 1, dc_updated := u\<rparr>"
  have "derived d ?d" using assms(1) by (simp add: derived_def)
  from intact_saved [OF assms(6,4) this assms(5) _ _ saved(1)] show ?thesis using assms(2,3) by simp
qed

lemma keeps_loaded:
  assumes "\<And>d s r t. d \<in> set (st_documents s) \<Longrightarrow> dc_id d = i \<Longrightarrow> \<not> dc_deleted d \<Longrightarrow> P s \<Longrightarrow> f d s = (r, t) \<Longrightarrow> P t"
  shows "keeps P (bindP (get_document i) (\<lambda>d. case d of None \<Rightarrow> retP z | Some x \<Rightarrow> f x))"
proof (rule keepsI)
  fix s r t
  assume s: "P s" and run: "bindP (get_document i) (\<lambda>d. case d of None \<Rightarrow> retP z | Some x \<Rightarrow> f x) s = (r, t)"
  from run show "P t"
  proof (cases rule: bindP_runE)
    case (raised e)
    then show ?thesis using s get_document_outcome(1) by blast
  next
    case (returned a u)
    then have u: "u = s" by (auto dest: get_document_outcome(1))
    show ?thesis
    proof (cases a)
      case None
      with returned u s show ?thesis by simp
    next
      case (Some d)
      with returned get_document_outcome(2) have "d \<in> set (st_documents s)" "dc_id d = i" "\<not> dc_deleted d" by blast+
      from assms [OF this s] returned u Some show ?thesis by simp
    qed
  qed
qed

lemma keeps_case [keeps_rules]:
  "keeps I m \<Longrightarrow> (\<And>x. keeps I (f x)) \<Longrightarrow> keeps I (case z of None \<Rightarrow> m | Some x \<Rightarrow> f x)"
  by (simp split: option.splits)

lemma bind_ret_outcome: "bindP m (\<lambda>x. retP (g x)) s = (r, t) \<Longrightarrow> \<exists>r'. m s = (r', t)"
  by (elim bindP_runE) auto

lemma update_loaded_intact:
  assumes "d \<in> set (st_documents s)" and "\<not> dc_deleted d" and "intact begun s" and "update_loaded E data author d s = (r, t)"
  shows "intact begun t"
proof -
  from bind_ret_outcome [OF assms(4) [unfolded update_loaded_def]] obtain r' where
    "save_new_version E d (updated_by data d) (case author of None \<Rightarrow> dc_owner d | Some a \<Rightarrow> a) None s = (r', t)" ..
  from intact_loaded [OF _ _ _ assms(1-3) this] show ?thesis by (simp add: derived_def updated_by_def)
qed

lemma patched_by_simps [simp]:
  "dc_id (patched_by p d) = dc_id d" "dc_owner (patched_by p d) = dc_owner d" "dc_template (patched_by p d) = dc_template d"
  "dc_created (patched_by p d) = dc_created d" "dc_version (patched_by p d) = dc_version d" "dc_deleted (patched_by p d) = dc_deleted d"
  by (simp_all add: patched_by_def Let_def split: option.splits)

lemma patched_by_words: "dc_words d = word_count (dc_content d) \<Longrightarrow> dc_words (patched_by p d) = word_count (dc_content (patched_by p d))"
  by (simp add: patched_by_def Let_def word_count_def py_split_def split: option.splits)

lemma intact_words: "intact begun s \<Longrightarrow> d \<in> set (st_documents s) \<Longrightarrow> dc_words d = word_count (dc_content d)"
  by (simp add: intact_def wf_store_def documented_def)

lemma keeps_commit: "(\<And>s. intact begun s \<Longrightarrow> intact begun (f s)) \<Longrightarrow> keeps (intact begun) (commit E f)"
  by (rule keepsI) (auto dest!: commit_outcome intro: intact_tick)

lemma keeps_commit_nothing: "keeps (intact begun) (commit E (\<lambda>s. s))"
  by (rule keeps_same) (auto dest: commit_outcome)

lemma patch_loaded_intact:
  assumes "d \<in> set (st_documents s)" and "\<not> dc_deleted d" and "intact begun s" and "patch_loaded E p d s = (r, t)"
  shows "intact begun t"
proof (cases "patch_changes p")
  case True
  with assms(4) have "\<exists>r'. save_new_version E d (patched_by p d) (dc_owner d) None s = (r', t)"
    by (simp add: patch_loaded_def bind_ret_outcome)
  then obtain r' where "save_new_version E d (patched_by p d) (dc_owner d) None s = (r', t)" ..
  from intact_loaded [OF _ _ _ assms(1-3) this] intact_words [OF assms(3,1)] show ?thesis
    by (simp add: derived_def patched_by_words)
next
  case False
  have "keeps (intact begun) (thenP (commit E (\<lambda>s. s)) (bindP (refresh_document (dc_id d)) (\<lambda>row. retP (Some row))))"
    by (intro keeps_rules intact_rules keeps_commit_nothing)
  with assms False show ?thesis by (auto simp: patch_loaded_def elim!: keepsD)
qed

lemma delete_loaded_intact:
  assumes "d \<in> set (st_documents s)" and "\<not> dc_deleted d" and "intact begun s" and "delete_loaded E d s = (r, t)"
  shows "intact begun t"
  using assms(4) unfolding delete_loaded_def
proof (cases rule: bindP_runE)
  case (raised e)
  then show ?thesis using assms(3) by (auto dest: reading_same intro: intact_same)
next
  case (returned u w)
  then have w: "w = s\<lparr>st_tick := Suc (st_tick s)\<rparr>" by (auto simp: reading_def)
  have iw: "intact begun w" using intact_same [OF _ assms(3)] w by simp
  let ?d = "d\<lparr>dc_deleted := True, dc_updated := u\<rparr>"
  have flushed: "intact begun (put_document d ?d (w\<lparr>st_tick := n\<rparr>))" for n
    using assms(1,2) w intact_same [OF same_tables_refl(2) iw] by (intro intact_put) (auto simp: derived_def)
  from returned(2) show ?thesis
  proof (cases rule: thenP_runE)
    case (raised e)
    then show ?thesis using iw by (auto dest!: commit_outcome intro: intact_tick)
  next
    case (returned a x)
    then have "intact begun x" using flushed by (auto dest!: commit_outcome)
    moreover have "keeps (intact begun) (thenP (publish E ''document_deleted'' (Removed (dc_id d))) (retP True))"
      by (intro keeps_rules intact_rules)
    ultimately show ?thesis using returned(2) by (auto elim!: keepsD)
  qed
qed

lemma restore_loaded_intact:
  assumes "d \<in> set (st_documents s)" and "\<not> dc_deleted d" and "intact begun s" and "restore_loaded E vid d s = (r, t)"
  shows "intact begun t"
  using assms(4) unfolding restore_loaded_def
proof (cases rule: bindP_runE)
  case (raised e)
  then show ?thesis using assms(3) by (auto simp: bindP_eval dest: one_or_none_outcome)
next
  case (returned ver u)
  then have u: "u = s" by (auto simp: bindP_eval dest: one_or_none_outcome)
  show ?thesis
  proof (cases ver)
    case None
    with returned u assms(3) show ?thesis by simp
  next
    case (Some v)
    with returned(2) u have "\<exists>r'. save_new_version E d (restored_to v d) (dc_owner d) (Some vid) s = (r', t)"
      by (simp add: bind_ret_outcome)
    then obtain r' where "save_new_version E d (restored_to v d) (dc_owner d) (Some vid) s = (r', t)" ..
    from intact_loaded [OF _ _ _ assms(1-3) this] show ?thesis by (simp add: derived_def restored_to_def)
  qed
qed

lemma keeps_update [intact_rules]: "keeps (intact begun) (update_document E i data author)"
  unfolding update_document_def with_document_def by (rule keeps_loaded) (rule update_loaded_intact)

lemma keeps_patch [intact_rules]: "keeps (intact begun) (patch_document E i p)"
  unfolding patch_document_def with_document_def by (rule keeps_loaded) (rule patch_loaded_intact)

lemma keeps_restore [intact_rules]: "keeps (intact begun) (restore_version E i vid)"
  unfolding restore_version_def with_document_def by (rule keeps_loaded) (rule restore_loaded_intact)

lemma keeps_delete [intact_rules]: "keeps (intact begun) (delete_document E i)"
  unfolding delete_document_def by (rule keeps_loaded) (rule delete_loaded_intact)

text \<open>A row that no document or version depends on.\<close>

lemma intact_aside:
  assumes "intact begun s" and "st_documents t = st_documents s" and "st_versions t = st_versions s" and "st_cache t = st_cache s"
    and "st_rollups t = st_rollups s" and "distinct (map cm_id (st_comments t))" and "distinct (map tp_id (st_templates t))"
  shows "intact begun t"
proof (rule intactI [OF assms(1)])
  show "wf_store t" using assms by (simp add: intact_def wf_store_def documented_def versions_of_def)
  show "evolves s t" "st_cache t = st_cache s" "st_rollups t = st_rollups s" using assms by (auto simp: evolves_def)
qed

lemma intact_ids: "intact begun s \<Longrightarrow> distinct (map cm_id (st_comments s)) \<and> distinct (map tp_id (st_templates s))"
  by (simp add: intact_def wf_store_def)

lemma intact_columns:
  "intact begun s \<Longrightarrow> distinct (map cm_id cs) \<Longrightarrow> intact begun (s\<lparr>st_comments := cs\<rparr>)"
  "intact begun s \<Longrightarrow> distinct (map tp_id ts) \<Longrightarrow> intact begun (s\<lparr>st_templates := ts\<rparr>)"
  by (rule intact_aside, assumption, auto dest: intact_ids)+

text \<open>Storing a row under a key that was free.\<close>

lemma keeps_insert:
  assumes "\<And>s. intact begun s \<Longrightarrow> k \<notin> set (keys s) \<Longrightarrow> intact begun (f s)" and "\<And>s n. set (keys (s\<lparr>st_tick := n\<rparr>)) = set (keys s)"
    and "keeps (intact begun) m"
  shows "keeps (intact begun) (thenP (unused k keys) (thenP (commit E f) m))"
proof (rule keepsI)
  fix s r t
  assume s: "intact begun s" and run: "thenP (unused k keys) (thenP (commit E f) m) s = (r, t)"
  from run show "intact begun t"
  proof (cases rule: thenP_runE)
    case (raised e)
    then show ?thesis using s by (auto dest: unused_outcome)
  next
    case (returned a u)
    then have u: "u = s" and free: "k \<notin> set (keys s)" by (auto dest!: unused_outcome split: if_splits)
    from returned(2) show ?thesis
    proof (cases rule: thenP_runE)
      case (raised e)
      then show ?thesis using s u by (auto dest!: commit_outcome intro: intact_tick)
    next
      case (returned b w)
      with u have "w = f (s\<lparr>st_tick := Suc (st_tick s)\<rparr>)" by (auto dest: commit_outcome)
      then have "intact begun w" using assms(1,2) free intact_tick [OF s] by simp
      with assms(3) returned(2) show ?thesis by (auto elim: keepsD)
    qed
  qed
qed

lemma keeps_create_template [intact_rules]: "keeps (intact begun) (create_template E data)"
  unfolding create_template_def Let_def
  by (intro keeps_insert keeps_rules intact_rules) (auto intro!: intact_columns dest: intact_ids)

lemma keeps_add_comment [intact_rules]: "keeps (intact begun) (add_comment E i data)"
  unfolding add_comment_def with_document_def Let_def
  by (intro keeps_insert keeps_rules intact_rules) (auto intro!: intact_columns dest: intact_ids)

lemma keeps_delete_comment [intact_rules]: "keeps (intact begun) (delete_comment E i cid)"
  unfolding delete_comment_def
  by (intro keeps_rules intact_rules keeps_commit) (auto intro!: intact_columns dest: intact_ids simp: distinct_map_filter)

lemma keeps_reads [intact_rules]:
  "keeps (intact begun) (list_versions i)" "keeps (intact begun) (list_documents a b c d)" "keeps (intact begun) (search_documents E q c d)"
  "keeps (intact begun) (list_comments i)" "keeps (intact begun) list_templates" "keeps (intact begun) (get_template i)"
  unfolding list_versions_def list_documents_def search_documents_def list_comments_def list_templates_def get_template_def
  by (intro keeps_rules intact_rules)+

text \<open>A new document comes with its first version.\<close>

lemma intact_created:
  assumes "intact begun s" and "dc_id d \<notin> dc_id ` set (st_documents s)" and "dv_id v \<notin> dv_id ` set (st_versions s)"
    and "version_row v d author" and "dc_version d = 1" and "dc_words d = word_count (dc_content d)"
  shows "intact begun (put_version v (s\<lparr>st_documents := st_documents s @ [d]\<rparr>))"
proof (rule intactI [OF assms(1)])
  have "wf_store s" using assms(1) by (simp add: intact_def)
  then show "wf_store (put_version v (s\<lparr>st_documents := st_documents s @ [d]\<rparr>))"
    using assms(2-6) by (intro wf_add_document) (auto simp: version_row_def)
  show "evolves s (put_version v (s\<lparr>st_documents := st_documents s @ [d]\<rparr>))" by (auto simp: evolves_def)
qed (simp_all add: put_version_def)

text \<open>A new row and its version.\<close>

lemma find_append: "find P (xs @ ys) = (case find P xs of None \<Rightarrow> find P ys | Some x \<Rightarrow> Some x)"
  by (induction xs) auto

lemma insert_outcome:
  assumes "insert_document E d owner s = (r, t)"
  obtains (unstored) e where "r = Inl e" and "same_tables s t"
    | (stored) v where "dc_id d \<notin> dc_id ` set (st_documents s)" and "dv_id v \<notin> dv_id ` set (st_versions s)"
        and "version_row v d owner" and "same_tables (put_version v (s\<lparr>st_documents := st_documents s @ [d]\<rparr>)) t"
        and "\<And>row. r = Inr row \<Longrightarrow> row = d"
  using assms unfolding insert_document_def
proof (cases rule: thenP_runE)
  case (raised e)
  with unstored show ?thesis by (auto dest: fits_outcome)
next
  case (returned a w)
  then have "w = s" by (auto dest: fits_outcome)
  with returned(2) have run: "thenP (unused (dc_id d) (\<lambda>s. map dc_id (st_documents s)))
    (bindP (new_version E d owner) (\<lambda>v.
     thenP (unused (dv_id v) (\<lambda>s. map dv_id (st_versions s)))
    (thenP (commit E (\<lambda>s. put_version v (s\<lparr>st_documents := st_documents s @ [d]\<rparr>)))
    (bindP (refresh_document (dc_id d)) (\<lambda>row.
     thenP (publish E ''document_created'' (Indexed row None)) (retP row)))))) s = (r, t)" by simp
  then show ?thesis
  proof (cases rule: thenP_runE)
    case (raised e)
    with unstored show ?thesis by (auto dest: unused_outcome)
  next
    case (returned a u)
    then have u: "u = s" and free: "dc_id d \<notin> dc_id ` set (st_documents s)" by (auto dest!: unused_outcome split: if_splits)
    from returned(2) show ?thesis
    proof (cases rule: bindP_runE)
      case (raised e)
      then show ?thesis by (auto dest: new_version_outcome)
    next
      case (returned v x)
      then have x: "same_tables s x" and v: "version_row v d owner" using u by (auto dest: new_version_outcome)
      from returned(2) report_same show ?thesis
      proof (cases rule: store_version_outcome)
        case (unstored e)
        then show ?thesis using that(1) same_tables_trans [OF x] by blast
      next
        case (stored n)
        let ?f = "\<lambda>s. put_version v (s\<lparr>st_documents := st_documents s @ [d]\<rparr>)"
        have "same_tables (?f s) (?f (x\<lparr>st_tick := n\<rparr>))" using x by (simp add: same_tables_def put_version_def)
        then have t: "same_tables (?f s) t" using stored(2) by (rule same_tables_trans)
        have "dv_id v \<notin> dv_id ` set (st_versions s)" using stored(1) x by (simp add: same_tables_def)
        moreover have "row = d" if "r = Inr row" for row
        proof -
          have "find (\<lambda>e. dc_id e = dc_id d) (st_documents t) = Some row" using report_outcome [OF stored(3)] that by blast
          moreover have "st_documents t = st_documents s @ [d]" using t by (simp add: same_tables_def)
          moreover have "find (\<lambda>e. dc_id e = dc_id d) (st_documents s) = None"
            unfolding find_None_iff using free by (metis imageI)
          ultimately show ?thesis by (simp add: find_append)
        qed
        ultimately show ?thesis using that(2) free v t by blast
      qed
    qed
  qed
qed

lemma keeps_insert_document:
  assumes "dc_version d = 1" and "dc_words d = word_count (dc_content d)"
  shows "keeps (intact begun) (insert_document E d owner)"
proof (rule keepsI)
  fix s r t
  assume s: "intact begun s" and run: "insert_document E d owner s = (r, t)"
  from run show "intact begun t"
  proof (cases rule: insert_outcome)
    case (unstored e)
    from intact_same [OF unstored(2) s] show ?thesis .
  next
    case (stored v)
    from intact_same [OF stored(4) intact_created [OF s stored(1-3) assms]] show ?thesis .
  qed
qed

lemma keeps_create_document [intact_rules]: "keeps (intact begun) (create_document E data)"
  unfolding create_document_def Let_def by (intro keeps_rules intact_rules keeps_insert_document) simp_all

lemma keeps_create_from_template [intact_rules]: "keeps (intact begun) (create_from_template E tid data)"
  unfolding create_from_template_def by (intro keeps_rules intact_rules)

end
