(* ===== verification/Doc_Api.thy ===== *)
theory Doc_Api
  imports Doc_History
begin

text \<open>
  The HTTP handlers of the document service (\<open>app/api\<close>), with the services that only they use: share
  links (\<open>services/share_link.py\<close>), the render cache (\<open>services/render_cache.py\<close>), the export archive
  (\<open>services/export_archive.py\<close>) and the statements of the metadata filter
  (\<open>services/document_query_repository.py\<close>). A request is a value, \<open>serve\<close> answers it. Requests are
  served one after the other; \<open>Doc_Races\<close> looks at two that overlap. The injected latency only delays.
\<close>

section \<open>Who asks\<close>

record headers =
  rq_authorization :: "string option"
  rq_user_id :: "string option"

definition extract_user_id :: "doc_env \<Rightarrow> headers \<Rightarrow> uuid option" where
  "extract_user_id E rq = (case rq_authorization rq of
       None \<Rightarrow> None
     | Some auth \<Rightarrow>
         if \<not> py_startswith ''Bearer '' auth then None
         else if ev_secret E \<noteq> [] then
           (case ev_decode E (drop 7 auth) (ev_secret E) of
              None \<Rightarrow> None
            | Some (user, sub) \<Rightarrow> Option.bind (if user = None then sub else user) uuid_of)
         else
           (case rq_user_id rq of
              None \<Rightarrow> None
            | Some u \<Rightarrow> if u = [] then None else uuid_of u))"

definition require_user_id :: "doc_env \<Rightarrow> headers \<Rightarrow> uuid service" where
  "require_user_id E rq = (case extract_user_id E rq of
       None \<Rightarrow> raiseP (Http 401 ''Authentication required'')
     | Some u \<Rightarrow> retP u)"

definition ensure_owner :: "document \<Rightarrow> uuid \<Rightarrow> unit service" where
  "ensure_owner d u = (if dc_owner d \<noteq> u then raiseP (Http 403 ''Access denied'') else retP ())"

definition found_or_404 :: "string \<Rightarrow> 'a option \<Rightarrow> 'a service" where
  "found_or_404 detail r = (case r of None \<Rightarrow> raiseP (Http 404 detail) | Some x \<Rightarrow> retP x)"

text \<open>The response model rejects a missing value.\<close>

definition found_or_crash :: "'a option \<Rightarrow> 'a service" where
  "found_or_crash r = (case r of None \<Rightarrow> raiseP (Crash ''ResponseValidationError'') | Some x \<Rightarrow> retP x)"

text \<open>A body or parameter that the request model rejects.\<close>

definition valid_request :: "bool \<Rightarrow> unit service" where
  "valid_request b = (if b then retP () else raiseP (Http 422 ''''))"

text \<open>The steps that the handlers of one document begin with.\<close>

definition owned_document :: "doc_env \<Rightarrow> headers \<Rightarrow> string \<Rightarrow> uuid \<Rightarrow> document service" where
  "owned_document E rq detail i =
     bindP (require_user_id E rq) (\<lambda>u.
     bindP (get_document i) (\<lambda>r.
     bindP (found_or_404 detail r) (\<lambda>d.
     thenP (ensure_owner d u) (retP d))))"

section \<open>Listings\<close>

record listing =
  ls_items :: "document list"
  ls_total :: nat
  ls_page :: nat
  ls_limit :: nat
  ls_pages :: nat

definition listing_of :: "document list \<Rightarrow> nat \<Rightarrow> nat \<Rightarrow> nat \<Rightarrow> listing" where
  "listing_of items n page limit =
     \<lparr>ls_items = items, ls_total = n, ls_page = page, ls_limit = limit, ls_pages = paginate n limit\<rparr>"

definition page_ok :: "nat \<Rightarrow> nat \<Rightarrow> bool" where
  "page_ok page limit \<longleftrightarrow> 1 \<le> page \<and> 1 \<le> limit \<and> limit \<le> 100"

definition api_search :: "doc_env \<Rightarrow> string \<Rightarrow> nat \<Rightarrow> nat \<Rightarrow> listing service" where
  "api_search E q page limit =
     thenP (valid_request (q \<noteq> [] \<and> page_ok page limit))
    (bindP (search_documents E q page limit) (\<lambda>r. retP (listing_of (fst r) (snd r) page limit)))"

text \<open>The statements of the metadata filter, as text.\<close>

definition quoted :: "string \<Rightarrow> string" where
  "quoted s = CHR 0x27 # s @ [CHR 0x27]"

text \<open>A condition is left out for a value that is missing or empty.\<close>

definition clause :: "(string \<Rightarrow> string) \<Rightarrow> string option \<Rightarrow> string list" where
  "clause f v = (case v of None \<Rightarrow> [] | Some x \<Rightarrow> if x = [] then [] else [f x])"

definition where_text :: "string option \<Rightarrow> string option \<Rightarrow> string option \<Rightarrow> string option \<Rightarrow> string" where
  "where_text owner title ctype folder =
     py_join '' AND ''
       ([''is_deleted = false'', ''is_template = false'']
        @ clause (\<lambda>x. ''owner_id = '' @ quoted x) owner
        @ clause (\<lambda>x. ''folder_id = '' @ quoted x) folder
        @ clause (\<lambda>x. ''lower(title) LIKE lower('' @ quoted (''%'' @ x @ ''%'') @ '')'') title
        @ clause (\<lambda>x. ''content_type = '' @ quoted x) ctype)"

definition count_text :: "string option \<Rightarrow> string option \<Rightarrow> string option \<Rightarrow> string option \<Rightarrow> string" where
  "count_text owner title ctype folder = ''SELECT count(*) FROM documents WHERE '' @ where_text owner title ctype folder"

definition columns :: "string list" where
  "columns = [''id'', ''title'', ''content'', ''content_type'', ''owner_id'', ''folder_id'', ''is_deleted'', ''is_template'',
     ''word_count'', ''version'', ''created_at'', ''updated_at'']"

definition select_text ::
  "string option \<Rightarrow> string option \<Rightarrow> string option \<Rightarrow> string option \<Rightarrow> string \<Rightarrow> string \<Rightarrow> nat \<Rightarrow> nat \<Rightarrow> string" where
  "select_text owner title ctype folder sortby direction limit offset =
     ''SELECT '' @ py_join '', '' columns @ '' FROM documents WHERE '' @ where_text owner title ctype folder
     @ '' ORDER BY '' @ sortby @ '' '' @ direction @ '' LIMIT '' @ str_nat limit @ '' OFFSET '' @ str_nat offset"

record filter_query =
  fq_owner :: "uuid option"
  fq_folder :: "uuid option"
  fq_title :: "string option"
  fq_type :: "string option"
  fq_sort :: string
  fq_direction :: string
  fq_page :: nat
  fq_limit :: nat

text \<open>The handler never commits, so what a statement changes is rolled back with its session.\<close>

definition run_text :: "(store \<Rightarrow> 'a option) \<Rightarrow> 'a service" where
  "run_text f = bindP (getP f) (\<lambda>r. case r of None \<Rightarrow> raiseP (Http 400 ''Invalid filter'') | Some x \<Rightarrow> retP x)"

definition filter_documents :: "doc_env \<Rightarrow> uuid option \<Rightarrow> filter_query \<Rightarrow> listing service" where
  "filter_documents E owner fq =
     (let o_text = map_option str_uuid owner; f_text = map_option str_uuid (fq_folder fq) in
      bindP (run_text (ev_count E (count_text o_text (fq_title fq) (fq_type fq) f_text))) (\<lambda>n.
      bindP (run_text (ev_select E (select_text o_text (fq_title fq) (fq_type fq) f_text (fq_sort fq) (fq_direction fq)
               (fq_limit fq) ((fq_page fq - 1) * fq_limit fq)))) (\<lambda>rows.
      retP (listing_of rows n (fq_page fq) (fq_limit fq)))))"

definition is_filtered :: "filter_query \<Rightarrow> bool" where
  "is_filtered fq \<longleftrightarrow> fq_title fq \<noteq> None \<or> fq_type fq \<noteq> None \<or> fq_sort fq \<noteq> ''updated_at'' \<or> fq_direction fq \<noteq> ''desc''"

definition api_list :: "doc_env \<Rightarrow> headers \<Rightarrow> filter_query \<Rightarrow> listing service" where
  "api_list E rq fq =
     thenP (valid_request (page_ok (fq_page fq) (fq_limit fq)))
     (let owner = (if fq_owner fq = None then extract_user_id E rq else fq_owner fq) in
      if is_filtered fq then filter_documents E owner fq
      else bindP (list_documents owner (fq_folder fq) (fq_page fq) (fq_limit fq)) (\<lambda>r.
        retP (listing_of (map fst (fst r)) (snd r) (fq_page fq) (fq_limit fq))))"

section \<open>One document\<close>

definition api_create :: "doc_env \<Rightarrow> headers \<Rightarrow> doc_create \<Rightarrow> document service" where
  "api_create E rq body =
     thenP (valid_request (title_ok (cr_title body)))
     (case cr_owner body of
        Some u \<Rightarrow> create_document E body
      | None \<Rightarrow> (case extract_user_id E rq of
            None \<Rightarrow> raiseP (Http 401 ''owner_id is required: provide it in the body or authenticate via JWT'')
          | Some u \<Rightarrow> create_document E (body\<lparr>cr_owner := Some u\<rparr>)))"

definition api_get :: "doc_env \<Rightarrow> headers \<Rightarrow> uuid \<Rightarrow> document service" where
  "api_get E rq i = owned_document E rq ''Document not found'' i"

definition api_update :: "doc_env \<Rightarrow> headers \<Rightarrow> uuid \<Rightarrow> doc_update \<Rightarrow> document service" where
  "api_update E rq i body =
     thenP (valid_request (title_ok (up_title body)))
    (thenP (owned_document E rq ''Document not found'' i)
    (bindP (update_document E i body None) found_or_crash))"

definition api_patch :: "doc_env \<Rightarrow> headers \<Rightarrow> uuid \<Rightarrow> doc_patch \<Rightarrow> document service" where
  "api_patch E rq i body =
     thenP (valid_request (patch_ok body))
    (thenP (owned_document E rq ''Document not found'' i)
    (bindP (patch_document E i body) found_or_crash))"

definition api_delete :: "doc_env \<Rightarrow> headers \<Rightarrow> uuid \<Rightarrow> unit service" where
  "api_delete E rq i =
     thenP (owned_document E rq ''Document not found'' i) (bindP (delete_document E i) (\<lambda>_. retP ()))"

definition api_versions :: "doc_env \<Rightarrow> headers \<Rightarrow> uuid \<Rightarrow> doc_version list service" where
  "api_versions E rq i = thenP (owned_document E rq ''Document not found'' i) (list_versions i)"

definition api_restore :: "doc_env \<Rightarrow> headers \<Rightarrow> uuid \<Rightarrow> uuid \<Rightarrow> document service" where
  "api_restore E rq i vid =
     thenP (owned_document E rq ''Document or version not found'' i)
    (bindP (restore_version E i vid) (found_or_404 ''Document or version not found''))"

definition api_from_template :: "doc_env \<Rightarrow> uuid \<Rightarrow> from_template \<Rightarrow> document service" where
  "api_from_template E tid body =
     thenP (valid_request (title_ok (fm_title body)))
    (bindP (create_from_template E tid body) (found_or_404 ''Template not found''))"

section \<open>Share links\<close>

definition mint_token :: "doc_env \<Rightarrow> string \<Rightarrow> string" where
  "mint_token E i = take 16 (ev_md5 E (i @ '':'' @ ev_salt E))"

definition verify_token :: "doc_env \<Rightarrow> string \<Rightarrow> string \<Rightarrow> bool" where
  "verify_token E i token \<longleftrightarrow> mint_token E i = token"

definition api_share :: "doc_env \<Rightarrow> headers \<Rightarrow> uuid \<Rightarrow> (string \<times> string) service" where
  "api_share E rq i =
     thenP (owned_document E rq ''Document not found'' i) (retP (str_uuid i, mint_token E (str_uuid i)))"

definition api_shared :: "doc_env \<Rightarrow> uuid \<Rightarrow> string \<Rightarrow> document service" where
  "api_shared E i token =
     thenP (valid_request (token \<noteq> []))
     (if \<not> verify_token E (str_uuid i) token then raiseP (Http 403 ''Invalid share token'')
      else bindP (get_document i) (found_or_404 ''Document not found''))"

section \<open>Exports\<close>

definition cache_get :: "document \<Rightarrow> export_format \<Rightarrow> store \<Rightarrow> (string \<times> string) option" where
  "cache_get d fmt s = (case map_of (st_cache s) (dc_id d, dc_version d, fmt) of
       None \<Rightarrow> None
     | Some (body, ctype, _) \<Rightarrow> Some (body, ctype))"

definition cache_put :: "document \<Rightarrow> export_format \<Rightarrow> string \<times> string \<Rightarrow> store \<Rightarrow> store" where
  "cache_put d fmt r s = s\<lparr>st_cache := AList.update (dc_id d, dc_version d, fmt)
     (fst r, snd r, (dc_title d, dc_content d)) (st_cache s)\<rparr>"

definition api_export :: "doc_env \<Rightarrow> headers \<Rightarrow> uuid \<Rightarrow> export_format \<Rightarrow> (string \<times> string) service" where
  "api_export E rq i fmt =
     bindP (owned_document E rq ''Document not found'' i) (\<lambda>d.
     bindP (reading (ev_cache_flag E)) (\<lambda>flag.
     if flag then
       bindP (getP (cache_get d fmt)) (\<lambda>hit. case hit of
           Some r \<Rightarrow> retP r
         | None \<Rightarrow> thenP (modP (cache_put d fmt (export_document d fmt))) (retP (export_document d fmt)))
     else retP (export_document d fmt)))"

text \<open>\<open>os.path.join\<close> of two parts\<close>

definition archive_path :: "string \<Rightarrow> string \<Rightarrow> string" where
  "archive_path a b =
     (if py_startswith ''/'' b then b else if a = [] \<or> last a = CHR ''/'' then a @ b else a @ ''/'' @ b)"

definition api_read_export :: "doc_env \<Rightarrow> string \<Rightarrow> string service" where
  "api_read_export E name =
     thenP (valid_request (name \<noteq> []))
     (found_or_404 ''Export not found'' (ev_file E (archive_path (ev_archive E) name)))"

section \<open>Comments and templates\<close>

definition api_add_comment :: "doc_env \<Rightarrow> uuid \<Rightarrow> comment_create \<Rightarrow> doc_comment service" where
  "api_add_comment E i body =
     thenP (valid_request (cc_content body \<noteq> []))
    (bindP (add_comment E i body) (found_or_404 ''Document not found''))"

definition api_delete_comment :: "doc_env \<Rightarrow> uuid \<Rightarrow> uuid \<Rightarrow> unit service" where
  "api_delete_comment E i cid =
     bindP (delete_comment E i cid) (\<lambda>gone. if gone then retP () else raiseP (Http 404 ''Comment not found''))"

definition template_ok :: "template_create \<Rightarrow> bool" where
  "template_ok b \<longleftrightarrow> title_ok (tq_name b)"

definition api_create_template :: "doc_env \<Rightarrow> template_create \<Rightarrow> doc_template service" where
  "api_create_template E body = thenP (valid_request (template_ok body)) (create_template E body)"

section \<open>Requests\<close>

datatype api_request =
    CreateDoc headers doc_create
  | SearchDocs string nat nat
  | ReadExport string
  | GetShared uuid string
  | ListDocs headers filter_query
  | GetDoc headers uuid
  | UpdateDoc headers uuid doc_update
  | PatchDoc headers uuid doc_patch
  | DeleteDoc headers uuid
  | ListVersions headers uuid
  | RestoreVersion headers uuid uuid
  | ShareDoc headers uuid
  | ExportDoc headers uuid export_format
  | FromTemplate uuid from_template
  | AddComment uuid comment_create
  | ListComments uuid
  | DeleteComment uuid uuid
  | ListTemplates
  | CreateTemplate template_create

datatype response =
    Doc document
  | Listing listing
  | Versions "doc_version list"
  | Token "string \<times> string"
  | Body string string
  | Plain string
  | Comment doc_comment
  | Comments "doc_comment list"
  | Template doc_template
  | Templates "doc_template list"
  | NoContent

definition answer :: "('a \<Rightarrow> response) \<Rightarrow> 'a service \<Rightarrow> response service" where
  "answer f m = bindP m (\<lambda>x. retP (f x))"

fun serve :: "doc_env \<Rightarrow> api_request \<Rightarrow> response service" where
  "serve E (CreateDoc rq body) = answer Doc (api_create E rq body)"
| "serve E (SearchDocs q page limit) = answer Listing (api_search E q page limit)"
| "serve E (ReadExport name) = answer Plain (api_read_export E name)"
| "serve E (GetShared i token) = answer Doc (api_shared E i token)"
| "serve E (ListDocs rq fq) = answer Listing (api_list E rq fq)"
| "serve E (GetDoc rq i) = answer Doc (api_get E rq i)"
| "serve E (UpdateDoc rq i body) = answer Doc (api_update E rq i body)"
| "serve E (PatchDoc rq i body) = answer Doc (api_patch E rq i body)"
| "serve E (DeleteDoc rq i) = answer (\<lambda>_. NoContent) (api_delete E rq i)"
| "serve E (ListVersions rq i) = answer Versions (api_versions E rq i)"
| "serve E (RestoreVersion rq i vid) = answer Doc (api_restore E rq i vid)"
| "serve E (ShareDoc rq i) = answer Token (api_share E rq i)"
| "serve E (ExportDoc rq i fmt) = answer (\<lambda>r. Body (fst r) (snd r)) (api_export E rq i fmt)"
| "serve E (FromTemplate tid body) = answer Doc (api_from_template E tid body)"
| "serve E (AddComment i body) = answer Comment (api_add_comment E i body)"
| "serve E (ListComments i) = answer Comments (list_comments i)"
| "serve E (DeleteComment i cid) = answer (\<lambda>_. NoContent) (api_delete_comment E i cid)"
| "serve E ListTemplates = answer Templates list_templates"
| "serve E (CreateTemplate body) = answer Template (api_create_template E body)"

end
