(* ===== verification/Doc_Samples.thy ===== *)
theory Doc_Samples
  imports Doc_Api
begin

text \<open>
  A small run of the document service, on which the theorems are applied: one owner, one document with
  two versions, and the readings of the outside world that lead to it.
\<close>

definition sample_env :: doc_env where
  "sample_env = \<lparr>ev_uuid = (\<lambda>n. word_of_int (int n)), ev_clock = (\<lambda>n. n), ev_commit_fails = (\<lambda>_. False), ev_sns_enabled = True,
     ev_publish_fails = (\<lambda>_. False), ev_fold = lower_char, ev_secret = [], ev_decode = (\<lambda>_ _. None), ev_salt = ''salt'',
     ev_md5 = (\<lambda>t. t), ev_cache_flag = (\<lambda>_. True), ev_archive = ''/exports'', ev_file = (\<lambda>_. None),
     ev_count = (\<lambda>_ _. None), ev_select = (\<lambda>_ _. None)\<rparr>"

definition headers_for :: "uuid \<Rightarrow> headers" where
  "headers_for u = \<lparr>rq_authorization = Some ''Bearer x'', rq_user_id = Some (str_uuid u)\<rparr>"

definition sample_create :: api_request where
  "sample_create = CreateDoc (headers_for 77) \<lparr>cr_title = ''plan'', cr_content = ''50% of it'', cr_content_type = ''text/markdown'',
     cr_owner = None, cr_folder = None\<rparr>"

definition sample_body :: "string \<Rightarrow> doc_update" where
  "sample_body c = \<lparr>up_title = ''plan'', up_content = c, up_content_type = ''text/markdown'', up_folder = None\<rparr>"

definition sample_update :: api_request where
  "sample_update = UpdateDoc (headers_for 77) 0 (sample_body ''all of it'')"

definition created_doc :: document where
  "created_doc = \<lparr>dc_id = 0, dc_title = ''plan'', dc_content = ''50% of it'', dc_content_type = ''text/markdown'', dc_owner = 77,
     dc_folder = None, dc_deleted = False, dc_template = False, dc_words = 3, dc_version = 1, dc_created = 1, dc_updated = 2\<rparr>"

definition sample_doc :: document where
  "sample_doc = created_doc\<lparr>dc_content := ''all of it'', dc_version := 2, dc_updated := 7\<rparr>"

definition sample_version :: "uuid \<Rightarrow> nat \<Rightarrow> string \<Rightarrow> nat \<Rightarrow> doc_version" where
  "sample_version i n c k = \<lparr>dv_id = i, dv_document = 0, dv_number = n, dv_title = ''plan'', dv_content = c, dv_created_by = 77, dv_created = k\<rparr>"

definition created_store :: store where
  "created_store = empty_store\<lparr>st_documents := [created_doc], st_versions := [sample_version 3 1 ''50% of it'' 4],
     st_events := [(''document_created'', Indexed created_doc None)], st_tick := 7\<rparr>"

definition sample_store :: store where
  "sample_store = empty_store\<lparr>st_documents := [sample_doc],
     st_versions := [sample_version 3 1 ''50% of it'' 4, sample_version 8 2 ''all of it'' 9],
     st_events := [(''document_created'', Indexed created_doc None), (''document_updated'', Indexed sample_doc None)],
     st_tick := 12\<rparr>"

text \<open>The two requests lead there.\<close>

lemma sample_runs:
  "serve sample_env sample_create empty_store = (Inr (Doc created_doc), created_store)"
  "serve sample_env sample_update created_store = (Inr (Doc sample_doc), sample_store)"
  by code_simp+

lemma run_returns: "\<not> isl (fst p) \<Longrightarrow> p = (Inr (projr (fst p)), snd p)"
  by (cases p) (auto simp: isl_def split: sum.splits)

lemma sample_facts:
  "st_documents sample_store = [sample_doc]" "dc_owner sample_doc = 77" "dc_id sample_doc = 0" "dc_version sample_doc = 2"
  "dc_content sample_doc = ''all of it''"
  "versions_of sample_store 0 = [sample_version 3 1 ''50% of it'' 4, sample_version 8 2 ''all of it'' 9]"
  by (simp_all add: sample_store_def sample_doc_def created_doc_def versions_of_def sample_version_def)

end
