(* ===== verification/Doc_Rollup.thy ===== *)
theory Doc_Rollup
  imports Doc_History
begin

text \<open>
  The scheduled rollup of the document service (\<open>app/jobs/stats_rollup.py\<close>): the window that an instant
  belongs to, the row that a host writes for it, the count of windows with more than one row, and the
  delay to the next firing. Instants are microseconds; the name of the host is an argument. The
  identifier and the creation time of a rollup row, which nothing reads, are left out.
\<close>

section \<open>Windows\<close>

text \<open>\<open>int(now.timestamp())\<close>, aligned to the interval (in seconds)\<close>

definition current_window :: "int \<Rightarrow> int \<Rightarrow> int" where
  "current_window interval now = (let epoch = now div 1000000 in epoch - epoch mod interval)"

text \<open>\<open>interval - (time.time() % interval) + 2\<close>, in microseconds\<close>

definition fire_delay :: "int \<Rightarrow> int \<Rightarrow> int" where
  "fire_delay interval now = interval * 1000000 - now mod (interval * 1000000) + 2 * 1000000"

section \<open>Rows\<close>

definition own_rollup :: "string \<Rightarrow> int \<Rightarrow> rollup option service" where
  "own_rollup host w =
     bindP (getP (\<lambda>s. filter (\<lambda>r. rl_window r = w \<and> rl_host r = host) (st_rollups s))) one_or_none"

definition rollup_row :: "string \<Rightarrow> int \<Rightarrow> store \<Rightarrow> rollup" where
  "rollup_row host w s = (let live = filter (\<lambda>d. \<not> dc_deleted d) (st_documents s) in
     \<lparr>rl_window = w, rl_documents = length live, rl_versions = length (st_versions s),
      rl_words = sum_list (map dc_words live), rl_host = host\<rparr>)"

definition compute_rollup :: "doc_env \<Rightarrow> string \<Rightarrow> int \<Rightarrow> rollup service" where
  "compute_rollup E host w =
     bindP (own_rollup host w) (\<lambda>own. case own of
       Some row \<Rightarrow> retP row
     | None \<Rightarrow> bindP (getP (rollup_row host w)) (\<lambda>row.
         thenP (commit E (\<lambda>s. s\<lparr>st_rollups := st_rollups s @ [row]\<rparr>)) (retP row)))"

text \<open>\<open>GROUP BY window_start HAVING count(*) > 1\<close>, and the number of groups\<close>

definition duplicate_windows :: "int \<Rightarrow> nat service" where
  "duplicate_windows since = getP (\<lambda>s.
     let ws = map rl_window (filter (\<lambda>r. since \<le> rl_window r) (st_rollups s)) in
     length (filter (\<lambda>w. 1 < count_list ws w) (remdups ws)))"

text \<open>The outcome of a run: whether the rollup succeeded, and then the gauge of duplicate windows.\<close>

definition run_once :: "doc_env \<Rightarrow> string \<Rightarrow> int \<Rightarrow> int \<Rightarrow> (bool \<times> nat option) service" where
  "run_once E host interval now =
     (let w = current_window interval now in
      bindP (tryP (bindP (compute_rollup E host w) (\<lambda>_. retP True)) (\<lambda>_. retP False)) (\<lambda>ok.
      if ok then bindP (duplicate_windows (w - 3600)) (\<lambda>n. retP (True, Some n)) else retP (False, None)))"

section \<open>Alignment\<close>

lemma window_aligned:
  assumes "0 < interval"
  shows "interval dvd current_window interval now" and "current_window interval now * 1000000 \<le> now"
    and "now < (current_window interval now + interval) * 1000000"
proof -
  let ?e = "now div 1000000"
  have e: "?e * 1000000 \<le> now" "now < (?e + 1) * 1000000" by presburger+
  have m: "0 \<le> ?e mod interval" "?e mod interval < interval" using assms by auto
  show "interval dvd current_window interval now" by (simp add: current_window_def Let_def minus_mod_eq_mult_div)
  show "current_window interval now * 1000000 \<le> now" using e(1) m by (simp add: current_window_def Let_def algebra_simps)
  show "now < (current_window interval now + interval) * 1000000"
    using e(2) m by (simp add: current_window_def Let_def algebra_simps)
qed

text \<open>The job sleeps into the next window, two seconds after its start, whenever it is started.\<close>

theorem fire_next_window:
  assumes "2 < interval"
  shows "current_window interval (now + fire_delay interval now) = current_window interval now + interval"
proof -
  let ?i = "interval * 1000000"
  let ?k = "now div ?i"
  have i: "0 < ?i" using assms by simp
  have "now + fire_delay interval now = (?k + 1) * ?i + 2 * 1000000"
    using div_mult_mod_eq [of now ?i] by (simp add: fire_delay_def algebra_simps)
  also have "\<dots> = ((?k + 1) * interval + 2) * 1000000" by (simp add: algebra_simps)
  finally have "(now + fire_delay interval now) div 1000000 = (?k + 1) * interval + 2" by simp
  moreover have "((?k + 1) * interval + 2) mod interval = 2" using assms by simp
  ultimately have "current_window interval (now + fire_delay interval now) = (?k + 1) * interval"
    by (simp add: current_window_def Let_def)
  moreover have "current_window interval now = ?k * interval"
  proof -
    have "now div 1000000 div interval = ?k" using zdiv_zmult2_eq [of interval now 1000000] assms
      by (simp add: mult.commute)
    then show ?thesis by (simp add: current_window_def Let_def minus_mod_eq_div_mult)
  qed
  ultimately show ?thesis by (simp add: algebra_simps)
qed

theorem fire_next_window_witness: "current_window 60 (1000000007 + fire_delay 60 1000000007) = current_window 60 1000000007 + 60"
  by (rule fire_next_window) simp

section \<open>Rows per window\<close>

definition one_row_each :: "store \<Rightarrow> bool" where
  "one_row_each s \<longleftrightarrow> distinct (map (\<lambda>r. (rl_window r, rl_host r)) (st_rollups s))"

lemma own_rollup_outcome:
  assumes "own_rollup host w s = (r, t)"
  shows "t = s" and "r = Inr None \<Longrightarrow> (w, host) \<notin> (\<lambda>r. (rl_window r, rl_host r)) ` set (st_rollups s)"
    and "\<And>row. r = Inr (Some row) \<Longrightarrow> row \<in> set (st_rollups s) \<and> rl_window row = w \<and> rl_host row = host"
proof -
  let ?own = "filter (\<lambda>r. rl_window r = w \<and> rl_host r = host) (st_rollups s)"
  have run: "one_or_none ?own s = (r, t)" using assms by (simp add: own_rollup_def bindP_eval)
  from one_or_none_outcome [OF this] show "t = s" by simp
  show "(w, host) \<notin> (\<lambda>r. (rl_window r, rl_host r)) ` set (st_rollups s)" if "r = Inr None"
    using one_or_none_outcome [OF run] that by (auto simp: filter_empty_conv)
  show "row \<in> set (st_rollups s) \<and> rl_window row = w \<and> rl_host row = host" if "r = Inr (Some row)" for row
  proof -
    have "?own = [row]" using one_or_none_outcome [OF run] that by simp
    then have "row \<in> set ?own" by simp
    then show ?thesis by simp
  qed
qed

lemma rollup_outcome:
  assumes "compute_rollup E host w s = (r, t)"
  shows "(\<exists>n. t = s\<lparr>st_tick := n\<rparr>) \<or>
    ((w, host) \<notin> (\<lambda>r. (rl_window r, rl_host r)) ` set (st_rollups s) \<and>
     (\<exists>n. t = s\<lparr>st_tick := n, st_rollups := st_rollups s @ [rollup_row host w s]\<rparr>))"
  using assms unfolding compute_rollup_def
proof (cases rule: bindP_runE)
  case (raised e)
  then have "t = s" by (rule_tac own_rollup_outcome(1))
  then show ?thesis by (intro disjI1 exI [of _ "st_tick s"]) simp
next
  case (returned own u)
  then have u: "u = s" by (auto dest: own_rollup_outcome(1))
  show ?thesis
  proof (cases own)
    case (Some row)
    with returned(2) u have "t = s" by simp
    then show ?thesis by (intro disjI1 exI [of _ "st_tick s"]) simp
  next
    case None
    then have "(w, host) \<notin> (\<lambda>r. (rl_window r, rl_host r)) ` set (st_rollups s)"
      using returned(1) own_rollup_outcome(2) by blast
    with returned(2) u None show ?thesis
      by (auto simp: bindP_eval thenP_eval dest!: commit_outcome split: prod.splits sum.splits)
  qed
qed

lemma rollup_keeps_one_row: "keeps one_row_each (compute_rollup E host w)"
proof (rule keepsI)
  fix s r t
  assume "one_row_each s" and "compute_rollup E host w s = (r, t)"
  then show "one_row_each t" using rollup_outcome [of E host w s r t] by (auto simp: one_row_each_def rollup_row_def Let_def)
qed

end
