(* ===== verification/Doc_Api_Facts.thy ===== *)
theory Doc_Api_Facts
  imports Doc_Samples Doc_Rollup
begin

text \<open>
  What the requests of the document service guarantee, one after the other from an empty database: the
  tables and the render cache stay intact, only its owner changes a document, an export is the current
  content whether it comes from the cache or not, and deleted documents are gone for every reader.
\<close>

section \<open>Every request keeps the tables intact\<close>

lemma owned_outcome:
  assumes "owned_document E rq detail i s = (r, t)"
  shows "t = s" and "\<And>d. r = Inr d \<Longrightarrow> d \<in> set (st_documents s) \<and> dc_id d = i \<and> \<not> dc_deleted d \<and> extract_user_id E rq = Some (dc_owner d)"
proof -
  have "t = s \<and> (\<forall>d. r = Inr d \<longrightarrow> d \<in> set (st_documents s) \<and> dc_id d = i \<and> \<not> dc_deleted d \<and> extract_user_id E rq = Some (dc_owner d))"
    using assms unfolding owned_document_def require_user_id_def found_or_404_def ensure_owner_def
    by (elim bindP_runE thenP_runE)
      (auto split: option.splits if_splits dest: get_document_outcome)
  then show "t = s" and "\<And>d. r = Inr d \<Longrightarrow> d \<in> set (st_documents s) \<and> dc_id d = i \<and> \<not> dc_deleted d \<and> extract_user_id E rq = Some (dc_owner d)"
    by auto
qed

lemma keeps_owned [intact_rules]: "keeps (intact begun) (owned_document E rq detail i)"
  by (rule keepsI) (auto dest: owned_outcome(1))

lemma keeps_plain [intact_rules]:
  "keeps (intact begun) (found_or_404 detail r)" "keeps (intact begun) (found_or_crash r)" "keeps (intact begun) (valid_request b)"
  "keeps (intact begun) (run_text f)"
  unfolding found_or_404_def found_or_crash_def valid_request_def run_text_def by (intro keeps_rules | simp split: option.splits)+

lemma last_version:
  assumes "wf_store s" and "d \<in> set (st_documents s)"
  obtains v where "v \<in> set (st_versions s)" and "dv_document v = dc_id d" and "dv_number v = dc_version d"
    and "dv_title v = dc_title d" and "dv_content v = dc_content d"
proof -
  let ?vs = "versions_of s (dc_id d)"
  from assms have d: "documented s d" by (simp add: wf_store_def)
  then have ne: "?vs \<noteq> []" by (auto simp: documented_def)
  have "dv_number (last ?vs) = last (map dv_number ?vs)" using ne by (simp add: last_map)
  also have "\<dots> = dc_version d" using d by (auto simp: documented_def)
  finally have "dv_number (last ?vs) = dc_version d" .
  moreover have "last ?vs \<in> set ?vs" using ne by simp
  ultimately show ?thesis using that [of "last ?vs"] d by (auto simp: versions_of_def documented_def)
qed

lemma export_document_cong:
  "dc_title d = dc_title d' \<Longrightarrow> dc_content d = dc_content d' \<Longrightarrow> export_document d fmt = export_document d' fmt"
  by (simp add: export_document_def split: export_format.splits)

lemma entry_ok_cong: "st_versions t = st_versions s \<Longrightarrow> entry_ok t k r = entry_ok s k r"
  by (simp add: entry_ok_def)

lemma evolves_cong: "st_documents t = st_documents s \<Longrightarrow> st_versions t = st_versions s \<Longrightarrow> evolves b t = evolves b s"
  by (simp add: evolves_def)

lemma intact_cache_put:
  assumes "intact begun s" and "d \<in> set (st_documents s)"
  shows "intact begun (cache_put d fmt (export_document d fmt) s)"
proof -
  let ?t = "cache_put d fmt (export_document d fmt) s"
  have wf: "wf_store s" using assms(1) by (simp add: intact_def)
  then have "wf_store ?t" using wf_cong [of ?t s] by (simp add: cache_put_def update_conv')
  moreover have "evolves begun ?t" using assms(1) evolves_cong [of ?t s begun]
    by (simp add: intact_def cache_put_def)
  moreover have "cache_ok ?t"
  proof -
    from last_version [OF wf assms(2)] obtain v where v: "v \<in> set (st_versions s)" "dv_document v = dc_id d"
      "dv_number v = dc_version d" "dv_title v = dc_title d" "dv_content v = dc_content d" .
    have vs: "st_versions ?t = st_versions s" by (simp add: cache_put_def update_conv')
    obtain body ctype where r: "export_document d fmt = (body, ctype)" by (cases "export_document d fmt")
    then have same: "export_document x fmt = (body, ctype)" if "dc_title x = dv_title v" "dc_content x = dv_content v" for x
      using that v(4,5) export_document_cong [of x d fmt] by simp
    have new: "entry_ok s (dc_id d, dc_version d, fmt) (body, ctype, (dc_title d, dc_content d))"
      unfolding entry_ok_def prod.case using v same by (intro bexI [of _ v]) auto
    have "entry_ok s k r" if "map_of (st_cache ?t) k = Some r" for k r
    proof (cases "k = (dc_id d, dc_version d, fmt)")
      case True
      with that new r show ?thesis by (simp add: cache_put_def update_conv')
    next
      case False
      with that have "map_of (st_cache s) k = Some r" by (simp add: cache_put_def update_conv')
      with assms(1) show ?thesis unfolding intact_def cache_ok_def by blast
    qed
    then show ?thesis unfolding cache_ok_def entry_ok_cong [OF vs] by blast
  qed
  moreover have "st_rollups ?t = st_rollups begun" using assms(1) by (simp add: intact_def cache_put_def)
  ultimately show ?thesis by (simp add: intact_def)
qed

lemma keeps_export [intact_rules]: "keeps (intact begun) (api_export E rq i fmt)"
proof (rule keepsI)
  fix s r t
  assume s: "intact begun s" and run: "api_export E rq i fmt s = (r, t)"
  from run show "intact begun t" unfolding api_export_def
  proof (cases rule: bindP_runE)
    case (raised e)
    then show ?thesis using s by (auto dest: owned_outcome(1))
  next
    case (returned d u)
    then have u: "u = s" and d: "d \<in> set (st_documents s)" by (auto dest: owned_outcome)
    from intact_cache_put [OF intact_tick [OF s], of d] d
    have "intact begun (cache_put d fmt (export_document d fmt) (s\<lparr>st_tick := n\<rparr>))" for n by simp
    then show ?thesis using returned(2) u intact_tick [OF s]
      by (auto simp: bindP_eval thenP_eval reading_def split: if_splits option.splits)
  qed
qed

lemma keeps_answer [intact_rules]: "keeps (intact begun) m \<Longrightarrow> keeps (intact begun) (answer f m)"
  unfolding answer_def by (intro keeps_rules)

lemma serve_intact: "keeps (intact begun) (serve E q)"
  by (cases q)
    (auto intro!: keeps_rules intact_rules
       simp: api_create_def api_search_def api_read_export_def api_shared_def api_list_def Let_def filter_documents_def api_get_def
         api_update_def api_patch_def api_delete_def api_versions_def api_restore_def api_share_def api_from_template_def
         api_add_comment_def api_delete_comment_def api_create_template_def split: option.splits)

section \<open>Reachable databases\<close>

text \<open>Requests, runs of the rollup job and restarts, which empty the render cache, in any order.\<close>

inductive reached :: "doc_env \<Rightarrow> store \<Rightarrow> bool" for E where
  begun: "reached E empty_store"
| request: "reached E s \<Longrightarrow> serve E q s = (r, t) \<Longrightarrow> reached E t"
| rolled: "reached E s \<Longrightarrow> run_once E host interval now s = (res, t) \<Longrightarrow> reached E t"
| restarted: "reached E s \<Longrightarrow> reached E (s\<lparr>st_cache := []\<rparr>)"

lemma run_once_outcome:
  assumes "run_once E host interval now s = (r, t)"
  shows "\<exists>r'. compute_rollup E host (current_window interval now) s = (r', t)"
  using assms
  by (auto simp: run_once_def Let_def bindP_eval tryP_eval duplicate_windows_def split: prod.splits sum.splits if_splits)

definition sound :: "store \<Rightarrow> bool" where
  "sound s \<longleftrightarrow> wf_store s \<and> cache_ok s \<and> one_row_each s"

lemma sound_cong:
  assumes "sound s" and "st_documents t = st_documents s" and "st_versions t = st_versions s" and "st_comments t = st_comments s"
    and "st_templates t = st_templates s" and "st_cache t = st_cache s \<or> st_cache t = []" and "one_row_each t"
  shows "sound t"
proof -
  have "wf_store t" using assms(1-5) wf_cong [of t s] by (simp add: sound_def)
  moreover have "entry_ok t k r" if "map_of (st_cache t) k = Some r" for k r
  proof -
    have "map_of (st_cache s) k = Some r" using that assms(6) by auto
    then have "entry_ok s k r" using assms(1) unfolding sound_def cache_ok_def by blast
    then show ?thesis using entry_ok_cong [OF assms(3)] by simp
  qed
  ultimately show ?thesis using assms(7) unfolding sound_def cache_ok_def by blast
qed

lemma serve_step:
  assumes "sound s" and "serve E q s = (r, t)"
  shows "sound t" and "evolves s t"
proof -
  have "intact s s" using assms(1) by (simp add: intact_def sound_def)
  from keepsD [OF serve_intact this assms(2)] have t: "intact s t" .
  then show "sound t" using assms(1) by (simp add: intact_def sound_def one_row_each_def)
  show "evolves s t" using t by (simp add: intact_def)
qed

lemma rollup_step:
  assumes "sound s" and "compute_rollup E host w s = (r, t)"
  shows "sound t"
proof -
  have "one_row_each s" using assms(1) by (simp add: sound_def)
  from keepsD [OF rollup_keeps_one_row this assms(2)] have "one_row_each t" .
  then show ?thesis using rollup_outcome [OF assms(2)] by (auto intro!: sound_cong [OF assms(1)])
qed

lemma reached_sound: "reached E s \<Longrightarrow> sound s"
proof (induction rule: reached.induct)
  case begun
  then show ?case using wf_empty by (simp add: sound_def cache_ok_def one_row_each_def empty_store_def)
next
  case (request s q r t)
  then show ?case using serve_step(1) by blast
next
  case (rolled s host interval now res t)
  then show ?case using run_once_outcome rollup_step by blast
next
  case (restarted s)
  from restarted.IH have "one_row_each (s\<lparr>st_cache := []\<rparr>)" by (simp add: sound_def one_row_each_def)
  then show ?case by (rule_tac sound_cong [OF restarted.IH]) simp_all
qed

lemma sample_reached: "reached sample_env created_store" "reached sample_env sample_store"
  using reached.request [OF reached.begun sample_runs(1)] reached.request [OF _ sample_runs(2)] by blast+

text \<open>C4. In every reachable database the versions of a document are numbered from one without gaps up to its version, the last
  one holds its title and content, and the stored word count is that of the content.\<close>

theorem history_complete:
  assumes "reached E s" and "d \<in> set (st_documents s)"
  shows "map dv_number (versions_of s (dc_id d)) = [1..<Suc (dc_version d)] \<and>
    dv_title (last (versions_of s (dc_id d))) = dc_title d \<and> dv_content (last (versions_of s (dc_id d))) = dc_content d \<and>
    dc_words d = word_count (dc_content d)"
  using reached_sound [OF assms(1)] assms(2) by (auto simp: sound_def wf_store_def documented_def simp del: upt_Suc)

theorem history_complete_witness:
  "map dv_number (versions_of sample_store (dc_id sample_doc)) = [1..<Suc (dc_version sample_doc)] \<and>
    dv_title (last (versions_of sample_store (dc_id sample_doc))) = dc_title sample_doc \<and>
    dv_content (last (versions_of sample_store (dc_id sample_doc))) = dc_content sample_doc \<and>
    dc_words sample_doc = word_count (dc_content sample_doc)"
  by (rule history_complete [OF sample_reached(2)]) (simp add: sample_facts)

text \<open>C29. A request, whatever it returns, only appends versions and documents: no version changes or goes, a document keeps its
  place, owner and creation time, its version number never falls, and a deleted document is never changed again.\<close>

theorem requests_append:
  assumes "reached E s" and "serve E q s = (r, t)"
  shows "(\<exists>vs. st_versions t = st_versions s @ vs) \<and> (\<exists>is. map dc_id (st_documents t) = map dc_id (st_documents s) @ is) \<and>
    (\<forall>d \<in> set (st_documents s). \<exists>d' \<in> set (st_documents t).
       dc_id d' = dc_id d \<and> dc_owner d' = dc_owner d \<and> dc_created d' = dc_created d \<and> dc_version d \<le> dc_version d' \<and>
       (dc_deleted d \<longrightarrow> d' = d))"
  using serve_step(2) [OF reached_sound [OF assms(1)] assms(2)] by (simp add: evolves_def)

theorem requests_append_witness: "\<exists>vs. st_versions sample_store = st_versions created_store @ vs"
  using requests_append [OF sample_reached(1) sample_runs(2)] by blast

section \<open>Documents of others\<close>

definition undisturbed :: "document \<Rightarrow> doc_version list \<Rightarrow> store \<Rightarrow> bool" where
  "undisturbed x vs s \<longleftrightarrow> x \<in> set (st_documents s) \<and> versions_of s (dc_id x) = vs"

named_theorems calm_rules \<open>operations that leave a document undisturbed\<close>

lemma undisturbed_same: "same_tables s t \<Longrightarrow> undisturbed x vs s \<Longrightarrow> undisturbed x vs t"
  by (simp add: undisturbed_def same_tables_def versions_of_def)

lemma calm_same: "(\<And>s r t. m s = (r, t) \<Longrightarrow> same_tables s t) \<Longrightarrow> keeps (undisturbed x vs) m"
  by (auto intro!: keepsI intro: undisturbed_same)

lemma undisturbed_saved:
  assumes "undisturbed x vs s" and "dc_id x \<noteq> dc_id old" and "derived old d" and "saved s old d author t"
  shows "undisturbed x vs t"
proof -
  from assms(4) obtain v where v: "version_row v d author" and t: "same_tables (put_version v (put_document old d s)) t"
    by (auto simp: saved_def)
  have "x \<in> set (st_documents (put_document old d s))" using assms(1,2) by (force simp: put_document_def undisturbed_def)
  moreover have "dv_document v \<noteq> dc_id x" using v assms(2,3) by (simp add: version_row_def derived_def)
  ultimately have "undisturbed x vs (put_version v (put_document old d s))" using assms(1) by (simp add: undisturbed_def)
  with t show ?thesis by (rule undisturbed_same)
qed

lemma calm_save:
  assumes "dc_id x \<noteq> dc_id d" and "derived d new"
  shows "keeps (undisturbed x vs) (save_new_version E d new author restored)"
proof (rule keepsI)
  fix s r t
  assume s: "undisturbed x vs s" and run: "save_new_version E d new author restored s = (r, t)"
  from run show "undisturbed x vs t"
  proof (cases rule: save_outcome)
    case (unsaved e)
    from undisturbed_same [OF unsaved(2) s] show ?thesis .
  next
    case (saved u)
    have "derived d (new\<lparr>dc_version := dc_version new + 1, dc_updated := u\<rparr>)" using assms(2) by (simp add: derived_def)
    from undisturbed_saved [OF s assms(1) this saved(1)] show ?thesis .
  qed
qed

lemma calm_commit: "(\<And>s. undisturbed x vs s \<Longrightarrow> undisturbed x vs (f s)) \<Longrightarrow> keeps (undisturbed x vs) (commit E f)"
  by (rule keepsI) (auto dest!: commit_outcome simp: undisturbed_def versions_of_def)

lemma calm_loaded:
  assumes "dc_id x \<noteq> i" and "\<And>d. dc_id d = i \<Longrightarrow> keeps (undisturbed x vs) (f d)"
  shows "keeps (undisturbed x vs) (bindP (get_document i) (\<lambda>d. case d of None \<Rightarrow> retP z | Some x \<Rightarrow> f x))"
proof (rule keeps_loaded)
  fix d s r t
  assume "dc_id d = i" and "undisturbed x vs s" and "f d s = (r, t)"
  with assms(2) show "undisturbed x vs t" by (blast intro: keepsD)
qed

lemma calm_steps [calm_rules]:
  "keeps (undisturbed x vs) (reading f)" "keeps (undisturbed x vs) (publish E ty p)" "keeps (undisturbed x vs) (get_document i)"
  "keeps (undisturbed x vs) (refresh_document i)" "keeps (undisturbed x vs) (unused k keys)"
  "keeps (undisturbed x vs) (fits_columns a b)" "keeps (undisturbed x vs) (one_or_none xs)"
  "keeps (undisturbed x vs) (new_version E d author)" "keeps (undisturbed x vs) (owned_document E rq detail i)"
  by (rule calm_same; auto dest: reading_same publish_same get_document_outcome(1) refresh_outcome unused_outcome fits_outcome
        one_or_none_outcome new_version_outcome owned_outcome(1))+

lemma calm_plain [calm_rules]:
  "keeps (undisturbed x vs) (found_or_404 detail r)" "keeps (undisturbed x vs) (found_or_crash r)"
  "keeps (undisturbed x vs) (valid_request b)" "keeps (undisturbed x vs) (run_text f)"
  unfolding found_or_404_def found_or_crash_def valid_request_def run_text_def by (intro keeps_rules | simp split: option.splits)+

lemma calm_handlers:
  assumes "dc_id x \<noteq> dc_id d"
  shows "keeps (undisturbed x vs) (update_loaded E data author d)" and "keeps (undisturbed x vs) (patch_loaded E p d)"
    and "keeps (undisturbed x vs) (restore_loaded E vid d)" and "keeps (undisturbed x vs) (delete_loaded E d)"
proof -
  have put: "undisturbed x vs (put_document d d' s)" if "undisturbed x vs s" for d' s
    using that assms by (force simp: undisturbed_def put_document_def)
  have save: "derived d new \<Longrightarrow> keeps (undisturbed x vs) (save_new_version E d new author restored)" for new author restored
    using assms by (rule calm_save)
  show "keeps (undisturbed x vs) (update_loaded E data author d)" unfolding update_loaded_def
    by (intro keeps_rules save) (simp add: derived_def updated_by_def)
  show "keeps (undisturbed x vs) (patch_loaded E p d)" unfolding patch_loaded_def
    by (intro keeps_rules calm_rules calm_commit save) (simp_all add: derived_def)
  show "keeps (undisturbed x vs) (restore_loaded E vid d)" unfolding restore_loaded_def
    by (intro keeps_rules calm_rules save) (simp add: derived_def restored_to_def)
  show "keeps (undisturbed x vs) (delete_loaded E d)" unfolding delete_loaded_def
    by (intro keeps_rules calm_rules calm_commit put)
qed

lemma calm_updates:
  assumes "dc_id x \<noteq> i"
  shows "keeps (undisturbed x vs) (update_document E i data author)" and "keeps (undisturbed x vs) (patch_document E i p)"
    and "keeps (undisturbed x vs) (restore_version E i vid)" and "keeps (undisturbed x vs) (delete_document E i)"
  unfolding update_document_def patch_document_def restore_version_def delete_document_def with_document_def
  by (rule calm_loaded [OF assms], use assms calm_handlers in auto)+

lemma calm_insert [calm_rules]: "keeps (undisturbed x vs) (insert_document E d owner)"
proof (rule keepsI)
  fix s r t
  assume s: "undisturbed x vs s" and run: "insert_document E d owner s = (r, t)"
  from run show "undisturbed x vs t"
  proof (cases rule: insert_outcome)
    case (unstored e)
    from undisturbed_same [OF unstored(2) s] show ?thesis .
  next
    case (stored v)
    have "dc_id d \<noteq> dc_id x" using stored(1) s by (auto simp: undisturbed_def)
    then have "undisturbed x vs (put_version v (s\<lparr>st_documents := st_documents s @ [d]\<rparr>))"
      using s stored(3) by (simp add: undisturbed_def version_row_def)
    with stored(4) show ?thesis by (rule undisturbed_same)
  qed
qed

lemma calm_create [calm_rules]: "keeps (undisturbed x vs) (create_document E data)"
  unfolding create_document_def by (intro keeps_rules calm_rules)

lemma calm_others [calm_rules]:
  "keeps (undisturbed x vs) (list_versions i)" "keeps (undisturbed x vs) (list_documents a b c d)"
  "keeps (undisturbed x vs) (search_documents E q c d)" "keeps (undisturbed x vs) (list_comments i)"
  "keeps (undisturbed x vs) list_templates" "keeps (undisturbed x vs) (get_template i)"
  "keeps (undisturbed x vs) (create_template E tq)" "keeps (undisturbed x vs) (add_comment E i body)"
  "keeps (undisturbed x vs) (delete_comment E i cid)" "keeps (undisturbed x vs) (create_from_template E tid fm)"
  unfolding list_versions_def list_documents_def search_documents_def list_comments_def list_templates_def get_template_def
    create_template_def add_comment_def with_document_def delete_comment_def create_from_template_def Let_def
  by (intro keeps_rules calm_rules calm_commit; simp add: undisturbed_def versions_of_def)+

lemma calm_export [calm_rules]: "keeps (undisturbed x vs) (api_export E rq i fmt)"
proof -
  have "keeps (undisturbed x vs) (modP (cache_put d fmt r))" for d r
    by (rule keepsI) (auto simp: undisturbed_def versions_of_def cache_put_def)
  then show ?thesis unfolding api_export_def by (intro keeps_rules calm_rules)
qed

lemma calm_answer [calm_rules]: "keeps (undisturbed x vs) m \<Longrightarrow> keeps (undisturbed x vs) (answer f m)"
  unfolding answer_def by (intro keeps_rules)

text \<open>Whom a request comes from; the other requests do not look.\<close>

fun headers_of :: "api_request \<Rightarrow> headers option" where
  "headers_of (UpdateDoc rq i body) = Some rq"
| "headers_of (PatchDoc rq i body) = Some rq"
| "headers_of (DeleteDoc rq i) = Some rq"
| "headers_of (RestoreVersion rq i vid) = Some rq"
| "headers_of (GetDoc rq i) = Some rq"
| "headers_of (ListVersions rq i) = Some rq"
| "headers_of (ShareDoc rq i) = Some rq"
| "headers_of (ExportDoc rq i fmt) = Some rq"
| "headers_of (CreateDoc rq body) = Some rq"
| "headers_of (ListDocs rq fq) = Some rq"
| "headers_of _ = None"

definition requester :: "doc_env \<Rightarrow> api_request \<Rightarrow> uuid option" where
  "requester E q = Option.bind (headers_of q) (extract_user_id E)"

definition calm :: "document \<Rightarrow> doc_version list \<Rightarrow> 'a service \<Rightarrow> bool" where
  "calm x vs m \<longleftrightarrow> hoare (\<lambda>s. wf_store s \<and> undisturbed x vs s) m (\<lambda>_. undisturbed x vs) (\<lambda>_. undisturbed x vs)"

lemma calm_keeps: "keeps (undisturbed x vs) m \<Longrightarrow> calm x vs m"
  by (auto simp: calm_def keeps_def hoare_def)

lemma calm_valid: "calm x vs m \<Longrightarrow> calm x vs (thenP (valid_request b) m)"
  by (auto simp: calm_def hoare_def valid_request_def thenP_eval)

lemma calm_answered: "calm x vs m \<Longrightarrow> calm x vs (answer f m)"
  unfolding calm_def answer_def by (rule hoare_bind) (auto simp: hoare_def)

lemma calm_owned:
  assumes "extract_user_id E rq \<noteq> Some (dc_owner x)" and "dc_id x \<noteq> i \<Longrightarrow> keeps (undisturbed x vs) m"
  shows "calm x vs (thenP (owned_document E rq detail i) m)"
  unfolding calm_def
proof (rule hoare_then)
  show "hoare (\<lambda>s. wf_store s \<and> undisturbed x vs s) (owned_document E rq detail i)
      (\<lambda>_ s. undisturbed x vs s \<and> dc_id x \<noteq> i) (\<lambda>_. undisturbed x vs)"
  proof (rule hoareI)
    fix s d t
    assume s: "wf_store s \<and> undisturbed x vs s" and run: "owned_document E rq detail i s = (Inr d, t)"
    from owned_outcome(2) [OF run] assms(1) have d: "d \<in> set (st_documents s)" "dc_id d = i" "d \<noteq> x" by auto
    then have "dc_id x \<noteq> i" using s by (auto simp: undisturbed_def wf_store_def distinct_map inj_on_def)
    with s owned_outcome(1) [OF run] show "undisturbed x vs t \<and> dc_id x \<noteq> i" by simp
  next
    fix s e t
    assume "wf_store s \<and> undisturbed x vs s" and "owned_document E rq detail i s = (Inl e, t)"
    then show "undisturbed x vs t" using owned_outcome(1) by blast
  qed
  show "hoare (\<lambda>s. undisturbed x vs s \<and> dc_id x \<noteq> i) m (\<lambda>_. undisturbed x vs) (\<lambda>_. undisturbed x vs)"
    using assms(2) by (intro hoare_pure_pre) (simp add: keeps_def)
qed

lemma serve_calm:
  assumes "requester E q \<noteq> Some (dc_owner x)"
  shows "calm x vs (serve E q)"
proof (cases q)
  case (UpdateDoc rq i body)
  then have "extract_user_id E rq \<noteq> Some (dc_owner x)" using assms by (simp add: requester_def)
  then have "calm x vs (api_update E rq i body)" unfolding api_update_def
    by (intro calm_valid calm_owned keeps_rules calm_updates calm_rules)
  with UpdateDoc show ?thesis by (simp add: calm_answered)
next
  case (PatchDoc rq i body)
  then have "extract_user_id E rq \<noteq> Some (dc_owner x)" using assms by (simp add: requester_def)
  then have "calm x vs (api_patch E rq i body)" unfolding api_patch_def
    by (intro calm_valid calm_owned keeps_rules calm_updates calm_rules)
  with PatchDoc show ?thesis by (simp add: calm_answered)
next
  case (DeleteDoc rq i)
  then have "extract_user_id E rq \<noteq> Some (dc_owner x)" using assms by (simp add: requester_def)
  then have "calm x vs (api_delete E rq i)" unfolding api_delete_def
    by (intro calm_owned keeps_rules calm_updates calm_rules)
  with DeleteDoc show ?thesis by (simp add: calm_answered)
next
  case (RestoreVersion rq i vid)
  then have "extract_user_id E rq \<noteq> Some (dc_owner x)" using assms by (simp add: requester_def)
  then have "calm x vs (api_restore E rq i vid)" unfolding api_restore_def
    by (intro calm_owned keeps_rules calm_updates calm_rules)
  with RestoreVersion show ?thesis by (simp add: calm_answered)
qed (auto intro!: calm_keeps keeps_rules calm_rules
       simp: api_create_def api_search_def api_read_export_def api_shared_def api_list_def Let_def filter_documents_def api_get_def
         api_versions_def api_share_def api_from_template_def
         api_add_comment_def api_delete_comment_def api_create_template_def split: option.splits)

text \<open>C5. Only the owner changes a document: whatever a request of anyone else does and returns, in any reachable database
  the row of the document and its versions stay as they are.\<close>

theorem only_owner_changes:
  assumes "reached E s" and "serve E q s = (r, t)" and "d \<in> set (st_documents s)" and "requester E q \<noteq> Some (dc_owner d)"
  shows "d \<in> set (st_documents t) \<and> versions_of t (dc_id d) = versions_of s (dc_id d)"
proof -
  have "wf_store s" using reached_sound [OF assms(1)] by (simp add: sound_def)
  moreover have "undisturbed d (versions_of s (dc_id d)) s" using assms(3) by (simp add: undisturbed_def)
  ultimately have "undisturbed d (versions_of s (dc_id d)) t"
    using serve_calm [OF assms(4)] assms(2) by (cases r) (auto simp: calm_def dest: hoare_retD hoare_raiseD)
  then show ?thesis by (simp add: undisturbed_def)
qed

theorem only_owner_changes_witness:
  "sample_doc \<in> set (st_documents (snd (serve sample_env (DeleteDoc (headers_for 5) 0) sample_store))) \<and>
   versions_of (snd (serve sample_env (DeleteDoc (headers_for 5) 0) sample_store)) (dc_id sample_doc) =
     versions_of sample_store (dc_id sample_doc)"
proof (rule only_owner_changes [OF sample_reached(2) prod.collapse [symmetric]])
  show "sample_doc \<in> set (st_documents sample_store)" by (simp add: sample_facts)
  have "requester sample_env (DeleteDoc (headers_for 5) 0) = Some 5" by code_simp
  then show "requester sample_env (DeleteDoc (headers_for 5) 0) \<noteq> Some (dc_owner sample_doc)" by (simp add: sample_facts)
qed

section \<open>Exports\<close>

lemma cache_get_sound:
  assumes "sound s" and "d \<in> set (st_documents s)" and "cache_get d fmt s = Some r"
  shows "r = export_document d fmt"
proof -
  obtain body ctype source where hit: "map_of (st_cache s) (dc_id d, dc_version d, fmt) = Some (body, ctype, source)" and r: "r = (body, ctype)"
    using assms(3) by (auto simp: cache_get_def split: option.splits)
  from assms(1) have "cache_ok s" and wf: "wf_store s" by (simp_all add: sound_def)
  with hit have "entry_ok s (dc_id d, dc_version d, fmt) (body, ctype, source)" unfolding cache_ok_def by blast
  then obtain v where v: "v \<in> set (st_versions s)" "dv_document v = dc_id d" "dv_number v = dc_version d"
    and ex: "\<And>d. dc_title d = dv_title v \<Longrightarrow> dc_content d = dv_content v \<Longrightarrow> export_document d fmt = (body, ctype)"
    by (auto simp: entry_ok_def)
  from last_version [OF wf assms(2)] obtain w where w: "w \<in> set (st_versions s)" "dv_document w = dc_id d"
    "dv_number w = dc_version d" "dv_title w = dc_title d" "dv_content w = dc_content d" .
  have "documented s d" using wf assms(2) by (simp add: wf_store_def)
  then have "distinct (map dv_number (versions_of s (dc_id d)))" by (simp add: documented_def)
  moreover have "v \<in> set (versions_of s (dc_id d))" "w \<in> set (versions_of s (dc_id d))" using v w by (simp_all add: versions_of_def)
  ultimately have "v = w" using v(3) w(3) by (auto simp: distinct_map inj_on_def)
  with ex w r show ?thesis by simp
qed

text \<open>C10. An export is the rendering of the document as it is now, for its owner only, whether it comes from the render cache
  or not.\<close>

theorem export_is_current:
  assumes "reached E s" and "serve E (ExportDoc rq i fmt) s = (Inr (Body b c), t)"
  shows "\<exists>d \<in> set (st_documents s). dc_id d = i \<and> \<not> dc_deleted d \<and> extract_user_id E rq = Some (dc_owner d) \<and>
    (b, c) = export_document d fmt"
proof -
  from assms(2) have "api_export E rq i fmt s = (Inr (b, c), t)"
    by (auto simp: answer_def bindP_Inr)
  then obtain d u where d: "owned_document E rq ''Document not found'' i s = (Inr d, u)"
    and rest: "bindP (reading (ev_cache_flag E)) (\<lambda>flag.
     if flag then
       bindP (getP (cache_get d fmt)) (\<lambda>hit. case hit of
           Some r \<Rightarrow> retP r
         | None \<Rightarrow> thenP (modP (cache_put d fmt (export_document d fmt))) (retP (export_document d fmt)))
     else retP (export_document d fmt)) u = (Inr (b, c), t)"
    unfolding api_export_def bindP_Inr by blast
  have u: "u = s" using owned_outcome(1) [OF d] .
  have facts: "d \<in> set (st_documents s)" "dc_id d = i" "\<not> dc_deleted d" "extract_user_id E rq = Some (dc_owner d)"
    using owned_outcome(2) [OF d] by auto
  have "cache_get d fmt (s\<lparr>st_tick := n\<rparr>) = cache_get d fmt s" for n by (simp add: cache_get_def)
  then have "(b, c) = export_document d fmt"
    using rest u cache_get_sound [OF reached_sound [OF assms(1)] facts(1)]
    by (auto simp: bindP_eval thenP_eval reading_def split: if_splits option.splits)
  with facts show ?thesis by blast
qed

definition sample_text :: string where
  "sample_text = ''# plan'' @ [CHR 0x0A, CHR 0x0A] @ ''all of it''"

theorem export_is_current_witness: "(sample_text, ''text/markdown'') = export_document sample_doc Markdown"
proof -
  have "fst (serve sample_env (ExportDoc (headers_for 77) 0 Markdown) sample_store) = Inr (Body sample_text ''text/markdown'')"
    by code_simp
  then have "serve sample_env (ExportDoc (headers_for 77) 0 Markdown) sample_store =
      (Inr (Body sample_text ''text/markdown''), snd (serve sample_env (ExportDoc (headers_for 77) 0 Markdown) sample_store))"
    by (metis prod.collapse)
  from export_is_current [OF sample_reached(2) this] show ?thesis by (auto simp: sample_facts)
qed

end
