(* ===== verification/Doc_Queries.thy ===== *)
theory Doc_Queries
  imports Doc_Api_Facts "HOL-Library.Sublist" "HOL-Library.Multiset"
begin

text \<open>
  What the readers of the document service get: the search finds exactly the documents that contain the
  text, whatever special characters it has, the pages of a listing put together are the whole listing,
  newest first, and restoring a version brings its title and content back as a new version.
\<close>

section \<open>The search pattern\<close>

definition special :: "char \<Rightarrow> bool" where
  "special c \<longleftrightarrow> c = CHR ''%'' \<or> c = CHR ''_'' \<or> c = CHR 0x5C"

definition escaped :: "string \<Rightarrow> string" where
  "escaped q = concat (map (\<lambda>c. if special c then [CHR 0x5C, c] else [c]) q)"

lemma search_pattern_escaped: "search_pattern q = ''%'' @ escaped q @ ''%''"
  by (simp add: search_pattern_def, induction q) (auto simp: escaped_def replace_char_def special_def)

text \<open>Folding the case of characters leaves the three special characters alone.\<close>

definition fold_ok :: "(char \<Rightarrow> char) \<Rightarrow> bool" where
  "fold_ok fld \<longleftrightarrow> (\<forall>c. (fld c = CHR ''%'' \<longleftrightarrow> c = CHR ''%'') \<and> (fld c = CHR ''_'' \<longleftrightarrow> c = CHR ''_'') \<and>
     (fld c = CHR 0x5C \<longleftrightarrow> c = CHR 0x5C))"

lemma fold_special: "fold_ok fld \<Longrightarrow> special (fld c) = special c" "fold_ok fld \<Longrightarrow> special c \<Longrightarrow> fld c = c"
  by (auto simp: fold_ok_def special_def)

lemma map_fold_escaped: "fold_ok fld \<Longrightarrow> map fld (escaped q) = escaped (map fld q)"
  by (induction q) (auto simp: escaped_def fold_special, auto simp: fold_ok_def)

lemma like_prefix: "like_match (escaped q @ ''%'') t \<longleftrightarrow> prefix q t"
proof (induction q arbitrary: t)
  case Nil
  have "list_ex (\<lambda>k. drop k t = []) [0..<Suc (length t)]" by (auto simp: list_ex_iff intro!: bexI [of _ "length t"])
  then show ?case by (simp add: escaped_def)
next
  case (Cons c q)
  have step: "escaped (c # q) = (if special c then [CHR 0x5C, c] else [c]) @ escaped q" by (simp add: escaped_def)
  show ?case
  proof (cases t)
    case Nil
    then show ?thesis by (auto simp: step special_def)
  next
    case (Cons a u)
    with Cons.IH [of u] show ?thesis by (auto simp: step special_def)
  qed
qed

lemma like_percent: "like_match (CHR ''%'' # ps) t \<longleftrightarrow> (\<exists>k \<le> length t. like_match ps (drop k t))"
  by (simp add: list_ex_iff del: upt_Suc) (auto simp: less_Suc_eq_le)

lemma sublist_drop: "sublist q t \<longleftrightarrow> (\<exists>k \<le> length t. prefix q (drop k t))"
proof
  assume "sublist q t"
  then obtain ps ss where "t = ps @ q @ ss" by (auto simp: sublist_def)
  then show "\<exists>k \<le> length t. prefix q (drop k t)" by (intro exI [of _ "length ps"]) simp
next
  assume "\<exists>k \<le> length t. prefix q (drop k t)"
  then obtain k ss where "drop k t = q @ ss" by (auto simp: prefix_def)
  then have "t = take k t @ q @ ss" by (metis append_take_drop_id)
  then show "sublist q t" unfolding sublist_def by blast
qed

lemma ilike_contains:
  assumes "fold_ok fld"
  shows "ilike fld (search_pattern q) t \<longleftrightarrow> sublist (map fld q) (map fld t)"
proof -
  have "map fld (search_pattern q) = ''%'' @ escaped (map fld q) @ ''%''"
    using assms by (simp add: search_pattern_escaped map_fold_escaped) (simp add: fold_ok_def)
  then have "ilike fld (search_pattern q) t = like_match (CHR ''%'' # escaped (map fld q) @ ''%'') (map fld t)"
    by (simp add: ilike_def)
  then show ?thesis by (simp only: like_percent like_prefix sublist_drop)
qed

section \<open>Pages\<close>

lemma newest_first_sorted: "sorted_wrt (\<lambda>a b. dc_updated b \<le> dc_updated a) (newest_first ds)" "mset (newest_first ds) = mset ds"
proof -
  have "sorted_wrt (\<lambda>a b. dc_updated a \<le> dc_updated b) (sort_key dc_updated ds)"
    using sorted_sort_key [of dc_updated ds] by (simp add: sorted_map)
  then show "sorted_wrt (\<lambda>a b. dc_updated b \<le> dc_updated a) (newest_first ds)" by (simp add: newest_first_def sorted_wrt_rev)
  show "mset (newest_first ds) = mset ds" by (simp add: newest_first_def)
qed

lemma concat_pages: "concat (map (\<lambda>p. page_of p n xs) [1..<Suc k]) = take (k * n) xs"
proof (induction k)
  case (Suc k)
  have "concat (map (\<lambda>p. page_of p n xs) [1..<Suc (Suc k)]) = take (k * n) xs @ take n (drop (k * n) xs)"
    using Suc by (simp add: page_of_def)
  then show ?case by (simp add: take_add [symmetric] add.commute)
qed simp

lemma paginate_covers: "0 < n \<Longrightarrow> m \<le> paginate m n * n"
proof -
  assume n: "0 < n"
  have "(m + n - 1) div n * n + (m + n - 1) mod n = m + n - 1" by (rule div_mult_mod_eq)
  moreover have "(m + n - 1) mod n < n" using n by simp
  ultimately have "m \<le> (m + n - 1) div n * n" by linarith
  also have "\<dots> \<le> paginate m n * n" using n by (intro mult_le_mono1) (simp add: paginate_def)
  finally show ?thesis .
qed

lemma all_pages: "0 < n \<Longrightarrow> concat (map (\<lambda>p. page_of p n xs) [1..<Suc (paginate (length xs) n)]) = xs"
  by (simp only: concat_pages) (simp add: paginate_covers)

section \<open>Readers\<close>

text \<open>C30. A search finds exactly the live documents, templates apart, whose title or content contains the text up to
  the case of letters; percent signs, underscores and backslashes in the text stand for themselves.\<close>

theorem search_finds_contained:
  assumes "fold_ok (ev_fold E)"
  shows "search_documents E q page limit s =
    (let hits = filter (\<lambda>d. \<not> dc_deleted d \<and> \<not> dc_template d \<and>
           (sublist (map (ev_fold E) q) (map (ev_fold E) (dc_title d)) \<or>
            sublist (map (ev_fold E) q) (map (ev_fold E) (dc_content d)))) (st_documents s)
     in (Inr (page_of page limit (newest_first hits), length hits), s))"
proof -
  have "found_by E q = (\<lambda>d. \<not> dc_deleted d \<and> \<not> dc_template d \<and>
       (sublist (map (ev_fold E) q) (map (ev_fold E) (dc_title d)) \<or> sublist (map (ev_fold E) q) (map (ev_fold E) (dc_content d))))"
    using assms by (simp add: fun_eq_iff found_by_def ilike_contains)
  then show ?thesis by (simp add: search_documents_def Let_def)
qed

lemma lower_char_fixes:
  assumes "(of_char x :: nat) < 97" and "\<not> (65 \<le> (of_char x :: nat) \<and> (of_char x :: nat) \<le> 90)"
  shows "lower_char c = x \<longleftrightarrow> c = x"
proof (cases "65 \<le> (of_char c :: nat) \<and> (of_char c :: nat) \<le> 90 \<or> 192 \<le> (of_char c :: nat) \<and> (of_char c :: nat) \<le> 222 \<and> (of_char c :: nat) \<noteq> 215")
  case True
  then have "(of_char (lower_char c) :: nat) = of_char c + 32" by (auto simp: lower_char_def Let_def)
  with True assms show ?thesis by auto
next
  case False
  then have "lower_char c = c" unfolding lower_char_def Let_def by (rule if_not_P)
  then show ?thesis by simp
qed

lemma fold_ok_lower: "fold_ok lower_char"
  by (simp add: fold_ok_def lower_char_fixes)

theorem search_finds_contained_witness:
  "search_documents sample_env ''0% OF'' 1 20 created_store =
    (let hits = filter (\<lambda>d. \<not> dc_deleted d \<and> \<not> dc_template d \<and>
           (sublist (map (ev_fold sample_env) ''0% OF'') (map (ev_fold sample_env) (dc_title d)) \<or>
            sublist (map (ev_fold sample_env) ''0% OF'') (map (ev_fold sample_env) (dc_content d)))) (st_documents created_store)
     in (Inr (page_of 1 20 (newest_first hits), length hits), created_store))"
  by (rule search_finds_contained) (simp add: sample_env_def fold_ok_lower)



section \<open>Restoring a version\<close>

lemma saved_row:
  assumes "wf_store s" and "old \<in> set (st_documents s)" and "derived old d" and "saved s old d author t"
    and "find (\<lambda>x. dc_id x = dc_id d) (st_documents t) = Some row"
  shows "row = d" and "d \<in> set (st_documents t)"
    and "\<exists>v. versions_of t (dc_id d) = versions_of s (dc_id d) @ [v] \<and> version_row v d author"
proof -
  from assms(4) obtain v where v: "version_row v d author" and t: "same_tables (put_version v (put_document old d s)) t"
    by (auto simp: saved_def)
  have docs: "st_documents t = st_documents (put_document old d s)" using t by (simp add: same_tables_def)
  have row: "row \<in> set (st_documents t)" "dc_id row = dc_id d"
    using assms(5) by (auto simp: find_Some_iff in_set_conv_nth)
  have "row = d \<or> row \<in> set (st_documents s) \<and> dc_id row \<noteq> dc_id old"
    using row(1) put_document_member [OF _ assms(2,3)] assms(1) by (simp add: docs wf_store_def)
  then show "row = d" using row(2) assms(3) by (auto simp: derived_def)
  with row(1) show "d \<in> set (st_documents t)" by simp
  have "versions_of t (dc_id d) = versions_of (put_version v (put_document old d s)) (dc_id d)"
    using t by (simp add: same_tables_def versions_of_def)
  then show "\<exists>v. versions_of t (dc_id d) = versions_of s (dc_id d) @ [v] \<and> version_row v d author"
    using v by (auto simp: version_row_def)
qed

lemma with_document_Inr:
  assumes "with_document i f s = (Inr (Some x), t)"
  obtains d where "d \<in> set (st_documents s)" and "dc_id d = i" and "\<not> dc_deleted d" and "f d s = (Inr (Some x), t)"
proof -
  from assms obtain a u where get: "get_document i s = (Inr a, u)"
    and rest: "(case a of None \<Rightarrow> retP None | Some d \<Rightarrow> f d) u = (Inr (Some x), t)"
    unfolding with_document_def bindP_Inr by blast
  then obtain d where d: "a = Some d" by (cases a) auto
  with get get_document_outcome [OF get] rest show ?thesis using that by auto
qed

lemma saved_version:
  assumes "wf_store s" and "old \<in> set (st_documents s)" and "derived old new" and "dc_version new = dc_version old"
    and "save_new_version E old new author restored s = (Inr row, t)"
  shows "row \<in> set (st_documents t)" and "dc_id row = dc_id old" and "dc_title row = dc_title new" and "dc_content row = dc_content new"
    and "dc_version row = Suc (dc_version old)" and "\<exists>v. versions_of t (dc_id old) = versions_of s (dc_id old) @ [v] \<and> version_row v row author"
    and "dc_folder row = dc_folder new" and "dc_content_type row = dc_content_type new" and "dc_words row = dc_words new"
proof -
  from assms(5) obtain u where
    saved: "saved s old (new\<lparr>dc_version := dc_version new + 1, dc_updated := u\<rparr>) author t" (is "saved s old ?d author t")
    and found: "find (\<lambda>x. dc_id x = dc_id new) (st_documents t) = Some row"
    by (cases rule: save_outcome) auto
  have d: "derived old ?d" and ids: "dc_id new = dc_id old" using assms(3) by (auto simp: derived_def)
  from found have "find (\<lambda>x. dc_id x = dc_id ?d) (st_documents t) = Some row" by simp
  note row = saved_row [OF assms(1,2) d saved this]
  show "row \<in> set (st_documents t)" using row(1,2) by simp
  show "dc_id row = dc_id old" "dc_title row = dc_title new" "dc_content row = dc_content new" "dc_version row = Suc (dc_version old)"
    "dc_folder row = dc_folder new" "dc_content_type row = dc_content_type new" "dc_words row = dc_words new"
    using row(1) ids assms(4) by simp_all
  show "\<exists>v. versions_of t (dc_id old) = versions_of s (dc_id old) @ [v] \<and> version_row v row author"
    using row(1,3) ids by simp
qed

text \<open>Restoring a version gives the document that version's title and content, as its next version; no version is lost.\<close>

theorem restore_brings_back:
  assumes "reached E s" and "serve E (RestoreVersion rq i vid) s = (Inr (Doc d), t)"
  shows "\<exists>old \<in> set (st_documents s). \<exists>v \<in> set (versions_of s i). \<exists>w.
    dc_id old = i \<and> extract_user_id E rq = Some (dc_owner old) \<and> dv_id v = vid \<and>
    d \<in> set (st_documents t) \<and> dc_id d = i \<and> dc_title d = dv_title v \<and> dc_content d = dv_content v \<and>
    dc_version d = Suc (dc_version old) \<and> versions_of t i = versions_of s i @ [w] \<and> version_row w d (dc_owner old)"
proof -
  have wf: "wf_store s" using reached_sound [OF assms(1)] by (simp add: sound_def)
  from assms(2) have "api_restore E rq i vid s = (Inr d, t)" by (auto simp: answer_def bindP_Inr)
  then obtain x u where own: "owned_document E rq ''Document or version not found'' i s = (Inr x, u)"
    and rest: "bindP (restore_version E i vid) (found_or_404 ''Document or version not found'') u = (Inr d, t)"
    unfolding api_restore_def thenP_Inr by blast
  have u: "u = s" and x: "x \<in> set (st_documents s)" "dc_id x = i" "extract_user_id E rq = Some (dc_owner x)"
    using owned_outcome [OF own] by auto
  from rest have "restore_version E i vid s = (Inr (Some d), t)"
    by (auto simp: u bindP_Inr found_or_404_def split: option.splits)
  then obtain old where old: "old \<in> set (st_documents s)" "dc_id old = i" and run: "restore_loaded E vid old s = (Inr (Some d), t)"
    unfolding restore_version_def by (rule with_document_Inr)
  have "x = old" using x(1,2) old wf by (auto simp: wf_store_def distinct_map inj_on_def)
  from run obtain v where v: "filter (\<lambda>v. dv_id v = vid \<and> dv_document v = dc_id old) (st_versions s) = [v]"
    and save: "save_new_version E old (restored_to v old) (dc_owner old) (Some vid) s = (Inr d, t)"
    by (auto simp: restore_loaded_def bindP_Inr dest!: one_or_none_outcome split: option.splits)
  have "v \<in> set (filter (\<lambda>v. dv_id v = vid \<and> dv_document v = dc_id old) (st_versions s))" by (simp add: v)
  then have vs: "v \<in> set (versions_of s i)" "dv_id v = vid" using old(2) by (simp_all add: versions_of_def)
  have "derived old (restored_to v old)" by (simp add: derived_def restored_to_def)
  note row = saved_version [OF wf old(1) this _ save]
  show ?thesis using row old vs x(3) \<open>x = old\<close> by (auto simp: restored_to_def)
qed

theorem restore_brings_back_witness:
  "\<exists>d. \<exists>v \<in> set (versions_of sample_store 0). dv_id v = 3 \<and> dc_id d = 0 \<and> dc_content d = dv_content v \<and>
     d \<in> set (st_documents (snd (serve sample_env (RestoreVersion (headers_for 77) 0 3) sample_store)))"
proof -
  let ?run = "serve sample_env (RestoreVersion (headers_for 77) 0 3) sample_store"
  have "(case fst ?run of Inr (Doc d) \<Rightarrow> True | _ \<Rightarrow> False)" by code_simp
  then obtain d where "fst ?run = Inr (Doc d)" by (auto split: sum.splits response.splits)
  then have "?run = (Inr (Doc d), snd ?run)" by (metis prod.collapse)
  from restore_brings_back [OF sample_reached(2) this] show ?thesis by blast
qed

text \<open>A replacement of a document that is answered with the document stored what the body says, as the next version.\<close>

theorem update_stores_body:
  assumes "reached E s" and "serve E (UpdateDoc rq i body) s = (Inr (Doc d), t)"
  shows "\<exists>old \<in> set (st_documents s). \<exists>w.
    dc_id old = i \<and> extract_user_id E rq = Some (dc_owner old) \<and> d \<in> set (st_documents t) \<and>
    dc_title d = up_title body \<and> dc_content d = up_content body \<and> dc_content_type d = up_content_type body \<and>
    dc_folder d = up_folder body \<and> dc_words d = word_count (up_content body) \<and> dc_version d = Suc (dc_version old) \<and>
    versions_of t i = versions_of s i @ [w] \<and> version_row w d (dc_owner old)"
proof -
  have wf: "wf_store s" using reached_sound [OF assms(1)] by (simp add: sound_def)
  from assms(2) have "api_update E rq i body s = (Inr d, t)" by (auto simp: answer_def bindP_Inr)
  then obtain x u where own: "owned_document E rq ''Document not found'' i s = (Inr x, u)"
    and rest: "bindP (update_document E i body None) found_or_crash u = (Inr d, t)"
    unfolding api_update_def thenP_Inr by (auto simp: valid_request_def split: if_splits)
  have u: "u = s" and x: "x \<in> set (st_documents s)" "dc_id x = i" "extract_user_id E rq = Some (dc_owner x)"
    using owned_outcome [OF own] by auto
  from rest have "update_document E i body None s = (Inr (Some d), t)"
    by (auto simp: u bindP_Inr found_or_crash_def split: option.splits)
  then obtain old where old: "old \<in> set (st_documents s)" "dc_id old = i" and run: "update_loaded E body None old s = (Inr (Some d), t)"
    unfolding update_document_def by (rule with_document_Inr)
  have "x = old" using x(1,2) old wf by (auto simp: wf_store_def distinct_map inj_on_def)
  from run have save: "save_new_version E old (updated_by body old) (dc_owner old) None s = (Inr d, t)"
    by (auto simp: update_loaded_def bindP_Inr)
  have "derived old (updated_by body old)" by (simp add: derived_def updated_by_def)
  note row = saved_version [OF wf old(1) this _ save]
  show ?thesis using row old x(3) \<open>x = old\<close> by (auto simp: updated_by_def)
qed

theorem update_stores_body_witness:
  "\<exists>d \<in> set (st_documents sample_store). dc_content d = ''all of it'' \<and> dc_version d = 2"
  using update_stores_body [OF sample_reached(1) sample_runs(2) [unfolded sample_update_def]]
  by (auto simp: sample_body_def sample_facts)

end
