(* ===== verification/Doc_Races.thy ===== *)
theory Doc_Races
  imports Doc_Queries
begin

text \<open>
  Two requests that overlap: both load a document before either commits, each in its own session, and the
  update of the second writes the columns that it changed. The version number that both computed is the
  same, so the history has two versions with one number, and the render cache, whose keys are version
  numbers, keeps serving what the first of them wrote.
\<close>

section \<open>A session that loaded an older row\<close>

lemma update_loaded_saved:
  assumes "update_loaded E data author d s = (Inr row, t)"
  obtains u r where "row = Some r"
    and "saved s d ((updated_by data d)\<lparr>dc_version := Suc (dc_version d), dc_updated := u\<rparr>)
           (case author of None \<Rightarrow> dc_owner d | Some a \<Rightarrow> a) t"
    and "find (\<lambda>x. dc_id x = dc_id d) (st_documents t) = Some r"
proof -
  from assms obtain r where row: "row = Some r"
    and save: "save_new_version E d (updated_by data d) (case author of None \<Rightarrow> dc_owner d | Some a \<Rightarrow> a) None s = (Inr r, t)"
    by (auto simp: update_loaded_def bindP_Inr)
  have fields: "dc_version (updated_by data d) = dc_version d" "dc_id (updated_by data d) = dc_id d" by (simp_all add: updated_by_def)
  from save show ?thesis
    by (cases rule: save_outcome) (use row fields that in auto)
qed

lemma saved_versions:
  assumes "saved s old d author t" and "dc_id d = dc_id old"
  shows "\<exists>v. versions_of t (dc_id old) = versions_of s (dc_id old) @ [v] \<and> version_row v d author"
    and "st_documents t = st_documents (put_document old d s)" and "st_cache t = st_cache s"
proof -
  from assms(1) obtain v where v: "version_row v d author" and t: "same_tables (put_version v (put_document old d s)) t"
    by (auto simp: saved_def)
  have "versions_of t (dc_id old) = versions_of (put_version v (put_document old d s)) (dc_id old)"
    using t by (simp add: same_tables_def versions_of_def)
  then show "\<exists>v. versions_of t (dc_id old) = versions_of s (dc_id old) @ [v] \<and> version_row v d author"
    using v assms(2) by (auto simp: version_row_def)
  show "st_documents t = st_documents (put_document old d s)" "st_cache t = st_cache s"
    using t by (simp_all add: same_tables_def put_version_def)
qed

text \<open>C8. Two updates that both loaded the document before the other committed succeed, and leave two versions with the same
  number: the history of the document is broken.\<close>

theorem overlapping_updates_break_history:
  assumes "get_document i s = (Inr (Some d), s)"
    and "update_loaded E a author d s = (Inr x, t)" and "update_loaded E b author' d t = (Inr y, u)"
  shows "(\<exists>v w. versions_of u i = versions_of s i @ [v, w] \<and> dv_number v = dv_number w \<and>
     dv_content v = up_content a \<and> dv_content w = up_content b) \<and> \<not> wf_store u"
proof -
  have d: "d \<in> set (st_documents s)" "dc_id d = i" using get_document_outcome(2) [OF assms(1)] by auto
  obtain k where first: "saved s d ((updated_by a d)\<lparr>dc_version := Suc (dc_version d), dc_updated := k\<rparr>)
      (case author of None \<Rightarrow> dc_owner d | Some a \<Rightarrow> a) t" using assms(2) by (rule update_loaded_saved)
  obtain l where second: "saved t d ((updated_by b d)\<lparr>dc_version := Suc (dc_version d), dc_updated := l\<rparr>)
      (case author' of None \<Rightarrow> dc_owner d | Some a \<Rightarrow> a) u" using assms(3) by (rule update_loaded_saved)
  from saved_versions(1) [OF first] obtain v where v: "versions_of t i = versions_of s i @ [v]"
    "dv_number v = Suc (dc_version d)" "dv_content v = up_content a"
    using d by (auto simp: updated_by_def version_row_def)
  from saved_versions(1) [OF second] obtain w where w: "versions_of u i = versions_of t i @ [w]"
    "dv_number w = Suc (dc_version d)" "dv_content w = up_content b"
    using d by (auto simp: updated_by_def version_row_def)
  have "\<not> wf_store u"
  proof
    assume wf: "wf_store u"
    have "map dc_id (st_documents u) = map dc_id (st_documents s)"
      using saved_versions(2) [OF first] saved_versions(2) [OF second] by (simp add: updated_by_def put_document_ids)
    then have "i \<in> dc_id ` set (st_documents u)" using d by (metis image_eqI set_map)
    then obtain e where "e \<in> set (st_documents u)" "dc_id e = i" by auto
    with wf have "documented u e" by (simp add: wf_store_def)
    then have "map dv_number (versions_of u i) = [1..<Suc (dc_version e)]" using \<open>dc_id e = i\<close> by (simp add: documented_def)
    then have "distinct (map dv_number (versions_of u i))" by (simp del: upt_Suc)
    then show False using v w by simp
  qed
  then show ?thesis using v w by auto
qed

text \<open>Both sessions loaded the sample document.\<close>

definition first_row :: document where
  "first_row = sample_doc\<lparr>dc_content := ''first'', dc_words := 1, dc_version := 3, dc_updated := 12\<rparr>"

definition first_commit :: store where
  "first_commit = sample_store\<lparr>st_documents := [first_row],
     st_versions := st_versions sample_store @ [sample_version 13 3 ''first'' 14],
     st_events := st_events sample_store @ [(''document_updated'', Indexed first_row None)], st_tick := 17\<rparr>"

definition first_export :: "string \<times> string" where
  "first_export = export_document first_row Html"

definition exported_store :: store where
  "exported_store = first_commit\<lparr>st_tick := 18, st_cache := [((0, 3, Html), (fst first_export, snd first_export, (''plan'', ''first'')))]\<rparr>"

definition second_row :: document where
  "second_row = first_row\<lparr>dc_content := ''second'', dc_updated := 18\<rparr>"

definition second_commit :: store where
  "second_commit = exported_store\<lparr>st_documents := [second_row],
     st_versions := st_versions exported_store @ [sample_version 19 3 ''second'' 20],
     st_events := st_events exported_store @ [(''document_updated'', Indexed second_row None)], st_tick := 23\<rparr>"

lemma race_runs:
  "get_document 0 sample_store = (Inr (Some sample_doc), sample_store)"
  "update_loaded sample_env (sample_body ''first'') None sample_doc sample_store = (Inr (Some first_row), first_commit)"
  "api_export sample_env (headers_for 77) 0 Html first_commit = (Inr first_export, exported_store)"
  "update_loaded sample_env (sample_body ''second'') None sample_doc exported_store = (Inr (Some second_row), second_commit)"
  "api_export sample_env (headers_for 77) 0 Html second_commit = (Inr first_export, second_commit\<lparr>st_tick := 24\<rparr>)"
  by code_simp+

lemma second_run:
  "\<not> isl (fst (update_loaded sample_env (sample_body ''second'') None sample_doc first_commit))"
  by code_simp

theorem overlapping_updates_break_history_witness:
  "\<not> wf_store (snd (update_loaded sample_env (sample_body ''second'') None sample_doc first_commit))"
  using overlapping_updates_break_history [OF race_runs(1,2) run_returns [OF second_run]] by blast

section \<open>A stale export\<close>

lemma no_cached_future:
  assumes "sound s" and "d \<in> set (st_documents s)" and "dc_version d < n"
  shows "map_of (st_cache s) (dc_id d, n, fmt) = None"
proof (rule ccontr)
  assume "map_of (st_cache s) (dc_id d, n, fmt) \<noteq> None"
  then obtain body ctype source where hit: "map_of (st_cache s) (dc_id d, n, fmt) = Some (body, ctype, source)"
    by (metis option.exhaust prod_cases3)
  from assms(1) have "cache_ok s" and wf: "wf_store s" by (simp_all add: sound_def)
  with hit have "entry_ok s (dc_id d, n, fmt) (body, ctype, source)" unfolding cache_ok_def by blast
  then obtain v where "v \<in> set (versions_of s (dc_id d))" "dv_number v = n" by (auto simp: entry_ok_def versions_of_def)
  then have "n \<in> set (map dv_number (versions_of s (dc_id d)))" by auto
  moreover have "documented s d" using wf assms(2) by (simp add: wf_store_def)
  ultimately have "n \<in> set [1..<Suc (dc_version d)]" unfolding documented_def by metis
  then show False using assms(3) by simp
qed

text \<open>The one row of a document, as two flushes of sessions that loaded it leave it.\<close>

lemma flushed_row:
  assumes "wf_store s" and "d \<in> set (st_documents s)" and "x \<in> set (st_documents (put_document d new s))" and "dc_id x = dc_id d"
  shows "x = flush_row d new d"
proof -
  obtain y where y: "y \<in> set (st_documents s)" "x = (if dc_id y = dc_id d then flush_row d new y else y)"
    using assms(3) by (auto simp: put_document_def)
  then have "dc_id y = dc_id d" using assms(4) by (auto split: if_splits)
  then have "y = d" using y(1) assms(1,2) by (auto simp: wf_store_def distinct_map inj_on_def)
  with y show ?thesis by simp
qed

lemma export_run:
  assumes "api_export E rq i fmt s = (Inr r, t)" and "\<forall>n. ev_cache_flag E n"
  obtains d where "d \<in> set (st_documents s)" and "dc_id d = i"
    and "r = (case cache_get d fmt s of Some e \<Rightarrow> e | None \<Rightarrow> export_document d fmt)"
    and "st_documents t = st_documents s" and "st_versions t = st_versions s"
    and "map_of (st_cache t) (i, dc_version d, fmt) = (case cache_get d fmt s of
       Some e \<Rightarrow> map_of (st_cache s) (i, dc_version d, fmt) | None \<Rightarrow> Some (fst r, snd r, (dc_title d, dc_content d)))"
proof -
  from assms(1) obtain d u where own: "owned_document E rq ''Document not found'' i s = (Inr d, u)"
    and rest: "bindP (reading (ev_cache_flag E)) (\<lambda>flag.
     if flag then
       bindP (getP (cache_get d fmt)) (\<lambda>hit. case hit of
           Some r \<Rightarrow> retP r
         | None \<Rightarrow> thenP (modP (cache_put d fmt (export_document d fmt))) (retP (export_document d fmt)))
     else retP (export_document d fmt)) u = (Inr r, t)"
    unfolding api_export_def bindP_Inr by blast
  have u: "u = s" and d: "d \<in> set (st_documents s)" "dc_id d = i" using owned_outcome [OF own] by auto
  have tick: "cache_get d fmt (s\<lparr>st_tick := n\<rparr>) = cache_get d fmt s" for n by (simp add: cache_get_def)
  show ?thesis
  proof (cases "cache_get d fmt s")
    case None
    then have "r = export_document d fmt" "t = cache_put d fmt (export_document d fmt) (s\<lparr>st_tick := Suc (st_tick s)\<rparr>)"
      using rest u assms(2) tick by (auto simp: bindP_eval thenP_eval reading_def)
    with None d that show ?thesis by (simp add: cache_put_def update_conv')
  next
    case (Some e)
    then have "r = e" "t = s\<lparr>st_tick := Suc (st_tick s)\<rparr>"
      using rest u assms(2) tick by (auto simp: bindP_eval thenP_eval reading_def)
    with Some d that show ?thesis by simp
  qed
qed

text \<open>C9. With the render cache on, an export between two overlapping updates is served again after the second: the export
  shows the text of the first update, while the document has the text of the second.\<close>

theorem overlapping_updates_stale_export:
  assumes "reached E s" and "\<forall>n. ev_cache_flag E n" and "get_document i s = (Inr (Some d), s)"
    and "update_loaded E a author d s = (Inr x, t)" and "api_export E rq i fmt t = (Inr early, t')"
    and "update_loaded E b author' d t' = (Inr (Some row), u)" and "api_export E rq i fmt u = (Inr late, u')"
    and "up_content b \<noteq> dc_content d"
  shows "dc_content row = up_content b \<and> late = early \<and> late = export_document (updated_by a d) fmt"
proof -
  have wf: "wf_store s" and snd_s: "sound s" using reached_sound [OF assms(1)] by (simp_all add: sound_def)
  have d: "d \<in> set (st_documents s)" "dc_id d = i" using get_document_outcome(2) [OF assms(3)] by auto
  obtain k where first: "saved s d ((updated_by a d)\<lparr>dc_version := Suc (dc_version d), dc_updated := k\<rparr>)
      (case author of None \<Rightarrow> dc_owner d | Some a \<Rightarrow> a) t" (is "saved s d ?new _ t") using assms(4) by (rule update_loaded_saved)
  obtain l where second: "saved t' d ((updated_by b d)\<lparr>dc_version := Suc (dc_version d), dc_updated := l\<rparr>)
      (case author' of None \<Rightarrow> dc_owner d | Some a \<Rightarrow> a) u" (is "saved t' d ?old _ u")
    and found: "find (\<lambda>x. dc_id x = dc_id d) (st_documents u) = Some row"
    using assms(6) by (rule update_loaded_saved) auto
  have der: "derived d ?new" and ids: "dc_id ?new = dc_id d" "dc_id ?old = dc_id d" by (simp_all add: derived_def updated_by_def)
  note t = saved_versions(2,3) [OF first ids(1)]
  note u = saved_versions(2,3) [OF second ids(2)]
  text \<open>The export after the first update renders it, since nothing of that version is cached yet.\<close>
  obtain e where e: "e \<in> set (st_documents t)" "dc_id e = i"
    "early = (case cache_get e fmt t of Some r \<Rightarrow> r | None \<Rightarrow> export_document e fmt)"
    "st_documents t' = st_documents t"
    "map_of (st_cache t') (i, dc_version e, fmt) = (case cache_get e fmt t of
       Some r \<Rightarrow> map_of (st_cache t) (i, dc_version e, fmt) | None \<Rightarrow> Some (fst early, snd early, (dc_title e, dc_content e)))"
    using assms(5,2) by (rule export_run)
  have "e = flush_row d ?new d" using flushed_row [OF wf d(1)] e(1,2) d(2) t(1) by simp
  then have new: "e = ?new" using flush_row_loaded [OF der] by simp
  have "map_of (st_cache s) (i, Suc (dc_version d), fmt) = None" using no_cached_future [OF snd_s d(1)] d(2) by simp
  then have miss: "cache_get e fmt t = None" using t(2) new d(2) by (simp add: cache_get_def updated_by_def)
  then have early: "early = export_document ?new fmt" using e(3) new by simp
  have cached: "map_of (st_cache u) (i, Suc (dc_version d), fmt) = Some (fst early, snd early, (dc_title e, dc_content e))"
    using u(2) e(5) miss new by simp
  text \<open>The second update writes the same version number.\<close>
  obtain y where y: "y \<in> set (st_documents u)" "dc_id y = i"
    "late = (case cache_get y fmt u of Some r \<Rightarrow> r | None \<Rightarrow> export_document y fmt)"
    using assms(7,2) by (rule export_run)
  have row: "x = flush_row d ?old ?new" if "x \<in> set (st_documents u)" "dc_id x = i" for x
  proof -
    have "x \<in> set (st_documents (put_document d ?old t'))" using that(1) u(1) by simp
    then obtain z where z: "z \<in> set (st_documents t)" "x = (if dc_id z = dc_id d then flush_row d ?old z else z)"
      unfolding put_document_def using e(4) by auto
    then have "dc_id z = dc_id d" using that(2) d(2) by (auto split: if_splits)
    then have "z = ?new" using flushed_row [OF wf d(1)] z(1) t(1) flush_row_loaded [OF der] by simp
    with z ids(1) show ?thesis by simp
  qed
  have "dc_version y = Suc (dc_version d)" using row [OF y(1,2)] by (simp add: flush_row_def written_def)
  then have "cache_get y fmt u = Some early" using cached y(2) by (simp add: cache_get_def)
  then have late: "late = early" using y(3) by simp
  have "row \<in> set (st_documents u)" "dc_id row = i" using found d(2) by (auto simp: find_Some_iff in_set_conv_nth)
  from row [OF this] have "dc_content row = up_content b"
    using assms(8) by (simp add: flush_row_def written_def updated_by_def)
  moreover have "export_document ?new fmt = export_document (updated_by a d) fmt" by (rule export_document_cong) simp_all
  ultimately show ?thesis using late early by simp
qed

theorem overlapping_updates_stale_export_witness:
  "dc_content second_row = ''second'' \<and> first_export = export_document (updated_by (sample_body ''first'') sample_doc) Html"
proof -
  have "\<forall>n. ev_cache_flag sample_env n" by (simp add: sample_env_def)
  moreover have "up_content (sample_body ''second'') \<noteq> dc_content sample_doc" by (simp add: sample_body_def sample_facts)
  ultimately show ?thesis
    using overlapping_updates_stale_export [OF sample_reached(2) _ race_runs(1-5)] by (simp add: sample_body_def)
qed

end
