(* ===== verification/Doc_Log.thy ===== *)
theory Doc_Log
  imports Py_Regex
begin

text \<open>
  The request log of the document service (\<open>app/middleware/request_log.py\<close>): masking of headers and of
  credential fields in response bodies, the log directory with its byte count, and the two ways a
  response is recorded: whole, or while it streams through, up to a limit. The decoder of response bytes
  (UTF-8 with replacement) is an argument, and so are the file contents of the log directory. The
  masking of the query string is not modelled.
\<close>

type_synonym bytes_chunk = "8 word list"

section \<open>Masking\<close>

definition redacted_headers :: "string list" where
  "redacted_headers = [''authorization'', ''cookie'', ''proxy-authorization'', ''x-api-key'']"

definition redacted :: string where
  "redacted = ''[redacted]''"

definition redact_headers :: "(string \<times> string) list \<Rightarrow> (string \<times> string) list" where
  "redact_headers hs = map (\<lambda>(k, v). (k, if py_lower k \<in> set redacted_headers then redacted else v)) hs"

definition redacted_params :: "string list" where
  "redacted_params = [''access_token'', ''api_key'', ''signature'', ''token'']"

definition quote :: re where
  "quote = Cls (\<lambda>c. c = CHR 0x22)"

definition secret_field :: re where
  "secret_field = Seqs
     [quote, Grp ''1'' (Alts (map LitI redacted_params)), quote,
      Grp ''2'' (Seqs [Star Space, Cls (\<lambda>c. c = CHR '':''), Star Space]),
      quote,
      Star (Alt (Cls (\<lambda>c. c \<noteq> CHR 0x22 \<and> c \<noteq> CHR 0x5C)) (Seq (Cls (\<lambda>c. c = CHR 0x5C)) (Cls (\<lambda>c. c \<noteq> CHR 0x0A)))),
      quote]"

text \<open>\<open>pattern.sub\<close> for a pattern that matches no empty text: the leftmost matches, replaced in order.\<close>

function re_sub :: "re \<Rightarrow> (captures \<Rightarrow> string) \<Rightarrow> string \<Rightarrow> string" where
  "re_sub r f s = (case s of
       [] \<Rightarrow> []
     | c # u \<Rightarrow> (case rm r s of
           [] \<Rightarrow> c # re_sub r f u
         | (caps, t) # _ \<Rightarrow> if length t < length s then f caps @ re_sub r f t else c # re_sub r f u))"
  by pat_completeness auto
termination
  by (relation "measure (\<lambda>(r, f, s). length s)") auto

declare re_sub.simps [simp del]

definition masked :: "captures \<Rightarrow> string" where
  "masked caps = [CHR 0x22] @ the (group caps ''1'') @ [CHR 0x22] @ the (group caps ''2'') @ [CHR 0x22] @ redacted @ [CHR 0x22]"

definition redact_body :: "string \<Rightarrow> string" where
  "redact_body s = re_sub secret_field masked s"

section \<open>The log directory\<close>

text \<open>\<open>RequestLog\<close>: the files of the directory and the count of bytes.\<close>

record request_log =
  lg_files :: "(string \<times> string) list"
  lg_bytes :: nat

definition log_path :: "string \<Rightarrow> string" where
  "log_path host = ''requests-'' @ host @ ''.jsonl''"

definition scan_total :: "(string \<times> string) list \<Rightarrow> nat" where
  "scan_total files = sum_list (map (\<lambda>f. length (snd f)) files)"

definition open_log :: "(string \<times> string) list \<Rightarrow> request_log" where
  "open_log files = \<lparr>lg_files = files, lg_bytes = scan_total files\<rparr>"

fun append_file :: "string \<Rightarrow> string \<Rightarrow> (string \<times> string) list \<Rightarrow> (string \<times> string) list" where
  "append_file p line [] = [(p, line)]"
| "append_file p line ((q, body) # fs) = (if q = p then (q, body @ line) # fs else (q, body) # append_file p line fs)"

text \<open>\<open>append\<close> of a serialized record\<close>

definition log_append :: "string \<Rightarrow> string \<Rightarrow> request_log \<Rightarrow> request_log" where
  "log_append host text lg =
     \<lparr>lg_files = append_file (log_path host) (text @ [CHR 0x0A]) (lg_files lg),
      lg_bytes = lg_bytes lg + length (text @ [CHR 0x0A])\<rparr>"

text \<open>\<open>purge\<close>: \<open>listed\<close> and \<open>removable\<close> tell whether the directory can be read and a file unlinked.\<close>

fun unlink_all :: "(string \<Rightarrow> bool) \<Rightarrow> (string \<times> string) list \<Rightarrow> (string \<times> string) list" where
  "unlink_all removable [] = []"
| "unlink_all removable ((p, body) # fs) = (if removable p then unlink_all removable fs else (p, body) # fs)"

definition log_purge :: "(string \<Rightarrow> bool) \<Rightarrow> request_log \<Rightarrow> request_log" where
  "log_purge removable lg = open_log (unlink_all removable (lg_files lg))"

lemma scan_append_file [simp]: "scan_total (append_file p line fs) = scan_total fs + length line"
  by (induction p line fs rule: append_file.induct) (auto simp: scan_total_def)

text \<open>Operations of the log, in any order.\<close>

datatype log_op = Append string | Purge "string \<Rightarrow> bool"

fun log_step :: "string \<Rightarrow> log_op \<Rightarrow> request_log \<Rightarrow> request_log" where
  "log_step host (Append text) lg = log_append host text lg"
| "log_step host (Purge removable) lg = log_purge removable lg"

lemma log_bytes_exact:
  "lg_bytes (fold (log_step host) ops (open_log files)) = scan_total (lg_files (fold (log_step host) ops (open_log files)))"
proof -
  have "lg_bytes lg = scan_total (lg_files lg) \<Longrightarrow>
      lg_bytes (fold (log_step host) ops lg) = scan_total (lg_files (fold (log_step host) ops lg))" for lg
  proof (induction ops arbitrary: lg)
    case (Cons x ops)
    have "lg_bytes (log_step host x lg) = scan_total (lg_files (log_step host x lg))"
      using Cons.prems by (cases x) (simp_all add: log_append_def log_purge_def open_log_def)
    with Cons.IH show ?case by simp
  qed simp
  then show ?thesis by (simp add: open_log_def)
qed

section \<open>Recording a response\<close>

definition capture_limit :: nat where
  "capture_limit = 2 ^ 20"

text \<open>None: no usable header; an error where \<open>isdigit\<close> holds and \<open>int\<close> fails.\<close>

definition declared_length :: "string option \<Rightarrow> string + int option" where
  "declared_length header = (let raw = (case header of None \<Rightarrow> [] | Some h \<Rightarrow> h) in
     if py_isdigit raw then (case py_int raw of None \<Rightarrow> Inl ''ValueError'' | Some n \<Rightarrow> Inr (Some n)) else Inr None)"

record log_record =
  lr_method :: string
  lr_path :: string
  lr_status :: nat
  lr_headers :: "(string \<times> string) list"
  lr_response :: string
  lr_truncated :: "bool option"

record exchange =
  xc_method :: string
  xc_path :: string
  xc_headers :: "(string \<times> string) list"
  xc_status :: nat
  xc_length :: "string option"
  xc_chunks :: "bytes_chunk list"

definition skip_paths :: "string list" where
  "skip_paths = [''/health'', ''/metrics'', ''/ready'']"

text \<open>One chunk of \<open>tee\<close>: what is kept so far, and whether something was cut off.\<close>

definition tee_step :: "bytes_chunk \<Rightarrow> bytes_chunk \<times> bool \<Rightarrow> bytes_chunk \<times> bool" where
  "tee_step chunk st = (let room = capture_limit - length (fst st) in
     (fst st @ take room chunk, snd st \<or> room < length chunk))"

definition base_record :: "exchange \<Rightarrow> log_record" where
  "base_record x = \<lparr>lr_method = xc_method x, lr_path = xc_path x, lr_status = xc_status x,
     lr_headers = redact_headers (xc_headers x), lr_response = [], lr_truncated = None\<rparr>"

text \<open>
  The chunks that reach the client, and the record that is appended. A response that is recorded whole
  fails with the write of its record, a streamed one does not.
\<close>

definition log_exchange ::
  "bool \<Rightarrow> bool \<Rightarrow> (bytes_chunk \<Rightarrow> string) \<Rightarrow> exchange \<Rightarrow> string + (bytes_chunk list \<times> log_record option)" where
  "log_exchange active writable dec x =
     (if xc_path x \<in> set skip_paths \<or> \<not> active then Inr (xc_chunks x, None)
      else case declared_length (xc_length x) of
        Inl e \<Rightarrow> Inl e
      | Inr n \<Rightarrow>
          if n \<noteq> None \<and> the n \<le> int capture_limit then
            let body = concat (xc_chunks x) in
            if \<not> writable then Inl ''OSError''
            else Inr ([body], Some ((base_record x)\<lparr>lr_response := redact_body (dec body)\<rparr>))
          else
            let st = fold tee_step (xc_chunks x) ([], False) in
            Inr (xc_chunks x, if writable
              then Some ((base_record x)\<lparr>lr_response := redact_body (dec (fst st)), lr_truncated := Some (snd st)\<rparr>)
              else None))"

lemma tee_prefix:
  "length kept \<le> capture_limit \<Longrightarrow>
   fold tee_step cs (kept, lost) = (take capture_limit (kept @ concat cs), lost \<or> capture_limit < length (kept @ concat cs))"
proof (induction cs arbitrary: kept lost)
  case (Cons c cs)
  have "fold tee_step (c # cs) (kept, lost) =
      fold tee_step cs (kept @ take (capture_limit - length kept) c, lost \<or> capture_limit - length kept < length c)"
    by (simp add: tee_step_def Let_def)
  also have "\<dots> = (take capture_limit ((kept @ take (capture_limit - length kept) c) @ concat cs),
      (lost \<or> capture_limit - length kept < length c) \<or> capture_limit < length ((kept @ take (capture_limit - length kept) c) @ concat cs))"
    using Cons.prems by (intro Cons.IH) simp
  finally show ?case using Cons.prems by (auto simp: min_def)
qed simp


definition sample_exchange :: exchange where
  "sample_exchange = \<lparr>xc_method = ''GET'', xc_path = ''/api'', xc_headers = [(''Authorization'', ''Bearer x''), (''Accept'', ''*/*'')],
     xc_status = 200, xc_length = None, xc_chunks = [[1, 2], [3]]\<rparr>"


text \<open>A log that cannot be written fails every request whose response is recorded whole.\<close>

lemma unwritable_log_fails_request:
  assumes "xc_path x \<notin> set skip_paths" and "declared_length (xc_length x) = Inr (Some n)" and "n \<le> int capture_limit"
  shows "log_exchange True False dec x = Inl ''OSError''"
  using assms by (simp add: log_exchange_def)

end
