(* ===== verification/Doc_Runtime.thy ===== *)
theory Doc_Runtime
  imports Py_Prelude
begin

text \<open>
  The process of the document service around its requests: the cache of the runtime flags
  (\<open>app/chaos.py\<close>) and the migration at start (\<open>app/db/migrate.py\<close>). Instants are milliseconds of the
  monotonic clock. What Redis answers is an argument; every question put to it is logged in the state.
\<close>

section \<open>Runtime flags\<close>

record lookup =
  lk_key :: string
  lk_at :: int
  lk_ok :: bool

record flag_state =
  fl_cache :: "string \<rightharpoonup> int \<times> bool"
  fl_lookups :: "lookup list"

definition no_flags :: flag_state where
  "no_flags = \<lparr>fl_cache = Map.empty, fl_lookups = []\<rparr>"

definition flag_ttl :: "bool \<Rightarrow> int" where
  "flag_ttl answered = (if answered then 2000 else 15000)"

text \<open>\<open>flag_active\<close>: \<open>redis\<close> answers whether the key exists, or fails.\<close>

definition flag_active :: "(string \<Rightarrow> int \<Rightarrow> bool option) \<Rightarrow> string \<Rightarrow> int \<Rightarrow> flag_state \<Rightarrow> bool \<times> flag_state" where
  "flag_active redis key now fl =
     (let ask = (case redis key now of
            Some active \<Rightarrow> (active, True)
          | None \<Rightarrow> (False, False));
          missed = (fst ask, fl\<lparr>fl_cache := (fl_cache fl)(key \<mapsto> (now + flag_ttl (snd ask), fst ask)),
            fl_lookups := fl_lookups fl @ [\<lparr>lk_key = key, lk_at = now, lk_ok = snd ask\<rparr>]\<rparr>) in
      case fl_cache fl key of
        None \<Rightarrow> missed
      | Some (expires, active) \<Rightarrow> if now < expires then (active, fl) else missed)"

fun ask_flags :: "(string \<Rightarrow> int \<Rightarrow> bool option) \<Rightarrow> (string \<times> int) list \<Rightarrow> flag_state \<Rightarrow> flag_state" where
  "ask_flags redis [] fl = fl"
| "ask_flags redis ((key, now) # qs) fl = ask_flags redis qs (snd (flag_active redis key now fl))"

definition spaced :: "lookup \<Rightarrow> lookup \<Rightarrow> bool" where
  "spaced a b \<longleftrightarrow> (lk_key a = lk_key b \<longrightarrow> lk_at a + flag_ttl (lk_ok a) \<le> lk_at b)"

definition flags_wf :: "flag_state \<Rightarrow> bool" where
  "flags_wf fl \<longleftrightarrow> sorted_wrt spaced (fl_lookups fl) \<and>
     (\<forall>a \<in> set (fl_lookups fl). \<exists>e v. fl_cache fl (lk_key a) = Some (e, v) \<and> lk_at a + flag_ttl (lk_ok a) \<le> e)"

lemma flag_step_wf:
  assumes "flags_wf fl"
  shows "flags_wf (snd (flag_active redis key now fl))"
proof (cases "\<exists>e v. fl_cache fl key = Some (e, v) \<and> now < e")
  case True
  then show ?thesis using assms by (auto simp: flag_active_def Let_def)
next
  case False
  obtain active ok where "(case redis key now of Some a \<Rightarrow> (a, True) | None \<Rightarrow> (False, False)) = (active, ok)" by fastforce
  then have next_fl: "snd (flag_active redis key now fl) = fl\<lparr>fl_cache := (fl_cache fl)(key \<mapsto> (now + flag_ttl ok, active)),
      fl_lookups := fl_lookups fl @ [\<lparr>lk_key = key, lk_at = now, lk_ok = ok\<rparr>]\<rparr>"
    using False by (auto simp: flag_active_def Let_def split: option.splits)
  have past: "lk_at a + flag_ttl (lk_ok a) \<le> now" if "a \<in> set (fl_lookups fl)" "lk_key a = key" for a
  proof -
    from assms that obtain e v where "fl_cache fl key = Some (e, v)" "lk_at a + flag_ttl (lk_ok a) \<le> e"
      by (auto simp: flags_wf_def)
    with False show ?thesis by force
  qed
  have "0 \<le> flag_ttl ok" by (simp add: flag_ttl_def)
  with past assms show ?thesis
    unfolding next_fl by (fastforce simp: flags_wf_def sorted_wrt_append spaced_def)
qed

text \<open>However often a flag is read, Redis is asked for it at most once in two seconds, and after a failed attempt not for
  fifteen.\<close>

theorem flag_lookups_spaced: "sorted_wrt spaced (fl_lookups (ask_flags redis qs no_flags))"
proof -
  have "flags_wf fl \<Longrightarrow> flags_wf (ask_flags redis qs fl)" for fl
    by (induction redis qs fl rule: ask_flags.induct) (simp_all add: flag_step_wf)
  then show ?thesis by (simp add: flags_wf_def no_flags_def)
qed

section \<open>Migration at start\<close>

definition baseline_tables :: "string list" where
  "baseline_tables = [''documents'', ''document_versions'', ''comments'', ''templates'']"

datatype migration = Stamp string | Upgrade string

text \<open>\<open>upgrade_to_head\<close>: the migration commands, or the error with the tables that it names.\<close>

definition upgrade_to_head :: "string list \<Rightarrow> (string list \<times> string list) + migration list" where
  "upgrade_to_head tables =
     (let legacy = filter (\<lambda>t. t \<in> set tables) baseline_tables;
          missing = filter (\<lambda>t. t \<notin> set tables) baseline_tables in
      if legacy \<noteq> [] \<and> ''alembic_version'' \<notin> set tables then
        (if missing \<noteq> [] then Inl (legacy, missing) else Inr [Stamp ''001'', Upgrade ''head''])
      else Inr [Upgrade ''head''])"

text \<open>Only a schema that has all tables of the baseline and no version is stamped with it.\<close>

lemma stamped_complete:
  assumes "upgrade_to_head tables = Inr ms" and "Stamp r \<in> set ms"
  shows "r = ''001'' \<and> set baseline_tables \<subseteq> set tables \<and> ''alembic_version'' \<notin> set tables"
  using assms by (auto simp: upgrade_to_head_def Let_def filter_empty_conv split: if_splits)

end
