(* ===== verification/Py_Json.thy ===== *)
theory Py_Json
  imports Py_Text "HOL-Library.AList"
begin

text \<open>
  The values that \<open>json.loads\<close> yields, without floating point numbers: truth, dictionaries in the order
  of their keys, \<open>get\<close> with a default, \<open>str\<close> and \<open>repr\<close>, and \<open>in\<close> for texts.
\<close>

datatype json =
    JNull
  | JBool bool
  | JInt int
  | JStr string
  | JList "json list"
  | JDict "(string \<times> json) list"

type_synonym dict = "(string \<times> json) list"

fun truthy :: "json \<Rightarrow> bool" where
  "truthy JNull = False"
| "truthy (JBool b) = b"
| "truthy (JInt i) = (i \<noteq> 0)"
| "truthy (JStr s) = (s \<noteq> [])"
| "truthy (JList xs) = (xs \<noteq> [])"
| "truthy (JDict d) = (d \<noteq> [])"

text \<open>\<open>d.get(k, dflt)\<close>; \<open>d.get(k)\<close> has the default None.\<close>

definition jget :: "string \<Rightarrow> json \<Rightarrow> dict \<Rightarrow> json" where
  "jget k dflt d = (case map_of d k of None \<Rightarrow> dflt | Some v \<Rightarrow> v)"

definition jhas :: "string \<Rightarrow> dict \<Rightarrow> bool" where
  "jhas k d \<longleftrightarrow> map_of d k \<noteq> None"

definition jset :: "string \<Rightarrow> json \<Rightarrow> dict \<Rightarrow> dict" where
  "jset k v d = AList.update k v d"

text \<open>\<open>a or b\<close>\<close>

definition py_or :: "json \<Rightarrow> json \<Rightarrow> json" where
  "py_or a b = (if truthy a then a else b)"

text \<open>\<open>part in text\<close>\<close>

definition text_contains :: "string \<Rightarrow> string \<Rightarrow> bool" where
  "text_contains part t \<longleftrightarrow> list_ex (\<lambda>k. take (length part) (drop k t) = part) [0..<Suc (length t)]"

text \<open>\<open>repr\<close> of a text: in double quotes when it has single quotes and no double ones.\<close>

definition printable :: "char \<Rightarrow> bool" where
  "printable c \<longleftrightarrow> (let n = of_char c :: nat in 32 \<le> n \<and> n < 127 \<or> 160 < n \<and> n \<noteq> 173)"

definition repr_char :: "char \<Rightarrow> char \<Rightarrow> string" where
  "repr_char quote c =
     (if c = quote \<or> c = CHR 0x5C then [CHR 0x5C, c]
      else if c = CHR 0x09 then [CHR 0x5C, CHR ''t'']
      else if c = CHR 0x0A then [CHR 0x5C, CHR ''n'']
      else if c = CHR 0x0D then [CHR 0x5C, CHR ''r'']
      else if printable c then [c]
      else [CHR 0x5C, CHR ''x''] @ py_hex [of_nat (of_char c)])"

definition repr_str :: "string \<Rightarrow> string" where
  "repr_str s =
     (let quote = (if CHR 0x27 \<in> set s \<and> CHR 0x22 \<notin> set s then CHR 0x22 else CHR 0x27) in
      [quote] @ concat (map (repr_char quote) s) @ [quote])"

fun json_repr :: "json \<Rightarrow> string" where
  "json_repr JNull = ''None''"
| "json_repr (JBool b) = (if b then ''True'' else ''False'')"
| "json_repr (JInt i) = str_int i"
| "json_repr (JStr s) = repr_str s"
| "json_repr (JList xs) = ''['' @ py_join '', '' (map json_repr xs) @ '']''"
| "json_repr (JDict d) = ''{'' @ py_join '', '' (map (\<lambda>(k, v). repr_str k @ '': '' @ json_repr v) d) @ ''}''"

definition json_str :: "json \<Rightarrow> string" where
  "json_str j = (case j of JStr s \<Rightarrow> s | _ \<Rightarrow> json_repr j)"

text \<open>\<open>int(value)\<close>; None for a \<open>ValueError\<close> or \<open>TypeError\<close>\<close>

definition json_int :: "json \<Rightarrow> int option" where
  "json_int j = (case j of
       JInt i \<Rightarrow> Some i
     | JBool b \<Rightarrow> Some (if b then 1 else 0)
     | JStr s \<Rightarrow> py_int s
     | _ \<Rightarrow> None)"

lemma jget_simps [simp]:
  "jget k z [] = z" "jget k z ((k', v) # d) = (if k' = k then v else jget k z d)"
  by (simp_all add: jget_def)

lemma jhas_simps [simp]: "\<not> jhas k []" "jhas k ((k', v) # d) = (k' = k \<or> jhas k d)"
  by (simp_all add: jhas_def)

lemma map_of_jset [simp]: "map_of (jset k v d) = (map_of d)(k \<mapsto> v)"
  by (simp add: jset_def update_conv')

lemma jget_jset [simp]: "jget k z (jset k' v d) = (if k = k' then v else jget k z d)"
  by (simp add: jget_def)

end
