(* ===== verification/Search_Index.thy ===== *)
theory Search_Index
  imports Py_Json
begin

text \<open>
  The client of the search server (\<open>services/search-service/app/services/meilisearch_client.py\<close>): indexing,
  deletion and reindexing with their checks of the server's tasks, searches over one or two indices with
  their filters and pages, suggestions, and the recorded analytics. The search server is outside: its
  operations are fields of the record \<open>meili\<close>, over a state of any type, and so are the configured names
  of the two indices.
\<close>

section \<open>The search server\<close>

text \<open>\<open>ValueError\<close>, \<open>RuntimeError\<close>, \<open>MeilisearchApiError\<close>, any other exception\<close>

datatype search_error =
    ValueErr string
  | RuntimeErr string
  | ApiErr string
  | OtherErr string

text \<open>What \<open>wait_for_task\<close> reports; an empty status stands for a missing one.\<close>

record task =
  tk_uid :: nat
  tk_status :: string
  tk_error :: string

text \<open>
  The operations that the code calls. \<open>ml_add\<close>, \<open>ml_delete\<close>, \<open>ml_drop\<close> and \<open>ml_create\<close> stand for the request and
  the wait for its task; \<open>ml_search\<close> yields the hits and the estimated total.
\<close>

record 'm meili =
  ml_documents :: string
  ml_files :: string
  ml_add :: "string \<Rightarrow> dict list \<Rightarrow> ('m, search_error, task) prog"
  ml_delete :: "string \<Rightarrow> json \<Rightarrow> ('m, search_error, task) prog"
  ml_get :: "string \<Rightarrow> json \<Rightarrow> ('m, search_error, dict) prog"
  ml_get_index :: "string \<Rightarrow> ('m, search_error, unit) prog"
  ml_create :: "string \<Rightarrow> dict \<Rightarrow> ('m, search_error, task) prog"
  ml_drop :: "string \<Rightarrow> ('m, search_error, task) prog"
  ml_setting :: "string \<Rightarrow> string \<Rightarrow> string list \<Rightarrow> ('m, search_error, unit) prog"
  ml_search :: "string \<Rightarrow> string \<Rightarrow> dict \<Rightarrow> ('m, search_error, dict list \<times> nat) prog"
  ml_health :: "('m, search_error, unit) prog"

definition ping :: "'m meili \<Rightarrow> ('m, search_error, bool) prog" where
  "ping M = tryP (thenP (ml_health M) (retP True)) (\<lambda>_. retP False)"

definition wait_and_check :: "task \<Rightarrow> ('m, search_error, unit) prog" where
  "wait_and_check tk =
     (if tk_status tk \<noteq> [] \<and> tk_status tk \<noteq> ''succeeded''
      then raiseP (RuntimeErr (''MeiliSearch task '' @ str_nat (tk_uid tk) @ '' '' @ tk_status tk @ '': '' @ tk_error tk))
      else retP ())"

definition ranking_rules :: "string list" where
  "ranking_rules = [''words'', ''typo'', ''proximity'', ''attribute'', ''sort'', ''exactness'']"

definition configure_index :: "'m meili \<Rightarrow> string \<Rightarrow> string list \<Rightarrow> string list \<Rightarrow> string list \<Rightarrow> ('m, search_error, unit) prog" where
  "configure_index M idx searchable filterable sortable =
     thenP (ml_setting M idx ''searchable'' searchable)
    (thenP (ml_setting M idx ''filterable'' filterable)
    (thenP (ml_setting M idx ''sortable'' sortable) (ml_setting M idx ''ranking'' ranking_rules)))"

definition ensure_indices :: "'m meili \<Rightarrow> ('m, search_error, unit) prog" where
  "ensure_indices M =
     thenP (forP [ml_documents M, ml_files M] (\<lambda>idx. tryP (ml_get_index M idx) (\<lambda>e. case e of
         ApiErr _ \<Rightarrow> bindP (ml_create M idx [(''primaryKey'', JStr ''id'')]) (\<lambda>_. retP ())
       | _ \<Rightarrow> raiseP e)))
    (thenP (configure_index M (ml_documents M) [''title'', ''content'', ''tags'']
        [''type'', ''owner_id'', ''tags'', ''created_at'', ''updated_at''] [''updated_at'', ''created_at''])
      (configure_index M (ml_files M) [''name'', ''tags'', ''mime_type'']
        [''type'', ''owner_id'', ''mime_type'', ''folder_id'', ''tags'', ''created_at'', ''updated_at'']
        [''updated_at'', ''created_at'', ''size'']))"

section \<open>Indexing\<close>

definition ms_index_document :: "'m meili \<Rightarrow> dict \<Rightarrow> ('m, search_error, unit) prog" where
  "ms_index_document M d =
     bindP (ml_add M (ml_documents M) [jset ''type'' (JStr ''document'') d]) wait_and_check"

text \<open>The file is deleted and added again once when the server's store already has its key.\<close>

definition ms_index_file :: "'m meili \<Rightarrow> dict \<Rightarrow> ('m, search_error, unit) prog" where
  "ms_index_file M f =
     (let entry = jset ''type'' (JStr ''file'') f in
      bindP (ml_add M (ml_files M) [entry]) (\<lambda>tk.
      tryP (wait_and_check tk) (\<lambda>e. case e of
          RuntimeErr msg \<Rightarrow>
            if text_contains ''MDB_KEYEXIST'' msg then
              thenP (bindP (ml_delete M (ml_files M) (jget ''id'' JNull entry)) wait_and_check)
                (bindP (ml_add M (ml_files M) [entry]) wait_and_check)
            else raiseP e
        | _ \<Rightarrow> raiseP e)))"

definition ms_delete_document :: "'m meili \<Rightarrow> string \<Rightarrow> json \<Rightarrow> ('m, search_error, bool) prog" where
  "ms_delete_document M ty i =
     (let idx = (if ty = ''document'' then ml_documents M else ml_files M) in
      bindP (tryP (thenP (ml_get M idx i) (retP True)) (\<lambda>e. case e of ApiErr _ \<Rightarrow> retP False | _ \<Rightarrow> raiseP e)) (\<lambda>found.
      if \<not> found then retP False
      else thenP (bindP (ml_delete M idx i) wait_and_check) (retP True)))"

definition drop_index :: "'m meili \<Rightarrow> string \<Rightarrow> ('m, search_error, unit) prog" where
  "drop_index M idx = tryP (bindP (ml_drop M idx) wait_and_check) (\<lambda>e. case e of
       ApiErr _ \<Rightarrow> retP ()
     | RuntimeErr _ \<Rightarrow> retP ()
     | _ \<Rightarrow> raiseP e)"

definition add_batches :: "'m meili \<Rightarrow> string \<Rightarrow> dict list \<Rightarrow> ('m, search_error, unit) prog" where
  "add_batches M idx ds = forP (chunks 500 ds) (\<lambda>batch. bindP (ml_add M idx batch) wait_and_check)"

definition ms_reindex :: "'m meili \<Rightarrow> dict list \<Rightarrow> dict list \<Rightarrow> ('m, search_error, dict) prog" where
  "ms_reindex M documents files =
     thenP (forP [ml_documents M, ml_files M] (drop_index M))
    (thenP (ensure_indices M)
    (thenP (if documents \<noteq> [] then add_batches M (ml_documents M) documents else retP ())
    (thenP (if files \<noteq> [] then add_batches M (ml_files M) files else retP ())
     (retP [(''status'', JStr ''reindexed''), (''indices'', JList [JStr (ml_documents M), JStr (ml_files M)]),
        (''indexed_counts'', JDict [(''documents'', JInt (int (length documents))), (''files'', JInt (int (length files)))])]))))"

section \<open>Analytics\<close>

record analytics =
  an_queries :: "(string \<times> nat) list"
  an_searches :: nat
  an_results :: nat

definition no_analytics :: analytics where
  "no_analytics = \<lparr>an_queries = [], an_searches = 0, an_results = 0\<rparr>"

definition max_entries :: nat where
  "max_entries = 10000"

text \<open>The time of the entry, which nothing reads, is left out.\<close>

definition record_search :: "string \<Rightarrow> nat \<Rightarrow> analytics \<Rightarrow> analytics" where
  "record_search q n a =
     (let qs = an_queries a @ [(q, n)] in
      \<lparr>an_queries = (if max_entries < length qs then drop (length qs - max_entries) qs else qs),
       an_searches = an_searches a + 1, an_results = an_results a + n\<rparr>)"

fun count_query :: "string \<Rightarrow> (string \<times> nat) list \<Rightarrow> (string \<times> nat) list" where
  "count_query q [] = [(q, 1)]"
| "count_query q ((p, n) # cs) = (if p = q then (p, n + 1) # cs else (p, n) # count_query q cs)"

definition query_counts :: "string list \<Rightarrow> (string \<times> nat) list" where
  "query_counts qs = fold count_query qs []"

text \<open>\<open>sorted(..., key=count, reverse=True)[:20]\<close> keeps the order of equal counts.\<close>

definition top_queries :: "string list \<Rightarrow> (string \<times> nat) list" where
  "top_queries qs = take 20 (rev (sort_key snd (rev (query_counts qs))))"

text \<open>The average is kept as the pair of its numerator and denominator; the code divides and rounds it.\<close>

record analytics_data =
  ad_popular :: "(string \<times> nat) list"
  ad_zero_results :: "(string \<times> nat) list"
  ad_searches :: nat
  ad_average :: "nat \<times> nat"

definition get_search_analytics :: "analytics \<Rightarrow> analytics_data" where
  "get_search_analytics a =
     \<lparr>ad_popular = top_queries (map fst (an_queries a)),
      ad_zero_results = top_queries (map fst (filter (\<lambda>e. snd e = 0) (an_queries a))),
      ad_searches = an_searches a,
      ad_average = (if 0 < an_searches a then (an_results a, an_searches a) else (0, 1))\<rparr>"

section \<open>Hits\<close>

record search_hit =
  sh_id :: json
  sh_title :: json
  sh_snippet :: string
  sh_type :: json
  sh_owner :: json
  sh_tags :: json
  sh_highlights :: "(string \<times> string list) list"
  sh_created :: json
  sh_updated :: json
  sh_mime_type :: json
  sh_folder :: json
  sh_size :: json

text \<open>The server's \<open>_formatted\<close> is an object.\<close>

definition formatted_of :: "dict \<Rightarrow> dict" where
  "formatted_of hit = (case jget ''_formatted'' (JDict []) hit of JDict d \<Rightarrow> d | _ \<Rightarrow> [])"

definition highlight_of :: "dict \<Rightarrow> string \<Rightarrow> (string \<times> string list) list" where
  "highlight_of formatted field =
     (if jhas field formatted \<and> text_contains ''<em>'' (json_str (jget field JNull formatted))
      then [(field, [json_str (jget field JNull formatted)])] else [])"

definition parse_hit :: "'m meili \<Rightarrow> string \<Rightarrow> dict \<Rightarrow> search_hit" where
  "parse_hit M idx hit =
     (let formatted = formatted_of hit; is_doc = (idx = ml_documents M) in
      \<lparr>sh_id = jget ''id'' (JStr []) hit,
       sh_title = (if is_doc then jget ''title'' (JStr []) hit else jget ''name'' (JStr []) hit),
       sh_snippet = (if is_doc then take 200 (json_str (jget ''content'' (JStr []) formatted)) else []),
       sh_type = jget ''type'' (JStr (if is_doc then ''document'' else ''file'')) hit,
       sh_owner = jget ''owner_id'' (JStr []) hit,
       sh_tags = jget ''tags'' (JList []) hit,
       sh_highlights = concat (map (highlight_of formatted) [''title'', ''name'', ''content'']),
       sh_created = jget ''created_at'' JNull hit,
       sh_updated = jget ''updated_at'' JNull hit,
       sh_mime_type = jget ''mime_type'' JNull hit,
       sh_folder = jget ''folder_id'' JNull hit,
       sh_size = jget ''size'' JNull hit\<rparr>)"

text \<open>\<open>SearchHit.to_dict\<close>, without the score, which is always 0.0\<close>

definition if_given :: "string \<Rightarrow> json \<Rightarrow> dict" where
  "if_given k v = (if v = JNull then [] else [(k, v)])"

definition hit_dict :: "search_hit \<Rightarrow> dict" where
  "hit_dict h =
     [(''id'', sh_id h), (''title'', sh_title h), (''content_snippet'', JStr (sh_snippet h)), (''type'', sh_type h),
      (''owner_id'', sh_owner h), (''tags'', sh_tags h),
      (''highlights'', JDict (map (\<lambda>(k, ts). (k, JList (map JStr ts))) (sh_highlights h)))]
     @ if_given ''created_at'' (sh_created h) @ if_given ''updated_at'' (sh_updated h)
     @ if_given ''mime_type'' (sh_mime_type h) @ if_given ''folder_id'' (sh_folder h) @ if_given ''size'' (sh_size h)"

section \<open>Searching\<close>

text \<open>The service holds the connection to the server and the recorded searches.\<close>

record 'm search_state =
  ss_server :: 'm
  ss_analytics :: analytics

definition on_server :: "('m, search_error, 'a) prog \<Rightarrow> ('m search_state, search_error, 'a) prog" where
  "on_server p = (\<lambda>s. case p (ss_server s) of (r, m) \<Rightarrow> (r, s\<lparr>ss_server := m\<rparr>))"

definition ms_escape :: "string \<Rightarrow> string" where
  "ms_escape v = replace_char (CHR 0x22) [CHR 0x5C, CHR 0x22] (replace_char (CHR 0x5C) [CHR 0x5C, CHR 0x5C] v)"

definition compare_with :: "string \<Rightarrow> string \<Rightarrow> string \<Rightarrow> string" where
  "compare_with attribute op v = attribute @ '' '' @ op @ '' '' @ [CHR 0x22] @ ms_escape v @ [CHR 0x22]"

text \<open>A condition is left out for a value that is missing or empty.\<close>

definition condition :: "string \<Rightarrow> string \<Rightarrow> string option \<Rightarrow> string list" where
  "condition attribute op v = (case v of None \<Rightarrow> [] | Some x \<Rightarrow> if x = [] then [] else [compare_with attribute op x])"

definition tags_condition :: "string list \<Rightarrow> string list" where
  "tags_condition tags = (if tags = [] then [] else [''('' @ py_join '' OR '' (map (compare_with ''tags'' ''='') tags) @ '')''])"

definition resolve_indices :: "'m meili \<Rightarrow> string option \<Rightarrow> string list" where
  "resolve_indices M ty =
     (if ty = Some ''document'' then [ml_documents M]
      else if ty = Some ''file'' then [ml_files M]
      else [ml_documents M, ml_files M])"

text \<open>The conditions of \<open>search\<close> and of \<open>advanced_search\<close>\<close>

definition search_conditions :: "string option \<Rightarrow> string option \<Rightarrow> string list" where
  "search_conditions ty owner = condition ''type'' ''='' ty @ condition ''owner_id'' ''='' owner"

definition advanced_conditions ::
  "string option \<Rightarrow> string option \<Rightarrow> string list \<Rightarrow> string option \<Rightarrow> string option \<Rightarrow> string list" where
  "advanced_conditions ty owner tags date_from date_to =
     search_conditions ty owner @ tags_condition tags @ condition ''created_at'' ''>='' date_from
     @ condition ''created_at'' ''<='' date_to"

text \<open>With two indices each is asked for everything up to the end of the page.\<close>

definition build_search_params :: "nat \<Rightarrow> nat \<Rightarrow> string list \<Rightarrow> bool \<Rightarrow> dict" where
  "build_search_params page page_size parts multi =
     [(''offset'', JInt (if multi then 0 else (int page - 1) * int page_size)),
      (''limit'', JInt (if multi then int page * int page_size else int page_size)),
      (''attributesToHighlight'', JList [JStr ''title'', JStr ''name'', JStr ''content'']),
      (''highlightPreTag'', JStr ''<em>''), (''highlightPostTag'', JStr ''</em>''),
      (''attributesToCrop'', JList [JStr ''content'']), (''cropLength'', JInt 200)]
     @ (if parts \<noteq> [] then [(''filter'', JStr (py_join '' AND '' parts))] else [])"

record search_response =
  sp_results :: "search_hit list"
  sp_total :: nat
  sp_page :: nat
  sp_page_size :: nat
  sp_query :: string

definition response_dict :: "search_response \<Rightarrow> dict" where
  "response_dict r =
     [(''results'', JList (map (\<lambda>h. JDict (hit_dict h)) (sp_results r))), (''total'', JInt (int (sp_total r))),
      (''page'', JInt (int (sp_page r))), (''page_size'', JInt (int (sp_page_size r))), (''query'', JStr (sp_query r))]"

text \<open>The hits of the indices, one index after the other, and the sum of the estimated totals.\<close>

fun gather_hits ::
  "'m meili \<Rightarrow> string \<Rightarrow> dict \<Rightarrow> string list \<Rightarrow> ('m, search_error, search_hit list \<times> nat) prog" where
  "gather_hits M q params [] = retP ([], 0)"
| "gather_hits M q params (idx # rest) =
     bindP (ml_search M idx q params) (\<lambda>r.
     bindP (gather_hits M q params rest) (\<lambda>r'.
     retP (map (parse_hit M idx) (fst r) @ fst r', snd r + snd r')))"

text \<open>
  The common part of \<open>search\<close> and \<open>advanced_search\<close>: the text that is sent to the server, the text that is
  recorded and returned, the conditions, the indices and the page, which counts from one.
\<close>

definition search_in ::
  "'m meili \<Rightarrow> string \<Rightarrow> string \<Rightarrow> string list \<Rightarrow> string option \<Rightarrow> nat \<Rightarrow> nat
   \<Rightarrow> ('m search_state, search_error, search_response) prog" where
  "search_in M q shown parts ty page page_size =
     (let indices = resolve_indices M ty;
          multi = 1 < length indices;
          start = (if multi then (page - 1) * page_size else 0) in
      bindP (on_server (gather_hits M q (build_search_params page page_size parts multi) indices)) (\<lambda>r.
      thenP (modP (\<lambda>s. s\<lparr>ss_analytics := record_search shown (snd r) (ss_analytics s)\<rparr>))
     (retP \<lparr>sp_results = take page_size (drop start (fst r)), sp_total = snd r, sp_page = page, sp_page_size = page_size,
        sp_query = shown\<rparr>)))"

definition ms_search ::
  "'m meili \<Rightarrow> string \<Rightarrow> string option \<Rightarrow> string option \<Rightarrow> nat \<Rightarrow> nat \<Rightarrow> ('m search_state, search_error, search_response) prog" where
  "ms_search M q ty owner page page_size =
     tryP (search_in M q q (search_conditions ty owner) ty page page_size)
       (\<lambda>e. case e of ApiErr msg \<Rightarrow> raiseP (ValueErr (''Invalid search filter: '' @ msg)) | _ \<Rightarrow> raiseP e)"

definition ms_advanced_search ::
  "'m meili \<Rightarrow> string option \<Rightarrow> string option \<Rightarrow> string option \<Rightarrow> string list \<Rightarrow> string option \<Rightarrow> string option \<Rightarrow> nat \<Rightarrow> nat
   \<Rightarrow> ('m search_state, search_error, search_response) prog" where
  "ms_advanced_search M q ty owner tags date_from date_to page page_size =
     (let term = (case q of None \<Rightarrow> [] | Some x \<Rightarrow> x) in
      search_in M term (if term = [] then ''*'' else term)
        (advanced_conditions ty owner tags date_from date_to) ty page page_size)"

section \<open>Suggestions\<close>

text \<open>The titles or names of the hits, each text once; the loop stops when there are \<open>n\<close> of them.\<close>

fun add_suggestions :: "nat \<Rightarrow> string list \<Rightarrow> string list \<Rightarrow> string list" where
  "add_suggestions n acc [] = acc"
| "add_suggestions n acc (t # ts) =
     (if t = [] \<or> t \<in> set acc then add_suggestions n acc ts
      else if n \<le> length acc + 1 then acc @ [t]
      else add_suggestions n (acc @ [t]) ts)"

text \<open>Titles and names are texts in both indices.\<close>

definition suggestion_text :: "dict \<Rightarrow> string" where
  "suggestion_text h =
     (let title = jget ''title'' JNull h in
      case (if truthy title then title else jget ''name'' (JStr []) h) of JStr t \<Rightarrow> t | _ \<Rightarrow> [])"

definition suggest_params :: "nat \<Rightarrow> dict" where
  "suggest_params n = [(''limit'', JInt (int n)), (''attributesToRetrieve'', JList [JStr ''title'', JStr ''name''])]"

fun suggest_from :: "'m meili \<Rightarrow> string \<Rightarrow> nat \<Rightarrow> string list \<Rightarrow> string list \<Rightarrow> ('m, search_error, string list) prog" where
  "suggest_from M prefix n acc [] = retP acc"
| "suggest_from M prefix n acc (idx # rest) =
     bindP (ml_search M idx prefix (suggest_params n)) (\<lambda>r.
     let acc' = add_suggestions n acc (map suggestion_text (fst r)) in
     if n \<le> length acc' then retP acc' else suggest_from M prefix n acc' rest)"

definition ms_suggest :: "'m meili \<Rightarrow> string \<Rightarrow> nat \<Rightarrow> ('m, search_error, string list) prog" where
  "ms_suggest M prefix n = suggest_from M prefix n [] [ml_documents M, ml_files M]"

end
