(* ===== verification/Search_Indexer.thy ===== *)
theory Search_Indexer
  imports Search_Index
begin

text \<open>
  The indexer (\<open>services/search-service/app/services/indexer.py\<close>) and the consumer of queue messages
  (\<open>services/sqs_consumer.py\<close>): validation of payloads, the crawl of the document and the file service, the
  normal form of the events of both services, and what becomes of a message.
\<close>

section \<open>Indexing of payloads\<close>

definition document_record :: "dict \<Rightarrow> dict" where
  "document_record p =
     [(''id'', jget ''id'' JNull p), (''title'', jget ''title'' JNull p), (''content'', jget ''content'' (JStr []) p),
      (''owner_id'', jget ''owner_id'' (JStr []) p), (''tags'', jget ''tags'' (JList []) p),
      (''created_at'', jget ''created_at'' JNull p), (''updated_at'', jget ''updated_at'' JNull p)]"

definition index_document :: "'m meili \<Rightarrow> json \<Rightarrow> ('m, search_error, dict) prog" where
  "index_document M payload = (case payload of
       JDict p \<Rightarrow>
         if \<not> truthy (jget ''id'' JNull p) then raiseP (ValueErr ''Document 'id' is required'')
         else if \<not> truthy (jget ''title'' JNull p) then raiseP (ValueErr ''Document 'title' is required'')
         else thenP (ms_index_document M (document_record p))
           (retP [(''status'', JStr ''indexed''), (''id'', jget ''id'' JNull p), (''type'', JStr ''document'')])
     | _ \<Rightarrow> raiseP (OtherErr ''AttributeError''))"

definition file_record :: "dict \<Rightarrow> dict" where
  "file_record p =
     [(''id'', jget ''id'' JNull p), (''name'', jget ''name'' JNull p), (''mime_type'', jget ''mime_type'' (JStr []) p),
      (''owner_id'', jget ''owner_id'' (JStr []) p), (''folder_id'', jget ''folder_id'' (JStr []) p),
      (''tags'', jget ''tags'' (JList []) p), (''size'', jget ''size'' (JInt 0) p),
      (''created_at'', jget ''created_at'' JNull p), (''updated_at'', jget ''updated_at'' JNull p)]"

definition index_file :: "'m meili \<Rightarrow> json \<Rightarrow> ('m, search_error, dict) prog" where
  "index_file M payload = (case payload of
       JDict p \<Rightarrow>
         if \<not> truthy (jget ''id'' JNull p) then raiseP (ValueErr ''File 'id' is required'')
         else if \<not> truthy (jget ''name'' JNull p) then raiseP (ValueErr ''File 'name' is required'')
         else thenP (ms_index_file M (file_record p))
           (retP [(''status'', JStr ''indexed''), (''id'', jget ''id'' JNull p), (''type'', JStr ''file'')])
     | _ \<Rightarrow> raiseP (OtherErr ''AttributeError''))"

definition remove_entry :: "'m meili \<Rightarrow> json \<Rightarrow> json \<Rightarrow> ('m, search_error, dict) prog" where
  "remove_entry M ty i =
     (if ty = JStr ''document'' \<or> ty = JStr ''file'' then
        bindP (ms_delete_document M (json_str ty) i) (\<lambda>gone.
        retP [(''status'', JStr (if gone then ''deleted'' else ''not_found'')), (''id'', i), (''type'', ty)])
      else raiseP (ValueErr (''Invalid type '' @ [CHR 0x27] @ json_str ty @ [CHR 0x27] @ ''. Must be 'document' or 'file'.'')))"

definition process_event :: "'m meili \<Rightarrow> dict \<Rightarrow> ('m, search_error, dict option) prog" where
  "process_event M event =
     (let action = jget ''action'' (JStr []) event;
          data = jget ''data'' (JDict []) event in
      if action = JStr ''index_document'' then bindP (index_document M data) (\<lambda>r. retP (Some r))
      else if action = JStr ''index_file'' then bindP (index_file M data) (\<lambda>r. retP (Some r))
      else if action = JStr ''delete'' then (case data of
          JDict d \<Rightarrow> bindP (remove_entry M (jget ''type'' (JStr ''document'') d) (jget ''id'' (JStr []) d)) (\<lambda>r. retP (Some r))
        | _ \<Rightarrow> raiseP (OtherErr ''AttributeError''))
      else retP None)"

section \<open>Crawling\<close>

text \<open>The answer of a service to the request for a page: none (\<open>RequestException\<close>), or a status with a body;
  None for a body that is no JSON, which \<open>resp.json()\<close> reports as a \<open>RequestException\<close> too.\<close>

datatype fetched = Unreachable | Answered nat "json option"

text \<open>The entries of a page, or the end of the crawl (None). \<open>key\<close> is the name that the service gives to its list.\<close>

definition page_items :: "string \<Rightarrow> fetched \<Rightarrow> search_error + json option" where
  "page_items key answered = (case answered of
       Unreachable \<Rightarrow> Inr None
     | Answered status body \<Rightarrow>
         if status \<noteq> 200 then Inr None
         else (case body of
             None \<Rightarrow> Inr None
           | Some (JDict d) \<Rightarrow>
               (let items = py_or (py_or (py_or (jget key JNull d) (jget ''items'' JNull d)) (jget ''data'' JNull d)) (JList []) in
                Inr (if truthy items then Some items else None))
           | Some _ \<Rightarrow> Inl (OtherErr ''AttributeError'')))"

text \<open>An entry that is no dictionary raises, and so does a value that cannot be iterated over.\<close>

definition item_entry :: "(dict \<Rightarrow> dict) \<Rightarrow> json \<Rightarrow> search_error + dict" where
  "item_entry entry item = (case item of JDict d \<Rightarrow> Inr (entry d) | _ \<Rightarrow> Inl (OtherErr ''AttributeError''))"

definition page_entries :: "(dict \<Rightarrow> dict) \<Rightarrow> json \<Rightarrow> search_error + dict list" where
  "page_entries entry items = (case items of
       JList xs \<Rightarrow> mapE (item_entry entry) xs
     | JStr s \<Rightarrow> Inl (OtherErr ''AttributeError'')
     | JDict d \<Rightarrow> Inl (OtherErr ''AttributeError'')
     | _ \<Rightarrow> Inl (OtherErr ''TypeError''))"

text \<open>
  The loop over the pages. Nothing bounds the number of pages: None when every page has entries.
\<close>

partial_function (option) crawl ::
  "string \<Rightarrow> (dict \<Rightarrow> dict) \<Rightarrow> (nat \<Rightarrow> fetched) \<Rightarrow> nat \<Rightarrow> dict list \<Rightarrow> (search_error + dict list) option" where
  "crawl key entry fetch page docs = (case page_items key (fetch page) of
       Inl e \<Rightarrow> Some (Inl e)
     | Inr None \<Rightarrow> Some (Inr docs)
     | Inr (Some items) \<Rightarrow> (case page_entries entry items of
           Inl e \<Rightarrow> Some (Inl e)
         | Inr es \<Rightarrow> crawl key entry fetch (page + 1) (docs @ es)))"

definition crawled_document :: "dict \<Rightarrow> dict" where
  "crawled_document item =
     [(''id'', jget ''id'' (JStr []) item), (''title'', jget ''title'' (JStr []) item), (''content'', jget ''content'' (JStr []) item),
      (''owner_id'', jget ''owner_id'' (JStr []) item), (''tags'', jget ''tags'' (JList []) item),
      (''created_at'', jget ''created_at'' JNull item), (''updated_at'', jget ''updated_at'' JNull item),
      (''type'', JStr ''document'')]"

definition crawled_file :: "dict \<Rightarrow> dict" where
  "crawled_file item =
     [(''id'', jget ''id'' (JStr []) item), (''name'', jget ''name'' (JStr []) item),
      (''mime_type'', jget ''mime_type'' (jget ''mimeType'' (JStr []) item) item),
      (''owner_id'', jget ''owner_id'' (jget ''ownerId'' (JStr []) item) item),
      (''folder_id'', jget ''folder_id'' (jget ''folderId'' (JStr []) item) item),
      (''tags'', jget ''tags'' (JList []) item),
      (''size'', jget ''size'' (jget ''size_bytes'' (jget ''sizeBytes'' (JInt 0) item) item) item),
      (''created_at'', jget ''created_at'' (jget ''createdAt'' JNull item) item),
      (''updated_at'', jget ''updated_at'' (jget ''updatedAt'' JNull item) item),
      (''type'', JStr ''file'')]"

definition fetch_all_documents :: "(nat \<Rightarrow> fetched) \<Rightarrow> (search_error + dict list) option" where
  "fetch_all_documents fetch = crawl ''documents'' crawled_document fetch 1 []"

definition fetch_all_files :: "(nat \<Rightarrow> fetched) \<Rightarrow> (search_error + dict list) option" where
  "fetch_all_files fetch = crawl ''files'' crawled_file fetch 1 []"

text \<open>\<open>Indexer.reindex\<close>, over the pages of both services; None when a crawl does not end.\<close>

definition reindex :: "'m meili \<Rightarrow> (nat \<Rightarrow> fetched) \<Rightarrow> (nat \<Rightarrow> fetched) \<Rightarrow> ('m, search_error, dict) prog option" where
  "reindex M docs files = Option.bind (fetch_all_documents docs) (\<lambda>ds. case ds of
       Inl e \<Rightarrow> Some (raiseP e)
     | Inr documents \<Rightarrow> Option.bind (fetch_all_files files) (\<lambda>fs. Some (case fs of
           Inl e \<Rightarrow> raiseP e
         | Inr entries \<Rightarrow> ms_reindex M documents entries)))"

section \<open>Queue messages\<close>

definition file_actions :: "(string \<times> string) list" where
  "file_actions = [(''file_uploaded'', ''index_file''), (''file_created'', ''index_file''), (''file_updated'', ''index_file''),
     (''file_deleted'', ''delete''), (''file_trashed'', ''delete''), (''file_restored'', ''index_file'')]"

definition event_actions :: "(string \<times> string) list" where
  "event_actions = [(''document_created'', ''index_document''), (''document_updated'', ''index_document''),
     (''document_deleted'', ''delete'')] @ file_actions"

text \<open>A list or a dictionary cannot be looked up in a dictionary.\<close>

fun hashable :: "json \<Rightarrow> bool" where
  "hashable (JList xs) = False"
| "hashable (JDict d) = False"
| "hashable _ = True"

definition action_of :: "(string \<times> string) list \<Rightarrow> json \<Rightarrow> string option" where
  "action_of m ty = (case ty of JStr t \<Rightarrow> map_of m t | _ \<Rightarrow> None)"

text \<open>The fields of a flat event of the file service\<close>

definition flat_file :: "dict \<Rightarrow> dict" where
  "flat_file body =
     [(''id'', jget ''fileId'' (JStr []) body), (''name'', jget ''name'' (JStr []) body),
      (''mime_type'', jget ''mimeType'' (JStr []) body), (''owner_id'', jget ''ownerId'' (JStr []) body),
      (''folder_id'', jget ''folderId'' (JStr []) body), (''size'', jget ''sizeBytes'' (JInt 0) body),
      (''tags'', jget ''tags'' (JList []) body), (''created_at'', jget ''timestamp'' JNull body),
      (''updated_at'', jget ''timestamp'' JNull body)]"

definition normalize_event :: "dict \<Rightarrow> search_error + dict" where
  "normalize_event body =
     (if jhas ''event_type'' body \<and> jhas ''payload'' body then
        (let ty = jget ''event_type'' JNull body in
         if \<not> hashable ty then Inl (OtherErr ''TypeError'')
         else Inr [(''action'', case action_of event_actions ty of None \<Rightarrow> ty | Some a \<Rightarrow> JStr a),
                   (''data'', jget ''payload'' JNull body)])
      else if jhas ''eventType'' body then
        (let ty = jget ''eventType'' JNull body in
         if \<not> hashable ty then Inl (OtherErr ''TypeError'')
         else case action_of file_actions ty of
             None \<Rightarrow> Inr body
           | Some a \<Rightarrow>
               if a = ''delete'' then
                 Inr [(''action'', JStr ''delete''), (''data'', JDict [(''type'', JStr ''file''), (''id'', jget ''fileId'' (JStr []) body)])]
               else Inr [(''action'', JStr a), (''data'', JDict (flat_file body))])
      else Inr body)"

text \<open>What becomes of a message: it is deleted from the queue, or it stays and is delivered again.\<close>

datatype fate = Deleted | Kept

text \<open>The JSON of a message, without the envelope of SNS. A body that is no dictionary fails one way or another.\<close>

definition message_body :: "(string \<Rightarrow> json option) \<Rightarrow> string \<Rightarrow> search_error + dict" where
  "message_body loads t = (case loads t of
       None \<Rightarrow> Inl (ValueErr ''JSONDecodeError'')
     | Some (JDict d) \<Rightarrow>
         if jhas ''Message'' d \<and> jhas ''TopicArn'' d then
           (case jget ''Message'' JNull d of
              JStr inner \<Rightarrow> (case loads inner of
                  None \<Rightarrow> Inl (ValueErr ''JSONDecodeError'')
                | Some (JDict e) \<Rightarrow> Inr e
                | Some _ \<Rightarrow> Inl (OtherErr ''AttributeError''))
            | _ \<Rightarrow> Inl (OtherErr ''TypeError''))
         else Inr d
     | Some _ \<Rightarrow> Inl (OtherErr ''AttributeError''))"

definition process_message :: "'m meili \<Rightarrow> (string \<Rightarrow> json option) \<Rightarrow> string \<Rightarrow> ('m, search_error, fate) prog" where
  "process_message M loads t =
     tryP (bindP (liftP (message_body loads t)) (\<lambda>body.
           bindP (liftP (normalize_event body)) (\<lambda>event.
           thenP (process_event M event) (retP Deleted))))
       (\<lambda>e. case e of ValueErr _ \<Rightarrow> retP Deleted | _ \<Rightarrow> retP Kept)"

text \<open>The messages of one answer of the queue, in order.\<close>

definition process_batch :: "'m meili \<Rightarrow> (string \<Rightarrow> json option) \<Rightarrow> string list \<Rightarrow> ('m, search_error, fate list) prog" where
  "process_batch M loads ts = mapP (process_message M loads) ts"

end
