(* ===== verification/Search_Api.thy ===== *)
theory Search_Api
  imports Search_Indexer
begin

text \<open>
  The requests of the search service (\<open>services/search-service/app/api\<close>), with the authentication in front
  of them (\<open>middleware/auth.py\<close>): status and JSON body of every answer.
\<close>

section \<open>Authentication\<close>

text \<open>The headers that the service reads; a missing one is empty.\<close>

record caller =
  cl_authorization :: string
  cl_user :: string

definition bearer_token :: "string \<Rightarrow> string" where
  "bearer_token auth = (if py_startswith ''bearer '' (py_lower auth) then py_strip (drop 7 auth) else [])"

definition public_prefixes :: "string list" where
  "public_prefixes = [''/health'', ''/metrics'']"

text \<open>\<open>_check_auth\<close>: whether the request goes on\<close>

definition check_auth :: "bool \<Rightarrow> string \<Rightarrow> string \<Rightarrow> caller \<Rightarrow> bool" where
  "check_auth required service_token path c \<longleftrightarrow>
     \<not> required \<or> list_ex (\<lambda>p. py_startswith p path) public_prefixes \<or>
     (service_token \<noteq> [] \<and> bearer_token (cl_authorization c) \<noteq> [] \<and> bearer_token (cl_authorization c) = service_token) \<or>
     py_strip (cl_user c) \<noteq> []"

section \<open>Answers\<close>

datatype reply = Reply nat json

type_synonym ('m, 'a) handler = "('m search_state, search_error, 'a) prog"

definition error_reply :: "nat \<Rightarrow> string \<Rightarrow> reply" where
  "error_reply status msg = Reply status (JDict [(''error'', JStr msg)])"

text \<open>\<open>except ValueError\<close> answers 400 with the text of the error, \<open>except Exception\<close> 500.\<close>

definition or_400_or_500 :: "string \<Rightarrow> ('m, reply) handler \<Rightarrow> ('m, reply) handler" where
  "or_400_or_500 msg p = tryP p (\<lambda>e. retP (case e of
       ValueErr m \<Rightarrow> error_reply 400 m
     | _ \<Rightarrow> error_reply 500 msg))"

definition or_500 :: "string \<Rightarrow> ('m, reply) handler \<Rightarrow> ('m, reply) handler" where
  "or_500 msg p = tryP p (\<lambda>_. retP (error_reply 500 msg))"

section \<open>Search\<close>

text \<open>Page and size of a request, kept within their bounds; None when one of them is no integer.\<close>

definition page_and_size :: "json \<Rightarrow> json \<Rightarrow> (nat \<times> nat) option" where
  "page_and_size page limit = (case (json_int page, json_int limit) of
       (Some p, Some n) \<Rightarrow> Some (nat (max 1 p), nat (max 1 (min 100 n)))
     | _ \<Rightarrow> None)"

definition owner_of_caller :: "caller \<Rightarrow> string option" where
  "owner_of_caller c = (if py_strip (cl_user c) = [] then None else Some (py_strip (cl_user c)))"

definition arg_or :: "json \<Rightarrow> string option \<Rightarrow> json" where
  "arg_or z a = (case a of None \<Rightarrow> z | Some s \<Rightarrow> JStr s)"

definition ok_response :: "search_response \<Rightarrow> reply" where
  "ok_response r = Reply 200 (JDict (response_dict r))"

text \<open>\<open>search_documents\<close>, with the arguments q, type, page and size of the request\<close>

definition search_request ::
  "'m meili \<Rightarrow> caller \<Rightarrow> string option \<Rightarrow> string option \<Rightarrow> string option \<Rightarrow> string option \<Rightarrow> ('m, reply) handler" where
  "search_request M c q ty page limit = (case page_and_size (arg_or (JInt 1) page) (arg_or (JInt 20) limit) of
       None \<Rightarrow> retP (error_reply 400 ''Invalid page or size parameter'')
     | Some (p, n) \<Rightarrow>
         if (case q of None \<Rightarrow> [] | Some s \<Rightarrow> s) = [] then retP (error_reply 400 ''Query parameter 'q' is required'')
         else or_400_or_500 ''Search failed''
           (bindP (ms_search M (case q of None \<Rightarrow> [] | Some s \<Rightarrow> s) ty (owner_of_caller c) p n) (\<lambda>r. retP (ok_response r))))"

section \<open>Advanced search\<close>

text \<open>Values of the body that the code takes for texts: a false one is left out, any other that is no text makes
  the call fail, in the code itself or, for the query, in the server.\<close>

definition text_value :: "json \<Rightarrow> search_error + string option" where
  "text_value j = (if \<not> truthy j then Inr None else case j of JStr s \<Rightarrow> Inr (Some s) | _ \<Rightarrow> Inl (OtherErr ''AttributeError''))"

definition tag_values :: "json \<Rightarrow> search_error + string list" where
  "tag_values j =
     (if \<not> truthy j then Inr []
      else case j of
          JList xs \<Rightarrow> mapE (\<lambda>x. case x of JStr s \<Rightarrow> Inr s | _ \<Rightarrow> Inl (OtherErr ''AttributeError'')) xs
        | JStr s \<Rightarrow> Inr (map (\<lambda>ch. [ch]) s)
        | JDict d \<Rightarrow> Inr (map fst d)
        | _ \<Rightarrow> Inl (OtherErr ''TypeError''))"

definition advanced_request :: "'m meili \<Rightarrow> caller \<Rightarrow> json \<Rightarrow> ('m, reply) handler" where
  "advanced_request M c body = (case py_or body (JDict []) of
       JDict d \<Rightarrow> (case page_and_size (jget ''page'' (JInt 1) d) (jget ''size'' (JInt 20) d) of
           None \<Rightarrow> retP (error_reply 400 ''Invalid page or size parameter'')
         | Some (p, n) \<Rightarrow> or_500 ''Advanced search failed''
            (bindP (liftP (text_value (jget ''q'' JNull d))) (\<lambda>q.
             bindP (liftP (text_value (jget ''type'' JNull d))) (\<lambda>ty.
             bindP (liftP (tag_values (jget ''tags'' JNull d))) (\<lambda>tags.
             bindP (liftP (text_value (jget ''date_from'' JNull d))) (\<lambda>date_from.
             bindP (liftP (text_value (jget ''date_to'' JNull d))) (\<lambda>date_to.
             bindP (ms_advanced_search M q ty (owner_of_caller c) tags date_from date_to p n) (\<lambda>r.
             retP (ok_response r)))))))))
     | _ \<Rightarrow> raiseP (OtherErr ''AttributeError''))"

section \<open>Suggestions and analytics\<close>

definition suggestions_reply :: "string \<Rightarrow> string list \<Rightarrow> reply" where
  "suggestions_reply prefix ts = Reply 200 (JDict [(''suggestions'', JList (map JStr ts)), (''query'', JStr prefix)])"

text \<open>\<open>_chaos_active\<close>: a flag that cannot be read is off.\<close>

definition chaos_active :: "(string \<Rightarrow> bool option) \<Rightarrow> string \<Rightarrow> bool" where
  "chaos_active redis key = (case redis key of None \<Rightarrow> False | Some b \<Rightarrow> b)"

definition suggest_request :: "'m meili \<Rightarrow> (string \<Rightarrow> bool option) \<Rightarrow> string option \<Rightarrow> ('m, reply) handler" where
  "suggest_request M redis q =
     (let prefix = (case q of None \<Rightarrow> [] | Some s \<Rightarrow> s) in
      if length prefix < 2 then retP (suggestions_reply prefix [])
      else if chaos_active redis ''chaos:search-service:suggest_500'' then
        bindP (on_server (ms_suggest M prefix 10)) (\<lambda>raw. raiseP (OtherErr (if raw = [] then ''KeyError'' else ''TypeError'')))
      else tryP (bindP (on_server (ms_suggest M prefix 10)) (\<lambda>ts. retP (suggestions_reply prefix ts)))
        (\<lambda>_. retP (suggestions_reply prefix [])))"

definition counted :: "(string \<times> nat) list \<Rightarrow> json" where
  "counted qs = JList (map (\<lambda>(q, n). JDict [(''query'', JStr q), (''count'', JInt (int n))]) qs)"

text \<open>The average, a floating point number, is left out of the body.\<close>

definition analytics_request :: "('m, reply) handler" where
  "analytics_request = bindP (getP (\<lambda>s. get_search_analytics (ss_analytics s))) (\<lambda>a.
     retP (Reply 200 (JDict [(''popular_queries'', counted (ad_popular a)), (''zero_result_queries'', counted (ad_zero_results a)),
       (''total_searches'', JInt (int (ad_searches a)))])))"

section \<open>Indexing\<close>

definition index_request :: "string \<Rightarrow> ('m meili \<Rightarrow> json \<Rightarrow> ('m, search_error, dict) prog) \<Rightarrow> 'm meili \<Rightarrow> json \<Rightarrow> ('m, reply) handler" where
  "index_request msg index M data =
     (if \<not> truthy data then retP (error_reply 400 ''Request body is required'')
      else or_400_or_500 msg (bindP (on_server (index M data)) (\<lambda>r. retP (Reply 201 (JDict r)))))"

definition index_document_request :: "'m meili \<Rightarrow> json \<Rightarrow> ('m, reply) handler" where
  "index_document_request M data = index_request ''Failed to index document'' index_document M data"

definition index_file_request :: "'m meili \<Rightarrow> json \<Rightarrow> ('m, reply) handler" where
  "index_file_request M data = index_request ''Failed to index file'' index_file M data"

definition remove_request :: "'m meili \<Rightarrow> string \<Rightarrow> string \<Rightarrow> ('m, reply) handler" where
  "remove_request M ty i = or_400_or_500 ''Failed to remove from index''
     (bindP (on_server (remove_entry M (JStr ty) (JStr i))) (\<lambda>r.
      retP (Reply (if jget ''status'' JNull r = JStr ''not_found'' then 404 else 200) (JDict r))))"

text \<open>None when a crawl does not end\<close>

definition reindex_request :: "'m meili \<Rightarrow> (nat \<Rightarrow> fetched) \<Rightarrow> (nat \<Rightarrow> fetched) \<Rightarrow> ('m, reply) handler option" where
  "reindex_request M docs files = map_option (\<lambda>p. or_500 ''Failed to reindex''
     (bindP (on_server p) (\<lambda>r. retP (Reply 200 (JDict r))))) (reindex M docs files)"

section \<open>Health\<close>

definition health_request :: "('m, reply) handler" where
  "health_request = retP (Reply 200 (JDict [(''status'', JStr ''alive''), (''service'', JStr ''search-service'')]))"

definition ready_request :: "'m meili \<Rightarrow> ('m, reply) handler" where
  "ready_request M = bindP (on_server (ping M)) (\<lambda>healthy. retP
     (if healthy then Reply 200 (JDict [(''ready'', JBool True)])
      else Reply 503 (JDict [(''ready'', JBool False), (''reason'', JStr ''meilisearch_unavailable'')])))"

section \<open>All requests\<close>

datatype request =
    Search "string option" "string option" "string option" "string option"
  | Suggest "string option"
  | Advanced json
  | Analytics
  | IndexDocument json
  | IndexFile json
  | Remove string string
  | Reindex
  | Health
  | Ready

fun path_of :: "request \<Rightarrow> string" where
  "path_of (Search q ty page limit) = ''/api/v1/search/''"
| "path_of (Suggest q) = ''/api/v1/search/suggest''"
| "path_of (Advanced body) = ''/api/v1/search/advanced''"
| "path_of Analytics = ''/api/v1/search/analytics''"
| "path_of (IndexDocument data) = ''/api/v1/search/index/document''"
| "path_of (IndexFile data) = ''/api/v1/search/index/file''"
| "path_of (Remove ty i) = ''/api/v1/search/index/'' @ ty @ ''/'' @ i"
| "path_of Reindex = ''/api/v1/search/reindex''"
| "path_of Health = ''/health''"
| "path_of Ready = ''/health/ready''"

text \<open>
  The configuration of a running service and the outside world that its handlers reach: the flags of Redis
  (None when it cannot be reached) and the pages of the two services.
\<close>

record 'm search_env =
  se_server :: "'m meili"
  se_required :: bool
  se_token :: string
  se_redis :: "string \<Rightarrow> bool option"
  se_docs :: "nat \<Rightarrow> fetched"
  se_files :: "nat \<Rightarrow> fetched"

fun handle :: "'m search_env \<Rightarrow> caller \<Rightarrow> request \<Rightarrow> ('m, reply) handler option" where
  "handle E c (Search q ty page limit) = Some (search_request (se_server E) c q ty page limit)"
| "handle E c (Suggest q) = Some (suggest_request (se_server E) (se_redis E) q)"
| "handle E c (Advanced body) = Some (advanced_request (se_server E) c body)"
| "handle E c Analytics = Some analytics_request"
| "handle E c (IndexDocument data) = Some (index_document_request (se_server E) data)"
| "handle E c (IndexFile data) = Some (index_file_request (se_server E) data)"
| "handle E c (Remove ty i) = Some (remove_request (se_server E) ty i)"
| "handle E c Reindex = reindex_request (se_server E) (se_docs E) (se_files E)"
| "handle E c Health = Some health_request"
| "handle E c Ready = Some (ready_request (se_server E))"

text \<open>An exception that leaves a handler is answered with 500.\<close>

definition answer_request :: "'m search_env \<Rightarrow> caller \<Rightarrow> request \<Rightarrow> ('m, reply) handler option" where
  "answer_request E c q =
     (if check_auth (se_required E) (se_token E) (path_of q) c
      then map_option (\<lambda>p. tryP p (\<lambda>_. retP (error_reply 500 ''Internal Server Error''))) (handle E c q)
      else Some (retP (error_reply 401 ''unauthorized'')))"

end
