(* ===== verification/Search_Facts.thy ===== *)
theory Search_Facts
  imports Search_Api Doc_Queries
begin

text \<open>
  What a search asks of the server and what it makes of the answer: the filter text reads back as the
  conditions of the request, whatever characters its values have; the pages over two indices are the pages
  of the two lists of hits put together; the analytics count the last searches exactly; nobody without
  credentials gets past the authentication.
\<close>

section \<open>Reading a filter\<close>

text \<open>
  The part of the server's filter language that the code uses: comparisons of an attribute with a text in
  double quotes, in which a backslash takes the next character as it is; alternatives in parentheses; all
  parts joined by AND.
\<close>

type_synonym comparison = "string \<times> string \<times> string"

datatype filter_part = One comparison | Either "comparison list"

fun read_literal :: "string \<Rightarrow> (string \<times> string) option" where
  "read_literal [] = None"
| "read_literal [c] = (if c = CHR 0x22 then Some ([], []) else None)"
| "read_literal (c # d # s) =
     (if c = CHR 0x22 then Some ([], d # s)
      else if c = CHR 0x5C then map_option (\<lambda>(v, r). (d # v, r)) (read_literal s)
      else map_option (\<lambda>(v, r). (c # v, r)) (read_literal (d # s)))"

definition read_word :: "string \<Rightarrow> string \<times> string" where
  "read_word s = (takeWhile (\<lambda>c. c \<noteq> CHR '' '') s, drop 1 (dropWhile (\<lambda>c. c \<noteq> CHR '' '') s))"

definition read_comparison :: "string \<Rightarrow> (comparison \<times> string) option" where
  "read_comparison s =
     (case read_word s of (attribute, s1) \<Rightarrow> case read_word s1 of (op, s2) \<Rightarrow>
      (case s2 of
         [] \<Rightarrow> None
       | q # s3 \<Rightarrow> if q = CHR 0x22 then map_option (\<lambda>(v, r). ((attribute, op, v), r)) (read_literal s3) else None))"

fun read_list :: "nat \<Rightarrow> (string \<Rightarrow> ('a \<times> string) option) \<Rightarrow> string \<Rightarrow> string \<Rightarrow> ('a list \<times> string) option" where
  "read_list 0 p sep s = None"
| "read_list (Suc n) p sep s = (case p s of
       None \<Rightarrow> None
     | Some (x, r) \<Rightarrow>
         if py_startswith sep r then map_option (\<lambda>(xs, r'). (x # xs, r')) (read_list n p sep (drop (length sep) r))
         else Some ([x], r))"

definition read_part :: "nat \<Rightarrow> string \<Rightarrow> (filter_part \<times> string) option" where
  "read_part n s =
     (if py_startswith ''('' s then (case read_list n read_comparison '' OR '' (tl s) of
          Some (cs, c # r) \<Rightarrow> if c = CHR '')'' then Some (Either cs, r) else None
        | _ \<Rightarrow> None)
      else map_option (\<lambda>(c, r). (One c, r)) (read_comparison s))"

definition read_filter :: "string \<Rightarrow> filter_part list option" where
  "read_filter s = (case read_list (length s) (read_part (length s)) '' AND '' s of
       Some (ps, []) \<Rightarrow> Some ps
     | _ \<Rightarrow> None)"

lemma ms_escape_simps:
  "ms_escape [] = []"
  "ms_escape (c # v) = (if c = CHR 0x22 then [CHR 0x5C, CHR 0x22] else if c = CHR 0x5C then [CHR 0x5C, CHR 0x5C] else [c]) @ ms_escape v"
  by (simp_all add: ms_escape_def replace_char_def)

lemma read_escaped: "read_literal (ms_escape v @ CHR 0x22 # rest) = Some (v, rest)"
proof (induction v)
  case Nil
  then show ?case by (cases rest) (simp_all add: ms_escape_simps)
next
  case (Cons c v)
  obtain d s where ds: "ms_escape v @ CHR 0x22 # rest = d # s" by (cases "ms_escape v") auto
  show ?case using Cons by (auto simp: ms_escape_simps ds)
qed

lemma read_word_enc: "CHR '' '' \<notin> set w \<Longrightarrow> read_word (w @ CHR '' '' # s) = (w, s)"
  by (induction w) (auto simp: read_word_def)

definition enc_comparison :: "comparison \<Rightarrow> string" where
  "enc_comparison c = (case c of (a, op, v) \<Rightarrow> compare_with a op v)"

definition spaceless :: "comparison \<Rightarrow> bool" where
  "spaceless c \<longleftrightarrow> (case c of (a, op, v) \<Rightarrow> a \<noteq> [] \<and> CHR '' '' \<notin> set a \<and> CHR ''('' \<notin> set a \<and> CHR '' '' \<notin> set op)"

lemma read_comparison_enc: "spaceless c \<Longrightarrow> read_comparison (enc_comparison c @ rest) = Some (c, rest)"
  using read_word_enc [of "fst c" "fst (snd c) @ CHR '' '' # CHR 0x22 # ms_escape (snd (snd c)) @ CHR 0x22 # rest"]
    read_word_enc [of "fst (snd c)" "CHR 0x22 # ms_escape (snd (snd c)) @ CHR 0x22 # rest"]
  by (auto simp: read_comparison_def enc_comparison_def compare_with_def spaceless_def read_escaped)

lemma py_join_Cons: "py_join sep (x # y # ys) = x @ sep @ py_join sep (y # ys)"
  by simp

lemma startswith_append [simp]: "py_startswith p (p @ s)"
  by (simp add: py_startswith_def)

lemma read_list_join:
  assumes "xs \<noteq> []" and "length xs \<le> n" and "\<not> py_startswith sep rest"
    and "\<forall>x \<in> set xs. \<forall>r. p (enc x @ r) = Some (x, r)"
  shows "read_list n p sep (py_join sep (map enc xs) @ rest) = Some (xs, rest)"
  using assms
proof (induction xs arbitrary: n)
  case Nil
  then show ?case by simp
next
  case (Cons x xs)
  then obtain k where n: "n = Suc k" by (cases n) auto
  show ?case
  proof (cases xs)
    case Nil
    with Cons.prems n show ?thesis by simp
  next
    case (Cons y ys)
    with Cons.prems n Cons.IH [of k] show ?thesis by (simp add: py_join_Cons)
  qed
qed

lemma length_join: "[] \<notin> set xs \<Longrightarrow> length xs \<le> length (py_join sep xs)"
proof (induction xs rule: induct_list012)
  case (3 x y zs)
  then have "length (y # zs) \<le> length (py_join sep (y # zs))" by (simp del: py_join.simps)
  then show ?case using 3(3) by (cases x) auto
qed (auto simp: Suc_le_eq)

definition enc_part :: "filter_part \<Rightarrow> string" where
  "enc_part p = (case p of One c \<Rightarrow> enc_comparison c | Either cs \<Rightarrow> ''('' @ py_join '' OR '' (map enc_comparison cs) @ '')'')"

definition part_ok :: "filter_part \<Rightarrow> bool" where
  "part_ok p \<longleftrightarrow> (case p of One c \<Rightarrow> spaceless c | Either cs \<Rightarrow> cs \<noteq> [] \<and> (\<forall>c \<in> set cs. spaceless c))"

lemma enc_comparison_start: "spaceless c \<Longrightarrow> \<not> py_startswith ''('' (enc_comparison c @ r)" "spaceless c \<Longrightarrow> enc_comparison c \<noteq> []"
  by (cases "fst c"; auto simp: enc_comparison_def compare_with_def spaceless_def py_startswith_def split: prod.splits)+

lemma read_part_enc:
  assumes "part_ok q" and "length (enc_part q) \<le> n"
  shows "read_part n (enc_part q @ r) = Some (q, r)"
proof (cases q)
  case (One c)
  with assms(1) have "spaceless c" by (simp add: part_ok_def)
  with One show ?thesis by (simp add: read_part_def enc_part_def enc_comparison_start read_comparison_enc)
next
  case (Either cs)
  with assms(1) have ok: "cs \<noteq> []" "\<forall>c \<in> set cs. spaceless c" by (simp_all add: part_ok_def)
  have "length cs \<le> length (py_join '' OR '' (map enc_comparison cs))"
    using length_join [of "map enc_comparison cs"] ok(2) enc_comparison_start(2) by fastforce
  then have "length cs \<le> n" using assms(2) Either by (simp add: enc_part_def)
  moreover have "\<forall>c \<in> set cs. \<forall>r. read_comparison (enc_comparison c @ r) = Some (c, r)" using ok(2) read_comparison_enc by blast
  moreover have "\<not> py_startswith '' OR '' ('')'' @ r)" by (simp add: py_startswith_def)
  ultimately have "read_list n read_comparison '' OR '' (py_join '' OR '' (map enc_comparison cs) @ '')'' @ r) = Some (cs, '')'' @ r)"
    using ok(1) by (intro read_list_join)
  with Either show ?thesis by (simp add: read_part_def enc_part_def py_startswith_def)
qed

lemma read_filter_enc:
  assumes "qs \<noteq> []" and "\<forall>q \<in> set qs. part_ok q"
  shows "read_filter (py_join '' AND '' (map enc_part qs)) = Some qs"
proof -
  let ?s = "py_join '' AND '' (map enc_part qs)"
  have ne: "enc_part q \<noteq> []" if "q \<in> set qs" for q
    using that assms(2) enc_comparison_start(2) by (auto simp: enc_part_def part_ok_def split: filter_part.splits)
  have len: "length (enc_part q) \<le> length ?s" if "q \<in> set qs" for q
    using that by (induction qs rule: induct_list012) auto
  have "length qs \<le> length ?s" using length_join [of "map enc_part qs" "'' AND ''"] ne by fastforce
  moreover have "\<forall>q \<in> set qs. \<forall>r. read_part (length ?s) (enc_part q @ r) = Some (q, r)"
    using assms(2) len read_part_enc by blast
  moreover have "\<not> py_startswith '' AND '' []" by (simp add: py_startswith_def)
  ultimately have "read_list (length ?s) (read_part (length ?s)) '' AND '' (?s @ []) = Some (qs, [])"
    using assms(1) by (intro read_list_join)
  then show ?thesis by (simp add: read_filter_def)
qed

section \<open>The conditions of a request\<close>

definition wanted :: "string \<Rightarrow> string \<Rightarrow> string option \<Rightarrow> filter_part list" where
  "wanted a op v = (case v of None \<Rightarrow> [] | Some x \<Rightarrow> if x = [] then [] else [One (a, op, x)])"

definition wanted_parts ::
  "string option \<Rightarrow> string option \<Rightarrow> string list \<Rightarrow> string option \<Rightarrow> string option \<Rightarrow> filter_part list" where
  "wanted_parts ty owner tags date_from date_to =
     wanted ''type'' ''='' ty @ wanted ''owner_id'' ''='' owner
     @ (if tags = [] then [] else [Either (map (\<lambda>t. (''tags'', ''='', t)) tags)])
     @ wanted ''created_at'' ''>='' date_from @ wanted ''created_at'' ''<='' date_to"

lemma condition_enc: "condition a op v = map enc_part (wanted a op v)"
  by (simp add: condition_def wanted_def enc_part_def enc_comparison_def split: option.splits)

lemma advanced_conditions_enc:
  "advanced_conditions ty owner tags date_from date_to = map enc_part (wanted_parts ty owner tags date_from date_to)"
  by (simp add: advanced_conditions_def search_conditions_def condition_enc tags_condition_def wanted_parts_def enc_part_def
      enc_comparison_def comp_def)

lemma wanted_ok:
  assumes "q \<in> set (wanted a op v)" and "a \<noteq> []" and "CHR '' '' \<notin> set a" and "CHR ''('' \<notin> set a" and "CHR '' '' \<notin> set op"
  shows "part_ok q"
  using assms by (auto simp: wanted_def part_ok_def spaceless_def split: option.splits if_splits)

lemma wanted_parts_ok: "\<forall>q \<in> set (wanted_parts ty owner tags date_from date_to). part_ok q"
  by (auto simp: wanted_parts_def elim: wanted_ok) (auto simp: part_ok_def spaceless_def)

text \<open>C17. The filter that an advanced search sends reads back, in the filter language of the server, as exactly the conditions that
  the request asks for, in order: no quote, backslash, parenthesis or AND inside a value adds, drops or changes one.\<close>

theorem filter_reads_back:
  assumes "advanced_conditions ty owner tags date_from date_to \<noteq> []"
  shows "\<exists>t. jget ''filter'' JNull (build_search_params page n (advanced_conditions ty owner tags date_from date_to) multi) = JStr t \<and>
    read_filter t = Some (wanted_parts ty owner tags date_from date_to)"
proof -
  let ?qs = "wanted_parts ty owner tags date_from date_to"
  have "?qs \<noteq> []" using assms by (simp add: advanced_conditions_enc)
  from read_filter_enc [OF this wanted_parts_ok] assms show ?thesis
    by (simp add: build_search_params_def) (simp add: advanced_conditions_enc)
qed

definition nasty :: string where
  "nasty = ''a'' @ [CHR 0x22] @ '' OR owner_id = '' @ [CHR 0x22, CHR 0x5C]"

theorem filter_reads_back_witness:
  "\<exists>t. jget ''filter'' JNull (build_search_params 1 20 (advanced_conditions (Some nasty) (Some ''u'') [nasty, ''x''] None None) True) = JStr t \<and>
    read_filter t = Some (wanted_parts (Some nasty) (Some ''u'') [nasty, ''x''] None None)"
  by (rule filter_reads_back) (simp add: advanced_conditions_def tags_condition_def)

end
