(* ===== verification/Search_Samples.thy ===== *)
theory Search_Samples
  imports Search_Facts
begin

text \<open>
  A search server in memory, with the filter language of the service's requests: the theorems about the
  service are applied to it.
\<close>

text \<open>The part of the hits that a server returns for the offset and limit of a request.\<close>

definition window :: "dict \<Rightarrow> 'a list \<Rightarrow> 'a list" where
  "window params xs = (case (jget ''offset'' JNull params, jget ''limit'' JNull params) of
       (JInt f, JInt n) \<Rightarrow> take (nat n) (drop (nat f) xs)
     | (_, JInt n) \<Rightarrow> take (nat n) xs
     | _ \<Rightarrow> xs)"

type_synonym memory = "string \<Rightarrow> (json \<times> dict) list"

definition empty_memory :: memory where
  "empty_memory = (\<lambda>_. [])"

definition done_task :: task where
  "done_task = \<lparr>tk_uid = 0, tk_status = ''succeeded'', tk_error = []\<rparr>"

definition put_entries :: "dict list \<Rightarrow> (json \<times> dict) list \<Rightarrow> (json \<times> dict) list" where
  "put_entries ds es = fold (\<lambda>d. AList.update (jget ''id'' JNull d) d) ds es"

definition drop_entry :: "json \<Rightarrow> (json \<times> dict) list \<Rightarrow> (json \<times> dict) list" where
  "drop_entry i es = AList.delete i es"

definition set_index :: "string \<Rightarrow> ((json \<times> dict) list \<Rightarrow> (json \<times> dict) list) \<Rightarrow> memory \<Rightarrow> memory" where
  "set_index idx f m = m(idx := f (m idx))"

fun holds :: "dict \<Rightarrow> comparison \<Rightarrow> bool" where
  "holds d (a, op, v) = (case jget a JNull d of
       JStr s \<Rightarrow> if op = ''='' then s = v else if op = ''>='' then v \<le> s else s \<le> v
     | JList xs \<Rightarrow> op = ''='' \<and> JStr v \<in> set xs
     | _ \<Rightarrow> False)"

fun part_holds :: "dict \<Rightarrow> filter_part \<Rightarrow> bool" where
  "part_holds d (One c) = holds d c"
| "part_holds d (Either cs) = list_ex (holds d) cs"

definition accepted :: "dict \<Rightarrow> dict \<Rightarrow> bool" where
  "accepted params d = (case jget ''filter'' JNull params of
       JStr t \<Rightarrow> (case read_filter t of None \<Rightarrow> False | Some ps \<Rightarrow> list_all (part_holds d) ps)
     | _ \<Rightarrow> True)"

definition mentions :: "string \<Rightarrow> dict \<Rightarrow> bool" where
  "mentions q d = list_ex (\<lambda>k. text_contains q (json_str (jget k (JStr []) d))) [''title'', ''name'', ''content'']"

definition hits_in :: "memory \<Rightarrow> string \<Rightarrow> string \<Rightarrow> dict \<Rightarrow> dict list" where
  "hits_in m idx q params = filter (\<lambda>d. mentions q d \<and> accepted params d) (map snd (m idx))"

definition memory_server :: "memory meili" where
  "memory_server = \<lparr>ml_documents = ''documents'', ml_files = ''files'',
     ml_add = (\<lambda>idx ds. thenP (modP (set_index idx (put_entries ds))) (retP done_task)),
     ml_delete = (\<lambda>idx i. thenP (modP (set_index idx (drop_entry i))) (retP done_task)),
     ml_get = (\<lambda>idx i. bindP (getP (\<lambda>m. map_of (m idx) i)) (\<lambda>r. case r of
         None \<Rightarrow> raiseP (ApiErr ''document_not_found'') | Some d \<Rightarrow> retP d)),
     ml_get_index = (\<lambda>idx. retP ()), ml_create = (\<lambda>idx opts. retP done_task),
     ml_drop = (\<lambda>idx. thenP (modP (set_index idx (\<lambda>_. []))) (retP done_task)),
     ml_setting = (\<lambda>idx what values. retP ()),
     ml_search = (\<lambda>idx q params. getP (\<lambda>m. (window params (hits_in m idx q params), length (hits_in m idx q params)))),
     ml_health = retP ()\<rparr>"

lemma memory_server_simps [simp]:
  "ml_documents memory_server = ''documents''" "ml_files memory_server = ''files''"
  by (simp_all add: memory_server_def)

end
