(* ===== verification/Doc_Feed.thy ===== *)
theory Doc_Feed
  imports Doc_Api_Facts
begin

text \<open>
  The events that the document service publishes: when publications succeed, replaying them in order gives
  exactly the live documents, in every reachable database, whatever requests return or fail to commit.
\<close>

section \<open>Replaying events\<close>

definition live_row :: "store \<Rightarrow> uuid \<Rightarrow> document option" where
  "live_row s i = find (live_document i) (st_documents s)"

fun replay :: "event \<Rightarrow> (uuid \<Rightarrow> document option) \<Rightarrow> uuid \<Rightarrow> document option" where
  "replay (ty, Indexed d restored) f = f(dc_id d \<mapsto> d)"
| "replay (ty, Removed i) f = f(i := None)"
| "replay (ty, Commented c i a) f = f"

definition replayed :: "event list \<Rightarrow> uuid \<Rightarrow> document option" where
  "replayed es = fold replay es (\<lambda>_. None)"

lemma replayed_snoc: "replayed (es @ [e]) = replay e (replayed es)"
  by (simp add: replayed_def)

text \<open>The name of an event fits its payload, and an announced document has a title.\<close>

fun event_ok :: "event \<Rightarrow> bool" where
  "event_ok (ty, Indexed d restored) = ((ty = ''document_created'' \<or> ty = ''document_updated'') \<and> dc_title d \<noteq> [])"
| "event_ok (ty, Removed i) = (ty = ''document_deleted'')"
| "event_ok (ty, Commented c i a) = (ty = ''comment_added'')"

definition announced :: "store \<Rightarrow> bool" where
  "announced s \<longleftrightarrow> distinct (map dc_id (st_documents s)) \<and> replayed (st_events s) = live_row s \<and>
     (\<forall>e \<in> set (st_events s). event_ok e) \<and> (\<forall>d \<in> set (st_documents s). dc_title d \<noteq> [] \<and> \<not> dc_template d) \<and>
     (\<forall>v \<in> set (st_versions s). dv_title v \<noteq> [])"

definition publishes :: "doc_env \<Rightarrow> bool" where
  "publishes E \<longleftrightarrow> ev_sns_enabled E \<and> (\<forall>n. \<not> ev_publish_fails E n)"

lemma announced_cong:
  "announced s \<Longrightarrow> st_documents t = st_documents s \<Longrightarrow> st_versions t = st_versions s \<Longrightarrow> st_events t = st_events s \<Longrightarrow> announced t"
  by (simp add: announced_def live_row_def fun_eq_iff)

lemma announced_tick [simp]: "announced (s\<lparr>st_tick := n\<rparr>) = announced s"
  by (simp add: announced_def live_row_def fun_eq_iff)

section \<open>Operations that announce nothing\<close>

named_theorems feed_rules \<open>operations that keep the announced documents true\<close>

lemma feed_quiet:
  "(\<And>s r t. m s = (r, t) \<Longrightarrow> st_documents t = st_documents s \<and> st_versions t = st_versions s \<and> st_events t = st_events s) \<Longrightarrow>
   keeps announced m"
  by (auto intro!: keepsI intro: announced_cong)

lemma feed_steps [feed_rules]:
  "keeps announced (reading f)" "keeps announced (get_document i)" "keeps announced (refresh_document i)"
  "keeps announced (unused k keys)" "keeps announced (fits_columns a b)" "keeps announced (one_or_none xs)"
  "keeps announced (owned_document E rq detail i)" "keeps announced (run_text g)"
  "keeps announced (found_or_404 detail z)" "keeps announced (found_or_crash z')"
proof -
  show "keeps announced (owned_document E rq detail i)" by (rule feed_quiet) (auto dest: owned_outcome(1))
  show "keeps announced (get_document i)" by (rule feed_quiet) (auto dest: get_document_outcome(1))
  show "keeps announced (reading f)" by (rule feed_quiet) (auto simp: reading_def)
  show "keeps announced (refresh_document i)" "keeps announced (unused k keys)" "keeps announced (fits_columns a b)"
    "keeps announced (one_or_none xs)"
    by (rule feed_quiet; auto dest: refresh_outcome unused_outcome fits_outcome one_or_none_outcome)+
  show "keeps announced (found_or_404 detail z)" "keeps announced (found_or_crash z')" "keeps announced (run_text g)"
    unfolding found_or_404_def found_or_crash_def run_text_def by (intro keeps_rules | simp split: option.splits)+
qed

lemma feed_commit:
  "(\<And>s. st_documents (f s) = st_documents s \<and> st_versions (f s) = st_versions s \<and> st_events (f s) = st_events s) \<Longrightarrow>
   keeps announced (commit E f)"
  by (rule feed_quiet) (auto dest: commit_outcome)

lemma feed_comment_event [feed_rules]: "keeps announced (publish E ''comment_added'' (Commented c i a))"
proof (rule keepsI)
  fix s r t
  assume s: "announced s" and run: "publish E ''comment_added'' (Commented c i a) s = (r, t)"
  then have "st_documents t = st_documents s \<and> st_versions t = st_versions s \<and>
      (st_events t = st_events s \<or> st_events t = st_events s @ [(''comment_added'', Commented c i a)])"
    by (auto simp: publish_def bindP_eval reading_def split: if_splits)
  then show "announced t" using s by (auto simp: announced_def live_row_def fun_eq_iff replayed_snoc)
qed

section \<open>Operations that announce a document\<close>

lemma find_other: "(\<And>x. x \<in> set xs \<Longrightarrow> P (f x) = P x \<and> (P x \<longrightarrow> f x = x)) \<Longrightarrow> find P (map f xs) = find P xs"
  by (induction xs) auto

lemma live_row_put:
  assumes "distinct (map dc_id (st_documents s))" and "old \<in> set (st_documents s)" and "derived old d"
  shows "live_row (put_document old d s) i = (if i = dc_id d then if dc_deleted d then None else Some d else live_row s i)"
proof -
  have rows: "st_documents (put_document old d s) = map (\<lambda>x. if dc_id x = dc_id old then d else x) (st_documents s)"
    by (rule put_document_rows [OF assms])
  have ids: "dc_id d = dc_id old" using assms(3) by (simp add: derived_def)
  show ?thesis
  proof (cases "i = dc_id d")
    case True
    have "find (live_document i) (map (\<lambda>x. if dc_id x = dc_id old then d else x) xs) = (if dc_deleted d then None else Some d)"
      if "old \<in> set xs" for xs
      using that True ids by (induction xs) (auto simp: live_document_def find_None_iff)
    with True assms(2) show ?thesis by (simp add: live_row_def rows)
  next
    case False
    then show ?thesis unfolding live_row_def rows by (subst find_other) (auto simp: live_document_def ids)
  qed
qed

lemma find_put_document:
  assumes "distinct (map dc_id (st_documents s))" and "old \<in> set (st_documents s)" and "derived old d"
  shows "find (\<lambda>x. dc_id x = dc_id d) (st_documents (put_document old d s)) = Some d"
proof -
  have "find (\<lambda>x. dc_id x = dc_id d) (map (\<lambda>x. if dc_id x = dc_id old then d else x) xs) = Some d" if "old \<in> set xs" for xs
    using that assms(3) by (induction xs) (auto simp: derived_def)
  then show ?thesis unfolding put_document_rows [OF assms] using assms(2) by blast
qed

lemma report_run:
  assumes "publishes E" and "find (\<lambda>d. dc_id d = i) (st_documents s) = Some row"
    and "bindP (refresh_document i) (\<lambda>row. thenP (publish E ty (g row)) (retP row)) s = (r, t)"
  shows "t = s\<lparr>st_tick := Suc (st_tick s), st_events := st_events s @ [(ty, g row)]\<rparr>"
  using assms by (auto simp: publishes_def refresh_document_def publish_def bindP_eval thenP_eval reading_def)

lemma new_version_run:
  "new_version E d author s = (r, t) \<Longrightarrow> (\<exists>v n. r = Inr v \<and> version_row v d author \<and> t = s\<lparr>st_tick := n\<rparr>)"
  by (auto simp: new_version_def bindP_eval reading_def version_row_def)

text \<open>The end of every operation that stores a document: a version, a commit, a report.\<close>

lemma feed_store:
  assumes "publishes E" and "announced s"
    and "thenP (unused (dv_id v) (\<lambda>s. map dv_id (st_versions s))) (thenP (commit E f)
      (bindP (refresh_document i) (\<lambda>row. thenP (publish E ty (g row)) (retP row)))) (s\<lparr>st_tick := k\<rparr>) = (r, t)"
    and "\<And>n. find (\<lambda>d. dc_id d = i) (st_documents (f (s\<lparr>st_tick := n\<rparr>))) = Some d"
    and "\<And>n m. announced ((f (s\<lparr>st_tick := n\<rparr>))\<lparr>st_tick := m, st_events := st_events (f (s\<lparr>st_tick := n\<rparr>)) @ [(ty, g d)]\<rparr>)"
  shows "announced t"
  using assms(3)
proof (cases rule: thenP_runE)
  case (raised e)
  then show ?thesis using assms(2) by (auto dest: unused_outcome)
next
  case (returned a u)
  then have u: "u = s\<lparr>st_tick := k\<rparr>" by (auto dest: unused_outcome)
  from returned(2) show ?thesis
  proof (cases rule: thenP_runE)
    case (raised e)
    then show ?thesis using assms(2) u by (auto dest!: commit_outcome)
  next
    case (returned b w)
    then have w: "w = f (s\<lparr>st_tick := Suc k\<rparr>)" using u by (auto dest!: commit_outcome)
    from report_run [OF assms(1) _ returned(2), of d] assms(4,5) w show ?thesis by simp
  qed
qed

lemma version_titled: "version_row v d author \<Longrightarrow> dv_title v = dc_title d"
  by (simp add: version_row_def)

lemma announced_saved:
  assumes "announced s" and "old \<in> set (st_documents s)" and "derived old d" and "\<not> dc_deleted d" and "dc_title d \<noteq> []"
    and "version_row v d author"
  shows "announced ((put_version v (put_document old d (s\<lparr>st_tick := n\<rparr>)))
    \<lparr>st_tick := m, st_events := st_events s @ [(''document_updated'', Indexed d restored)]\<rparr>)" (is "announced ?t")
proof -
  have dist: "distinct (map dc_id (st_documents s))" using assms(1) by (simp add: announced_def)
  have docs: "st_documents ?t = st_documents (put_document old d s)" by (simp add: put_document_def)
  have "live_row ?t i = live_row (put_document old d s) i" for i by (simp add: live_row_def docs)
  moreover have "\<forall>x \<in> set (st_documents ?t). dc_title x \<noteq> [] \<and> \<not> dc_template x"
    unfolding docs using put_document_member [OF dist assms(2,3)] assms(1,2,3,5) by (fastforce simp: announced_def derived_def)
  ultimately show ?thesis
    using assms(1,4-6) live_row_put [OF dist assms(2,3)] version_titled [OF assms(6)]
    by (auto simp: announced_def docs put_document_ids replayed_snoc fun_eq_iff)
qed

lemma feed_save:
  assumes "publishes E" and "announced s" and "old \<in> set (st_documents s)" and "derived old new" and "\<not> dc_deleted new"
    and "dc_title new \<noteq> []" and "save_new_version E old new author restored s = (r, t)"
  shows "announced t"
  using assms(7) unfolding save_new_version_def
proof (cases rule: bindP_runE)
  case (raised e)
  then show ?thesis by (simp add: reading_def)
next
  case (returned u s1)
  then have s1: "s1 = s\<lparr>st_tick := Suc (st_tick s)\<rparr>" by (simp add: reading_def)
  let ?d = "new\<lparr>dc_version := dc_version new + 1, dc_updated := u\<rparr>"
  have d: "derived old ?d" using assms(4) by (simp add: derived_def)
  from returned(2) [unfolded Let_def] show ?thesis
  proof (cases rule: bindP_runE)
    case (raised e)
    then show ?thesis by (auto dest: new_version_run)
  next
    case (returned v s2)
    then obtain k where s2: "s2 = s\<lparr>st_tick := k\<rparr>" and v: "version_row v ?d author" using s1 by (auto dest!: new_version_run)
    from returned(2) show ?thesis
    proof (cases rule: thenP_runE)
      case (raised e)
      then show ?thesis using s2 assms(2) by (auto dest: fits_outcome)
    next
      case (returned a s3)
      then have s3: "s3 = s\<lparr>st_tick := k\<rparr>" using s2 by (auto dest: fits_outcome)
      have dist: "distinct (map dc_id (st_documents (s\<lparr>st_tick := n\<rparr>)))" for n using assms(2) by (simp add: announced_def)
      have "announced ((put_version v (put_document old ?d (s\<lparr>st_tick := n\<rparr>)))\<lparr>st_tick := m,
          st_events := st_events (put_version v (put_document old ?d (s\<lparr>st_tick := n\<rparr>))) @ [(''document_updated'', Indexed ?d restored)]\<rparr>)" for n m
        using announced_saved [OF assms(2,3) d _ _ v] assms(5,6) by (simp add: put_version_def put_document_def)
      then show ?thesis
        using feed_store [OF assms(1,2) returned(2) [unfolded s3], of ?d] find_put_document [OF dist _ d] assms(3) by simp
    qed
  qed
qed

lemma feed_insert:
  assumes "publishes E" and "dc_title d \<noteq> []" and "\<not> dc_deleted d" and "\<not> dc_template d"
  shows "keeps announced (insert_document E d owner)"
proof (rule keepsI)
  fix s r t
  assume s: "announced s" and run: "insert_document E d owner s = (r, t)"
  from run show "announced t" unfolding insert_document_def
  proof (cases rule: thenP_runE)
    case (raised e)
    then show ?thesis using s by (auto dest: fits_outcome)
  next
    case (returned a w)
    then have w: "w = s" by (auto dest: fits_outcome)
    from returned(2) [unfolded w] show ?thesis
    proof (cases rule: thenP_runE)
      case (raised e)
      then show ?thesis using s by (auto dest: unused_outcome)
    next
      case (returned b u)
      then have u: "u = s" and free: "dc_id d \<notin> dc_id ` set (st_documents s)" by (auto dest!: unused_outcome split: if_splits)
      from returned(2) [unfolded u] show ?thesis
      proof (cases rule: bindP_runE)
        case (raised e)
        then show ?thesis by (auto dest: new_version_run)
      next
        case (returned v x)
        then obtain k where x: "x = s\<lparr>st_tick := k\<rparr>" and v: "version_row v d owner" by (auto dest!: new_version_run)
        have none: "find (\<lambda>e. dc_id e = dc_id d) (st_documents s) = None" using free unfolding find_None_iff by (metis imageI)
        have old: "find (live_document (dc_id d)) (st_documents s) = None"
          using free unfolding find_None_iff live_document_def by (metis imageI)
        have "announced ((put_version v (s\<lparr>st_tick := n, st_documents := st_documents s @ [d]\<rparr>))
          \<lparr>st_tick := m, st_events := st_events s @ [(''document_created'', Indexed d None)]\<rparr>)" for n m
          using s free old assms(2-4) version_titled [OF v]
          by (auto simp: announced_def live_row_def fun_eq_iff replayed_snoc find_append live_document_def split: option.splits)
        then show ?thesis
          using feed_store [OF assms(1) s returned(2) [unfolded x], of d] none by (simp add: find_append put_version_def)
      qed
    qed
  qed
qed

section \<open>Requests\<close>

lemma feed_valid: "(b \<Longrightarrow> keeps announced m) \<Longrightarrow> keeps announced (thenP (valid_request b) m)"
  by (auto simp: keeps_def hoare_def valid_request_def thenP_eval)

lemma feed_create:
  assumes "publishes E" and "cr_title data \<noteq> []"
  shows "keeps announced (create_document E data)"
  unfolding create_document_def by (intro keeps_rules feed_rules feed_insert assms) (use assms in simp_all)

lemma title_ok_text: "title_ok t \<Longrightarrow> t \<noteq> []"
  by (auto simp: title_ok_def)

lemma feed_api_create:
  assumes "publishes E"
  shows "keeps announced (api_create E rq body)"
  unfolding api_create_def
  by (intro feed_valid) (auto intro!: keeps_rules feed_create assms dest: title_ok_text split: option.splits)

lemma feed_from_template:
  assumes "publishes E"
  shows "keeps announced (api_from_template E tid body)"
  unfolding api_from_template_def create_from_template_def get_template_def
  by (intro feed_valid keeps_rules feed_rules feed_create [OF assms]) (auto dest: title_ok_text)

lemma announced_titles: "announced s \<Longrightarrow> d \<in> set (st_documents s) \<Longrightarrow> dc_title d \<noteq> []"
  by (simp add: announced_def)

lemma feed_update:
  assumes "publishes E" and "up_title data \<noteq> []"
  shows "keeps announced (update_document E i data author)"
  unfolding update_document_def with_document_def
proof (rule keeps_loaded)
  fix d s r t
  assume d: "d \<in> set (st_documents s)" "\<not> dc_deleted d" and s: "announced s" and run: "update_loaded E data author d s = (r, t)"
  from bind_ret_outcome [OF run [unfolded update_loaded_def]] obtain r' where
    "save_new_version E d (updated_by data d) (case author of None \<Rightarrow> dc_owner d | Some a \<Rightarrow> a) None s = (r', t)" ..
  from feed_save [OF assms(1) s d(1) _ _ _ this] assms(2) d(2) show "announced t" by (simp add: derived_def updated_by_def)
qed

lemma patched_title: "dc_title (patched_by p d) = (case pt_title p of None \<Rightarrow> dc_title d | Some t \<Rightarrow> t)"
  "dc_deleted (patched_by p d) = dc_deleted d" "derived d (patched_by p d)"
  by (simp_all add: patched_by_def Let_def derived_def split: option.splits)

lemma feed_patch:
  assumes "publishes E" and "patch_ok p"
  shows "keeps announced (patch_document E i p)"
  unfolding patch_document_def with_document_def
proof (rule keeps_loaded)
  fix d s r t
  assume d: "d \<in> set (st_documents s)" "\<not> dc_deleted d" and s: "announced s" and run: "patch_loaded E p d s = (r, t)"
  show "announced t"
  proof (cases "patch_changes p")
    case True
    with run have "bindP (save_new_version E d (patched_by p d) (dc_owner d) None) (\<lambda>row. retP (Some row)) s = (r, t)"
      by (simp add: patch_loaded_def)
    from bind_ret_outcome [OF this] obtain r' where save: "save_new_version E d (patched_by p d) (dc_owner d) None s = (r', t)" ..
    have "dc_title (patched_by p d) \<noteq> []"
      using assms(2) announced_titles [OF s d(1)] by (auto simp: patched_title patch_ok_def title_ok_def split: option.splits)
    from feed_save [OF assms(1) s d(1) patched_title(3) _ this save] d(2) show ?thesis by (simp add: patched_title)
  next
    case False
    then have "keeps announced (patch_loaded E p d)" unfolding patch_loaded_def
      by (auto intro!: keeps_rules feed_rules feed_commit)
    from keepsD [OF this s run] show ?thesis .
  qed
qed

lemma feed_restore:
  assumes "publishes E"
  shows "keeps announced (restore_version E i vid)"
  unfolding restore_version_def with_document_def
proof (rule keeps_loaded)
  fix d s r t
  assume d: "d \<in> set (st_documents s)" "\<not> dc_deleted d" and s: "announced s" and run: "restore_loaded E vid d s = (r, t)"
  from run show "announced t" unfolding restore_loaded_def
  proof (cases rule: bindP_runE)
    case (raised e)
    then show ?thesis using s by (auto simp: bindP_eval one_or_none_def split: list.splits)
  next
    case (returned a u)
    then have u: "u = s" by (auto simp: bindP_eval one_or_none_def split: list.splits)
    show ?thesis
    proof (cases a)
      case None
      with returned u s show ?thesis by simp
    next
      case (Some v)
      have "filter (\<lambda>v. dv_id v = vid \<and> dv_document v = dc_id d) (st_versions s) = [v]"
        using returned(1) Some by (auto simp: bindP_eval one_or_none_def split: list.splits)
      then have "v \<in> set (st_versions s)" by (metis (no_types, lifting) filter_is_subset in_mono list.set_intros(1))
      then have "dv_title v \<noteq> []" using s by (simp add: announced_def)
      have "bindP (save_new_version E d (restored_to v d) (dc_owner d) (Some vid)) (\<lambda>row. retP (Some row)) s = (r, t)"
        using returned(2) u Some by simp
      from bind_ret_outcome [OF this] obtain r' where
        save: "save_new_version E d (restored_to v d) (dc_owner d) (Some vid) s = (r', t)" ..
      have "derived d (restored_to v d)" "\<not> dc_deleted (restored_to v d)" "dc_title (restored_to v d) \<noteq> []"
        using d(2) \<open>dv_title v \<noteq> []\<close> by (simp_all add: derived_def restored_to_def)
      from feed_save [OF assms s d(1) this save] show ?thesis .
    qed
  qed
qed

lemma feed_delete:
  assumes "publishes E"
  shows "keeps announced (delete_document E i)"
  unfolding delete_document_def
proof (rule keeps_loaded)
  fix d s r t
  assume d: "d \<in> set (st_documents s)" "\<not> dc_deleted d" and s: "announced s" and run: "delete_loaded E d s = (r, t)"
  let ?gone = "\<lambda>u. d\<lparr>dc_deleted := True, dc_updated := u\<rparr>"
  have dist: "distinct (map dc_id (st_documents s))" using s by (simp add: announced_def)
  have der: "derived d (?gone u)" for u by (simp add: derived_def)
  have member: "dc_title x \<noteq> [] \<and> \<not> dc_template x" if "x \<in> set (st_documents (put_document d (?gone u) s))" for x u
    using put_document_member [OF dist d(1) der that] s d(1) by (fastforce simp: announced_def)
  have "announced ((put_document d (?gone u) s)\<lparr>st_tick := n, st_events := st_events s @ [(''document_deleted'', Removed (dc_id d))]\<rparr>)" for u n
    using s member live_row_put [OF dist d(1) der]
    by (auto simp: announced_def replayed_snoc fun_eq_iff live_row_def put_document_ids)
  moreover have "put_document d (?gone u) (s\<lparr>st_tick := n\<rparr>) = (put_document d (?gone u) s)\<lparr>st_tick := n\<rparr>" for u n
    by (simp add: put_document_def)
  moreover have "st_events (put_document d x s) = st_events s" for x by (simp add: put_document_def)
  ultimately show "announced t" using run s assms
    by (auto simp: delete_loaded_def bindP_eval thenP_eval reading_def commit_def publish_def publishes_def split: if_splits)
qed

lemma feed_others [feed_rules]:
  "keeps announced (list_versions i)" "keeps announced (list_documents a b c d)"
  "keeps announced (search_documents E q c d)" "keeps announced (list_comments i)"
  "keeps announced list_templates" "keeps announced (create_template E tq)" "keeps announced (add_comment E i body)"
  "keeps announced (delete_comment E i cid)"
  unfolding list_versions_def list_documents_def search_documents_def list_comments_def list_templates_def get_template_def
    create_template_def add_comment_def with_document_def delete_comment_def Let_def
  by (intro keeps_rules feed_rules feed_commit; simp)+

lemma feed_export [feed_rules]: "keeps announced (api_export E rq i fmt)"
proof -
  have "keeps announced (modP (cache_put d fmt r))" for d r
    by (rule feed_quiet) (auto simp: cache_put_def)
  then show ?thesis unfolding api_export_def by (intro keeps_rules feed_rules)
qed

lemma feed_answer [feed_rules]: "keeps announced m \<Longrightarrow> keeps announced (answer f m)"
  unfolding answer_def by (intro keeps_rules)

lemma feed_handlers:
  assumes "publishes E"
  shows "keeps announced (api_update E rq i u)" "keeps announced (api_patch E rq i p)" "keeps announced (api_restore E rq i vid)"
    "keeps announced (api_delete E rq i)"
  unfolding api_update_def api_patch_def api_restore_def api_delete_def
  by (intro feed_valid keeps_rules feed_rules feed_update [OF assms] feed_patch [OF assms] feed_restore [OF assms]
      feed_delete [OF assms]; simp add: title_ok_text)+

lemma feed_readers [feed_rules]:
  "keeps announced (api_search E t page n)" "keeps announced (api_read_export E name)" "keeps announced (api_shared E i token)"
  "keeps announced (api_list E rq fq)" "keeps announced (api_get E rq i)" "keeps announced (api_versions E rq i)"
  "keeps announced (api_share E rq i)" "keeps announced (api_add_comment E i cc)" "keeps announced (api_delete_comment E i cid)"
  "keeps announced (api_create_template E tq)"
  unfolding api_search_def api_read_export_def api_shared_def api_list_def Let_def filter_documents_def api_get_def
    api_versions_def api_share_def api_add_comment_def api_delete_comment_def api_create_template_def
  by (intro feed_valid keeps_rules feed_rules)+

lemma serve_announced:
  assumes "publishes E"
  shows "keeps announced (serve E q)"
  by (cases q)
    (auto intro!: feed_rules feed_api_create [OF assms] feed_from_template [OF assms] feed_handlers [OF assms])

lemma reached_announced: "reached E s \<Longrightarrow> publishes E \<Longrightarrow> announced s"
proof (induction rule: reached.induct)
  case begun
  show ?case by (simp add: announced_def empty_store_def live_row_def replayed_def fun_eq_iff)
next
  case (request s q r t)
  from keepsD [OF serve_announced [OF request.prems] request.IH [OF request.prems] request.hyps(2)] show ?case .
next
  case (rolled s host interval now res t)
  obtain r' where "compute_rollup E host (current_window interval now) s = (r', t)" using run_once_outcome [OF rolled.hyps(2)] ..
  then have "st_documents t = st_documents s \<and> st_versions t = st_versions s \<and> st_events t = st_events s"
    by (auto dest: rollup_outcome)
  then show ?case using announced_cong [OF rolled.IH [OF rolled.prems]] by blast
next
  case (restarted s)
  show ?case by (rule announced_cong [OF restarted.IH [OF restarted.prems]]) simp_all
qed

end
