(* ===== verification/Search_Messages.thy ===== *)
theory Search_Messages
  imports Search_Samples Doc_Feed
begin

text \<open>
  The messages that the document service publishes, what the consumer of the search service relies on in the
  server, and the effect of one message on the documents index.
\<close>

section \<open>Published messages\<close>

text \<open>
  \<open>_document_index_payload\<close> and the message of \<open>EventPublisher.publish\<close> as the JSON that its encoder writes:
  identifiers as text, times in ISO format (\<open>stamp\<close>).
\<close>

definition uuid_json :: "uuid \<Rightarrow> json" where
  "uuid_json i = JStr (str_uuid i)"

definition document_payload :: "(nat \<Rightarrow> string) \<Rightarrow> document \<Rightarrow> dict" where
  "document_payload stamp d =
     [(''id'', uuid_json (dc_id d)), (''title'', JStr (dc_title d)), (''content'', JStr (dc_content d)),
      (''owner_id'', uuid_json (dc_owner d)), (''tags'', JList []), (''created_at'', JStr (stamp (dc_created d))),
      (''updated_at'', JStr (stamp (dc_updated d)))]"

fun payload_json :: "(nat \<Rightarrow> string) \<Rightarrow> payload \<Rightarrow> dict" where
  "payload_json stamp (Indexed d restored) =
     document_payload stamp d @ (case restored of None \<Rightarrow> [] | Some v \<Rightarrow> [(''restored_from'', uuid_json v)])"
| "payload_json stamp (Removed i) = [(''id'', uuid_json i), (''type'', JStr ''document'')]"
| "payload_json stamp (Commented c i a) = [(''comment_id'', uuid_json c), (''document_id'', uuid_json i), (''author_id'', uuid_json a)]"

definition event_json :: "(nat \<Rightarrow> string) \<Rightarrow> string \<Rightarrow> event \<Rightarrow> dict" where
  "event_json stamp time e =
     [(''event_type'', JStr (fst e)), (''timestamp'', JStr time), (''payload'', JDict (payload_json stamp (snd e)))]"

text \<open>The text of a queue message carries an event, as it is or in the envelope of SNS.\<close>

definition carries :: "(string \<Rightarrow> json option) \<Rightarrow> (nat \<Rightarrow> string) \<Rightarrow> string \<Rightarrow> event \<Rightarrow> bool" where
  "carries loads stamp t e \<longleftrightarrow> (\<exists>time. loads t = Some (JDict (event_json stamp time e)) \<or>
     (\<exists>envelope inner. loads t = Some (JDict envelope) \<and> jget ''Message'' JNull envelope = JStr inner \<and>
        jhas ''TopicArn'' envelope \<and> loads inner = Some (JDict (event_json stamp time e))))"

lemma carried_body: "carries loads stamp t e \<Longrightarrow> \<exists>time. message_body loads t = Inr (event_json stamp time e)"
proof -
  have has: "jhas k d" if "jget k JNull d = JStr x" for k d x
    using that by (auto simp: jhas_def jget_def split: option.splits)
  assume "carries loads stamp t e"
  then obtain time where "loads t = Some (JDict (event_json stamp time e)) \<or>
     (\<exists>envelope inner. loads t = Some (JDict envelope) \<and> jget ''Message'' JNull envelope = JStr inner \<and>
        jhas ''TopicArn'' envelope \<and> loads inner = Some (JDict (event_json stamp time e)))"
    by (auto simp: carries_def)
  then show ?thesis
  proof
    assume "loads t = Some (JDict (event_json stamp time e))"
    then have "message_body loads t = Inr (event_json stamp time e)" by (simp add: message_body_def event_json_def)
    then show ?thesis ..
  next
    assume "\<exists>envelope inner. loads t = Some (JDict envelope) \<and> jget ''Message'' JNull envelope = JStr inner \<and>
        jhas ''TopicArn'' envelope \<and> loads inner = Some (JDict (event_json stamp time e))"
    then have "message_body loads t = Inr (event_json stamp time e)" using has by (auto simp: message_body_def)
    then show ?thesis ..
  qed
qed

lemma normalized:
  "event_ok e \<Longrightarrow> normalize_event (event_json stamp time e) = Inr
    [(''action'', JStr (case snd e of Indexed d r \<Rightarrow> ''index_document'' | Removed i \<Rightarrow> ''delete'' | Commented c i a \<Rightarrow> ''comment_added'')),
     (''data'', JDict (payload_json stamp (snd e)))]"
  by (cases e rule: event_ok.cases)
    (auto simp: normalize_event_def event_json_def Let_def action_of_def event_actions_def file_actions_def)

section \<open>The server\<close>

definition put_hit :: "dict \<Rightarrow> (json \<Rightarrow> dict option) \<Rightarrow> json \<Rightarrow> dict option" where
  "put_hit d f = f(jget ''id'' JNull d \<mapsto> d)"

definition no_value_error :: "(search_error + 'a) \<Rightarrow> bool" where
  "no_value_error r \<longleftrightarrow> (\<forall>msg. r \<noteq> Inl (ValueErr msg))"

text \<open>
  What the code relies on: a finished task reports its status, an addition or deletion that succeeded has
  taken effect on the entries of that index (\<open>view\<close>) and on nothing else, reading changes nothing, and an API
  error on reading an entry means that there is none.
\<close>

definition obeys :: "'m meili \<Rightarrow> ('m \<Rightarrow> string \<Rightarrow> json \<Rightarrow> dict option) \<Rightarrow> bool" where
  "obeys M view \<longleftrightarrow>
     (\<forall>idx ds m r m'. ml_add M idx ds m = (r, m') \<longrightarrow> no_value_error r \<and> (\<forall>tk. r = Inr tk \<longrightarrow> tk_status tk \<noteq> [] \<and>
        (tk_status tk = ''succeeded'' \<longrightarrow> view m' = (view m)(idx := fold put_hit ds (view m idx))))) \<and>
     (\<forall>idx i m r m'. ml_delete M idx i m = (r, m') \<longrightarrow> no_value_error r \<and> (\<forall>tk. r = Inr tk \<longrightarrow> tk_status tk \<noteq> [] \<and>
        (tk_status tk = ''succeeded'' \<longrightarrow> view m' = (view m)(idx := (view m idx)(i := None))))) \<and>
     (\<forall>idx i m r m'. ml_get M idx i m = (r, m') \<longrightarrow> no_value_error r \<and> view m' = view m \<and>
        (\<forall>msg. r = Inl (ApiErr msg) \<longrightarrow> view m idx i = None))"

lemma checked_task:
  assumes "task m = (r1, m1)" and "no_value_error r1"
    and "\<And>tk. r1 = Inr tk \<Longrightarrow> tk_status tk \<noteq> [] \<and> (tk_status tk = ''succeeded'' \<longrightarrow> Q m1)"
    and "bindP task wait_and_check m = (r, m')"
  shows "no_value_error r \<and> (\<forall>u. r = Inr u \<longrightarrow> Q m')"
proof (cases r1)
  case (Inl e)
  with assms show ?thesis by (auto simp: bindP_eval no_value_error_def)
next
  case (Inr tk)
  with assms(1,4) have "wait_and_check tk m1 = (r, m')" by (simp add: bindP_eval)
  then show ?thesis using assms(3) [OF Inr] by (auto simp: wait_and_check_def no_value_error_def split: if_splits)
qed

lemma add_checked:
  assumes "obeys M view" and "bindP (ml_add M idx ds) wait_and_check m = (r, m')"
  shows "no_value_error r \<and> (\<forall>u. r = Inr u \<longrightarrow> view m' = (view m)(idx := fold put_hit ds (view m idx)))"
proof -
  obtain r1 m1 where run: "ml_add M idx ds m = (r1, m1)" by fastforce
  note law = assms(1) [unfolded obeys_def, THEN conjunct1, rule_format, OF run]
  show ?thesis
    by (rule checked_task [OF run _ _ assms(2), where Q = "\<lambda>x. view x = (view m)(idx := fold put_hit ds (view m idx))"])
      (use law in \<open>auto simp del: fun_upd_apply\<close>)
qed

lemma delete_checked:
  assumes "obeys M view" and "bindP (ml_delete M idx i) wait_and_check m = (r, m')"
  shows "no_value_error r \<and> (\<forall>u. r = Inr u \<longrightarrow> view m' = (view m)(idx := (view m idx)(i := None)))"
proof -
  obtain r1 m1 where run: "ml_delete M idx i m = (r1, m1)" by fastforce
  note law = assms(1) [unfolded obeys_def, THEN conjunct2, THEN conjunct1, rule_format, OF run]
  show ?thesis
    by (rule checked_task [OF run _ _ assms(2), where Q = "\<lambda>x. view x = (view m)(idx := (view m idx)(i := None))"])
      (use law in \<open>auto simp del: fun_upd_apply\<close>)
qed

lemma delete_found:
  assumes "obeys M view" and "ms_delete_document M ''document'' i m = (r, m')"
  shows "no_value_error r \<and>
    (\<forall>gone. r = Inr gone \<longrightarrow> view m' = (view m)(ml_documents M := (view m (ml_documents M))(i := None)))"
proof -
  obtain r1 m1 where get: "ml_get M (ml_documents M) i m = (r1, m1)" by fastforce
  then have law: "no_value_error r1" "view m1 = view m" "\<And>msg. r1 = Inl (ApiErr msg) \<Longrightarrow> view m (ml_documents M) i = None"
    using assms(1) unfolding obeys_def by blast+
  note run = assms(2) [unfolded ms_delete_document_def Let_def, simplified]
  show ?thesis
  proof (cases r1)
    case (Inr d)
    then have "thenP (bindP (ml_delete M (ml_documents M) i) wait_and_check) (retP True) m1 = (r, m')"
      using run get by (simp add: bindP_eval tryP_eval thenP_eval)
    then show ?thesis
    proof (cases rule: thenP_runE)
      case (raised e)
      then show ?thesis using delete_checked [OF assms(1) raised(1)] by (simp add: no_value_error_def)
    next
      case (returned a u)
      then show ?thesis using delete_checked [OF assms(1) returned(1)] law(2) by (auto simp: no_value_error_def)
    qed
  next
    case (Inl e)
    show ?thesis
    proof (cases e)
      case (ApiErr msg)
      then have "view m (ml_documents M) i = None" using law(3) Inl by simp
      then have "(view m)(ml_documents M := (view m (ml_documents M))(i := None)) = view m" by (auto simp: fun_eq_iff)
      moreover have "r = Inr False" "m' = m1" using run get Inl ApiErr by (simp_all add: bindP_eval tryP_eval thenP_eval)
      ultimately show ?thesis using law(2) by (simp add: no_value_error_def)
    qed (use run get Inl law(1) in \<open>auto simp: bindP_eval tryP_eval thenP_eval no_value_error_def\<close>)
  qed
qed

section \<open>One message\<close>

text \<open>The entry of a document in the index\<close>

definition index_entry :: "(nat \<Rightarrow> string) \<Rightarrow> document \<Rightarrow> dict" where
  "index_entry stamp d = document_payload stamp d @ [(''type'', JStr ''document'')]"

fun entry_effect :: "(nat \<Rightarrow> string) \<Rightarrow> payload \<Rightarrow> (json \<Rightarrow> dict option) \<Rightarrow> json \<Rightarrow> dict option" where
  "entry_effect stamp (Indexed d restored) f = f(uuid_json (dc_id d) \<mapsto> index_entry stamp d)"
| "entry_effect stamp (Removed i) f = f(uuid_json i := None)"
| "entry_effect stamp (Commented c i a) f = f"

lemma str_uuid_nonempty: "str_uuid i \<noteq> []"
  by (simp add: str_uuid_def Let_def)

lemma record_entry: "jset ''type'' (JStr ''document'') (document_record (payload_json stamp (Indexed d restored))) = index_entry stamp d"
  by (simp add: document_record_def document_payload_def index_entry_def jset_def)

lemma message_effect:
  assumes "obeys M view" and "event_ok e" and "carries loads stamp t e" and "process_message M loads t m = (Inr Deleted, m')"
  shows "view m' (ml_documents M) = entry_effect stamp (snd e) (view m (ml_documents M))"
proof -
  from carried_body [OF assms(3)] obtain time where body: "message_body loads t = Inr (event_json stamp time e)" ..
  let ?event = "[(''action'', JStr (case snd e of Indexed d r \<Rightarrow> ''index_document'' | Removed i \<Rightarrow> ''delete'' | Commented c i a \<Rightarrow> ''comment_added'')),
     (''data'', JDict (payload_json stamp (snd e)))]"
  obtain r m1 where run: "process_event M ?event m = (r, m1)" by fastforce
  have "process_message M loads t m = (case r of Inl (ValueErr x) \<Rightarrow> (Inr Deleted, m1) | Inl x \<Rightarrow> (Inr Kept, m1) | Inr x \<Rightarrow> (Inr Deleted, m1))"
    using run by (auto simp: process_message_def body normalized [OF assms(2)] tryP_eval bindP_eval thenP_eval split: sum.splits search_error.splits)
  then have ran: "m' = m1" "(\<exists>x. r = Inr x) \<or> \<not> no_value_error r" using assms(4)
    by (auto simp: no_value_error_def split: sum.splits search_error.splits)
  have "no_value_error r \<and> (\<forall>x. r = Inr x \<longrightarrow> view m1 (ml_documents M) = entry_effect stamp (snd e) (view m (ml_documents M)))"
  proof (cases "snd e")
    case (Indexed d restored)
    then have title: "dc_title d \<noteq> []" using assms(2) by (cases e) auto
    let ?entry = "index_entry stamp d"
    have add: "ms_index_document M (document_record (payload_json stamp (Indexed d restored))) =
        bindP (ml_add M (ml_documents M) [?entry]) wait_and_check"
      unfolding ms_index_document_def record_entry ..
    obtain r2 m2 where step: "bindP (ml_add M (ml_documents M) [?entry]) wait_and_check m = (r2, m2)" by fastforce
    have "r = (case r2 of Inl x \<Rightarrow> Inl x | Inr u \<Rightarrow> Inr (Some [(''status'', JStr ''indexed''), (''id'', uuid_json (dc_id d)), (''type'', JStr ''document'')]))
        \<and> m1 = m2"
      using run title step add str_uuid_nonempty [of "dc_id d"]
      by (auto simp: process_event_def Let_def Indexed index_document_def bindP_eval thenP_eval document_payload_def uuid_json_def
          split: sum.splits)
    moreover have "put_hit ?entry f = f(uuid_json (dc_id d) \<mapsto> ?entry)" for f
      by (simp add: put_hit_def index_entry_def document_payload_def)
    ultimately show ?thesis using add_checked [OF assms(1) step] Indexed
      by (auto simp: no_value_error_def split: sum.splits)
  next
    case (Removed i)
    obtain r2 m2 where step: "ms_delete_document M ''document'' (uuid_json i) m = (r2, m2)" by fastforce
    have "(\<forall>x. r2 = Inl x \<longrightarrow> r = Inl x) \<and> (\<forall>g. r2 = Inr g \<longrightarrow> (\<exists>x. r = Inr x)) \<and> m1 = m2"
      using run step by (auto simp: process_event_def Let_def Removed remove_entry_def bindP_eval json_str_def split: sum.splits)
    then show ?thesis using delete_found [OF assms(1) step] Removed
      by (cases r2) (auto simp: no_value_error_def)
  next
    case (Commented c i a)
    then show ?thesis using run by (auto simp: process_event_def no_value_error_def)
  qed
  with ran show ?thesis by blast
qed


end
