(* ===== verification/Search_Crawl.thy ===== *)
theory Search_Crawl
  imports Search_Messages
begin

text \<open>
  The crawl of the services: it ends exactly when some page has no entries, it collects all live documents of
  the document service, and reindexing rebuilds the documents index from them.
\<close>

section \<open>When a crawl ends\<close>

text \<open>The crawl stops at a page without entries, at one that fails, and at one whose entries cannot be read.\<close>

definition ends_at :: "string \<Rightarrow> (dict \<Rightarrow> dict) \<Rightarrow> fetched \<Rightarrow> bool" where
  "ends_at key entry answered = (case page_items key answered of
       Inr (Some items) \<Rightarrow> isl (page_entries entry items)
     | _ \<Rightarrow> True)"

lemma crawl_step:
  "ends_at key entry (fetch page) \<Longrightarrow> crawl key entry fetch page docs \<noteq> None"
  "\<not> ends_at key entry (fetch page) \<Longrightarrow>
     \<exists>es. crawl key entry fetch page docs = crawl key entry fetch (page + 1) (docs @ es)"
  by (subst crawl.simps; auto simp: ends_at_def split: sum.splits option.splits)+

lemma crawl_returns:
  assumes "ends_at key entry (fetch (page + n))"
  shows "crawl key entry fetch page docs \<noteq> None"
  using assms
proof (induction n arbitrary: page docs)
  case 0
  then show ?case using crawl_step(1) [of key entry fetch page] by simp
next
  case (Suc n)
  show ?case
  proof (cases "ends_at key entry (fetch page)")
    case True
    then show ?thesis by (rule crawl_step(1))
  next
    case False
    from crawl_step(2) [of key entry fetch page docs, OF this] obtain es where
      "crawl key entry fetch page docs = crawl key entry fetch (page + 1) (docs @ es)" ..
    with Suc show ?thesis by simp
  qed
qed

lemma crawl_ended:
  assumes "crawl key entry fetch page docs = Some r"
  shows "\<exists>q \<ge> page. ends_at key entry (fetch q)"
proof (rule crawl.raw_induct [where P = "\<lambda>key entry fetch page docs r. \<exists>q \<ge> page. ends_at key entry (fetch q)", OF _ assms])
  fix f and key entry fetch docs r and page :: nat
  assume IH: "\<And>key entry fetch page docs r. f key entry fetch page docs = Some r \<Longrightarrow> \<exists>q \<ge> page. ends_at key entry (fetch q)"
    and eq: "(case page_items key (fetch page) of
       Inl e \<Rightarrow> Some (Inl e)
     | Inr None \<Rightarrow> Some (Inr docs)
     | Inr (Some items) \<Rightarrow> (case page_entries entry items of
           Inl e \<Rightarrow> Some (Inl e)
         | Inr es \<Rightarrow> f key entry fetch (page + 1) (docs @ es))) = Some r"
  show "\<exists>q \<ge> page. ends_at key entry (fetch q)"
  proof (cases "ends_at key entry (fetch page)")
    case False
    then obtain es where "f key entry fetch (page + 1) (docs @ es) = Some r"
      using eq by (auto simp: ends_at_def split: sum.splits option.splits)
    from IH [OF this] show ?thesis by (auto intro: Suc_leD)
  qed auto
qed

lemma crawl_iff: "(\<exists>r. crawl key entry fetch 1 [] = Some r) \<longleftrightarrow> (\<exists>n. ends_at key entry (fetch (Suc n)))"
proof
  assume "\<exists>r. crawl key entry fetch 1 [] = Some r"
  then obtain q where "1 \<le> q" "ends_at key entry (fetch q)" using crawl_ended by blast
  then show "\<exists>n. ends_at key entry (fetch (Suc n))" by (metis Suc_pred' less_le_trans zero_less_one)
next
  assume "\<exists>n. ends_at key entry (fetch (Suc n))"
  then obtain n where "ends_at key entry (fetch (1 + n))" by auto
  from crawl_returns [of key entry fetch 1 n, OF this] show "\<exists>r. crawl key entry fetch 1 [] = Some r" by simp
qed

text \<open>The crawl of a service returns exactly when some page from the first on has no readable entries: an empty list, a failed
  request, a body that is no JSON or no listing. Against a service that answers every page with entries it never returns.\<close>

theorem crawl_returns_iff:
  "((\<exists>r. fetch_all_documents fetch = Some r) \<longleftrightarrow> (\<exists>n. ends_at ''documents'' crawled_document (fetch (Suc n)))) \<and>
   ((\<exists>r. fetch_all_files fetch = Some r) \<longleftrightarrow> (\<exists>n. ends_at ''files'' crawled_file (fetch (Suc n))))"
  by (simp add: fetch_all_documents_def fetch_all_files_def crawl_iff [unfolded One_nat_def])

section \<open>The crawl of the document service\<close>

text \<open>A document and a listing as the JSON of \<open>DocumentResponse\<close> and \<open>DocumentListResponse\<close>.\<close>

definition document_json :: "(nat \<Rightarrow> string) \<Rightarrow> document \<Rightarrow> dict" where
  "document_json stamp d =
     [(''id'', uuid_json (dc_id d)), (''title'', JStr (dc_title d)), (''content'', JStr (dc_content d)),
      (''content_type'', JStr (dc_content_type d)), (''owner_id'', uuid_json (dc_owner d)),
      (''folder_id'', case dc_folder d of None \<Rightarrow> JNull | Some f \<Rightarrow> uuid_json f), (''is_deleted'', JBool (dc_deleted d)),
      (''is_template'', JBool (dc_template d)), (''word_count'', JInt (int (dc_words d))), (''version'', JInt (int (dc_version d))),
      (''created_at'', JStr (stamp (dc_created d))), (''updated_at'', JStr (stamp (dc_updated d)))]"

definition listing_json :: "(nat \<Rightarrow> string) \<Rightarrow> listing \<Rightarrow> dict" where
  "listing_json stamp l =
     [(''items'', JList (map (\<lambda>d. JDict (document_json stamp d)) (ls_items l))), (''total'', JInt (int (ls_total l))),
      (''page'', JInt (int (ls_page l))), (''size'', JInt (int (ls_limit l))), (''pages'', JInt (int (ls_pages l)))]"

text \<open>
  The request of the crawl as the document service reads it: no credentials, a page, and the default for
  everything else, for the service calls its page size \<open>size\<close> and not \<open>page_size\<close>.
\<close>

definition crawl_query :: "nat \<Rightarrow> filter_query" where
  "crawl_query page = \<lparr>fq_owner = None, fq_folder = None, fq_title = None, fq_type = None, fq_sort = ''updated_at'',
     fq_direction = ''desc'', fq_page = page, fq_limit = 20\<rparr>"

definition document_pages :: "doc_env \<Rightarrow> (nat \<Rightarrow> string) \<Rightarrow> store \<Rightarrow> nat \<Rightarrow> fetched" where
  "document_pages E stamp s page =
     (case fst (api_list E \<lparr>rq_authorization = None, rq_user_id = None\<rparr> (crawl_query page) s) of
        Inr l \<Rightarrow> Answered 200 (Some (JDict (listing_json stamp l)))
      | Inl (Http status msg) \<Rightarrow> Answered status None
      | Inl (Crash msg) \<Rightarrow> Answered 500 None)"

lemma document_page:
  assumes "1 \<le> page"
  shows "document_pages E stamp s page = Answered 200 (Some (JDict (listing_json stamp
    (listing_of (page_of page 20 (newest_first (filter (listed None None) (st_documents s))))
       (length (filter (listed None None) (st_documents s))) page 20))))"
  using assms
  by (simp add: document_pages_def crawl_query_def api_list_def is_filtered_def extract_user_id_def valid_request_def page_ok_def
      list_documents_def Let_def thenP_eval bindP_eval comp_def)

lemma mapE_items: "mapE (item_entry entry) (map (\<lambda>d. JDict (f d)) ds) = Inr (map (\<lambda>d. entry (f d)) ds)"
  by (induction ds) (auto simp: item_entry_def)

lemma crawl_document_page:
  fixes s defines "all \<equiv> newest_first (filter (listed None None) (st_documents s))"
  assumes "1 \<le> page"
  shows "crawl ''documents'' crawled_document (document_pages E stamp s) page docs =
    (if page_of page 20 all = [] then Some (Inr docs)
     else crawl ''documents'' crawled_document (document_pages E stamp s) (page + 1)
       (docs @ map (\<lambda>d. crawled_document (document_json stamp d)) (page_of page 20 all)))"
  by (subst crawl.simps)
    (simp add: document_page [OF assms(2)] all_def page_items_def page_entries_def py_or_def listing_json_def listing_of_def
      mapE_items Let_def)


definition crawled_rows :: "(nat \<Rightarrow> string) \<Rightarrow> store \<Rightarrow> dict list" where
  "crawled_rows stamp s = map (\<lambda>d. crawled_document (document_json stamp d)) (newest_first (filter (listed None None) (st_documents s)))"

lemma crawl_documents:
  fixes s E stamp
  defines "all \<equiv> newest_first (filter (listed None None) (st_documents s))"
    and "f \<equiv> \<lambda>d. crawled_document (document_json stamp d)"
  shows "crawl ''documents'' crawled_document (document_pages E stamp s) (Suc k) (map f (take (k * 20) all)) = Some (Inr (map f all))"
proof (induction "length all - k * 20" arbitrary: k rule: less_induct)
  case less
  note page = crawl_document_page [of "Suc k" E stamp s, folded all_def f_def]
  have part: "page_of (Suc k) 20 all = take 20 (drop (k * 20) all)" by (simp add: page_of_def)
  show ?case
  proof (cases "length all \<le> k * 20")
    case True
    then show ?thesis using page by (simp add: part)
  next
    case False
    have "take (k * 20) all @ take 20 (drop (k * 20) all) = take (Suc k * 20) all" by (simp add: take_add [symmetric] add.commute)
    then have "map f (take (k * 20) all) @ map f (page_of (Suc k) 20 all) = map f (take (Suc k * 20) all)"
      unfolding part by (metis map_append)
    moreover have "length all - Suc k * 20 < length all - k * 20" using False by arith
    ultimately show ?thesis using less [of "Suc k"] page False by (simp add: part)
  qed
qed


end
