(* ===== verification/Search_Sync.thy ===== *)
theory Search_Sync
  imports Search_Messages
begin

text \<open>
  From the document service to the search index: the messages that the document service publishes, processed
  in order by the consumer of the search service, leave exactly the live documents in the documents index.
\<close>

section \<open>All messages\<close>

lemma batch_step:
  assumes "process_batch M loads (t # ts) m = (Inr (f # fs), m')"
  obtains m1 where "process_message M loads t m = (Inr f, m1)" and "process_batch M loads ts m1 = (Inr fs, m')"
  using assms by (auto simp: process_batch_def bindP_Inr)

lemma batch_Nil: "process_batch M loads [] m = (Inr fs, m') \<Longrightarrow> m' = m"
  by (simp add: process_batch_def)

lemma batch_length: "process_batch M loads ts m = (Inr fs, m') \<Longrightarrow> length fs = length ts"
  unfolding process_batch_def by (induction ts arbitrary: m fs) (auto simp: bindP_Inr)

lemma batch_effect:
  assumes "obeys M view" and "list_all2 (carries loads stamp) ts es" and "\<forall>e \<in> set es. event_ok e"
    and "process_batch M loads ts m = (Inr fs, m')" and "Kept \<notin> set fs"
  shows "view m' (ml_documents M) = fold (entry_effect stamp) (map snd es) (view m (ml_documents M))"
  using assms(2-5)
proof (induction ts es arbitrary: m fs rule: list_all2_induct)
  case Nil
  then show ?case by (auto dest: batch_Nil)
next
  case (Cons t ts e es)
  obtain f fs' where fs: "fs = f # fs'" using batch_length [OF Cons.prems(2)] by (cases fs) auto
  obtain m1 where one: "process_message M loads t m = (Inr f, m1)" and rest: "process_batch M loads ts m1 = (Inr fs', m')"
    using batch_step [OF Cons.prems(2) [unfolded fs]] .
  have f: "f = Deleted" using Cons.prems(3) fs by (cases f) auto
  have "view m1 (ml_documents M) = entry_effect stamp (snd e) (view m (ml_documents M))"
    using message_effect [OF assms(1) _ Cons.hyps(1) one [unfolded f]] Cons.prems(1) by simp
  then show ?case using Cons.IH [OF _ rest] Cons.prems(1,3) fs by simp
qed

definition mirrors :: "(nat \<Rightarrow> string) \<Rightarrow> (json \<Rightarrow> dict option) \<Rightarrow> (uuid \<Rightarrow> document option) \<Rightarrow> bool" where
  "mirrors stamp f g \<longleftrightarrow> (\<forall>i. f (uuid_json i) = map_option (index_entry stamp) (g i)) \<and> (\<forall>k. f k \<noteq> None \<longrightarrow> (\<exists>i. k = uuid_json i))"

lemma mirrors_step: "mirrors stamp f g \<Longrightarrow> mirrors stamp (entry_effect stamp (snd e) f) (replay e g)"
  by (cases e; cases "snd e") (auto simp: mirrors_def uuid_json_def)

lemma mirrors_all: "mirrors stamp f g \<Longrightarrow> mirrors stamp (fold (entry_effect stamp) (map snd es) f) (fold replay es g)"
  by (induction es arbitrary: f g) (auto intro: mirrors_step)


section \<open>The server in memory\<close>

definition entry_in :: "memory \<Rightarrow> string \<Rightarrow> json \<Rightarrow> dict option" where
  "entry_in m idx = map_of (m idx)"

lemma put_entries_view: "map_of (put_entries ds es) = fold put_hit ds (map_of es)"
  by (induction ds arbitrary: es) (simp_all add: put_entries_def put_hit_def update_conv')

lemma set_index_view: "entry_in (set_index idx f m) = (entry_in m)(idx := map_of (f (m idx)))"
  by (simp add: entry_in_def set_index_def fun_eq_iff)

lemma memory_obeys: "obeys memory_server entry_in"
proof -
  have "map_of (AList.delete i es) = (map_of es)(i := None)" for i :: json and es :: "(json \<times> dict) list" by (rule delete_conv')
  then show ?thesis unfolding obeys_def memory_server_def
    by (auto simp: thenP_eval bindP_eval no_value_error_def done_task_def set_index_view put_entries_view drop_entry_def
        entry_in_def [of _ _, symmetric] split: option.splits)
qed


text \<open>The messages of the sample run: one as it is, one in an envelope.\<close>

definition sample_loads :: "string \<Rightarrow> json option" where
  "sample_loads t =
     (if t = ''first'' then Some (JDict (event_json str_nat ''now'' (''document_created'', Indexed created_doc None)))
      else if t = ''second'' then Some (JDict [(''Type'', JStr ''Notification''), (''TopicArn'', JStr ''events''), (''Message'', JStr ''inner'')])
      else if t = ''inner'' then Some (JDict (event_json str_nat ''now'' (''document_updated'', Indexed sample_doc None)))
      else None)"

lemma sample_carries: "list_all2 (carries sample_loads str_nat) [''first'', ''second''] (st_events sample_store)"
  by (auto simp: sample_store_def carries_def sample_loads_def)


end
