(* ===== verification/Search_Rebuild.thy ===== *)
theory Search_Rebuild
  imports Search_Crawl Search_Sync
begin

text \<open>
  Reindexing: whatever was in the documents index, a reindexing that returns leaves there exactly the live
  documents that the crawl of the document service collected.
\<close>

section \<open>What reindexing relies on\<close>

text \<open>
  Besides the laws of additions and deletions: dropping an index that succeeds, or that the server refuses,
  leaves no entries (there was no such index), and creating and configuring indices changes no entries.
\<close>

definition droppable :: "search_error + task \<Rightarrow> bool" where
  "droppable r \<longleftrightarrow> (case r of Inr tk \<Rightarrow> True | Inl (ApiErr msg) \<Rightarrow> True | Inl (RuntimeErr msg) \<Rightarrow> True | Inl _ \<Rightarrow> False)"

definition rebuilds :: "'m meili \<Rightarrow> ('m \<Rightarrow> string \<Rightarrow> json \<Rightarrow> dict option) \<Rightarrow> bool" where
  "rebuilds M view \<longleftrightarrow> obeys M view \<and> ml_documents M \<noteq> ml_files M \<and>
     (\<forall>idx m r m'. ml_drop M idx m = (r, m') \<longrightarrow> droppable r \<longrightarrow> view m' = (view m)(idx := \<lambda>_. None)) \<and>
     (\<forall>idx. quiet view (ml_get_index M idx)) \<and> (\<forall>idx opts. quiet view (ml_create M idx opts)) \<and>
     (\<forall>idx what vals. quiet view (ml_setting M idx what vals))"

lemma dropped:
  assumes "rebuilds M view" and "drop_index M idx m = (Inr u, m')"
  shows "view m' = (view m)(idx := \<lambda>_. None)"
proof -
  obtain r m1 where run: "ml_drop M idx m = (r, m1)" by fastforce
  have "droppable r \<and> m' = m1"
  proof (cases r)
    case (Inl e)
    with assms(2) run show ?thesis by (cases e) (auto simp: drop_index_def tryP_eval bindP_eval droppable_def)
  next
    case (Inr tk)
    with assms(2) run show ?thesis
      by (auto simp: drop_index_def tryP_eval bindP_eval wait_and_check_def droppable_def split: if_splits)
  qed
  moreover have "droppable r \<longrightarrow> view m1 = (view m)(idx := \<lambda>_. None)"
    using assms(1) [unfolded rebuilds_def, THEN conjunct2, THEN conjunct2, THEN conjunct1, rule_format, OF run] by blast
  ultimately show ?thesis by blast
qed

lemma ensured:
  assumes "rebuilds M view"
  shows "quiet view (ensure_indices M)"
proof -
  have rules: "quiet view (ml_get_index M idx)" "quiet view (ml_create M idx opts)" "quiet view (ml_setting M idx what vals)"
    for idx opts what vals using assms by (simp_all add: rebuilds_def)
  have handler: "quiet view (case e of ApiErr msg \<Rightarrow> bindP (ml_create M idx opts) (\<lambda>_. retP ()) | _ \<Rightarrow> raiseP e)" for e idx opts
    by (cases e) (auto intro!: quiet_rules rules)
  show ?thesis unfolding ensure_indices_def configure_index_def by (intro quiet_rules rules handler)
qed

lemma batches_added:
  assumes "obeys M view" and "forP bs (\<lambda>batch. bindP (ml_add M idx batch) wait_and_check) m = (Inr u, m')"
  shows "view m' = (view m)(idx := fold put_hit (concat bs) (view m idx))"
  using assms(2)
proof (induction bs arbitrary: m)
  case Nil
  then show ?case by simp
next
  case (Cons b bs)
  then obtain v m1 where one: "bindP (ml_add M idx b) wait_and_check m = (Inr v, m1)"
    and rest: "forP bs (\<lambda>batch. bindP (ml_add M idx batch) wait_and_check) m1 = (Inr u, m')" by (auto simp: thenP_Inr)
  from add_checked [OF assms(1) one] have "view m1 = (view m)(idx := fold put_hit b (view m idx))" by blast
  with Cons.IH [OF rest] show ?case by (auto simp: fun_eq_iff)
qed

lemma added_all:
  assumes "obeys M view" and "add_batches M idx ds m = (Inr u, m')"
  shows "view m' = (view m)(idx := fold put_hit ds (view m idx))"
  using batches_added [OF assms(1) assms(2) [unfolded add_batches_def]] by simp

lemma reindexed:
  assumes "rebuilds M view" and "ms_reindex M documents files m = (Inr r, m')"
  shows "view m' (ml_documents M) = fold put_hit documents (\<lambda>_. None)"
proof -
  from assms(1) have laws: "obeys M view" "ml_documents M \<noteq> ml_files M" by (simp_all add: rebuilds_def)
  from assms(2) obtain u1 m1 u2 m2 u3 m3 u4 where
    d: "forP [ml_documents M, ml_files M] (drop_index M) m = (Inr u1, m1)" and e: "ensure_indices M m1 = (Inr u2, m2)" and
    a: "(if documents \<noteq> [] then add_batches M (ml_documents M) documents else retP ()) m2 = (Inr u3, m3)" and
    b: "(if files \<noteq> [] then add_batches M (ml_files M) files else retP ()) m3 = (Inr u4, m')"
    unfolding ms_reindex_def by (auto simp: thenP_Inr)
  from d obtain v n where "drop_index M (ml_documents M) m = (Inr v, n)" "drop_index M (ml_files M) n = (Inr u1, m1)"
    by (auto simp: thenP_Inr)
  then have "view m1 (ml_documents M) = (\<lambda>_. None)" using dropped [OF assms(1)] laws(2) by simp
  moreover have "view m2 = view m1" using quietD [OF ensured [OF assms(1)] e] .
  moreover have "view m3 (ml_documents M) = fold put_hit documents (view m2 (ml_documents M))"
    using a added_all [OF laws(1), of "ml_documents M" documents] by (auto split: if_splits)
  moreover have "view m' (ml_documents M) = view m3 (ml_documents M)"
    using b added_all [OF laws(1), of "ml_files M" files] laws(2) by (auto split: if_splits)
  ultimately show ?thesis by simp
qed

section \<open>The rebuilt index\<close>

lemma fold_put_hits:
  assumes "distinct (map dc_id ds)"
  shows "fold put_hit (map (\<lambda>d. crawled_document (document_json stamp d)) ds) f k = Some e \<longleftrightarrow>
    (\<exists>d \<in> set ds. k = uuid_json (dc_id d) \<and> e = crawled_document (document_json stamp d)) \<or>
    (\<forall>d \<in> set ds. k \<noteq> uuid_json (dc_id d)) \<and> f k = Some e"
  using assms
proof (induction ds arbitrary: f)
  case Nil
  then show ?case by simp
next
  case (Cons d ds)
  have key: "jget ''id'' JNull (crawled_document (document_json stamp d)) = uuid_json (dc_id d)"
    by (simp add: crawled_document_def document_json_def)
  have "uuid_json (dc_id d) \<noteq> uuid_json (dc_id x)" if "x \<in> set ds" for x
    using that Cons.prems by (auto simp: uuid_json_def)
  then show ?case using Cons.IH [of "put_hit (crawled_document (document_json stamp d)) f"] Cons.prems
    by (auto simp: put_hit_def key)
qed


lemma memory_rebuilds: "rebuilds memory_server entry_in"
proof -
  have "ml_drop memory_server idx m = (r, m') \<longrightarrow> droppable r \<longrightarrow> entry_in m' = (entry_in m)(idx := \<lambda>_. None)" for idx m r m'
    by (auto simp: memory_server_def thenP_eval set_index_view)
  moreover have "quiet entry_in (ml_get_index memory_server idx)" "quiet entry_in (ml_create memory_server idx opts)"
    "quiet entry_in (ml_setting memory_server idx what vals)" for idx opts what vals
    by (auto simp: memory_server_def intro: quiet_rules)
  ultimately show ?thesis using memory_obeys unfolding rebuilds_def by simp
qed

text \<open>Nothing fails in memory.\<close>

lemma memory_adds: "\<exists>m'. forP bs (\<lambda>b. bindP (ml_add memory_server idx b) wait_and_check) m = (Inr (), m')"
proof (induction bs arbitrary: m)
  case (Cons b bs)
  have "bindP (ml_add memory_server idx b) wait_and_check m = (Inr (), set_index idx (put_entries b) m)"
    by (simp add: memory_server_def bindP_eval thenP_eval wait_and_check_def done_task_def)
  with Cons show ?case by (simp add: thenP_eval)
qed simp

lemma memory_reindex_returns: "\<exists>r m'. ms_reindex memory_server ds [] m = (Inr r, m')"
proof -
  have drop: "drop_index memory_server idx m = (Inr (), set_index idx (\<lambda>_. []) m)" for idx m
    by (simp add: drop_index_def memory_server_def tryP_eval bindP_eval thenP_eval wait_and_check_def done_task_def)
  have ensure: "ensure_indices memory_server m = (Inr (), m)" for m
    by (simp add: ensure_indices_def configure_index_def memory_server_def tryP_eval bindP_eval thenP_eval)
  obtain m' where "add_batches memory_server ''documents'' ds (set_index ''files'' (\<lambda>_. []) (set_index ''documents'' (\<lambda>_. []) m)) = (Inr (), m')"
    using memory_adds unfolding add_batches_def by blast
  then show ?thesis by (simp add: ms_reindex_def thenP_eval drop ensure)
qed

definition stale_memory :: memory where
  "stale_memory = empty_memory(''documents'' := [(uuid_json 9, [(''id'', uuid_json 9), (''title'', JStr ''gone'')])])"


end
