(* ===== verification/Search_Pages.thy ===== *)
theory Search_Pages
  imports Search_Samples Search_Api Doc_Queries
begin

text \<open>
  What a search makes of the answers of the server: the pages over two indices are the pages of the two
  lists of hits put together, the analytics count the last searches exactly, and nobody without credentials
  gets past the authentication.
\<close>

section \<open>Pages over two indices\<close>

definition filter_json :: "string list \<Rightarrow> json" where
  "filter_json parts = (if parts = [] then JNull else JStr (py_join '' AND '' parts))"

text \<open>In the state \<open>m\<close> the server finds the hits \<open>found idx\<close> in each index, and returns the part asked for.\<close>

definition finds :: "'m meili \<Rightarrow> string \<Rightarrow> json \<Rightarrow> (string \<Rightarrow> dict list) \<Rightarrow> (string \<Rightarrow> nat) \<Rightarrow> 'm \<Rightarrow> bool" where
  "finds M q flt found totals m \<longleftrightarrow>
     (\<forall>idx params. jget ''filter'' JNull params = flt \<longrightarrow> ml_search M idx q params m = (Inr (window params (found idx), totals idx), m))"

lemma params_filter [simp]: "jget ''filter'' JNull (build_search_params page n parts multi) = filter_json parts"
  by (simp add: build_search_params_def filter_json_def)

lemma window_params:
  "1 \<le> page \<Longrightarrow> window (build_search_params page n parts False) xs = page_of page n xs"
  "window (build_search_params page n parts True) xs = take (page * n) xs"
proof -
  assume "1 \<le> page"
  then have "nat ((int page - 1) * int n) = (page - 1) * n" by (metis int_ops(2) nat_int of_nat_diff of_nat_mult)
  then show "window (build_search_params page n parts False) xs = page_of page n xs"
    by (simp add: window_def build_search_params_def page_of_def)
next
  have "nat (int page * int n) = page * n" by (metis nat_int of_nat_mult)
  then show "window (build_search_params page n parts True) xs = take (page * n) xs"
    by (simp add: window_def build_search_params_def)
qed

lemma take_drop_both: "take n (drop k (take (k + n) xs @ take (k + n) ys)) = take n (drop k (xs @ ys))"
proof (cases "k + n \<le> length xs")
  case True
  then show ?thesis by (simp add: drop_take)
next
  case False
  then have "take (k + n) xs = xs" by simp
  moreover have "take n (drop k (xs @ take (k + n) ys)) = take n (drop k xs @ drop (k - length xs) (take (k + n) ys))" by simp
  moreover have "\<dots> = take n (drop k (xs @ ys))" by (simp add: drop_take)
  ultimately show ?thesis by simp
qed

lemma gather_found:
  assumes "finds M q flt found totals m" and "jget ''filter'' JNull params = flt"
  shows "gather_hits M q params idxs m =
    (Inr (concat (map (\<lambda>idx. map (parse_hit M idx) (window params (found idx))) idxs), sum_list (map totals idxs)), m)"
proof (induction idxs)
  case Nil
  then show ?case by simp
next
  case (Cons idx idxs)
  from assms have "ml_search M idx q params m = (Inr (window params (found idx), totals idx), m)" unfolding finds_def by blast
  with Cons.IH show ?case by (simp add: bindP_eval)
qed

lemma page_of_hits:
  assumes "1 \<le> page"
  shows "take n (drop (if 1 < length (resolve_indices M ty) then (page - 1) * n else 0)
      (concat (map (\<lambda>idx. map (parse_hit M idx)
         (window (build_search_params page n parts (1 < length (resolve_indices M ty))) (found idx))) (resolve_indices M ty)))) =
    page_of page n (concat (map (\<lambda>idx. map (parse_hit M idx) (found idx)) (resolve_indices M ty)))"
proof (cases "1 < length (resolve_indices M ty)")
  case True
  then have two: "resolve_indices M ty = [ml_documents M, ml_files M]" by (auto simp: resolve_indices_def split: if_splits)
  have "page * n = (page - 1) * n + n" using assms by (cases page) simp_all
  with two show ?thesis
    using take_drop_both [of n "(page - 1) * n" "map (parse_hit M (ml_documents M)) (found (ml_documents M))"
        "map (parse_hit M (ml_files M)) (found (ml_files M))"]
    by (simp add: window_params page_of_def take_map)
next
  case False
  then obtain idx where one: "resolve_indices M ty = [idx]" by (auto simp: resolve_indices_def split: if_splits)
  with assms show ?thesis by (simp add: window_params page_of_def take_map drop_map min_def)
qed

text \<open>A page of a search is that page of all hits of the documents followed by all hits of the files, although each index
  is asked for a part only; the total is the sum of the totals, and the search is recorded with it.\<close>

theorem search_pages:
  assumes "finds M q (filter_json (search_conditions ty owner)) found totals m" and "1 \<le> page"
  shows "ms_search M q ty owner page n \<lparr>ss_server = m, ss_analytics = a\<rparr> =
    (let hits = concat (map (\<lambda>idx. map (parse_hit M idx) (found idx)) (resolve_indices M ty));
         sum = sum_list (map totals (resolve_indices M ty))
     in (Inr \<lparr>sp_results = page_of page n hits, sp_total = sum, sp_page = page, sp_page_size = n, sp_query = q\<rparr>,
         \<lparr>ss_server = m, ss_analytics = record_search q sum a\<rparr>))"
proof -
  let ?multi = "1 < length (resolve_indices M ty)"
  have "gather_hits M q (build_search_params page n (search_conditions ty owner) ?multi) (resolve_indices M ty) m =
    (Inr (concat (map (\<lambda>idx. map (parse_hit M idx) (window (build_search_params page n (search_conditions ty owner) ?multi) (found idx)))
        (resolve_indices M ty)), sum_list (map totals (resolve_indices M ty))), m)"
    by (rule gather_found [OF assms(1)]) simp
  then show ?thesis
    using page_of_hits [OF assms(2), of n M ty "search_conditions ty owner" found]
    by (simp add: ms_search_def search_in_def Let_def tryP_eval bindP_eval thenP_eval on_server_def del: if_split)
qed

lemma memory_finds:
  "finds memory_server q flt (\<lambda>idx. hits_in m idx q [(''filter'', flt)]) (\<lambda>idx. length (hits_in m idx q [(''filter'', flt)])) m"
  unfolding finds_def
proof (intro allI impI)
  fix idx params
  assume "jget ''filter'' JNull params = flt"
  then have same: "hits_in m idx q params = hits_in m idx q [(''filter'', flt)]" by (simp add: hits_in_def accepted_def)
  show "ml_search memory_server idx q params m =
      (Inr (window params (hits_in m idx q [(''filter'', flt)]), length (hits_in m idx q [(''filter'', flt)])), m)"
    by (simp add: memory_server_def same)
qed

definition sample_hit :: "string \<Rightarrow> string \<Rightarrow> json \<times> dict" where
  "sample_hit k t = (JStr t, [(''id'', JStr t), (k, JStr t), (''owner_id'', JStr ''u'')])"

definition sample_memory :: memory where
  "sample_memory idx =
     (if idx = ''documents'' then [sample_hit ''title'' ''aa'', sample_hit ''title'' ''ab'', sample_hit ''title'' ''ac'']
      else [sample_hit ''name'' ''ad''])"

theorem search_pages_witness:
  "map sh_title (sp_results (projr (fst (ms_search memory_server ''a'' None (Some ''u'') 2 2
     \<lparr>ss_server = sample_memory, ss_analytics = no_analytics\<rparr>)))) = [JStr ''ac'', JStr ''ad'']"
proof -
  have one: "1 \<le> (2 :: nat)" by simp
  show ?thesis unfolding search_pages [OF memory_finds one] by code_simp
qed

section \<open>Analytics\<close>

definition record_all :: "(string \<times> nat) list \<Rightarrow> analytics \<Rightarrow> analytics" where
  "record_all qs a = fold (\<lambda>(q, n). record_search q n) qs a"

lemma record_all_exact:
  "record_all qs no_analytics =
    \<lparr>an_queries = drop (length qs - max_entries) qs, an_searches = length qs, an_results = sum_list (map snd qs)\<rparr>"
proof (induction qs rule: rev_induct)
  case Nil
  then show ?case by (simp add: record_all_def no_analytics_def)
next
  case (snoc e qs)
  obtain q n where e: "e = (q, n)" by (cases e)
  have "record_all (qs @ [e]) no_analytics = record_search q n (record_all qs no_analytics)" by (simp add: record_all_def e)
  moreover have "Suc (length qs - 10000) = length qs - 9999" if "9999 < length qs - (length qs - 10000)" using that by arith
  ultimately show ?case using snoc e by (auto simp: record_search_def max_entries_def Let_def Suc_diff_le)
qed

lemma count_query_map: "map_of (count_query q cs) p = (if p = q then Some (case map_of cs q of None \<Rightarrow> 1 | Some n \<Rightarrow> n + 1) else map_of cs p)"
  by (induction q cs rule: count_query.induct) auto

lemma count_query_keys: "fst ` set (count_query q cs) = insert q (fst ` set cs)"
  by (induction q cs rule: count_query.induct) auto

lemma count_query_distinct: "distinct (map fst cs) \<Longrightarrow> distinct (map fst (count_query q cs))"
proof (induction q cs rule: count_query.induct)
  case (2 q p n cs)
  then show ?case using count_query_keys [of q cs] by auto
qed simp

lemma query_counts_facts:
  "distinct (map fst (query_counts qs))"
  "map_of (query_counts qs) p = (if p \<in> set qs then Some (count_list qs p) else None)"
proof -
  have "distinct (map fst (fold count_query qs [])) \<and>
    map_of (fold count_query qs []) p = (if p \<in> set qs then Some (count_list qs p) else None)" for p
    by (induction qs rule: rev_induct) (auto simp: count_query_map count_query_distinct count_list_0_iff)
  then show "distinct (map fst (query_counts qs))"
    "map_of (query_counts qs) p = (if p \<in> set qs then Some (count_list qs p) else None)" by (simp_all add: query_counts_def)
qed

lemma query_counts_iff: "(q, c) \<in> set (query_counts qs) \<longleftrightarrow> q \<in> set qs \<and> c = count_list qs q"
  unfolding map_of_eq_Some_iff [OF query_counts_facts(1), symmetric] query_counts_facts(2) by auto

lemma by_count:
  "sorted_wrt (\<lambda>a b. snd b \<le> snd a) (rev (sort_key snd (rev cs)))" "set (rev (sort_key snd (rev cs))) = set cs"
  "distinct (map fst cs) \<Longrightarrow> distinct (map fst (rev (sort_key snd (rev cs))))" "length (rev (sort_key snd (rev cs))) = length cs"
  for cs :: "('a \<times> 'b :: linorder) list"
proof -
  have "sorted_wrt (\<lambda>a b. snd a \<le> snd b) (sort_key snd (rev cs))"
    using sorted_sort_key [of snd "rev cs"] by (simp add: sorted_map)
  then show "sorted_wrt (\<lambda>a b. snd b \<le> snd a) (rev (sort_key snd (rev cs)))" by (simp add: sorted_wrt_rev)
  show "set (rev (sort_key snd (rev cs))) = set cs" "length (rev (sort_key snd (rev cs))) = length cs" by simp_all
  assume "distinct (map fst cs)"
  moreover have "mset (rev (sort_key snd (rev cs))) = mset cs" by simp
  then have "mset (map fst (rev (sort_key snd (rev cs)))) = mset (map fst cs)" by (metis mset_map)
  ultimately show "distinct (map fst (rev (sort_key snd (rev cs))))" using mset_eq_imp_distinct_iff by blast
qed

lemma top_queries_facts:
  fixes qs
  defines "listing \<equiv> top_queries qs"
  shows "length listing \<le> 20" and "distinct (map fst listing)" and "(q, c) \<in> set listing \<Longrightarrow> q \<in> set qs \<and> c = count_list qs q"
    and "sorted_wrt (\<lambda>a b. snd b \<le> snd a) listing"
    and "q \<in> set qs \<Longrightarrow> q \<notin> fst ` set listing \<Longrightarrow> length listing = 20 \<and> (\<forall>e \<in> set listing. count_list qs q \<le> snd e)"
proof -
  let ?all = "rev (sort_key snd (rev (query_counts qs)))"
  have listing: "listing = take 20 ?all" by (simp add: listing_def top_queries_def)
  note all = by_count [of "query_counts qs"]
  have d: "distinct (map fst ?all)" by (rule all(3) [OF query_counts_facts(1)])
  show "length listing \<le> 20" by (simp add: listing)
  show "distinct (map fst listing)" using d by (simp add: listing flip: take_map)
  show "q \<in> set qs \<and> c = count_list qs q" if "(q, c) \<in> set listing" for q c
    using that all(2) query_counts_iff [of q c qs] set_take_subset [of 20 ?all] by (auto simp: listing)
  show "sorted_wrt (\<lambda>a b. snd b \<le> snd a) listing" unfolding listing by (rule sorted_wrt_take [OF all(1)])
  show "length listing = 20 \<and> (\<forall>e \<in> set listing. count_list qs q \<le> snd e)" if q: "q \<in> set qs" "q \<notin> fst ` set listing"
  proof -
    have "(q, count_list qs q) \<in> set (take 20 ?all @ drop 20 ?all)"
      unfolding append_take_drop_id all(2) by (simp add: query_counts_iff q(1))
    moreover have "(q, count_list qs q) \<notin> set (take 20 ?all)" using q(2) listing by (metis fst_conv imageI)
    ultimately have late: "(q, count_list qs q) \<in> set (drop 20 ?all)" unfolding set_append by blast
    then have "20 < length ?all" by (metis drop_all empty_iff list.set(1) not_less)
    moreover have "sorted_wrt (\<lambda>a b. snd b \<le> snd a) (take 20 ?all @ drop 20 ?all)" using all(1) by (simp only: append_take_drop_id)
    then have "snd (q, count_list qs q) \<le> snd e" if "e \<in> set (take 20 ?all)" for e
      using late that unfolding sorted_wrt_append by blast
    ultimately show ?thesis unfolding listing by (simp add: min_def)
  qed
qed

text \<open>After any searches the analytics count all of them, and list the most frequent of the last ten thousand queries: each
  once, with its exact count, by falling count, at most twenty, and none that is left out is more frequent than one listed.\<close>

theorem analytics_exact:
  fixes searches :: "(string \<times> nat) list" and listing kept
  defines "listing \<equiv> ad_popular (get_search_analytics (record_all searches no_analytics))"
    and "kept \<equiv> map fst (drop (length searches - 10000) searches)"
  shows "ad_searches (get_search_analytics (record_all searches no_analytics)) = length searches \<and>
    length listing \<le> 20 \<and> distinct (map fst listing) \<and> sorted_wrt (\<lambda>a b. snd b \<le> snd a) listing \<and>
    (\<forall>(q, c) \<in> set listing. q \<in> set kept \<and> c = count_list kept q) \<and>
    (\<forall>q \<in> set kept. q \<notin> fst ` set listing \<longrightarrow> length listing = 20 \<and> (\<forall>e \<in> set listing. count_list kept q \<le> snd e))"
proof -
  have listing: "listing = top_queries kept"
    by (simp add: listing_def kept_def get_search_analytics_def record_all_exact max_entries_def drop_map)
  show ?thesis
    using top_queries_facts [where qs = kept] unfolding listing by (auto simp: get_search_analytics_def record_all_exact)
qed

theorem analytics_exact_witness:
  "ad_popular (get_search_analytics (record_all [(''a'', 1), (''b'', 0), (''b'', 2)] no_analytics)) = [(''b'', 2), (''a'', 1)] \<and>
   length (ad_popular (get_search_analytics (record_all [(''a'', 1), (''b'', 0), (''b'', 2)] no_analytics))) \<le> 20"
proof
  show "ad_popular (get_search_analytics (record_all [(''a'', 1), (''b'', 0), (''b'', 2)] no_analytics)) = [(''b'', 2), (''a'', 1)]"
    by code_simp
qed (use analytics_exact [of "[(''a'', 1), (''b'', 0), (''b'', 2)]"] in blast)

section \<open>Authentication\<close>

text \<open>Where authentication is required, a request without a user and without the configured token is answered with 401 and
  reaches neither the server nor the analytics, whatever it asks for; only the health of the service is open to everyone.\<close>

theorem unauthenticated_refused:
  assumes "se_required E" and "py_strip (cl_user c) = []" and "se_token E = [] \<or> bearer_token (cl_authorization c) \<noteq> se_token E"
    and "q \<notin> {Health, Ready}"
  shows "\<exists>p. answer_request E c q = Some p \<and> (\<forall>s. p s = (Inr (error_reply 401 ''unauthorized''), s))"
proof -
  have "\<not> list_ex (\<lambda>p. py_startswith p (path_of q)) public_prefixes"
    using assms(4) by (cases q) (auto simp: public_prefixes_def py_startswith_def)
  then have "\<not> check_auth (se_required E) (se_token E) (path_of q) c" using assms(1-3) by (auto simp: check_auth_def)
  then show ?thesis by (simp add: answer_request_def)
qed

theorem unauthenticated_refused_witness:
  "\<exists>p. answer_request \<lparr>se_server = memory_server, se_required = True, se_token = ''secret'', se_redis = (\<lambda>_. None),
       se_docs = (\<lambda>_. Unreachable), se_files = (\<lambda>_. Unreachable)\<rparr>
     \<lparr>cl_authorization = ''Bearer guess'', cl_user = '' ''\<rparr> Reindex = Some p \<and>
   p \<lparr>ss_server = sample_memory, ss_analytics = no_analytics\<rparr> =
     (Inr (error_reply 401 ''unauthorized''), \<lparr>ss_server = sample_memory, ss_analytics = no_analytics\<rparr>)"
proof -
  have "py_strip '' '' = []" "bearer_token ''Bearer guess'' \<noteq> ''secret''" by code_simp+
  then show ?thesis
    using unauthenticated_refused [of "\<lparr>se_server = memory_server, se_required = True, se_token = ''secret'', se_redis = (\<lambda>_. None),
       se_docs = (\<lambda>_. Unreachable), se_files = (\<lambda>_. Unreachable)\<rparr>" "\<lparr>cl_authorization = ''Bearer guess'', cl_user = '' ''\<rparr>" Reindex]
    by fastforce
qed

end
