(* ===== verification/Billing.thy ===== *)
theory Billing
  imports Ldm_Decimal Py_Date Py_Json Py_Uuid "HOL-Library.Product_Lexorder"
begin

text \<open>
  The billing service (\<open>services/billing-service/app\<close>): the rules for plans, entitlements and plan changes
  (\<open>domain.py\<close>) over a repository of plans, the repository in Postgres (\<open>repository.py\<close>, its tables in
  \<open>db/migrations/001_initial.sql\<close>, its connections and the reset in \<open>db.py\<close>) and the handlers (\<open>main.py\<close>).

  A table is the list of its rows. Amounts are kept as the database keeps them: \<open>numeric(12, 2)\<close> in
  hundredths, \<open>numeric(12, 6)\<close> in millionths. The order of the rows of a query, which SQL leaves open, is
  that of an arbitrary rank of the rows; the ranks, the name-based identifiers of \<open>uuid5\<close> and the seed are
  parameters. Of the tenants only the identifiers are
  read. The arguments of the handlers are those that the framework has parsed.
\<close>

section \<open>Rows\<close>

record plan_row =
  pl_id :: uuid
  pl_code :: string
  pl_tier :: string
  pl_fee :: nat
  pl_units :: nat
  pl_rate :: nat
  pl_active :: bool

record subscription_row =
  sb_id :: uuid
  sb_tenant :: uuid
  sb_plan :: uuid
  sb_starts :: date
  sb_ends :: "date option"
  sb_status :: string
  sb_suspended :: "date option"

record entitlement_row =
  en_tenant :: uuid
  en_code :: string
  en_tier :: string
  en_fee :: nat
  en_units :: nat
  en_status :: string
  en_ends :: "date option"
  en_starts :: date

text \<open>The exceptions of the database, of dates, of \<open>next\<close>, and \<open>HTTPException\<close> with its status and detail.\<close>

datatype billing_error =
    UniqueViolation
  | ForeignKeyViolation
  | CheckViolation
  | DatabaseError
  | DateOverflow
  | StopIteration
  | HttpError nat string

type_synonym ('s, 'a) billing = "('s, billing_error, 'a) prog"

section \<open>The domain\<close>

text \<open>\<open>PlansRepository\<close>\<close>

record 's plans_repository =
  rp_list_plans :: "('s, plan_row list) billing"
  rp_find_entitlements :: "uuid \<Rightarrow> ('s, entitlement_row list) billing"
  rp_list_subscriptions :: "uuid \<Rightarrow> ('s, subscription_row list) billing"
  rp_update_subscription :: "uuid \<Rightarrow> date \<Rightarrow> string \<Rightarrow> ('s, unit) billing"
  rp_insert_subscription :: "uuid \<Rightarrow> uuid \<Rightarrow> uuid \<Rightarrow> date \<Rightarrow> string \<Rightarrow> ('s, unit) billing"

definition catalog :: "plan_row list \<Rightarrow> plan_row list" where
  "catalog plans = sort_key (\<lambda>p. (pl_fee p, pl_code p)) (filter pl_active plans)"

definition covers :: "date \<Rightarrow> date option \<Rightarrow> date \<Rightarrow> bool" where
  "covers starts ends day \<longleftrightarrow> starts \<le> day \<and> (case ends of None \<Rightarrow> True | Some e \<Rightarrow> day \<le> e)"

definition entitlement :: "entitlement_row list \<Rightarrow> uuid \<Rightarrow> date \<Rightarrow> entitlement_row option" where
  "entitlement rows tenant day =
     max_by en_starts (filter (\<lambda>r. en_tenant r = tenant \<and> covers (en_starts r) (en_ends r) day) rows)"

definition plan_change_namespace :: uuid where
  "plan_change_namespace = 0xd8e9df636e464d6ab9c22ef6e99cb5ee"

definition change_id :: "(uuid \<Rightarrow> string \<Rightarrow> uuid) \<Rightarrow> uuid \<Rightarrow> uuid \<Rightarrow> date \<Rightarrow> uuid" where
  "change_id uuid5 tenant plan day =
     uuid5 plan_change_namespace (str_uuid tenant @ str_uuid plan @ isoformat day)"

definition next_status :: "string \<Rightarrow> string" where
  "next_status status = (if status = ''cancelled'' then status else ''active'')"

definition superseded :: "date \<Rightarrow> subscription_row \<Rightarrow> bool" where
  "superseded day r \<longleftrightarrow> sb_ends r = None \<and> sb_starts r < day"

definition close_subscription :: "'s plans_repository \<Rightarrow> date \<Rightarrow> subscription_row \<Rightarrow> ('s, unit) billing" where
  "close_subscription R day r =
     (if superseded day r then
        case pred_day day of
          None \<Rightarrow> raiseP DateOverflow
        | Some before \<Rightarrow> rp_update_subscription R (sb_id r) before (next_status (sb_status r))
      else retP ())"

definition change_plan ::
  "'s plans_repository \<Rightarrow> (uuid \<Rightarrow> string \<Rightarrow> uuid) \<Rightarrow> uuid \<Rightarrow> uuid \<Rightarrow> date \<Rightarrow>
     ('s, subscription_row list \<times> subscription_row) billing" where
  "change_plan R uuid5 tenant plan day =
     bindP (rp_list_subscriptions R tenant) (\<lambda>rows.
     thenP (forP rows (close_subscription R day))
    (thenP (rp_insert_subscription R (change_id uuid5 tenant plan day) tenant plan day ''active'')
    (bindP (rp_list_subscriptions R tenant) (\<lambda>rows'.
     let rows'' = sort_key sb_starts rows' in
     case find (\<lambda>r. sb_id r = change_id uuid5 tenant plan day) rows'' of
       None \<Rightarrow> raiseP StopIteration
     | Some created \<Rightarrow> retP (rows'', created)))))"

section \<open>The repository in Postgres\<close>

record billing_db =
  bd_tenants :: "uuid list"
  bd_plans :: "plan_row list"
  bd_subs :: "subscription_row list"

record billing_env =
  be_uuid5 :: "uuid \<Rightarrow> string \<Rightarrow> uuid"
  be_plan_rank :: "plan_row \<Rightarrow> nat"
  be_sub_rank :: "subscription_row \<Rightarrow> nat"
  be_join_rank :: "entitlement_row \<Rightarrow> nat"
  be_allow_reset :: bool
  be_seed :: billing_db
  be_app_name :: string

definition pg_list_plans :: "billing_env \<Rightarrow> (billing_db, plan_row list) billing" where
  "pg_list_plans E = getP (\<lambda>d. sort_key (be_plan_rank E) (bd_plans d))"

definition entitlement_of :: "plan_row \<Rightarrow> subscription_row \<Rightarrow> entitlement_row" where
  "entitlement_of p r = \<lparr>en_tenant = sb_tenant r, en_code = pl_code p, en_tier = pl_tier p, en_fee = pl_fee p,
     en_units = pl_units p, en_status = sb_status r, en_ends = sb_ends r, en_starts = sb_starts r\<rparr>"

text \<open>The join of the three tables for one tenant.\<close>

definition joined :: "billing_db \<Rightarrow> uuid \<Rightarrow> entitlement_row list" where
  "joined d tenant =
     [entitlement_of p r. t \<leftarrow> bd_tenants d, t = tenant, r \<leftarrow> bd_subs d, sb_tenant r = t,
        p \<leftarrow> bd_plans d, pl_id p = sb_plan r]"

definition pg_find_entitlements :: "billing_env \<Rightarrow> uuid \<Rightarrow> (billing_db, entitlement_row list) billing" where
  "pg_find_entitlements E tenant = getP (\<lambda>d. sort_key (be_join_rank E) (joined d tenant))"

definition pg_list_subscriptions :: "billing_env \<Rightarrow> uuid \<Rightarrow> (billing_db, subscription_row list) billing" where
  "pg_list_subscriptions E tenant = getP (\<lambda>d. sort_key (be_sub_rank E) (filter (\<lambda>r. sb_tenant r = tenant) (bd_subs d)))"

text \<open>The \<open>CHECK\<close> constraints of a row.\<close>

definition sub_checks :: "subscription_row \<Rightarrow> bool" where
  "sub_checks r \<longleftrightarrow> sb_status r \<in> {''active'', ''suspended'', ''cancelled''} \<and>
     (case sb_ends r of None \<Rightarrow> True | Some e \<Rightarrow> sb_starts r \<le> e) \<and>
     (case sb_suspended r of None \<Rightarrow> True | Some e \<Rightarrow> sb_starts r \<le> e)"

definition ended :: "date \<Rightarrow> string \<Rightarrow> subscription_row \<Rightarrow> subscription_row" where
  "ended e st r = r\<lparr>sb_ends := Some e, sb_status := st\<rparr>"

definition pg_update_subscription :: "uuid \<Rightarrow> date \<Rightarrow> string \<Rightarrow> (billing_db, unit) billing" where
  "pg_update_subscription i e st = (\<lambda>d.
     if \<forall>r \<in> set (bd_subs d). sb_id r = i \<longrightarrow> sub_checks (ended e st r)
     then (Inr (), d\<lparr>bd_subs := map (\<lambda>r. if sb_id r = i then ended e st r else r) (bd_subs d)\<rparr>)
     else (Inl CheckViolation, d))"

definition new_subscription :: "uuid \<Rightarrow> uuid \<Rightarrow> uuid \<Rightarrow> date \<Rightarrow> string \<Rightarrow> subscription_row" where
  "new_subscription i tenant plan day st = \<lparr>sb_id = i, sb_tenant = tenant, sb_plan = plan, sb_starts = day,
     sb_ends = None, sb_status = st, sb_suspended = None\<rparr>"

definition pg_insert_subscription :: "uuid \<Rightarrow> uuid \<Rightarrow> uuid \<Rightarrow> date \<Rightarrow> string \<Rightarrow> (billing_db, unit) billing" where
  "pg_insert_subscription i tenant plan day st = (\<lambda>d.
     if \<not> sub_checks (new_subscription i tenant plan day st) then (Inl CheckViolation, d)
     else if i \<in> sb_id ` set (bd_subs d) then (Inl UniqueViolation, d)
     else if tenant \<notin> set (bd_tenants d) \<or> plan \<notin> pl_id ` set (bd_plans d) then (Inl ForeignKeyViolation, d)
     else (Inr (), d\<lparr>bd_subs := bd_subs d @ [new_subscription i tenant plan day st]\<rparr>))"

definition postgres_repository :: "billing_env \<Rightarrow> billing_db plans_repository" where
  "postgres_repository E = \<lparr>rp_list_plans = pg_list_plans E, rp_find_entitlements = pg_find_entitlements E,
     rp_list_subscriptions = pg_list_subscriptions E, rp_update_subscription = pg_update_subscription,
     rp_insert_subscription = pg_insert_subscription\<rparr>"

text \<open>
  \<open>with connect() as connection\<close>: the connection may be refused; a body that raises is rolled back, and
  the commit at the end of a body that returns may fail.
\<close>

datatype link = Up | Down | CommitFails

definition with_connection :: "link \<Rightarrow> (billing_db, 'a) billing \<Rightarrow> (billing_db, 'a) billing" where
  "with_connection l m = (\<lambda>d. case l of
       Down \<Rightarrow> (Inl DatabaseError, d)
     | _ \<Rightarrow> (case m d of
         (Inl e, _) \<Rightarrow> (Inl e, d)
       | (Inr a, d') \<Rightarrow> if l = CommitFails then (Inl DatabaseError, d) else (Inr a, d')))"

text \<open>The tables exist already, so that the migration in \<open>reset\<close> changes nothing.\<close>

definition reset_tables :: "billing_env \<Rightarrow> link \<Rightarrow> (billing_db, unit) billing" where
  "reset_tables E l = with_connection l (modP (\<lambda>_. be_seed E))"

section \<open>The handlers\<close>

definition psycopg_error :: "billing_error \<Rightarrow> bool" where
  "psycopg_error e \<longleftrightarrow> e \<in> {UniqueViolation, ForeignKeyViolation, CheckViolation, DatabaseError}"

definition api_health :: "billing_env \<Rightarrow> link \<Rightarrow> (billing_db, dict) billing" where
  "api_health E l =
     tryP (thenP (with_connection l (retP ()))
        (retP [(''status'', JStr ''healthy''), (''service'', JStr (be_app_name E))]))
       (\<lambda>e. if psycopg_error e then raiseP (HttpError 503 ''database unavailable'') else raiseP e)"

definition api_reset :: "billing_env \<Rightarrow> link \<Rightarrow> (billing_db, unit) billing" where
  "api_reset E l =
     (if \<not> be_allow_reset E then raiseP (HttpError 404 ''internal reset is disabled'') else reset_tables E l)"

text \<open>\<open>f"{amount:.2f}"\<close> and \<open>f"{amount:.6f}"\<close>\<close>

definition fixed_text :: "nat \<Rightarrow> nat \<Rightarrow> string" where
  "fixed_text places n = format_f (Dec False n (- int places))"

definition plan_json :: "plan_row \<Rightarrow> dict" where
  "plan_json p = [(''plan_id'', JStr (str_uuid (pl_id p))), (''code'', JStr (pl_code p)), (''tier'', JStr (pl_tier p)),
     (''monthly_fee'', JStr (fixed_text 2 (pl_fee p))), (''included_units'', JInt (int (pl_units p))),
     (''overage_rate'', JStr (fixed_text 6 (pl_rate p)))]"

definition api_plans :: "billing_env \<Rightarrow> link \<Rightarrow> (billing_db, dict list) billing" where
  "api_plans E l =
     bindP (with_connection l (rp_list_plans (postgres_repository E))) (\<lambda>ps. retP (map plan_json (catalog ps)))"

definition entitlement_json :: "entitlement_row \<Rightarrow> date \<Rightarrow> dict" where
  "entitlement_json r day = [(''tenant_id'', JStr (str_uuid (en_tenant r))), (''plan_code'', JStr (en_code r)),
     (''tier'', JStr (en_tier r)), (''monthly_fee'', JStr (fixed_text 2 (en_fee r))),
     (''included_units'', JInt (int (en_units r))), (''subscription_status'', JStr (en_status r)),
     (''effective_on'', JStr (isoformat (max (en_starts r) day)))]"

definition api_entitlement :: "billing_env \<Rightarrow> link \<Rightarrow> uuid \<Rightarrow> date \<Rightarrow> (billing_db, dict) billing" where
  "api_entitlement E l tenant day =
     bindP (with_connection l (bindP (rp_find_entitlements (postgres_repository E) tenant)
         (\<lambda>rows. retP (entitlement rows tenant day)))) (\<lambda>found. case found of
       None \<Rightarrow> raiseP (HttpError 404 ''entitlement not found'')
     | Some r \<Rightarrow> retP (entitlement_json r day))"

definition subscription_json :: "subscription_row \<Rightarrow> dict" where
  "subscription_json r = [(''plan_id'', JStr (str_uuid (sb_plan r))), (''starts_on'', JStr (isoformat (sb_starts r))),
     (''ends_on'', case sb_ends r of None \<Rightarrow> JNull | Some e \<Rightarrow> JStr (isoformat e)), (''status'', JStr (sb_status r))]"

definition change_json :: "subscription_row list \<times> subscription_row \<Rightarrow> dict" where
  "change_json res = (case res of (rows, created) \<Rightarrow>
     [(''latest_plan'', JStr (str_uuid (sb_plan created))), (''latest_start'', JStr (isoformat (sb_starts created))),
      (''subscriptions'', JList (map (\<lambda>r. JDict (subscription_json r)) rows))])"

definition change_handler :: "billing_error \<Rightarrow> (billing_db, dict) billing" where
  "change_handler e = (case e of
       ForeignKeyViolation \<Rightarrow> raiseP (HttpError 400 ''invalid plan change'')
     | UniqueViolation \<Rightarrow> raiseP (HttpError 409 ''this plan change has already been requested'')
     | _ \<Rightarrow> raiseP e)"

definition api_plan_change :: "billing_env \<Rightarrow> link \<Rightarrow> uuid \<Rightarrow> uuid \<Rightarrow> date \<Rightarrow> (billing_db, dict) billing" where
  "api_plan_change E l tenant plan day =
     tryP (with_connection l (bindP (change_plan (postgres_repository E) (be_uuid5 E) tenant plan day)
         (\<lambda>res. retP (change_json res)))) change_handler"

datatype billing_request =
    Health
  | InternalReset
  | ListPlans
  | GetEntitlement uuid date
  | PlanChange uuid uuid date

datatype billing_answer = NoContent | PlanList "dict list" | Answer dict

fun serve_billing :: "billing_env \<Rightarrow> link \<Rightarrow> billing_request \<Rightarrow> (billing_db, billing_answer) billing" where
  "serve_billing E l Health = bindP (api_health E l) (\<lambda>a. retP (Answer a))"
| "serve_billing E l InternalReset = bindP (api_reset E l) (\<lambda>_. retP NoContent)"
| "serve_billing E l ListPlans = bindP (api_plans E l) (\<lambda>a. retP (PlanList a))"
| "serve_billing E l (GetEntitlement t day) = bindP (api_entitlement E l t day) (\<lambda>a. retP (Answer a))"
| "serve_billing E l (PlanChange t p day) = bindP (api_plan_change E l t p day) (\<lambda>a. retP (Answer a))"

text \<open>Requests one after the other.\<close>

fun after_requests :: "billing_env \<Rightarrow> (link \<times> billing_request) list \<Rightarrow> billing_db \<Rightarrow> billing_db" where
  "after_requests E [] d = d"
| "after_requests E ((l, q) # qs) d = after_requests E qs (snd (serve_billing E l q d))"

end
