(* ===== verification/Billing_Facts.thy ===== *)
theory Billing_Facts
  imports Billing "HOL-Library.Multiset"
begin

text \<open>
  Plan changes of the billing service. The contract of a repository is a locale; over it, a change closes
  the open subscriptions that started earlier and appends the new one. It is interpreted on the repository
  in Postgres, for any order of the rows of its queries. From that follow the effect of a change on every
  later question for the entitlement, and the refusal of a repeated change.
\<close>

section \<open>Well-formed tables\<close>

definition rows_ok :: "subscription_row list \<Rightarrow> bool" where
  "rows_ok rs \<longleftrightarrow> distinct (map sb_id rs) \<and> (\<forall>r \<in> set rs. sub_checks r \<and> valid_date (sb_starts r))"

definition closed :: "date \<Rightarrow> subscription_row \<Rightarrow> subscription_row" where
  "closed day r = (if superseded day r then ended (the (pred_day day)) (next_status (sb_status r)) r else r)"

lemma ended_simps [simp]:
  "sb_id (ended e st r) = sb_id r" "sb_tenant (ended e st r) = sb_tenant r" "sb_plan (ended e st r) = sb_plan r"
  "sb_starts (ended e st r) = sb_starts r" "sb_ends (ended e st r) = Some e" "sb_status (ended e st r) = st"
  "sb_suspended (ended e st r) = sb_suspended r"
  by (simp_all add: ended_def)

lemma closed_simps [simp]:
  "sb_id (closed day r) = sb_id r" "sb_tenant (closed day r) = sb_tenant r" "sb_plan (closed day r) = sb_plan r"
  "sb_starts (closed day r) = sb_starts r"
  by (simp_all add: closed_def)

lemma new_subscription_simps [simp]:
  "sb_id (new_subscription i t p e st) = i" "sb_tenant (new_subscription i t p e st) = t"
  "sb_plan (new_subscription i t p e st) = p" "sb_starts (new_subscription i t p e st) = e"
  "sb_ends (new_subscription i t p e st) = None" "sb_status (new_subscription i t p e st) = st"
  "sub_checks (new_subscription i t p e ''active'')"
  by (simp_all add: new_subscription_def sub_checks_def)

lemma pred_day_exists:
  assumes "valid_date a" "valid_date day" "a < day"
  obtains before where "pred_day day = Some before" "a \<le> before" "before < day" "valid_date before"
proof -
  have "pred_day day \<noteq> None"
    using assms by (cases day; cases a) (auto simp: pred_day_def valid_date_iff less_date_def)
  then obtain before where b: "pred_day day = Some before" by blast
  show ?thesis
  proof
    show "a \<le> before" using assms b by (intro pred_day_greatest [of day a])
  qed (use b assms in \<open>auto intro: pred_day_less pred_day_valid\<close>)
qed

lemma closed_checks:
  assumes "sub_checks r" "valid_date (sb_starts r)" "valid_date day" "superseded day r"
  obtains before where "pred_day day = Some before" "sub_checks (ended before (next_status (sb_status r)) r)"
    "closed day r = ended before (next_status (sb_status r)) r" "before < day" "sb_starts r \<le> before"
proof -
  have "sb_starts r < day" using assms(4) by (simp add: superseded_def)
  with assms(2,3) obtain b where "pred_day day = Some b" "sb_starts r \<le> b" "b < day"
    by (rule pred_day_exists)
  then show ?thesis using assms(1,4)
    by (intro that [of b]) (auto simp: sub_checks_def closed_def next_status_def split: option.splits)
qed

lemma rows_ok_closed: "rows_ok rs \<Longrightarrow> valid_date day \<Longrightarrow> rows_ok (map (\<lambda>r. if P r then closed day r else r) rs)"
  unfolding rows_ok_def
proof (intro conjI)
  assume ok: "distinct (map sb_id rs) \<and> (\<forall>r \<in> set rs. sub_checks r \<and> valid_date (sb_starts r))" and d: "valid_date day"
  have "map sb_id (map (\<lambda>r. if P r then closed day r else r) rs) = map sb_id rs" by simp
  then show "distinct (map sb_id (map (\<lambda>r. if P r then closed day r else r) rs))" using ok by metis
  have "sub_checks (closed day r)" if "r \<in> set rs" for r
  proof (cases "superseded day r")
    case True
    with ok d that show ?thesis by (metis closed_checks)
  next
    case False
    then show ?thesis using ok that by (simp add: closed_def)
  qed
  then show "\<forall>r \<in> set (map (\<lambda>r. if P r then closed day r else r) rs). sub_checks r \<and> valid_date (sb_starts r)"
    using ok by auto
qed

lemma closed_ids: "sb_id ` set (map (\<lambda>r. if P r then closed day r else r) rs) = sb_id ` set rs"
proof -
  have "map sb_id (map (\<lambda>r. if P r then closed day r else r) rs) = map sb_id rs" by simp
  then show ?thesis by (metis list.set_map)
qed

section \<open>The contract of a repository\<close>

locale plans_store =
  fixes R :: "'s plans_repository"
    and subs :: "'s \<Rightarrow> subscription_row list"
  assumes list_rows: "\<exists>xs. rp_list_subscriptions R t s = (Inr xs, s) \<and>
      mset xs = mset (filter (\<lambda>r. sb_tenant r = t) (subs s))"
    and update_rows: "\<forall>r \<in> set (subs s). sb_id r = i \<longrightarrow> sub_checks (ended e st r) \<Longrightarrow>
      \<exists>s'. rp_update_subscription R i e st s = (Inr (), s') \<and>
        subs s' = map (\<lambda>r. if sb_id r = i then ended e st r else r) (subs s)"
    and insert_rows: "rp_insert_subscription R i t p e st s = (Inr u, s') \<Longrightarrow>
      i \<notin> sb_id ` set (subs s) \<and> subs s' = subs s @ [new_subscription i t p e st]"
    and insert_taken: "i \<in> sb_id ` set (subs s) \<Longrightarrow> sub_checks (new_subscription i t p e st) \<Longrightarrow>
      rp_insert_subscription R i t p e st s = (Inl UniqueViolation, s)"
begin

lemma close_one:
  assumes "rows_ok (subs s)" and "r \<in> set (subs s)" and "valid_date day"
  shows "\<exists>s'. close_subscription R day r s = (Inr (), s') \<and>
    subs s' = map (\<lambda>x. if x = r then closed day x else x) (subs s)"
proof (cases "superseded day r")
  case False
  then show ?thesis by (intro exI [of _ s]) (auto simp: close_subscription_def closed_def intro!: map_idI [symmetric])
next
  case True
  have r: "sub_checks r" "valid_date (sb_starts r)" using assms by (auto simp: rows_ok_def)
  have same: "x \<in> set (subs s) \<Longrightarrow> sb_id x = sb_id r \<longleftrightarrow> x = r" for x
    using assms(1,2) by (auto simp: rows_ok_def distinct_map dest: inj_onD)
  from r assms(3) True obtain b where b: "pred_day day = Some b"
      "sub_checks (ended b (next_status (sb_status r)) r)" "closed day r = ended b (next_status (sb_status r)) r"
    by (rule closed_checks)
  have "\<forall>x \<in> set (subs s). sb_id x = sb_id r \<longrightarrow> sub_checks (ended b (next_status (sb_status r)) x)"
    using same b(2) by auto
  from update_rows [OF this] obtain s' where s': "rp_update_subscription R (sb_id r) b (next_status (sb_status r)) s = (Inr (), s')"
      "subs s' = map (\<lambda>x. if sb_id x = sb_id r then ended b (next_status (sb_status r)) x else x) (subs s)"
    by blast
  have "subs s' = map (\<lambda>x. if x = r then closed day x else x) (subs s)"
    unfolding s'(2) using same b(3) by (intro map_cong) auto
  then show ?thesis using s'(1) True b(1) by (auto simp: close_subscription_def)
qed

lemma close_all:
  assumes "rows_ok (subs s)" "set xs \<subseteq> set (subs s)" "distinct (map sb_id xs)" "valid_date day"
  shows "\<exists>s'. forP xs (close_subscription R day) s = (Inr (), s') \<and>
    subs s' = map (\<lambda>r. if r \<in> set xs then closed day r else r) (subs s)"
  using assms(1-3)
proof (induction xs arbitrary: s)
  case Nil
  then show ?case by simp
next
  case (Cons x xs)
  obtain s1 where s1: "close_subscription R day x s = (Inr (), s1)"
      "subs s1 = map (\<lambda>r. if r = x then closed day r else r) (subs s)"
    using close_one [of s x day] Cons.prems assms(4) by auto
  have ok: "rows_ok (subs s1)" unfolding s1(2) using Cons.prems assms(4) by (intro rows_ok_closed)
  have x: "x \<notin> set xs" "closed day x \<notin> set xs" using Cons.prems(3) by (auto simp: image_iff)
  have "set xs \<subseteq> set (subs s1)" unfolding s1(2) using Cons.prems(2) x(1) by (auto simp: image_iff)
  with ok Cons obtain s2 where s2: "forP xs (close_subscription R day) s1 = (Inr (), s2)"
      "subs s2 = map (\<lambda>r. if r \<in> set xs then closed day r else r) (subs s1)"
    by fastforce
  have "subs s2 = map (\<lambda>r. if r \<in> set (x # xs) then closed day r else r) (subs s)"
    unfolding s2(2) s1(2) using x by auto
  with s1(1) s2(1) show ?case by (auto simp: thenP_eval)
qed

lemma close_tenant:
  assumes "rows_ok (subs s)" "mset xs = mset (filter (\<lambda>r. sb_tenant r = t) (subs s))" "valid_date day"
  shows "\<exists>s'. forP xs (close_subscription R day) s = (Inr (), s') \<and>
    subs s' = map (\<lambda>r. if sb_tenant r = t then closed day r else r) (subs s)"
proof -
  have set: "set xs = set (filter (\<lambda>r. sb_tenant r = t) (subs s))" using assms(2) by (rule mset_eq_setD)
  have "mset (map sb_id xs) = mset (map sb_id (filter (\<lambda>r. sb_tenant r = t) (subs s)))"
    using assms(2) by (simp only: mset_map)
  moreover have "distinct (map sb_id (filter (\<lambda>r. sb_tenant r = t) (subs s)))"
    using assms(1) by (simp add: rows_ok_def distinct_map_filter)
  ultimately have d: "distinct (map sb_id xs)" using mset_eq_imp_distinct_iff by blast
  have "map (\<lambda>r. if r \<in> set xs then closed day r else r) (subs s)
      = map (\<lambda>r. if sb_tenant r = t then closed day r else r) (subs s)"
    by (auto simp: set)
  with close_all [OF assms(1) _ d assms(3)] set show ?thesis by fastforce
qed

text \<open>The table after a change, and the rows it reports.\<close>

lemma change_plan_rows:
  assumes ok: "rows_ok (subs s)" and day: "valid_date day"
    and run: "change_plan R u t p day s = (Inr (rows, created), s')"
  shows "subs s' = map (\<lambda>r. if sb_tenant r = t then closed day r else r) (subs s) @ [created]"
    "created = new_subscription (change_id u t p day) t p day ''active''"
    "change_id u t p day \<notin> sb_id ` set (subs s)" "rows_ok (subs s')"
    "sorted (map sb_starts rows)" "mset rows = mset (filter (\<lambda>r. sb_tenant r = t) (subs s'))"
proof -
  let ?i = "change_id u t p day"
  obtain xs where xs: "rp_list_subscriptions R t s = (Inr xs, s)"
      "mset xs = mset (filter (\<lambda>r. sb_tenant r = t) (subs s))"
    using list_rows by blast
  obtain s1 where s1: "forP xs (close_subscription R day) s = (Inr (), s1)"
      "subs s1 = map (\<lambda>r. if sb_tenant r = t then closed day r else r) (subs s)"
    using close_tenant [OF ok xs(2) day] by blast
  have ids: "sb_id ` set (subs s1) = sb_id ` set (subs s)" unfolding s1(2) by (rule closed_ids)
  from run xs(1) s1(1) obtain w s2 where s2: "rp_insert_subscription R ?i t p day ''active'' s1 = (Inr w, s2)"
    by (auto simp: change_plan_def bindP_eval thenP_eval split: prod.splits sum.splits)
  from insert_rows [OF s2] have new: "?i \<notin> sb_id ` set (subs s1)"
      "subs s2 = subs s1 @ [new_subscription ?i t p day ''active'']" by auto
  obtain ys where ys: "rp_list_subscriptions R t s2 = (Inr ys, s2)"
      "mset ys = mset (filter (\<lambda>r. sb_tenant r = t) (subs s2))"
    using list_rows by blast
  have set: "set ys = set (filter (\<lambda>r. sb_tenant r = t) (subs s2))" using ys(2) by (rule mset_eq_setD)
  from run xs(1) s1(1) s2 ys(1) have fin: "s' = s2" "rows = sort_key sb_starts ys"
      "find (\<lambda>r. sb_id r = ?i) (sort_key sb_starts ys) = Some created"
    by (auto simp: change_plan_def bindP_eval thenP_eval Let_def split: option.splits)
  from fin(3) have "created \<in> set ys" "sb_id created = ?i"
    by (auto simp: find_Some_iff) (metis nth_mem length_sort set_sort)
  then show c: "created = new_subscription ?i t p day ''active''"
    using new set by (auto simp: image_iff)
  show "subs s' = map (\<lambda>r. if sb_tenant r = t then closed day r else r) (subs s) @ [created]"
    using fin(1) new(2) s1(2) c by simp
  show "?i \<notin> sb_id ` set (subs s)" using new(1) ids by simp
  have "rows_ok (subs s1)" unfolding s1(2) using ok day by (rule rows_ok_closed)
  then show "rows_ok (subs s')" using new fin(1) day by (auto simp: rows_ok_def)
  show "sorted (map sb_starts rows)" "mset rows = mset (filter (\<lambda>r. sb_tenant r = t) (subs s'))"
    using fin ys(2) by simp_all
qed

lemma change_plan_taken:
  assumes ok: "rows_ok (subs s)" and day: "valid_date day" and taken: "change_id u t p day \<in> sb_id ` set (subs s)"
  shows "fst (change_plan R u t p day s) = Inl UniqueViolation"
proof -
  obtain xs where xs: "rp_list_subscriptions R t s = (Inr xs, s)"
      "mset xs = mset (filter (\<lambda>r. sb_tenant r = t) (subs s))"
    using list_rows by blast
  obtain s1 where s1: "forP xs (close_subscription R day) s = (Inr (), s1)"
      "subs s1 = map (\<lambda>r. if sb_tenant r = t then closed day r else r) (subs s)"
    using close_tenant [OF ok xs(2) day] by blast
  have "change_id u t p day \<in> sb_id ` set (subs s1)" using taken unfolding s1(2) closed_ids .
  from insert_taken [OF this] xs(1) s1(1) show ?thesis
    by (simp add: change_plan_def bindP_eval thenP_eval)
qed

end

interpretation pg: plans_store "postgres_repository E" "bd_subs :: billing_db \<Rightarrow> subscription_row list"
proof unfold_locales
  fix t and s :: billing_db
  show "\<exists>xs. rp_list_subscriptions (postgres_repository E) t s = (Inr xs, s) \<and>
      mset xs = mset (filter (\<lambda>r. sb_tenant r = t) (bd_subs s))"
    by (simp add: postgres_repository_def pg_list_subscriptions_def)
next
  fix s :: billing_db and i e st
  assume "\<forall>r \<in> set (bd_subs s). sb_id r = i \<longrightarrow> sub_checks (ended e st r)"
  then show "\<exists>s'. rp_update_subscription (postgres_repository E) i e st s = (Inr (), s') \<and>
        bd_subs s' = map (\<lambda>r. if sb_id r = i then ended e st r else r) (bd_subs s)"
    by (simp add: postgres_repository_def pg_update_subscription_def)
next
  fix i t p e st u and s s' :: billing_db
  assume "rp_insert_subscription (postgres_repository E) i t p e st s = (Inr u, s')"
  then show "i \<notin> sb_id ` set (bd_subs s) \<and> bd_subs s' = bd_subs s @ [new_subscription i t p e st]"
    by (auto simp: postgres_repository_def pg_insert_subscription_def split: if_splits)
next
  fix i t p e st and s :: billing_db
  assume "i \<in> sb_id ` set (bd_subs s)" "sub_checks (new_subscription i t p e st)"
  then show "rp_insert_subscription (postgres_repository E) i t p e st s = (Inl UniqueViolation, s)"
    by (simp add: postgres_repository_def pg_insert_subscription_def)
qed

section \<open>Requests over the tables\<close>

definition tables_ok :: "billing_db \<Rightarrow> bool" where
  "tables_ok d \<longleftrightarrow> rows_ok (bd_subs d) \<and> distinct (bd_tenants d) \<and> distinct (map pl_id (bd_plans d)) \<and>
     (\<forall>r \<in> set (bd_subs d). sb_tenant r \<in> set (bd_tenants d) \<and> sb_plan r \<in> pl_id ` set (bd_plans d))"

text \<open>The table of subscriptions after a change.\<close>

definition changed :: "(uuid \<Rightarrow> string \<Rightarrow> uuid) \<Rightarrow> uuid \<Rightarrow> uuid \<Rightarrow> date \<Rightarrow> subscription_row list \<Rightarrow> subscription_row list" where
  "changed u t p day rs = map (\<lambda>r. if sb_tenant r = t then closed day r else r) rs @
     [new_subscription (change_id u t p day) t p day ''active'']"

text \<open>The statements of the repository touch the subscriptions only, and an insert checks the references.\<close>

definition same_parents :: "billing_db \<Rightarrow> billing_db \<Rightarrow> bool" where
  "same_parents d d' \<longleftrightarrow> bd_tenants d' = bd_tenants d \<and> bd_plans d' = bd_plans d"

lemma pg_close_parents: "same_parents d (snd (close_subscription (postgres_repository E) day r d))"
  by (auto simp: close_subscription_def postgres_repository_def pg_update_subscription_def same_parents_def
      split: option.splits)

lemma pg_loop_parents: "same_parents d (snd (forP rs (close_subscription (postgres_repository E) day) d))"
proof (induction rs arbitrary: d)
  case Nil
  then show ?case by (simp add: same_parents_def)
next
  case (Cons r rs)
  have "same_parents d (snd (close_subscription (postgres_repository E) day r d))" by (rule pg_close_parents)
  with Cons.IH show ?case
    by (auto simp: thenP_eval same_parents_def split: prod.splits sum.splits)
qed

lemma pg_change_parents:
  assumes "change_plan (postgres_repository E) u t p day d = (Inr res, d')"
  shows "same_parents d d'" "t \<in> set (bd_tenants d)" "p \<in> pl_id ` set (bd_plans d)"
proof -
  obtain xs where xs: "rp_list_subscriptions (postgres_repository E) t d = (Inr xs, d)"
    by (simp add: postgres_repository_def pg_list_subscriptions_def)
  from assms xs obtain d1 where d1: "forP xs (close_subscription (postgres_repository E) day) d = (Inr (), d1)"
    by (auto simp: change_plan_def bindP_eval thenP_eval split: prod.splits sum.splits)
  have same: "same_parents d d1" using pg_loop_parents [of d xs E day] d1 by simp
  from assms xs d1 obtain w d2 where
      d2: "rp_insert_subscription (postgres_repository E) (change_id u t p day) t p day ''active'' d1 = (Inr w, d2)"
    by (auto simp: change_plan_def bindP_eval thenP_eval split: prod.splits sum.splits)
  from assms xs d1 d2 have "d' = d2"
    by (auto simp: change_plan_def bindP_eval thenP_eval Let_def postgres_repository_def pg_list_subscriptions_def
        split: option.splits)
  with same d2 show "same_parents d d'" "t \<in> set (bd_tenants d)" "p \<in> pl_id ` set (bd_plans d)"
    by (auto simp: postgres_repository_def pg_insert_subscription_def same_parents_def split: if_splits)
qed

text \<open>An accepted change: the rows of the table, the answer, and what it needed.\<close>

lemma api_plan_change_accepted:
  assumes run: "api_plan_change E l t p day d = (Inr ans, d')"
  shows "l = Up" "\<exists>res. change_plan (postgres_repository E) (be_uuid5 E) t p day d = (Inr res, d') \<and> ans = change_json res"
proof -
  from run have "with_connection l (bindP (change_plan (postgres_repository E) (be_uuid5 E) t p day)
      (\<lambda>res. retP (change_json res))) d = (Inr ans, d')"
    by (auto simp: api_plan_change_def tryP_eval change_handler_def split: prod.splits sum.splits billing_error.splits)
  then show "l = Up" "\<exists>res. change_plan (postgres_repository E) (be_uuid5 E) t p day d = (Inr res, d') \<and> ans = change_json res"
    by (auto simp: with_connection_def bindP_eval split: link.splits prod.splits sum.splits if_splits)
qed

lemma api_plan_change_rows:
  assumes run: "api_plan_change E l t p day d = (Inr ans, d')" and ok: "tables_ok d" and day: "valid_date day"
  shows "bd_subs d' = changed (be_uuid5 E) t p day (bd_subs d)" "same_parents d d'" "tables_ok d'"
    "t \<in> set (bd_tenants d)" "p \<in> pl_id ` set (bd_plans d)"
proof -
  from api_plan_change_accepted [OF run] obtain rows created where
      res: "change_plan (postgres_repository E) (be_uuid5 E) t p day d = (Inr (rows, created), d')" by auto
  have rows: "rows_ok (bd_subs d)" using ok by (simp add: tables_ok_def)
  note r = pg.change_plan_rows [OF rows day res]
  show *: "bd_subs d' = changed (be_uuid5 E) t p day (bd_subs d)" using r(1,2) by (simp add: changed_def)
  show par: "same_parents d d'" "t \<in> set (bd_tenants d)" "p \<in> pl_id ` set (bd_plans d)"
    using pg_change_parents [OF res] by auto
  from ok r(4) par show "tables_ok d'" by (auto simp: tables_ok_def * changed_def same_parents_def)
qed

text \<open>A request that raises leaves the tables alone.\<close>

lemma with_connection_rollback: "with_connection l m d = (Inl e, d') \<Longrightarrow> d' = d"
  by (auto simp: with_connection_def split: link.splits prod.splits sum.splits if_splits)

lemma api_plan_change_refused: "api_plan_change E l t p day d = (Inl e, d') \<Longrightarrow> d' = d"
  by (auto simp: api_plan_change_def tryP_eval change_handler_def dest!: with_connection_rollback
      split: prod.splits sum.splits billing_error.splits)

lemma reading_connection: "with_connection l (getP f) d = (r, d') \<Longrightarrow> d' = d"
  by (auto simp: with_connection_def split: link.splits if_splits)

text \<open>The catalog: exactly the active plans, by fee and code.\<close>

lemma catalog_exact: "set (catalog ps) = {p \<in> set ps. pl_active p}" "sorted (map (\<lambda>p. (pl_fee p, pl_code p)) (catalog ps))"
  by (auto simp: catalog_def)

end
