(* ===== verification/Billing_Change.thy ===== *)
theory Billing_Change
  imports Billing_Facts
begin

text \<open>
  What a plan change does to every later question for the entitlement of the tenant, what happens to it when
  a subscription already starts on its day, and what a repeated change is answered.
\<close>

section \<open>The entitlement on a day\<close>

text \<open>What \<open>GET /api/tenants/{tenant_id}/entitlement\<close> selects.\<close>

definition entitled :: "billing_env \<Rightarrow> billing_db \<Rightarrow> uuid \<Rightarrow> date \<Rightarrow> entitlement_row option" where
  "entitled E d t day = entitlement (sort_key (be_join_rank E) (joined d t)) t day"

lemma api_entitlement_entitled:
  "api_entitlement E Up t day d = (case entitled E d t day of
       None \<Rightarrow> (Inl (HttpError 404 ''entitlement not found''), d)
     | Some r \<Rightarrow> (Inr (entitlement_json r day), d))"
  by (simp add: api_entitlement_def entitled_def with_connection_def bindP_eval postgres_repository_def
      pg_find_entitlements_def split: option.splits)

definition in_force :: "uuid \<Rightarrow> date \<Rightarrow> subscription_row \<Rightarrow> bool" where
  "in_force t day r \<longleftrightarrow> sb_tenant r = t \<and> covers (sb_starts r) (sb_ends r) day"

lemma max_by_first:
  "\<forall>x \<in> set xs. k x < k y \<Longrightarrow> \<forall>z \<in> set ys. k z \<le> k y \<Longrightarrow> max_by k (xs @ y # ys) = Some y"
proof (induction xs)
  case Nil
  then show ?case using max_by_Some [of k ys] by (fastforce split: option.splits)
next
  case (Cons x xs)
  then show ?case by simp
qed

lemma max_by_unique:
  assumes "y \<in> set xs" "\<And>x. x \<in> set xs \<Longrightarrow> x = y \<or> k x < k y"
  shows "max_by k xs = Some y"
proof -
  obtain as bs where xs: "xs = as @ y # bs" "y \<notin> set as" using assms(1) split_list_first by metis
  show ?thesis unfolding xs(1)
    using assms(2) xs by (intro max_by_first) (auto intro: order.strict_implies_order)
qed

lemma entitlement_of_simps [simp]:
  "en_tenant (entitlement_of p r) = sb_tenant r" "en_starts (entitlement_of p r) = sb_starts r"
  "en_ends (entitlement_of p r) = sb_ends r"
  by (simp_all add: entitlement_of_def)

lemma joined_rows:
  "x \<in> set (joined d t) \<longleftrightarrow> t \<in> set (bd_tenants d) \<and>
     (\<exists>r p. r \<in> set (bd_subs d) \<and> sb_tenant r = t \<and> p \<in> set (bd_plans d) \<and> pl_id p = sb_plan r \<and> x = entitlement_of p r)"
  by (auto simp: joined_def)

lemma plan_unique:
  "tables_ok d \<Longrightarrow> p \<in> set (bd_plans d) \<Longrightarrow> q \<in> set (bd_plans d) \<Longrightarrow> pl_id p = pl_id q \<Longrightarrow> p = q"
  by (auto simp: tables_ok_def distinct_map dest: inj_onD)

lemma eligible_rows:
  "x \<in> set (filter (\<lambda>r. en_tenant r = t \<and> covers (en_starts r) (en_ends r) day) (sort_key f (joined d t))) \<longleftrightarrow>
     t \<in> set (bd_tenants d) \<and> (\<exists>r p. r \<in> set (bd_subs d) \<and> in_force t day r \<and> p \<in> set (bd_plans d) \<and>
       pl_id p = sb_plan r \<and> x = entitlement_of p r)"
proof
  assume "x \<in> set (filter (\<lambda>r. en_tenant r = t \<and> covers (en_starts r) (en_ends r) day) (sort_key f (joined d t)))"
  then have j: "x \<in> set (joined d t)" and c: "covers (en_starts x) (en_ends x) day" by simp_all
  from j obtain r p where "t \<in> set (bd_tenants d)" "r \<in> set (bd_subs d)" "sb_tenant r = t" "p \<in> set (bd_plans d)"
      "pl_id p = sb_plan r" "x = entitlement_of p r"
    unfolding joined_rows by blast
  with c show "t \<in> set (bd_tenants d) \<and> (\<exists>r p. r \<in> set (bd_subs d) \<and> in_force t day r \<and> p \<in> set (bd_plans d) \<and>
      pl_id p = sb_plan r \<and> x = entitlement_of p r)"
    by (intro conjI exI) (simp_all add: in_force_def)
next
  assume "t \<in> set (bd_tenants d) \<and> (\<exists>r p. r \<in> set (bd_subs d) \<and> in_force t day r \<and> p \<in> set (bd_plans d) \<and>
      pl_id p = sb_plan r \<and> x = entitlement_of p r)"
  then obtain r p where r: "t \<in> set (bd_tenants d)" "r \<in> set (bd_subs d)" "in_force t day r" "p \<in> set (bd_plans d)"
      "pl_id p = sb_plan r" "x = entitlement_of p r"
    by blast
  then have "x \<in> set (joined d t)" unfolding joined_rows in_force_def by blast
  with r(3,6) show "x \<in> set (filter (\<lambda>r. en_tenant r = t \<and> covers (en_starts r) (en_ends r) day) (sort_key f (joined d t)))"
    by (simp add: in_force_def)
qed

text \<open>The row in force that starts last decides.\<close>

lemma entitled_row:
  assumes ok: "tables_ok d" and r: "r \<in> set (bd_subs d)" "in_force t day r" and p: "p \<in> set (bd_plans d)" "pl_id p = sb_plan r"
    and last: "\<And>x. x \<in> set (bd_subs d) \<Longrightarrow> in_force t day x \<Longrightarrow> x = r \<or> sb_starts x < sb_starts r"
  shows "entitled E d t day = Some (entitlement_of p r)"
  unfolding entitled_def entitlement_def
proof (rule max_by_unique, unfold eligible_rows)
  have "sb_tenant r = t" using r(2) by (simp add: in_force_def)
  moreover have "sb_tenant r \<in> set (bd_tenants d)" using ok r(1) by (simp add: tables_ok_def)
  ultimately have "t \<in> set (bd_tenants d)" by simp
  with r p show "t \<in> set (bd_tenants d) \<and> (\<exists>r' p'. r' \<in> set (bd_subs d) \<and> in_force t day r' \<and>
      p' \<in> set (bd_plans d) \<and> pl_id p' = sb_plan r' \<and> entitlement_of p r = entitlement_of p' r')" by blast
next
  fix x
  assume "t \<in> set (bd_tenants d) \<and> (\<exists>r p. r \<in> set (bd_subs d) \<and> in_force t day r \<and> p \<in> set (bd_plans d) \<and>
       pl_id p = sb_plan r \<and> x = entitlement_of p r)"
  then obtain y q where y: "y \<in> set (bd_subs d)" "in_force t day y" "q \<in> set (bd_plans d)" "pl_id q = sb_plan y"
      "x = entitlement_of q y"
    by blast
  show "x = entitlement_of p r \<or> en_starts x < en_starts (entitlement_of p r)"
  proof (cases "y = r")
    case True
    with plan_unique [OF ok y(3) p(1)] y(4) p(2) have "q = p" by simp
    with True y(5) show ?thesis by simp
  next
    case False
    with last [OF y(1,2)] y(5) show ?thesis by simp
  qed
qed

lemma entitled_none:
  assumes "\<And>x. x \<in> set (bd_subs d) \<Longrightarrow> \<not> in_force t day x"
  shows "entitled E d t day = None"
proof -
  have "filter (\<lambda>r. en_tenant r = t \<and> covers (en_starts r) (en_ends r) day) (sort_key (be_join_rank E) (joined d t)) = []"
    (is "?F = []")
  proof -
    have "x \<notin> set ?F" for x unfolding eligible_rows using assms by blast
    then show ?thesis by (metis last_in_set)
  qed
  then show ?thesis by (simp add: entitled_def entitlement_def)
qed

lemma last_in_force:
  assumes "\<exists>x \<in> set rs. in_force t day x"
  obtains r where "r \<in> set rs" "in_force t day r" "\<And>x. x \<in> set rs \<Longrightarrow> in_force t day x \<Longrightarrow> sb_starts x \<le> sb_starts r"
proof -
  obtain r where "max_by sb_starts (filter (in_force t day) rs) = Some r"
    using assms by (cases "max_by sb_starts (filter (in_force t day) rs)") (auto simp: filter_empty_conv)
  with max_by_Some [OF this] show ?thesis by (intro that [of r]) auto
qed

section \<open>Before and after a change\<close>

lemma covers_closed:
  assumes "superseded day r" "pred_day day = Some before" "valid_date day" "valid_date on"
  shows "covers (sb_starts r) (Some before) on \<longleftrightarrow> covers (sb_starts r) (sb_ends r) on \<and> on < day"
proof -
  have "on < day \<Longrightarrow> on \<le> before" using assms by (intro pred_day_greatest [of day on])
  moreover have "on \<le> before \<Longrightarrow> on < day" using pred_day_less [OF assms(2)] by auto
  ultimately show ?thesis using assms(1) by (auto simp: covers_def superseded_def)
qed

lemma in_force_closed:
  assumes "sub_checks r" "valid_date (sb_starts r)" "valid_date day" "valid_date on"
  shows "in_force t on (closed day r) \<longleftrightarrow> in_force t on r \<and> (superseded day r \<longrightarrow> on < day)"
proof (cases "superseded day r")
  case True
  with assms obtain b where b: "pred_day day = Some b" "closed day r = ended b (next_status (sb_status r)) r"
    by (metis closed_checks)
  with True assms covers_closed [OF True b(1)] show ?thesis by (simp add: in_force_def)
next
  case False
  then show ?thesis by (simp add: closed_def)
qed

lemma changed_rows:
  "x \<in> set (changed u t p day rs) \<longleftrightarrow> x = new_subscription (change_id u t p day) t p day ''active'' \<or>
     (\<exists>r \<in> set rs. x = (if sb_tenant r = t then closed day r else r))"
  by (simp only: changed_def set_append set_map Un_iff image_iff list.set insert_iff empty_iff) blast

lemma in_force_new [simp]: "in_force t on (new_subscription i t p day st) \<longleftrightarrow> day \<le> on"
  by (simp add: in_force_def covers_def)

definition basis :: "entitlement_row \<Rightarrow> string \<times> string \<times> nat \<times> nat \<times> date" where
  "basis r = (en_code r, en_tier r, en_fee r, en_units r, en_starts r)"

lemma basis_closed: "basis (entitlement_of p (closed day r)) = basis (entitlement_of p r)"
  by (simp add: basis_def entitlement_of_def)

text \<open>A change of tables, and the last row in force before it.\<close>

lemma entitled_after_old:
  assumes ok: "tables_ok d" "tables_ok d'" and same: "same_parents d d'"
    and subs: "bd_subs d' = changed u t p day (bd_subs d)"
    and dates: "valid_date day" "valid_date on"
    and dist: "distinct (map sb_starts (filter (\<lambda>r. sb_tenant r = t) (bd_subs d)))"
    and r: "r \<in> set (bd_subs d)" "in_force t on r" "\<And>x. x \<in> set (bd_subs d) \<Longrightarrow> in_force t on x \<Longrightarrow> sb_starts x \<le> sb_starts r"
    and wins: "on < day \<or> day < sb_starts r"
  shows "map_option basis (entitled E d' t on) = map_option basis (entitled E d t on)"
proof -
  have checks: "x \<in> set (bd_subs d) \<Longrightarrow> sub_checks x \<and> valid_date (sb_starts x)" for x
    using ok(1) by (auto simp: tables_ok_def rows_ok_def)
  obtain q where q: "q \<in> set (bd_plans d)" "pl_id q = sb_plan r" using ok(1) r(1) by (auto simp: tables_ok_def)
  have q': "q \<in> set (bd_plans d')" using q same by (simp add: same_parents_def)
  have strict: "x = r \<or> sb_starts x < sb_starts r" if "x \<in> set (bd_subs d)" "in_force t on x" for x
  proof -
    have "x \<in> set (filter (\<lambda>r. sb_tenant r = t) (bd_subs d))" "r \<in> set (filter (\<lambda>r. sb_tenant r = t) (bd_subs d))"
      using that r by (auto simp: in_force_def)
    with dist have "sb_starts x = sb_starts r \<Longrightarrow> x = r" by (auto simp: distinct_map dest: inj_onD)
    with r(3) [OF that] show ?thesis by (auto simp: le_less)
  qed
  have tr: "sb_tenant r = t" using r(2) by (simp add: in_force_def)
  have "entitled E d' t on = Some (entitlement_of q (closed day r))"
  proof (rule entitled_row [OF ok(2)])
    show "closed day r \<in> set (bd_subs d')" using r(1) tr by (auto simp: subs changed_rows)
    show "in_force t on (closed day r)"
      using r(2) wins by (auto simp: in_force_closed checks [OF r(1)] dates superseded_def)
    show "q \<in> set (bd_plans d')" "pl_id q = sb_plan (closed day r)" using q' q(2) by simp_all
    show "x = closed day r \<or> sb_starts x < sb_starts (closed day r)" if "x \<in> set (bd_subs d')" "in_force t on x" for x
    proof -
      from that(1) consider "x = new_subscription (change_id u t p day) t p day ''active''"
        | y where "y \<in> set (bd_subs d)" "x = (if sb_tenant y = t then closed day y else y)"
        by (auto simp: subs changed_rows)
      then show ?thesis
      proof cases
        case 1
        with that(2) wins show ?thesis by auto
      next
        case 2
        with that(2) have y: "sb_tenant y = t" "x = closed day y" by (auto simp: in_force_def split: if_splits)
        with that(2) 2 have "in_force t on y" by (simp add: in_force_closed checks dates)
        with strict [OF 2(1)] y show ?thesis by auto
      qed
    qed
  qed
  moreover have "entitled E d t on = Some (entitlement_of q r)"
    by (rule entitled_row [OF ok(1) r(1,2) q]) (use strict in auto)
  ultimately show ?thesis by (simp add: basis_closed)
qed

lemma entitled_after_new:
  assumes ok: "tables_ok d" "tables_ok d'" and same: "same_parents d d'"
    and subs: "bd_subs d' = changed u t (pl_id p) day (bd_subs d)" and p: "p \<in> set (bd_plans d)"
    and dates: "valid_date day" "valid_date on"
    and free: "\<And>x. x \<in> set (bd_subs d) \<Longrightarrow> sb_tenant x = t \<Longrightarrow> sb_starts x \<noteq> day"
    and day: "day \<le> on" "\<And>x. x \<in> set (bd_subs d) \<Longrightarrow> in_force t on x \<Longrightarrow> sb_starts x \<le> day"
  shows "entitled E d' t on = Some (entitlement_of p (new_subscription (change_id u t (pl_id p) day) t (pl_id p) day ''active''))"
proof (rule entitled_row [OF ok(2)])
  have checks: "x \<in> set (bd_subs d) \<Longrightarrow> sub_checks x \<and> valid_date (sb_starts x)" for x
    using ok(1) by (auto simp: tables_ok_def rows_ok_def)
  let ?new = "new_subscription (change_id u t (pl_id p) day) t (pl_id p) day ''active''"
  show "?new \<in> set (bd_subs d')" by (simp add: subs changed_rows)
  show "in_force t on ?new" using day(1) by simp
  show "p \<in> set (bd_plans d')" "pl_id p = sb_plan ?new" using p same by (simp_all add: same_parents_def)
  show "x = ?new \<or> sb_starts x < sb_starts ?new" if "x \<in> set (bd_subs d')" "in_force t on x" for x
  proof -
    from that(1) consider "x = ?new" | y where "y \<in> set (bd_subs d)" "x = (if sb_tenant y = t then closed day y else y)"
      by (auto simp: subs changed_rows)
    then show ?thesis
    proof cases
      case 2
      with that(2) have y: "sb_tenant y = t" "x = closed day y" by (auto simp: in_force_def split: if_splits)
      with that(2) 2 have "in_force t on y" by (simp add: in_force_closed checks dates)
      with day(2) 2(1) free [OF 2(1) y(1)] y show ?thesis by (auto simp: le_less)
    qed simp
  qed
qed


text \<open>The rows of the join, in the order of the table of subscriptions.\<close>

definition joined_from :: "billing_db \<Rightarrow> uuid \<Rightarrow> subscription_row list \<Rightarrow> entitlement_row list" where
  "joined_from d t rs = [entitlement_of p r. r \<leftarrow> rs, sb_tenant r = t, p \<leftarrow> bd_plans d, pl_id p = sb_plan r]"

lemma concat_map_select:
  "distinct ts \<Longrightarrow> concat (map (\<lambda>x. if x = t then f x else []) ts) = (if t \<in> set ts then f t else [])"
  by (induction ts) (auto simp: concat_eq_Nil_conv split: if_splits)

lemma concat_map_key:
  assumes "distinct (map k ps)" "q \<in> set ps"
  shows "concat (map (\<lambda>p. if k p = k q then [g p] else []) ps) = [g q]"
  using assms
proof (induction ps)
  case (Cons p ps)
  show ?case
  proof (cases "p = q")
    case True
    with Cons.prems(1) have "concat (map (\<lambda>p. if k p = k q then [g p] else []) ps) = []"
      by (auto simp: concat_eq_Nil_conv image_iff)
    with True show ?thesis by simp
  next
    case False
    with Cons.prems have "k p \<noteq> k q" "q \<in> set ps" "distinct (map k ps)" by (auto simp: image_iff)
    with Cons.IH show ?thesis by simp
  qed
qed simp

lemma joined_from: "tables_ok d \<Longrightarrow> t \<in> set (bd_tenants d) \<Longrightarrow> joined d t = joined_from d t (bd_subs d)"
  by (simp add: joined_def joined_from_def tables_ok_def concat_map_select)

lemma joined_from_append: "joined_from d t (rs @ rs') = joined_from d t rs @ joined_from d t rs'"
  by (simp add: joined_from_def)

lemma joined_from_row:
  assumes "tables_ok d" "sb_tenant r = t" "q \<in> set (bd_plans d)" "pl_id q = sb_plan r"
  shows "joined_from d t (r # rs) = entitlement_of q r # joined_from d t rs"
  using assms concat_map_key [of pl_id "bd_plans d" q "\<lambda>p. entitlement_of p r"]
  by (simp add: joined_from_def tables_ok_def)

lemma joined_from_starts:
  "x \<in> set (joined_from d t rs) \<Longrightarrow> \<exists>r \<in> set rs. sb_tenant r = t \<and> en_starts x = sb_starts r"
  by (auto simp: joined_from_def)

text \<open>The first of the rows in force that start last decides, if the rows come in their order.\<close>

lemma entitled_first:
  assumes ok: "tables_ok d" and order: "be_join_rank E = (\<lambda>_. 0)" and subs: "bd_subs d = rs @ r # rs'"
    and r: "in_force t on r" "q \<in> set (bd_plans d)" "pl_id q = sb_plan r"
    and before: "\<And>x. x \<in> set rs \<Longrightarrow> sb_tenant x = t \<Longrightarrow> sb_starts x < sb_starts r"
    and after: "\<And>x. x \<in> set rs' \<Longrightarrow> sb_tenant x = t \<Longrightarrow> sb_starts x \<le> sb_starts r"
  shows "entitled E d t on = Some (entitlement_of q r)"
proof -
  have tr: "sb_tenant r = t" "covers (sb_starts r) (sb_ends r) on" using r(1) by (simp_all add: in_force_def)
  have "t \<in> set (bd_tenants d)" using ok subs tr by (auto simp: tables_ok_def)
  then have j: "joined d t = joined_from d t rs @ entitlement_of q r # joined_from d t rs'"
    using ok tr r(2,3) by (simp add: joined_from subs joined_from_append joined_from_row)
  let ?e = "filter (\<lambda>x. en_tenant x = t \<and> covers (en_starts x) (en_ends x) on)"
  have "max_by en_starts (?e (joined_from d t rs) @ entitlement_of q r # ?e (joined_from d t rs')) = Some (entitlement_of q r)"
    using before after by (intro max_by_first) (auto dest!: joined_from_starts)
  moreover have "sort_key (\<lambda>_. 0 :: nat) (joined d t) = joined d t" by (rule sort_key_const)
  ultimately show ?thesis using tr by (simp add: entitled_def entitlement_def order j)
qed


section \<open>Repeated changes\<close>

definition request_ok :: "billing_env \<Rightarrow> billing_request \<Rightarrow> bool" where
  "request_ok E q = (case q of InternalReset \<Rightarrow> \<not> be_allow_reset E | PlanChange _ _ day \<Rightarrow> valid_date day | _ \<Rightarrow> True)"

lemma read_only_requests:
  "snd (api_health E l d) = d" "snd (api_plans E l d) = d" "snd (api_entitlement E l t day d) = d"
  by (auto simp: api_health_def api_plans_def api_entitlement_def with_connection_def tryP_eval thenP_eval bindP_eval
      postgres_repository_def pg_list_plans_def pg_find_entitlements_def split: link.splits option.splits prod.splits sum.splits)

lemma bind_ret_state: "snd (bindP m (\<lambda>a. retP (f a)) d) = snd (m d)"
  by (auto simp: bindP_eval split: prod.splits sum.splits)

lemma serve_keeps:
  assumes "request_ok E q" "tables_ok d"
  shows "tables_ok (snd (serve_billing E l q d)) \<and>
    sb_id ` set (bd_subs d) \<subseteq> sb_id ` set (bd_subs (snd (serve_billing E l q d)))"
proof (cases q)
  case (PlanChange t p day)
  obtain r d' where run: "api_plan_change E l t p day d = (r, d')" by (cases "api_plan_change E l t p day d")
  have day: "valid_date day" using assms(1) PlanChange by (simp add: request_ok_def)
  show ?thesis
  proof (cases r)
    case (Inl e)
    with run have "d' = d" by (auto dest: api_plan_change_refused)
    with run Inl PlanChange assms(2) show ?thesis by (simp add: bindP_eval)
  next
    case (Inr a)
    note c = api_plan_change_rows [OF run [unfolded Inr] assms(2) day]
    have "sb_id ` set (bd_subs d) \<subseteq> sb_id ` set (bd_subs d')" unfolding c(1) changed_def set_append image_Un closed_ids by blast
    with run Inr PlanChange c(3) show ?thesis by (simp add: bindP_eval)
  qed
next
  case InternalReset
  with assms show ?thesis by (simp add: bindP_eval api_reset_def request_ok_def)
qed (use assms in \<open>simp_all add: bind_ret_state read_only_requests\<close>)

lemma requests_keep:
  assumes "\<forall>q \<in> snd ` set qs. request_ok E q" "tables_ok d"
  shows "tables_ok (after_requests E qs d) \<and> sb_id ` set (bd_subs d) \<subseteq> sb_id ` set (bd_subs (after_requests E qs d))"
  using assms
proof (induction qs arbitrary: d)
  case (Cons lq qs)
  obtain l q where lq: "lq = (l, q)" by (cases lq)
  with Cons.prems serve_keeps [of E q d l] have
    "tables_ok (snd (serve_billing E l q d))" "sb_id ` set (bd_subs d) \<subseteq> sb_id ` set (bd_subs (snd (serve_billing E l q d)))"
    by auto
  with Cons.IH [of "snd (serve_billing E l q d)"] Cons.prems(1) lq show ?case by auto
qed simp

text \<open>C34. A plan change that was accepted once is answered with 409 whenever it is requested again, whatever
  other requests came in between (but a reset), and the repetition changes nothing: neither are the
  subscriptions closed again nor is a second one stored.
\<close>

theorem repeated_change_conflicts:
  assumes "tables_ok d" "valid_date day" "api_plan_change E l t p day d = (Inr ans, d')"
    and "\<forall>q \<in> snd ` set qs. request_ok E q" "l' \<noteq> Down"
  shows "api_plan_change E l' t p day (after_requests E qs d') =
    (Inl (HttpError 409 ''this plan change has already been requested''), after_requests E qs d')"
proof -
  note c = api_plan_change_rows [OF assms(3,1,2)]
  let ?d = "after_requests E qs d'"
  have "change_id (be_uuid5 E) t p day \<in> sb_id ` set (bd_subs d')" by (simp add: c(1) changed_def)
  with requests_keep [OF assms(4) c(3)] have
      ok: "tables_ok ?d" and taken: "change_id (be_uuid5 E) t p day \<in> sb_id ` set (bd_subs ?d)" by auto
  from ok have "rows_ok (bd_subs ?d)" by (simp add: tables_ok_def)
  from pg.change_plan_taken [OF this assms(2) taken, of E] obtain d1 where
      "change_plan (postgres_repository E) (be_uuid5 E) t p day ?d = (Inl UniqueViolation, d1)"
    by (cases "change_plan (postgres_repository E) (be_uuid5 E) t p day ?d") auto
  with assms(5) show ?thesis
    by (cases l') (simp_all add: api_plan_change_def tryP_eval with_connection_def bindP_eval change_handler_def)
qed

section \<open>A sample\<close>

definition sample_plan :: "uuid \<Rightarrow> string \<Rightarrow> nat \<Rightarrow> plan_row" where
  "sample_plan i code fee = \<lparr>pl_id = i, pl_code = code, pl_tier = ''growth'', pl_fee = fee, pl_units = 100,
     pl_rate = 35000, pl_active = True\<rparr>"

definition sample_subscription :: "uuid \<Rightarrow> uuid \<Rightarrow> subscription_row" where
  "sample_subscription i p = \<lparr>sb_id = i, sb_tenant = 1, sb_plan = p, sb_starts = Date 2026 1 1, sb_ends = None,
     sb_status = ''suspended'', sb_suspended = None\<rparr>"

definition sample_tables :: billing_db where
  "sample_tables = \<lparr>bd_tenants = [1, 2], bd_plans = [sample_plan 10 ''STARTER'' 4900, sample_plan 11 ''GROWTH'' 14900],
     bd_subs = [sample_subscription 20 10]\<rparr>"

definition sample_billing :: billing_env where
  "sample_billing = \<lparr>be_uuid5 = (\<lambda>_ _. 77), be_plan_rank = (\<lambda>_. 0), be_sub_rank = (\<lambda>_. 0), be_join_rank = (\<lambda>_. 0),
     be_allow_reset = False, be_seed = sample_tables, be_app_name = ''billing-service''\<rparr>"

definition sample_change :: "date \<Rightarrow> (billing_error + dict) \<times> billing_db" where
  "sample_change day = api_plan_change sample_billing Up 1 11 day sample_tables"

lemma sample_tables_ok: "tables_ok sample_tables"
  by (simp add: tables_ok_def rows_ok_def sub_checks_def sample_tables_def sample_subscription_def sample_plan_def
      valid_date_iff days_in_month_def)

lemmas sample_evaluation =
  sample_change_def api_plan_change_def tryP_eval with_connection_def bindP_eval thenP_eval change_plan_def
  postgres_repository_def pg_list_subscriptions_def pg_update_subscription_def pg_insert_subscription_def
  close_subscription_def superseded_def next_status_def sample_billing_def sample_tables_def sample_subscription_def
  sample_plan_def sub_checks_def ended_def new_subscription_def less_date_def less_eq_date_def pred_day_def
  change_id_def days_in_month_def is_leap_def

lemma sample_changes:
  "\<exists>ans d'. sample_change (Date 2026 3 1) = (Inr ans, d')" "\<exists>ans d'. sample_change (Date 2026 1 1) = (Inr ans, d')"
  by (simp_all add: sample_evaluation)



lemma repeated_change_conflicts_witness:
  "\<exists>ans d'. sample_change (Date 2026 3 1) = (Inr ans, d') \<and>
     (let d = after_requests sample_billing [(Up, ListPlans), (Up, PlanChange 2 10 (Date 2026 5 1))] d' in
      api_plan_change sample_billing CommitFails 1 11 (Date 2026 3 1) d =
        (Inl (HttpError 409 ''this plan change has already been requested''), d))"
proof -
  obtain ans d' where run: "sample_change (Date 2026 3 1) = (Inr ans, d')" using sample_changes(1) by blast
  have days: "valid_date (Date 2026 3 1)" "valid_date (Date 2026 5 1)"
    by (simp_all add: valid_date_iff days_in_month_def)
  from repeated_change_conflicts [OF sample_tables_ok days(1) run [unfolded sample_change_def],
      of "[(Up, ListPlans), (Up, PlanChange 2 10 (Date 2026 5 1))]" CommitFails] days(2) run
  show ?thesis by (intro exI [of _ ans] exI [of _ d']) (simp add: request_ok_def Let_def)
qed

end
