(* ===== verification/Billing_Procs.thy ===== *)
theory Billing_Procs
  imports Billing_Change
begin

text \<open>
  The billing service replaces the module \<open>plans\<close> of the stored procedures in
  \<open>services/legacy-billing/db/procs/plans.sql\<close>. Here are those procedures, as statements over the same tables, and
  the agreement of the service with them: of a plan change with \<open>sp_change_plan\<close>, of the entitlement with
  \<open>fn_entitlement\<close> and of the catalog with \<open>fn_list_plans\<close>.
\<close>

section \<open>The procedures\<close>

definition fn_list_plans :: "billing_env \<Rightarrow> billing_db \<Rightarrow> plan_row list" where
  "fn_list_plans E d = sort_key (\<lambda>p. (pl_fee p, pl_code p)) (filter pl_active (sort_key (be_plan_rank E) (bd_plans d)))"

text \<open>\<open>ORDER BY starts_on DESC LIMIT 1\<close>, and the selected columns with \<open>GREATEST(s.starts_on, p_on)\<close>\<close>

definition fn_entitlement :: "billing_env \<Rightarrow> uuid \<Rightarrow> date \<Rightarrow> billing_db \<Rightarrow> (entitlement_row \<times> date) option" where
  "fn_entitlement E t day d =
     (case rev (sort_key en_starts (rev (filter (\<lambda>r. covers (en_starts r) (en_ends r) day)
         (sort_key (be_join_rank E) (joined d t))))) of
       [] \<Rightarrow> None
     | r # _ \<Rightarrow> Some (r, max (en_starts r) day))"

text \<open>One statement over all open subscriptions of the tenant; dates before the year 1 are not in the type.\<close>

definition open_before :: "uuid \<Rightarrow> date \<Rightarrow> subscription_row \<Rightarrow> bool" where
  "open_before t day r \<longleftrightarrow> sb_tenant r = t \<and> sb_ends r = None \<and> sb_starts r < day"

definition set_ended :: "date \<Rightarrow> subscription_row \<Rightarrow> subscription_row" where
  "set_ended before r = ended before (if sb_status r = ''cancelled'' then sb_status r else ''active'') r"

definition update_open :: "uuid \<Rightarrow> date \<Rightarrow> (billing_db, unit) billing" where
  "update_open t day = (\<lambda>d.
     if list_ex (open_before t day) (bd_subs d) then
       (case pred_day day of
          None \<Rightarrow> (Inl DateOverflow, d)
        | Some before \<Rightarrow>
            if \<forall>r \<in> set (bd_subs d). open_before t day r \<longrightarrow> sub_checks (set_ended before r)
            then (Inr (), d\<lparr>bd_subs := map (\<lambda>r. if open_before t day r then set_ended before r else r) (bd_subs d)\<rparr>)
            else (Inl CheckViolation, d))
     else (Inr (), d))"

definition legacy_id :: "(string \<Rightarrow> uuid) \<Rightarrow> uuid \<Rightarrow> uuid \<Rightarrow> date \<Rightarrow> uuid" where
  "legacy_id md5 t p day = md5 (str_uuid t @ str_uuid p @ isoformat day)"

definition sp_change_plan :: "(string \<Rightarrow> uuid) \<Rightarrow> uuid \<Rightarrow> uuid \<Rightarrow> date \<Rightarrow> (billing_db, unit) billing" where
  "sp_change_plan md5 t p day = with_connection Up
     (thenP (update_open t day) (pg_insert_subscription (legacy_id md5 t p day) t p day ''active''))"

section \<open>The plan change in full\<close>

definition closed_rows :: "uuid \<Rightarrow> date \<Rightarrow> subscription_row list \<Rightarrow> subscription_row list" where
  "closed_rows t day rs = map (\<lambda>r. if sb_tenant r = t then closed day r else r) rs"

lemma closed_rows_ids: "sb_id ` set (closed_rows t day rs) = sb_id ` set rs"
  unfolding closed_rows_def by (rule closed_ids)

lemma set_ended_closed:
  assumes "rows_ok rs" "r \<in> set rs" "open_before t day r" "valid_date day"
  obtains before where "pred_day day = Some before" "sub_checks (set_ended before r)" "set_ended before r = closed day r"
proof -
  have "sub_checks r" "valid_date (sb_starts r)" "superseded day r"
    using assms by (auto simp: rows_ok_def open_before_def superseded_def)
  from closed_checks [OF this(1,2) assms(4) this(3)] obtain b where
      "pred_day day = Some b" "sub_checks (ended b (next_status (sb_status r)) r)" "closed day r = ended b (next_status (sb_status r)) r"
    by metis
  then show ?thesis by (intro that [of b]) (simp_all add: set_ended_def next_status_def)
qed

lemma update_open_closed:
  assumes "rows_ok (bd_subs d)" "valid_date day"
  shows "update_open t day d = (Inr (), d\<lparr>bd_subs := closed_rows t day (bd_subs d)\<rparr>)"
proof -
  have rest: "(if sb_tenant r = t then closed day r else r) = r" if "\<not> open_before t day r" for r
    using that by (auto simp: closed_def superseded_def open_before_def)
  show ?thesis
  proof (cases "list_ex (open_before t day) (bd_subs d)")
    case False
    then have "closed_rows t day (bd_subs d) = bd_subs d"
      unfolding closed_rows_def using rest by (intro map_idI) (auto simp: list_ex_iff)
    with False show ?thesis by (simp add: update_open_def)
  next
    case True
    then obtain before where before: "pred_day day = Some before"
      using set_ended_closed [OF assms(1) _ _ assms(2)] by (metis list_ex_iff)
    have each: "sub_checks (set_ended before r) \<and> set_ended before r = closed day r"
      if "r \<in> set (bd_subs d)" "open_before t day r" for r
      using set_ended_closed [OF assms(1) that assms(2)] before by (metis option.inject)
    have "map (\<lambda>r. if open_before t day r then set_ended before r else r) (bd_subs d) = closed_rows t day (bd_subs d)"
      unfolding closed_rows_def
    proof (rule map_cong [OF refl])
      fix r assume "r \<in> set (bd_subs d)"
      then show "(if open_before t day r then set_ended before r else r) = (if sb_tenant r = t then closed day r else r)"
        using each [of r] rest [of r] by (cases "open_before t day r") (auto simp: open_before_def)
    qed
    moreover have "\<forall>r \<in> set (bd_subs d). open_before t day r \<longrightarrow> sub_checks (set_ended before r)" using each by blast
    ultimately show ?thesis using True before by (simp add: update_open_def)
  qed
qed

lemma pg_close_tenant:
  assumes "rows_ok (bd_subs d)" "valid_date day"
  obtains xs where "rp_list_subscriptions (postgres_repository E) t d = (Inr xs, d)"
    "forP xs (close_subscription (postgres_repository E) day) d =
       (Inr (), d\<lparr>bd_subs := closed_rows t day (bd_subs d)\<rparr>)"
proof -
  obtain xs where xs: "rp_list_subscriptions (postgres_repository E) t d = (Inr xs, d)"
      "mset xs = mset (filter (\<lambda>r. sb_tenant r = t) (bd_subs d))"
    by (simp add: postgres_repository_def pg_list_subscriptions_def)
  obtain d1 where d1: "forP xs (close_subscription (postgres_repository E) day) d = (Inr (), d1)"
      "bd_subs d1 = closed_rows t day (bd_subs d)"
    using pg.close_tenant [OF assms(1) xs(2) assms(2)] unfolding closed_rows_def by blast
  have "same_parents d d1" using pg_loop_parents [of d xs E day] d1(1) by simp
  then have "d1 = d\<lparr>bd_subs := closed_rows t day (bd_subs d)\<rparr>"
    using d1(2) by (simp add: same_parents_def)
  with xs(1) d1(1) that show ?thesis by blast
qed

lemma sp_change_plan_cases:
  assumes "tables_ok d" "valid_date day"
  shows "sp_change_plan md5 t p day d =
    (if legacy_id md5 t p day \<in> sb_id ` set (bd_subs d) then (Inl UniqueViolation, d)
     else if t \<notin> set (bd_tenants d) \<or> p \<notin> pl_id ` set (bd_plans d) then (Inl ForeignKeyViolation, d)
     else (Inr (), d\<lparr>bd_subs := closed_rows t day (bd_subs d) @
       [new_subscription (legacy_id md5 t p day) t p day ''active'']\<rparr>))"
proof -
  have ok: "rows_ok (bd_subs d)" using assms(1) by (simp add: tables_ok_def)
  show ?thesis
    unfolding sp_change_plan_def with_connection_def thenP_eval update_open_closed [OF ok assms(2)]
    by (simp add: pg_insert_subscription_def closed_rows_ids)
qed

lemma api_plan_change_cases:
  assumes "tables_ok d" "valid_date day"
    and i_def: "i = change_id (be_uuid5 E) t p day"
    and d'_def: "d' = d\<lparr>bd_subs := closed_rows t day (bd_subs d) @ [new_subscription i t p day ''active'']\<rparr>"
  shows "i \<in> sb_id ` set (bd_subs d) \<Longrightarrow>
      api_plan_change E Up t p day d = (Inl (HttpError 409 ''this plan change has already been requested''), d)"
    and "i \<notin> sb_id ` set (bd_subs d) \<Longrightarrow> t \<notin> set (bd_tenants d) \<or> p \<notin> pl_id ` set (bd_plans d) \<Longrightarrow>
      api_plan_change E Up t p day d = (Inl (HttpError 400 ''invalid plan change''), d)"
    and "i \<notin> sb_id ` set (bd_subs d) \<Longrightarrow> t \<in> set (bd_tenants d) \<Longrightarrow> p \<in> pl_id ` set (bd_plans d) \<Longrightarrow>
      \<exists>ans. api_plan_change E Up t p day d = (Inr ans, d')"
proof -
  have ok: "rows_ok (bd_subs d)" using assms(1) by (simp add: tables_ok_def)
  let ?R = "postgres_repository E"
  let ?rows = "closed_rows t day (bd_subs d)"
  obtain xs where xs: "rp_list_subscriptions ?R t d = (Inr xs, d)"
      "forP xs (close_subscription ?R day) d = (Inr (), d\<lparr>bd_subs := ?rows\<rparr>)"
    using pg_close_tenant [OF ok assms(2)] by blast
  have ids: "sb_id ` set ?rows = sb_id ` set (bd_subs d)" by (rule closed_rows_ids)
  have run: "change_plan ?R (be_uuid5 E) t p day d =
      thenP (rp_insert_subscription ?R i t p day ''active'') (bindP (rp_list_subscriptions ?R t) (\<lambda>rows'.
        case find (\<lambda>r. sb_id r = i) (sort_key sb_starts rows') of
          None \<Rightarrow> raiseP StopIteration | Some created \<Rightarrow> retP (sort_key sb_starts rows', created))) (d\<lparr>bd_subs := ?rows\<rparr>)"
    unfolding change_plan_def i_def [symmetric] Let_def bindP_eval [of "rp_list_subscriptions ?R t" _ d] xs(1)
    by (simp add: thenP_eval [of "forP xs (close_subscription ?R day)"] xs(2))
  have api: "api_plan_change E Up t p day d = (case change_plan ?R (be_uuid5 E) t p day d of
       (Inl e, _) \<Rightarrow> change_handler e d | (Inr res, d1) \<Rightarrow> (Inr (change_json res), d1))"
    by (auto simp: api_plan_change_def tryP_eval with_connection_def bindP_eval split: prod.splits sum.splits)
  have insert: "rp_insert_subscription ?R i t p day ''active'' (d\<lparr>bd_subs := ?rows\<rparr>) =
      (if i \<in> sb_id ` set (bd_subs d) then (Inl UniqueViolation, d\<lparr>bd_subs := ?rows\<rparr>)
       else if t \<notin> set (bd_tenants d) \<or> p \<notin> pl_id ` set (bd_plans d) then (Inl ForeignKeyViolation, d\<lparr>bd_subs := ?rows\<rparr>)
       else (Inr (), d'))"
    unfolding d'_def using ids by (simp add: postgres_repository_def pg_insert_subscription_def)
  show "i \<in> sb_id ` set (bd_subs d) \<Longrightarrow>
      api_plan_change E Up t p day d = (Inl (HttpError 409 ''this plan change has already been requested''), d)"
    unfolding api run thenP_eval insert by (simp add: change_handler_def)
  show "i \<notin> sb_id ` set (bd_subs d) \<Longrightarrow> t \<notin> set (bd_tenants d) \<or> p \<notin> pl_id ` set (bd_plans d) \<Longrightarrow>
      api_plan_change E Up t p day d = (Inl (HttpError 400 ''invalid plan change''), d)"
    unfolding api run thenP_eval insert by (simp add: change_handler_def)
  assume free: "i \<notin> sb_id ` set (bd_subs d)" "t \<in> set (bd_tenants d)" "p \<in> pl_id ` set (bd_plans d)"
  obtain ys where ys: "rp_list_subscriptions ?R t d' = (Inr ys, d')"
      "mset ys = mset (filter (\<lambda>r. sb_tenant r = t) (bd_subs d'))"
    by (simp add: postgres_repository_def pg_list_subscriptions_def)
  have "new_subscription i t p day ''active'' \<in> set ys" using mset_eq_setD [OF ys(2)] by (simp add: d'_def)
  then obtain c where "find (\<lambda>r. sb_id r = i) (sort_key sb_starts ys) = Some c"
    by (cases "find (\<lambda>r. sb_id r = i) (sort_key sb_starts ys)") (auto simp: find_None_iff)
  then show "\<exists>ans. api_plan_change E Up t p day d = (Inr ans, d')"
    unfolding api run thenP_eval insert using free by (simp add: bindP_eval ys(1))
qed

section \<open>Parity\<close>

text \<open>What a recording compares: the columns of a row but its identifier.\<close>

definition probe :: "subscription_row \<Rightarrow> uuid \<times> uuid \<times> date \<times> date option \<times> string \<times> date option" where
  "probe r = (sb_tenant r, sb_plan r, sb_starts r, sb_ends r, sb_status r, sb_suspended r)"

lemma entitled_probe:
  assumes "map probe (bd_subs d1) = map probe (bd_subs d2)" "same_parents d1 d2"
  shows "entitled E d1 t on = entitled E d2 t on"
proof -
  have "joined d1 t = joined d2 t"
  proof -
    define row where "row ps = (\<lambda>(te, pl, st, en, status, su :: date option). if te = t then
        concat (map (\<lambda>p. if pl_id p = pl then [\<lparr>en_tenant = te, en_code = pl_code p, en_tier = pl_tier p, en_fee = pl_fee p,
          en_units = pl_units p, en_status = status, en_ends = en, en_starts = st\<rparr>] else []) ps) else [])" for ps :: "plan_row list"
    have j: "joined d t = concat (map (\<lambda>t'. if t' = t then concat (map (row (bd_plans d)) (map probe (bd_subs d))) else []) (bd_tenants d))" for d
      unfolding joined_def by (rule arg_cong [where f = concat])
        (auto simp: row_def probe_def entitlement_of_def comp_def intro!: map_cong arg_cong [where f = concat])
    show ?thesis using assms unfolding j same_parents_def by (simp only:)
  qed
  then show ?thesis by (simp add: entitled_def)
qed


lemma max_by_snoc: "max_by k (xs @ [y]) = (case max_by k xs of None \<Rightarrow> Some y | Some m \<Rightarrow> if k m < k y then Some y else Some m)"
  by (induction xs) (auto split: option.splits)

lemma insort_key_last:
  "xs \<noteq> [] \<Longrightarrow> sorted (map k xs) \<Longrightarrow> last (insort_key k y xs) = (if k (last xs) < k y then y else last xs)"
proof (induction xs)
  case (Cons x xs)
  show ?case
  proof (cases "xs = []")
    case False
    then have "k x \<le> k (last xs)" using Cons.prems(2) by simp
    then have "k y \<le> k x \<Longrightarrow> \<not> k (last xs) < k y" by (auto dest: order_trans)
    with False Cons show ?thesis by (cases "k y \<le> k x") auto
  qed (auto simp: not_le)
qed simp

text \<open>\<open>max\<close> in Python and \<open>ORDER BY ... DESC LIMIT 1\<close> over rows in the same order.\<close>

lemma max_by_sort: "max_by k (rev xs) = (if xs = [] then None else Some (last (sort_key k xs)))"
proof (induction xs)
  case (Cons y ys)
  have "ys \<noteq> [] \<Longrightarrow> sort_key k ys \<noteq> []" by (metis length_0_conv length_sort)
  with Cons insort_key_last [of "sort_key k ys" k y] show ?case by (cases "ys = []") (auto simp: max_by_snoc)
qed simp

lemma max_by_sorted: "max_by k (rev xs) = (case rev (sort_key k xs) of [] \<Rightarrow> None | x # _ \<Rightarrow> Some x)"
proof -
  have "(case rev zs of [] \<Rightarrow> None | x # _ \<Rightarrow> Some x) = (if zs = [] then None else Some (last zs))" for zs :: "'a list"
    by (cases zs rule: rev_cases) auto
  moreover have "sort_key k xs = [] \<longleftrightarrow> xs = []" by (metis length_0_conv length_sort)
  ultimately show ?thesis by (simp only: max_by_sort)
qed


section \<open>A sample\<close>

definition sample_procedure :: "(billing_error + unit) \<times> billing_db" where
  "sample_procedure = sp_change_plan (\<lambda>_. 88) 1 11 (Date 2026 3 1) sample_tables"


end
