(* ===== verification/Etl_Cloud.thy ===== *)
theory Etl_Cloud
  imports Py_Date Py_Json
begin

text \<open>
  What the jobs under \<open>etl/scripts\<close> use of the cloud: the objects of the buckets (S3), the items of the
  tables (DynamoDB) and the messages of a queue (SQS). Every call counts one tick and may fail; the size of
  a page of a scan, how much of a failing batch was carried out, and how many messages a call receives are
  arguments. The encoders of the standard library (\<open>json.dumps\<close>, \<open>gzip\<close>) and the clock's day are arguments
  too.
\<close>

section \<open>State and calls\<close>

datatype etl_error = AwsError string | KeyError string | BadType string | EncodeError | OutOfRange | QueryFailed

text \<open>An object is addressed by its bucket and key; a message is its identifier and body.\<close>

type_synonym address = "string \<times> string"

record cloud =
  cl_objects :: "(address \<times> string) list"
  cl_tables :: "string \<Rightarrow> dict list"
  cl_queue :: "(string \<times> string) list"
  cl_taken :: "(string \<times> string) list"
  cl_tick :: nat

record etl_env =
  ee_fails :: "nat \<Rightarrow> bool"
  ee_page :: "nat \<Rightarrow> nat"
  ee_applied :: "nat \<Rightarrow> nat"
  ee_arrive :: "nat \<Rightarrow> nat"
  ee_today :: date
  ee_dumps :: "dict \<Rightarrow> string option"
  ee_loads :: "string \<Rightarrow> json option"
  ee_gzip :: "string \<Rightarrow> string"
  ee_report :: "dict \<Rightarrow> string"
  ee_files :: string
  ee_quarantine :: string
  ee_lake :: string
  ee_archive :: string

type_synonym 'a job = "(cloud, etl_error, 'a) prog"

definition call :: "etl_env \<Rightarrow> string \<Rightarrow> unit job" where
  "call E what = (\<lambda>s. (if ee_fails E (cl_tick s) then Inl (AwsError what) else Inr (), s\<lparr>cl_tick := Suc (cl_tick s)\<rparr>))"

definition object_at :: "cloud \<Rightarrow> string \<Rightarrow> string \<Rightarrow> string option" where
  "object_at s bucket key = map_of (cl_objects s) (bucket, key)"

definition put_object :: "etl_env \<Rightarrow> string \<Rightarrow> string \<Rightarrow> string \<Rightarrow> unit job" where
  "put_object E bucket key body = thenP (call E ''PutObject'')
     (modP (\<lambda>s. s\<lparr>cl_objects := AList.update (bucket, key) body (cl_objects s)\<rparr>))"

definition copy_object :: "etl_env \<Rightarrow> string \<Rightarrow> string \<Rightarrow> string \<Rightarrow> string \<Rightarrow> unit job" where
  "copy_object E bucket key from_bucket from_key = thenP (call E ''CopyObject'')
     (bindP (getP (\<lambda>s. object_at s from_bucket from_key)) (\<lambda>found. case found of
        None \<Rightarrow> raiseP (AwsError ''NoSuchKey'')
      | Some body \<Rightarrow> modP (\<lambda>s. s\<lparr>cl_objects := AList.update (bucket, key) body (cl_objects s)\<rparr>)))"

definition delete_object :: "etl_env \<Rightarrow> string \<Rightarrow> string \<Rightarrow> unit job" where
  "delete_object E bucket key = thenP (call E ''DeleteObject'')
     (modP (\<lambda>s. s\<lparr>cl_objects := AList.delete (bucket, key) (cl_objects s)\<rparr>))"

text \<open>The keys of a bucket with a prefix, in order.\<close>

definition keys_of :: "cloud \<Rightarrow> string \<Rightarrow> string \<Rightarrow> string list" where
  "keys_of s bucket prefix =
     sort (remdups [k. ((b, k), _) \<leftarrow> cl_objects s, b = bucket, take (length prefix) k = prefix])"

definition object_size :: "cloud \<Rightarrow> string \<Rightarrow> string \<Rightarrow> nat" where
  "object_size s bucket key = (case object_at s bucket key of None \<Rightarrow> 0 | Some body \<Rightarrow> length body)"

definition list_objects :: "etl_env \<Rightarrow> string \<Rightarrow> string \<Rightarrow> (string \<times> nat) list job" where
  "list_objects E bucket prefix = thenP (call E ''ListObjectsV2'')
     (getP (\<lambda>s. map (\<lambda>k. (k, object_size s bucket k)) (keys_of s bucket prefix)))"

text \<open>
  The loop over the pages of a scan: a page holds the selected ones among at least one further item, and
  \<open>LastEvaluatedKey\<close> is absent when the table is exhausted.
\<close>

function scan_from :: "etl_env \<Rightarrow> string \<Rightarrow> (dict \<Rightarrow> bool) \<Rightarrow> nat \<Rightarrow> dict list \<Rightarrow> dict list job" where
  "scan_from E table select start found s =
     (let s' = s\<lparr>cl_tick := Suc (cl_tick s)\<rparr>; n = Suc (ee_page E (cl_tick s)); items = cl_tables s table in
      if ee_fails E (cl_tick s) then (Inl (AwsError ''Scan''), s')
      else let found' = found @ filter select (take n (drop start items)) in
        if start + n < length items then scan_from E table select (start + n) found' s' else (Inr found', s'))"
  by pat_completeness auto

termination
  by (relation "measure (\<lambda>(E, table, select, start, found, s). length (cl_tables s table) - start)") auto

declare scan_from.simps [simp del]

definition scan :: "etl_env \<Rightarrow> string \<Rightarrow> (dict \<Rightarrow> bool) \<Rightarrow> dict list job" where
  "scan E table select = scan_from E table select 0 []"

section \<open>Dates and texts of the jobs\<close>

text \<open>\<open>d - timedelta(days=n)\<close>\<close>

fun days_before :: "nat \<Rightarrow> date \<Rightarrow> date option" where
  "days_before 0 d = Some d"
| "days_before (Suc n) d = (case pred_day d of None \<Rightarrow> None | Some e \<Rightarrow> days_before n e)"

section \<open>Facts\<close>

lemma call_state: "call E what s = (r, s') \<Longrightarrow> s' = s\<lparr>cl_tick := Suc (cl_tick s)\<rparr>"
  by (auto simp: call_def)

lemma object_at_tick [simp]: "object_at (s\<lparr>cl_tick := n\<rparr>) b k = object_at s b k"
  by (simp add: object_at_def)

text \<open>A scan reads: it leaves objects and tables alone, and finds the selected items in order.\<close>

lemma scan_from_state: "scan_from E table select start found s = (r, s') \<Longrightarrow> \<exists>n. s' = s\<lparr>cl_tick := n\<rparr>"
proof (induction E table select start found s arbitrary: r s' rule: scan_from.induct)
  case (1 E table select start found s)
  show ?case
    using "1.prems" "1.IH" [OF refl refl refl _ refl, of r s']
    by (subst (asm) scan_from.simps) (auto simp: Let_def split: if_splits)
qed

lemma scan_from_finds:
  "scan_from E table select start found s = (Inr xs, s') \<Longrightarrow>
     xs = found @ filter select (drop start (cl_tables s table))"
proof (induction E table select start found s arbitrary: xs s' rule: scan_from.induct)
  case (1 E table select start found s)
  let ?n = "Suc (ee_page E (cl_tick s))" and ?items = "cl_tables s table"
  have split: "drop start ?items = take ?n (drop start ?items) @ drop (start + ?n) ?items"
    by (metis append_take_drop_id drop_drop add.commute)
  have filters: "filter select (drop start ?items) =
      filter select (take ?n (drop start ?items)) @ filter select (drop (start + ?n) ?items)"
    by (subst split) (simp only: filter_append)
  let ?s = "s\<lparr>cl_tick := Suc (cl_tick s)\<rparr>"
  have run: "\<not> ee_fails E (cl_tick s)"
    "(if start + ?n < length ?items then scan_from E table select (start + ?n) (found @ filter select (take ?n (drop start ?items))) ?s
      else (Inr (found @ filter select (take ?n (drop start ?items))), ?s)) = (Inr xs, s')"
    using "1.prems" unfolding scan_from.simps [of E table select start found s] Let_def by (simp_all split: if_splits)
  show ?case
  proof (cases "start + ?n < length ?items")
    case True
    have "xs = (found @ filter select (take ?n (drop start ?items))) @ filter select (drop (start + ?n) (cl_tables ?s table))"
      using "1.IH" [OF refl refl refl run(1) refl True] run(2) True by simp
    then show ?thesis unfolding filters by simp
  next
    case False
    with run(2) have "xs = found @ filter select (take ?n (drop start ?items))" by simp
    moreover from False have "drop (start + ?n) ?items = []" by simp
    ultimately show ?thesis unfolding filters by simp
  qed
qed

lemma scan_state: "scan E table select s = (r, s') \<Longrightarrow> \<exists>n. s' = s\<lparr>cl_tick := n\<rparr>"
  unfolding scan_def by (rule scan_from_state)

lemma scan_finds: "scan E table select s = (Inr xs, s') \<Longrightarrow> xs = filter select (cl_tables s table)"
  unfolding scan_def by (drule scan_from_finds) simp

text \<open>A put either fails and changes nothing, or sets its object.\<close>

lemma put_object_result:
  assumes "put_object E b k body s = (r, s')"
  shows "cl_tables s' = cl_tables s"
    "(\<exists>e. r = Inl e) \<and> cl_objects s' = cl_objects s \<or> r = Inr () \<and> map_of (cl_objects s') = (map_of (cl_objects s))((b, k) \<mapsto> body)"
  using assms by (auto simp: put_object_def thenP_eval call_def update_conv' split: if_splits)

section \<open>A sample\<close>

text \<open>Encoders that take the identifier of an event for its text; the listed calls fail.\<close>

definition sample_etl :: "nat list \<Rightarrow> etl_env" where
  "sample_etl failing = \<lparr>ee_fails = (\<lambda>n. n \<in> set failing), ee_page = (\<lambda>_. 99), ee_applied = (\<lambda>_. 1), ee_arrive = (\<lambda>_. 0),
     ee_today = Date 2026 6 1,
     ee_dumps = (\<lambda>d. case map_of d ''event_id'' of Some (JStr i) \<Rightarrow> Some i | _ \<Rightarrow> None),
     ee_loads = (\<lambda>s. if s = [] then None else Some (JDict [(''event_id'', JStr s)])),
     ee_gzip = (\<lambda>s. s), ee_report = (\<lambda>_. ''report''), ee_files = ''files-bucket'', ee_quarantine = ''quarantine'',
     ee_lake = ''lake'', ee_archive = ''archive''\<rparr>"

lemma sample_etl_names: "ee_today (sample_etl l) = Date 2026 6 1" "ee_archive (sample_etl l) = ''archive''"
  "ee_files (sample_etl l) = ''files-bucket''" "ee_quarantine (sample_etl l) = ''quarantine''" "ee_lake (sample_etl l) = ''lake''"
  by (simp_all only: sample_etl_def etl_env.simps)

definition sample_cloud :: "(address \<times> string) list \<Rightarrow> dict list \<Rightarrow> (string \<times> string) list \<Rightarrow> cloud" where
  "sample_cloud objs items msgs = \<lparr>cl_objects = objs, cl_tables = (\<lambda>_. items), cl_queue = msgs, cl_taken = [], cl_tick = 0\<rparr>"

end
