(* ===== verification/Etl_Archive.thy ===== *)
theory Etl_Archive
  imports Etl_Cloud
begin

text \<open>
  The weekly archival of audit events (\<open>etl/scripts/audit_archive_weekly.py\<close>): old events are scanned,
  written to one compressed object, and deleted in batches whose failures are ignored. A run never loses an
  event; a second run on the same day does.
\<close>

section \<open>The job\<close>

definition audit_table :: string where
  "audit_table = ''otterworks-audit-events''"

definition retention_days :: nat where
  "retention_days = 90"

definition dynamodb_batch_size :: nat where
  "dynamodb_batch_size = 25"

definition cutoff_of :: "date \<Rightarrow> etl_error + string" where
  "cutoff_of today = (case days_before retention_days today of
       None \<Rightarrow> Inl OutOfRange
     | Some d \<Rightarrow> Inr (isoformat d @ ''T00:00:00Z''))"

text \<open>\<open>#ts < :cutoff\<close> holds for texts only.\<close>

definition older :: "string \<Rightarrow> dict \<Rightarrow> bool" where
  "older cutoff item = (case map_of item ''timestamp'' of Some (JStr ts) \<Rightarrow> ts < cutoff | _ \<Rightarrow> False)"

definition archive_key :: "date \<Rightarrow> string" where
  "archive_key today = ''audit-archive/year='' @ take 4 (isoformat today) @ ''/week='' @ isoformat today @
     ''/audit_events.jsonl.gz''"

definition encode_event :: "etl_env \<Rightarrow> dict \<Rightarrow> etl_error + string" where
  "encode_event E event = (case ee_dumps E event of None \<Rightarrow> Inl EncodeError | Some l \<Rightarrow> Inr (l @ [CHR 0x0A]))"

definition archive_body :: "etl_env \<Rightarrow> dict list \<Rightarrow> etl_error + string" where
  "archive_body E events = bindE (mapE (encode_event E) events) (\<lambda>ls. Inr (ee_gzip E (concat ls)))"

type_synonym event_id = "json \<times> json"

definition event_key :: "dict \<Rightarrow> etl_error + event_id" where
  "event_key event = (case map_of event ''event_id'' of
       None \<Rightarrow> Inl (KeyError ''event_id'')
     | Some i \<Rightarrow> (case map_of event ''timestamp'' of
         None \<Rightarrow> Inl (KeyError ''timestamp'')
       | Some ts \<Rightarrow> Inr (i, ts)))"

text \<open>\<open>with table.batch_writer()\<close>: a write that fails may have deleted some of its items.\<close>

definition without_keys :: "event_id list \<Rightarrow> dict list \<Rightarrow> dict list" where
  "without_keys ks items = filter (\<lambda>i. case event_key i of Inr k \<Rightarrow> k \<notin> set ks | Inl _ \<Rightarrow> True) items"

definition delete_batch :: "etl_env \<Rightarrow> event_id list \<Rightarrow> unit job" where
  "delete_batch E batch = (\<lambda>s.
     let fails = ee_fails E (cl_tick s);
         ks = (if fails then take (ee_applied E (cl_tick s)) batch else batch)
     in (if fails then Inl (AwsError ''BatchWriteItem'') else Inr (),
         s\<lparr>cl_tables := (cl_tables s)(audit_table := without_keys ks (cl_tables s audit_table)), cl_tick := Suc (cl_tick s)\<rparr>))"

definition flush_deletes :: "etl_env \<Rightarrow> event_id list \<Rightarrow> nat \<Rightarrow> nat job" where
  "flush_deletes E batch deleted =
     tryP (thenP (delete_batch E batch) (retP (deleted + length batch))) (\<lambda>_. retP deleted)"

definition delete_step :: "etl_env \<Rightarrow> dict \<Rightarrow> event_id list \<times> nat \<Rightarrow> (event_id list \<times> nat) job" where
  "delete_step E event v = (case v of (batch, deleted) \<Rightarrow>
     bindP (liftP (event_key event)) (\<lambda>k.
     if dynamodb_batch_size \<le> length (batch @ [k])
     then bindP (flush_deletes E (batch @ [k]) deleted) (\<lambda>n. retP ([], n))
     else retP (batch @ [k], deleted)))"

definition delete_events :: "etl_env \<Rightarrow> dict list \<Rightarrow> nat job" where
  "delete_events E events = bindP (foldP (delete_step E) events ([], 0)) (\<lambda>(batch, deleted).
     if batch \<noteq> [] then flush_deletes E batch deleted else retP deleted)"

definition report_key :: "date \<Rightarrow> string" where
  "report_key today = ''reports/compliance/audit-archive/'' @ isoformat today @ ''/report.json''"

definition archive_report :: "etl_env \<Rightarrow> string \<Rightarrow> nat \<Rightarrow> nat \<Rightarrow> nat \<Rightarrow> dict" where
  "archive_report E cutoff archived deleted bytes =
     [(''report_type'', JStr ''audit_archive_compliance''), (''execution_date'', JStr (isoformat (ee_today E))),
      (''retention_policy'', JDict [(''retention_days'', JInt (int retention_days)), (''cutoff_date'', JStr cutoff)]),
      (''results'', JDict [(''events_scanned'', JInt (int archived)), (''events_archived'', JInt (int archived)),
         (''events_deleted_from_source'', JInt (int deleted)),
         (''archive_location'', JStr (''s3://'' @ ee_archive E @ ''/'' @ archive_key (ee_today E))),
         (''archive_storage_class'', JStr ''GLACIER''), (''compressed_size_bytes'', JInt (int bytes))]),
      (''compliance'', JDict [(''gdpr_compliant'', JBool True), (''soc2_compliant'', JBool True),
         (''data_encrypted_at_rest'', JBool True), (''data_encrypted_in_transit'', JBool True)])]"

datatype archived = NoEvents | Archived nat nat

definition archive_run :: "etl_env \<Rightarrow> archived job" where
  "archive_run E =
     bindP (liftP (cutoff_of (ee_today E))) (\<lambda>cutoff.
     bindP (scan E audit_table (older cutoff)) (\<lambda>events.
     if events = [] then retP NoEvents
     else bindP (liftP (archive_body E events)) (\<lambda>body.
       thenP (put_object E (ee_archive E) (archive_key (ee_today E)) body)
      (bindP (delete_events E events) (\<lambda>deleted.
       thenP (put_object E (ee_archive E) (report_key (ee_today E))
           (ee_report E (archive_report E cutoff (length events) deleted (length body))))
         (retP (Archived (length events) deleted)))))))"

text \<open>The exit code of the script.\<close>

definition archive_exit :: "etl_env \<Rightarrow> cloud \<Rightarrow> nat" where
  "archive_exit E s = (case fst (archive_run E s) of Inl _ \<Rightarrow> 1 | Inr _ \<Rightarrow> 0)"

section \<open>The deletion of events\<close>

lemma event_key_older: "event_key i = event_key e \<Longrightarrow> event_key i = Inr k \<Longrightarrow> older cutoff i = older cutoff e"
  by (auto simp: event_key_def older_def split: option.splits)

text \<open>A table after deletions of events: what is missing has the key of one of them.\<close>

definition only_deleted :: "dict list \<Rightarrow> dict list \<Rightarrow> dict list \<Rightarrow> bool" where
  "only_deleted events items items' \<longleftrightarrow> set items' \<subseteq> set items \<and>
     (\<forall>i \<in> set items - set items'. \<exists>e \<in> set events. \<exists>k. event_key i = Inr k \<and> event_key e = Inr k)"

lemma only_deletedD:
  "only_deleted events items items' \<Longrightarrow> i \<in> set items \<Longrightarrow> i \<notin> set items' \<Longrightarrow>
     \<exists>e \<in> set events. \<exists>k. event_key i = Inr k \<and> event_key e = Inr k"
  by (simp add: only_deleted_def)

definition delete_inv :: "dict list \<Rightarrow> cloud \<Rightarrow> event_id list \<times> nat \<Rightarrow> cloud \<Rightarrow> bool" where
  "delete_inv events s0 v s \<longleftrightarrow> cl_objects s = cl_objects s0 \<and>
     only_deleted events (cl_tables s0 audit_table) (cl_tables s audit_table) \<and>
     (\<forall>k \<in> set (fst v). \<exists>e \<in> set events. event_key e = Inr k)"

lemma without_keys_deleted:
  assumes "only_deleted events items items'" "\<forall>k \<in> set ks. \<exists>e \<in> set events. event_key e = Inr k"
  shows "only_deleted events items (without_keys ks items')"
  unfolding only_deleted_def
proof (intro conjI ballI)
  show "set (without_keys ks items') \<subseteq> set items" using assms(1) by (auto simp: only_deleted_def without_keys_def)
next
  fix i
  assume i: "i \<in> set items - set (without_keys ks items')"
  show "\<exists>e \<in> set events. \<exists>k. event_key i = Inr k \<and> event_key e = Inr k"
  proof (cases "i \<in> set items'")
    case True
    with i obtain k where "event_key i = Inr k" "k \<in> set ks"
      by (auto simp: without_keys_def split: sum.splits)
    with assms(2) show ?thesis by blast
  next
    case False
    with i assms(1) show ?thesis by (simp add: only_deleted_def)
  qed
qed

lemma delete_batch_inv:
  assumes "delete_inv events s0 (batch, n) s" "delete_batch E batch s = (r, s')"
  shows "delete_inv events s0 ([], m) s'"
proof -
  let ?ks = "if ee_fails E (cl_tick s) then take (ee_applied E (cl_tick s)) batch else batch"
  have s': "cl_objects s' = cl_objects s" "cl_tables s' audit_table = without_keys ?ks (cl_tables s audit_table)"
    using assms(2) by (auto simp: delete_batch_def Let_def)
  have "\<forall>k \<in> set ?ks. \<exists>e \<in> set events. event_key e = Inr k"
    using assms(1) by (auto simp: delete_inv_def dest: in_set_takeD)
  with assms(1) s' show ?thesis by (simp add: delete_inv_def without_keys_deleted)
qed

lemma flush_deletes_inv:
  "hoare (delete_inv events s0 (batch, n)) (flush_deletes E batch n) (\<lambda>m. delete_inv events s0 ([], m)) (\<lambda>_ _. False)"
  by (rule hoareI) (auto simp: flush_deletes_def tryP_eval thenP_eval split: prod.splits sum.splits
      intro: delete_batch_inv)

lemma delete_step_inv:
  assumes "event \<in> set events"
  shows "hoare (delete_inv events s0 v) (delete_step E event v) (delete_inv events s0) (\<lambda>_. delete_inv events s0 ([], 0))"
proof -
  obtain batch n where v: "v = (batch, n)" by (cases v)
  have key: "hoare (delete_inv events s0 (batch, n)) (liftP (event_key event))
      (\<lambda>k. delete_inv events s0 (batch @ [k], n)) (\<lambda>_. delete_inv events s0 ([], 0))"
    using assms by (intro hoareI) (auto simp: delete_inv_def)
  have flush: "hoare (delete_inv events s0 (batch @ [k], n)) (flush_deletes E (batch @ [k]) n)
      (\<lambda>m. delete_inv events s0 ([], m)) (\<lambda>_. delete_inv events s0 ([], 0))" for k
    by (rule hoare_conseq [OF flush_deletes_inv]) auto
  show ?thesis unfolding v delete_step_def prod.case
    by (rule hoare_bind [OF key], rule hoare_if, rule hoare_bind [OF flush]) (auto intro: hoare_ret)
qed

lemma delete_events_inv:
  "hoare (\<lambda>s. s = s0) (delete_events E events) (\<lambda>_. delete_inv events s0 ([], 0)) (\<lambda>_. delete_inv events s0 ([], 0))"
proof -
  have "hoare (delete_inv events s0 ([], 0)) (foldP (delete_step E) events ([], 0)) (delete_inv events s0)
      (\<lambda>_. delete_inv events s0 ([], 0))"
    by (rule hoare_fold) (rule delete_step_inv)
  then have loop: "hoare (\<lambda>s. s = s0) (foldP (delete_step E) events ([], 0)) (delete_inv events s0)
      (\<lambda>_. delete_inv events s0 ([], 0))"
    by (rule hoare_conseq) (auto simp: delete_inv_def only_deleted_def)
  have rest: "hoare (delete_inv events s0 v) (case v of (batch, deleted) \<Rightarrow>
      if batch \<noteq> [] then flush_deletes E batch deleted else retP deleted)
      (\<lambda>_. delete_inv events s0 ([], 0)) (\<lambda>_. delete_inv events s0 ([], 0))" for v
  proof (cases v)
    case (Pair batch n)
    show ?thesis unfolding Pair prod.case
    proof (rule hoare_if)
      show "hoare (delete_inv events s0 (batch, n)) (flush_deletes E batch n)
          (\<lambda>_. delete_inv events s0 ([], 0)) (\<lambda>_. delete_inv events s0 ([], 0))"
        by (rule hoare_conseq [OF flush_deletes_inv]) (auto simp: delete_inv_def)
    qed (auto intro!: hoare_ret simp: delete_inv_def)
  qed
  show ?thesis unfolding delete_events_def by (rule hoare_bind [OF loop rest])
qed

section \<open>A run\<close>

text \<open>What a run leaves: nothing changed, or the archive of the old events written before any of them is deleted.\<close>

definition archive_stored :: "etl_env \<Rightarrow> string \<Rightarrow> cloud \<Rightarrow> cloud \<Rightarrow> bool" where
  "archive_stored E cutoff s s' \<longleftrightarrow>
     (\<exists>body. archive_body E (filter (older cutoff) (cl_tables s audit_table)) = Inr body \<and>
        object_at s' (ee_archive E) (archive_key (ee_today E)) = Some body) \<and>
     only_deleted (filter (older cutoff) (cl_tables s audit_table)) (cl_tables s audit_table) (cl_tables s' audit_table) \<and>
     (\<forall>b k. b \<noteq> ee_archive E \<or> k \<noteq> archive_key (ee_today E) \<and> k \<noteq> report_key (ee_today E) \<longrightarrow>
        object_at s' b k = object_at s b k)"

definition untouched :: "cloud \<Rightarrow> cloud \<Rightarrow> bool" where
  "untouched s s' \<longleftrightarrow> cl_objects s' = cl_objects s \<and> cl_tables s' = cl_tables s"

lemma keys_differ: "archive_key d \<noteq> report_key d'"
  by (simp add: archive_key_def report_key_def)

lemma archive_after_scan:
  assumes body: "archive_body E events = Inr body" and events: "events = filter (older cutoff) (cl_tables s audit_table)"
    and run: "thenP (put_object E (ee_archive E) (archive_key (ee_today E)) body)
      (bindP (delete_events E events) (\<lambda>deleted.
       thenP (put_object E (ee_archive E) (report_key (ee_today E)) (f deleted)) (retP (g deleted)))) s = (r, s')"
  shows "untouched s s' \<and> (\<exists>e. r = Inl e) \<or> archive_stored E cutoff s s'"
proof -
  let ?arch = "(ee_archive E, archive_key (ee_today E))"
  obtain r1 s1 where p: "put_object E (ee_archive E) (archive_key (ee_today E)) body s = (r1, s1)"
    by (cases "put_object E (ee_archive E) (archive_key (ee_today E)) body s")
  note put = put_object_result [OF p]
  show ?thesis
  proof (cases r1)
    case (Inl e)
    with run p put show ?thesis by (auto simp: thenP_eval untouched_def)
  next
    case (Inr u)
    with put have objs: "map_of (cl_objects s1) = (map_of (cl_objects s))(?arch \<mapsto> body)" by simp
    obtain r2 s2 where d: "delete_events E events s1 = (r2, s2)" by (cases "delete_events E events s1")
    have inv: "delete_inv events s1 ([], 0) s2"
      using delete_events_inv [of s1 E events] d by (cases r2) (auto simp: hoare_def)
    have stored: "archive_stored E cutoff s t"
      if t: "cl_tables t = cl_tables s2" "cl_objects t = cl_objects s2 \<or>
        (\<exists>x. map_of (cl_objects t) = (map_of (cl_objects s2))((ee_archive E, report_key (ee_today E)) \<mapsto> x))" for t
      using t inv objs put(1) body events keys_differ [of "ee_today E" "ee_today E"]
      by (auto simp: archive_stored_def object_at_def delete_inv_def)
    show ?thesis
    proof (cases r2)
      case (Inl e)
      with run p Inr d have "s' = s2" by (simp add: thenP_eval bindP_eval)
      then show ?thesis using stored by simp
    next
      case (Inr n)
      obtain r3 s3 where q: "put_object E (ee_archive E) (report_key (ee_today E)) (f n) s2 = (r3, s3)"
        by (cases "put_object E (ee_archive E) (report_key (ee_today E)) (f n) s2")
      with run p \<open>r1 = Inr u\<close> d Inr have "s' = s3" by (auto simp: thenP_eval bindP_eval split: sum.splits)
      with put_object_result [OF q] stored show ?thesis by blast
    qed
  qed
qed

lemma archive_run_outcome:
  assumes run: "archive_run E s = (r, s')" and cutoff: "cutoff_of (ee_today E) = Inr cutoff"
  shows "untouched s s' \<and> (r = Inr NoEvents \<or> (\<exists>e. r = Inl e)) \<or> archive_stored E cutoff s s'"
proof -
  obtain r1 s1 where sc: "scan E audit_table (older cutoff) s = (r1, s1)" by (cases "scan E audit_table (older cutoff) s")
  from scan_state [OF sc] obtain n where s1: "s1 = s\<lparr>cl_tick := n\<rparr>" by blast
  have after: "untouched s1 t \<Longrightarrow> untouched s t" "archive_stored E cutoff s1 t \<Longrightarrow> archive_stored E cutoff s t" for t
    by (simp_all add: s1 untouched_def archive_stored_def)
  show ?thesis
  proof (cases r1)
    case (Inl e)
    with run cutoff sc s1 show ?thesis by (auto simp: archive_run_def bindP_eval untouched_def)
  next
    case (Inr events)
    with scan_finds [of E audit_table "older cutoff" s events s1] sc s1
    have events: "events = filter (older cutoff) (cl_tables s1 audit_table)" by simp
    show ?thesis
    proof (cases "events = []")
      case True
      with run cutoff sc Inr s1 show ?thesis by (auto simp: archive_run_def bindP_eval untouched_def)
    next
      case False
      show ?thesis
      proof (cases "archive_body E events")
        case (Inl e)
        with run cutoff sc Inr False s1 show ?thesis by (auto simp: archive_run_def bindP_eval untouched_def)
      next
        case body: (Inr body)
        have "thenP (put_object E (ee_archive E) (archive_key (ee_today E)) body)
          (bindP (delete_events E events) (\<lambda>deleted.
            thenP (put_object E (ee_archive E) (report_key (ee_today E))
              (ee_report E (archive_report E cutoff (length events) deleted (length body))))
            (retP (Archived (length events) deleted)))) s1 = (r, s')"
          using run cutoff sc Inr False body by (simp add: archive_run_def bindP_eval)
        from archive_after_scan [OF body events this] after show ?thesis by blast
      qed
    qed
  qed
qed

text \<open>C13. Whatever a run of the archival does and returns, and whichever calls fail: an audit event of the table
  is still in it, or it is older than the cutoff and the object stored under the key of the day is the
  compressed text of all the old events that the table held.
\<close>

theorem archive_keeps_every_event:
  assumes "archive_run E s = (r, s')" "cutoff_of (ee_today E) = Inr cutoff" "e \<in> set (cl_tables s audit_table)"
  shows "e \<in> set (cl_tables s' audit_table) \<or>
    older cutoff e \<and> (\<exists>body. archive_body E (filter (older cutoff) (cl_tables s audit_table)) = Inr body \<and>
      object_at s' (ee_archive E) (archive_key (ee_today E)) = Some body)"
proof (cases "e \<in> set (cl_tables s' audit_table)")
  case False
  with archive_run_outcome [OF assms(1,2)] assms(3) have st: "archive_stored E cutoff s s'" by (auto simp: untouched_def)
  then have "only_deleted (filter (older cutoff) (cl_tables s audit_table)) (cl_tables s audit_table) (cl_tables s' audit_table)"
    by (simp add: archive_stored_def)
  from only_deletedD [OF this assms(3) False] obtain x k where
      "x \<in> set (filter (older cutoff) (cl_tables s audit_table))" "event_key e = Inr k" "event_key x = Inr k" by blast
  then have "older cutoff e" using event_key_older [of e x k cutoff] by simp
  with st show ?thesis by (simp add: archive_stored_def)
qed simp

text \<open>C36. When a run leaves some of the old events in the table (a batch failed) and the job runs again on the
  same day, it replaces the archive by one of the events that were left: an event that the first run had
  archived and deleted is then neither in the table nor in any object that changed.
\<close>

theorem rerun_loses_archive:
  assumes "archive_run E s = (r1, s1)" "archive_run E s1 = (Inr (Archived n m), s2)"
    and "cutoff_of (ee_today E) = Inr cutoff"
    and "e \<in> set (cl_tables s audit_table)" "e \<notin> set (cl_tables s1 audit_table)"
  shows "e \<notin> set (cl_tables s2 audit_table) \<and>
    (\<exists>left body. object_at s2 (ee_archive E) (archive_key (ee_today E)) = Some body \<and> archive_body E left = Inr body \<and>
       e \<notin> set left \<and> left = filter (older cutoff) (cl_tables s1 audit_table)) \<and>
    (\<forall>b k. b \<noteq> ee_archive E \<or> k \<noteq> archive_key (ee_today E) \<and> k \<noteq> report_key (ee_today E) \<longrightarrow>
       object_at s2 b k = object_at s b k)"
proof -
  have st: "archive_stored E cutoff s s1" using archive_run_outcome [OF assms(1,3)] assms(4,5) by (auto simp: untouched_def)
  have st2: "archive_stored E cutoff s1 s2" using archive_run_outcome [OF assms(2,3)] by auto
  from st2 obtain body where body: "archive_body E (filter (older cutoff) (cl_tables s1 audit_table)) = Inr body"
      "object_at s2 (ee_archive E) (archive_key (ee_today E)) = Some body"
    by (auto simp: archive_stored_def)
  show ?thesis
  proof (intro conjI exI allI impI)
    show "e \<notin> set (cl_tables s2 audit_table)" using st2 assms(5) by (auto simp: archive_stored_def only_deleted_def)
    show "e \<notin> set (filter (older cutoff) (cl_tables s1 audit_table))" using assms(5) by simp
    fix b k
    assume "b \<noteq> ee_archive E \<or> k \<noteq> archive_key (ee_today E) \<and> k \<noteq> report_key (ee_today E)"
    with st st2 show "object_at s2 b k = object_at s b k" unfolding archive_stored_def by metis
  qed (use body in simp_all)
qed

section \<open>A sample\<close>

definition sample_audit_event :: "string \<Rightarrow> string \<Rightarrow> dict" where
  "sample_audit_event i ts = [(''event_id'', JStr i), (''timestamp'', JStr ts)]"

definition sample_audit :: cloud where
  "sample_audit = sample_cloud [] [sample_audit_event ''a'' ''2026-01-01'', sample_audit_event ''b'' ''2026-01-02'',
     sample_audit_event ''c'' ''2026-05-30''] []"

text \<open>The batch of the first run fails after its first deletion.\<close>

definition sample_first_run :: "(etl_error + archived) \<times> cloud" where
  "sample_first_run = archive_run (sample_etl [2]) sample_audit"

definition sample_second_run :: "(etl_error + archived) \<times> cloud" where
  "sample_second_run = archive_run (sample_etl [2]) (snd sample_first_run)"

lemma sample_cutoff: "cutoff_of (ee_today (sample_etl [2])) = Inr ''2026-03-03T00:00:00Z''"
  by code_simp

lemma sample_archive_runs:
  "fst sample_first_run = Inr (Archived 2 0)" "fst sample_second_run = Inr (Archived 1 1)"
  "cl_tables (snd sample_first_run) audit_table = [sample_audit_event ''b'' ''2026-01-02'', sample_audit_event ''c'' ''2026-05-30'']"
  by code_simp+

lemma sample_archive_body: "archive_body (sample_etl [2]) [sample_audit_event ''b'' ''2026-01-02''] = Inr [CHR ''b'', CHR 0x0A]"
  "filter (older ''2026-03-03T00:00:00Z'') [sample_audit_event ''b'' ''2026-01-02'', sample_audit_event ''c'' ''2026-05-30''] =
     [sample_audit_event ''b'' ''2026-01-02'']"
  by code_simp+

lemma archive_keeps_every_event_witness:
  "sample_audit_event ''a'' ''2026-01-01'' \<in> set (cl_tables (snd sample_first_run) audit_table) \<or>
   (\<exists>body. object_at (snd sample_first_run) ''archive'' (archive_key (Date 2026 6 1)) = Some body)"
proof -
  have run: "archive_run (sample_etl [2]) sample_audit = (fst sample_first_run, snd sample_first_run)"
    by (simp add: sample_first_run_def)
  have e: "sample_audit_event ''a'' ''2026-01-01'' \<in> set (cl_tables sample_audit audit_table)"
    by (simp add: sample_audit_def sample_cloud_def)
  from archive_keeps_every_event [OF run sample_cutoff e] show ?thesis unfolding sample_etl_names by blast
qed

lemma rerun_loses_archive_witness:
  "sample_audit_event ''a'' ''2026-01-01'' \<in> set (cl_tables sample_audit audit_table) \<and>
   sample_audit_event ''a'' ''2026-01-01'' \<notin> set (cl_tables (snd sample_second_run) audit_table) \<and>
   object_at (snd sample_second_run) ''archive'' (archive_key (Date 2026 6 1)) = Some [CHR ''b'', CHR 0x0A]"
proof -
  have run1: "archive_run (sample_etl [2]) sample_audit = (fst sample_first_run, snd sample_first_run)"
    by (simp add: sample_first_run_def)
  have run2: "archive_run (sample_etl [2]) (snd sample_first_run) = (Inr (Archived 1 1), snd sample_second_run)"
    using sample_archive_runs(2) by (simp add: sample_second_run_def prod_eq_iff)
  have e: "sample_audit_event ''a'' ''2026-01-01'' \<in> set (cl_tables sample_audit audit_table)"
    by (simp add: sample_audit_def sample_cloud_def)
  have gone: "sample_audit_event ''a'' ''2026-01-01'' \<notin> set (cl_tables (snd sample_first_run) audit_table)"
    by (simp add: sample_archive_runs sample_audit_event_def)
  from rerun_loses_archive [OF run1 run2 sample_cutoff e gone] obtain body where
      body: "sample_audit_event ''a'' ''2026-01-01'' \<notin> set (cl_tables (snd sample_second_run) audit_table)"
      "object_at (snd sample_second_run) ''archive'' (archive_key (Date 2026 6 1)) = Some body"
      "archive_body (sample_etl [2]) [sample_audit_event ''b'' ''2026-01-02''] = Inr body"
    unfolding sample_archive_runs(3) sample_archive_body(2) sample_etl_names by blast
  from body(3) have "body = [CHR ''b'', CHR 0x0A]" unfolding sample_archive_body(1) by (rule sum.inject(2) [THEN iffD1, symmetric])
  with body(1,2) e show ?thesis by simp
qed

end
