(* ===== verification/Etl_Cleanup.thy ===== *)
theory Etl_Cleanup
  imports Etl_Cloud
begin

text \<open>
  The daily cleanup of the file bucket (\<open>etl/scripts/storage_cleanup_daily.py\<close>): objects that no item of the
  metadata table names are copied to the quarantine bucket and deleted. The figures of the report in
  gigabytes, percent and dollars, which derive from its counts, are left out.
\<close>

section \<open>The job\<close>

definition metadata_table :: string where
  "metadata_table = ''otterworks-file-metadata''"

definition files_prefix :: string where
  "files_prefix = ''files/''"

text \<open>\<open>item.get("s3_key", "")\<close>, put into a set when it is not empty; a list or a map cannot be.\<close>

definition reference :: "dict \<Rightarrow> json" where
  "reference item = jget ''s3_key'' (JStr []) item"

definition add_reference :: "dict \<Rightarrow> json list \<Rightarrow> etl_error + json list" where
  "add_reference item refs = (case reference item of
       JList (_ # _) \<Rightarrow> Inl (BadType ''unhashable type'')
     | JDict (_ # _) \<Rightarrow> Inl (BadType ''unhashable type'')
     | v \<Rightarrow> Inr (if truthy v then refs @ [v] else refs))"

definition orphans :: "json list \<Rightarrow> (string \<times> nat) list \<Rightarrow> (string \<times> nat) list" where
  "orphans refs objs = filter (\<lambda>(k, _). JStr k \<notin> set refs) objs"

definition quarantine_key :: "date \<Rightarrow> string \<Rightarrow> string" where
  "quarantine_key today k = ''quarantined/'' @ isoformat today @ ''/'' @ k"

definition move_object :: "etl_env \<Rightarrow> string \<Rightarrow> unit job" where
  "move_object E k =
     thenP (copy_object E (ee_quarantine E) (quarantine_key (ee_today E) k) (ee_files E) k)
       (delete_object E (ee_files E) k)"

definition quarantine_step :: "etl_env \<Rightarrow> string \<times> nat \<Rightarrow> nat \<times> nat \<Rightarrow> (nat \<times> nat) job" where
  "quarantine_step E obj v = (case v of (moved, failed) \<Rightarrow>
     tryP (thenP (move_object E (fst obj)) (retP (moved + 1, failed))) (\<lambda>_. retP (moved, failed + 1)))"

definition cleanup_key :: "date \<Rightarrow> string" where
  "cleanup_key today = ''reports/storage-cleanup/'' @ isoformat today @ ''/report.json''"

definition sizes :: "(string \<times> nat) list \<Rightarrow> nat" where
  "sizes objs = sum_list (map snd objs)"

definition cleanup_report :: "etl_env \<Rightarrow> (string \<times> nat) list \<Rightarrow> (string \<times> nat) list \<Rightarrow> nat \<times> nat \<Rightarrow> dict" where
  "cleanup_report E objs orphaned counts =
     [(''report_type'', JStr ''storage_cleanup''), (''report_date'', JStr (isoformat (ee_today E))),
      (''inventory'', JDict [(''total_objects'', JInt (int (length objs))), (''total_size_bytes'', JInt (int (sizes objs)))]),
      (''orphans'', JDict [(''orphaned_objects'', JInt (int (length orphaned))), (''orphaned_bytes'', JInt (int (sizes orphaned)))]),
      (''cleanup'', JDict [(''objects_quarantined'', JInt (int (fst counts))), (''objects_failed'', JInt (int (snd counts))),
         (''quarantine_bucket'', JStr (ee_quarantine E))])]"

definition cleanup_run :: "etl_env \<Rightarrow> (nat \<times> nat) job" where
  "cleanup_run E =
     bindP (list_objects E (ee_files E) files_prefix) (\<lambda>objs.
     bindP (scan E metadata_table (\<lambda>_. True)) (\<lambda>items.
     bindP (liftP (foldE add_reference items [])) (\<lambda>refs.
     bindP (foldP (quarantine_step E) (orphans refs objs) (0, 0)) (\<lambda>counts.
     thenP (put_object E (ee_lake E) (cleanup_key (ee_today E)) (ee_report E (cleanup_report E objs (orphans refs objs) counts)))
       (retP counts)))))"

definition cleanup_exit :: "etl_env \<Rightarrow> cloud \<Rightarrow> nat" where
  "cleanup_exit E s = (case fst (cleanup_run E s) of Inl _ \<Rightarrow> 1 | Inr _ \<Rightarrow> 0)"

section \<open>What is moved\<close>

definition orphan :: "cloud \<Rightarrow> string \<Rightarrow> bool" where
  "orphan s k \<longleftrightarrow> take (length files_prefix) k = files_prefix \<and> (\<forall>item \<in> set (cl_tables s metadata_table). reference item \<noteq> JStr k)"

lemma foldE_references:
  "foldE add_reference items refs = Inr refs' \<Longrightarrow>
     set refs \<subseteq> set refs' \<and> (\<forall>item \<in> set items. \<forall>k. reference item = JStr k \<longrightarrow> k \<noteq> [] \<longrightarrow> JStr k \<in> set refs')"
proof (induction items arbitrary: refs)
  case (Cons item items)
  then obtain refs1 where r: "add_reference item refs = Inr refs1" "foldE add_reference items refs1 = Inr refs'"
    by (cases "add_reference item refs") auto
  have "set refs \<subseteq> set refs1" "\<forall>k. reference item = JStr k \<longrightarrow> k \<noteq> [] \<longrightarrow> JStr k \<in> set refs1"
    using r(1) by (auto simp: add_reference_def split: json.splits list.splits if_splits)
  with Cons.IH [OF r(2)] show ?case by auto
qed simp

text \<open>The state of the buckets while the orphans are moved.\<close>

definition moved_inv :: "etl_env \<Rightarrow> cloud \<Rightarrow> string set \<Rightarrow> cloud \<Rightarrow> bool" where
  "moved_inv E s0 ks s \<longleftrightarrow>
     (\<forall>k. object_at s (ee_files E) k = None \<or> object_at s (ee_files E) k = object_at s0 (ee_files E) k) \<and>
     (\<forall>k body. object_at s0 (ee_files E) k = Some body \<longrightarrow> object_at s (ee_files E) k = Some body \<or>
        k \<in> ks \<and> object_at s (ee_quarantine E) (quarantine_key (ee_today E) k) = Some body)"

lemma moved_inv_original:
  "moved_inv E s0 ks s \<Longrightarrow> object_at s (ee_files E) k = Some body \<Longrightarrow> object_at s0 (ee_files E) k = Some body"
  unfolding moved_inv_def by (metis option.distinct(1))

lemma quarantine_key_inj [simp]: "quarantine_key d k = quarantine_key d k' \<longleftrightarrow> k = k'"
  by (simp add: quarantine_key_def)

lemma object_at_update [simp]:
  "object_at (s\<lparr>cl_objects := AList.update (b, k) body objs, cl_tick := n\<rparr>) b' k' =
     (if b' = b \<and> k' = k then Some body else map_of objs (b', k'))"
  by (simp add: object_at_def update_conv')

lemma move_object_result:
  assumes "move_object E k s = (r, s')" "ee_files E \<noteq> ee_quarantine E" "moved_inv E s0 ks s" "k \<in> ks"
  shows "moved_inv E s0 ks s'"
proof -
  let ?q = "(ee_quarantine E, quarantine_key (ee_today E) k)"
  have cases: "map_of (cl_objects s') = map_of (cl_objects s) \<or>
    (\<exists>body. object_at s (ee_files E) k = Some body \<and>
      (map_of (cl_objects s') = (map_of (cl_objects s))(?q \<mapsto> body) \<or>
       map_of (cl_objects s') = (map_of (cl_objects s))(?q \<mapsto> body, (ee_files E, k) := None)))"
    using assms(1)
    by (auto simp: move_object_def copy_object_def delete_object_def thenP_eval bindP_eval call_def object_at_def
        update_conv' delete_conv' split: if_splits option.splits)
  then show ?thesis
  proof (elim disjE exE conjE)
    assume "map_of (cl_objects s') = map_of (cl_objects s)"
    with assms(3) show ?thesis by (simp add: moved_inv_def object_at_def)
  next
    fix body
    assume b: "object_at s (ee_files E) k = Some body" "map_of (cl_objects s') = (map_of (cl_objects s))(?q \<mapsto> body)"
    from assms(3) b(1) have "object_at s0 (ee_files E) k = Some body" by (rule moved_inv_original)
    with b assms(2-4) show ?thesis by (auto simp: moved_inv_def object_at_def)
  next
    fix body
    assume b: "object_at s (ee_files E) k = Some body"
      "map_of (cl_objects s') = (map_of (cl_objects s))(?q \<mapsto> body, (ee_files E, k) := None)"
    from assms(3) b(1) have "object_at s0 (ee_files E) k = Some body" by (rule moved_inv_original)
    with b assms(2-4) show ?thesis by (auto simp: moved_inv_def object_at_def)
  qed
qed

lemma quarantine_step_state: "snd (quarantine_step E obj v s) = snd (move_object E (fst obj) s)"
  by (cases v) (simp add: quarantine_step_def tryP_eval thenP_eval split: prod.split sum.split)

lemma quarantine_loop:
  assumes "ee_files E \<noteq> ee_quarantine E"
  shows "hoare (moved_inv E s0 (fst ` set objs)) (foldP (quarantine_step E) objs v)
    (\<lambda>_. moved_inv E s0 (fst ` set objs)) (\<lambda>_. moved_inv E s0 (fst ` set objs))"
proof (rule hoare_fold)
  fix obj and v :: "nat \<times> nat"
  assume "obj \<in> set objs"
  then have k: "fst obj \<in> fst ` set objs" by simp
  have "moved_inv E s0 (fst ` set objs) s'"
    if "moved_inv E s0 (fst ` set objs) s" "quarantine_step E obj v s = (r, s')" for s r s'
  proof -
    have "s' = snd (move_object E (fst obj) s)" using that(2) quarantine_step_state [of E obj v s] by simp
    with move_object_result [OF _ assms that(1) k] show ?thesis by (cases "move_object E (fst obj) s") simp
  qed
  then show "hoare (moved_inv E s0 (fst ` set objs)) (quarantine_step E obj v)
      (\<lambda>_. moved_inv E s0 (fst ` set objs)) (\<lambda>_. moved_inv E s0 (fst ` set objs))"
    by (intro hoareI) blast+
qed

lemma list_objects_state: "list_objects E b p s = (r, s') \<Longrightarrow> \<exists>n. s' = s\<lparr>cl_tick := n\<rparr>"
  by (auto simp: list_objects_def thenP_eval call_def split: if_splits)

lemma list_objects_keys:
  "list_objects E b p s = (Inr objs, s') \<Longrightarrow> k \<in> fst ` set objs \<Longrightarrow> take (length p) k = p"
  by (auto simp: list_objects_def thenP_eval call_def keys_of_def split: if_splits)

lemma orphans_orphan:
  assumes "foldE add_reference (cl_tables s metadata_table) [] = Inr refs" "k \<in> fst ` set (orphans refs objs)"
    "take (length files_prefix) k = files_prefix"
  shows "orphan s k"
  unfolding orphan_def
proof (intro conjI ballI notI)
  fix item
  assume "item \<in> set (cl_tables s metadata_table)" "reference item = JStr k"
  moreover have "k \<noteq> []" using assms(3) by (auto simp: files_prefix_def)
  ultimately have "JStr k \<in> set refs" using foldE_references [OF assms(1)] by blast
  with assms(2) show False by (auto simp: orphans_def)
qed (rule assms(3))

text \<open>C14. Whatever a cleanup does and returns, and whichever calls fail: an object of the file bucket is still
  there with its content, or it lies below the prefix, no metadata item names its key, and the quarantine
  bucket holds its content under the key of the day.
\<close>

theorem cleanup_spares_referenced:
  assumes "cleanup_run E s = (r, s')" "ee_files E \<notin> {ee_quarantine E, ee_lake E}"
    and "object_at s (ee_files E) k = Some body"
  shows "object_at s' (ee_files E) k = Some body \<or>
    orphan s k \<and> object_at s' (ee_quarantine E) (quarantine_key (ee_today E) k) = Some body"
proof -
  obtain r1 s1 where l: "list_objects E (ee_files E) files_prefix s = (r1, s1)"
    by (cases "list_objects E (ee_files E) files_prefix s")
  obtain r2 s2 where sc: "scan E metadata_table (\<lambda>_. True) s1 = (r2, s2)" by (cases "scan E metadata_table (\<lambda>_. True) s1")
  obtain n where s1: "s1 = s\<lparr>cl_tick := n\<rparr>" using list_objects_state [OF l] by blast
  then obtain m where s2: "s2 = s\<lparr>cl_tick := m\<rparr>" using scan_state [OF sc] by auto
  consider (stop) "s' = s1 \<or> s' = s2"
    | (go) objs refs where "r1 = Inr objs" "foldE add_reference (cl_tables s metadata_table) [] = Inr refs"
        "bindP (foldP (quarantine_step E) (orphans refs objs) (0, 0)) (\<lambda>counts.
           thenP (put_object E (ee_lake E) (cleanup_key (ee_today E)) (ee_report E (cleanup_report E objs (orphans refs objs) counts)))
             (retP counts)) s2 = (r, s')"
  proof (cases r1)
    case (Inl e)
    with assms(1) l that(1) show ?thesis by (simp add: cleanup_run_def bindP_eval)
  next
    case r1: (Inr objs)
    show ?thesis
    proof (cases r2)
      case (Inl e)
      with assms(1) l r1 sc that(1) show ?thesis by (simp add: cleanup_run_def bindP_eval)
    next
      case (Inr items)
      with scan_finds [of E metadata_table "\<lambda>_. True" s1 items s2] sc s1 have items: "items = cl_tables s metadata_table" by simp
      show ?thesis
      proof (cases "foldE add_reference items []")
        case (Inl e)
        with assms(1) l r1 sc \<open>r2 = Inr items\<close> that(1) show ?thesis by (simp add: cleanup_run_def bindP_eval)
      next
        case (Inr refs)
        with assms(1) l r1 sc \<open>r2 = Inr items\<close> items that(2) [OF r1, of refs] show ?thesis
          by (simp add: cleanup_run_def bindP_eval)
      qed
    qed
  qed
  then show ?thesis
  proof cases
    case stop
    with s1 s2 assms(3) show ?thesis by auto
  next
    case go
    let ?ks = "fst ` set (orphans refs objs)"
    obtain r3 s3 where f: "foldP (quarantine_step E) (orphans refs objs) (0, 0) s2 = (r3, s3)"
      by (cases "foldP (quarantine_step E) (orphans refs objs) (0, 0) s2")
    have "moved_inv E s ?ks s2" by (simp add: s2 moved_inv_def)
    with quarantine_loop [of E s "orphans refs objs" "(0, 0)"] f assms(2) have inv: "moved_inv E s ?ks s3"
      by (cases r3) (auto simp: hoare_def)
    have "k \<in> ?ks \<Longrightarrow> orphan s k"
    proof (rule orphans_orphan [OF go(2)])
      assume "k \<in> ?ks"
      then have "k \<in> fst ` set objs" by (auto simp: orphans_def)
      with list_objects_keys l go(1) show "take (length files_prefix) k = files_prefix" by blast
    qed
    with inv assms(3) have at3: "object_at s3 (ee_files E) k = Some body \<or>
        orphan s k \<and> object_at s3 (ee_quarantine E) (quarantine_key (ee_today E) k) = Some body"
      by (auto simp: moved_inv_def)
    show ?thesis
    proof (cases r3)
      case (Inl e)
      with go(3) f have "s' = s3" by (simp add: bindP_eval)
      with at3 show ?thesis by simp
    next
      case (Inr counts)
      obtain r4 s4 where p: "put_object E (ee_lake E) (cleanup_key (ee_today E))
          (ee_report E (cleanup_report E objs (orphans refs objs) counts)) s3 = (r4, s4)"
        by (cases "put_object E (ee_lake E) (cleanup_key (ee_today E))
          (ee_report E (cleanup_report E objs (orphans refs objs) counts)) s3")
      with go(3) f Inr have "s' = s4" by (auto simp: bindP_eval thenP_eval split: sum.splits)
      moreover have "quarantine_key (ee_today E) k \<noteq> cleanup_key (ee_today E)"
        by (simp add: quarantine_key_def cleanup_key_def)
      ultimately show ?thesis using put_object_result [OF p] at3 assms(2) by (auto simp: object_at_def)
    qed
  qed
qed

section \<open>A sample\<close>

definition sample_bucket :: cloud where
  "sample_bucket = sample_cloud [((''files-bucket'', ''files/a''), ''A''), ((''files-bucket'', ''files/b''), ''B'')]
     [[(''s3_key'', JStr ''files/a'')]] []"

lemma sample_cleanup: "fst (cleanup_run (sample_etl []) sample_bucket) = Inr (1, 0)"
  "object_at (snd (cleanup_run (sample_etl []) sample_bucket)) ''files-bucket'' ''files/b'' = None"
  by code_simp+

lemma cleanup_spares_referenced_witness:
  "object_at (snd (cleanup_run (sample_etl []) sample_bucket)) ''quarantine'' (quarantine_key (Date 2026 6 1) ''files/b'') = Some ''B''"
proof -
  have run: "cleanup_run (sample_etl []) sample_bucket = (Inr (1, 0), snd (cleanup_run (sample_etl []) sample_bucket))"
    using sample_cleanup(1) by (simp add: prod_eq_iff)
  have buckets: "ee_files (sample_etl []) \<notin> {ee_quarantine (sample_etl []), ee_lake (sample_etl [])}"
    by (simp add: sample_etl_names)
  have there: "object_at sample_bucket (ee_files (sample_etl [])) ''files/b'' = Some ''B''"
    by (simp add: sample_etl_names object_at_def sample_bucket_def sample_cloud_def)
  from cleanup_spares_referenced [OF run buckets there] sample_cleanup(2) show ?thesis
    by (simp add: sample_etl_names)
qed

end
