(* ===== verification/Etl_Analytics.thy ===== *)
theory Etl_Analytics
  imports Etl_Cloud
begin

text \<open>
  The daily analytics (\<open>etl/scripts/analytics_daily.py\<close>): events are received from a queue, and deleted from
  it, and scanned from a table; what is aggregated from them is written to the data lake. The aggregation
  with pandas and its texts are an argument; the upsert into the summary table, whose failure the job
  ignores, is left out.
\<close>

section \<open>Receiving events\<close>

definition max_messages :: nat where
  "max_messages = 10000"

definition batch_size :: nat where
  "batch_size = 10"

text \<open>A call receives some of the waiting messages, or none; they are out of sight until deleted or returned.\<close>

definition received :: "etl_env \<Rightarrow> cloud \<Rightarrow> (string \<times> string) list" where
  "received E s = take (min batch_size (ee_arrive E (cl_tick s))) (cl_queue s)"

definition take_messages :: "etl_env \<Rightarrow> cloud \<Rightarrow> cloud" where
  "take_messages E s = s\<lparr>cl_queue := drop (length (received E s)) (cl_queue s), cl_taken := cl_taken s @ received E s,
     cl_tick := Suc (cl_tick s)\<rparr>"

definition parsed :: "etl_env \<Rightarrow> (string \<times> string) list \<Rightarrow> json list" where
  "parsed E msgs = List.map_filter (\<lambda>(_, body). ee_loads E body) msgs"

definition to_delete :: "etl_env \<Rightarrow> (string \<times> string) list \<Rightarrow> string list" where
  "to_delete E msgs = map fst (filter (\<lambda>(_, body). ee_loads E body \<noteq> None) msgs)"

definition delete_messages :: "etl_env \<Rightarrow> string list \<Rightarrow> unit job" where
  "delete_messages E ids =
     (if ids = [] then retP ()
      else thenP (call E ''DeleteMessageBatch'')
        (modP (\<lambda>s. s\<lparr>cl_taken := filter (\<lambda>(i, _). i \<notin> set ids) (cl_taken s)\<rparr>)))"

function poll :: "etl_env \<Rightarrow> nat \<Rightarrow> nat \<Rightarrow> json list \<Rightarrow> cloud \<Rightarrow> (etl_error + json list) \<times> cloud" where
  "poll E processed errors events s =
     (if max_messages \<le> processed then (Inr events, s)
      else if ee_fails E (cl_tick s) then
        (let s' = s\<lparr>cl_tick := Suc (cl_tick s)\<rparr> in
         if 3 \<le> errors + 1 then (Inr events, s') else poll E processed (errors + 1) events s')
      else let msgs = received E s in
        if msgs = [] then (Inr events, take_messages E s)
        else (case delete_messages E (to_delete E msgs) (take_messages E s) of
            (Inl e, t) \<Rightarrow> (Inl e, t)
          | (Inr _, t) \<Rightarrow> poll E (processed + length msgs) 0 (events @ parsed E msgs) t))"
  by pat_completeness auto

termination
  by (relation "measures [\<lambda>(E, processed, errors, events, s). max_messages - processed,
        \<lambda>(E, processed, errors, events, s). 3 - errors]") (auto simp flip: length_greater_0_conv)

declare poll.simps [simp del]

section \<open>The job\<close>

definition analytics_table :: string where
  "analytics_table = ''otterworks-analytics-events''"

definition of_day :: "date \<Rightarrow> dict \<Rightarrow> bool" where
  "of_day today item = (case map_of item ''event_date'' of
       Some (JStr d) \<Rightarrow> take (length (isoformat today)) d = isoformat today
     | _ \<Rightarrow> False)"

record aggregates =
  ag_summary :: string
  ag_hourly :: string
  ag_users :: string
  ag_report :: string

definition partition_key :: "string \<Rightarrow> date \<Rightarrow> string" where
  "partition_key prefix today = (let ds = isoformat today in
     prefix @ ''/year='' @ take 4 ds @ ''/month='' @ take 2 (drop 5 ds) @ ''/day='' @ take 2 (drop 8 ds))"

definition load_aggregates :: "etl_env \<Rightarrow> string \<Rightarrow> aggregates \<Rightarrow> unit job" where
  "load_aggregates E prefix a =
     (let k = partition_key prefix (ee_today E) in
      thenP (put_object E (ee_lake E) (k @ ''/summary.json.gz'') (ee_gzip E (ag_summary a)))
     (thenP (put_object E (ee_lake E) (k @ ''/hourly_breakdown.json.gz'') (ee_gzip E (ag_hourly a)))
     (thenP (put_object E (ee_lake E) (k @ ''/top_users.jsonl.gz'') (ee_gzip E (ag_users a)))
     (put_object E (ee_lake E) (''reports/analytics/daily/'' @ isoformat (ee_today E) @ ''/report.json'') (ag_report a)))))"

datatype analyzed = NothingFound | Analyzed nat

definition analytics_run :: "etl_env \<Rightarrow> string \<Rightarrow> (json list \<Rightarrow> aggregates option) \<Rightarrow> analyzed job" where
  "analytics_run E prefix aggregate =
     bindP (poll E 0 0 []) (\<lambda>queued.
     bindP (scan E analytics_table (of_day (ee_today E))) (\<lambda>items.
     let events = queued @ map JDict items in
     if events = [] then retP NothingFound
     else case aggregate events of
         None \<Rightarrow> raiseP EncodeError
       | Some a \<Rightarrow> thenP (load_aggregates E prefix a) (retP (Analyzed (length events)))))"

section \<open>Polling\<close>

lemma delete_messages_result:
  assumes "delete_messages E ids s = (r, s')"
  shows "cl_objects s' = cl_objects s" "cl_tables s' = cl_tables s" "cl_queue s' = cl_queue s"
    "cl_tick s' \<le> Suc (cl_tick s)" "set (cl_taken s') \<subseteq> set (cl_taken s)"
    "r = Inr () \<Longrightarrow> cl_taken s' = filter (\<lambda>(i, _). i \<notin> set ids) (cl_taken s)"
  using assms by (auto simp: delete_messages_def thenP_eval call_def split: if_splits)

lemma take_messages_simps [simp]:
  "cl_objects (take_messages E s) = cl_objects s" "cl_tables (take_messages E s) = cl_tables s"
  "cl_queue (take_messages E s) = drop (length (received E s)) (cl_queue s)"
  "cl_taken (take_messages E s) = cl_taken s @ received E s" "cl_tick (take_messages E s) = Suc (cl_tick s)"
  by (simp_all add: take_messages_def)

lemma received_queue: "cl_queue s = received E s @ drop (length (received E s)) (cl_queue s)"
  by (simp add: received_def min_def)

lemma received_split:
  assumes "delete_messages E ids (take_messages E s) = (r, t)"
  shows "cl_queue s = received E s @ cl_queue t"
  unfolding delete_messages_result(3) [OF assms] take_messages_simps by (rule received_queue)

text \<open>One step of the loop, as the ways in which it can go on.\<close>

lemma poll_cases:
  assumes "poll E processed errors events s = (r, s')"
  obtains (full) "max_messages \<le> processed" "r = Inr events" "s' = s"
    | (gave_up) "3 \<le> errors + 1" "r = Inr events" "s' = s\<lparr>cl_tick := Suc (cl_tick s)\<rparr>"
    | (again) "processed < max_messages" "errors + 1 < 3" "ee_fails E (cl_tick s)"
        "poll E processed (errors + 1) events (s\<lparr>cl_tick := Suc (cl_tick s)\<rparr>) = (r, s')"
    | (empty) "received E s = []" "r = Inr events" "s' = take_messages E s"
    | (stuck) e where "processed < max_messages" "r = Inl e" "delete_messages E (to_delete E (received E s)) (take_messages E s) = (Inl e, s')"
    | (more) t where "processed < max_messages" "\<not> ee_fails E (cl_tick s)" "received E s \<noteq> []"
        "delete_messages E (to_delete E (received E s)) (take_messages E s) = (Inr (), t)"
        "poll E (processed + length (received E s)) 0 (events @ parsed E (received E s)) t = (r, s')"
proof -
  note run = assms [unfolded poll.simps [of E processed errors events s] Let_def]
  show ?thesis
  proof (cases "max_messages \<le> processed")
    case True
    with run full show ?thesis by simp
  next
    case room: False
    show ?thesis
    proof (cases "ee_fails E (cl_tick s)")
      case True
      show ?thesis
      proof (cases "3 \<le> errors + 1")
        case True
        with run room \<open>ee_fails E (cl_tick s)\<close> gave_up show ?thesis by simp
      next
        case False
        with run room \<open>ee_fails E (cl_tick s)\<close> again show ?thesis by simp
      qed
    next
      case ok: False
      show ?thesis
      proof (cases "received E s = []")
        case True
        with run room ok empty show ?thesis by simp
      next
        case False
        obtain r1 t where d: "delete_messages E (to_delete E (received E s)) (take_messages E s) = (r1, t)"
          by (cases "delete_messages E (to_delete E (received E s)) (take_messages E s)")
        show ?thesis
        proof (cases r1)
          case (Inl e)
          with run room ok False d stuck [of e] show ?thesis by simp
        next
          case (Inr u)
          with run room ok False d more [of t] show ?thesis by simp
        qed
      qed
    qed
  qed
qed

text \<open>Polling ends: whatever the queue answers, and however often it fails, the loop makes at most 40003
  calls and receives at most 10009 messages.
\<close>

theorem poll_calls_bounded:
  assumes "poll E 0 0 [] s = (r, s')"
  shows "cl_tick s' \<le> cl_tick s + 40003 \<and> length (cl_queue s) \<le> length (cl_queue s') + 10009"
proof -
  have ticks: "cl_tick s' \<le> cl_tick s + 4 * (max_messages - processed) + (3 - errors) \<and>
      length (cl_queue s) \<le> length (cl_queue s') + (if processed < max_messages then max_messages - processed + 9 else 0)"
    if "poll E processed errors events s = (r, s')" "errors < 3" for processed errors events s
    using that
  proof (induction "4 * (max_messages - processed) + (3 - errors)" arbitrary: processed errors events s rule: less_induct)
    case less
    have n: "length (received E s) \<le> 10" by (simp add: received_def batch_size_def)
    show ?case
      using less.prems(1)
    proof (cases rule: poll_cases)
      case again
      have "4 * (max_messages - processed) + (3 - (errors + 1)) < 4 * (max_messages - processed) + (3 - errors)"
        using again(2) by arith
      from less.hyps [OF this again(4,2)] again(1) less.prems(2) show ?thesis by auto
    next
      case (stuck e)
      note d = delete_messages_result [OF stuck(3)]
      have m: "1 \<le> max_messages - processed" using stuck(1) by arith
      have "cl_tick s' \<le> cl_tick s + 2" using d(4) by simp
      then have ticks: "cl_tick s' \<le> cl_tick s + 4 * (max_messages - processed) + (3 - errors)" using m by linarith
      have "length (cl_queue s) \<le> length (cl_queue s') + 10" using d(3) n by simp
      then have "length (cl_queue s) \<le> length (cl_queue s') + (max_messages - processed + 9)" using m by linarith
      with ticks show ?thesis unfolding if_P [OF stuck(1)] by (rule conjI)
    next
      case (more t)
      note d = delete_messages_result [OF more(4)]
      let ?n = "length (received E s)"
      have pos: "1 \<le> ?n" using more(3) by (simp add: Suc_le_eq)
      have dec: "4 * (max_messages - (processed + ?n)) + (3 - 0) < 4 * (max_messages - processed) + (3 - errors)"
        using more(1) pos less.prems(2) by arith
      have ih: "cl_tick s' \<le> cl_tick t + 4 * (max_messages - (processed + ?n)) + (3 - 0) \<and>
          length (cl_queue t) \<le> length (cl_queue s') +
            (if processed + ?n < max_messages then max_messages - (processed + ?n) + 9 else 0)"
        by (rule less.hyps [OF dec more(5)]) simp
      have "cl_tick t \<le> cl_tick s + 2" using d(4) by simp
      then have "cl_tick s' \<le> cl_tick s + 4 * (max_messages - processed) + (3 - errors)"
        using ih more(1) pos less.prems(2) by linarith
      moreover have "length (cl_queue s) = length (cl_queue t) + ?n"
        using arg_cong [OF received_split [OF more(4)], of length] by (simp only: length_append add.commute)
      ultimately show ?thesis using ih more(1) n pos by (auto split: if_splits)
    qed (use less.prems(2) in auto)
  qed
  from ticks [OF assms] show ?thesis by (simp add: max_messages_def)
qed

text \<open>The events are those of the messages received, in order; these are deleted.\<close>

definition malformed :: "etl_env \<Rightarrow> (string \<times> string) list \<Rightarrow> (string \<times> string) set" where
  "malformed E msgs = {m \<in> set msgs. ee_loads E (snd m) = None}"

lemma kept_malformed: "set (filter (\<lambda>(i, _). i \<notin> set (to_delete E msgs)) (old @ msgs)) \<subseteq> set old \<union> malformed E msgs"
  by (force simp: to_delete_def malformed_def)

lemma parsed_append: "parsed E (xs @ ys) = parsed E xs @ parsed E ys"
  by (simp add: parsed_def List.map_filter_def)

lemma parsed_member: "m \<in> set msgs \<Longrightarrow> ee_loads E (snd m) = Some v \<Longrightarrow> v \<in> set (parsed E msgs)"
  by (induction msgs) (auto simp: parsed_def map_filter_simps split: option.splits prod.splits)

lemma poll_accounts:
  assumes "poll E processed errors events s = (Inr xs, s')" "errors < 3"
  shows "\<exists>got. cl_queue s = got @ cl_queue s' \<and> xs = events @ parsed E got \<and>
    set (cl_taken s') \<subseteq> set (cl_taken s) \<union> malformed E got \<and> cl_objects s' = cl_objects s \<and> cl_tables s' = cl_tables s"
  using assms
proof (induction "4 * (max_messages - processed) + (3 - errors)" arbitrary: processed errors events s rule: less_induct)
  case less
  have none: "parsed E [] = []" "malformed E [] = {}" by (simp_all add: parsed_def malformed_def List.map_filter_def)
  show ?case
    using less.prems(1)
  proof (cases rule: poll_cases)
    case again
    have "4 * (max_messages - processed) + (3 - (errors + 1)) < 4 * (max_messages - processed) + (3 - errors)"
      using again(2) by arith
    from less.hyps [OF this again(4,2)] show ?thesis by simp
  next
    case (more t)
    note d = delete_messages_result [OF more(4)]
    let ?n = "length (received E s)"
    have "1 \<le> ?n" using more(3) by (simp add: Suc_le_eq)
    then have dec: "4 * (max_messages - (processed + ?n)) + (3 - 0) < 4 * (max_messages - processed) + (3 - errors)"
      using more(1) less.prems(2) by arith
    from less.hyps [OF dec more(5)] obtain got where got: "cl_queue t = got @ cl_queue s'"
        "xs = (events @ parsed E (received E s)) @ parsed E got"
        "set (cl_taken s') \<subseteq> set (cl_taken t) \<union> malformed E got" "cl_objects s' = cl_objects t" "cl_tables s' = cl_tables t"
      by auto
    have "cl_queue s = (received E s @ got) @ cl_queue s'"
      unfolding received_split [OF more(4)] got(1) by (simp only: append_assoc)
    moreover have "xs = events @ parsed E (received E s @ got)" using got(2) by (simp add: parsed_append)
    moreover have "set (cl_taken t) \<subseteq> set (cl_taken s) \<union> malformed E (received E s)"
      using d(6) kept_malformed [of E "received E s" "cl_taken s"] by simp
    then have "set (cl_taken s') \<subseteq> set (cl_taken s) \<union> malformed E (received E s @ got)"
      using got(3) by (auto simp: malformed_def)
    moreover have "cl_objects s' = cl_objects s" "cl_tables s' = cl_tables s" using got(4,5) d(1,2) by simp_all
    ultimately show ?thesis by blast
  qed (auto simp: none)
qed

section \<open>A run that fails\<close>

lemma put_object_messages:
  "put_object E b k body s = (r, s') \<Longrightarrow> cl_queue s' = cl_queue s \<and> cl_taken s' = cl_taken s"
  by (auto simp: put_object_def thenP_eval call_def split: if_splits)

lemma load_messages: "hoare (\<lambda>s. cl_queue s = q \<and> cl_taken s = tk) (load_aggregates E prefix a)
    (\<lambda>_ s. cl_queue s = q \<and> cl_taken s = tk) (\<lambda>_ s. cl_queue s = q \<and> cl_taken s = tk)"
proof -
  have put: "hoare (\<lambda>s. cl_queue s = q \<and> cl_taken s = tk) (put_object E b k body)
    (\<lambda>_ s. cl_queue s = q \<and> cl_taken s = tk) (\<lambda>_ s. cl_queue s = q \<and> cl_taken s = tk)" for b k body
    by (rule hoareI) (auto dest: put_object_messages)
  show ?thesis unfolding load_aggregates_def Let_def by (intro hoare_then [OF put] put)
qed

lemma analytics_messages:
  assumes "poll E 0 0 [] s = (Inr queued, s1)" "analytics_run E prefix aggregate s = (r, s')"
  shows "cl_queue s' = cl_queue s1 \<and> cl_taken s' = cl_taken s1"
proof -
  obtain r2 s2 where sc: "scan E analytics_table (of_day (ee_today E)) s1 = (r2, s2)"
    by (cases "scan E analytics_table (of_day (ee_today E)) s1")
  then have same: "cl_queue s2 = cl_queue s1 \<and> cl_taken s2 = cl_taken s1" using scan_state by fastforce
  show ?thesis
  proof (cases r2)
    case (Inl e)
    with assms sc same show ?thesis by (simp add: analytics_run_def bindP_eval)
  next
    case (Inr items)
    let ?events = "queued @ map JDict items"
    consider "?events = [] \<or> aggregate ?events = None" | a where "?events \<noteq> []" "aggregate ?events = Some a" by fastforce
    then show ?thesis
    proof cases
      case 1
      with assms sc Inr same show ?thesis by (auto simp: analytics_run_def bindP_eval Let_def split: if_splits)
    next
      case (2 a)
      with assms sc Inr have run: "thenP (load_aggregates E prefix a) (retP (Analyzed (length ?events))) s2 = (r, s')"
        by (auto simp: analytics_run_def bindP_eval Let_def split: if_splits)
      obtain r3 s3 where l: "load_aggregates E prefix a s2 = (r3, s3)" by (cases "load_aggregates E prefix a s2")
      with run have "s' = s3" by (auto simp: thenP_eval split: sum.splits)
      moreover have "cl_queue s3 = cl_queue s1 \<and> cl_taken s3 = cl_taken s1"
        using load_messages [of "cl_queue s1" "cl_taken s1" E prefix a] same l by (cases r3) (auto simp: hoare_def)
      ultimately show ?thesis by simp
    qed
  qed
qed

lemma load_fails:
  "load_aggregates E prefix a s = (r, s') \<Longrightarrow> ee_fails E (cl_tick s) \<Longrightarrow> isl r \<and> cl_objects s' = cl_objects s"
  by (auto simp: load_aggregates_def Let_def thenP_eval put_object_def call_def)

text \<open>C37. The events are deleted from the queue before anything of them is stored: when the scan that follows
  fails, or the first write to the data lake, the run fails with no object written, and an event that it had
  received is neither waiting in the queue nor out of sight there, so that no later run counts it.
\<close>

theorem failed_run_loses_events:
  assumes "poll E 0 0 [] s = (Inr queued, s1)" "scan E analytics_table (of_day (ee_today E)) s1 = (r2, s2)"
    and "isl r2 \<or> ee_fails E (cl_tick s2)" "analytics_run E prefix aggregate s = (r, s')"
    and "m \<in> set (cl_queue s)" "m \<notin> set (cl_queue s1)" "m \<notin> set (cl_taken s)" "ee_loads E (snd m) = Some v"
  shows "isl r \<and> cl_objects s' = cl_objects s \<and> v \<in> set queued \<and> m \<notin> set (cl_queue s') \<and> m \<notin> set (cl_taken s')"
proof -
  from poll_accounts [OF assms(1)] obtain got where got: "cl_queue s = got @ cl_queue s1" "queued = parsed E got"
      "set (cl_taken s1) \<subseteq> set (cl_taken s) \<union> malformed E got" "cl_objects s1 = cl_objects s" by auto
  have m: "m \<in> set got" using got(1) assms(5,6) by auto
  then have v: "v \<in> set queued" unfolding got(2) using assms(8) by (rule parsed_member)
  moreover have "m \<notin> set (cl_taken s1)" using got(3) assms(7,8) by (auto simp: malformed_def)
  moreover have "cl_objects s2 = cl_objects s" using scan_state [OF assms(2)] got(4) by auto
  then have "isl r \<and> cl_objects s' = cl_objects s"
    using assms(1-4) v
    by (cases r2) (auto simp: analytics_run_def bindP_eval thenP_eval Let_def dest!: load_fails
        split: option.splits sum.splits prod.splits if_splits)
  ultimately show ?thesis using analytics_messages [OF assms(1,4)] assms(6) by simp
qed

section \<open>A sample\<close>

text \<open>The first write to the data lake fails.\<close>

definition sample_analytics :: etl_env where
  "sample_analytics = (sample_etl [4])\<lparr>ee_arrive := (\<lambda>_. 5)\<rparr>"

definition sample_queue :: cloud where
  "sample_queue = sample_cloud [] [] [(''m1'', ''x''), (''m2'', []), (''m3'', ''y'')]"

definition sample_aggregate :: "json list \<Rightarrow> aggregates option" where
  "sample_aggregate _ = Some \<lparr>ag_summary = ''s'', ag_hourly = ''h'', ag_users = ''u'', ag_report = ''r''\<rparr>"

lemma sample_poll: "fst (poll sample_analytics 0 0 [] sample_queue) =
    Inr [JDict [(''event_id'', JStr ''x'')], JDict [(''event_id'', JStr ''y'')]]"
  "cl_queue (snd (poll sample_analytics 0 0 [] sample_queue)) = []"
  by code_simp+

lemma sample_scan: "ee_fails sample_analytics (cl_tick (snd (scan sample_analytics analytics_table
    (of_day (ee_today sample_analytics)) (snd (poll sample_analytics 0 0 [] sample_queue)))))"
  by code_simp

lemma failed_run_loses_events_witness:
  "isl (fst (analytics_run sample_analytics ''analytics/daily'' sample_aggregate sample_queue)) \<and>
   (''m1'', ''x'') \<in> set (cl_queue sample_queue) \<and>
   (''m1'', ''x'') \<notin> set (cl_queue (snd (analytics_run sample_analytics ''analytics/daily'' sample_aggregate sample_queue))) \<and>
   (''m1'', ''x'') \<notin> set (cl_taken (snd (analytics_run sample_analytics ''analytics/daily'' sample_aggregate sample_queue)))"
proof -
  let ?run = "analytics_run sample_analytics ''analytics/daily'' sample_aggregate sample_queue"
  have polled: "poll sample_analytics 0 0 [] sample_queue =
    (Inr [JDict [(''event_id'', JStr ''x'')], JDict [(''event_id'', JStr ''y'')]], snd (poll sample_analytics 0 0 [] sample_queue))"
    using sample_poll(1) by (simp add: prod_eq_iff)
  let ?scan = "scan sample_analytics analytics_table (of_day (ee_today sample_analytics)) (snd (poll sample_analytics 0 0 [] sample_queue))"
  have fails: "isl (fst ?scan) \<or> ee_fails sample_analytics (cl_tick (snd ?scan))" by (simp add: sample_scan)
  have m: "(''m1'', ''x'') \<in> set (cl_queue sample_queue)" "(''m1'', ''x'') \<notin> set (cl_taken sample_queue)"
    by (simp_all add: sample_queue_def sample_cloud_def)
  have v: "ee_loads sample_analytics (snd (''m1'', ''x'')) = Some (JDict [(''event_id'', JStr ''x'')])"
    by (simp add: sample_analytics_def sample_etl_def)
  have "(''m1'', ''x'') \<notin> set (cl_queue (snd (poll sample_analytics 0 0 [] sample_queue)))" by (simp add: sample_poll(2))
  from failed_run_loses_events [OF polled prod.collapse [symmetric] fails prod.collapse [symmetric] m(1) this m(2) v] m(1) show ?thesis by blast
qed

lemma poll_calls_bounded_witness: "cl_tick (snd (poll sample_analytics 0 0 [] sample_queue)) \<le> 40003"
  using poll_calls_bounded [of sample_analytics sample_queue "fst (poll sample_analytics 0 0 [] sample_queue)"
      "snd (poll sample_analytics 0 0 [] sample_queue)"] by (simp add: sample_queue_def sample_cloud_def)

end
