(* ===== verification/Etl_Activity.thy ===== *)
theory Etl_Activity
  imports Etl_Analytics Etl_Archive Ldm_Hashing
begin

text \<open>
  The daily report on user activity (\<open>etl/scripts/user_activity_daily.py\<close>): the daily summaries of Postgres, the
  files of top users that the analytics job stored in the last thirty days, and the report. The decompression of
  a file is an argument. The mean number of events, which is a floating point number, is left out.
\<close>

section \<open>The summaries\<close>

definition lookback_days :: nat where
  "lookback_days = 30"

text \<open>A row of \<open>analytics_daily_summary\<close>: its day and the eleven counts.\<close>

type_synonym summary_row = "date \<times> int list"

definition summary_columns :: "string list" where
  "summary_columns = [''active_users'', ''active_documents'', ''active_files'', ''total_events'', ''documents_created'',
     ''documents_edited'', ''comments_added'', ''files_uploaded'', ''files_shared'', ''files_deleted'', ''bytes_uploaded'']"

definition in_lookback :: "date \<Rightarrow> date \<Rightarrow> bool" where
  "in_lookback today d \<longleftrightarrow> (case days_before lookback_days today of None \<Rightarrow> True | Some e \<Rightarrow> e \<le> d) \<and> d \<le> today"

definition select_summaries :: "date \<Rightarrow> summary_row list \<Rightarrow> summary_row list" where
  "select_summaries today rows = sort_key fst (filter (\<lambda>r. in_lookback today (fst r)) rows)"

definition summary_dict :: "summary_row \<Rightarrow> dict" where
  "summary_dict r = (''report_date'', JStr (isoformat (fst r))) # zip summary_columns (map JInt (snd r))"

definition summary_count :: "string \<Rightarrow> dict \<Rightarrow> int" where
  "summary_count name d = (case jget name (JInt 0) d of JInt i \<Rightarrow> i | _ \<Rightarrow> 0)"

section \<open>The entries of a file\<close>

record user_total =
  ut_user :: json
  ut_total :: int
  ut_days :: nat
  ut_actions :: "(string \<times> int) list"

text \<open>The dictionary of the totals, by the value that Python compares keys with: \<open>True == 1\<close>.\<close>

type_synonym totals = "(json \<times> user_total) list"

fun dict_key :: "json \<Rightarrow> json option" where
  "dict_key (JList xs) = None"
| "dict_key (JDict d) = None"
| "dict_key (JBool b) = Some (JInt (if b then 1 else 0))"
| "dict_key v = Some v"

fun number :: "json \<Rightarrow> int option" where
  "number (JInt i) = Some i"
| "number (JBool b) = Some (if b then 1 else 0)"
| "number _ = None"

definition numberP :: "json \<Rightarrow> ('s, etl_error, int) prog" where
  "numberP v = (case number v of None \<Rightarrow> raiseP (BadType ''unsupported operand'') | Some n \<Rightarrow> retP n)"

definition new_user :: "json \<Rightarrow> user_total" where
  "new_user uid = \<lparr>ut_user = uid, ut_total = 0, ut_days = 0, ut_actions = []\<rparr>"

definition ensure_user :: "json \<Rightarrow> json \<Rightarrow> totals \<Rightarrow> totals" where
  "ensure_user k uid T = (if map_of T k = None then T @ [(k, new_user uid)] else T)"

definition change_user :: "json \<Rightarrow> (user_total \<Rightarrow> user_total) \<Rightarrow> totals \<Rightarrow> totals" where
  "change_user k f T = (case map_of T k of None \<Rightarrow> T | Some u \<Rightarrow> AList.update k (f u) T)"

definition add_total :: "int \<Rightarrow> user_total \<Rightarrow> user_total" where
  "add_total n u = u\<lparr>ut_total := ut_total u + n\<rparr>"

definition add_day :: "user_total \<Rightarrow> user_total" where
  "add_day u = u\<lparr>ut_days := Suc (ut_days u)\<rparr>"

definition add_action :: "string \<Rightarrow> int \<Rightarrow> user_total \<Rightarrow> user_total" where
  "add_action t n u = u\<lparr>ut_actions := AList.update t ((case map_of (ut_actions u) t of None \<Rightarrow> 0 | Some p \<Rightarrow> p) + n) (ut_actions u)\<rparr>"

definition entry_user :: "dict \<Rightarrow> json" where
  "entry_user d = jget ''user_id'' (JStr ''unknown'') d"

definition action_step :: "json \<Rightarrow> string \<times> json \<Rightarrow> (totals, etl_error, unit) prog" where
  "action_step k a = bindP (numberP (snd a)) (\<lambda>n. modP (change_user k (add_action (fst a) n)))"

definition add_entry :: "dict \<Rightarrow> (totals, etl_error, unit) prog" where
  "add_entry d = (case dict_key (entry_user d) of
       None \<Rightarrow> raiseP (BadType ''unhashable type'')
     | Some k \<Rightarrow>
         thenP (modP (ensure_user k (entry_user d)))
        (bindP (numberP (jget ''total'' (JInt 0) d)) (\<lambda>n.
         thenP (modP (change_user k (add_total n)))
        (thenP (modP (change_user k add_day))
        (case jget ''actions'' (JDict []) d of
            JDict acts \<Rightarrow> forP acts (action_step k)
          | _ \<Rightarrow> raiseP (BadType ''items''))))))"

definition add_line :: "etl_env \<Rightarrow> string \<Rightarrow> (totals, etl_error, unit) prog" where
  "add_line E line =
     (if line = [] then retP ()
      else case ee_loads E line of
          None \<Rightarrow> raiseP EncodeError
        | Some (JDict d) \<Rightarrow> add_entry d
        | Some _ \<Rightarrow> raiseP (BadType ''get''))"

section \<open>The job\<close>

text \<open>\<open>strftime("%Y")\<close> does not pad the year.\<close>

definition activity_key :: "date \<Rightarrow> string" where
  "activity_key d = ''analytics/daily/year='' @ str_nat (d_year d) @ ''/month='' @ pad_nat 2 (d_month d) @ ''/day='' @
     pad_nat 2 (d_day d) @ ''/top_users.jsonl.gz''"

definition get_object :: "etl_env \<Rightarrow> string \<Rightarrow> string \<Rightarrow> string job" where
  "get_object E bucket key = thenP (call E ''GetObject'')
     (bindP (getP (\<lambda>s. object_at s bucket key)) (\<lambda>found. case found of
        None \<Rightarrow> raiseP (AwsError ''NoSuchKey'') | Some body \<Rightarrow> retP body))"

definition text_lines :: "string \<Rightarrow> string list" where
  "text_lines t = split_by (\<lambda>c. c = CHR 0x0A) (py_strip t)"

definition day_lines :: "etl_env \<Rightarrow> (string \<Rightarrow> string option) \<Rightarrow> date \<Rightarrow> string list job" where
  "day_lines E gunzip d = bindP (get_object E (ee_lake E) (activity_key d)) (\<lambda>body. case gunzip body of
       None \<Rightarrow> raiseP EncodeError | Some t \<Rightarrow> retP (text_lines t))"

text \<open>
  The body of the loop over the days: \<open>except: pass\<close> drops whatever goes wrong, and what the lines before had
  added stays.
\<close>

definition day_step :: "etl_env \<Rightarrow> (string \<Rightarrow> string option) \<Rightarrow> nat \<Rightarrow> totals \<Rightarrow> totals job" where
  "day_step E gunzip n T = (case days_before n (ee_today E) of
       None \<Rightarrow> raiseP OutOfRange
     | Some d \<Rightarrow>
         bindP (tryP (day_lines E gunzip d) (\<lambda>_. retP [])) (\<lambda>ls. retP (snd (forP ls (add_line E) T))))"

definition activity_users :: "etl_env \<Rightarrow> (string \<Rightarrow> string option) \<Rightarrow> user_total list job" where
  "activity_users E gunzip = bindP (foldP (day_step E gunzip) [0..<lookback_days] [])
     (\<lambda>T. retP (sort_key (\<lambda>u. - ut_total u) (map snd T)))"

definition user_json :: "user_total \<Rightarrow> dict" where
  "user_json u = [(''user_id'', ut_user u), (''total_actions'', JInt (ut_total u)), (''active_days'', JInt (int (ut_days u))),
     (''actions_by_type'', JDict (map (\<lambda>(t, n). (t, JInt n)) (ut_actions u)))]"

definition activity_report :: "date \<Rightarrow> dict list \<Rightarrow> user_total list \<Rightarrow> dict" where
  "activity_report today ds us =
     [(''report_type'', JStr ''user_activity''), (''report_date'', JStr (isoformat today)), (''lookback_days'', JInt (int lookback_days)),
      (''trends'', JDict [(''total_events'', JInt (sum_list (map (summary_count ''total_events'') ds))),
         (''peak_active_users'', JInt (case max_by id (map (summary_count ''active_users'') ds) of None \<Rightarrow> 0 | Some m \<Rightarrow> m)),
         (''reporting_days'', JInt (int (length ds)))]),
      (''daily_summaries'', JList (map JDict ds)),
      (''user_summaries'', JList (map (JDict \<circ> user_json) (take 500 us))),
      (''top_users'', JList (map (JDict \<circ> user_json) (take 20 us)))]"

definition store_users :: "etl_env \<Rightarrow> user_total list \<Rightarrow> unit job" where
  "store_users E us =
     (if us = [] then retP ()
      else bindP (liftP (mapE (\<lambda>u. encode_event E (user_json u)) us)) (\<lambda>ls.
        put_object E (ee_lake E) (''reports/user-activity/'' @ isoformat (ee_today E) @ ''/user_summaries.jsonl'') (concat ls)))"

definition activity_run :: "etl_env \<Rightarrow> (string \<Rightarrow> string option) \<Rightarrow> summary_row list option \<Rightarrow> nat job" where
  "activity_run E gunzip stored = (case stored of
       None \<Rightarrow> raiseP QueryFailed
     | Some rows \<Rightarrow>
         bindP (activity_users E gunzip) (\<lambda>us.
         let report = ee_report E (activity_report (ee_today E) (map summary_dict (select_summaries (ee_today E) rows)) us) in
         thenP (put_object E (ee_lake E) (''reports/user-activity/'' @ isoformat (ee_today E) @ ''/activity_report.json'') report)
        (thenP (put_object E (ee_lake E) ''reports/user-activity/latest/activity_report.json'' report)
        (thenP (store_users E (take 500 us)) (retP (length (take 500 us)))))))"

section \<open>The totals of a list of entries\<close>

text \<open>An entry whose numbers are numbers.\<close>

definition entry_ok :: "dict \<Rightarrow> bool" where
  "entry_ok d \<longleftrightarrow> dict_key (entry_user d) \<noteq> None \<and> number (jget ''total'' (JInt 0) d) \<noteq> None \<and>
     (case jget ''actions'' (JDict []) d of JDict acts \<Rightarrow> list_all (\<lambda>(t, c). number c \<noteq> None) acts | _ \<Rightarrow> False)"

definition entry_total :: "dict \<Rightarrow> int" where
  "entry_total d = the (number (jget ''total'' (JInt 0) d))"

definition entry_actions :: "dict \<Rightarrow> (string \<times> int) list" where
  "entry_actions d = (case jget ''actions'' (JDict []) d of JDict acts \<Rightarrow> map (\<lambda>(t, c). (t, the (number c))) acts | _ \<Rightarrow> [])"

definition count_action :: "string \<times> int \<Rightarrow> (string \<times> int) list \<Rightarrow> (string \<times> int) list" where
  "count_action a A = AList.update (fst a) ((case map_of A (fst a) of None \<Rightarrow> 0 | Some p \<Rightarrow> p) + snd a) A"

definition entries_of :: "json \<Rightarrow> dict list \<Rightarrow> dict list" where
  "entries_of k es = filter (\<lambda>d. dict_key (entry_user d) = Some k) es"

definition tally :: "json \<Rightarrow> dict list \<Rightarrow> user_total option" where
  "tally k es = (case entries_of k es of [] \<Rightarrow> None
     | d # ds \<Rightarrow> Some \<lparr>ut_user = entry_user d, ut_total = sum_list (map entry_total (d # ds)), ut_days = length (d # ds),
         ut_actions = fold count_action (concat (map entry_actions (d # ds))) []\<rparr>)"

definition tallied :: "dict list \<Rightarrow> totals \<Rightarrow> bool" where
  "tallied es T \<longleftrightarrow> distinct (map fst T) \<and> (\<forall>k. map_of T k = tally k es)"

lemma count_action_sum:
  "map_of (fold count_action acts A) t = (if t \<in> fst ` set acts \<or> map_of A t \<noteq> None
     then Some ((case map_of A t of None \<Rightarrow> 0 | Some p \<Rightarrow> p) + (\<Sum>(u, n) \<leftarrow> filter (\<lambda>a. fst a = t) acts. n)) else None)"
  by (induction acts arbitrary: A) (auto simp: count_action_def update_conv' split: option.splits)

lemma fold_add_action:
  "fold (\<lambda>(t, n). add_action t n) acts u = u\<lparr>ut_actions := fold count_action acts (ut_actions u)\<rparr>"
  by (induction acts arbitrary: u) (auto simp: add_action_def count_action_def)

lemma change_user_result:
  assumes "map_of T k = Some u"
  shows "map_of (change_user k f T) = (map_of T)(k \<mapsto> f u)" "distinct (map fst T) \<Longrightarrow> distinct (map fst (change_user k f T))"
  using assms by (simp_all add: change_user_def update_conv' distinct_update)

lemma ensure_user_result:
  "map_of (ensure_user k uid T) = (case map_of T k of None \<Rightarrow> (map_of T)(k \<mapsto> new_user uid) | Some _ \<Rightarrow> map_of T)"
  "distinct (map fst T) \<Longrightarrow> distinct (map fst (ensure_user k uid T))"
  by (auto simp: ensure_user_def fun_eq_iff map_add_def map_of_eq_None_iff dest: map_of_SomeD split: option.splits)
    (metis domI domIff dom_map_of_conv_image_fst)+

lemma add_actions_result:
  assumes "list_all (\<lambda>(t, c). number c \<noteq> None) acts" "map_of T k = Some u" "distinct (map fst T)"
  shows "\<exists>T'. forP acts (action_step k) T = (Inr (), T') \<and>
    distinct (map fst T') \<and>
    map_of T' = (map_of T)(k \<mapsto> fold (\<lambda>(t, n). add_action t n) (map (\<lambda>(t, c). (t, the (number c))) acts) u)"
  using assms
proof (induction acts arbitrary: T u)
  case (Cons a acts)
  obtain t c n where a: "a = (t, c)" "number c = Some n" using Cons.prems(1) by (cases a) auto
  let ?T = "change_user k (add_action t n) T"
  note ch = change_user_result [OF Cons.prems(2), of "add_action t n"]
  have k: "map_of ?T k = Some (add_action t n u)" by (simp add: ch)
  have ok: "list_all (\<lambda>(t, c). number c \<noteq> None) acts" using Cons.prems(1) by simp
  from Cons.IH [OF ok k ch(2) [OF Cons.prems(3)]] obtain T' where
      "forP acts (action_step k) ?T = (Inr (), T')" "distinct (map fst T')"
      "map_of T' = (map_of ?T)(k \<mapsto> fold (\<lambda>(t, n). add_action t n) (map (\<lambda>(t, c). (t, the (number c))) acts) (add_action t n u))"
    by blast
  moreover have "action_step k a T = (Inr (), ?T)" by (simp add: a action_step_def numberP_def bindP_eval)
  ultimately show ?case by (auto simp: thenP_eval a ch(1))
qed (simp add: fun_upd_idem)

lemma add_entry_tallied:
  assumes "entry_ok d" "tallied es T"
  shows "\<exists>T'. add_entry d T = (Inr (), T') \<and> tallied (es @ [d]) T'"
proof -
  obtain k n acts where d: "dict_key (entry_user d) = Some k" "number (jget ''total'' (JInt 0) d) = Some n"
      "jget ''actions'' (JDict []) d = JDict acts" "list_all (\<lambda>(t, c). number c \<noteq> None) acts"
    using assms(1) by (auto simp: entry_ok_def split: json.splits)
  have T: "distinct (map fst T)" "map_of T k' = tally k' es" for k' using assms(2) by (simp_all add: tallied_def)
  let ?T1 = "ensure_user k (entry_user d) T"
  let ?T2 = "change_user k (add_total n) ?T1"
  let ?T3 = "change_user k add_day ?T2"
  obtain u where u: "u = (case tally k es of None \<Rightarrow> new_user (entry_user d) | Some u \<Rightarrow> u)" by blast
  note e = ensure_user_result [where k = k and uid = "entry_user d" and T = T]
  have m1: "map_of ?T1 = (map_of T)(k \<mapsto> u)" by (auto simp: e(1) T(2) u fun_eq_iff split: option.splits)
  then have k1: "map_of ?T1 k = Some u" by simp
  note c2 = change_user_result [OF k1, of "add_total n"]
  have k2: "map_of ?T2 k = Some (add_total n u)" by (simp add: c2)
  note c3 = change_user_result [OF k2, of add_day]
  have k3: "map_of ?T3 k = Some (add_day (add_total n u))" by (simp add: c3)
  from add_actions_result [OF d(4) k3 c3(2) [OF c2(2) [OF e(2) [OF T(1)]]]] obtain T' where
      run: "forP acts (action_step k) ?T3 = (Inr (), T')" "distinct (map fst T')"
      "map_of T' = (map_of ?T3)(k \<mapsto> fold (\<lambda>(t, n). add_action t n) (map (\<lambda>(t, c). (t, the (number c))) acts) (add_day (add_total n u)))"
    by blast
  have acts: "map (\<lambda>(t, c). (t, the (number c))) acts = entry_actions d" by (simp add: entry_actions_def d(3))
  have "tally k (es @ [d]) = Some (fold (\<lambda>(t, n). add_action t n) (entry_actions d) (add_day (add_total n u)))"
    unfolding fold_add_action u
    by (auto simp: tally_def entries_of_def d(1,2) new_user_def add_total_def add_day_def entry_total_def split: list.splits)
  moreover have "tally k' (es @ [d]) = tally k' es" if "k' \<noteq> k" for k' using that by (simp add: tally_def entries_of_def d(1))
  ultimately have "map_of T' k' = tally k' (es @ [d])" for k'
    unfolding run(3) acts c3(1) c2(1) m1 by (auto simp: T(2))
  with run(2) have "tallied (es @ [d]) T'" by (simp add: tallied_def)
  moreover have "add_entry d T = (Inr (), T')"
    using run(1) by (simp add: add_entry_def d(1,3) thenP_eval bindP_eval numberP_def d(2))
  ultimately show ?thesis by blast
qed

section \<open>The totals of thirty days\<close>

text \<open>The entries of a file: up to the first line that is not the text of a dictionary.\<close>

fun readable :: "etl_env \<Rightarrow> string list \<Rightarrow> dict list" where
  "readable E [] = []"
| "readable E (l # ls) =
     (if l = [] then readable E ls else case ee_loads E l of Some (JDict d) \<Rightarrow> d # readable E ls | _ \<Rightarrow> [])"

lemma add_lines_tallied:
  assumes "list_all entry_ok (readable E ls)" "tallied es T"
  shows "tallied (es @ readable E ls) (snd (forP ls (add_line E) T))"
  using assms
proof (induction ls arbitrary: es T)
  case (Cons l ls)
  show ?case
  proof (cases "l = []")
    case True
    with Cons show ?thesis by (simp add: thenP_eval add_line_def)
  next
    case False
    show ?thesis
    proof (cases "\<exists>d. ee_loads E l = Some (JDict d)")
      case True
      then obtain d where d: "ee_loads E l = Some (JDict d)" by blast
      with False Cons.prems(1) have ok: "entry_ok d" "list_all entry_ok (readable E ls)" by auto
      from add_entry_tallied [OF ok(1) Cons.prems(2)] obtain T' where
          "add_entry d T = (Inr (), T')" "tallied (es @ [d]) T'" by blast
      with Cons.IH [OF ok(2) this(2)] False d show ?thesis by (simp add: thenP_eval add_line_def)
    next
      case other: False
      then have "readable E (l # ls) = []" using False by (auto split: option.splits json.splits)
      moreover have "\<exists>e. add_line E l T = (Inl e, T)" using False other by (auto simp: add_line_def split: option.splits json.splits)
      ultimately show ?thesis using Cons.prems(2) by (auto simp: thenP_eval)
    qed
  qed
qed simp

definition day_entries :: "etl_env \<Rightarrow> (string \<Rightarrow> string option) \<Rightarrow> cloud \<Rightarrow> nat \<Rightarrow> dict list" where
  "day_entries E gunzip s n = (case days_before n (ee_today E) of None \<Rightarrow> []
     | Some d \<Rightarrow> (case fst (day_lines E gunzip d (s\<lparr>cl_tick := cl_tick s + n\<rparr>)) of Inl _ \<Rightarrow> [] | Inr ls \<Rightarrow> readable E ls))"

definition lookback_entries :: "etl_env \<Rightarrow> (string \<Rightarrow> string option) \<Rightarrow> cloud \<Rightarrow> dict list" where
  "lookback_entries E gunzip s = concat (map (day_entries E gunzip s) [0..<lookback_days])"

lemma day_lines_state: "snd (day_lines E gunzip d s) = s\<lparr>cl_tick := Suc (cl_tick s)\<rparr>"
  by (auto simp: day_lines_def get_object_def bindP_eval thenP_eval call_def split: option.splits sum.splits prod.splits if_splits)

lemma day_step_tallied:
  assumes "day_step E gunzip n T (s\<lparr>cl_tick := cl_tick s + n\<rparr>) = (Inr T', s')" "tallied es T"
    and "list_all entry_ok (day_entries E gunzip s n)"
  shows "s' = s\<lparr>cl_tick := cl_tick s + Suc n\<rparr> \<and> tallied (es @ day_entries E gunzip s n) T'"
proof -
  let ?s = "s\<lparr>cl_tick := cl_tick s + n\<rparr>"
  obtain d where d: "days_before n (ee_today E) = Some d" using assms(1) by (cases "days_before n (ee_today E)") (auto simp: day_step_def)
  obtain r where r: "day_lines E gunzip d ?s = (r, s\<lparr>cl_tick := cl_tick s + Suc n\<rparr>)"
    using day_lines_state [of E gunzip d ?s] by (cases "day_lines E gunzip d ?s") auto
  show ?thesis
  proof (cases r)
    case (Inl e)
    with assms(1,2) r d show ?thesis by (auto simp: day_step_def day_entries_def bindP_eval tryP_eval)
  next
    case (Inr ls)
    then have e: "day_entries E gunzip s n = readable E ls" by (simp add: day_entries_def d r)
    from Inr assms(1) r d have "s' = s\<lparr>cl_tick := cl_tick s + Suc n\<rparr>" "T' = snd (forP ls (add_line E) T)"
      by (auto simp: day_step_def bindP_eval tryP_eval)
    with add_lines_tallied [of E ls es T] assms(2,3) show ?thesis by (simp add: e)
  qed
qed

lemma days_tallied:
  assumes "foldP (day_step E gunzip) [n..<m] T (s\<lparr>cl_tick := cl_tick s + n\<rparr>) = (Inr T', s')" "tallied es T"
    and "list_all entry_ok (concat (map (day_entries E gunzip s) [n..<m]))"
  shows "tallied (es @ concat (map (day_entries E gunzip s) [n..<m])) T'"
  using assms
proof (induction "m - n" arbitrary: n es T)
  case (Suc x)
  then have n: "[n..<m] = n # [Suc n..<m]" by (simp add: upt_conv_Cons)
  from Suc.prems(1) obtain U u where step: "day_step E gunzip n T (s\<lparr>cl_tick := cl_tick s + n\<rparr>) = (Inr U, u)"
      "foldP (day_step E gunzip) [Suc n..<m] U u = (Inr T', s')"
    unfolding n by (auto simp: bindP_Inr)
  from day_step_tallied [OF step(1) Suc.prems(2)] Suc.prems(3) have
      "u = s\<lparr>cl_tick := cl_tick s + Suc n\<rparr>" "tallied (es @ day_entries E gunzip s n) U" by (simp_all add: n)
  with Suc.hyps(1) [of "Suc n" U "es @ day_entries E gunzip s n"] Suc.hyps(2) Suc.prems(3) step(2) show ?case
    by (simp add: n)
qed auto

text \<open>C38. The list of users is the tally of the entries of the last thirty days, the most active first: a user is
  listed exactly when an entry names it, with the sum of its totals, the number of its entries and its
  counts per action. A file that is missing or unreadable, and the rest of a file after a line that cannot
  be read, are left out.
\<close>

theorem activity_users_exact:
  assumes "activity_users E gunzip s = (Inr us, s')" "list_all entry_ok (lookback_entries E gunzip s)"
  shows "(u \<in> set us \<longleftrightarrow> (\<exists>k. tally k (lookback_entries E gunzip s) = Some u)) \<and> sorted (map (\<lambda>u. - ut_total u) us) \<and> distinct us"
proof -
  obtain T where T: "foldP (day_step E gunzip) [0..<lookback_days] [] s = (Inr T, s')"
      "us = sort_key (\<lambda>u. - ut_total u) (map snd T)"
    using assms(1) by (auto simp: activity_users_def bindP_Inr)
  have start: "tallied [] []" by (simp add: tallied_def tally_def entries_of_def)
  from days_tallied [where n = 0 and s = s, OF _ start] T(1) assms(2) have t: "tallied (lookback_entries E gunzip s) T"
    by (simp add: lookback_entries_def)
  then have maps: "map_of T k = tally k (lookback_entries E gunzip s)" and dist: "distinct (map fst T)" for k
    by (simp_all add: tallied_def)
  have mem: "(k, v) \<in> set T \<longleftrightarrow> tally k (lookback_entries E gunzip s) = Some v" for k v
    using maps [of k] dist by (metis map_of_eq_Some_iff)
  have key: "dict_key (ut_user v) = Some k" if "tally k es = Some v" for k v es
    using that by (auto simp: tally_def entries_of_def filter_eq_Cons_iff split: list.splits)
  have "inj_on snd (set T)"
  proof (rule inj_onI)
    fix x y
    assume "x \<in> set T" "y \<in> set T" "snd x = snd y"
    then show "x = y" using mem [of "fst x" "snd x"] mem [of "fst y" "snd y"] key by (metis option.inject prod.collapse)
  qed
  with dist have "distinct us" by (simp add: T(2) distinct_map)
  moreover have "u \<in> set us \<longleftrightarrow> (\<exists>k. tally k (lookback_entries E gunzip s) = Some u)"
    using mem by (auto simp: T(2) image_iff) force
  ultimately show ?thesis by (simp add: T(2))
qed

section \<open>The files of the analytics job\<close>

lemma length_pad_nat: "n < 10 ^ k \<Longrightarrow> 0 < k \<Longrightarrow> length (pad_nat k n) = k"
  using ndigits_le [of n k] by (simp add: pad_nat_def length_rjust ndigits_def max_def)

lemma isoformat_parts:
  assumes "valid_date d"
  shows "take 4 (isoformat d) = pad_nat 4 (d_year d)" "take 2 (drop 5 (isoformat d)) = pad_nat 2 (d_month d)"
    "take 2 (drop 8 (isoformat d)) = pad_nat 2 (d_day d)"
proof -
  have "d_day d \<le> 31" "d_month d \<le> 12" "d_year d \<le> 9999"
    using assms by (auto simp: valid_date_def mk_date_def days_in_month_def split: if_splits)
  then have "length (pad_nat 4 (d_year d)) = 4" "length (pad_nat 2 (d_month d)) = 2" "length (pad_nat 2 (d_day d)) = 2"
    by (auto intro!: length_pad_nat)
  then show "take 4 (isoformat d) = pad_nat 4 (d_year d)" "take 2 (drop 5 (isoformat d)) = pad_nat 2 (d_month d)"
      "take 2 (drop 8 (isoformat d)) = pad_nat 2 (d_day d)"
    by (simp_all add: isoformat_def)
qed

lemma activity_key_partition:
  assumes "valid_date d" "1000 \<le> d_year d"
  shows "activity_key d = partition_key ''analytics/daily'' d @ ''/top_users.jsonl.gz''"
proof -
  have "d_year d \<le> 9999" using assms(1) by (auto simp: valid_date_def mk_date_def split: if_splits)
  with assms show ?thesis by (simp add: activity_key_def partition_key_def Let_def isoformat_parts str_nat_year)
qed

lemma analytics_run_stores:
  "analytics_run E prefix aggregate s = (Inr (Analyzed n), s') \<Longrightarrow>
     \<exists>q items a s2 u. n = length q + length items \<and> aggregate (q @ map JDict items) = Some a \<and>
       load_aggregates E prefix a s2 = (Inr u, s')"
  by (auto simp: analytics_run_def bindP_Inr thenP_Inr Let_def split: if_splits option.splits)

text \<open>What a load leaves under the key of the top users.\<close>

lemma load_users_stored:
  assumes "load_aggregates E prefix a s = (Inr u, s')" "prefix = ''analytics/daily''"
  shows "object_at s' (ee_lake E) (partition_key prefix (ee_today E) @ ''/top_users.jsonl.gz'') = Some (ee_gzip E (ag_users a))"
  using assms
  by (auto simp: load_aggregates_def Let_def thenP_eval put_object_def call_def update_conv' object_at_def partition_key_def
      split: if_splits)


section \<open>A sample\<close>

text \<open>
  A cloud with the files of two days and of no other; the second line of the later file cannot be read. The
  texts of entries are their users, the total and the action counts are fixed.
\<close>

definition sample_activity :: etl_env where
  "sample_activity = (sample_etl [])\<lparr>ee_loads := (\<lambda>l. if l = ''?'' then None
     else Some (JDict [(''user_id'', JStr l), (''total'', JInt 3), (''actions'', JDict [(''edit'', JInt 2), (''share'', JInt 1)])]))\<rparr>"

definition sample_files :: cloud where
  "sample_files = sample_cloud [((''lake'', activity_key (Date 2026 6 1)), [CHR ''a'', CHR 0x0A, CHR ''?'', CHR 0x0A, CHR ''b'', CHR 0x0A]),
     ((''lake'', activity_key (Date 2026 5 30)), [CHR ''c'', CHR 0x0A, CHR ''a'', CHR 0x0A])] [] []"

lemma sample_users:
  "fst (activity_users sample_activity Some sample_files) = Inr
     [\<lparr>ut_user = JStr ''a'', ut_total = 6, ut_days = 2, ut_actions = [(''edit'', 4), (''share'', 2)]\<rparr>,
      \<lparr>ut_user = JStr ''c'', ut_total = 3, ut_days = 1, ut_actions = [(''edit'', 2), (''share'', 1)]\<rparr>]"
  by code_simp

lemma sample_entries: "list_all entry_ok (lookback_entries sample_activity Some sample_files)"
  "tally (JStr ''b'') (lookback_entries sample_activity Some sample_files) = None"
  by code_simp+

lemma activity_users_exact_witness:
  "tally (JStr ''a'') (lookback_entries sample_activity Some sample_files) =
     Some \<lparr>ut_user = JStr ''a'', ut_total = 6, ut_days = 2, ut_actions = [(''edit'', 4), (''share'', 2)]\<rparr>"
proof -
  obtain s' where run: "activity_users sample_activity Some sample_files =
      (Inr [\<lparr>ut_user = JStr ''a'', ut_total = 6, ut_days = 2, ut_actions = [(''edit'', 4), (''share'', 2)]\<rparr>,
      \<lparr>ut_user = JStr ''c'', ut_total = 3, ut_days = 1, ut_actions = [(''edit'', 2), (''share'', 1)]\<rparr>], s')"
    using sample_users by (metis prod.collapse)
  have "\<exists>k. tally k (lookback_entries sample_activity Some sample_files) =
      Some \<lparr>ut_user = JStr ''a'', ut_total = 6, ut_days = 2, ut_actions = [(''edit'', 4), (''share'', 2)]\<rparr>"
    using activity_users_exact [OF run sample_entries(1)] by (metis list.set_intros(1))
  then obtain k where k: "tally k (lookback_entries sample_activity Some sample_files) =
      Some \<lparr>ut_user = JStr ''a'', ut_total = 6, ut_days = 2, ut_actions = [(''edit'', 4), (''share'', 2)]\<rparr>" ..
  then have "k = JStr ''a''" by (auto simp: tally_def entries_of_def filter_eq_Cons_iff split: list.splits)
  with k show ?thesis by simp
qed

definition sample_analytics_run :: "(etl_error + analyzed) \<times> cloud" where
  "sample_analytics_run = analytics_run ((sample_etl [])\<lparr>ee_arrive := (\<lambda>_. 5)\<rparr>) ''analytics/daily'' sample_aggregate sample_queue"

lemma sample_analytics_returns: "fst sample_analytics_run = Inr (Analyzed 2)"
  by code_simp


end
