(* ===== verification/Etl_Reindex.thy ===== *)
theory Etl_Reindex
  imports Search_Rebuild
begin

text \<open>
  The weekly reindexing (\<open>etl/scripts/search_reindex_weekly.py\<close>): the indices are deleted, created and
  configured, the pages of the document and file services are added one batch after the other, and the
  numbers of entries are compared at the end. A request to the search server stands with the wait for its
  task, whose status the job only prints; settings and counts are further operations of the server.
\<close>

section \<open>The job\<close>

definition api_page_size :: nat where
  "api_page_size = 100"

record 'm weekly =
  wk_server :: "'m meili"
  wk_settings :: "string \<Rightarrow> dict \<Rightarrow> ('m, search_error, task) prog"
  wk_count :: "string \<Rightarrow> ('m, search_error, nat) prog"

definition names :: "string list \<Rightarrow> json" where
  "names xs = JList (map JStr xs)"

definition documents_settings :: dict where
  "documents_settings = [(''searchableAttributes'', names [''title'', ''content'', ''tags'']),
     (''filterableAttributes'', names [''type'', ''owner_id'', ''tags'', ''created_at'', ''updated_at'']),
     (''sortableAttributes'', names [''updated_at'', ''created_at'']), (''rankingRules'', names ranking_rules)]"

definition files_settings :: dict where
  "files_settings = [(''searchableAttributes'', names [''name'', ''tags'', ''mime_type'']),
     (''filterableAttributes'', names [''type'', ''owner_id'', ''mime_type'', ''folder_id'', ''tags'', ''created_at'', ''updated_at'']),
     (''sortableAttributes'', names [''updated_at'', ''created_at'', ''size'']), (''rankingRules'', names ranking_rules)]"

definition clear_index :: "'m meili \<Rightarrow> string \<Rightarrow> ('m, search_error, unit) prog" where
  "clear_index M idx = tryP (bindP (ml_drop M idx) (\<lambda>_. retP ())) (\<lambda>_. retP ())"

definition create_index :: "'m meili \<Rightarrow> string \<Rightarrow> ('m, search_error, unit) prog" where
  "create_index M idx = bindP (ml_create M idx [(''uid'', JStr idx), (''primaryKey'', JStr ''id'')]) (\<lambda>_. retP ())"

definition prepare_indices :: "'m weekly \<Rightarrow> ('m, search_error, unit) prog" where
  "prepare_indices W = (let M = wk_server W in
     thenP (forP [ml_documents M, ml_files M] (clear_index M))
    (thenP (forP [ml_documents M, ml_files M] (create_index M))
    (thenP (wk_settings W (ml_documents M) documents_settings)
    (bindP (wk_settings W (ml_files M) files_settings) (\<lambda>_. retP ())))))"

definition weekly_document :: "dict \<Rightarrow> dict" where
  "weekly_document doc =
     [(''id'', jget ''document_id'' (jget ''id'' (JStr []) doc) doc), (''title'', jget ''title'' (JStr []) doc),
      (''content'', jget ''content'' (JStr []) doc), (''owner_id'', jget ''owner_id'' (JStr []) doc),
      (''tags'', jget ''tags'' (JList []) doc), (''type'', JStr ''document''),
      (''created_at'', jget ''created_at'' JNull doc), (''updated_at'', jget ''updated_at'' JNull doc)]"

definition weekly_file :: "dict \<Rightarrow> dict" where
  "weekly_file f =
     [(''id'', jget ''file_id'' (jget ''id'' (JStr []) f) f), (''name'', jget ''file_name'' (jget ''name'' (JStr []) f) f),
      (''owner_id'', jget ''owner_id'' (JStr []) f), (''mime_type'', jget ''mime_type'' (JStr []) f),
      (''folder_id'', jget ''folder_id'' (JStr []) f), (''size'', jget ''size_bytes'' (jget ''size'' (JInt 0) f) f),
      (''tags'', jget ''tags'' (JList []) f), (''type'', JStr ''file''),
      (''created_at'', jget ''created_at'' JNull f), (''updated_at'', jget ''updated_at'' JNull f)]"

text \<open>The listed entries of an answer; a failed request, a status from 400 on and an unreadable body raise.\<close>

definition weekly_items :: "string \<Rightarrow> fetched \<Rightarrow> search_error + json list" where
  "weekly_items key answered = (case answered of
       Unreachable \<Rightarrow> Inl (OtherErr ''ConnectionError'')
     | Answered status body \<Rightarrow>
         if 400 \<le> status then Inl (OtherErr ''HTTPError'')
         else (case body of
             None \<Rightarrow> Inl (OtherErr ''JSONDecodeError'')
           | Some (JDict d) \<Rightarrow>
               (let v = jget key (jget ''items'' (JList []) d) d in
                if \<not> truthy v then Inr []
                else (case v of JList xs \<Rightarrow> Inr xs | _ \<Rightarrow> Inl (OtherErr ''AttributeError'')))
           | Some _ \<Rightarrow> Inl (OtherErr ''AttributeError'')))"

text \<open>The loop over the pages; None when every page is full.\<close>

partial_function (option) weekly_pages ::
  "'m meili \<Rightarrow> string \<Rightarrow> (dict \<Rightarrow> dict) \<Rightarrow> string \<Rightarrow> (nat \<Rightarrow> fetched) \<Rightarrow> nat \<Rightarrow> nat \<Rightarrow> 'm \<Rightarrow> ((search_error + nat) \<times> 'm) option" where
  "weekly_pages M key entry idx fetch page indexed m = (case weekly_items key (fetch page) of
       Inl e \<Rightarrow> Some (Inl e, m)
     | Inr items \<Rightarrow>
         if items = [] then Some (Inr indexed, m)
         else (case mapE (item_entry entry) items of
             Inl e \<Rightarrow> Some (Inl e, m)
           | Inr batch \<Rightarrow> (case ml_add M idx batch m of
               (Inl e, m') \<Rightarrow> Some (Inl e, m')
             | (Inr tk, m') \<Rightarrow>
                 if length items < api_page_size then Some (Inr (indexed + length items), m')
                 else weekly_pages M key entry idx fetch (page + 1) (indexed + length items) m')))"

text \<open>The exit status 1 after a wrong count is an error here.\<close>

definition compare_counts :: "'m weekly \<Rightarrow> nat \<Rightarrow> nat \<Rightarrow> ('m, search_error, unit) prog" where
  "compare_counts W docs files = (let M = wk_server W in
     bindP (wk_count W (ml_documents M)) (\<lambda>n.
     bindP (wk_count W (ml_files M)) (\<lambda>k.
     if n \<noteq> docs then raiseP (OtherErr ''Documents index count mismatch'')
     else if k \<noteq> files then raiseP (OtherErr ''Files index count mismatch'')
     else retP ())))"

definition weekly_run :: "'m weekly \<Rightarrow> (nat \<Rightarrow> fetched) \<Rightarrow> (nat \<Rightarrow> fetched) \<Rightarrow> 'm \<Rightarrow> ((search_error + unit) \<times> 'm) option" where
  "weekly_run W docs files m = (let M = wk_server W in case prepare_indices W m of
       (Inl e, m1) \<Rightarrow> Some (Inl e, m1)
     | (Inr _, m1) \<Rightarrow>
         Option.bind (weekly_pages M ''documents'' weekly_document (ml_documents M) docs 1 0 m1) (\<lambda>(r, m2). case r of
             Inl e \<Rightarrow> Some (Inl e, m2)
           | Inr nd \<Rightarrow>
               Option.bind (weekly_pages M ''files'' weekly_file (ml_files M) files 1 0 m2) (\<lambda>(r', m3). case r' of
                   Inl e \<Rightarrow> Some (Inl e, m3)
                 | Inr nf \<Rightarrow> Some (compare_counts W nd nf m3))))"

section \<open>The pages of the document service\<close>

definition weekly_query :: "nat \<Rightarrow> filter_query" where
  "weekly_query page = (crawl_query page)\<lparr>fq_limit := api_page_size\<rparr>"

definition weekly_answers :: "doc_env \<Rightarrow> (nat \<Rightarrow> string) \<Rightarrow> store \<Rightarrow> nat \<Rightarrow> fetched" where
  "weekly_answers E stamp s page =
     (case fst (api_list E \<lparr>rq_authorization = None, rq_user_id = None\<rparr> (weekly_query page) s) of
        Inr l \<Rightarrow> Answered 200 (Some (JDict (listing_json stamp l)))
      | Inl (Http status msg) \<Rightarrow> Answered status None
      | Inl (Crash msg) \<Rightarrow> Answered 500 None)"

definition live_rows :: "store \<Rightarrow> document list" where
  "live_rows s = newest_first (filter (listed None None) (st_documents s))"

lemma weekly_page:
  assumes "1 \<le> page"
  shows "weekly_items ''documents'' (weekly_answers E stamp s page) =
    Inr (map (\<lambda>d. JDict (document_json stamp d)) (page_of page api_page_size (live_rows s)))"
  using assms
  by (auto simp: weekly_answers_def weekly_query_def crawl_query_def api_list_def is_filtered_def extract_user_id_def
      valid_request_def page_ok_def list_documents_def Let_def thenP_eval bindP_eval comp_def api_page_size_def live_rows_def
      weekly_items_def listing_json_def listing_of_def jget_def)

lemma weekly_step:
  assumes "1 \<le> page"
  shows "weekly_pages M ''documents'' weekly_document idx (weekly_answers E stamp s) page indexed m =
    (let ds = page_of page api_page_size (live_rows s) in
     if ds = [] then Some (Inr indexed, m)
     else (case ml_add M idx (map (\<lambda>d. weekly_document (document_json stamp d)) ds) m of
         (Inl e, m') \<Rightarrow> Some (Inl e, m')
       | (Inr tk, m') \<Rightarrow>
           if length ds < api_page_size then Some (Inr (indexed + length ds), m')
           else weekly_pages M ''documents'' weekly_document idx (weekly_answers E stamp s) (page + 1) (indexed + length ds) m'))"
  by (subst weekly_pages.simps) (simp add: weekly_page [OF assms] mapE_items Let_def split: prod.split sum.split)

lemma page_part: "page_of (Suc k) api_page_size xs = take api_page_size (drop (k * api_page_size) xs)"
  by (simp add: page_of_def)

lemma live_rows_facts:
  assumes "reached E s"
  shows "distinct (map dc_id (live_rows s))" "set (live_rows s) = {d \<in> set (st_documents s). listed None None d}"
proof -
  have "distinct (map dc_id (st_documents s))" using reached_sound [OF assms] by (simp add: sound_def wf_store_def)
  then have "distinct (map dc_id (filter (listed None None) (st_documents s)))" by (rule distinct_map_filter)
  moreover have "mset (map dc_id (live_rows s)) = mset (map dc_id (filter (listed None None) (st_documents s)))"
    unfolding live_rows_def using newest_first_sorted(2) by (metis mset_map)
  ultimately show "distinct (map dc_id (live_rows s))" using mset_eq_imp_distinct_iff by blast
  have "set (live_rows s) = set (filter (listed None None) (st_documents s))"
    unfolding live_rows_def using newest_first_sorted(2) by (metis set_mset_mset)
  then show "set (live_rows s) = {d \<in> set (st_documents s). listed None None d}" by simp
qed

text \<open>The loop ends in every database, whatever the search server answers.\<close>

lemma weekly_documents_end:
  "weekly_pages M ''documents'' weekly_document idx (weekly_answers E stamp s) (Suc k) indexed m \<noteq> None"
proof (induction "length (live_rows s) - k * api_page_size" arbitrary: k indexed m rule: less_induct)
  case less
  let ?ds = "page_of (Suc k) api_page_size (live_rows s)"
  obtain r m' where add: "ml_add M idx (map (\<lambda>d. weekly_document (document_json stamp d)) ?ds) m = (r, m')" by fastforce
  show ?case
  proof (cases "length ?ds < api_page_size \<or> ?ds = [] \<or> isl r")
    case True
    then show ?thesis using add
      by (subst weekly_step) (auto simp: Let_def split: sum.splits)
  next
    case False
    then have "api_page_size \<le> length ?ds" by simp
    moreover have "length ?ds = min api_page_size (length (live_rows s) - k * api_page_size)" by (simp add: page_part)
    ultimately have "length (live_rows s) - Suc k * api_page_size < length (live_rows s) - k * api_page_size"
      by (simp add: api_page_size_def min_def split: if_splits)
    with less [of "Suc k"] add False show ?thesis
      by (subst weekly_step) (auto simp: Let_def split: sum.splits)
  qed
qed

section \<open>What the job relies on\<close>

text \<open>
  Besides the laws that reindexing relies on: every addition has come to its end when the job goes on, and
  one that failed has changed nothing; deleting an index touches no other; settings change no entries; a count is that of the entries.
\<close>

definition weekly_laws :: "'m weekly \<Rightarrow> ('m \<Rightarrow> string \<Rightarrow> json \<Rightarrow> dict option) \<Rightarrow> bool" where
  "weekly_laws W view \<longleftrightarrow> rebuilds (wk_server W) view \<and>
     (\<forall>idx ds m tk m'. ml_add (wk_server W) idx ds m = (Inr tk, m') \<longrightarrow>
        tk_status tk = ''succeeded'' \<or> tk_status tk = ''failed'' \<and> view m' = view m) \<and>
     (\<forall>idx other m. other \<noteq> idx \<longrightarrow> view (snd (ml_drop (wk_server W) idx m)) other = view m other) \<and>
     (\<forall>idx opts. quiet view (wk_settings W idx opts)) \<and>
     (\<forall>idx m n m'. wk_count W idx m = (Inr n, m') \<longrightarrow>
        view m' = view m \<and> finite (dom (view m idx)) \<and> n = card (dom (view m idx))) \<and>
     (\<forall>idx. quiet view (wk_count W idx))"

definition put_rows :: "(nat \<Rightarrow> string) \<Rightarrow> document list \<Rightarrow> (json \<Rightarrow> dict option) \<Rightarrow> json \<Rightarrow> dict option" where
  "put_rows stamp ds f = fold put_hit (map (\<lambda>d. weekly_document (document_json stamp d)) ds) f"

lemma weekly_document_id: "jget ''id'' JNull (weekly_document (document_json stamp d)) = uuid_json (dc_id d)"
  by (simp add: weekly_document_def document_json_def jget_def)

lemma put_rows_Cons: "put_rows stamp (d # ds) f = put_rows stamp ds (f(uuid_json (dc_id d) \<mapsto> weekly_document (document_json stamp d)))"
  by (simp add: put_rows_def put_hit_def weekly_document_id)

lemma put_rows_dom: "dom (put_rows stamp ds f) = dom f \<union> (\<lambda>d. uuid_json (dc_id d)) ` set ds"
  by (induction ds arbitrary: f) (auto simp: put_rows_Cons, simp_all add: put_rows_def)

lemma put_rows_value:
  "put_rows stamp ds f k = Some e \<Longrightarrow> f k = Some e \<or> (\<exists>d \<in> set ds. k = uuid_json (dc_id d) \<and> e = weekly_document (document_json stamp d))"
proof (induction ds arbitrary: f)
  case Nil
  then show ?case by (simp add: put_rows_def)
next
  case (Cons d ds)
  from Cons.IH [OF Cons.prems [unfolded put_rows_Cons]] show ?case by (auto split: if_splits)
qed

text \<open>The loop: the number it reports is that of all rows, and what it added are some of them.\<close>

lemma weekly_documents_added:
  assumes "weekly_laws W view"
    and "weekly_pages (wk_server W) ''documents'' weekly_document idx (weekly_answers E stamp s) (Suc k) (k * api_page_size) m = Some (Inr n, m')"
    and "k * api_page_size \<le> length (live_rows s)"
  shows "n = length (live_rows s) \<and> (\<exists>ds. set ds \<subseteq> set (live_rows s) \<and> view m' = (view m)(idx := put_rows stamp ds (view m idx)))"
  using assms(2,3)
proof (induction "length (live_rows s) - k * api_page_size" arbitrary: k m rule: less_induct)
  case less
  let ?ds = "page_of (Suc k) api_page_size (live_rows s)"
  have len: "length ?ds = min api_page_size (length (live_rows s) - k * api_page_size)" by (simp add: page_part)
  have sub: "set ?ds \<subseteq> set (live_rows s)" by (auto simp: page_part dest: in_set_takeD in_set_dropD)
  note run = less.prems(1) [unfolded weekly_step [OF le_add1 [of 1 k, unfolded plus_1_eq_Suc]] Let_def]
  show ?case
  proof (cases "?ds = []")
    case True
    then have "length (live_rows s) \<le> k * api_page_size" using len by (simp add: api_page_size_def)
    moreover have "n = k * api_page_size" "m' = m" using run True by simp_all
    ultimately show ?thesis using less.prems(2) by (intro conjI exI [of _ "[]"]) (auto simp: put_rows_def)
  next
    case False
    obtain r m1 where add: "ml_add (wk_server W) idx (map (\<lambda>d. weekly_document (document_json stamp d)) ?ds) m = (r, m1)" by fastforce
    with run False obtain tk where r: "r = Inr tk" by (cases r) auto
    have obeys: "obeys (wk_server W) view" using assms(1) by (simp add: weekly_laws_def rebuilds_def)
    have "tk_status tk = ''succeeded'' \<or> tk_status tk = ''failed'' \<and> view m1 = view m"
      using assms(1) add r unfolding weekly_laws_def by blast
    moreover have "tk_status tk = ''succeeded'' \<Longrightarrow> view m1 = (view m)(idx := put_rows stamp ?ds (view m idx))"
      using obeys [unfolded obeys_def, THEN conjunct1, rule_format, OF add] r by (simp add: put_rows_def)
    ultimately obtain es where es: "set es \<subseteq> set (live_rows s)" "view m1 = (view m)(idx := put_rows stamp es (view m idx))"
    proof (elim disjE conjE)
      assume "tk_status tk = ''succeeded''" "tk_status tk = ''succeeded'' \<Longrightarrow> view m1 = (view m)(idx := put_rows stamp ?ds (view m idx))"
      then show ?thesis using that [OF sub] by blast
    next
      assume "view m1 = view m"
      then show ?thesis using that [of "[]"] by (simp add: put_rows_def)
    qed
    show ?thesis
    proof (cases "length ?ds < api_page_size")
      case True
      with run False add r have n: "n = k * api_page_size + length ?ds" "m' = m1" by simp_all
      have "k * api_page_size + length ?ds = length (live_rows s)" using True len less.prems(2) by simp
      with n es show ?thesis by auto
    next
      case full: False
      then have full': "length ?ds = api_page_size" using len by simp
      have rest: "weekly_pages (wk_server W) ''documents'' weekly_document idx (weekly_answers E stamp s) (Suc (Suc k))
          (Suc k * api_page_size) m1 = Some (Inr n, m')"
        using run False add r full full' by (simp add: add.commute)
      have le: "Suc k * api_page_size \<le> length (live_rows s)" using full' len less.prems(2) by (simp add: api_page_size_def)
      have "length (live_rows s) - Suc k * api_page_size < length (live_rows s) - k * api_page_size"
        using le by (simp add: api_page_size_def)
      from less.hyps [OF this rest le] obtain ds where ds: "n = length (live_rows s)" "set ds \<subseteq> set (live_rows s)"
          "view m' = (view m1)(idx := put_rows stamp ds (view m1 idx))" by blast
      have "view m' = (view m)(idx := put_rows stamp (es @ ds) (view m idx))"
        using ds(3) es(2) by (simp add: put_rows_def)
      with ds es(1) show ?thesis by (intro conjI exI [of _ "es @ ds"]) auto
    qed
  qed
qed

text \<open>Another loop adds to its own index only.\<close>

lemma weekly_pages_frame:
  assumes step: "\<And>ds m tk m1. ml_add M idx ds m = (Inr tk, m1) \<Longrightarrow> g m1 = g m"
    and run: "weekly_pages M key entry idx fetch page indexed m = Some r"
  shows "M = M \<longrightarrow> idx = idx \<longrightarrow> (\<forall>n m'. r = (Inr n, m') \<longrightarrow> g m' = g m)"
proof (rule weekly_pages.raw_induct [where P = "\<lambda>M' key entry i fetch page indexed m r.
      M' = M \<longrightarrow> i = idx \<longrightarrow> (\<forall>n m'. r = (Inr n, m') \<longrightarrow> g m' = g m)", OF _ run])
  fix f and M' :: "'a meili" and key i :: string and entry fetch and page indexed :: nat and m r
  assume IH: "\<And>M' key entry i fetch page indexed m r. f M' key entry i fetch page indexed m = Some r \<Longrightarrow>
      M' = M \<longrightarrow> i = idx \<longrightarrow> (\<forall>n m'. r = (Inr n, m') \<longrightarrow> g m' = g m)"
    and eq: "(case weekly_items key (fetch page) of
       Inl e \<Rightarrow> Some (Inl e, m)
     | Inr items \<Rightarrow>
         if items = [] then Some (Inr indexed, m)
         else (case mapE (item_entry entry) items of
             Inl e \<Rightarrow> Some (Inl e, m)
           | Inr batch \<Rightarrow> (case ml_add M' i batch m of
               (Inl e, m') \<Rightarrow> Some (Inl e, m')
             | (Inr tk, m') \<Rightarrow>
                 if length items < api_page_size then Some (Inr (indexed + length items), m')
                 else f M' key entry i fetch (page + 1) (indexed + length items) m'))) = Some r"
  show "M' = M \<longrightarrow> i = idx \<longrightarrow> (\<forall>n m'. r = (Inr n, m') \<longrightarrow> g m' = g m)"
  proof (intro impI allI)
    fix n m'
    assume same: "M' = M" "i = idx" and r: "r = (Inr n, m')"
    have "m' = m \<or> (\<exists>(items :: json list) batch tk m1. ml_add M' i batch m = (Inr tk, m1) \<and>
        (m' = m1 \<or> f M' key entry i fetch (page + 1) (indexed + length items) m1 = Some r))"
    proof (cases "weekly_items key (fetch page)")
      case (Inl e)
      with eq r show ?thesis by simp
    next
      case items: (Inr items)
      show ?thesis
      proof (cases "items = []")
        case True
        with eq r items show ?thesis by simp
      next
        case False
        show ?thesis
        proof (cases "mapE (item_entry entry) items")
          case (Inl e)
          with eq r items False show ?thesis by simp
        next
          case (Inr batch)
          obtain r1 m1 where add: "ml_add M' i batch m = (r1, m1)" by fastforce
          show ?thesis
          proof (cases r1)
            case (Inl e)
            with eq r items False Inr add show ?thesis by simp
          next
            case tk: (Inr tk)
            from eq r items False Inr add tk have
              "m' = m1 \<or> f M' key entry i fetch (page + 1) (indexed + length items) m1 = Some r" by (simp split: if_splits)
            with add tk show ?thesis by blast
          qed
        qed
      qed
    qed
    then consider "m' = m"
      | items :: "json list" and batch tk m1 where "ml_add M' i batch m = (Inr tk, m1)"
          "m' = m1 \<or> f M' key entry i fetch (page + 1) (indexed + length items) m1 = Some r"
      by blast
    then show "g m' = g m"
    proof cases
      case (2 items batch tk m1)
      with same have "g m1 = g m" by (auto dest: step)
      with 2(2) IH [of M' key entry i fetch "page + 1" "indexed + length items" m1 r] same r show ?thesis by auto
    qed simp
  qed
qed

lemma weekly_pages_frame_Inr:
  assumes "\<And>ds m tk m1. ml_add M idx ds m = (Inr tk, m1) \<Longrightarrow> g m1 = g m"
    and "weekly_pages M key entry idx fetch page indexed m = Some (Inr n, m')"
  shows "g m' = g m"
  using weekly_pages_frame [where g = g, OF assms] by simp

lemma weekly_add_other:
  assumes "weekly_laws W view" "other \<noteq> idx" "ml_add (wk_server W) idx ds m = (Inr tk, m1)"
  shows "view m1 other = view m other"
proof -
  have "obeys (wk_server W) view" using assms(1) by (simp add: weekly_laws_def rebuilds_def)
  from this [unfolded obeys_def, THEN conjunct1, rule_format, OF assms(3)]
  have "tk_status tk = ''succeeded'' \<longrightarrow> view m1 = (view m)(idx := fold put_hit ds (view m idx))" by blast
  moreover have "tk_status tk = ''succeeded'' \<or> tk_status tk = ''failed'' \<and> view m1 = view m"
    using assms(1,3) unfolding weekly_laws_def by blast
  ultimately show ?thesis using assms(2) by auto
qed

lemma weekly_pages_other:
  assumes "weekly_laws W view" "other \<noteq> idx" "weekly_pages (wk_server W) key entry idx fetch page indexed m = Some (Inr n, m')"
  shows "view m' other = view m other"
proof -
  have "ml_add (wk_server W) idx ds m = (Inr tk, m1) \<Longrightarrow> view m1 other = view m other" for ds m tk m1
    by (rule weekly_add_other [OF assms(1,2)])
  then show ?thesis by (rule weekly_pages_frame_Inr [where g = "\<lambda>m. view m other", OF _ assms(3)])
qed

section \<open>A run\<close>

lemma prepared:
  assumes laws: "weekly_laws W view" and run: "prepare_indices W m = (Inr u, m')"
    and drop: "droppable (fst (ml_drop (wk_server W) (ml_documents (wk_server W)) m))"
  shows "view m' (ml_documents (wk_server W)) = (\<lambda>_. None)"
proof -
  let ?M = "wk_server W"
  have quiet: "quiet view (ml_create ?M idx opts)" "quiet view (wk_settings W idx opts)" for idx opts
    using laws by (simp_all add: weekly_laws_def rebuilds_def)
  have names: "ml_documents ?M \<noteq> ml_files ?M" and rb: "rebuilds ?M view"
    and other: "view (snd (ml_drop ?M (ml_files ?M) m)) (ml_documents ?M) = view m (ml_documents ?M)" for m
    using laws by (simp_all add: weekly_laws_def rebuilds_def)
  note law = rb [unfolded rebuilds_def, THEN conjunct2, THEN conjunct2, THEN conjunct1, rule_format]
  have clear: "clear_index ?M idx m = (Inr (), snd (ml_drop ?M idx m))" for idx m
    by (auto simp: clear_index_def tryP_eval bindP_eval split: prod.splits sum.splits)
  have rest: "quiet view (thenP (forP [ml_documents ?M, ml_files ?M] (create_index ?M))
    (thenP (wk_settings W (ml_documents ?M) documents_settings)
    (bindP (wk_settings W (ml_files ?M) files_settings) (\<lambda>_. retP ()))))"
    unfolding create_index_def by (intro quiet_rules quiet)
  let ?m1 = "snd (ml_drop ?M (ml_documents ?M) m)"
  let ?m2 = "snd (ml_drop ?M (ml_files ?M) ?m1)"
  have "view m' = view ?m2"
    using run quietD [OF rest, of ?m2] by (auto simp: prepare_indices_def Let_def thenP_eval clear split: prod.splits sum.splits)
  moreover have "view ?m1 (ml_documents ?M) = (\<lambda>_. None)" using law [OF prod.collapse [symmetric] drop] by simp
  ultimately show ?thesis using other [of ?m1] by simp
qed

text \<open>The parts of a run that ends well.\<close>

lemma weekly_run_parts:
  assumes "weekly_run W docs files m = Some (Inr u, m')"
  shows "\<exists>u1 m1 nd m2 nf m3. prepare_indices W m = (Inr u1, m1) \<and>
    weekly_pages (wk_server W) ''documents'' weekly_document (ml_documents (wk_server W)) docs 1 0 m1 = Some (Inr nd, m2) \<and>
    weekly_pages (wk_server W) ''files'' weekly_file (ml_files (wk_server W)) files 1 0 m2 = Some (Inr nf, m3) \<and>
    compare_counts W nd nf m3 = (Inr u, m')"
proof -
  obtain r1 m1 where p: "prepare_indices W m = (r1, m1)" by fastforce
  with assms obtain u1 where r1: "r1 = Inr u1" by (cases r1) (auto simp: weekly_run_def)
  with assms p obtain r2 m2 where d: "weekly_pages (wk_server W) ''documents'' weekly_document (ml_documents (wk_server W)) docs 1 0 m1 = Some (r2, m2)"
    by (auto simp: weekly_run_def Let_def bind_eq_Some_conv)
  with assms p r1 obtain nd where r2: "r2 = Inr nd" by (cases r2) (auto simp: weekly_run_def Let_def)
  with assms p r1 d obtain r3 m3 where f: "weekly_pages (wk_server W) ''files'' weekly_file (ml_files (wk_server W)) files 1 0 m2 = Some (r3, m3)"
    by (auto simp: weekly_run_def Let_def bind_eq_Some_conv)
  with assms p r1 d r2 obtain nf where r3: "r3 = Inr nf" by (cases r3) (auto simp: weekly_run_def Let_def)
  from assms p r1 d r2 f r3 have "compare_counts W nd nf m3 = (Inr u, m')" by (simp add: weekly_run_def Let_def)
  with p r1 d r2 f r3 show ?thesis by blast
qed


section \<open>A sample\<close>

definition weekly_memory :: "memory weekly" where
  "weekly_memory = \<lparr>wk_server = memory_server, wk_settings = (\<lambda>idx opts. retP done_task),
     wk_count = (\<lambda>idx. getP (\<lambda>m. length (remdups (map fst (m idx)))))\<rparr>"

lemma memory_weekly: "weekly_laws weekly_memory entry_in"
proof -
  have "rebuilds (wk_server weekly_memory) entry_in" by (simp add: weekly_memory_def memory_rebuilds)
  moreover have "quiet entry_in (wk_settings weekly_memory idx opts)" "quiet entry_in (wk_count weekly_memory idx)" for idx opts
    by (simp_all add: weekly_memory_def quiet_rules)
  moreover have "view = entry_in m idx \<Longrightarrow> finite (dom view) \<and> length (remdups (map fst (m idx))) = card (dom view)" for view idx and m :: memory
    by (simp add: entry_in_def dom_map_of_conv_image_fst length_remdups_card_conv finite_dom_map_of)
  ultimately show ?thesis unfolding weekly_laws_def
    by (auto simp: weekly_memory_def memory_server_def thenP_eval done_task_def set_index_view)
qed

lemma sample_live: "live_rows sample_store = [sample_doc]"
  by (simp add: live_rows_def sample_facts newest_first_def listed_def) (simp add: sample_doc_def created_doc_def)

lemma weekly_memory_returns:
  "\<exists>m'. weekly_run weekly_memory (weekly_answers sample_env str_nat sample_store) (\<lambda>_. Answered 200 (Some (JDict []))) stale_memory = Some (Inr (), m')"
proof -
  let ?W = weekly_memory
  let ?m = "set_index ''files'' (\<lambda>_. []) (set_index ''documents'' (\<lambda>_. []) stale_memory)"
  let ?row = "weekly_document (document_json str_nat sample_doc)"
  have W: "wk_server ?W = memory_server" by (simp add: weekly_memory_def)
  have prep: "prepare_indices ?W stale_memory = (Inr (), ?m)"
    by (simp add: prepare_indices_def weekly_memory_def clear_index_def create_index_def memory_server_def tryP_eval bindP_eval thenP_eval Let_def)
  have docs: "weekly_pages memory_server ''documents'' weekly_document ''documents'' (weekly_answers sample_env str_nat sample_store) 1 0 ?m
      = Some (Inr 1, set_index ''documents'' (put_entries [?row]) ?m)"
    by (subst weekly_step) (simp_all add: sample_live page_of_def api_page_size_def memory_server_def thenP_eval Let_def)
  have files: "weekly_pages memory_server ''files'' weekly_file ''files'' (\<lambda>_. Answered 200 (Some (JDict []))) 1 0 m = Some (Inr 0, m)" for m
    by (subst weekly_pages.simps) (simp add: weekly_items_def jget_def)
  have "compare_counts ?W 1 0 (set_index ''documents'' (put_entries [?row]) ?m) = (Inr (), set_index ''documents'' (put_entries [?row]) ?m)"
    by (simp add: compare_counts_def weekly_memory_def memory_server_def bindP_eval Let_def set_index_def put_entries_def)
  then show ?thesis using prep docs files by (simp add: weekly_run_def W Let_def)
qed


end
