(* ===== verification/Spec2Isabelle.thy ===== *)
theory Spec2Isabelle
  imports Ldm_Runner_Facts Ldm_Validate_Facts Ldm_Spark Doc_Races Doc_Log Doc_Runtime Search_Rebuild Search_Pages
    Billing_Procs Etl_Archive Etl_Cleanup Etl_Activity Etl_Reindex
begin

text \<open>
  OtterWorks is a document platform of several services with a job that moves retained records from a
  mainframe extract into a relational target. This development models the parts of it that are written
  in Python and carry its own logic: the LDM migration job (\<open>migration/job/ldm\<close>), the
  document service (\<open>services/document-service/app\<close>), the search service (\<open>services/search-service/app\<close>), the billing
  service (\<open>services/billing-service/app\<close>) and the scheduled jobs (\<open>etl/scripts\<close>).

  \<^bold>\<open>The migration job.\<close> A run goes through the stages init, extract, load, validate, purge and reconcile,
  each of them resumable, over a source, a target and a blob store that are reached through driver
  protocols. A stage is a program over \<open>('s, 't, 'b) world\<close> (source, target, files and blobs); a program
  returns or raises and keeps the state that it reached (\<open>prog\<close> in \<open>Py_Prelude\<close>, with a Hoare calculus).
  Theories, in the order of the code: \<open>Ldm_Errors\<close> (\<open>errors.py\<close>), \<open>Ldm_Copybook\<close> (\<open>copybook.py\<close>),
  \<open>Ldm_Decimal\<close>, \<open>Ldm_Numeric\<close> and \<open>Ldm_Convert\<close> (\<open>convert.py\<close>), \<open>Ldm_Typemap\<close> (\<open>typemap.py\<close>), \<open>Ldm_Hashing\<close>
  (\<open>hashing.py\<close>), \<open>Ldm_Config\<close> (\<open>config.py\<close>), \<open>Ldm_Drivers\<close> (\<open>drivers/base.py\<close>), \<open>Ldm_Fakes\<close>
  (\<open>drivers/fakes.py\<close>), \<open>Ldm_Context\<close> (\<open>context.py\<close>, \<open>staging.py\<close>), \<open>Ldm_Extract\<close>, \<open>Ldm_Load\<close>, \<open>Ldm_Validate\<close>,
  \<open>Ldm_Purge\<close>, \<open>Ldm_Reconcile\<close> (the stages and \<open>engines/spark_load.py\<close>), \<open>Ldm_Report\<close> (\<open>report.py\<close>),
  \<open>Ldm_Runner\<close> (\<open>runner.py\<close>, \<open>stages/init.py\<close>, \<open>drivers/factory.py\<close>, \<open>__main__.py\<close>). What a stage relies on is
  a locale over the driver operations, interpreted on the in-memory drivers of the repository.

  \<^bold>\<open>The document service.\<close> \<open>Doc_Store\<close> holds the tables, the request bodies and the business logic
  (\<open>models\<close>, \<open>schemas\<close>, \<open>services/document_service.py\<close>, \<open>event_publisher.py\<close>), \<open>Doc_Api\<close> the handlers with
  authentication, share links, the render cache, the export archive and the metadata filter (\<open>api\<close>),
  \<open>Doc_Rollup\<close> the scheduled statistics (\<open>jobs/stats_rollup.py\<close>), \<open>Doc_Log\<close> the request log
  (\<open>middleware/request_log.py\<close>), \<open>Doc_Runtime\<close> the runtime flags and the migration at start (\<open>chaos.py\<close>,
  \<open>db/migrate.py\<close>). The database is a record of lists of rows; a request is a value that \<open>serve\<close> answers.

  \<^bold>\<open>The search service.\<close> \<open>Search_Index\<close> is the client of the search server
  (\<open>services/meilisearch_client.py\<close>, \<open>models/search_result.py\<close>), \<open>Search_Indexer\<close> the indexer and the consumer of queue
  messages (\<open>services/indexer.py\<close>, \<open>services/sqs_consumer.py\<close>), \<open>Search_Api\<close> the handlers and the authentication
  (\<open>api\<close>, \<open>middleware/auth.py\<close>). The server is a record of operations over a state of any type; \<open>Search_Samples\<close>
  has one in memory, to which the theorems are applied. \<open>Search_Messages\<close> is the JSON that passes from the document
  service to the search service.

  \<^bold>\<open>The billing service.\<close> \<open>Billing\<close> holds plans, subscriptions and entitlements (\<open>domain.py\<close>), the repository in
  Postgres (\<open>repository.py\<close>, \<open>db.py\<close>) and the handlers (\<open>main.py\<close>). The contract of a repository is the locale
  \<open>plans_store\<close> in \<open>Billing_Facts\<close>, interpreted on the repository in Postgres. \<open>Billing_Procs\<close> has the stored
  procedures that the service replaces (\<open>services/legacy-billing/db/procs/plans.sql\<close>).

  \<^bold>\<open>The scheduled jobs.\<close> \<open>Etl_Cloud\<close> holds the buckets, tables and queue that the jobs share; every call may
  fail. \<open>Etl_Archive\<close> is the archive of audit events (\<open>audit_archive_weekly.py\<close>), \<open>Etl_Cleanup\<close> the cleanup of
  orphaned objects (\<open>storage_cleanup_daily.py\<close>), \<open>Etl_Analytics\<close> the extraction and storing of analytics
  (\<open>analytics_daily.py\<close>), \<open>Etl_Activity\<close> the report that reads them (\<open>user_activity_daily.py\<close>), \<open>Etl_Reindex\<close> the weekly
  reindexing (\<open>search_reindex_weekly.py\<close>) over the server of the search service and the listings of the document service.

  \<^bold>\<open>The Python that the code is written in\<close> is in the theories \<open>Py_Text\<close>, \<open>Py_Regex\<close>, \<open>Py_Codec\<close>, \<open>Py_Date\<close>,
  \<open>Py_Html\<close>, \<open>Py_Uuid\<close>, \<open>Py_Json\<close>: string methods, \<open>int\<close>, \<open>re\<close>, codecs, calendar dates, \<open>html.escape\<close>, \<open>uuid.UUID\<close>, for
  code points below 256.

  \<^bold>\<open>What the lemmas show.\<close> For the job: conversion and its bounds and round trips (\<open>Ldm_Numeric\<close>,
  \<open>Ldm_Convert_Facts\<close>), agreement of source and target hashes (\<open>Ldm_Hashing\<close>), ranges that partition the keys
  and files that match the blobs (\<open>Ldm_Extract\<close>), accounting of every record and agreement of the serial and
  the Spark engine (\<open>Ldm_Load\<close>), verdicts that refine a two-pass reference (\<open>Ldm_Validate_Refine\<close>) and mark only
  verified rows (\<open>Ldm_Validate_Facts\<close>), a purge that deletes only safe, audited rows (\<open>Ldm_Purge\<close>), closing
  arithmetic (\<open>Ldm_Reconcile\<close>), reports (\<open>Ldm_Report\<close>), exit codes and ownership of runs (\<open>Ldm_Runner_Facts\<close>), and
  here, in the root, validation and purge together. For the document service: an invariant of the tables
  that every operation keeps (\<open>Doc_History\<close>), reachable databases, ownership, exports (\<open>Doc_Api_Facts\<close>), search,
  pages, restoring (\<open>Doc_Queries\<close>), and what goes wrong when two updates overlap (\<open>Doc_Races\<close>). For the search service: the events of the document
  service determine its live documents (\<open>Doc_Feed\<close>), the index follows them (\<open>Search_Sync\<close>) and a reindexing
  rebuilds it (\<open>Search_Crawl\<close>, \<open>Search_Rebuild\<close>), filters read back as their conditions (\<open>Search_Facts\<close>), pages,
  analytics and authentication (\<open>Search_Pages\<close>). For the billing service: what a plan change does to every later
  entitlement, what it does when a subscription starts on its day, repeated requests (\<open>Billing_Change\<close>), and the
  agreement with the stored procedures (\<open>Billing_Procs\<close>).
  For the jobs: no audit event is lost by one run and some are by two on a day (\<open>Etl_Archive\<close>), referenced
  objects stay (\<open>Etl_Cleanup\<close>), polling ends and a failing run loses events (\<open>Etl_Analytics\<close>), the activity report is
  the tally of the stored files (\<open>Etl_Activity\<close>), the weekly index is exact (\<open>Etl_Reindex\<close>).

  \<^bold>\<open>Bounds.\<close> Recursions are structural or have a measure (\<open>chunks\<close>, \<open>rm\<close>, \<open>re_sub\<close>, the merge of overlays); loops
  over rows, records and chunks are folds over lists, so no fuel is needed. The crawl of the search service,
  which nothing bounds, is a partial function with an optional result, as is the loop over pages of the weekly
  reindexing; \<open>Search_Crawl\<close> shows when the crawl returns. Scans and polling have measures.
  The reader of filters takes the length of the text as its fuel: it reads every filter that the service writes.

  \<^bold>\<open>What is assumed of the outside.\<close> Hash functions, the JWT decoder, MD5, decoders of bytes, answers of Redis
  rows of statements given as text, \<open>uuid5\<close>, gzip, JSON encoders of the jobs, and the aggregation with pandas
  are arguments of the definitions; so is the order of rows that a query leaves open. The laws of the search server are
  \<open>obeys\<close>, \<open>rebuilds\<close> and \<open>weekly_laws\<close>, hypotheses of the theorems that use them. Clocks, fresh identifiers and failing
  commits are read from functions of a tick counter, so they are arbitrary. In the document
  service one request runs after the other, except in \<open>Doc_Races\<close>, where two sessions load a document before
  either commits.

  \<^bold>\<open>Not modelled.\<close> The SQL drivers of the job (\<open>azuresql.py\<close>, \<open>db2.py\<close>, \<open>oracle.py\<close>, \<open>postgresql.py\<close>): text sent to
  servers that are not in the repository. The Azure blob store: a client library. Metrics, tracing, log
  output and most health endpoints: input and output only. The handlers of \<open>legacy-billing\<close> and its
  procedures outside \<open>plans.sql\<close>: calls, and SQL that no Python replaces.
  Numbers in floating point in the reports of the jobs. The masking of query strings in the request log.
  Test harnesses, fixtures, generators of test data, security scanners and operator scripts: tooling around
  the program. Services in other languages.
\<close>

section \<open>Validation and purge together\<close>

text \<open>The keys of a table that a verified validation row can have: see \<open>verified\<close>.\<close>

definition verified_keys ::
  "(bytes \<Rightarrow> bytes) \<Rightarrow> validate_view \<Rightarrow> run_context \<Rightarrow> table_spec list \<Rightarrow> string \<Rightarrow> string set" where
  "verified_keys sha v ctx tss n = {k. \<exists>ts \<in> set tss. \<exists>row. ts_name ts = n \<and> vr_source_key row = k \<and> verified sha v ctx ts row}"

text \<open>After a validation a key is purge-safe because its row was verified now, or was purge-safe before.\<close>

lemma safe_keys_verified:
  assumes "0 < validate_batch_rows (m_batch (rc_manifest ctx))" and "tables_in_order ctx = Inr tss"
    and "Ldm_Validate.validate_run (fake_target_ops sha) sha ctx w = (r, w')"
  shows "set (safe_keys_of (w_target w') (rc_key ctx) n) \<subseteq>
    verified_keys sha (ft_validate_view sha (w_target w)) ctx tss n \<union> set (safe_keys_of (w_target w) (rc_key ctx) n)"
  using validate_run_verified [OF assms(1-3)]
  unfolding fake_validation.safe_inv_def ft_validate_view_simps verified_keys_def safe_keys_of_def
  by (fastforce simp: verified_def)

text \<open>C1. Validation followed by purge, whatever either of them returns: a row leaves the source only
  if its key is the key of a staged row of a data table whose raw bytes convert and whose source
  hash is the hash that the target computes for that key, or if an earlier validation of the run had
  marked its key purge-safe already; all other rows stay, in order.\<close>

theorem pipeline_deletes_only_verified:
  assumes "0 < validate_batch_rows (m_batch (rc_manifest ctx))" and "tables_in_order ctx = Inr tss" and "data_tables ctx = Inr ds"
    and "Ldm_Validate.validate_run (fake_target_ops sha) sha ctx w = (r1, w1)"
    and "purge_run fake_source_ops (fake_target_ops sha) ctx w1 = (r2, w2)"
  shows "only_removed ds (\<lambda>n. verified_keys sha (ft_validate_view sha (w_target w)) ctx tss n \<union>
      set (safe_keys_of (w_target w) (rc_key ctx) n)) (fs_tables (w_source w)) (fs_tables (w_source w2))"
proof -
  have "w_source w1 = w_source w" by (rule quietD [OF validate_source assms(4)])
  with purge_only_safe_audited [OF assms(3,5)] safe_keys_verified [OF assms(1,2,4)] show ?thesis
    by (auto intro: only_removed_mono simp: le_fun_def)
qed

text \<open>One of two source rows is staged and verified: it is deleted, the other stays.\<close>

definition pipeline_start :: "(fake_source, fake_target, files) world" where
  "pipeline_start = (example_world (staged_target [row_a]))\<lparr>w_source :=
     fs_add_rows ''S'' ''CUST'' [[(''I'', VText ''A'')], [(''I'', VText ''B'')]] fs_init\<rparr>"

definition pipeline_validated :: "(ldm_error + (string \<times> counts) list) \<times> (fake_source, fake_target, files) world" where
  "pipeline_validated = Ldm_Validate.validate_run (fake_target_ops (\<lambda>b. b)) (\<lambda>b. b) class_context pipeline_start"

definition pipeline_example :: "(ldm_error + (string \<times> counts) list) \<times> (fake_source, fake_target, files) world" where
  "pipeline_example = purge_run fake_source_ops (fake_target_ops (\<lambda>b. b)) class_context (snd pipeline_validated)"

lemma pipeline_example_deletes:
  "fs_tables (w_source (snd pipeline_example)) ''S.CUST'' = [[(''I'', VText ''B'')]]"
  by code_simp

theorem pipeline_deletes_only_verified_witness:
  "only_removed [class_table] (verified_keys (\<lambda>b. b) example_view class_context [class_table]) (fs_tables (w_source pipeline_start))
     (fs_tables (w_source (snd pipeline_example))) \<and>
   length (fs_tables (w_source pipeline_start) ''S.CUST'') = 2 \<and> length (fs_tables (w_source (snd pipeline_example)) ''S.CUST'') = 1"
proof -
  have h: "0 < validate_batch_rows (m_batch (rc_manifest class_context))" "tables_in_order class_context = Inr [class_table]"
    "data_tables class_context = Inr [class_table]"
    and none: "ft_validation (w_target pipeline_start) (rc_key class_context) = []"
    and two: "length (fs_tables (w_source pipeline_start) ''S.CUST'') = 2"
    by code_simp+
  have v: "Ldm_Validate.validate_run (fake_target_ops (\<lambda>b. b)) (\<lambda>b. b) class_context pipeline_start =
      (fst pipeline_validated, snd pipeline_validated)"
    by (simp add: pipeline_validated_def)
  have p: "purge_run fake_source_ops (fake_target_ops (\<lambda>b. b)) class_context (snd pipeline_validated) =
      (fst pipeline_example, snd pipeline_example)"
    by (simp add: pipeline_example_def)
  have t: "w_target pipeline_start = staged_target [row_a]" by (simp add: pipeline_start_def)
  have "safe_keys_of (w_target pipeline_start) (rc_key class_context) n = []" for n
    using none by (simp add: safe_keys_of_def)
  with pipeline_deletes_only_verified [OF h v p] two pipeline_example_deletes show ?thesis
    by (simp add: example_view_def t)
qed

end
